(* ===== verification/Numu_Prelude.thy ===== *)
theory Numu_Prelude
  imports Complex_Main "HOL-Library.Word" "HOL-Library.Log_Nat"
begin

text \<open>
  Shared vocabulary of the development: identifiers, instants, the exceptions of the
  domain layer (\<open>src/core/exceptions/base.py\<close>) as values, free-form JSON metadata, the
  Python numerics the code relies on (floor division is Isabelle's \<open>div\<close>; the rounding of
  \<open>Decimal\<close> and of binary floating point is written out here) and the list and map lemmas
  the component theories share.
\<close>

unbundle bit_operations_syntax

named_theorems model_simps \<open>unfoldings of small accessors and guards\<close>
named_theorems frame_simps \<open>fields an operation leaves alone\<close>

section \<open>Identifiers and instants\<close>

text \<open>A \<open>UUID\<close> is a 128-bit value; a UTC instant is a number of microseconds.\<close>

type_synonym uuid = "128 word"
type_synonym instant = int

definition hex_digit :: "nat \<Rightarrow> char" where
  "hex_digit n = (''0123456789abcdef'' ! n)"

definition nibble :: "uuid \<Rightarrow> nat \<Rightarrow> nat" where
  "nibble u i = unat (drop_bit (4 * i) u AND 15)"

definition hex_group :: "uuid \<Rightarrow> nat \<Rightarrow> nat \<Rightarrow> string" where
  "hex_group u hi lo = map (\<lambda>i. hex_digit (nibble u i)) (rev [lo..<Suc hi])"

text \<open>\<open>str(uuid)\<close>: 32 lower-case hexadecimal digits in groups of 8-4-4-4-12.\<close>

definition uuid_str :: "uuid \<Rightarrow> string" where
  "uuid_str u = hex_group u 31 24 @ ''-'' @ hex_group u 23 20 @ ''-'' @ hex_group u 19 16
     @ ''-'' @ hex_group u 15 12 @ ''-'' @ hex_group u 11 0"

section \<open>Exceptions as values\<close>

text \<open>
  The exception classes the modelled code raises. The string is the constant part of the
  message, so that two raises of one class in one operation stay distinguishable; the values
  interpolated into a message are not kept.
\<close>

datatype exn =
    ValueError string
  | TypeError string
  | AttributeError string
  | RuntimeError string
  | AssertionError string
  | KeyError string
  | ValidationError string
  | InvalidOperation string
  | EntityNotFoundError string
  | EntityAlreadyExistsError string
  | AuthorizationError string
  | PromotionStateError string
  | CouponPromotionLinkError string
  | IntegrityError string
  | HTTPException string
  | InsufficientStockError string
  | AccountLockedError int
  | WalletSuspendedError

type_synonym 'a result = "exn + 'a"

text \<open>Sequencing: an exception ends the computation.\<close>

definition rbind :: "'a result \<Rightarrow> ('a \<Rightarrow> 'b result) \<Rightarrow> 'b result" where
  "rbind r f = (case r of Inl e \<Rightarrow> Inl e | Inr x \<Rightarrow> f x)"

lemma rbind_simps [simp]: "rbind (Inl e) f = Inl e" "rbind (Inr x) f = f x"
  by (simp_all add: rbind_def)

lemma rbind_Inr_iff: "rbind r f = Inr y \<longleftrightarrow> (\<exists>x. r = Inr x \<and> f x = Inr y)"
  by (cases r) auto

text \<open>\<open>except ValueError as e: raise ValidationError(str(e))\<close>.\<close>

definition as_validation :: "'a result \<Rightarrow> 'a result" where
  "as_validation r = (case r of Inl (ValueError e) \<Rightarrow> Inl (ValidationError e) | _ \<Rightarrow> r)"

lemma as_validation_simps [simp]:
  "as_validation (Inr x) = Inr x" "as_validation (Inl (ValueError e)) = Inl (ValidationError e)"
  "as_validation r = Inr x \<longleftrightarrow> r = Inr x"
  by (auto simp: as_validation_def split: sum.splits exn.splits)

text \<open>A loop that stops at the first exception.\<close>

fun foldM :: "('i \<Rightarrow> 's \<Rightarrow> 's result) \<Rightarrow> 'i list \<Rightarrow> 's \<Rightarrow> 's result" where
  "foldM f [] s = Inr s"
| "foldM f (x # xs) s = rbind (f x s) (foldM f xs)"

text \<open>
  A stream of requests against a store. A request that raises is rolled back and leaves the store
  as it was.
\<close>

definition serve :: "('c \<Rightarrow> 's \<Rightarrow> 's result) \<Rightarrow> 'c \<Rightarrow> 's \<Rightarrow> 's" where
  "serve act c s = (case act c s of Inl _ \<Rightarrow> s | Inr t \<Rightarrow> t)"

definition serve_all :: "('c \<Rightarrow> 's \<Rightarrow> 's result) \<Rightarrow> 'c list \<Rightarrow> 's \<Rightarrow> 's" where
  "serve_all act cs s = fold (serve act) cs s"

lemma serve_all_simps [simp]:
  "serve_all act [] s = s" "serve_all act (c # cs) s = serve_all act cs (serve act c s)"
  by (simp_all add: serve_all_def)

lemma serve_all_invariant:
  assumes "\<And>c s t. I s \<Longrightarrow> act c s = Inr t \<Longrightarrow> I t" "I s"
  shows "I (serve_all act cs s)"
  using assms(2)
proof (induction cs arbitrary: s)
  case (Cons c cs)
  have "I (serve act c s)" using assms(1) [OF Cons.prems] Cons.prems
    by (cases "act c s") (simp_all add: serve_def)
  from Cons.IH [OF this] show ?case by simp
qed simp

fun mapM :: "('a \<Rightarrow> 'b result) \<Rightarrow> 'a list \<Rightarrow> 'b list result" where
  "mapM f [] = Inr []"
| "mapM f (x # xs) = rbind (f x) (\<lambda>y. rbind (mapM f xs) (\<lambda>ys. Inr (y # ys)))"

lemma foldM_append: "foldM f (xs @ ys) s = rbind (foldM f xs s) (foldM f ys)"
proof (induction xs arbitrary: s)
  case (Cons x xs)
  then show ?case by (cases "f x s") simp_all
qed simp

lemma foldM_invariant:
  assumes "\<And>x s s'. x \<in> set xs \<Longrightarrow> I s \<Longrightarrow> f x s = Inr s' \<Longrightarrow> I s'"
    and "I s" and "foldM f xs s = Inr s'"
  shows "I s'"
  using assms
proof (induction xs arbitrary: s)
  case (Cons x xs)
  obtain t where t: "f x s = Inr t" "foldM f xs t = Inr s'"
    using Cons.prems(3) by (auto simp: rbind_Inr_iff)
  have "I t" using Cons.prems(1) [of x s t] Cons.prems(2) t(1) by simp
  show ?case
  proof (rule Cons.IH [OF _ \<open>I t\<close> t(2)])
    fix y u v assume "y \<in> set xs" "I u" "f y u = Inr v"
    then show "I v" using Cons.prems(1) [of y u v] by simp
  qed
qed simp

lemma mapM_Inr: "(\<And>x. x \<in> set xs \<Longrightarrow> f x = Inr (g x)) \<Longrightarrow> mapM f xs = Inr (map g xs)"
  by (induction xs) simp_all

section \<open>Free-form metadata\<close>

text \<open>
  The values a \<open>dict[str, Any]\<close> column holds. \<open>JTime t\<close>, \<open>JUuid u\<close> and \<open>JDec d\<close> stand for the
  strings \<open>t.isoformat()\<close>, \<open>str(u)\<close> and \<open>str(d)\<close>: what the code parses back from such a string is
  the value it was printed from. \<open>JFloat d\<close> is a float, given by the decimal it prints as.
\<close>

datatype json =
    JNull
  | JBool bool
  | JInt int
  | JFloat rat
  | JStr string
  | JTime instant
  | JUuid uuid
  | JDec rat
  | JList "json list"
  | JObj "(string \<times> json) list"

type_synonym metadata = "string \<rightharpoonup> json"

definition json_opt_str :: "string option \<Rightarrow> json" where
  "json_opt_str s = (case s of None \<Rightarrow> JNull | Some x \<Rightarrow> JStr x)"

definition json_opt_uuid :: "uuid option \<Rightarrow> json" where
  "json_opt_uuid u = (case u of None \<Rightarrow> JNull | Some x \<Rightarrow> JUuid x)"

definition json_opt_time :: "instant option \<Rightarrow> json" where
  "json_opt_time t = (case t of None \<Rightarrow> JNull | Some x \<Rightarrow> JTime x)"

text \<open>Truthiness of an optional string: \<open>None\<close> and the empty string are false.\<close>

definition truthy_str :: "string option \<Rightarrow> bool" where
  "truthy_str s = (case s of None \<Rightarrow> False | Some x \<Rightarrow> x \<noteq> [])"

text \<open>Truthiness of a value that may be absent.\<close>

definition json_truthy :: "json option \<Rightarrow> bool" where
  "json_truthy v = (case v of
      None \<Rightarrow> False
    | Some j \<Rightarrow> (case j of
        JNull \<Rightarrow> False | JBool b \<Rightarrow> b | JInt n \<Rightarrow> n \<noteq> 0 | JFloat x \<Rightarrow> x \<noteq> 0 | JStr s \<Rightarrow> s \<noteq> []
      | JList xs \<Rightarrow> xs \<noteq> [] | JObj xs \<Rightarrow> xs \<noteq> [] | _ \<Rightarrow> True))"

text \<open>Truthiness of an optional integer: \<open>None\<close> and \<open>0\<close> are false.\<close>

definition truthy_int :: "int option \<Rightarrow> bool" where
  "truthy_int n = (case n of None \<Rightarrow> False | Some x \<Rightarrow> x \<noteq> 0)"

text \<open>The integers the code compares against an optional bound.\<close>

definition opt_int :: "int option \<Rightarrow> int" where
  "opt_int n = (case n of None \<Rightarrow> 0 | Some x \<Rightarrow> x)"

lemma truthy_str_simps [simp]:
  "truthy_str None = False" "truthy_str (Some x) = (x \<noteq> [])"
  by (simp_all add: truthy_str_def)

lemma truthy_int_simps [simp]:
  "truthy_int None = False" "truthy_int (Some n) = (n \<noteq> 0)"
  by (simp_all add: truthy_int_def)

lemma opt_int_simps [simp]: "opt_int None = 0" "opt_int (Some n) = n"
  by (simp_all add: opt_int_def)

section \<open>Python strings\<close>

text \<open>
  \<open>strip()\<close> and \<open>upper()\<close> on ASCII text, and what \<open>int(s)\<close> and \<open>Decimal(s)\<close> read from a
  string: an optional sign and digits that single underscores may separate; for \<open>Decimal\<close> an
  optional fraction and exponent too, and underscores anywhere. \<open>None\<close> stands for the exception
  they raise (the special values \<open>Infinity\<close> and \<open>NaN\<close> are not read).
\<close>

definition is_space :: "char \<Rightarrow> bool" where
  "is_space c \<longleftrightarrow> of_char c \<in> {9, 10, 11, 12, 13, 28, 29, 30, 31, 32 :: nat}"

definition strip :: "string \<Rightarrow> string" where
  "strip s = rev (dropWhile is_space (rev (dropWhile is_space s)))"

definition char_upper :: "char \<Rightarrow> char" where
  "char_upper c = (let n = (of_char c :: nat)
     in if 97 \<le> n \<and> n \<le> 122 then char_of (n - 32) else c)"

definition upper :: "string \<Rightarrow> string" where
  "upper s = map char_upper s"

definition is_digit :: "char \<Rightarrow> bool" where
  "is_digit c \<longleftrightarrow> 48 \<le> (of_char c :: nat) \<and> (of_char c :: nat) \<le> 57"

definition digit_val :: "char \<Rightarrow> int" where
  "digit_val c = of_char c - 48"

fun read_digits :: "string \<Rightarrow> int \<Rightarrow> bool \<Rightarrow> int option" where
  "read_digits [] acc d = (if d then Some acc else None)"
| "read_digits (c # cs) acc d =
     (if is_digit c then read_digits cs (acc * 10 + digit_val c) True
      else if c = CHR ''_'' \<and> d then read_digits cs acc False else None)"

definition read_signed :: "(string \<Rightarrow> 'a :: uminus option) \<Rightarrow> string \<Rightarrow> 'a option" where
  "read_signed rd s = (case s of
      [] \<Rightarrow> rd []
    | c # cs \<Rightarrow> if c = CHR ''-'' then map_option uminus (rd cs)
                else if c = CHR ''+'' then rd cs else rd s)"

definition py_int_str :: "string \<Rightarrow> int option" where
  "py_int_str s = read_signed (\<lambda>t. read_digits t 0 False) (strip s)"

definition digits_val :: "string \<Rightarrow> int" where
  "digits_val ds = foldl (\<lambda>a c. a * 10 + digit_val c) 0 ds"

text \<open>The unsigned numeral \<open>digits [. digits] [e [sign] digits]\<close>.\<close>

definition read_decimal :: "string \<Rightarrow> rat option" where
  "read_decimal s =
     (let whole = takeWhile is_digit s;
          r1 = dropWhile is_digit s;
          (frac, r2) = (case r1 of
             [] \<Rightarrow> ([], [])
           | c # cs \<Rightarrow> if c = CHR ''.'' then (takeWhile is_digit cs, dropWhile is_digit cs)
                       else ([], r1));
          mant = of_int (digits_val (whole @ frac)) / 10 ^ length frac
      in if whole @ frac = [] then None
         else case r2 of
             [] \<Rightarrow> Some mant
           | c # cs \<Rightarrow>
               if c = CHR ''e'' \<or> c = CHR ''E'' then
                 map_option (\<lambda>e. if 0 \<le> e then mant * 10 ^ nat e else mant / 10 ^ nat (- e))
                   (read_signed (\<lambda>t. if t \<noteq> [] \<and> list_all is_digit t then Some (digits_val t)
                                     else None) cs)
               else None)"

definition py_decimal_str :: "string \<Rightarrow> rat option" where
  "py_decimal_str s =
     read_signed read_decimal (filter (\<lambda>c. c \<noteq> CHR ''_'') (strip s))"

text \<open>\<open>str(n)\<close>, and \<open>str.lower()\<close> and \<open>str.isalnum()\<close> on ASCII text.\<close>

fun nat_digits :: "nat \<Rightarrow> string" where
  "nat_digits n = (if n < 10 then [char_of (48 + n)]
                   else nat_digits (n div 10) @ [char_of (48 + n mod 10)])"

declare nat_digits.simps [simp del]

definition int_str :: "int \<Rightarrow> string" where
  "int_str n = (if n < 0 then CHR ''-'' # nat_digits (nat (- n)) else nat_digits (nat n))"

definition char_lower :: "char \<Rightarrow> char" where
  "char_lower c = (let n = (of_char c :: nat)
     in if 65 \<le> n \<and> n \<le> 90 then char_of (n + 32) else c)"

definition lower :: "string \<Rightarrow> string" where
  "lower s = map char_lower s"

definition is_alnum :: "char \<Rightarrow> bool" where
  "is_alnum c = (let n = (of_char c :: nat)
     in (48 \<le> n \<and> n \<le> 57) \<or> (65 \<le> n \<and> n \<le> 90) \<or> (97 \<le> n \<and> n \<le> 122))"

section \<open>Python numerics\<close>

text \<open>\<open>ROUND_HALF_UP\<close> of \<open>decimal\<close>: ties go away from zero.\<close>

definition half_up :: "rat \<Rightarrow> int" where
  "half_up x = (if 0 \<le> x then \<lfloor>x + 1 / 2\<rfloor> else - \<lfloor>- x + 1 / 2\<rfloor>)"

text \<open>\<open>int(d)\<close> of a \<open>Decimal\<close> truncates towards zero.\<close>

definition trunc_rat :: "rat \<Rightarrow> int" where
  "trunc_rat x = (if 0 \<le> x then \<lfloor>x\<rfloor> else - \<lfloor>- x\<rfloor>)"

text \<open>Round half to even of the quotient \<open>a / b\<close> for \<open>b > 0\<close>.\<close>

definition div_half_even :: "int \<Rightarrow> int \<Rightarrow> int" where
  "div_half_even a b =
     (let q = a div b; r = a mod b
      in if 2 * r < b then q else if b < 2 * r then q + 1 else if even q then q else q + 1)"

text \<open>
  True division of two integers, \<open>a / b\<close> with \<open>b > 0\<close>: the nearest binary64 value, ties to
  even. \<open>fdiv_exp\<close> is the exponent of the last place of the quotient, so that the scaled
  quotient has 53 bits. The range of the exponent is not bounded here: a quotient of cents
  is far from overflow and from the subnormal range.
\<close>

definition fdiv_exp :: "int \<Rightarrow> int \<Rightarrow> int" where
  "fdiv_exp n b =
     (let s = bitlen n - bitlen b
      in if (if 0 \<le> s then b * 2 ^ nat s \<le> n else b \<le> n * 2 ^ nat (- s)) then s - 52 else s - 53)"

definition fdiv_pos :: "int \<Rightarrow> int \<Rightarrow> rat" where
  "fdiv_pos n b =
     (let e = fdiv_exp n b
      in if 0 \<le> e then of_int (div_half_even n (b * 2 ^ nat e) * 2 ^ nat e)
         else of_int (div_half_even (n * 2 ^ nat (- e)) b) / 2 ^ nat (- e))"

definition fdiv :: "int \<Rightarrow> int \<Rightarrow> rat" where
  "fdiv a b = (if a = 0 then 0 else if 0 < a then fdiv_pos a b else - fdiv_pos (- a) b)"

text \<open>\<open>round(x)\<close> of a float: the nearest integer, ties to even.\<close>

definition py_round :: "rat \<Rightarrow> int" where
  "py_round x = (let q = \<lfloor>x\<rfloor>; r = x - of_int q
     in if r < 1 / 2 then q else if 1 / 2 < r then q + 1 else if even q then q else q + 1)"

section \<open>Facts about the roundings\<close>

lemma floor_half_rat [simp]: "\<lfloor>1 / 2 :: rat\<rfloor> = 0"
  by (rule floor_unique) simp_all

lemma half_up_of_int [simp]: "half_up (of_int k) = k"
  by (simp add: half_up_def floor_unique)

lemma half_up_zero [simp]: "half_up 0 = 0"
  by (simp add: half_up_def)

lemma trunc_rat_of_int [simp]: "trunc_rat (of_int k) = k"
  by (simp add: trunc_rat_def)

lemma half_up_uminus: "half_up (- x) = - half_up x"
  by (cases "x = 0") (auto simp: half_up_def)

lemma half_up_error: "\<bar>of_int (half_up x) - x\<bar> \<le> 1 / 2"
proof (cases "0 \<le> x")
  case True
  have "of_int \<lfloor>x + 1 / 2\<rfloor> \<le> x + 1 / 2" "x + 1 / 2 < of_int \<lfloor>x + 1 / 2\<rfloor> + 1"
    using floor_correct [of "x + 1 / 2"] by auto
  then have "\<bar>of_int \<lfloor>x + 1 / 2\<rfloor> - x\<bar> \<le> 1 / 2" by (intro abs_leI) linarith+
  with True show ?thesis by (simp only: half_up_def if_True)
next
  case False
  have "of_int \<lfloor>- x + 1 / 2\<rfloor> \<le> - x + 1 / 2" "- x + 1 / 2 < of_int \<lfloor>- x + 1 / 2\<rfloor> + 1"
    using of_int_floor_le [of "- x + 1 / 2"] floor_correct [of "- x + 1 / 2"] by simp_all
  then have "\<bar>of_int (- \<lfloor>- x + 1 / 2\<rfloor>) - x\<bar> \<le> 1 / 2"
    unfolding of_int_minus by (intro abs_leI) linarith+
  with False show ?thesis by (simp only: half_up_def if_False)
qed

lemma half_up_nonneg: "0 \<le> x \<Longrightarrow> 0 \<le> half_up x"
  by (simp add: half_up_def)

lemma half_up_mono: "x \<le> y \<Longrightarrow> half_up x \<le> half_up y"
proof -
  assume le: "x \<le> y"
  consider "0 \<le> x" | "x < 0" "0 \<le> y" | "y < 0" using le by linarith
  then show ?thesis
  proof cases
    case 1
    with le show ?thesis by (simp add: half_up_def floor_mono)
  next
    case 2
    then have "0 \<le> \<lfloor>- x + 1 / 2\<rfloor>" "0 \<le> \<lfloor>y + 1 / 2\<rfloor>" by simp_all
    with 2 show ?thesis unfolding half_up_def by (simp del: diff_gt_0_iff_gt) linarith
  next
    case 3
    with le show ?thesis by (simp add: half_up_def floor_mono)
  qed
qed

lemma div_half_even_exact: "0 < b \<Longrightarrow> div_half_even (k * b) b = k"
  by (simp add: div_half_even_def)

lemma div_half_even_nonneg: "0 \<le> a \<Longrightarrow> 0 < b \<Longrightarrow> 0 \<le> div_half_even a b"
  by (simp add: div_half_even_def Let_def pos_imp_zdiv_nonneg_iff)

lemma fdiv_nonneg: "0 \<le> a \<Longrightarrow> 0 < b \<Longrightarrow> 0 \<le> fdiv a b"
  by (auto simp: fdiv_def fdiv_pos_def Let_def div_half_even_nonneg)

lemma py_round_of_int [simp]: "py_round (of_int k) = k"
  by (simp add: py_round_def)

lemma py_round_nonneg: "0 \<le> x \<Longrightarrow> 0 \<le> py_round x"
proof -
  assume "0 \<le> x"
  then have "0 \<le> \<lfloor>x\<rfloor>" by simp
  then show ?thesis unfolding py_round_def Let_def by (simp split: if_splits)
qed

text \<open>
  A quotient that is a whole number below \<open>2 ^ 53\<close> is exact in binary64: the scaled
  quotient is whole, so rounding it changes nothing.
\<close>

lemma fdiv_exp_exact:
  assumes b: "0 < b" and k: "0 < k" and small: "k < 2 ^ 53"
  shows "fdiv_exp (k * b) b \<le> 0"
proof -
  let ?s = "bitlen (k * b) - bitlen b"
  have bl: "2 ^ nat (bitlen b - 1) \<le> b" "b < 2 ^ nat (bitlen b)"
    using bitlen_bounds [of b] b by auto
  have kb: "0 < k * b" using b k by simp
  have bn: "2 ^ nat (bitlen (k * b) - 1) \<le> k * b" using bitlen_bounds [of "k * b"] kb by auto
  have p1: "0 < bitlen b" "0 < bitlen (k * b)"
    using b kb by (metis bitlen_nonneg bitlen_eq_zero_iff le_less not_le)+
  show ?thesis
  proof (rule ccontr)
    assume "\<not> ?thesis"
    then have e: "1 \<le> fdiv_exp (k * b) b" by simp
    show False
    proof (cases "53 \<le> ?s \<and> b * 2 ^ nat ?s \<le> k * b")
      case True
      then have "2 ^ nat ?s \<le> k" using b by (simp add: mult.commute)
      moreover have "(2::int) ^ 53 \<le> 2 ^ nat ?s" using True by (intro power_increasing) auto
      ultimately show False using small by linarith
    next
      case False
      with e have s: "54 \<le> ?s" by (auto simp: fdiv_exp_def Let_def split: if_splits)
      then have "nat (bitlen (k * b) - 1) \<ge> nat (bitlen b) + 53" using p1 by linarith
      then have "(2::int) ^ (nat (bitlen b) + 53) \<le> 2 ^ nat (bitlen (k * b) - 1)"
        by (intro power_increasing) auto
      with bn have "2 ^ nat (bitlen b) * 2 ^ 53 \<le> k * b" by (simp add: power_add)
      moreover have "k * b < 2 ^ 53 * 2 ^ nat (bitlen b)"
        using small bl(2) k b by (intro mult_strict_mono) auto
      ultimately show False by (simp add: mult.commute)
    qed
  qed
qed

lemma fdiv_exact:
  assumes b: "0 < b" and k: "0 \<le> k" and small: "k < 2 ^ 53"
  shows "fdiv (k * b) b = of_int k"
proof (cases "k = 0")
  case True
  then show ?thesis by (simp add: fdiv_def)
next
  case False
  with k have kp: "0 < k" by simp
  let ?e = "fdiv_exp (k * b) b"
  have e: "?e \<le> 0" by (rule fdiv_exp_exact [OF b kp small])
  have pos: "0 < k * b" using kp b by simp
  show ?thesis
  proof (cases "?e = 0")
    case True
    then show ?thesis using pos b div_half_even_exact [OF b, of k]
      by (auto simp: fdiv_def fdiv_pos_def)
  next
    case neg: False
    with e have lt: "?e < 0" by simp
    have eq: "k * b * 2 ^ nat (- ?e) = (k * 2 ^ nat (- ?e)) * b" by simp
    have "div_half_even (k * b * 2 ^ nat (- ?e)) b = k * 2 ^ nat (- ?e)"
      unfolding eq by (rule div_half_even_exact [OF b])
    with lt pos b show ?thesis by (auto simp: fdiv_def fdiv_pos_def)
  qed
qed

section \<open>Identifiers print injectively\<close>

lemma nibble_lt: "nibble u i < 16"
proof -
  have "drop_bit (4 * i) u AND 15 \<le> 15" by (rule word_and_le1)
  then show ?thesis unfolding nibble_def by (simp add: word_le_nat_alt)
qed

lemma hex_digit_inj: "m < 16 \<Longrightarrow> n < 16 \<Longrightarrow> hex_digit m = hex_digit n \<Longrightarrow> m = n"
proof -
  assume "m < 16" "n < 16" and eq: "hex_digit m = hex_digit n"
  then have "m \<in> set [0..<16]" "n \<in> set [0..<16]" by auto
  with eq show ?thesis unfolding hex_digit_def by (simp add: upt_rec) auto
qed

lemma hex_group_inj:
  assumes "hex_group u hi lo = hex_group v hi lo" "lo \<le> i" "i \<le> hi"
  shows "nibble u i = nibble v i"
proof -
  have "i \<in> set (rev [lo..<Suc hi])" using assms(2,3) by (simp del: upt_Suc)
  with assms(1) have "hex_digit (nibble u i) = hex_digit (nibble v i)"
    unfolding hex_group_def map_eq_conv by blast
  then show ?thesis by (rule hex_digit_inj [OF nibble_lt nibble_lt])
qed

lemma length_hex_group: "length (hex_group u hi lo) = Suc hi - lo"
  by (simp add: hex_group_def del: upt_Suc)

lemma bit_of_nibble:
  assumes "nibble u (n div 4) = nibble v (n div 4)"
  shows "bit u n = bit v n"
proof -
  have eq: "drop_bit (4 * (n div 4)) u AND 15 = drop_bit (4 * (n div 4)) v AND 15"
    using assms unfolding nibble_def by (rule unsigned_word_eqI)
  have m: "(15 :: uuid) = mask 4" by (simp add: mask_eq_exp_minus_1)
  have "bit (drop_bit (4 * (n div 4)) u AND 15) (n mod 4) = bit u n" for u :: uuid
    unfolding m using mod_less_divisor [of 4 n]
    by (auto simp: bit_and_iff bit_drop_bit_eq bit_mask_iff)
  with eq show ?thesis by metis
qed

lemma uuid_str_inj: "uuid_str u = uuid_str v \<longleftrightarrow> u = v"
proof
  assume eq: "uuid_str u = uuid_str v"
  then have g: "hex_group u 31 24 = hex_group v 31 24" "hex_group u 23 20 = hex_group v 23 20"
    "hex_group u 19 16 = hex_group v 19 16" "hex_group u 15 12 = hex_group v 15 12"
    "hex_group u 11 0 = hex_group v 11 0"
    by (simp_all add: uuid_str_def append_eq_append_conv length_hex_group)
  have nib: "nibble u i = nibble v i" if "i < 32" for i
  proof -
    have "24 \<le> i \<and> i \<le> 31 \<or> 20 \<le> i \<and> i \<le> 23 \<or> 16 \<le> i \<and> i \<le> 19
      \<or> 12 \<le> i \<and> i \<le> 15 \<or> i \<le> 11" using that by linarith
    then show ?thesis
      using hex_group_inj [OF g(1), of i] hex_group_inj [OF g(2), of i]
        hex_group_inj [OF g(3), of i] hex_group_inj [OF g(4), of i] hex_group_inj [OF g(5), of i]
      by auto
  qed
  show "u = v"
  proof (rule bit_word_eqI)
    fix n assume "n < LENGTH(128)"
    then have "n div 4 < 32" by simp
    then show "bit u n = bit v n" by (intro bit_of_nibble nib)
  qed
qed simp

lemma length_uuid_str [simp]: "length (uuid_str u) = 36"
  by (simp add: uuid_str_def length_hex_group)

lemma hex_digit_alnum: "n < 16 \<Longrightarrow> hex_digit n \<in> set ''0123456789abcdef''"
  unfolding hex_digit_def by (intro nth_mem) simp

lemma set_uuid_str: "set (uuid_str u) \<subseteq> set ''0123456789abcdef-''"
  using hex_digit_alnum [OF nibble_lt] by (auto simp: uuid_str_def hex_group_def)

section \<open>Lists\<close>

lemma sum_list_butlast_last:
  fixes f :: "'a \<Rightarrow> int"
  shows "xs \<noteq> [] \<Longrightarrow> sum_list (map f xs) = sum_list (map f (butlast xs)) + f (last xs)"
  by (induction xs rule: rev_induct) simp_all

end
