(* ===== verification/Money.thy ===== *)
theory Money
  imports Numu_Prelude
begin

text \<open>
  The money value object, \<open>src/core/value_objects/money.py\<close>. A \<open>Decimal\<close> amount is a
  rational number: the arithmetic of the default decimal context is exact as long as a
  coefficient has at most 28 digits, which is the range modelled here (NaN and the
  infinities are left out). Every construction rounds to the precision of the currency.
\<close>

section \<open>The value object\<close>

datatype currency = USD | EUR | GBP | SAR | AED | KWD | BHD | QAR | OMR | EGP

fun currency_decimals :: "currency \<Rightarrow> nat" where
  "currency_decimals USD = 2"
| "currency_decimals EUR = 2"
| "currency_decimals GBP = 2"
| "currency_decimals SAR = 2"
| "currency_decimals AED = 2"
| "currency_decimals KWD = 3"
| "currency_decimals BHD = 3"
| "currency_decimals QAR = 2"
| "currency_decimals OMR = 3"
| "currency_decimals EGP = 2"

record money =
  amount :: rat
  money_currency :: currency

text \<open>The constructor with its validator \<open>round_to_currency_precision\<close>.\<close>

definition mk_money :: "rat \<Rightarrow> currency \<Rightarrow> money" where
  "mk_money a c =
     (let scale = 10 ^ currency_decimals c
      in \<lparr>amount = of_int (half_up (a * scale)) / scale, money_currency = c\<rparr>)"

definition from_cents :: "int \<Rightarrow> currency \<Rightarrow> money" where
  "from_cents cents c = mk_money (of_int cents / 10 ^ currency_decimals c) c"

definition money_zero :: "currency \<Rightarrow> money" where
  "money_zero c = mk_money 0 c"

definition money_cents :: "money \<Rightarrow> int" where
  "money_cents m = trunc_rat (amount m * 10 ^ currency_decimals (money_currency m))"

definition money_is_zero :: "money \<Rightarrow> bool" where
  "money_is_zero m \<longleftrightarrow> amount m = 0"

definition money_is_positive :: "money \<Rightarrow> bool" where
  "money_is_positive m \<longleftrightarrow> 0 < amount m"

definition money_is_negative :: "money \<Rightarrow> bool" where
  "money_is_negative m \<longleftrightarrow> amount m < 0"

section \<open>Arithmetic and comparison\<close>

definition money_add :: "money \<Rightarrow> money \<Rightarrow> money result" where
  "money_add m n =
     (if money_currency m \<noteq> money_currency n
      then Inl (ValueError ''Cannot add money with different currencies'')
      else Inr (mk_money (amount m + amount n) (money_currency m)))"

definition money_sub :: "money \<Rightarrow> money \<Rightarrow> money result" where
  "money_sub m n =
     (if money_currency m \<noteq> money_currency n
      then Inl (ValueError ''Cannot subtract money with different currencies'')
      else Inr (mk_money (amount m - amount n) (money_currency m)))"

definition money_mul :: "money \<Rightarrow> rat \<Rightarrow> money" where
  "money_mul m k = mk_money (amount m * k) (money_currency m)"

definition money_rmul :: "rat \<Rightarrow> money \<Rightarrow> money" where
  "money_rmul k m = money_mul m k"

definition money_neg :: "money \<Rightarrow> money" where
  "money_neg m = mk_money (- amount m) (money_currency m)"

definition money_abs :: "money \<Rightarrow> money" where
  "money_abs m = mk_money \<bar>amount m\<bar> (money_currency m)"

text \<open>The four comparisons share their currency guard.\<close>

definition money_compare :: "(rat \<Rightarrow> rat \<Rightarrow> bool) \<Rightarrow> money \<Rightarrow> money \<Rightarrow> bool result" where
  "money_compare cmp m n =
     (if money_currency m \<noteq> money_currency n
      then Inl (ValueError ''Cannot compare money with different currencies'')
      else Inr (cmp (amount m) (amount n)))"

definition money_lt :: "money \<Rightarrow> money \<Rightarrow> bool result" where
  "money_lt = money_compare (<)"

definition money_le :: "money \<Rightarrow> money \<Rightarrow> bool result" where
  "money_le = money_compare (\<le>)"

definition money_gt :: "money \<Rightarrow> money \<Rightarrow> bool result" where
  "money_gt = money_compare (>)"

definition money_ge :: "money \<Rightarrow> money \<Rightarrow> bool result" where
  "money_ge = money_compare (\<ge>)"

section \<open>Allocation\<close>

text \<open>The loop over the ratios: the last share is what the others leave.\<close>

fun allocate_loop :: "int \<Rightarrow> int \<Rightarrow> currency \<Rightarrow> int list \<Rightarrow> int \<Rightarrow> money list" where
  "allocate_loop tot tr c [] acc = []"
| "allocate_loop tot tr c [r] acc = [from_cents (tot - acc) c]"
| "allocate_loop tot tr c (r # r' # rs) acc =
     (let share = (tot * r) div tr
      in from_cents share c # allocate_loop tot tr c (r' # rs) (acc + share))"

definition allocate :: "money \<Rightarrow> int list \<Rightarrow> money list result" where
  "allocate m ratios =
     (if ratios = [] then Inl (ValueError ''Ratios list cannot be empty'')
      else if (\<exists>r\<in>set ratios. r < 0) then Inl (ValueError ''Ratios cannot be negative'')
      else if sum_list ratios = 0 then Inl (ValueError ''Sum of ratios cannot be zero'')
      else Inr (allocate_loop (money_cents m) (sum_list ratios) (money_currency m) ratios 0))"

section \<open>Amounts sit on the grid of their currency\<close>

definition money_wf :: "money \<Rightarrow> bool" where
  "money_wf m \<longleftrightarrow> m = mk_money (amount m) (money_currency m)"

lemma mk_money_currency [simp]: "money_currency (mk_money a c) = c"
  by (simp add: mk_money_def Let_def)

lemma mk_money_cents [simp]: "money_cents (mk_money a c) = half_up (a * 10 ^ currency_decimals c)"
  by (simp add: money_cents_def mk_money_def Let_def)

lemma from_cents_currency [simp]: "money_currency (from_cents n c) = c"
  by (simp add: from_cents_def)

lemma from_cents_cents [simp]: "money_cents (from_cents n c) = n"
  by (simp add: from_cents_def)

lemma mk_money_idem [simp]: "mk_money (amount (mk_money a c)) c = mk_money a c"
  by (simp add: mk_money_def Let_def)

lemma money_wf_mk [simp]: "money_wf (mk_money a c)"
  by (simp add: money_wf_def)

lemma money_wf_from_cents [simp]: "money_wf (from_cents n c)"
  by (simp add: from_cents_def)

lemma money_wf_cents:
  "money_wf m \<Longrightarrow> from_cents (money_cents m) (money_currency m) = m"
proof -
  assume "money_wf m"
  then obtain a c where m: "m = mk_money a c" unfolding money_wf_def by blast
  show ?thesis unfolding m by (simp add: from_cents_def) (simp add: mk_money_def Let_def)
qed

lemma money_amount_cents:
  "money_wf m \<Longrightarrow> amount m * 10 ^ currency_decimals (money_currency m) = of_int (money_cents m)"
proof -
  assume "money_wf m"
  then obtain a c where m: "m = mk_money a c" unfolding money_wf_def by blast
  show ?thesis unfolding m by (simp add: mk_money_def Let_def money_cents_def)
qed

section \<open>Arithmetic is exact in cents\<close>

lemma half_up_cents_sum:
  assumes "money_wf m" "money_wf n" "money_currency m = money_currency n"
  shows "half_up ((amount m + amount n) * 10 ^ currency_decimals (money_currency m))
           = money_cents m + money_cents n"
proof -
  have "(amount m + amount n) * 10 ^ currency_decimals (money_currency m)
      = of_int (money_cents m + money_cents n)"
    using money_amount_cents [OF assms(1)] money_amount_cents [OF assms(2)] assms(3)
    by (simp add: distrib_right)
  then show ?thesis by (simp only: half_up_of_int)
qed

lemma money_neg_cents: "money_wf m \<Longrightarrow> money_cents (money_neg m) = - money_cents m"
  using money_amount_cents [of m] by (simp add: money_neg_def half_up_uminus)

lemma money_wf_neg: "money_wf (money_neg m)"
  by (simp add: money_neg_def)

lemma money_sub_as_add:
  assumes "money_wf m" "money_wf n" "money_currency m = money_currency n"
  shows "money_sub m n = money_add m (money_neg n)"
proof -
  have "amount (money_neg n) = - amount n"
    using money_wf_cents [OF money_wf_neg [of n]] money_neg_cents [OF assms(2)]
      money_amount_cents [OF assms(2)] money_amount_cents [OF money_wf_neg [of n]]
    by (simp add: money_neg_def) (metis (no_types, lifting) minus_mult_left mult_right_cancel
        power_not_zero zero_neq_numeral)
  then show ?thesis using assms(3) by (simp add: money_sub_def money_add_def money_neg_def)
qed

text \<open>
  Adding and subtracting well-formed amounts of one currency loses nothing: the cents add
  and subtract exactly, and the result is again on the grid; two currencies are an error.
\<close>

theorem money_add_sub_exact:
  assumes "money_wf m" "money_wf n"
  shows "(if money_currency m = money_currency n
          then \<exists>s d. money_add m n = Inr s \<and> money_cents s = money_cents m + money_cents n
                 \<and> money_sub m n = Inr d \<and> money_cents d = money_cents m - money_cents n
                 \<and> money_wf s \<and> money_wf d \<and> money_currency s = money_currency m
          else money_add m n = Inl (ValueError ''Cannot add money with different currencies'')
             \<and> money_sub m n = Inl (ValueError ''Cannot subtract money with different currencies''))"
proof (cases "money_currency m = money_currency n")
  case True
  have neg: "money_wf (money_neg n)" "money_currency m = money_currency (money_neg n)"
    using True by (simp_all add: money_wf_neg money_neg_def)
  show ?thesis
    using True half_up_cents_sum [OF assms True] half_up_cents_sum [OF assms(1) neg]
      money_neg_cents [OF assms(2)] money_sub_as_add [OF assms True] neg(2)
    by (simp add: money_add_def)
qed (simp add: money_add_def money_sub_def)

theorem money_add_sub_exact_witness:
  "\<exists>s d. money_add (from_cents 1050 EGP) (from_cents 299 EGP) = Inr s \<and> money_cents s = 1349
     \<and> money_sub (from_cents 1050 EGP) (from_cents 299 EGP) = Inr d \<and> money_cents d = 751"
  using money_add_sub_exact [of "from_cents 1050 EGP" "from_cents 299 EGP"] by auto

section \<open>Allocation conserves the amount\<close>

lemma length_allocate_loop [simp]: "length (allocate_loop tot tr c rs acc) = length rs"
  by (induction tot tr c rs acc rule: allocate_loop.induct) (simp_all add: Let_def)

lemma allocate_loop_currency:
  "m \<in> set (allocate_loop tot tr c rs acc) \<Longrightarrow> money_currency m = c \<and> money_wf m"
  by (induction tot tr c rs acc rule: allocate_loop.induct) (auto simp: Let_def)

lemma allocate_loop_sum:
  "rs \<noteq> [] \<Longrightarrow> sum_list (map money_cents (allocate_loop tot tr c rs acc)) = tot - acc"
  by (induction tot tr c rs acc rule: allocate_loop.induct) (simp_all add: Let_def)

lemma allocate_loop_butlast:
  "map money_cents (butlast (allocate_loop tot tr c rs acc)) = map (\<lambda>r. tot * r div tr) (butlast rs)"
  by (induction tot tr c rs acc rule: allocate_loop.induct)
    (auto simp: Let_def simp flip: length_greater_0_conv)

lemma sum_list_div_bounds:
  fixes t d :: int
  assumes "0 < d"
  shows "sum_list (map (\<lambda>r. t * r div d) rs) * d \<le> t * sum_list rs"
    and "t * sum_list rs \<le> sum_list (map (\<lambda>r. t * r div d) rs) * d + int (length rs) * (d - 1)"
proof -
  have "t * r div d * d \<le> t * r" "t * r \<le> t * r div d * d + (d - 1)" for r
    using assms pos_mod_bound [of d "t * r"] pos_mod_sign [of d "t * r"]
      div_mult_mod_eq [of "t * r" d] by linarith+
  note b = this
  show "sum_list (map (\<lambda>r. t * r div d) rs) * d \<le> t * sum_list rs"
  proof (induction rs)
    case (Cons r rs)
    then show ?case using b(1) [of r] by (simp add: algebra_simps)
  qed simp
  show "t * sum_list rs \<le> sum_list (map (\<lambda>r. t * r div d) rs) * d + int (length rs) * (d - 1)"
  proof (induction rs)
    case (Cons r rs)
    then show ?case using b(2) [of r] by (simp add: algebra_simps)
  qed simp
qed

lemma allocate_Inr:
  assumes "allocate m rs = Inr ms"
  shows "ms = allocate_loop (money_cents m) (sum_list rs) (money_currency m) rs 0"
    and "rs \<noteq> []" and "0 < sum_list rs" and "\<forall>r\<in>set rs. 0 \<le> r"
proof -
  from assms show "ms = allocate_loop (money_cents m) (sum_list rs) (money_currency m) rs 0"
    and ne: "rs \<noteq> []" and nn: "\<forall>r\<in>set rs. 0 \<le> r"
    by (auto simp: allocate_def not_less split: if_splits)
  from assms have "sum_list rs \<noteq> 0" by (auto simp: allocate_def split: if_splits)
  moreover have "0 \<le> sum_list rs" using nn by (intro sum_list_nonneg) auto
  ultimately show "0 < sum_list rs" by simp
qed

text \<open>
  A successful allocation returns one amount per ratio, all on the grid of the currency,
  and their cents sum to the cents allocated: no cent is lost or invented. Every share but the
  last is the floor of its proportional part, and the last one is its own floor plus the whole
  remainder, fewer cents than there are ratios.
\<close>

theorem allocate_conserves:
  assumes ok: "allocate m rs = Inr ms"
  defines "floor_share \<equiv> \<lambda>r. money_cents m * r div sum_list rs"
  shows "length ms = length rs \<and> (\<forall>x\<in>set ms. money_wf x \<and> money_currency x = money_currency m)
    \<and> sum_list (map money_cents ms) = money_cents m
    \<and> map money_cents (butlast ms) = map floor_share (butlast rs)
    \<and> floor_share (last rs) \<le> money_cents (last ms)
    \<and> money_cents (last ms) < floor_share (last rs) + int (length rs)"
proof -
  note ms = allocate_Inr(1) [OF ok] and ne = allocate_Inr(2) [OF ok] and pos = allocate_Inr(3) [OF ok]
  have total: "sum_list (map money_cents ms) = money_cents m"
    unfolding ms using allocate_loop_sum [OF ne] by simp
  have front: "map money_cents (butlast ms) = map floor_share (butlast rs)"
    unfolding ms floor_share_def by (rule allocate_loop_butlast)
  have msne: "ms \<noteq> []" using ne length_allocate_loop ms by (metis length_0_conv)
  have split_ms: "sum_list (map money_cents ms) = sum_list (map floor_share (butlast rs)) + money_cents (last ms)"
    using sum_list_butlast_last [OF msne, of money_cents] front by simp
  have split_rs: "sum_list (map floor_share rs) = sum_list (map floor_share (butlast rs)) + floor_share (last rs)"
    by (rule sum_list_butlast_last [OF ne])
  have b: "sum_list (map floor_share rs) * sum_list rs \<le> money_cents m * sum_list rs"
    "money_cents m * sum_list rs \<le> sum_list (map floor_share rs) * sum_list rs + int (length rs) * (sum_list rs - 1)"
    unfolding floor_share_def by (rule sum_list_div_bounds [OF pos])+
  have lo: "sum_list (map floor_share rs) \<le> money_cents m" using b(1) pos by simp
  have "int (length rs) * (sum_list rs - 1) < int (length rs) * sum_list rs" using ne by simp
  then have "money_cents m * sum_list rs < (sum_list (map floor_share rs) + int (length rs)) * sum_list rs"
    using b(2) by (simp add: distrib_right)
  then have hi: "money_cents m < sum_list (map floor_share rs) + int (length rs)" using pos by simp
  have "\<forall>x\<in>set ms. money_wf x \<and> money_currency x = money_currency m"
    unfolding ms using allocate_loop_currency by blast
  moreover have "length ms = length rs" unfolding ms by simp
  ultimately show ?thesis using total front split_ms split_rs lo hi by auto
qed

theorem allocate_conserves_witness:
  "\<exists>ms. allocate (from_cents 100 EGP) [1, 1, 1] = Inr ms
     \<and> sum_list (map money_cents ms) = 100 \<and> map money_cents (butlast ms) = [33, 33]
     \<and> 33 \<le> money_cents (last ms)"
proof -
  have ok: "allocate (from_cents 100 EGP) [1, 1, 1]
      = Inr (allocate_loop 100 3 EGP [1, 1, 1] 0)" by (simp add: allocate_def)
  show ?thesis using ok allocate_conserves [OF ok] by simp
qed

end
