(* ===== verification/Bag_Contract.thy ===== *)
theory Bag_Contract
  imports Numu_Prelude
begin

text \<open>
  The contract of a container of quantities by key, as the cart offers it to its clients: what
  an insertion does to the count of every key, and the invariant it keeps. Adding a list of
  entries, which is what merging two carts does, is derived from the law of one insertion.
\<close>

locale keyed_bag =
  fixes ins :: "'i \<Rightarrow> 's \<Rightarrow> 's result"
    and count :: "'s \<Rightarrow> 'k \<Rightarrow> int"
    and key :: "'i \<Rightarrow> 'k"
    and amt :: "'i \<Rightarrow> int"
    and good :: "'i \<Rightarrow> bool"
    and invar :: "'s \<Rightarrow> bool"
  assumes ins_law: "invar s \<Longrightarrow> good i \<Longrightarrow>
    \<exists>t. ins i s = Inr t \<and> invar t \<and> count t = (count s)(key i := count s (key i) + amt i)"
begin

definition total_at :: "'i list \<Rightarrow> 'k \<Rightarrow> int" where
  "total_at is k = sum_list (map amt (filter (\<lambda>i. key i = k) is))"

lemma total_at_simps:
  "total_at [] k = 0"
  "total_at (i # is) k = (if key i = k then amt i else 0) + total_at is k"
  by (simp_all add: total_at_def)

lemma ins_all_law:
  assumes "invar s" "\<forall>i\<in>set is. good i"
  shows "\<exists>t. foldM ins is s = Inr t \<and> invar t \<and> (\<forall>k. count t k = count s k + total_at is k)"
  using assms
proof (induction "is" arbitrary: s)
  case Nil
  then show ?case by (simp add: total_at_simps)
next
  case (Cons i "is")
  then obtain u where u: "ins i s = Inr u" "invar u"
    "count u = (count s)(key i := count s (key i) + amt i)"
    using ins_law [of s i] by auto
  from Cons.IH [OF u(2)] Cons.prems(2) obtain t where
    "foldM ins is u = Inr t" "invar t" "\<forall>k. count t k = count u k + total_at is k" by auto
  with u show ?case by (auto simp: total_at_simps)
qed

end

end
