(* ===== verification/Cart.thy ===== *)
theory Cart
  imports Bag_Contract
begin

text \<open>
  The shopping cart: the item value object of \<open>src/core/value_objects/cart_item.py\<close> and the
  entity of \<open>src/core/entities/cart.py\<close>. The clock is an argument, read once per operation.
  An item's key is the string the code builds, and two items share a key exactly when they
  share product and variant.
\<close>

section \<open>Items\<close>

record cart_item =
  ci_product_id :: uuid
  ci_product_name :: string
  ci_variant_id :: "uuid option"
  ci_variant_name :: "string option"
  ci_sku :: "string option"
  ci_quantity :: int
  ci_unit_price :: int
  ci_image_url :: "string option"
  ci_weight :: "rat option"
  ci_category_id :: "uuid option"
  ci_properties :: "(string \<times> json) list"

text \<open>The field validators run by the constructor.\<close>

definition validate_quantity :: "int \<Rightarrow> int result" where
  "validate_quantity v =
     (if v < 1 then Inl (ValueError ''Quantity must be at least 1'') else Inr v)"

definition validate_unit_price :: "int \<Rightarrow> int result" where
  "validate_unit_price v =
     (if v < 0 then Inl (ValueError ''Unit price cannot be negative'') else Inr v)"

definition mk_cart_item :: "cart_item \<Rightarrow> cart_item result" where
  "mk_cart_item i =
     rbind (validate_quantity (ci_quantity i)) (\<lambda>_.
     rbind (validate_unit_price (ci_unit_price i)) (\<lambda>_. Inr i))"

definition total_price :: "cart_item \<Rightarrow> int" where
  "total_price i = ci_unit_price i * ci_quantity i"

definition key_of :: "uuid \<Rightarrow> uuid option \<Rightarrow> string" where
  "key_of pid vid = (case vid of
      Some v \<Rightarrow> uuid_str pid @ '':'' @ uuid_str v
    | None \<Rightarrow> uuid_str pid)"

definition item_key :: "cart_item \<Rightarrow> string" where
  "item_key i = key_of (ci_product_id i) (ci_variant_id i)"

text \<open>
  \<open>with_quantity\<close> rebuilds the item field by field; the call does not pass \<open>category_id\<close>,
  so the copy has the field's default, \<open>None\<close>.
\<close>

definition with_quantity :: "cart_item \<Rightarrow> int \<Rightarrow> cart_item result" where
  "with_quantity i q = mk_cart_item (i\<lparr>ci_quantity := q, ci_category_id := None\<rparr>)"

section \<open>The cart\<close>

record cart =
  cart_id :: uuid
  cart_created_at :: instant
  cart_updated_at :: instant
  cart_session_id :: string
  cart_store_id :: uuid
  cart_customer_id :: "uuid option"
  cart_items :: "cart_item list"
  cart_currency :: string
  cart_notes :: "string option"
  cart_discount_code :: "string option"
  cart_metadata :: "(string \<times> json) list"
  cart_expires_at :: "instant option"

definition item_count :: "cart \<Rightarrow> int" where
  "item_count c = sum_list (map ci_quantity (cart_items c))"

definition unique_item_count :: "cart \<Rightarrow> nat" where
  "unique_item_count c = length (cart_items c)"

definition cart_subtotal :: "cart \<Rightarrow> int" where
  "cart_subtotal c = sum_list (map total_price (cart_items c))"

definition cart_is_empty :: "cart \<Rightarrow> bool" where
  "cart_is_empty c \<longleftrightarrow> length (cart_items c) = 0"

text \<open>The scan of \<open>_find_item_index\<close>: the first index with the key, \<open>-1\<close> if there is none.\<close>

fun index_of_key :: "string \<Rightarrow> cart_item list \<Rightarrow> int \<Rightarrow> int" where
  "index_of_key k [] i = -1"
| "index_of_key k (x # xs) i = (if item_key x = k then i else index_of_key k xs (i + 1))"

definition find_item_index :: "cart \<Rightarrow> uuid \<Rightarrow> uuid option \<Rightarrow> int" where
  "find_item_index c pid vid = index_of_key (key_of pid vid) (cart_items c) 0"

definition get_item :: "cart \<Rightarrow> uuid \<Rightarrow> uuid option \<Rightarrow> cart_item option" where
  "get_item c pid vid =
     (let index = find_item_index c pid vid
      in if 0 \<le> index then Some (cart_items c ! nat index) else None)"

definition add_item :: "instant \<Rightarrow> cart_item \<Rightarrow> cart \<Rightarrow> cart result" where
  "add_item now item c =
     (let index = find_item_index c (ci_product_id item) (ci_variant_id item)
      in if 0 \<le> index then
           (let existing = cart_items c ! nat index
            in rbind (with_quantity existing (ci_quantity existing + ci_quantity item))
                 (\<lambda>updated. Inr (c\<lparr>cart_items := (cart_items c)[nat index := updated],
                                   cart_updated_at := now\<rparr>)))
         else Inr (c\<lparr>cart_items := cart_items c @ [item], cart_updated_at := now\<rparr>))"

definition remove_item :: "instant \<Rightarrow> uuid \<Rightarrow> uuid option \<Rightarrow> cart \<Rightarrow> cart" where
  "remove_item now pid vid c =
     (let index = find_item_index c pid vid
      in if 0 \<le> index then
           c\<lparr>cart_items := take (nat index) (cart_items c) @ drop (Suc (nat index)) (cart_items c),
             cart_updated_at := now\<rparr>
         else c)"

definition update_item_quantity ::
    "instant \<Rightarrow> uuid \<Rightarrow> int \<Rightarrow> uuid option \<Rightarrow> cart \<Rightarrow> cart result" where
  "update_item_quantity now pid quantity vid c =
     (let index = find_item_index c pid vid
      in if index < 0 then Inl (ValueError ''not found in cart'')
         else if quantity \<le> 0 then Inr (remove_item now pid vid c)
         else rbind (with_quantity (cart_items c ! nat index) quantity)
                (\<lambda>updated. Inr (c\<lparr>cart_items := (cart_items c)[nat index := updated],
                                  cart_updated_at := now\<rparr>)))"

definition cart_clear :: "instant \<Rightarrow> cart \<Rightarrow> cart" where
  "cart_clear now c = c\<lparr>cart_items := [], cart_updated_at := now\<rparr>"

definition merge_cart :: "instant \<Rightarrow> cart \<Rightarrow> cart \<Rightarrow> cart result" where
  "merge_cart now other c =
     rbind (foldM (add_item now) (cart_items other) c) (\<lambda>c'.
       Inr (if truthy_str (cart_discount_code other) \<and> \<not> truthy_str (cart_discount_code c')
            then c'\<lparr>cart_discount_code := cart_discount_code other\<rparr> else c'))"

section \<open>Serialisation\<close>

definition item_to_dict :: "cart_item \<Rightarrow> (string \<times> json) list" where
  "item_to_dict i =
     [(''product_id'', JUuid (ci_product_id i)),
      (''product_name'', JStr (ci_product_name i)),
      (''variant_id'', json_opt_uuid (ci_variant_id i)),
      (''variant_name'', json_opt_str (ci_variant_name i)),
      (''sku'', json_opt_str (ci_sku i)),
      (''quantity'', JInt (ci_quantity i)),
      (''unit_price'', JInt (ci_unit_price i)),
      (''image_url'', json_opt_str (ci_image_url i)),
      (''weight'', (case ci_weight i of
          Some w \<Rightarrow> if w = 0 then JNull else JDec w | None \<Rightarrow> JNull)),
      (''properties'', JObj (ci_properties i))]"

text \<open>Readers of the fields: a missing required key raises, an ill-typed value is refused.\<close>

definition req_uuid :: "string \<Rightarrow> (string \<times> json) list \<Rightarrow> uuid result" where
  "req_uuid k d = (case map_of d k of
      None \<Rightarrow> Inl (KeyError k) | Some (JUuid u) \<Rightarrow> Inr u
    | Some _ \<Rightarrow> Inl (ValueError ''badly formed hexadecimal UUID string''))"

definition opt_uuid :: "string \<Rightarrow> (string \<times> json) list \<Rightarrow> uuid option result" where
  "opt_uuid k d = (case map_of d k of
      None \<Rightarrow> Inr None | Some JNull \<Rightarrow> Inr None | Some (JStr []) \<Rightarrow> Inr None
    | Some (JUuid u) \<Rightarrow> Inr (Some u)
    | Some _ \<Rightarrow> Inl (ValueError ''badly formed hexadecimal UUID string''))"

definition req_str :: "string \<Rightarrow> (string \<times> json) list \<Rightarrow> string result" where
  "req_str k d = (case map_of d k of
      None \<Rightarrow> Inl (KeyError k) | Some (JStr x) \<Rightarrow> Inr x
    | Some _ \<Rightarrow> Inl (ValueError ''Input should be a valid string''))"

definition opt_str :: "string \<Rightarrow> (string \<times> json) list \<Rightarrow> string option result" where
  "opt_str k d = (case map_of d k of
      None \<Rightarrow> Inr None | Some JNull \<Rightarrow> Inr None | Some (JStr x) \<Rightarrow> Inr (Some x)
    | Some _ \<Rightarrow> Inl (ValueError ''Input should be a valid string''))"

definition dflt_str :: "string \<Rightarrow> string \<Rightarrow> (string \<times> json) list \<Rightarrow> string result" where
  "dflt_str v k d = (case map_of d k of
      None \<Rightarrow> Inr v | Some (JStr x) \<Rightarrow> Inr x
    | Some _ \<Rightarrow> Inl (ValueError ''Input should be a valid string''))"

definition dflt_int :: "int \<Rightarrow> string \<Rightarrow> (string \<times> json) list \<Rightarrow> int result" where
  "dflt_int v k d = (case map_of d k of
      None \<Rightarrow> Inr v | Some (JInt n) \<Rightarrow> Inr n
    | Some _ \<Rightarrow> Inl (ValueError ''Input should be a valid integer''))"

definition opt_dec :: "string \<Rightarrow> (string \<times> json) list \<Rightarrow> rat option result" where
  "opt_dec k d = (case map_of d k of
      None \<Rightarrow> Inr None | Some JNull \<Rightarrow> Inr None | Some (JStr []) \<Rightarrow> Inr None
    | Some (JDec w) \<Rightarrow> Inr (Some w)
    | Some _ \<Rightarrow> Inl (ValueError ''conversion syntax''))"

definition dflt_obj :: "string \<Rightarrow> (string \<times> json) list \<Rightarrow> (string \<times> json) list result" where
  "dflt_obj k d = (case map_of d k of
      None \<Rightarrow> Inr [] | Some (JObj kv) \<Rightarrow> Inr kv
    | Some _ \<Rightarrow> Inl (ValueError ''Input should be a valid dictionary''))"

definition opt_time :: "string \<Rightarrow> (string \<times> json) list \<Rightarrow> instant option result" where
  "opt_time k d = (case map_of d k of
      None \<Rightarrow> Inr None | Some JNull \<Rightarrow> Inr None | Some (JStr []) \<Rightarrow> Inr None
    | Some (JTime t) \<Rightarrow> Inr (Some t)
    | Some _ \<Rightarrow> Inl (ValueError ''Invalid isoformat string''))"

definition item_from_dict :: "json \<Rightarrow> cart_item result" where
  "item_from_dict j = (case j of
      JObj d \<Rightarrow>
        rbind (req_uuid ''product_id'' d) (\<lambda>pid.
        rbind (req_str ''product_name'' d) (\<lambda>pname.
        rbind (opt_uuid ''variant_id'' d) (\<lambda>vid.
        rbind (opt_str ''variant_name'' d) (\<lambda>vname.
        rbind (opt_str ''sku'' d) (\<lambda>sku.
        rbind (dflt_int 1 ''quantity'' d) (\<lambda>q.
        rbind (dflt_int 0 ''unit_price'' d) (\<lambda>p.
        rbind (opt_str ''image_url'' d) (\<lambda>img.
        rbind (opt_dec ''weight'' d) (\<lambda>w.
        rbind (dflt_obj ''properties'' d) (\<lambda>props.
          mk_cart_item \<lparr>ci_product_id = pid, ci_product_name = pname, ci_variant_id = vid,
            ci_variant_name = vname, ci_sku = sku, ci_quantity = q, ci_unit_price = p,
            ci_image_url = img, ci_weight = w, ci_category_id = None,
            ci_properties = props\<rparr>))))))))))
    | _ \<Rightarrow> Inl (TypeError ''item is not a mapping''))"

definition cart_to_dict :: "cart \<Rightarrow> (string \<times> json) list" where
  "cart_to_dict c =
     [(''id'', JUuid (cart_id c)),
      (''session_id'', JStr (cart_session_id c)),
      (''store_id'', JUuid (cart_store_id c)),
      (''customer_id'', json_opt_uuid (cart_customer_id c)),
      (''items'', JList (map (\<lambda>i. JObj (item_to_dict i)) (cart_items c))),
      (''currency'', JStr (cart_currency c)),
      (''notes'', json_opt_str (cart_notes c)),
      (''discount_code'', json_opt_str (cart_discount_code c)),
      (''metadata'', JObj (cart_metadata c)),
      (''created_at'', JTime (cart_created_at c)),
      (''updated_at'', JTime (cart_updated_at c)),
      (''expires_at'', json_opt_time (cart_expires_at c))]"

text \<open>\<open>fresh\<close> is the identifier \<open>uuid4()\<close> would draw for a dictionary without one.\<close>

definition cart_from_dict :: "uuid \<Rightarrow> instant \<Rightarrow> (string \<times> json) list \<Rightarrow> cart result" where
  "cart_from_dict fresh now d =
     rbind (opt_uuid ''id'' d) (\<lambda>cid.
     rbind (req_str ''session_id'' d) (\<lambda>session.
     rbind (req_uuid ''store_id'' d) (\<lambda>store.
     rbind (opt_uuid ''customer_id'' d) (\<lambda>customer.
     rbind (case map_of d ''items'' of None \<Rightarrow> Inr [] | Some (JList js) \<Rightarrow> mapM item_from_dict js
            | Some _ \<Rightarrow> Inl (TypeError ''items is not a list'')) (\<lambda>items.
     rbind (dflt_str ''USD'' ''currency'' d) (\<lambda>curr.
     rbind (opt_str ''notes'' d) (\<lambda>notes.
     rbind (opt_str ''discount_code'' d) (\<lambda>code.
     rbind (dflt_obj ''metadata'' d) (\<lambda>meta.
     rbind (opt_time ''created_at'' d) (\<lambda>created.
     rbind (opt_time ''updated_at'' d) (\<lambda>updated.
     rbind (opt_time ''expires_at'' d) (\<lambda>expires.
       Inr \<lparr>cart_id = (case cid of Some u \<Rightarrow> u | None \<Rightarrow> fresh),
            cart_created_at = (case created of Some t \<Rightarrow> t | None \<Rightarrow> now),
            cart_updated_at = (case updated of Some t \<Rightarrow> t | None \<Rightarrow> now),
            cart_session_id = session, cart_store_id = store, cart_customer_id = customer,
            cart_items = items, cart_currency = curr, cart_notes = notes,
            cart_discount_code = code, cart_metadata = meta,
            cart_expires_at = expires\<rparr>))))))))))))"

section \<open>Keys identify product and variant\<close>

lemma key_of_inj [simp]: "key_of p v = key_of p' v' \<longleftrightarrow> p = p' \<and> v = v'"
proof -
  have "length (key_of p None) \<noteq> length (key_of p' (Some w))" for p p' w
    by (simp add: key_of_def)
  then have ne: "key_of p None \<noteq> key_of p' (Some w)" "key_of p' (Some w) \<noteq> key_of p None" for p p' w
    by metis+
  show ?thesis
    by (cases v; cases v') (auto simp: ne, auto simp: key_of_def uuid_str_inj)
qed

lemma item_key_eq:
  "item_key i = item_key j \<longleftrightarrow> ci_product_id i = ci_product_id j \<and> ci_variant_id i = ci_variant_id j"
  by (simp add: item_key_def)

section \<open>Well-formed carts\<close>

definition item_ok :: "cart_item \<Rightarrow> bool" where
  "item_ok i \<longleftrightarrow> 1 \<le> ci_quantity i \<and> 0 \<le> ci_unit_price i"

definition cart_wf :: "cart \<Rightarrow> bool" where
  "cart_wf c \<longleftrightarrow> distinct (map item_key (cart_items c)) \<and> (\<forall>i\<in>set (cart_items c). item_ok i)"

text \<open>The abstract view of a cart: how many units it holds under a key.\<close>

definition qty_in :: "cart_item list \<Rightarrow> string \<Rightarrow> int" where
  "qty_in xs k = sum_list (map ci_quantity (filter (\<lambda>i. item_key i = k) xs))"

definition cart_qty :: "cart \<Rightarrow> string \<Rightarrow> int" where
  "cart_qty c = qty_in (cart_items c)"

lemma mk_cart_item_iff: "mk_cart_item i = Inr j \<longleftrightarrow> item_ok i \<and> j = i"
  by (auto simp: mk_cart_item_def validate_quantity_def validate_unit_price_def item_ok_def)

lemma mk_cart_item_ok [simp]: "item_ok i \<Longrightarrow> mk_cart_item i = Inr i"
  by (simp add: mk_cart_item_iff)

lemma with_quantity_ok:
  "item_ok i \<Longrightarrow> 1 \<le> q \<Longrightarrow>
     with_quantity i q = Inr (i\<lparr>ci_quantity := q, ci_category_id := None\<rparr>)"
  by (simp add: with_quantity_def mk_cart_item_iff item_ok_def)

lemma item_key_upd [simp]:
  "item_key (i\<lparr>ci_quantity := q, ci_category_id := n\<rparr>) = item_key i"
  by (simp add: item_key_def)

lemma qty_in_simps [simp]:
  "qty_in [] k = 0"
  "qty_in (i # xs) k = (if item_key i = k then ci_quantity i else 0) + qty_in xs k"
  "qty_in (xs @ ys) k = qty_in xs k + qty_in ys k"
  by (simp_all add: qty_in_def)

lemma qty_in_absent [simp]: "k \<notin> item_key ` set xs \<Longrightarrow> qty_in xs k = 0"
  by (induction xs) auto

section \<open>The scan\<close>

lemma index_of_key_absent: "k \<notin> item_key ` set xs \<Longrightarrow> index_of_key k xs i = -1"
  by (induction xs arbitrary: i) auto

lemma index_of_key_first:
  "k \<notin> item_key ` set ys \<Longrightarrow> item_key x = k \<Longrightarrow>
     index_of_key k (ys @ x # zs) i = i + int (length ys)"
  by (induction ys arbitrary: i) auto

text \<open>Either no item has the key, or the items split at the first one that has.\<close>

lemma cart_split:
  obtains (absent) "k \<notin> item_key ` set xs"
  | (found) ys x zs where "xs = ys @ x # zs" "item_key x = k" "k \<notin> item_key ` set ys"
proof (cases "\<exists>x\<in>set xs. item_key x = k")
  case True
  then obtain ys x zs where "xs = ys @ x # zs" "item_key x = k" "\<forall>y\<in>set ys. item_key y \<noteq> k"
    using split_list_first_prop [of xs "\<lambda>x. item_key x = k"] by auto
  then have "k \<notin> item_key ` set ys" by auto
  with \<open>xs = ys @ x # zs\<close> \<open>item_key x = k\<close> show thesis by (rule found)
next
  case False
  then show thesis using absent by auto
qed

lemma find_absent:
  "key_of p v \<notin> item_key ` set (cart_items c) \<Longrightarrow> find_item_index c p v = -1"
  by (simp add: find_item_index_def index_of_key_absent)

lemma find_found:
  "cart_items c = ys @ x # zs \<Longrightarrow> item_key x = key_of p v \<Longrightarrow> key_of p v \<notin> item_key ` set ys \<Longrightarrow>
     find_item_index c p v = int (length ys)"
  by (simp add: find_item_index_def index_of_key_first)

section \<open>The operations\<close>

lemma add_item_absent:
  "item_key item \<notin> item_key ` set (cart_items c) \<Longrightarrow>
     add_item now item c = Inr (c\<lparr>cart_items := cart_items c @ [item], cart_updated_at := now\<rparr>)"
  by (simp add: add_item_def item_key_def find_absent)

lemma add_item_found:
  assumes "cart_items c = ys @ x # zs" "item_key x = item_key item" "item_key item \<notin> item_key ` set ys"
    and "item_ok x" "item_ok item"
  shows "add_item now item c = Inr (c\<lparr>cart_items := ys @ x\<lparr>ci_quantity := ci_quantity x + ci_quantity item,
     ci_category_id := None\<rparr> # zs, cart_updated_at := now\<rparr>)"
proof -
  have "find_item_index c (ci_product_id item) (ci_variant_id item) = int (length ys)"
    using assms(1-3) by (intro find_found) (simp_all add: item_key_def)
  moreover have "with_quantity x (ci_quantity x + ci_quantity item)
      = Inr (x\<lparr>ci_quantity := ci_quantity x + ci_quantity item, ci_category_id := None\<rparr>)"
    using assms(4,5) by (intro with_quantity_ok) (auto simp: item_ok_def)
  ultimately show ?thesis using assms(1) by (simp add: add_item_def)
qed

lemma add_item_law:
  assumes wf: "cart_wf c" and ok: "item_ok item"
  shows "\<exists>c'. add_item now item c = Inr c' \<and> cart_wf c'
    \<and> cart_qty c' = (cart_qty c)(item_key item := cart_qty c (item_key item) + ci_quantity item)"
proof (cases rule: cart_split [of "item_key item" "cart_items c"])
  case absent
  then show ?thesis using wf ok
    by (auto simp: add_item_absent cart_wf_def cart_qty_def fun_eq_iff)
next
  case (found ys x zs)
  have okx: "item_ok x" using wf found(1) by (simp add: cart_wf_def)
  show ?thesis using wf ok found okx add_item_found [OF found okx ok, of now]
    by (auto simp: cart_wf_def cart_qty_def fun_eq_iff item_ok_def)
qed

interpretation cart_bag: keyed_bag "add_item now" cart_qty item_key ci_quantity item_ok cart_wf
  by unfold_locales (rule add_item_law)

lemma remove_item_spec:
  assumes wf: "cart_wf c"
  shows "cart_wf (remove_item now p v c)
    \<and> cart_qty (remove_item now p v c) = (cart_qty c)(key_of p v := 0)"
proof (cases rule: cart_split [of "key_of p v" "cart_items c"])
  case absent
  then show ?thesis using wf by (auto simp: remove_item_def find_absent cart_qty_def)
next
  case (found ys x zs)
  then have "find_item_index c p v = int (length ys)" by (rule find_found)
  moreover have "key_of p v \<notin> item_key ` set zs" using wf found by (auto simp: cart_wf_def)
  ultimately show ?thesis using wf found
    by (auto simp: remove_item_def cart_wf_def cart_qty_def fun_eq_iff)
qed

lemma update_item_quantity_found:
  assumes wf: "cart_wf c" and "key_of p v \<in> item_key ` set (cart_items c)" and "1 \<le> q"
  shows "\<exists>c'. update_item_quantity now p q v c = Inr c' \<and> cart_wf c'
    \<and> cart_qty c' = (cart_qty c)(key_of p v := q)"
proof (cases rule: cart_split [of "key_of p v" "cart_items c"])
  case absent
  with assms show ?thesis by simp
next
  case (found ys x zs)
  then have ix: "find_item_index c p v = int (length ys)" by (rule find_found)
  have kz: "key_of p v \<notin> item_key ` set zs" using wf found by (auto simp: cart_wf_def)
  have okx: "item_ok x" using wf found(1) by (simp add: cart_wf_def)
  show ?thesis using wf found ix kz okx assms(3) with_quantity_ok [OF okx assms(3)]
    by (auto simp: update_item_quantity_def cart_wf_def cart_qty_def fun_eq_iff item_ok_def)
qed

section \<open>Properties\<close>

text \<open>The four mutating requests a client can make of one cart, as data.\<close>

datatype cart_request =
    AddRequest cart_item
  | RemoveRequest uuid "uuid option"
  | UpdateRequest uuid int "uuid option"
  | ClearRequest

fun cart_step :: "instant \<Rightarrow> cart_request \<Rightarrow> cart \<Rightarrow> cart result" where
  "cart_step now (AddRequest i) c = rbind (mk_cart_item i) (\<lambda>i'. add_item now i' c)"
| "cart_step now (RemoveRequest p v) c = Inr (remove_item now p v c)"
| "cart_step now (UpdateRequest p q v) c = update_item_quantity now p q v c"
| "cart_step now ClearRequest c = Inr (cart_clear now c)"

lemma update_item_quantity_Inr:
  assumes "update_item_quantity now p q v c = Inr c'"
  shows "key_of p v \<in> item_key ` set (cart_items c)"
    and "q \<le> 0 \<Longrightarrow> c' = remove_item now p v c"
proof -
  show "key_of p v \<in> item_key ` set (cart_items c)"
  proof (rule ccontr)
    assume "key_of p v \<notin> item_key ` set (cart_items c)"
    then have "find_item_index c p v = -1" by (rule find_absent)
    with assms show False by (simp add: update_item_quantity_def)
  qed
  show "q \<le> 0 \<Longrightarrow> c' = remove_item now p v c"
    using assms by (simp add: update_item_quantity_def Let_def split: if_splits)
qed

lemma cart_step_wf:
  assumes wf: "cart_wf c" and step: "cart_step now r c = Inr c'"
  shows "cart_wf c'"
proof (cases r)
  case (AddRequest i)
  then have "item_ok i" "add_item now i c = Inr c'"
    using step by (auto simp: rbind_Inr_iff mk_cart_item_iff)
  then show ?thesis using add_item_law [OF wf, of i now] by auto
next
  case (RemoveRequest p v)
  then show ?thesis using step remove_item_spec [OF wf] by auto
next
  case (UpdateRequest p q v)
  then have up: "update_item_quantity now p q v c = Inr c'" using step by simp
  show ?thesis
  proof (cases "q \<le> 0")
    case True
    then show ?thesis
      using update_item_quantity_Inr(2) [OF up] remove_item_spec [OF wf, of now p v] by simp
  next
    case False
    then show ?thesis
      using update_item_quantity_found [OF wf update_item_quantity_Inr(1) [OF up], of q now] up by auto
  qed
next
  case ClearRequest
  then show ?thesis using step by (auto simp: cart_clear_def cart_wf_def)
qed

text \<open>
  Whatever sequence of add, remove, update and clear requests a cart accepts, its items
  keep pairwise different product/variant pairs, quantities of at least one and non-negative
  unit prices.
\<close>

theorem cart_requests_keep_wf:
  assumes "cart_wf c" and "foldM (cart_step now) rs c = Inr c'"
  shows "distinct (map (\<lambda>i. (ci_product_id i, ci_variant_id i)) (cart_items c'))
    \<and> (\<forall>i\<in>set (cart_items c'). 1 \<le> ci_quantity i \<and> 0 \<le> ci_unit_price i)"
proof -
  have "cart_wf c'"
    using cart_step_wf
    by (rule foldM_invariant [where I = cart_wf and f = "cart_step now" and xs = rs and s = c])
      (use assms in simp_all)
  moreover have "distinct (map item_key xs) \<longleftrightarrow> distinct (map (\<lambda>i. (ci_product_id i, ci_variant_id i)) xs)" for xs
    by (induction xs) (auto simp: item_key_eq image_iff)
  ultimately show ?thesis by (simp add: cart_wf_def item_ok_def)
qed

text \<open>A concrete cart and item for the closed instances.\<close>

definition demo_item :: "uuid \<Rightarrow> int \<Rightarrow> int \<Rightarrow> cart_item" where
  "demo_item p q price =
     \<lparr>ci_product_id = p, ci_product_name = ''cap'', ci_variant_id = None, ci_variant_name = None,
      ci_sku = None, ci_quantity = q, ci_unit_price = price, ci_image_url = None,
      ci_weight = None, ci_category_id = Some 7, ci_properties = []\<rparr>"

definition demo_cart :: "cart_item list \<Rightarrow> cart" where
  "demo_cart xs =
     \<lparr>cart_id = 1, cart_created_at = 0, cart_updated_at = 0, cart_session_id = ''s'',
      cart_store_id = 2, cart_customer_id = None, cart_items = xs, cart_currency = ''USD'',
      cart_notes = None, cart_discount_code = None, cart_metadata = [], cart_expires_at = None\<rparr>"

lemma demo_item_ok: "1 \<le> q \<Longrightarrow> 0 \<le> p \<Longrightarrow> item_ok (demo_item u q p)"
  by (simp add: demo_item_def item_ok_def)

lemma demo_item_key: "item_key (demo_item u q p) = key_of u None"
  by (simp add: demo_item_def item_key_def)

lemma demo_cart_nil_wf: "cart_wf (demo_cart [])"
  by (simp add: demo_cart_def cart_wf_def)

theorem cart_requests_keep_wf_witness:
  "\<exists>c'. foldM (cart_step 5) [AddRequest (demo_item 3 2 100), AddRequest (demo_item 3 1 100),
       UpdateRequest 3 4 None] (demo_cart []) = Inr c'
     \<and> distinct (map (\<lambda>i. (ci_product_id i, ci_variant_id i)) (cart_items c'))
     \<and> cart_items c' \<noteq> []"
proof -
  let ?rs = "[AddRequest (demo_item 3 2 100), AddRequest (demo_item 3 1 100), UpdateRequest 3 4 None]"
  have "\<exists>c'. foldM (cart_step 5) ?rs (demo_cart []) = Inr c' \<and> cart_items c' \<noteq> []"
    by (simp add: demo_cart_def demo_item_def mk_cart_item_def validate_quantity_def
        validate_unit_price_def add_item_def find_item_index_def item_key_def Let_def
        with_quantity_def update_item_quantity_def)
  then obtain c' where c': "foldM (cart_step 5) ?rs (demo_cart []) = Inr c'" "cart_items c' \<noteq> []"
    by blast
  show ?thesis using c' cart_requests_keep_wf [OF demo_cart_nil_wf c'(1)] by blast
qed

text \<open>
  Adding a valid item to a well-formed cart always succeeds; the units under the item's
  key grow by its quantity, the units under every other key stay, and the subtotal grows by the
  added units at the price already in the cart, or at the item's own price for a new key.
\<close>

theorem add_item_effect:
  assumes wf: "cart_wf c" and ok: "item_ok item"
  shows "\<exists>c'. add_item now item c = Inr c'
    \<and> cart_qty c' = (cart_qty c)(item_key item := cart_qty c (item_key item) + ci_quantity item)
    \<and> item_count c' = item_count c + ci_quantity item
    \<and> cart_subtotal c' = cart_subtotal c + ci_quantity item *
        (case get_item c (ci_product_id item) (ci_variant_id item) of
           Some old \<Rightarrow> ci_unit_price old | None \<Rightarrow> ci_unit_price item)"
proof (cases rule: cart_split [of "item_key item" "cart_items c"])
  case absent
  then have "get_item c (ci_product_id item) (ci_variant_id item) = None"
    by (simp add: get_item_def find_absent item_key_def)
  then show ?thesis using absent
    by (auto simp: add_item_absent cart_qty_def fun_eq_iff item_count_def cart_subtotal_def total_price_def)
next
  case (found ys x zs)
  have okx: "item_ok x" using wf found(1) by (simp add: cart_wf_def)
  have "find_item_index c (ci_product_id item) (ci_variant_id item) = int (length ys)"
    using found by (intro find_found) (simp_all add: item_key_def)
  then have get: "get_item c (ci_product_id item) (ci_variant_id item) = Some x"
    by (simp add: get_item_def found(1))
  show ?thesis using add_item_found [OF found okx ok, of now] found get
    by (auto simp: cart_qty_def fun_eq_iff item_count_def cart_subtotal_def total_price_def algebra_simps)
qed

theorem add_item_effect_witness:
  "\<exists>c'. add_item 5 (demo_item 3 2 100) (demo_cart []) = Inr c' \<and> item_count c' = 2
     \<and> cart_subtotal c' = 200"
  using add_item_effect [OF demo_cart_nil_wf demo_item_ok [of 2 100 3], of 5]
  by (auto simp: demo_cart_def demo_item_def item_count_def cart_subtotal_def get_item_def
      find_item_index_def)

text \<open>
  Removing a line empties its key and touches no other; updating a present line to a
  positive quantity sets its key to that quantity, updating it to zero or less removes it, and
  updating a line that is not there is an error.
\<close>

theorem update_remove_effect:
  assumes wf: "cart_wf c"
  shows "cart_qty (remove_item now p v c) = (cart_qty c)(key_of p v := 0)
    \<and> (if key_of p v \<in> item_key ` set (cart_items c)
       then \<exists>c'. update_item_quantity now p q v c = Inr c'
              \<and> cart_qty c' = (cart_qty c)(key_of p v := max 0 q)
       else update_item_quantity now p q v c = Inl (ValueError ''not found in cart''))"
proof (cases "key_of p v \<in> item_key ` set (cart_items c)")
  case True
  have up: "\<exists>c'. update_item_quantity now p q v c = Inr c'
      \<and> cart_qty c' = (cart_qty c)(key_of p v := max 0 q)"
  proof (cases "1 \<le> q")
    case True
    then show ?thesis
      using update_item_quantity_found [OF wf \<open>key_of p v \<in> _\<close>, of q now] by (auto simp: max_def)
  next
    case False
    obtain ys x zs where f: "cart_items c = ys @ x # zs" "item_key x = key_of p v"
      "key_of p v \<notin> item_key ` set ys"
      using True by (cases rule: cart_split [of "key_of p v" "cart_items c"]) auto
    from False f have "update_item_quantity now p q v c = Inr (remove_item now p v c)"
      by (simp add: update_item_quantity_def find_found [OF f])
    moreover have "max 0 q = 0" using False by simp
    ultimately show ?thesis using remove_item_spec [OF wf, of now p v] by simp
  qed
  then show ?thesis using True remove_item_spec [OF wf] by auto
next
  case False
  then show ?thesis
    using remove_item_spec [OF wf] find_absent [OF False] by (auto simp: update_item_quantity_def)
qed

theorem update_remove_effect_witness:
  "\<exists>c'. update_item_quantity 9 3 5 None (demo_cart [demo_item 3 2 100]) = Inr c'
     \<and> cart_qty c' (key_of 3 None) = 5"
proof -
  have "cart_wf (demo_cart [demo_item 3 2 100])"
    by (simp add: demo_cart_def cart_wf_def demo_item_ok)
  from update_remove_effect [OF this, of 9 3 None 5] show ?thesis
    by (auto simp: demo_cart_def demo_item_key)
qed

text \<open>
  Merging a cart with valid items into a well-formed cart succeeds and adds the
  quantities of the two carts key by key; the other cart's discount code is taken over only
  when this cart has none.
\<close>

theorem merge_cart_adds:
  assumes wf: "cart_wf c" and ok: "\<forall>i\<in>set (cart_items other). item_ok i"
  shows "\<exists>c'. merge_cart now other c = Inr c' \<and> cart_wf c'
    \<and> (\<forall>k. cart_qty c' k = cart_qty c k + cart_qty other k)
    \<and> (truthy_str (cart_discount_code c) \<longrightarrow> cart_discount_code c' = cart_discount_code c)"
proof -
  obtain t where t: "foldM (add_item now) (cart_items other) c = Inr t" "cart_wf t"
    "\<forall>k. cart_qty t k = cart_qty c k + cart_bag.total_at (cart_items other) k"
    using cart_bag.ins_all_law [OF wf ok] by blast
  have total: "cart_bag.total_at (cart_items other) k = cart_qty other k" for k
    by (simp add: cart_bag.total_at_def cart_qty_def qty_in_def)
  have step: "cart_discount_code u = cart_discount_code s" if "add_item now i s = Inr u" for i s u
    using that by (auto simp: add_item_def Let_def rbind_Inr_iff split: if_splits)
  have "cart_discount_code t = cart_discount_code c"
    by (rule foldM_invariant [where I = "\<lambda>s. cart_discount_code s = cart_discount_code c", OF _ _ t(1)])
      (auto dest: step)
  then show ?thesis using t total
    by (auto simp: merge_cart_def cart_wf_def cart_qty_def)
qed

theorem merge_cart_adds_witness:
  "\<exists>c'. merge_cart 5 (demo_cart [demo_item 3 2 100]) (demo_cart [demo_item 3 1 90]) = Inr c'
     \<and> cart_qty c' (key_of 3 None) = 3"
proof -
  have wf: "cart_wf (demo_cart [demo_item 3 1 90])"
    by (simp add: demo_cart_def cart_wf_def demo_item_ok)
  have ok: "\<forall>i\<in>set (cart_items (demo_cart [demo_item 3 2 100])). item_ok i"
    by (simp add: demo_cart_def demo_item_ok)
  show ?thesis using merge_cart_adds [OF wf ok, of 5]
    by (auto simp: cart_qty_def demo_cart_def demo_item_key) (auto simp: demo_item_def)
qed

section \<open>Serialisation round trip\<close>

text \<open>What survives a round trip: the category is not stored and a zero weight reads back absent.\<close>

definition stored_item :: "cart_item \<Rightarrow> cart_item" where
  "stored_item i = i\<lparr>ci_category_id := None,
     ci_weight := (if ci_weight i = Some 0 then None else ci_weight i)\<rparr>"

lemmas dict_readers = req_uuid_def opt_uuid_def req_str_def opt_str_def dflt_str_def dflt_int_def
  opt_dec_def dflt_obj_def opt_time_def json_opt_uuid_def json_opt_str_def json_opt_time_def

lemma item_roundtrip:
  "item_ok i \<Longrightarrow> item_from_dict (JObj (item_to_dict i)) = Inr (stored_item i)"
  by (cases i) (simp add: item_from_dict_def item_to_dict_def dict_readers stored_item_def
      mk_cart_item_iff item_ok_def split: option.splits)

text \<open>
  C38: reading a serialised cart back gives the same cart, except that its items have lost
  their category and a weight of zero.
\<close>

theorem cart_dict_roundtrip:
  assumes "\<forall>i\<in>set (cart_items c). item_ok i"
  shows "cart_from_dict fresh now (cart_to_dict c)
    = Inr (c\<lparr>cart_items := map stored_item (cart_items c)\<rparr>)"
proof -
  have "mapM item_from_dict (map (\<lambda>i. JObj (item_to_dict i)) xs) = Inr (map stored_item xs)"
    if "\<forall>i\<in>set xs. item_ok i" for xs
    using that by (induction xs) (simp_all add: item_roundtrip)
  with assms show ?thesis
    by (cases c) (simp add: cart_from_dict_def cart_to_dict_def dict_readers split: option.splits)
qed

theorem cart_dict_roundtrip_witness:
  "cart_from_dict 9 9 (cart_to_dict (demo_cart [demo_item 3 2 100]))
     = Inr (demo_cart [stored_item (demo_item 3 2 100)])"
  using cart_dict_roundtrip [of "demo_cart [demo_item 3 2 100]" 9 9]
  by (simp add: demo_cart_def demo_item_ok)

text \<open>
  Adding to a line that is already in the cart drops the category of that line: the item
  \<open>with_quantity\<close> builds has none, whatever the old or the added item said.
\<close>

theorem add_again_drops_category:
  assumes "cart_wf c" and "item_ok item" and "get_item c (ci_product_id item) (ci_variant_id item) = Some old"
  shows "\<exists>c' new. add_item now item c = Inr c'
    \<and> get_item c' (ci_product_id item) (ci_variant_id item) = Some new \<and> ci_category_id new = None"
proof (cases rule: cart_split [of "item_key item" "cart_items c"])
  case absent
  with assms(3) show ?thesis by (simp add: get_item_def find_absent item_key_def)
next
  case (found ys x zs)
  have okx: "item_ok x" using assms(1) found(1) by (simp add: cart_wf_def)
  let ?new = "x\<lparr>ci_quantity := ci_quantity x + ci_quantity item, ci_category_id := None\<rparr>"
  let ?c = "c\<lparr>cart_items := ys @ ?new # zs, cart_updated_at := now\<rparr>"
  have "find_item_index ?c (ci_product_id item) (ci_variant_id item) = int (length ys)"
    using found by (intro find_found [where x = ?new]) (simp_all add: item_key_def)
  then have "get_item ?c (ci_product_id item) (ci_variant_id item) = Some ?new"
    by (simp add: get_item_def)
  then show ?thesis using add_item_found [OF found okx assms(2), of now]
    by (intro exI [of _ ?c] exI [of _ ?new]) simp
qed

theorem add_again_drops_category_witness:
  "\<exists>c' new. add_item 5 (demo_item 3 1 100) (demo_cart [demo_item 3 2 100]) = Inr c'
     \<and> get_item c' 3 None = Some new \<and> ci_category_id new = None
     \<and> ci_category_id (demo_item 3 2 100) = Some 7"
proof -
  have wf: "cart_wf (demo_cart [demo_item 3 2 100])"
    by (simp add: demo_cart_def cart_wf_def demo_item_ok)
  have get: "get_item (demo_cart [demo_item 3 2 100]) (ci_product_id (demo_item 3 1 100))
      (ci_variant_id (demo_item 3 1 100)) = Some (demo_item 3 2 100)"
    by (simp add: get_item_def find_item_index_def demo_cart_def demo_item_key)
      (simp add: demo_item_def)
  show ?thesis
    using add_again_drops_category [OF wf demo_item_ok [of 1 100 3] get, of 5]
    by (simp add: demo_item_def)
qed

end
