(* ===== verification/Status_Machine.thy ===== *)
theory Status_Machine
  imports Numu_Prelude
begin

text \<open>
  The status machines of the entities. Orders, refunds and returns keep a table of allowed next
  statuses and append every change to \<open>metadata["status_history"]\<close>; promotions and inventory
  transfers only move along a fixed set of edges. \<open>status_machine\<close> is the part all of them
  promise; \<open>audited_machine\<close> adds the trail.
\<close>

section \<open>The trail in the metadata\<close>

text \<open>
  \<open>history.append(entry)\<close> on the list stored under a key, created when the key is missing; a
  stored value of another type has no \<open>append\<close>.
\<close>

definition push_history :: "string \<Rightarrow> json \<Rightarrow> metadata \<Rightarrow> metadata result" where
  "push_history k entry m = (case m k of
      None \<Rightarrow> Inr (m(k \<mapsto> JList [entry]))
    | Some (JList es) \<Rightarrow> Inr (m(k \<mapsto> JList (es @ [entry])))
    | Some _ \<Rightarrow> Inl (AttributeError ''append''))"

definition entry_edge :: "json \<Rightarrow> json option \<times> json option" where
  "entry_edge j = (case j of
      JObj kv \<Rightarrow> (map_of kv ''from'', map_of kv ''to'') | _ \<Rightarrow> (None, None))"

definition trail :: "metadata \<Rightarrow> (json option \<times> json option) list" where
  "trail m = (case m ''status_history'' of
      Some (JList es) \<Rightarrow> map entry_edge es | _ \<Rightarrow> [])"

lemma trail_cong: "m ''status_history'' = n ''status_history'' \<Longrightarrow> trail m = trail n"
  by (simp add: trail_def)

lemma trail_upd_other [simp]: "k \<noteq> ''status_history'' \<Longrightarrow> trail (m(k \<mapsto> j)) = trail m"
  by (simp add: trail_def)

lemma push_history_trail:
  "push_history ''status_history'' e m = Inr m' \<Longrightarrow> trail m' = trail m @ [entry_edge e]"
  by (auto simp: push_history_def trail_def split: option.splits json.splits)

lemma push_history_other:
  "push_history k e m = Inr m' \<Longrightarrow> k' \<noteq> k \<Longrightarrow> m' k' = m k'"
  by (auto simp: push_history_def split: option.splits json.splits)

lemma push_history_other_trail:
  "push_history k e m = Inr m' \<Longrightarrow> k \<noteq> ''status_history'' \<Longrightarrow> trail m' = trail m"
  by (rule trail_cong) (simp add: push_history_other)

lemma push_history_empty [simp]:
  "push_history k e Map.empty = Inr (Map.empty(k \<mapsto> JList [e]))"
  by (simp add: push_history_def)

text \<open>Metadata whose history, if there is one, is a list: the state the code itself produces.\<close>

definition history_ok :: "string \<Rightarrow> metadata \<Rightarrow> bool" where
  "history_ok k m \<longleftrightarrow> (case m k of None \<Rightarrow> True | Some (JList _) \<Rightarrow> True | _ \<Rightarrow> False)"

lemma push_history_total:
  assumes "history_ok k m"
  shows "\<exists>m'. push_history k e m = Inr m' \<and> history_ok k m'"
proof (cases "m k")
  case None
  then show ?thesis by (simp add: push_history_def history_ok_def)
next
  case (Some j)
  with assms obtain es where "j = JList es" by (cases j) (simp_all add: history_ok_def)
  with Some show ?thesis by (simp add: push_history_def history_ok_def)
qed

lemma history_ok_empty [simp]: "history_ok k Map.empty"
  by (simp add: history_ok_def)

lemma history_ok_upd [simp]: "k \<noteq> k' \<Longrightarrow> history_ok k (m(k' \<mapsto> j)) = history_ok k m"
  by (simp add: history_ok_def)

section \<open>Walks along a table\<close>

fun chain :: "('st \<Rightarrow> 'st list) \<Rightarrow> 'st \<Rightarrow> 'st list \<Rightarrow> bool" where
  "chain nx a [] = True"
| "chain nx a (b # bs) = (b \<in> set (nx a) \<and> chain nx b bs)"

fun edges :: "'st \<Rightarrow> 'st list \<Rightarrow> ('st \<times> 'st) list" where
  "edges a [] = []"
| "edges a (b # bs) = (a, b) # edges b bs"

lemma chain_closed:
  assumes "chain nx a bs" "a \<in> A" "\<And>x. x \<in> A \<Longrightarrow> set (nx x) \<subseteq> A"
  shows "last (a # bs) \<in> A"
  using assms(1,2)
proof (induction bs arbitrary: a)
  case (Cons b bs)
  then show ?case using assms(3) [of a] by auto
qed simp

section \<open>The contracts\<close>

locale status_machine =
  fixes next_of :: "'st \<Rightarrow> 'st list"
    and status_of :: "'s \<Rightarrow> 'st"
    and act :: "'op \<Rightarrow> 's \<Rightarrow> 's result"
  assumes act_law: "act x s = Inr s' \<Longrightarrow>
    status_of s' = status_of s \<or> status_of s' \<in> set (next_of (status_of s))"
begin

lemma run_chain:
  "foldM act xs s = Inr s' \<Longrightarrow>
    \<exists>bs. chain next_of (status_of s) bs \<and> status_of s' = last (status_of s # bs)"
proof (induction xs arbitrary: s)
  case Nil
  then show ?case by (auto intro: exI [of _ "[]"])
next
  case (Cons x xs)
  then obtain t where t: "act x s = Inr t" "foldM act xs t = Inr s'" by (auto simp: rbind_Inr_iff)
  from Cons.IH [OF t(2)] obtain bs where
    bs: "chain next_of (status_of t) bs" "status_of s' = last (status_of t # bs)" by blast
  from act_law [OF t(1)] show ?case
  proof
    assume "status_of t = status_of s"
    with bs show ?thesis by auto
  next
    assume "status_of t \<in> set (next_of (status_of s))"
    with bs show ?thesis by (intro exI [of _ "status_of t # bs"]) simp
  qed
qed

lemma run_closed:
  assumes "foldM act xs s = Inr s'" "status_of s \<in> A" "\<And>x. x \<in> A \<Longrightarrow> set (next_of x) \<subseteq> A"
  shows "status_of s' \<in> A"
proof -
  obtain bs where bs: "chain next_of (status_of s) bs" "status_of s' = last (status_of s # bs)"
    using run_chain [OF assms(1)] by blast
  show ?thesis unfolding bs(2) by (rule chain_closed [OF bs(1) assms(2,3)])
qed

lemma run_terminal:
  assumes "foldM act xs s = Inr s'" "next_of (status_of s) = []"
  shows "status_of s' = status_of s"
  using run_closed [OF assms(1), of "{status_of s}"] assms(2) by simp

text \<open>The same for a stream of requests, the refused ones included.\<close>

lemma serve_law:
  "status_of (serve act x s) = status_of s \<or> status_of (serve act x s) \<in> set (next_of (status_of s))"
  using act_law [of x s] by (cases "act x s") (simp_all add: serve_def)

lemma serve_chain:
  "\<exists>bs. chain next_of (status_of s) bs \<and> status_of (serve_all act xs s) = last (status_of s # bs)"
proof (induction xs arbitrary: s)
  case Nil
  then show ?case by (auto intro: exI [of _ "[]"])
next
  case (Cons x xs)
  let ?t = "serve act x s"
  obtain bs where bs: "chain next_of (status_of ?t) bs" "status_of (serve_all act xs ?t) = last (status_of ?t # bs)"
    using Cons.IH by blast
  from serve_law show ?case
  proof
    assume "status_of ?t = status_of s"
    with bs show ?thesis by auto
  next
    assume "status_of ?t \<in> set (next_of (status_of s))"
    with bs show ?thesis by (intro exI [of _ "status_of ?t # bs"]) simp
  qed
qed

end

locale audited_machine = status_machine next_of status_of act
  for next_of :: "'st \<Rightarrow> 'st list" and status_of :: "'s \<Rightarrow> 'st" and act :: "'op \<Rightarrow> 's \<Rightarrow> 's result" +
  fixes label :: "'st \<Rightarrow> string"
    and meta :: "'s \<Rightarrow> metadata"
  assumes audit_law: "act x s = Inr s' \<Longrightarrow>
    (status_of s' = status_of s \<and> trail (meta s') = trail (meta s)) \<or>
    (status_of s' \<in> set (next_of (status_of s)) \<and>
     trail (meta s') = trail (meta s) @
       [(Some (JStr (label (status_of s))), Some (JStr (label (status_of s'))))])"
begin

definition labelled :: "('st \<times> 'st) list \<Rightarrow> (json option \<times> json option) list" where
  "labelled = map (\<lambda>(a, b). (Some (JStr (label a)), Some (JStr (label b))))"

lemma run_audited:
  "foldM act xs s = Inr s' \<Longrightarrow>
    \<exists>bs. chain next_of (status_of s) bs \<and> status_of s' = last (status_of s # bs)
      \<and> trail (meta s') = trail (meta s) @ labelled (edges (status_of s) bs)"
proof (induction xs arbitrary: s)
  case Nil
  then show ?case by (auto simp: labelled_def intro: exI [of _ "[]"])
next
  case (Cons x xs)
  then obtain t where t: "act x s = Inr t" "foldM act xs t = Inr s'" by (auto simp: rbind_Inr_iff)
  from Cons.IH [OF t(2)] obtain bs where
    bs: "chain next_of (status_of t) bs" "status_of s' = last (status_of t # bs)"
    "trail (meta s') = trail (meta t) @ labelled (edges (status_of t) bs)" by blast
  from audit_law [OF t(1)] show ?case
  proof
    assume "status_of t = status_of s \<and> trail (meta t) = trail (meta s)"
    with bs show ?thesis by auto
  next
    assume "status_of t \<in> set (next_of (status_of s)) \<and> trail (meta t) = trail (meta s) @
      [(Some (JStr (label (status_of s))), Some (JStr (label (status_of t))))]"
    with bs show ?thesis by (intro exI [of _ "status_of t # bs"]) (simp add: labelled_def)
  qed
qed

end

end
