(* ===== verification/Order.thy ===== *)
theory Order
  imports Status_Machine Money
begin

text \<open>
  The order entity, \<open>src/core/entities/order.py\<close>: its status table, the operations that move an
  order along it, the payment plane (deposit, full payment, partial acceptance, reversal,
  amounts due) and the audit trail in its metadata. An operation is given the instant of the
  call; the code reads the clock again for each field it stamps.
\<close>

section \<open>Statuses and the transition table\<close>

datatype order_status =
    DRAFT | PENDING_DEPOSIT | AWAITING_PAYMENT | PENDING | CONFIRMED | PROCESSING | SHIPPED
  | DELIVERED | RETURNED | CANCELLED | REFUNDED | PAYMENT_FAILED

definition order_status_value :: "order_status \<Rightarrow> string" where
  "order_status_value st = (case st of
      DRAFT \<Rightarrow> ''draft'' | PENDING_DEPOSIT \<Rightarrow> ''pending_deposit''
    | AWAITING_PAYMENT \<Rightarrow> ''awaiting_payment'' | PENDING \<Rightarrow> ''pending''
    | CONFIRMED \<Rightarrow> ''confirmed'' | PROCESSING \<Rightarrow> ''processing'' | SHIPPED \<Rightarrow> ''shipped''
    | DELIVERED \<Rightarrow> ''delivered'' | RETURNED \<Rightarrow> ''returned'' | CANCELLED \<Rightarrow> ''cancelled''
    | REFUNDED \<Rightarrow> ''refunded'' | PAYMENT_FAILED \<Rightarrow> ''payment_failed'')"

definition card_gateway_prefixes :: "string list" where
  "card_gateway_prefixes = [''paymob'', ''kashier'', ''fawaterak'', ''moyasar'']"

definition order_next :: "order_status \<Rightarrow> order_status list" where
  "order_next st = (case st of
      DRAFT \<Rightarrow> [PENDING, CANCELLED]
    | PENDING_DEPOSIT \<Rightarrow> [CONFIRMED, CANCELLED, PAYMENT_FAILED]
    | AWAITING_PAYMENT \<Rightarrow> [PROCESSING, CANCELLED, PAYMENT_FAILED]
    | PENDING \<Rightarrow> [CONFIRMED, PROCESSING, CANCELLED, PAYMENT_FAILED]
    | CONFIRMED \<Rightarrow> [PROCESSING, CANCELLED]
    | PROCESSING \<Rightarrow> [SHIPPED, CANCELLED]
    | SHIPPED \<Rightarrow> [DELIVERED, RETURNED]
    | DELIVERED \<Rightarrow> [REFUNDED]
    | CANCELLED \<Rightarrow> [] | RETURNED \<Rightarrow> [] | REFUNDED \<Rightarrow> []
    | PAYMENT_FAILED \<Rightarrow> [PENDING, CANCELLED])"

definition pre_fulfilment :: "order_status list" where
  "pre_fulfilment = [PENDING, CONFIRMED, AWAITING_PAYMENT, PAYMENT_FAILED]"

datatype payment_status =
    PayPending | PayAuthorized | PayPaid | PayPartiallyRefunded | PayRefunded | PayFailed

datatype fulfillment_status = Unfulfilled | PartiallyFulfilled | Fulfilled

section \<open>Lines, addresses and the order\<close>

record order_line_item =
  ol_product_id :: uuid
  ol_product_name :: string
  ol_variant_id :: "uuid option"
  ol_variant_name :: "string option"
  ol_sku :: "string option"
  ol_quantity :: int
  ol_unit_price :: int
  ol_total_price :: int
  ol_weight :: "rat option"
  ol_properties :: "(string \<times> json) list"

text \<open>The bounds the line's fields declare.\<close>

definition order_line_ok :: "order_line_item \<Rightarrow> bool" where
  "order_line_ok l \<longleftrightarrow> 1 \<le> ol_quantity l \<and> 0 \<le> ol_unit_price l \<and> 0 \<le> ol_total_price l"

record order_address =
  oa_first_name :: string
  oa_last_name :: string
  oa_address_line1 :: string
  oa_city :: string
  oa_country :: string
  oa_address_line2 :: "string option"
  oa_state :: "string option"
  oa_postal_code :: "string option"
  oa_phone :: "string option"
  oa_latitude :: "rat option"
  oa_longitude :: "rat option"
  oa_location_accuracy :: "rat option"
  oa_location_source :: "string option"
  oa_geocoded_address :: "string option"

definition address_full_name :: "order_address \<Rightarrow> string" where
  "address_full_name a = oa_first_name a @ '' '' @ oa_last_name a"

text \<open>A part that is present and not empty, as a list of zero or one strings.\<close>

definition str_part :: "string option \<Rightarrow> string list" where
  "str_part p = (if truthy_str p then [the p] else [])"

fun join_comma :: "string list \<Rightarrow> string" where
  "join_comma [] = ''''"
| "join_comma [x] = x"
| "join_comma (x # xs) = x @ '', '' @ join_comma xs"

definition formatted_address :: "order_address \<Rightarrow> string" where
  "formatted_address a = join_comma
     ([oa_address_line1 a] @ str_part (oa_address_line2 a) @ [oa_city a] @ str_part (oa_state a)
      @ str_part (oa_postal_code a) @ [oa_country a])"

record order =
  ord_id :: uuid
  ord_created_at :: instant
  ord_updated_at :: instant
  ord_store_id :: uuid
  ord_tenant_id :: "uuid option"
  ord_customer_id :: uuid
  ord_order_number :: string
  ord_line_items :: "order_line_item list"
  ord_shipping_address :: order_address
  ord_billing_address :: "order_address option"
  ord_status :: order_status
  ord_payment_status :: payment_status
  ord_fulfillment_status :: fulfillment_status
  ord_subtotal :: int
  ord_shipping_cost :: int
  ord_tax_amount :: int
  ord_discount_amount :: int
  ord_total :: int
  ord_collected_total :: "int option"
  ord_currency :: string
  ord_payment_method :: "string option"
  ord_payment_id :: "string option"
  ord_shipping_method :: "string option"
  ord_shipping_zone_id :: "uuid option"
  ord_shipping_rate_id :: "uuid option"
  ord_deposit_required_cents :: "int option"
  ord_deposit_amount_cents :: "int option"
  ord_deposit_paid_at :: "instant option"
  ord_deposit_expires_at :: "instant option"
  ord_deposit_gateway :: "string option"
  ord_deposit_payment_id :: "string option"
  ord_customer_confirmation_status :: "string option"
  ord_customer_confirmation_requested_at :: "instant option"
  ord_customer_confirmed_at :: "instant option"
  ord_cod_review_status :: "string option"
  ord_cod_reviewed_at :: "instant option"
  ord_tracking_number :: "string option"
  ord_tracking_url :: "string option"
  ord_notes :: "string option"
  ord_coupon_code :: "string option"
  ord_coupon_id :: "uuid option"
  ord_applied_promotions :: "json list"
  ord_customer_notes :: "string option"
  ord_metadata :: metadata
  ord_utm_source :: "string option"
  ord_utm_medium :: "string option"
  ord_utm_campaign :: "string option"
  ord_utm_term :: "string option"
  ord_utm_content :: "string option"
  ord_campaign_id :: "uuid option"
  ord_attribution :: "(string \<times> json) list option"
  ord_first_touch_at :: "instant option"
  ord_session_fingerprint :: "string option"
  ord_version :: int
  ord_cancelled_at :: "instant option"
  ord_paid_at :: "instant option"
  ord_cash_received_at :: "instant option"
  ord_fulfilled_at :: "instant option"
  ord_shipped_at :: "instant option"
  ord_delivered_at :: "instant option"

text \<open>The bounds the order's fields declare, and the default of the billing address.\<close>

definition order_ok :: "order \<Rightarrow> bool" where
  "order_ok o' \<longleftrightarrow> (\<forall>l\<in>set (ord_line_items o'). order_line_ok l) \<and> 0 \<le> ord_subtotal o'
     \<and> 0 \<le> ord_shipping_cost o' \<and> 0 \<le> ord_tax_amount o' \<and> 0 \<le> ord_discount_amount o'
     \<and> 0 \<le> ord_total o' \<and> (case ord_collected_total o' of None \<Rightarrow> True | Some n \<Rightarrow> 0 \<le> n)"

definition order_post_init :: "order \<Rightarrow> order" where
  "order_post_init o' = (if ord_billing_address o' = None
     then o'\<lparr>ord_billing_address := Some (ord_shipping_address o')\<rparr> else o')"

section \<open>Derived values\<close>

definition order_is_paid :: "order \<Rightarrow> bool" where
  "order_is_paid o' \<longleftrightarrow> ord_payment_status o' = PayPaid"

definition balance_due_cents :: "order \<Rightarrow> int" where
  "balance_due_cents o' =
     (if truthy_int (ord_deposit_amount_cents o')
      then max 0 (ord_total o' - the (ord_deposit_amount_cents o'))
      else if order_is_paid o' then 0 else ord_total o')"

definition is_deposit_expired :: "instant \<Rightarrow> order \<Rightarrow> bool" where
  "is_deposit_expired now o' =
     (if ord_status o' \<noteq> PENDING_DEPOSIT then False
      else case ord_deposit_expires_at o' of None \<Rightarrow> False | Some t \<Rightarrow> t \<le> now)"

definition order_is_refundable :: "order \<Rightarrow> bool" where
  "order_is_refundable o' \<longleftrightarrow> ord_payment_status o' \<in> {PayPaid, PayPartiallyRefunded}"

definition order_is_fulfilled :: "order \<Rightarrow> bool" where
  "order_is_fulfilled o' \<longleftrightarrow> ord_fulfillment_status o' = Fulfilled"

definition order_can_be_cancelled :: "order \<Rightarrow> bool" where
  "order_can_be_cancelled o' \<longleftrightarrow>
     ord_status o' \<in> {PENDING_DEPOSIT, AWAITING_PAYMENT, PENDING, CONFIRMED, PROCESSING}"

definition order_can_be_refunded :: "order \<Rightarrow> bool" where
  "order_can_be_refunded o' \<longleftrightarrow> order_is_paid o' \<and> ord_status o' = DELIVERED"

definition order_item_count :: "order \<Rightarrow> int" where
  "order_item_count o' = sum_list (map ol_quantity (ord_line_items o'))"

definition collectible_total :: "order \<Rightarrow> int" where
  "collectible_total o' = (case ord_collected_total o' of None \<Rightarrow> ord_total o' | Some n \<Rightarrow> n)"

definition amount_due_cents :: "int \<Rightarrow> order \<Rightarrow> int" where
  "amount_due_cents proofs o' =
     (if order_is_paid o' then 0
      else (let paid = proofs + (if ord_deposit_paid_at o' \<noteq> None
                  \<and> (case ord_deposit_gateway o' of None \<Rightarrow> False
                     | Some g \<Rightarrow> g \<in> set card_gateway_prefixes)
                then opt_int (ord_deposit_amount_cents o') else 0)
            in max 0 (collectible_total o' - paid)))"

section \<open>Transitions\<close>

definition order_can_transition_to :: "order_status \<Rightarrow> order \<Rightarrow> bool" where
  "order_can_transition_to st o' \<longleftrightarrow> st \<in> set (order_next (ord_status o'))"

definition order_validate_transition :: "order_status \<Rightarrow> order \<Rightarrow> unit result" where
  "order_validate_transition st o' =
     (if order_can_transition_to st o' then Inr ()
      else Inl (ValueError ''Invalid status transition''))"

definition status_entry ::
    "instant \<Rightarrow> order_status \<Rightarrow> order_status \<Rightarrow> string option \<Rightarrow> string option \<Rightarrow> json" where
  "status_entry now old new reason source = JObj
     ([(''from'', JStr (order_status_value old)), (''to'', JStr (order_status_value new)),
       (''timestamp'', JTime now), (''reason'', json_opt_str reason)]
      @ (case source of None \<Rightarrow> [] | Some s \<Rightarrow> [(''source'', JStr s)]))"

text \<open>The stamps that come with a new status.\<close>

definition stamp_status :: "instant \<Rightarrow> order_status \<Rightarrow> order \<Rightarrow> order" where
  "stamp_status now st o' = (case st of
      CANCELLED \<Rightarrow> o'\<lparr>ord_cancelled_at := Some now\<rparr>
    | RETURNED \<Rightarrow> o'\<lparr>ord_cancelled_at := Some now\<rparr>
    | SHIPPED \<Rightarrow> o'\<lparr>ord_shipped_at := Some now, ord_fulfilled_at := Some now,
                   ord_fulfillment_status := Fulfilled\<rparr>
    | DELIVERED \<Rightarrow>
        (let o2 = o'\<lparr>ord_delivered_at := Some now\<rparr>
         in if ord_payment_method o2 = Some ''cod'' \<and> ord_payment_status o2 = PayPending
            then o2\<lparr>ord_payment_status := PayPaid, ord_paid_at := Some now\<rparr> else o2)
    | _ \<Rightarrow> o')"

definition order_touch :: "instant \<Rightarrow> order \<Rightarrow> order" where
  "order_touch now o' = o'\<lparr>ord_updated_at := now\<rparr>"

definition order_transition_to ::
    "instant \<Rightarrow> order_status \<Rightarrow> string option \<Rightarrow> string option \<Rightarrow> order \<Rightarrow> order result" where
  "order_transition_to now st reason source o' =
     rbind (order_validate_transition st o') (\<lambda>_.
     rbind (push_history ''status_history''
              (status_entry now (ord_status o') st reason source) (ord_metadata o')) (\<lambda>m.
       Inr (order_touch now (stamp_status now st (o'\<lparr>ord_status := st, ord_metadata := m\<rparr>)))))"

definition order_confirm :: "instant \<Rightarrow> order \<Rightarrow> order result" where
  "order_confirm now o' =
     (if ord_status o' \<noteq> PENDING then Inl (ValueError ''Cannot confirm order'')
      else order_transition_to now CONFIRMED (Some ''confirmed'') None o')"

definition order_start_processing :: "instant \<Rightarrow> order \<Rightarrow> order result" where
  "order_start_processing now o' =
     (if ord_status o' \<notin> {CONFIRMED, PENDING} then Inl (ValueError ''Cannot start processing order'')
      else order_transition_to now PROCESSING (Some ''processing'') None o')"

definition order_ship ::
    "instant \<Rightarrow> string option \<Rightarrow> string option \<Rightarrow> string option \<Rightarrow> order \<Rightarrow> order result" where
  "order_ship now tracking_number tracking_url source o' =
     (if ord_status o' \<noteq> PROCESSING then Inl (ValueError ''Cannot ship order'')
      else rbind (order_transition_to now SHIPPED (Some ''shipped'') source o') (\<lambda>o2.
        let o3 = (if truthy_str tracking_number
                  then o2\<lparr>ord_tracking_number := tracking_number\<rparr> else o2)
        in Inr (if truthy_str tracking_url then o3\<lparr>ord_tracking_url := tracking_url\<rparr> else o3)))"

definition order_deliver :: "instant \<Rightarrow> string option \<Rightarrow> order \<Rightarrow> order result" where
  "order_deliver now source o' =
     (if ord_status o' \<noteq> SHIPPED then Inl (ValueError ''Cannot deliver order'')
      else order_transition_to now DELIVERED (Some ''delivered'') source o')"

text \<open>\<open>if reason: self.metadata[key] = reason\<close>.\<close>

definition note_reason :: "string \<Rightarrow> string option \<Rightarrow> order \<Rightarrow> order" where
  "note_reason k reason o' =
     (if truthy_str reason then o'\<lparr>ord_metadata := (ord_metadata o')(k \<mapsto> json_opt_str reason)\<rparr>
      else o')"

definition order_cancel :: "instant \<Rightarrow> string option \<Rightarrow> order \<Rightarrow> order result" where
  "order_cancel now reason o' =
     (if \<not> order_can_be_cancelled o' then Inl (ValueError ''Cannot cancel order'')
      else rbind (order_transition_to now CANCELLED reason None o') (\<lambda>o2.
        Inr (note_reason ''cancellation_reason'' reason o2)))"

definition order_return_to_origin :: "instant \<Rightarrow> string option \<Rightarrow> order \<Rightarrow> order result" where
  "order_return_to_origin now reason o' =
     rbind (order_transition_to now RETURNED reason None o') (\<lambda>o2.
       Inr (note_reason ''return_reason'' reason o2))"

definition order_refund :: "instant \<Rightarrow> string option \<Rightarrow> order \<Rightarrow> order result" where
  "order_refund now reason o' =
     (if \<not> order_can_be_refunded o' then Inl (ValueError ''Order cannot be refunded'')
      else rbind (order_transition_to now REFUNDED reason None o') (\<lambda>o2.
        Inr (note_reason ''refund_reason'' reason (o2\<lparr>ord_payment_status := PayRefunded\<rparr>))))"

section \<open>The payment plane\<close>

definition late_payment_flag :: "instant \<Rightarrow> string \<Rightarrow> string option \<Rightarrow> order \<Rightarrow> json" where
  "late_payment_flag now payment_id payment_method o' = JObj
     [(''payment_id'', JStr payment_id), (''payment_method'', json_opt_str payment_method),
      (''status'', JStr (order_status_value (ord_status o'))), (''at'', JTime now)]"

definition order_mark_as_paid ::
    "instant \<Rightarrow> string \<Rightarrow> string option \<Rightarrow> order \<Rightarrow> order result" where
  "order_mark_as_paid now payment_id payment_method o' =
     (let closed = (ord_status o' \<in> {CANCELLED, REFUNDED}) in
      rbind
       (if ord_status o' = PENDING_DEPOSIT
           \<or> (closed \<and> truthy_int (ord_deposit_required_cents o') \<and> ord_deposit_paid_at o' = None)
        then
          (let o2 = o'\<lparr>ord_deposit_paid_at := Some now, ord_deposit_payment_id := Some payment_id\<rparr>;
               o3 = (if truthy_str payment_method
                     then o2\<lparr>ord_deposit_gateway := payment_method\<rparr> else o2)
           in if \<not> closed
              then order_transition_to now CONFIRMED
                     (Some (''deposit_paid via '' @
                        (if truthy_str payment_method then the payment_method else ''unknown'')))
                     None o3
              else Inr o3)
        else
          (let o2 = o'\<lparr>ord_payment_status := PayPaid, ord_payment_id := Some payment_id\<rparr>;
               o3 = (if truthy_str payment_method
                     then o2\<lparr>ord_payment_method := payment_method\<rparr> else o2);
               o4 = o3\<lparr>ord_paid_at := Some now\<rparr>
           in Inr (if ord_status o4 \<in> set pre_fulfilment
                   then o4\<lparr>ord_status := PROCESSING\<rparr> else o4)))
       (\<lambda>o5. Inr (order_touch now
          (if closed
           then o5\<lparr>ord_metadata := (ord_metadata o5)
                  (''payment_after_cancel'' \<mapsto> late_payment_flag now payment_id payment_method o5)\<rparr>
           else o5))))"

definition order_reverse_payment ::
    "instant \<Rightarrow> string option \<Rightarrow> order \<Rightarrow> (int \<times> order) result" where
  "order_reverse_payment now reason o' =
     (if ord_payment_status o' \<noteq> PayPaid then Inl (ValueError ''Order is not marked as paid'')
      else rbind (push_history ''payment_history''
             (JObj [(''from'', JStr ''paid''), (''to'', JStr ''pending''),
                    (''reason'', json_opt_str reason), (''paid_at'', json_opt_time (ord_paid_at o')),
                    (''payment_id'', json_opt_str (ord_payment_id o')), (''at'', JTime now)])
             (ord_metadata o')) (\<lambda>m.
        Inr (collectible_total o',
             order_touch now (o'\<lparr>ord_metadata := m, ord_payment_status := PayPending,
               ord_paid_at := None, ord_payment_id := None, ord_cash_received_at := None\<rparr>))))"

text \<open>The unit value of a line after its discounts: \<open>round(total_price / quantity)\<close>.\<close>

definition effective_unit :: "order_line_item \<Rightarrow> int" where
  "effective_unit l =
     (if ol_quantity l \<noteq> 0 then py_round (fdiv (ol_total_price l) (ol_quantity l))
      else ol_unit_price l)"

definition returned_line :: "order_line_item \<Rightarrow> int \<Rightarrow> int \<Rightarrow> int \<Rightarrow> json" where
  "returned_line l i qty value = JObj
     [(''order_line_index'', JInt i), (''returned_quantity'', JInt qty),
      (''value_cents'', JInt value), (''product_id'', JUuid (ol_product_id l)),
      (''variant_id'', json_opt_uuid (ol_variant_id l)),
      (''selections'', (case map_of (ol_properties l) ''selections'' of
          None \<Rightarrow> JNull | Some j \<Rightarrow> j))]"

text \<open>The loop over the returned lines: \<open>lines_out\<close> and \<open>returned_value\<close>.\<close>

definition return_step ::
    "order \<Rightarrow> int \<times> int \<Rightarrow> json list \<times> int \<Rightarrow> (json list \<times> int) result" where
  "return_step o' entry acc = (case entry of (i, qty) \<Rightarrow> case acc of (lines, so_far) \<Rightarrow>
     if i < 0 \<or> int (length (ord_line_items o')) \<le> i then Inl (ValueError ''Unknown line index'')
     else (let line = ord_line_items o' ! nat i in
       if qty < 1 \<or> ol_quantity line < qty then Inl (ValueError ''Returned quantity out of range'')
       else (let value = effective_unit line * qty
             in Inr (lines @ [returned_line line i qty value], so_far + value))))"

definition order_record_partial_acceptance ::
    "instant \<Rightarrow> (int \<times> int) list \<Rightarrow> string option \<Rightarrow> order
      \<Rightarrow> ((json list \<times> int \<times> int) \<times> order) result" where
  "order_record_partial_acceptance now returned reason o' =
     (if returned = [] then Inl (ValueError ''No returned lines'')
      else rbind (foldM (return_step o') returned ([], 0)) (\<lambda>acc. case acc of (lines, value) \<Rightarrow>
        let collected = max (ord_total o' - value) 0;
            stamp = JObj [(''lines'', JList lines), (''returned_value_cents'', JInt value),
              (''collected_total_cents'', JInt collected), (''reason'', json_opt_str reason),
              (''at'', JTime now)]
        in Inr ((lines, value, collected),
             order_touch now (o'\<lparr>ord_collected_total := Some collected,
               ord_metadata := (ord_metadata o')(''partial_acceptance'' \<mapsto> stamp)\<rparr>))))"

definition order_mark_payment_failed :: "instant \<Rightarrow> string option \<Rightarrow> order \<Rightarrow> order" where
  "order_mark_payment_failed now reason o' =
     order_touch now (note_reason ''payment_failure_reason'' reason
       (o'\<lparr>ord_payment_status := PayFailed\<rparr>))"

definition order_partial_refund :: "instant \<Rightarrow> int \<Rightarrow> string option \<Rightarrow> order \<Rightarrow> order result" where
  "order_partial_refund now amt reason o' =
     (if \<not> order_is_paid o' then Inl (ValueError ''Cannot refund unpaid order'')
      else Inr (order_touch now (note_reason ''partial_refund_reason'' reason
        (o'\<lparr>ord_payment_status := PayPartiallyRefunded,
           ord_metadata := (ord_metadata o')(''partial_refund_amount'' \<mapsto> JInt amt)\<rparr>))))"

definition order_add_note :: "instant \<Rightarrow> string \<Rightarrow> order \<Rightarrow> order" where
  "order_add_note now note o' =
     order_touch now (o'\<lparr>ord_notes := Some
       (if truthy_str (ord_notes o')
        then the (ord_notes o') @ [CHR 0x0A, CHR 0x0A] @ note else note)\<rparr>)"

definition order_update_tracking :: "instant \<Rightarrow> string \<Rightarrow> string option \<Rightarrow> order \<Rightarrow> order" where
  "order_update_tracking now number url o' =
     (let o2 = o'\<lparr>ord_tracking_number := Some number\<rparr>
      in order_touch now (if truthy_str url then o2\<lparr>ord_tracking_url := url\<rparr> else o2))"

section \<open>Calls and the contracts they keep\<close>

text \<open>Every method that changes an order, except \<open>mark_as_paid\<close>, as a call.\<close>

datatype order_call =
    CallTransition order_status "string option" "string option"
  | CallConfirm
  | CallStartProcessing
  | CallShip "string option" "string option" "string option"
  | CallDeliver "string option"
  | CallCancel "string option"
  | CallReturnToOrigin "string option"
  | CallRefund "string option"
  | CallReversePayment "string option"
  | CallPartialAcceptance "(int \<times> int) list" "string option"
  | CallPaymentFailed "string option"
  | CallPartialRefund int "string option"
  | CallAddNote string
  | CallUpdateTracking string "string option"

fun order_call_act :: "instant \<Rightarrow> order_call \<Rightarrow> order \<Rightarrow> order result" where
  "order_call_act now (CallTransition st r s) o' = order_transition_to now st r s o'"
| "order_call_act now CallConfirm o' = order_confirm now o'"
| "order_call_act now CallStartProcessing o' = order_start_processing now o'"
| "order_call_act now (CallShip n u s) o' = order_ship now n u s o'"
| "order_call_act now (CallDeliver s) o' = order_deliver now s o'"
| "order_call_act now (CallCancel r) o' = order_cancel now r o'"
| "order_call_act now (CallReturnToOrigin r) o' = order_return_to_origin now r o'"
| "order_call_act now (CallRefund r) o' = order_refund now r o'"
| "order_call_act now (CallReversePayment r) o' =
     rbind (order_reverse_payment now r o') (\<lambda>p. Inr (snd p))"
| "order_call_act now (CallPartialAcceptance ls r) o' =
     rbind (order_record_partial_acceptance now ls r o') (\<lambda>p. Inr (snd p))"
| "order_call_act now (CallPaymentFailed r) o' = Inr (order_mark_payment_failed now r o')"
| "order_call_act now (CallPartialRefund n r) o' = order_partial_refund now n r o'"
| "order_call_act now (CallAddNote n) o' = Inr (order_add_note now n o')"
| "order_call_act now (CallUpdateTracking n u) o' = Inr (order_update_tracking now n u o')"

datatype order_op = OrderCall order_call | MarkPaid string "string option"

fun order_act :: "instant \<Rightarrow> order_op \<Rightarrow> order \<Rightarrow> order result" where
  "order_act now (OrderCall c) o' = order_call_act now c o'"
| "order_act now (MarkPaid pid m) o' = order_mark_as_paid now pid m o'"

lemma stamp_status_frame [simp]:
  "ord_status (stamp_status now st o') = ord_status o'"
  "ord_metadata (stamp_status now st o') = ord_metadata o'"
  "ord_total (stamp_status now st o') = ord_total o'"
  "ord_collected_total (stamp_status now st o') = ord_collected_total o'"
  by (cases st; simp add: stamp_status_def Let_def)+

lemma order_touch_frame [simp]:
  "ord_status (order_touch now o') = ord_status o'"
  "ord_metadata (order_touch now o') = ord_metadata o'"
  "ord_payment_status (order_touch now o') = ord_payment_status o'"
  "ord_fulfillment_status (order_touch now o') = ord_fulfillment_status o'"
  "ord_shipped_at (order_touch now o') = ord_shipped_at o'"
  by (simp_all add: order_touch_def)

lemma note_reason_frame [simp]:
  "ord_status (note_reason k r o') = ord_status o'"
  "ord_payment_status (note_reason k r o') = ord_payment_status o'"
  "ord_fulfillment_status (note_reason k r o') = ord_fulfillment_status o'"
  "ord_shipped_at (note_reason k r o') = ord_shipped_at o'"
  "k \<noteq> ''status_history'' \<Longrightarrow> trail (ord_metadata (note_reason k r o')) = trail (ord_metadata o')"
  by (simp_all add: note_reason_def)

text \<open>One recorded status change along the table, and a step that leaves status and trail alone.\<close>

definition order_routed :: "order \<Rightarrow> order \<Rightarrow> bool" where
  "order_routed o1 o2 \<longleftrightarrow> ord_status o2 \<in> set (order_next (ord_status o1))
     \<and> trail (ord_metadata o2) = trail (ord_metadata o1)
         @ [(Some (JStr (order_status_value (ord_status o1))),
             Some (JStr (order_status_value (ord_status o2))))]"

definition order_quiet :: "order \<Rightarrow> order \<Rightarrow> bool" where
  "order_quiet o1 o2 \<longleftrightarrow> ord_status o2 = ord_status o1
     \<and> trail (ord_metadata o2) = trail (ord_metadata o1)"

lemma order_routed_quiet: "order_routed o1 o2 \<Longrightarrow> order_quiet o2 o3 \<Longrightarrow> order_routed o1 o3"
  by (simp add: order_routed_def order_quiet_def)

lemma order_quiet_refl [simp]: "order_quiet o1 o1"
  by (simp add: order_quiet_def)

lemma order_transition_routed:
  "order_transition_to now st r s o1 = Inr o2 \<Longrightarrow> order_routed o1 o2 \<and> ord_status o2 = st"
  by (auto simp: order_transition_to_def order_validate_transition_def
      order_can_transition_to_def rbind_Inr_iff order_routed_def push_history_trail
      status_entry_def entry_edge_def split: if_splits)

lemma order_note_quiet:
  "k \<noteq> ''status_history'' \<Longrightarrow> order_quiet o1 (note_reason k r o1)"
  by (simp add: order_quiet_def)

lemmas transition_then_quiet =
  order_routed_quiet [OF conjunct1 [OF order_transition_routed]]

lemma order_ship_routed:
  assumes "order_ship now n u s o1 = Inr o2" shows "order_routed o1 o2"
proof -
  obtain o3 where o3: "order_transition_to now SHIPPED (Some ''shipped'') s o1 = Inr o3"
    using assms by (cases "order_transition_to now SHIPPED (Some ''shipped'') s o1")
      (simp_all add: order_ship_def split: if_splits)
  have "order_quiet o3 o2"
    using assms o3 by (simp add: order_ship_def Let_def order_quiet_def split: if_splits) auto
  with o3 show ?thesis by (rule transition_then_quiet)
qed

lemma order_cancel_routed:
  assumes "order_cancel now r o1 = Inr o2" shows "order_routed o1 o2"
proof -
  obtain o3 where o3: "order_transition_to now CANCELLED r None o1 = Inr o3"
    and o2: "o2 = note_reason ''cancellation_reason'' r o3"
    using assms by (auto simp: order_cancel_def rbind_Inr_iff split: if_splits)
  show ?thesis unfolding o2 by (rule transition_then_quiet [OF o3 order_note_quiet]) simp
qed

lemma order_return_routed:
  assumes "order_return_to_origin now r o1 = Inr o2" shows "order_routed o1 o2"
proof -
  obtain o3 where o3: "order_transition_to now RETURNED r None o1 = Inr o3"
    and o2: "o2 = note_reason ''return_reason'' r o3"
    using assms by (auto simp: order_return_to_origin_def rbind_Inr_iff)
  show ?thesis unfolding o2 by (rule transition_then_quiet [OF o3 order_note_quiet]) simp
qed

lemma order_refund_routed:
  assumes "order_refund now r o1 = Inr o2" shows "order_routed o1 o2"
proof -
  obtain o3 where o3: "order_transition_to now REFUNDED r None o1 = Inr o3"
    and o2: "o2 = note_reason ''refund_reason'' r (o3\<lparr>ord_payment_status := PayRefunded\<rparr>)"
    using assms by (auto simp: order_refund_def rbind_Inr_iff split: if_splits)
  have "order_quiet o3 o2" unfolding o2 by (simp add: order_quiet_def)
  with o3 show ?thesis by (rule transition_then_quiet)
qed

lemma order_reverse_quiet:
  "order_reverse_payment now r o1 = Inr (n, o2) \<Longrightarrow> order_quiet o1 o2"
  by (auto simp: order_reverse_payment_def rbind_Inr_iff order_quiet_def split: if_splits
      dest!: push_history_other_trail)

lemma order_partial_acceptance_quiet:
  "order_record_partial_acceptance now ls r o1 = Inr (n, o2) \<Longrightarrow> order_quiet o1 o2"
  by (auto simp: order_record_partial_acceptance_def rbind_Inr_iff Let_def order_quiet_def
      split: if_splits)

lemma order_payment_marks_quiet:
  "order_quiet o1 (order_mark_payment_failed now r o1)"
  "order_partial_refund now n r o1 = Inr o2 \<Longrightarrow> order_quiet o1 o2"
  "order_quiet o1 (order_add_note now note o1)"
  "order_quiet o1 (order_update_tracking now number url o1)"
  by (auto simp: order_mark_payment_failed_def order_partial_refund_def order_add_note_def
      order_update_tracking_def order_quiet_def Let_def split: if_splits)

lemma order_call_audit:
  "order_call_act now c o1 = Inr o2 \<Longrightarrow> order_quiet o1 o2 \<or> order_routed o1 o2"
  by (cases c) (auto simp: order_confirm_def order_start_processing_def order_deliver_def
      rbind_Inr_iff order_payment_marks_quiet split: if_splits
      dest: order_transition_routed order_ship_routed order_cancel_routed order_return_routed
        order_refund_routed order_reverse_quiet order_partial_acceptance_quiet)

interpretation order_audited: audited_machine order_next ord_status "order_call_act now"
    order_status_value ord_metadata for now
  by unfold_locales (use order_call_audit in \<open>auto simp: order_quiet_def order_routed_def\<close>)

text \<open>
  \<open>mark_as_paid\<close> moves the status without the table: from any pre-fulfilment status straight to
  \<open>PROCESSING\<close>. The status machine of all calls is the table with those edges added.
\<close>

definition order_next_paid :: "order_status \<Rightarrow> order_status list" where
  "order_next_paid st = order_next st @ (if st \<in> set pre_fulfilment then [PROCESSING] else [])"

lemma order_mark_as_paid_status:
  assumes "order_mark_as_paid now pid m o1 = Inr o2"
  shows "ord_status o2 = (if ord_status o1 = PENDING_DEPOSIT then CONFIRMED
    else if ord_status o1 \<in> set pre_fulfilment then PROCESSING else ord_status o1)"
proof (cases "ord_status o1 = PENDING_DEPOSIT")
  case True
  let ?o3 = "let o2 = o1\<lparr>ord_deposit_paid_at := Some now, ord_deposit_payment_id := Some pid\<rparr>
    in if truthy_str m then o2\<lparr>ord_deposit_gateway := m\<rparr> else o2"
  obtain o4 where "order_transition_to now CONFIRMED (Some (''deposit_paid via '' @
      (if truthy_str m then the m else ''unknown''))) None ?o3 = Inr o4" "o2 = order_touch now o4"
    using assms True by (auto simp: order_mark_as_paid_def Let_def rbind_Inr_iff)
  then show ?thesis using True order_transition_routed by auto
next
  case False
  then show ?thesis using assms
    by (auto simp: order_mark_as_paid_def Let_def pre_fulfilment_def split: if_splits)
qed

lemma order_act_status:
  assumes "order_act now x o1 = Inr o2"
  shows "ord_status o2 = ord_status o1 \<or> ord_status o2 \<in> set (order_next_paid (ord_status o1))"
proof (cases x)
  case (OrderCall c)
  then show ?thesis using order_call_audit [of now c o1 o2] assms
    by (auto simp: order_quiet_def order_routed_def order_next_paid_def)
next
  case (MarkPaid pid m)
  then have "order_mark_as_paid now pid m o1 = Inr o2" using assms by simp
  from order_mark_as_paid_status [OF this] show ?thesis
    by (auto simp: order_next_paid_def order_next_def)
qed

interpretation order_machine: status_machine order_next_paid ord_status "order_act now" for now
  by unfold_locales (rule order_act_status)

text \<open>A concrete order for the closed instances.\<close>

definition demo_address :: order_address where
  "demo_address = \<lparr>oa_first_name = ''A'', oa_last_name = ''B'', oa_address_line1 = ''1 St'',
     oa_city = ''Cairo'', oa_country = ''EG'', oa_address_line2 = None, oa_state = None,
     oa_postal_code = None, oa_phone = None, oa_latitude = None, oa_longitude = None,
     oa_location_accuracy = None, oa_location_source = None, oa_geocoded_address = None\<rparr>"

definition demo_line :: "int \<Rightarrow> int \<Rightarrow> order_line_item" where
  "demo_line q total_price =
     \<lparr>ol_product_id = 11, ol_product_name = ''cap'', ol_variant_id = None, ol_variant_name = None,
      ol_sku = None, ol_quantity = q, ol_unit_price = 0, ol_total_price = total_price,
      ol_weight = None, ol_properties = []\<rparr>"

definition demo_order :: "order_status \<Rightarrow> order" where
  "demo_order st =
     \<lparr>ord_id = 1, ord_created_at = 0, ord_updated_at = 0, ord_store_id = 2, ord_tenant_id = None,
      ord_customer_id = 3, ord_order_number = ''N1'', ord_line_items = [demo_line 2 1000, demo_line 3 900],
      ord_shipping_address = demo_address, ord_billing_address = None, ord_status = st,
      ord_payment_status = PayPending, ord_fulfillment_status = Unfulfilled, ord_subtotal = 1900,
      ord_shipping_cost = 100, ord_tax_amount = 0, ord_discount_amount = 0, ord_total = 2000,
      ord_collected_total = None, ord_currency = ''EGP'', ord_payment_method = Some ''cod'',
      ord_payment_id = None, ord_shipping_method = None, ord_shipping_zone_id = None,
      ord_shipping_rate_id = None, ord_deposit_required_cents = None,
      ord_deposit_amount_cents = None, ord_deposit_paid_at = None, ord_deposit_expires_at = None,
      ord_deposit_gateway = None, ord_deposit_payment_id = None,
      ord_customer_confirmation_status = None, ord_customer_confirmation_requested_at = None,
      ord_customer_confirmed_at = None, ord_cod_review_status = None, ord_cod_reviewed_at = None,
      ord_tracking_number = None, ord_tracking_url = None, ord_notes = None,
      ord_coupon_code = None, ord_coupon_id = None, ord_applied_promotions = [],
      ord_customer_notes = None, ord_metadata = Map.empty, ord_utm_source = None,
      ord_utm_medium = None, ord_utm_campaign = None, ord_utm_term = None, ord_utm_content = None,
      ord_campaign_id = None, ord_attribution = None, ord_first_touch_at = None,
      ord_session_fingerprint = None, ord_version = 1, ord_cancelled_at = None, ord_paid_at = None,
      ord_cash_received_at = None, ord_fulfilled_at = None, ord_shipped_at = None,
      ord_delivered_at = None\<rparr>"

text \<open>
  C12: whatever sequence of calls of its own methods an order accepts, payments included, a cancelled, returned or
  refunded order keeps its status for good, and an order that has been shipped is only ever
  shipped, delivered, returned or refunded afterwards: it is never cancelled and never goes
  back to the warehouse. The use cases that set the status past these methods are the subject of \<open>Order_Stock\<close>.
\<close>

theorem order_no_way_back:
  assumes "foldM (order_act now) xs o1 = Inr o2"
  shows "(ord_status o1 \<in> {CANCELLED, RETURNED, REFUNDED} \<longrightarrow> ord_status o2 = ord_status o1)
    \<and> (ord_status o1 \<in> {SHIPPED, DELIVERED, RETURNED, REFUNDED}
         \<longrightarrow> ord_status o2 \<in> {SHIPPED, DELIVERED, RETURNED, REFUNDED})"
proof (intro conjI impI)
  assume "ord_status o1 \<in> {CANCELLED, RETURNED, REFUNDED}"
  then have "order_next_paid (ord_status o1) = []"
    by (auto simp: order_next_paid_def order_next_def pre_fulfilment_def)
  then show "ord_status o2 = ord_status o1" by (rule order_machine.run_terminal [OF assms])
next
  assume "ord_status o1 \<in> {SHIPPED, DELIVERED, RETURNED, REFUNDED}"
  then show "ord_status o2 \<in> {SHIPPED, DELIVERED, RETURNED, REFUNDED}"
    by (rule order_machine.run_closed [OF assms])
      (auto simp: order_next_paid_def order_next_def pre_fulfilment_def)
qed

theorem order_no_way_back_witness:
  "\<exists>o2. foldM (order_act 5) [OrderCall (CallAddNote ''x''), MarkPaid ''p1'' None] (demo_order CANCELLED)
      = Inr o2 \<and> ord_status o2 = CANCELLED"
proof -
  let ?xs = "[OrderCall (CallAddNote ''x''), MarkPaid ''p1'' None]"
  have "\<exists>o2. foldM (order_act 5) ?xs (demo_order CANCELLED) = Inr o2"
    by (simp add: demo_order_def order_add_note_def order_touch_def order_mark_as_paid_def Let_def)
  then obtain o2 where o2: "foldM (order_act 5) ?xs (demo_order CANCELLED) = Inr o2" by blast
  with order_no_way_back [OF o2] show ?thesis by (simp add: demo_order_def)
qed

text \<open>
  The audit trail is complete for every call but \<open>mark_as_paid\<close>: after any accepted
  sequence of calls the status has moved along a walk of the transition table, and the trail
  has grown by exactly the steps of that walk, in order.
\<close>

theorem order_trail_complete:
  assumes "foldM (order_call_act now) xs o1 = Inr o2"
  shows "\<exists>bs. chain order_next (ord_status o1) bs \<and> ord_status o2 = last (ord_status o1 # bs)
    \<and> trail (ord_metadata o2) = trail (ord_metadata o1)
        @ map (\<lambda>(a, b). (Some (JStr (order_status_value a)), Some (JStr (order_status_value b))))
            (edges (ord_status o1) bs)"
  using order_audited.run_audited [OF assms] unfolding order_audited.labelled_def .

theorem order_trail_complete_witness:
  "\<exists>o2. foldM (order_call_act 5) [CallConfirm, CallStartProcessing, CallShip None None None]
      (demo_order PENDING) = Inr o2
     \<and> (\<exists>bs. trail (ord_metadata o2) =
          map (\<lambda>(a, b). (Some (JStr (order_status_value a)), Some (JStr (order_status_value b))))
            (edges PENDING bs) \<and> ord_status o2 = last (PENDING # bs))"
proof -
  let ?xs = "[CallConfirm, CallStartProcessing, CallShip None None None]"
  have "\<exists>o2. foldM (order_call_act 5) ?xs (demo_order PENDING) = Inr o2"
    by (simp add: demo_order_def order_confirm_def order_start_processing_def order_ship_def
        order_transition_to_def order_validate_transition_def order_can_transition_to_def
        order_next_def stamp_status_def order_touch_def push_history_def)
  then obtain o2 where o2: "foldM (order_call_act 5) ?xs (demo_order PENDING) = Inr o2" by blast
  have demo: "ord_status (demo_order PENDING) = PENDING" "trail (ord_metadata (demo_order PENDING)) = []"
    by (simp_all add: demo_order_def trail_def)
  obtain bs where "ord_status o2 = last (PENDING # bs)" "trail (ord_metadata o2) =
      map (\<lambda>(a, b). (Some (JStr (order_status_value a)), Some (JStr (order_status_value b))))
        (edges PENDING bs)"
    using order_trail_complete [OF o2, unfolded demo append_Nil] by blast
  with o2 show ?thesis by blast
qed

section \<open>Payments\<close>

text \<open>An allowed transition of an order with a usable history succeeds, with these fields.\<close>

lemma order_transition_total:
  assumes "history_ok ''status_history'' (ord_metadata o1)" "st \<in> set (order_next (ord_status o1))"
  obtains o2 where "order_transition_to now st r s o1 = Inr o2" "ord_status o2 = st"
    "history_ok ''status_history'' (ord_metadata o2)" "ord_total o2 = ord_total o1"
    "ord_payment_method o2 = ord_payment_method o1"
    "ord_payment_status o2 = (if st = DELIVERED \<and> ord_payment_method o1 = Some ''cod''
       \<and> ord_payment_status o1 = PayPending then PayPaid else ord_payment_status o1)"
    "ord_paid_at o2 = (if st = DELIVERED \<and> ord_payment_method o1 = Some ''cod''
       \<and> ord_payment_status o1 = PayPending then Some now else ord_paid_at o1)"
    "ord_shipped_at o2 = (if st = SHIPPED then Some now else ord_shipped_at o1)"
    "ord_delivered_at o2 = (if st = DELIVERED then Some now else ord_delivered_at o1)"
    "ord_deposit_paid_at o2 = ord_deposit_paid_at o1"
    "ord_deposit_payment_id o2 = ord_deposit_payment_id o1"
    "ord_fulfillment_status o2 = (if st = SHIPPED then Fulfilled else ord_fulfillment_status o1)"
proof -
  obtain m where m: "push_history ''status_history'' (status_entry now (ord_status o1) st r s)
      (ord_metadata o1) = Inr m" "history_ok ''status_history'' m"
    using push_history_total [OF assms(1)] by blast
  let ?o2 = "order_touch now (stamp_status now st (o1\<lparr>ord_status := st, ord_metadata := m\<rparr>))"
  have "order_transition_to now st r s o1 = Inr ?o2"
    using m(1) assms(2)
    by (simp add: order_transition_to_def order_validate_transition_def order_can_transition_to_def)
  then show ?thesis
    by (rule that) (cases st; simp add: m(2) stamp_status_def order_touch_def Let_def)+
qed

text \<open>
  A cash-on-delivery order that is pending and unpaid can be confirmed, processed, shipped
  and delivered; once delivered it is paid, fulfilled, stamped, and nothing is due on it.
\<close>

theorem cod_order_delivers:
  assumes "ord_status o1 = PENDING" "ord_payment_status o1 = PayPending"
    and "ord_payment_method o1 = Some ''cod''"
    and "history_ok ''status_history'' (ord_metadata o1)"
  shows "\<exists>o2. foldM (order_call_act now)
      [CallConfirm, CallStartProcessing, CallShip num url src, CallDeliver src'] o1 = Inr o2
    \<and> ord_status o2 = DELIVERED \<and> order_is_fulfilled o2 \<and> ord_shipped_at o2 = Some now
    \<and> ord_delivered_at o2 = Some now \<and> ord_paid_at o2 = Some now
    \<and> amount_due_cents proofs o2 = 0 \<and> ord_total o2 = ord_total o1"
proof -
  obtain a where a: "order_transition_to now CONFIRMED (Some ''confirmed'') None o1 = Inr a"
    "ord_status a = CONFIRMED" "history_ok ''status_history'' (ord_metadata a)"
    "ord_total a = ord_total o1" "ord_payment_method a = Some ''cod''"
    "ord_payment_status a = PayPending"
    using order_transition_total [OF assms(4), of CONFIRMED now "Some ''confirmed''" None] assms(1-3)
    by (auto simp: order_next_def)
  obtain b where b: "order_transition_to now PROCESSING (Some ''processing'') None a = Inr b"
    "ord_status b = PROCESSING" "history_ok ''status_history'' (ord_metadata b)"
    "ord_total b = ord_total o1" "ord_payment_method b = Some ''cod''"
    "ord_payment_status b = PayPending"
    using order_transition_total [OF a(3), of PROCESSING now "Some ''processing''" None] a
    by (auto simp: order_next_def)
  obtain c where c: "order_transition_to now SHIPPED (Some ''shipped'') src b = Inr c"
    "ord_status c = SHIPPED" "history_ok ''status_history'' (ord_metadata c)"
    "ord_total c = ord_total o1" "ord_payment_method c = Some ''cod''"
    "ord_payment_status c = PayPending" "ord_shipped_at c = Some now"
    "ord_fulfillment_status c = Fulfilled"
    using order_transition_total [OF b(3), of SHIPPED now "Some ''shipped''" src] b
    by (auto simp: order_next_def)
  define d where "d = (if truthy_str num then c\<lparr>ord_tracking_number := num\<rparr> else c)"
  define e where "e = (if truthy_str url then d\<lparr>ord_tracking_url := url\<rparr> else d)"
  have ship: "order_ship now num url src b = Inr e"
    by (simp add: order_ship_def b(2) c(1) Let_def d_def e_def)
  have e: "ord_status e = SHIPPED" "history_ok ''status_history'' (ord_metadata e)"
    "ord_total e = ord_total o1" "ord_payment_method e = Some ''cod''"
    "ord_payment_status e = PayPending" "ord_shipped_at e = Some now"
    "ord_fulfillment_status e = Fulfilled"
    using c by (simp_all add: d_def e_def)
  obtain f where f: "order_transition_to now DELIVERED (Some ''delivered'') src' e = Inr f"
    "ord_status f = DELIVERED" "ord_total f = ord_total o1" "ord_payment_status f = PayPaid"
    "ord_shipped_at f = Some now" "ord_fulfillment_status f = Fulfilled"
    "ord_delivered_at f = Some now" "ord_paid_at f = Some now"
    using order_transition_total [OF e(2), of DELIVERED now "Some ''delivered''" src'] e
    by (auto simp: order_next_def)
  have "foldM (order_call_act now)
      [CallConfirm, CallStartProcessing, CallShip num url src, CallDeliver src'] o1 = Inr f"
    using assms(1) a b ship e f by (simp add: order_confirm_def order_start_processing_def order_deliver_def)
  with f show ?thesis
    by (simp add: order_is_fulfilled_def amount_due_cents_def order_is_paid_def)
qed

theorem cod_order_delivers_witness:
  "\<exists>o2. foldM (order_call_act 5)
      [CallConfirm, CallStartProcessing, CallShip None None None, CallDeliver None] (demo_order PENDING)
        = Inr o2 \<and> ord_status o2 = DELIVERED \<and> amount_due_cents 0 o2 = 0"
  using cod_order_delivers [of "demo_order PENDING" 5 None None None None 0]
  by (simp add: demo_order_def) blast

text \<open>
  What a gateway payment does. On an order waiting for its deposit it confirms the order,
  stamps the deposit and leaves the payment status alone. On any other order that is not closed
  it marks the order paid, so that nothing is due, and a pre-fulfilment order (one whose payment
  had failed included, a step the transition table does not have) goes to processing without an
  entry in the trail. A closed order keeps its status and is flagged.
\<close>

theorem mark_as_paid_effect:
  assumes "history_ok ''status_history'' (ord_metadata o1)"
  shows "\<exists>o2. order_mark_as_paid now pid m o1 = Inr o2 \<and>
    (if ord_status o1 = PENDING_DEPOSIT then
       ord_status o2 = CONFIRMED \<and> ord_payment_status o2 = ord_payment_status o1
       \<and> ord_deposit_paid_at o2 = Some now \<and> ord_deposit_payment_id o2 = Some pid
     else if ord_status o1 \<in> {CANCELLED, REFUNDED} then
       ord_status o2 = ord_status o1 \<and> ord_metadata o2 ''payment_after_cancel'' \<noteq> None
     else order_is_paid o2 \<and> amount_due_cents proofs o2 = 0 \<and> ord_paid_at o2 = Some now
       \<and> ord_payment_id o2 = Some pid \<and> trail (ord_metadata o2) = trail (ord_metadata o1)
       \<and> ord_status o2 = (if ord_status o1 \<in> {PENDING, CONFIRMED, AWAITING_PAYMENT, PAYMENT_FAILED}
                          then PROCESSING else ord_status o1))"
proof -
  consider (dep) "ord_status o1 = PENDING_DEPOSIT" | (closed) "ord_status o1 \<in> {CANCELLED, REFUNDED}"
    | (full) "ord_status o1 \<noteq> PENDING_DEPOSIT" "ord_status o1 \<notin> {CANCELLED, REFUNDED}" by blast
  then show ?thesis
  proof cases
    case dep
    define o3 where "o3 = (let o2 = o1\<lparr>ord_deposit_paid_at := Some now, ord_deposit_payment_id := Some pid\<rparr>
      in if truthy_str m then o2\<lparr>ord_deposit_gateway := m\<rparr> else o2)"
    have o3: "ord_status o3 = PENDING_DEPOSIT" "ord_metadata o3 = ord_metadata o1"
      "ord_payment_status o3 = ord_payment_status o1" "ord_deposit_paid_at o3 = Some now"
      "ord_deposit_payment_id o3 = Some pid"
      using dep by (simp_all add: o3_def Let_def)
    obtain o4 where o4: "order_transition_to now CONFIRMED (Some (''deposit_paid via '' @
        (if truthy_str m then the m else ''unknown''))) None o3 = Inr o4"
      "ord_status o4 = CONFIRMED" "ord_payment_status o4 = ord_payment_status o3"
      "ord_deposit_paid_at o4 = ord_deposit_paid_at o3"
      "ord_deposit_payment_id o4 = ord_deposit_payment_id o3"
      using order_transition_total [of o3 CONFIRMED now "Some (''deposit_paid via '' @
        (if truthy_str m then the m else ''unknown''))" None] assms o3
      by (auto simp: order_next_def)
    have "order_mark_as_paid now pid m o1 = Inr (order_touch now o4)"
      using dep o4(1) by (simp add: order_mark_as_paid_def o3_def Let_def)
    with dep o3 o4 show ?thesis by (simp add: order_touch_def)
  next
    case closed
    then show ?thesis by (auto simp: order_mark_as_paid_def Let_def order_touch_def pre_fulfilment_def)
  next
    case full
    then show ?thesis
      by (auto simp: order_mark_as_paid_def Let_def order_touch_def pre_fulfilment_def
          order_is_paid_def amount_due_cents_def)
  qed
qed

theorem mark_as_paid_effect_witness:
  "(\<exists>o2. order_mark_as_paid 5 ''p'' None (demo_order PAYMENT_FAILED) = Inr o2
      \<and> ord_status o2 = PROCESSING \<and> trail (ord_metadata o2) = [])
   \<and> PROCESSING \<notin> set (order_next PAYMENT_FAILED)"
  using mark_as_paid_effect [of "demo_order PAYMENT_FAILED" 5 "''p''" None 0]
  by (auto simp: demo_order_def trail_def order_next_def)

text \<open>
  Undoing a payment. Reversing the payment of an order that was just paid in full reports
  the collectible amount, leaves the status where the payment put it, clears the payment fields
  and makes the collectible amount, less what proofs and a gateway deposit covered, due again.
\<close>

theorem pay_then_reverse:
  assumes "ord_status o1 \<notin> {PENDING_DEPOSIT, CANCELLED, REFUNDED}"
    and "history_ok ''payment_history'' (ord_metadata o1)"
    and "order_mark_as_paid now pid m o1 = Inr o2"
  shows "\<exists>o3. order_reverse_payment later r o2 = Inr (collectible_total o1, o3)
    \<and> ord_status o3 = ord_status o2 \<and> ord_payment_status o3 = PayPending
    \<and> ord_paid_at o3 = None \<and> ord_payment_id o3 = None \<and> ord_cash_received_at o3 = None
    \<and> trail (ord_metadata o3) = trail (ord_metadata o1)
    \<and> (ord_deposit_paid_at o1 = None
        \<longrightarrow> amount_due_cents proofs o3 = max 0 (collectible_total o1 - proofs))"
proof -
  have o2: "ord_payment_status o2 = PayPaid" "ord_metadata o2 = ord_metadata o1"
    "ord_total o2 = ord_total o1" "ord_collected_total o2 = ord_collected_total o1"
    "ord_deposit_paid_at o2 = ord_deposit_paid_at o1"
    using assms(1,3) by (auto simp: order_mark_as_paid_def Let_def order_touch_def split: if_splits)
  obtain h where h: "push_history ''payment_history''
      (JObj [(''from'', JStr ''paid''), (''to'', JStr ''pending''), (''reason'', json_opt_str r),
        (''paid_at'', json_opt_time (ord_paid_at o2)),
        (''payment_id'', json_opt_str (ord_payment_id o2)), (''at'', JTime later)])
      (ord_metadata o2) = Inr h"
    using push_history_total assms(2) o2(2) by metis
  have coll: "collectible_total o2 = collectible_total o1"
    by (simp add: collectible_total_def o2 split: option.split)
  show ?thesis using o2 h coll push_history_other_trail [OF h]
    by (simp add: order_reverse_payment_def order_touch_def amount_due_cents_def order_is_paid_def
        collectible_total_def split: option.splits)
qed

theorem pay_then_reverse_witness:
  "\<exists>o2 o3. order_mark_as_paid 5 ''p'' None (demo_order CONFIRMED) = Inr o2
     \<and> order_reverse_payment 6 None o2 = Inr (2000, o3) \<and> ord_status o3 = PROCESSING
     \<and> amount_due_cents 500 o3 = 1500"
proof -
  have "\<exists>o2. order_mark_as_paid 5 ''p'' None (demo_order CONFIRMED) = Inr o2 \<and> ord_status o2 = PROCESSING"
    by (simp add: demo_order_def order_mark_as_paid_def Let_def pre_fulfilment_def order_touch_def)
  then obtain o2 where o2: "order_mark_as_paid 5 ''p'' None (demo_order CONFIRMED) = Inr o2"
    "ord_status o2 = PROCESSING" by blast
  with pay_then_reverse [OF _ _ o2(1), of 6 None 500] show ?thesis
    by (simp add: demo_order_def collectible_total_def) blast
qed

section \<open>Partial acceptance\<close>

lemma return_step_Inr:
  "return_step o1 (i, q) (ls, v) = Inr acc \<Longrightarrow>
    snd acc = v + effective_unit (ord_line_items o1 ! nat i) * q
    \<and> 0 \<le> i \<and> i < int (length (ord_line_items o1)) \<and> 1 \<le> q
    \<and> q \<le> ol_quantity (ord_line_items o1 ! nat i)"
  by (auto simp: return_step_def Let_def split: if_splits)

lemma return_steps:
  assumes "foldM (return_step o1) rs (ls, v) = Inr (ls', v')"
  shows "v' = v + (\<Sum>(i, q)\<leftarrow>rs. effective_unit (ord_line_items o1 ! nat i) * q)
    \<and> (\<forall>(i, q)\<in>set rs. 0 \<le> i \<and> i < int (length (ord_line_items o1))
         \<and> 1 \<le> q \<and> q \<le> ol_quantity (ord_line_items o1 ! nat i))"
  using assms
proof (induction rs arbitrary: ls v)
  case (Cons e rs)
  obtain i q where e: "e = (i, q)" by (cases e)
  from Cons.prems obtain acc where acc: "return_step o1 (i, q) (ls, v) = Inr acc"
    "foldM (return_step o1) rs (fst acc, snd acc) = Inr (ls', v')"
    by (auto simp: e rbind_Inr_iff)
  note ok = return_step_Inr [OF acc(1)]
  from Cons.IH [OF acc(2)] ok show ?case by (simp add: e)
qed simp

lemma effective_unit_nonneg: "order_line_ok l \<Longrightarrow> 0 \<le> effective_unit l"
  by (simp add: effective_unit_def order_line_ok_def py_round_nonneg fdiv_nonneg)

text \<open>A line whose total is a whole number of cents per unit has that number as its unit value.\<close>

lemma effective_unit_exact:
  assumes "order_line_ok l" "ol_total_price l = k * ol_quantity l" "k < 2 ^ 53"
  shows "effective_unit l = k"
proof -
  have q: "0 < ol_quantity l" using assms(1) by (simp add: order_line_ok_def)
  have "0 \<le> k * ol_quantity l" using assms(1,2) by (simp add: order_line_ok_def)
  then have "0 \<le> k" using q by (simp add: zero_le_mult_iff)
  then show ?thesis using q by (simp add: effective_unit_def assms(2) fdiv_exact [OF q _ assms(3)])
qed

lemma sum_over_indices:
  fixes f :: "'a \<Rightarrow> int"
  assumes "distinct (map fst rs)" "\<forall>(i, q)\<in>set rs. 0 \<le> i \<and> i < int (length xs)"
    and "\<forall>x\<in>set xs. 0 \<le> f x"
  shows "(\<Sum>(i, q)\<leftarrow>rs. f (xs ! nat i)) \<le> sum_list (map f xs)"
proof -
  have "0 \<le> i" if "i \<in> fst ` set rs" for i using assms(2) that by auto
  then have inj: "inj_on nat (fst ` set rs)" by (metis inj_onI eq_nat_nat_iff)
  have d: "distinct (map (\<lambda>r. nat (fst r)) rs)"
    using assms(1) comp_inj_on [OF _ inj] by (auto simp: distinct_map comp_def)
  have "(\<Sum>(i, q)\<leftarrow>rs. f (xs ! nat i)) = (\<Sum>j\<leftarrow>map (\<lambda>r. nat (fst r)) rs. f (xs ! j))"
    by (simp add: comp_def case_prod_unfold)
  also have "\<dots> = (\<Sum>j\<in>set (map (\<lambda>r. nat (fst r)) rs). f (xs ! j))"
    by (rule sum_list_distinct_conv_sum_set [OF d])
  also have "\<dots> \<le> (\<Sum>j\<in>{..<length xs}. f (xs ! j))"
    using assms(2,3) by (intro sum_mono2) auto
  also have "\<dots> = sum_list (map f xs)" by (simp add: sum_list_sum_nth lessThan_atLeast0)
  finally show ?thesis .
qed

text \<open>
  Partial acceptance. The recorded value is the sum over the returned lines of the line's
  effective unit value times the returned quantity, every returned quantity lies within its
  line, and the order's collectible amount becomes the total less that value, floored at zero.
  When every line's total is a whole number of cents per unit, the returned value never exceeds
  the sum of the line totals.
\<close>

theorem partial_acceptance_value:
  assumes ok: "order_ok o1"
    and acc: "order_record_partial_acceptance now rs r o1 = Inr ((ls, v, c), o2)"
  shows "v = (\<Sum>(i, q)\<leftarrow>rs. effective_unit (ord_line_items o1 ! nat i) * q)
    \<and> (\<forall>(i, q)\<in>set rs. 0 \<le> i \<and> i < int (length (ord_line_items o1))
         \<and> 1 \<le> q \<and> q \<le> ol_quantity (ord_line_items o1 ! nat i))
    \<and> 0 \<le> v \<and> collectible_total o2 = c \<and> c = max 0 (ord_total o1 - v)
    \<and> ord_total o2 = ord_total o1 \<and> c \<le> ord_total o1
    \<and> (distinct (map fst rs)
        \<and> (\<forall>l\<in>set (ord_line_items o1). \<exists>k<2 ^ 53. ol_total_price l = k * ol_quantity l)
       \<longrightarrow> v \<le> sum_list (map ol_total_price (ord_line_items o1)))"
proof -
  let ?it = "\<lambda>i. ord_line_items o1 ! nat i"
  have f: "foldM (return_step o1) rs ([], 0) = Inr (ls, v)"
    and c: "c = max (ord_total o1 - v) 0" and o2: "ord_collected_total o2 = Some c" "ord_total o2 = ord_total o1"
    using acc by (auto simp: order_record_partial_acceptance_def rbind_Inr_iff Let_def order_touch_def
        split: if_splits)
  note st = return_steps [OF f]
  have lineok: "order_line_ok (?it i)" if "(i, q) \<in> set rs" for i q
  proof -
    have "nat i < length (ord_line_items o1)" using st that by fastforce
    then show ?thesis using ok by (auto simp: order_ok_def)
  qed
  have v: "v = (\<Sum>(i, q)\<leftarrow>rs. effective_unit (?it i) * q)" using st by simp
  have "0 \<le> x" if "x \<in> set (map (\<lambda>(i, q). effective_unit (?it i) * q) rs)" for x
    using that st lineok by (fastforce intro!: mult_nonneg_nonneg effective_unit_nonneg)
  then have vn: "0 \<le> v" unfolding v by (rule sum_list_nonneg)
  have "v \<le> sum_list (map ol_total_price (ord_line_items o1))"
    if d: "distinct (map fst rs)"
      and whole: "\<forall>l\<in>set (ord_line_items o1). \<exists>k<2 ^ 53. ol_total_price l = k * ol_quantity l"
  proof -
    have "v \<le> (\<Sum>(i, q)\<leftarrow>rs. ol_total_price (?it i))"
      unfolding v
    proof (rule sum_list_mono)
      fix x assume x: "x \<in> set rs"
      obtain i q where iq: "x = (i, q)" by (cases x)
      have idx: "nat i < length (ord_line_items o1)" "1 \<le> q" "q \<le> ol_quantity (?it i)"
        using st x iq by fastforce+
      then obtain k where k: "k < 2 ^ 53" "ol_total_price (?it i) = k * ol_quantity (?it i)"
        using whole nth_mem by blast
      have l: "order_line_ok (?it i)" using lineok x iq by simp
      have "effective_unit (?it i) = k" by (rule effective_unit_exact [OF l k(2,1)])
      moreover have "0 \<le> effective_unit (?it i)" by (rule effective_unit_nonneg [OF l])
      ultimately show "(case x of (i, q) \<Rightarrow> effective_unit (?it i) * q)
          \<le> (case x of (i, q) \<Rightarrow> ol_total_price (?it i))"
        using idx k by (simp add: iq mult_left_mono)
    qed
    also have "\<dots> \<le> sum_list (map ol_total_price (ord_line_items o1))"
      using st ok by (intro sum_over_indices [OF d]) (auto simp: order_ok_def order_line_ok_def)
    finally show ?thesis .
  qed
  moreover have "0 \<le> ord_total o1" using ok by (simp add: order_ok_def)
  ultimately show ?thesis using st c o2 vn by (auto simp: collectible_total_def max_def)
qed

lemma demo_line_unit: "effective_unit (demo_line 2 1000) = 500" "effective_unit (demo_line 3 900) = 300"
  using effective_unit_exact [of "demo_line 2 1000" 500] effective_unit_exact [of "demo_line 3 900" 300]
  by (simp_all add: demo_line_def order_line_ok_def)

theorem partial_acceptance_value_witness:
  "\<exists>ls o2. order_record_partial_acceptance 5 [(1, 2)] None (demo_order DELIVERED)
      = Inr ((ls, 600, 1400), o2) \<and> collectible_total o2 = 1400"
proof -
  let ?o = "demo_order DELIVERED"
  have ok: "order_ok ?o" by (simp add: order_ok_def demo_order_def demo_line_def order_line_ok_def)
  have "\<exists>ls o2. order_record_partial_acceptance 5 [(1, 2)] None ?o = Inr ((ls, 600, 1400), o2)"
    by (simp add: order_record_partial_acceptance_def return_step_def demo_order_def Let_def
        demo_line_unit) (simp add: demo_line_def)
  then obtain ls o2 where r: "order_record_partial_acceptance 5 [(1, 2)] None ?o
      = Inr ((ls, 600, 1400), o2)" by blast
  from partial_acceptance_value [OF ok r] r show ?thesis by blast
qed

end
