(* ===== verification/Refund.thy ===== *)
theory Refund
  imports Status_Machine
begin

text \<open>
  The refund entity, \<open>src/core/entities/refund.py\<close>: its transition table and the operations
  that move it, each of which records the step in the metadata.
\<close>

datatype refund_status =
    RfRequested | RfApproved | RfProcessing | RfProcessed | RfCompleted | RfRejected | RfFailed

definition refund_status_value :: "refund_status \<Rightarrow> string" where
  "refund_status_value st = (case st of
      RfRequested \<Rightarrow> ''requested'' | RfApproved \<Rightarrow> ''approved'' | RfProcessing \<Rightarrow> ''processing''
    | RfProcessed \<Rightarrow> ''processed'' | RfCompleted \<Rightarrow> ''completed'' | RfRejected \<Rightarrow> ''rejected''
    | RfFailed \<Rightarrow> ''failed'')"

datatype refund_reason =
    RrDefective | RrWrongItem | RrNotAsDescribed | RrCustomerRequest | RrDuplicateOrder | RrOther

datatype refund_type = FullRefund | PartialRefund

definition refund_next :: "refund_status \<Rightarrow> refund_status list" where
  "refund_next st = (case st of
      RfRequested \<Rightarrow> [RfApproved, RfRejected]
    | RfApproved \<Rightarrow> [RfProcessing]
    | RfProcessing \<Rightarrow> [RfProcessed, RfFailed]
    | RfProcessed \<Rightarrow> [RfCompleted]
    | RfFailed \<Rightarrow> [RfProcessing]
    | RfRejected \<Rightarrow> [] | RfCompleted \<Rightarrow> [])"

record refund =
  rf_id :: uuid
  rf_created_at :: instant
  rf_updated_at :: instant
  rf_order_id :: uuid
  rf_store_id :: uuid
  rf_tenant_id :: "uuid option"
  rf_refund_number :: string
  rf_refund_type :: refund_type
  rf_status :: refund_status
  rf_reason :: refund_reason
  rf_reason_note :: "string option"
  rf_amount :: int
  rf_currency :: string
  rf_payment_provider :: "string option"
  rf_payment_id :: "string option"
  rf_provider_refund_id :: "string option"
  rf_requested_by :: "uuid option"
  rf_approved_by :: "uuid option"
  rf_rejected_by :: "uuid option"
  rf_processed_at :: "instant option"
  rf_completed_at :: "instant option"
  rf_rejected_at :: "instant option"
  rf_failure_reason :: "string option"
  rf_metadata :: metadata

definition refund_can_be_approved :: "refund \<Rightarrow> bool" where
  "refund_can_be_approved r \<longleftrightarrow> rf_status r = RfRequested"

definition refund_can_be_rejected :: "refund \<Rightarrow> bool" where
  "refund_can_be_rejected r \<longleftrightarrow> rf_status r = RfRequested"

definition refund_can_be_processed :: "refund \<Rightarrow> bool" where
  "refund_can_be_processed r \<longleftrightarrow> rf_status r = RfApproved"

definition refund_can_be_retried :: "refund \<Rightarrow> bool" where
  "refund_can_be_retried r \<longleftrightarrow> rf_status r = RfFailed"

definition refund_is_terminal :: "refund \<Rightarrow> bool" where
  "refund_is_terminal r \<longleftrightarrow> rf_status r \<in> {RfCompleted, RfRejected}"

definition refund_validate_transition :: "refund_status \<Rightarrow> refund \<Rightarrow> unit result" where
  "refund_validate_transition st r =
     (if st \<notin> set (refund_next (rf_status r)) then Inl (ValueError ''Cannot transition refund'')
      else Inr ())"

text \<open>\<open>_record_transition\<close>: the entry goes to the end of the history.\<close>

definition refund_record_transition ::
    "instant \<Rightarrow> string \<Rightarrow> string \<Rightarrow> string option \<Rightarrow> refund \<Rightarrow> refund result" where
  "refund_record_transition now src dst reason r =
     rbind (push_history ''status_history''
         (JObj [(''from'', JStr src), (''to'', JStr dst), (''timestamp'', JTime now),
                (''reason'', json_opt_str reason)]) (rf_metadata r))
       (\<lambda>m. Inr (r\<lparr>rf_metadata := m\<rparr>))"

definition refund_touch :: "instant \<Rightarrow> refund \<Rightarrow> refund" where
  "refund_touch now r = r\<lparr>rf_updated_at := now\<rparr>"

definition refund_approve :: "instant \<Rightarrow> uuid \<Rightarrow> refund \<Rightarrow> refund result" where
  "refund_approve now user r =
     rbind (refund_validate_transition RfApproved r) (\<lambda>_.
     let old = refund_status_value (rf_status r);
         r1 = r\<lparr>rf_status := RfApproved, rf_approved_by := Some user\<rparr>
     in rbind (refund_record_transition now old (refund_status_value (rf_status r1)) None r1)
          (\<lambda>r2. Inr (refund_touch now r2)))"

definition refund_reject :: "instant \<Rightarrow> uuid \<Rightarrow> string option \<Rightarrow> refund \<Rightarrow> refund result" where
  "refund_reject now user reason r =
     rbind (refund_validate_transition RfRejected r) (\<lambda>_.
     let old = refund_status_value (rf_status r);
         r1 = r\<lparr>rf_status := RfRejected, rf_rejected_by := Some user, rf_rejected_at := Some now\<rparr>;
         r2 = (if truthy_str reason
               then r1\<lparr>rf_metadata := (rf_metadata r1)(''rejection_reason'' \<mapsto> json_opt_str reason)\<rparr>
               else r1)
     in rbind (refund_record_transition now old (refund_status_value (rf_status r2)) reason r2)
          (\<lambda>r3. Inr (refund_touch now r3)))"

definition refund_start_processing :: "instant \<Rightarrow> refund \<Rightarrow> refund result" where
  "refund_start_processing now r =
     rbind
      (if rf_status r = RfFailed
       then rbind (refund_validate_transition RfProcessing r) (\<lambda>_.
            let old = refund_status_value (rf_status r);
                r1 = r\<lparr>rf_status := RfProcessing, rf_failure_reason := None\<rparr>
            in refund_record_transition now old (refund_status_value (rf_status r1))
                 (Some ''retry'') r1)
       else rbind (refund_validate_transition RfProcessing r) (\<lambda>_.
            let old = refund_status_value (rf_status r);
                r1 = r\<lparr>rf_status := RfProcessing\<rparr>
            in refund_record_transition now old (refund_status_value (rf_status r1)) None r1))
      (\<lambda>r2. Inr (refund_touch now r2))"

definition refund_mark_processed :: "instant \<Rightarrow> string option \<Rightarrow> refund \<Rightarrow> refund result" where
  "refund_mark_processed now provider_refund_id r =
     rbind (refund_validate_transition RfProcessed r) (\<lambda>_.
     let old = refund_status_value (rf_status r);
         r1 = r\<lparr>rf_status := RfProcessed, rf_provider_refund_id := provider_refund_id,
                rf_processed_at := Some now\<rparr>
     in rbind (refund_record_transition now old (refund_status_value (rf_status r1)) None r1)
          (\<lambda>r2. Inr (refund_touch now r2)))"

definition refund_complete :: "instant \<Rightarrow> refund \<Rightarrow> refund result" where
  "refund_complete now r =
     rbind (refund_validate_transition RfCompleted r) (\<lambda>_.
     let old = refund_status_value (rf_status r);
         r1 = r\<lparr>rf_status := RfCompleted, rf_completed_at := Some now\<rparr>
     in rbind (refund_record_transition now old (refund_status_value (rf_status r1)) None r1)
          (\<lambda>r2. Inr (refund_touch now r2)))"

definition refund_mark_failed :: "instant \<Rightarrow> string option \<Rightarrow> refund \<Rightarrow> refund result" where
  "refund_mark_failed now reason r =
     rbind (refund_validate_transition RfFailed r) (\<lambda>_.
     let old = refund_status_value (rf_status r);
         r1 = r\<lparr>rf_status := RfFailed, rf_failure_reason := reason\<rparr>
     in rbind (refund_record_transition now old (refund_status_value (rf_status r1)) reason r1)
          (\<lambda>r2. Inr (refund_touch now r2)))"

section \<open>The contract\<close>

datatype refund_call =
    RfApprove uuid | RfReject uuid "string option" | RfStart | RfMarkProcessed "string option"
  | RfComplete | RfMarkFailed "string option"

fun refund_act :: "instant \<Rightarrow> refund_call \<Rightarrow> refund \<Rightarrow> refund result" where
  "refund_act now (RfApprove u) r = refund_approve now u r"
| "refund_act now (RfReject u t) r = refund_reject now u t r"
| "refund_act now RfStart r = refund_start_processing now r"
| "refund_act now (RfMarkProcessed p) r = refund_mark_processed now p r"
| "refund_act now RfComplete r = refund_complete now r"
| "refund_act now (RfMarkFailed t) r = refund_mark_failed now t r"

lemmas refund_ops = refund_approve_def refund_reject_def refund_start_processing_def
  refund_mark_processed_def refund_complete_def refund_mark_failed_def
  refund_validate_transition_def refund_record_transition_def refund_touch_def

lemma refund_record_trail:
  "push_history ''status_history'' (JObj ((''from'', a) # (''to'', b) # kv)) m = Inr m' \<Longrightarrow>
    trail m' = trail m @ [(Some a, Some b)]"
  by (simp add: push_history_trail entry_edge_def)

lemma refund_call_audit:
  assumes "refund_act now x r = Inr r'"
  shows "rf_status r' \<in> set (refund_next (rf_status r))
    \<and> trail (rf_metadata r') = trail (rf_metadata r)
        @ [(Some (JStr (refund_status_value (rf_status r))),
            Some (JStr (refund_status_value (rf_status r'))))]
    \<and> rf_amount r' = rf_amount r \<and> rf_order_id r' = rf_order_id r"
  using assms
  by (cases x) (auto simp: refund_ops Let_def rbind_Inr_iff refund_record_trail split: if_splits)

interpretation refund_audited: audited_machine refund_next rf_status "refund_act now"
    refund_status_value rf_metadata for now
  by unfold_locales (use refund_call_audit in \<open>auto\<close>)

definition edge_label :: "string \<Rightarrow> string \<Rightarrow> json option \<times> json option" where
  "edge_label a b = (Some (JStr a), Some (JStr b))"

lemma edge_label_eq [simp]: "edge_label a b = edge_label c d \<longleftrightarrow> a = c \<and> b = d"
  by (simp add: edge_label_def)

text \<open>What the trail of a refund says at each status.\<close>

definition refund_trail_inv :: "refund \<Rightarrow> bool" where
  "refund_trail_inv r \<longleftrightarrow>
     count_list (trail (rf_metadata r)) (edge_label ''processing'' ''processed'')
       = (if rf_status r \<in> {RfProcessed, RfCompleted} then 1 else 0)
     \<and> count_list (trail (rf_metadata r)) (edge_label ''requested'' ''approved'')
       = (if rf_status r \<in> {RfRequested, RfRejected} then 0 else 1)"

lemma refund_act_trail_inv:
  assumes "refund_trail_inv r" "refund_act now x r = Inr r'"
  shows "refund_trail_inv r'"
proof -
  note a = refund_call_audit [OF assms(2), folded edge_label_def]
  then have "rf_status r' \<in> set (refund_next (rf_status r))" by simp
  with assms(1) a show ?thesis
    by (cases "rf_status r") (auto simp: refund_trail_inv_def refund_next_def refund_status_value_def)
qed

definition demo_refund :: refund where
  "demo_refund = \<lparr>rf_id = 1, rf_created_at = 0, rf_updated_at = 0, rf_order_id = 2, rf_store_id = 3,
     rf_tenant_id = None, rf_refund_number = ''R1'', rf_refund_type = FullRefund,
     rf_status = RfRequested, rf_reason = RrOther, rf_reason_note = None, rf_amount = 500,
     rf_currency = ''EGP'', rf_payment_provider = None, rf_payment_id = None,
     rf_provider_refund_id = None, rf_requested_by = None, rf_approved_by = None,
     rf_rejected_by = None, rf_processed_at = None, rf_completed_at = None, rf_rejected_at = None,
     rf_failure_reason = None, rf_metadata = Map.empty\<rparr>"

text \<open>
  C28: a refund pays out at most once and only after an approval. Starting from a requested
  refund with no history, whatever calls it accepts, retries after failures included, its trail
  holds the step from processing to processed exactly once when it is processed or completed and
  never otherwise, and exactly one approval unless it is still requested or was rejected; a
  completed or rejected refund accepts no further call.
\<close>

theorem refund_pays_once:
  assumes "rf_status r = RfRequested" "trail (rf_metadata r) = []"
    and "foldM (refund_act now) xs r = Inr r'"
  shows "count_list (trail (rf_metadata r'))
        (Some (JStr ''processing''), Some (JStr ''processed''))
      = (if rf_status r' \<in> {RfProcessed, RfCompleted} then 1 else 0)
    \<and> count_list (trail (rf_metadata r'))
        (Some (JStr ''requested''), Some (JStr ''approved''))
      = (if rf_status r' \<in> {RfRequested, RfRejected} then 0 else 1)
    \<and> (refund_is_terminal r' \<longrightarrow> (\<forall>x. \<exists>e. refund_act now x r' = Inl e))
    \<and> rf_amount r' = rf_amount r"
proof -
  have start: "refund_trail_inv r" using assms(1,2) by (simp add: refund_trail_inv_def)
  have inv: "refund_trail_inv r'"
    by (rule foldM_invariant [where I = refund_trail_inv, OF _ start assms(3)])
      (rule refund_act_trail_inv)
  have amt: "rf_amount r' = rf_amount r"
    by (rule foldM_invariant [where I = "\<lambda>s. rf_amount s = rf_amount r", OF _ _ assms(3)])
      (use refund_call_audit in \<open>auto\<close>)
  have stuck: "\<exists>e. refund_act now x r' = Inl e" if "refund_is_terminal r'" for x
  proof (cases "refund_act now x r'")
    case (Inr r'')
    from refund_call_audit [OF this] that show ?thesis
      by (auto simp: refund_is_terminal_def refund_next_def)
  qed simp
  show ?thesis using inv amt stuck by (simp add: refund_trail_inv_def edge_label_def)
qed

theorem refund_pays_once_witness:
  "\<exists>r'. foldM (refund_act 5) [RfApprove 9, RfStart, RfMarkFailed None, RfStart, RfMarkProcessed None]
      demo_refund = Inr r'
    \<and> count_list (trail (rf_metadata r')) (Some (JStr ''processing''), Some (JStr ''processed'')) = 1"
proof -
  let ?xs = "[RfApprove 9, RfStart, RfMarkFailed None, RfStart, RfMarkProcessed None]"
  have "\<exists>r'. foldM (refund_act 5) ?xs demo_refund = Inr r' \<and> rf_status r' = RfProcessed"
    by (simp add: refund_ops Let_def demo_refund_def refund_next_def push_history_def)
  then obtain r' where r': "foldM (refund_act 5) ?xs demo_refund = Inr r'" "rf_status r' = RfProcessed"
    by blast
  from refund_pays_once [OF _ _ r'(1)] r' show ?thesis
    by (auto simp: demo_refund_def trail_def)
qed

end
