(* ===== verification/Tables.thy ===== *)
theory Tables
  imports Numu_Prelude
begin

text \<open>
  Database tables as lists of rows with a key column: the first row with a key, and the update of
  the row with a key. The component theories share the lemmas on lookups after updates and on the
  sums over a column.
\<close>

definition lookup_by :: "('a \<Rightarrow> 'k) \<Rightarrow> 'k \<Rightarrow> 'a list \<Rightarrow> 'a option" where
  "lookup_by key k xs = List.find (\<lambda>x. key x = k) xs"

definition replace_by :: "('a \<Rightarrow> 'k) \<Rightarrow> 'a \<Rightarrow> 'a list \<Rightarrow> 'a list" where
  "replace_by key y xs = map (\<lambda>x. if key x = key y then y else x) xs"

lemma find_key_Some:
  "distinct (map f xs) \<Longrightarrow> List.find (\<lambda>c. f c = k) xs = Some x \<longleftrightarrow> x \<in> set xs \<and> f x = k"
  by (induction xs) (auto simp: rev_image_eqI)

lemma find_replace:
  "f y = i \<Longrightarrow> List.find (\<lambda>c. f c = j) (map (\<lambda>c. if f c = i then y else c) xs)
    = (if j = i then map_option (\<lambda>_. y) (List.find (\<lambda>c. f c = i) xs) else List.find (\<lambda>c. f c = j) xs)"
  by (induction xs) auto

lemma map_replace_same:
  "(\<And>x. x \<in> set xs \<Longrightarrow> f x = i \<Longrightarrow> g y = g x) \<Longrightarrow> map g (map (\<lambda>c. if f c = i then y else c) xs) = map g xs"
  by (induction xs) auto

lemma find_snoc: "List.find P (xs @ [y])
    = (case List.find P xs of None \<Rightarrow> if P y then Some y else None | Some x \<Rightarrow> Some x)"
  by (induction xs) auto

lemma lookup_by_Some:
  "distinct (map key xs) \<Longrightarrow> lookup_by key k xs = Some x \<longleftrightarrow> x \<in> set xs \<and> key x = k"
  by (simp add: lookup_by_def find_key_Some)

lemma distinct_key_eq:
  "distinct (map key xs) \<Longrightarrow> x \<in> set xs \<Longrightarrow> y \<in> set xs \<Longrightarrow> key x = key y \<Longrightarrow> x = y"
  by (auto simp: distinct_map dest: inj_onD)

lemma lookup_by_in: "lookup_by key k xs = Some x \<Longrightarrow> x \<in> set xs \<and> key x = k"
  by (induction xs) (auto simp: lookup_by_def split: if_splits)

lemma lookup_by_None: "lookup_by key k xs = None \<longleftrightarrow> k \<notin> key ` set xs"
  by (induction xs) (auto simp: lookup_by_def)

lemma lookup_by_Nil [simp]: "lookup_by key k [] = None"
  by (simp add: lookup_by_def)

lemma lookup_by_Cons [simp]:
  "lookup_by key k (x # xs) = (if key x = k then Some x else lookup_by key k xs)"
  by (simp add: lookup_by_def)

lemma lookup_snoc:
  "lookup_by key k (xs @ [y]) = (case lookup_by key k xs of
     None \<Rightarrow> if key y = k then Some y else None | Some x \<Rightarrow> Some x)"
  by (induction xs) auto

lemma lookup_replace:
  "lookup_by key k (replace_by key y xs)
    = (if k = key y then map_option (\<lambda>_. y) (lookup_by key k xs) else lookup_by key k xs)"
  by (induction xs) (auto simp: replace_by_def)

lemma map_key_replace [simp]: "map key (replace_by key y xs) = map key xs"
  by (induction xs) (auto simp: replace_by_def)

lemma key_set_replace [simp]: "key ` set (replace_by key y xs) = key ` set xs"
  by (metis list.set_map map_key_replace)

lemma map_column_replace:
  "(\<And>x. x \<in> set xs \<Longrightarrow> key x = key y \<Longrightarrow> g x = g y) \<Longrightarrow> map g (replace_by key y xs) = map g xs"
  by (induction xs) (auto simp: replace_by_def)

lemma in_replace: "x \<in> set (replace_by key y xs) \<Longrightarrow> x = y \<or> (x \<in> set xs \<and> key x \<noteq> key y)"
  by (auto simp: replace_by_def split: if_splits)

lemma replace_absent: "key y \<notin> key ` set xs \<Longrightarrow> replace_by key y xs = xs"
  by (induction xs) (auto simp: replace_by_def)

text \<open>Replacing a row changes the sum of a column by the difference of its two values.\<close>

lemma sum_replace:
  fixes f :: "'a \<Rightarrow> int"
  assumes "distinct (map key xs)" "lookup_by key (key y) xs = Some x"
  shows "sum_list (map f (replace_by key y xs)) = sum_list (map f xs) - f x + f y"
  using assms
proof (induction xs)
  case (Cons a xs)
  show ?case
  proof (cases "key a = key y")
    case True
    then have "key y \<notin> key ` set xs" using Cons.prems(1) by (metis distinct.simps(2) list.set_map list.simps(9))
    then have "map (\<lambda>x. if key x = key y then y else x) xs = xs"
      using replace_absent [of key y xs] by (simp add: replace_by_def)
    with True Cons.prems(2) show ?thesis by (simp add: replace_by_def)
  next
    case False
    then have "sum_list (map f (replace_by key y xs)) = sum_list (map f xs) - f x + f y"
      using Cons by simp
    with False show ?thesis by (simp add: replace_by_def)
  qed
qed simp

lemma sum_column_nonneg: "(\<And>x. x \<in> set xs \<Longrightarrow> 0 \<le> f x) \<Longrightarrow> 0 \<le> sum_list (map f xs)" for f :: "'a \<Rightarrow> int"
  by (rule sum_list_nonneg) auto

lemma row_le_sum:
  fixes f :: "'a \<Rightarrow> int"
  assumes "x \<in> set xs" "\<And>x. x \<in> set xs \<Longrightarrow> 0 \<le> f x"
  shows "f x \<le> sum_list (map f xs)"
  using assms
proof (induction xs)
  case (Cons a xs)
  have "0 \<le> sum_list (map f xs)" by (rule sum_column_nonneg) (use Cons.prems in auto)
  then show ?case using Cons by fastforce
qed simp

end
