(* ===== verification/Py_Digits.thy ===== *)
theory Py_Digits
  imports Numu_Prelude
begin

text \<open>
  Decimal numbers as text: \<open>int\<close> reads back what \<open>str\<close> writes, and numbers padded with zeros, as the
  sequence numbers of refunds are, keep their value.
\<close>

lemma read_digits_append:
  "\<forall>c\<in>set xs. is_digit c \<Longrightarrow> xs \<noteq> [] \<Longrightarrow>
    read_digits (xs @ ys) acc d = read_digits ys (foldl (\<lambda>a c. a * 10 + digit_val c) acc xs) True"
proof (induction xs arbitrary: acc d)
  case (Cons c xs)
  then show ?case by (cases "xs = []") simp_all
qed simp

lemma digit_char: "n < 10 \<Longrightarrow> is_digit (char_of (48 + n)) \<and> digit_val (char_of (48 + n)) = int n"
  for n :: nat
proof -
  assume n: "n < 10"
  then have c: "of_char (char_of (48 + n)) = 48 + n" by (simp add: of_char_of)
  then have "of_char (char_of (48 + n)) = int (48 + n)" by (metis of_nat_of_char)
  then show ?thesis using n c by (simp add: is_digit_def digit_val_def)
qed

lemma nat_digits_value:
  "(\<forall>c\<in>set (nat_digits k). is_digit c) \<and> nat_digits k \<noteq> []
    \<and> foldl (\<lambda>a c. a * 10 + digit_val c) 0 (nat_digits k) = int k"
proof (induction k rule: nat_digits.induct)
  case (1 n)
  show ?case
  proof (cases "n < 10")
    case True
    then show ?thesis using digit_char [of n] by (simp add: nat_digits.simps)
  next
    case False
    then show ?thesis using 1 digit_char [of "n mod 10"]
      by (simp add: nat_digits.simps [of n] zdiv_int zmod_int)
  qed
qed

lemma digit_not_space: "is_digit c \<Longrightarrow> \<not> is_space c \<and> c \<noteq> CHR ''-'' \<and> c \<noteq> CHR ''+''"
  by (auto simp: is_digit_def is_space_def)

lemma strip_solid:
  assumes "s \<noteq> []" "\<not> is_space (hd s)" "\<not> is_space (last s)" shows "strip s = s"
proof -
  have "dropWhile is_space s = s" using assms(1,2) by (cases s) auto
  moreover have "dropWhile is_space (rev s) = rev s" using assms(1,3) by (cases "rev s") (auto simp: last_rev hd_rev)
  ultimately show ?thesis by (simp add: strip_def)
qed

lemma py_int_str_int_str: "py_int_str (int_str n) = Some n"
proof -
  let ?k = "nat \<bar>n\<bar>"
  note v = nat_digits_value [of ?k]
  then obtain c cs where d: "nat_digits ?k = c # cs" by (cases "nat_digits ?k") auto
  have nosp: "\<not> is_space (last (nat_digits ?k))" "\<not> is_space c" "c \<noteq> CHR ''-''" "c \<noteq> CHR ''+''"
    using v digit_not_space d by (metis last_in_set list.set_intros(1))+
  have "read_digits (nat_digits ?k @ []) 0 False = Some (int ?k)"
    using read_digits_append [of "nat_digits ?k" "[]" 0 False] v by simp
  then have rd: "read_digits (nat_digits ?k) 0 False = Some \<bar>n\<bar>" by simp
  show ?thesis
  proof (cases "n < 0")
    case True
    have "strip (CHR ''-'' # nat_digits ?k) = CHR ''-'' # nat_digits ?k"
      by (rule strip_solid) (use nosp d in \<open>auto simp: is_space_def\<close>)
    then show ?thesis using True rd by (simp add: py_int_str_def int_str_def read_signed_def)
  next
    case False
    have "strip (nat_digits ?k) = nat_digits ?k" by (rule strip_solid) (use nosp d in auto)
    then show ?thesis using False rd nosp d by (simp add: py_int_str_def int_str_def read_signed_def)
  qed
qed

text \<open>The format \<open>04d\<close> of a natural number.\<close>

definition pad4 :: "nat \<Rightarrow> string" where
  "pad4 n = replicate (4 - length (nat_digits n)) (CHR ''0'') @ nat_digits n"

lemma pad4_inject [simp]: "pad4 m = pad4 n \<longleftrightarrow> m = n"
proof
  let ?v = "\<lambda>s. foldl (\<lambda>a c. a * 10 + digit_val c) (0 :: int) s"
  have zeros: "foldl (\<lambda>a c. a * 10 + digit_val c) (0 :: int) (replicate k (CHR ''0'')) = 0" for k
    by (induction k) (simp_all add: digit_val_def)
  have val: "?v (pad4 k) = int k" for k
    using nat_digits_value [of k] by (simp add: pad4_def zeros)
  assume "pad4 m = pad4 n"
  then have "int m = int n" using val by metis
  then show "m = n" by simp
qed simp

end
