(* ===== verification/Refund_Desk.thy ===== *)
theory Refund_Desk
  imports Refund Order Tables Py_Digits
begin

text \<open>
  The refund use cases \<open>src/application/use_cases/refunds/\<close> over the refund and order tables of a
  tenant. The store repository, whose rows are not modelled, is the argument \<open>stores\<close>, and the
  payment service of a call, a third-party gateway, the argument \<open>svc\<close>: what it answers to a payment
  and an amount. What the gateway says it paid (refund, order, amount) is kept in the order of the
  answers.
\<close>

section \<open>The desk\<close>

record refund_desk =
  rd_orders :: "order list"
  rd_refunds :: "refund list"
  rd_payouts :: "(uuid \<times> uuid \<times> int) list"

datatype provider_answer =
    PaymentRefunded "string option" | PaymentDeclined "string option" | PaymentRaised string

type_synonym payment_service = "string \<Rightarrow> int \<Rightarrow> provider_answer"

definition refund_type_of :: "string \<Rightarrow> refund_type option" where
  "refund_type_of s = (if s = ''full'' then Some FullRefund else if s = ''partial'' then Some PartialRefund else None)"

definition refund_reason_of :: "string \<Rightarrow> refund_reason option" where
  "refund_reason_of s = map_of [(''defective'', RrDefective), (''wrong_item'', RrWrongItem),
     (''not_as_described'', RrNotAsDescribed), (''customer_request'', RrCustomerRequest),
     (''duplicate_order'', RrDuplicateOrder), (''other'', RrOther)] s"

section \<open>Queries\<close>

definition total_refunded :: "uuid \<Rightarrow> bool \<Rightarrow> refund list \<Rightarrow> int" where
  "total_refunded oid include_open rs = sum_list (map rf_amount (filter (\<lambda>r. rf_order_id r = oid
     \<and> (if include_open then rf_status r \<noteq> RfRejected else rf_status r = RfCompleted)) rs))"

definition next_refund_number :: "uuid \<Rightarrow> refund list \<Rightarrow> string" where
  "next_refund_number sid rs = ''RFD-'' @ pad4 (length (filter (\<lambda>r. rf_store_id r = sid) rs) + 1)"

section \<open>Creating a refund\<close>

record refund_input =
  ri_order_id :: uuid
  ri_refund_type :: string
  ri_reason :: string
  ri_reason_note :: "string option"
  ri_amount :: "int option"

definition refund_amount :: "refund_type \<Rightarrow> int option \<Rightarrow> int \<Rightarrow> int result" where
  "refund_amount ty amt refundable = (case ty of
      FullRefund \<Rightarrow> Inr refundable
    | PartialRefund \<Rightarrow> (case amt of
        None \<Rightarrow> Inl (ValidationError ''Partial refund requires a positive amount'')
      | Some a \<Rightarrow>
          if a \<le> 0 then Inl (ValidationError ''Partial refund requires a positive amount'')
          else if a > refundable then Inl (ValidationError ''Refund amount exceeds refundable amount'')
          else Inr a))"

definition new_refund :: "uuid \<Rightarrow> instant \<Rightarrow> refund_input \<Rightarrow> uuid \<Rightarrow> uuid \<Rightarrow> order \<Rightarrow> string \<Rightarrow> refund_type
    \<Rightarrow> refund_reason \<Rightarrow> int \<Rightarrow> refund" where
  "new_refund new_id now dto sid user o' number ty why amt =
     \<lparr>rf_id = new_id, rf_created_at = now, rf_updated_at = now, rf_order_id = ri_order_id dto,
      rf_store_id = sid, rf_tenant_id = ord_tenant_id o', rf_refund_number = number, rf_refund_type = ty,
      rf_status = RfRequested, rf_reason = why, rf_reason_note = ri_reason_note dto,
      rf_amount = amt, rf_currency = ord_currency o', rf_payment_provider = ord_payment_method o',
      rf_payment_id = ord_payment_id o', rf_provider_refund_id = None, rf_requested_by = Some user,
      rf_approved_by = None, rf_rejected_by = None, rf_processed_at = None, rf_completed_at = None,
      rf_rejected_at = None, rf_failure_reason = None, rf_metadata = Map.empty\<rparr>"

definition check_store :: "(uuid \<Rightarrow> uuid option) \<Rightarrow> uuid \<Rightarrow> uuid \<Rightarrow> unit result" where
  "check_store stores sid user = (case stores sid of
      None \<Rightarrow> Inl (EntityNotFoundError ''Store'')
    | Some owner \<Rightarrow> if owner \<noteq> user then Inl (AuthorizationError ''refunds'') else Inr ())"

definition create_refund :: "(uuid \<Rightarrow> uuid option) \<Rightarrow> uuid \<Rightarrow> instant \<Rightarrow> refund_input \<Rightarrow> uuid \<Rightarrow> uuid
    \<Rightarrow> refund_desk \<Rightarrow> refund_desk result" where
  "create_refund stores new_id now dto sid user d =
     rbind (check_store stores sid user) (\<lambda>_.
     case lookup_by ord_id (ri_order_id dto) (rd_orders d) of
       None \<Rightarrow> Inl (EntityNotFoundError ''Order'')
     | Some o' \<Rightarrow>
         if ord_store_id o' \<noteq> sid then Inl (EntityNotFoundError ''Order'')
         else if \<not> order_is_refundable o' then Inl (ValidationError ''Cannot refund an unpaid order'')
         else (let refundable = collectible_total o' - total_refunded (ri_order_id dto) True (rd_refunds d) in
           if refundable \<le> 0 then Inl (ValidationError ''Order has already been fully refunded'')
           else case refund_type_of (ri_refund_type dto) of
             None \<Rightarrow> Inl (ValidationError ''Invalid refund type'')
           | Some ty \<Rightarrow> (case refund_reason_of (ri_reason dto) of
               None \<Rightarrow> Inl (ValidationError ''Invalid refund reason'')
             | Some why \<Rightarrow>
                 rbind (refund_amount ty (ri_amount dto) refundable) (\<lambda>amt.
                 if lookup_by rf_id new_id (rd_refunds d) \<noteq> None then Inl (IntegrityError ''refunds_pkey'')
                 else Inr (d\<lparr>rd_refunds := rd_refunds d
                   @ [new_refund new_id now dto sid user o' (next_refund_number sid (rd_refunds d)) ty why amt]\<rparr>)))))"

section \<open>Approving, rejecting, processing\<close>

definition find_refund :: "uuid \<Rightarrow> uuid \<Rightarrow> refund_desk \<Rightarrow> refund result" where
  "find_refund rid sid d = (case lookup_by rf_id rid (rd_refunds d) of
      None \<Rightarrow> Inl (EntityNotFoundError ''Refund'')
    | Some r \<Rightarrow> if rf_store_id r \<noteq> sid then Inl (EntityNotFoundError ''Refund'') else Inr r)"

definition save_refund :: "refund \<Rightarrow> refund_desk \<Rightarrow> refund_desk" where
  "save_refund r d = d\<lparr>rd_refunds := replace_by rf_id r (rd_refunds d)\<rparr>"

definition approve_refund :: "(uuid \<Rightarrow> uuid option) \<Rightarrow> instant \<Rightarrow> uuid \<Rightarrow> uuid \<Rightarrow> uuid
    \<Rightarrow> refund_desk \<Rightarrow> refund_desk result" where
  "approve_refund stores now rid sid user d =
     rbind (check_store stores sid user) (\<lambda>_. rbind (find_refund rid sid d) (\<lambda>r.
     rbind (as_validation (refund_approve now user r)) (\<lambda>r'. Inr (save_refund r' d))))"

definition reject_refund :: "(uuid \<Rightarrow> uuid option) \<Rightarrow> instant \<Rightarrow> uuid \<Rightarrow> uuid \<Rightarrow> uuid \<Rightarrow> string option
    \<Rightarrow> refund_desk \<Rightarrow> refund_desk result" where
  "reject_refund stores now rid sid user reason d =
     rbind (check_store stores sid user) (\<lambda>_. rbind (find_refund rid sid d) (\<lambda>r.
     rbind (as_validation (refund_reject now user reason r)) (\<lambda>r'. Inr (save_refund r' d))))"

text \<open>\<open>_update_order_payment_status\<close>.\<close>

definition update_order_payment_status :: "instant \<Rightarrow> uuid \<Rightarrow> refund_desk \<Rightarrow> refund_desk" where
  "update_order_payment_status now oid d = (case lookup_by ord_id oid (rd_orders d) of
      None \<Rightarrow> d
    | Some o' \<Rightarrow>
        (let n = total_refunded oid False (rd_refunds d);
             o1 = (if n \<ge> ord_total o' then o'\<lparr>ord_payment_status := PayRefunded\<rparr>
                   else if n > 0 then o'\<lparr>ord_payment_status := PayPartiallyRefunded\<rparr> else o')
         in d\<lparr>rd_orders := replace_by ord_id (order_touch now o1) (rd_orders d)\<rparr>))"

text \<open>
  What the answer of the provider makes of a refund in processing, and what was paid. If the entity
  raised after a refunded payment, the handler would call \<open>mark_failed\<close> on a status that has already
  moved on, and that raises.
\<close>

definition settle_refund :: "instant \<Rightarrow> payment_service option \<Rightarrow> refund \<Rightarrow> (refund \<times> (uuid \<times> uuid \<times> int) list) result" where
  "settle_refund now svc r =
     (if svc \<noteq> None \<and> truthy_str (rf_payment_id r) then
        (case the svc (the (rf_payment_id r)) (rf_amount r) of
           PaymentRefunded pid \<Rightarrow>
             (case rbind (refund_mark_processed now pid r) (refund_complete now) of
                Inr r' \<Rightarrow> Inr (r', [(rf_id r, rf_order_id r, rf_amount r)])
              | Inl _ \<Rightarrow> Inl (ValueError ''Cannot transition refund''))
         | PaymentDeclined e \<Rightarrow> rbind (refund_mark_failed now e r) (\<lambda>r'. Inr (r', []))
         | PaymentRaised e \<Rightarrow> rbind (refund_mark_failed now (Some e) r) (\<lambda>r'. Inr (r', [])))
      else rbind (refund_mark_processed now None r) (\<lambda>r1. rbind (refund_complete now r1) (\<lambda>r'. Inr (r', []))))"

definition process_refund :: "(uuid \<Rightarrow> uuid option) \<Rightarrow> payment_service option \<Rightarrow> instant \<Rightarrow> uuid \<Rightarrow> uuid \<Rightarrow> uuid
    \<Rightarrow> refund_desk \<Rightarrow> refund_desk result" where
  "process_refund stores svc now rid sid user d =
     rbind (check_store stores sid user) (\<lambda>_. rbind (find_refund rid sid d) (\<lambda>r.
     rbind (as_validation (refund_start_processing now r)) (\<lambda>r1.
     rbind (settle_refund now svc r1) (\<lambda>(r2, paid).
       let d2 = save_refund r2 (save_refund r1 d); d3 = d2\<lparr>rd_payouts := rd_payouts d2 @ paid\<rparr>
       in Inr (if rf_status r2 = RfCompleted then update_order_payment_status now (rf_order_id r) d3 else d3)))))"

datatype desk_call =
    CreateRefund uuid instant refund_input uuid uuid
  | ApproveRefund instant uuid uuid uuid
  | RejectRefund instant uuid uuid uuid "string option"
  | ProcessRefund "payment_service option" instant uuid uuid uuid

fun desk_act :: "(uuid \<Rightarrow> uuid option) \<Rightarrow> desk_call \<Rightarrow> refund_desk \<Rightarrow> refund_desk result" where
  "desk_act stores (CreateRefund new_id now dto sid user) d = create_refund stores new_id now dto sid user d"
| "desk_act stores (ApproveRefund now rid sid user) d = approve_refund stores now rid sid user d"
| "desk_act stores (RejectRefund now rid sid user reason) d = reject_refund stores now rid sid user reason d"
| "desk_act stores (ProcessRefund svc now rid sid user) d = process_refund stores svc now rid sid user d"

section \<open>What the entity keeps\<close>

lemma refund_act_keeps:
  assumes "refund_act now x r = Inr r'"
  shows "rf_id r' = rf_id r \<and> rf_order_id r' = rf_order_id r \<and> rf_store_id r' = rf_store_id r
    \<and> rf_amount r' = rf_amount r \<and> rf_payment_id r' = rf_payment_id r
    \<and> rf_refund_number r' = rf_refund_number r \<and> rf_status r' \<in> set (refund_next (rf_status r))"
  using assms by (cases x) (auto simp: refund_ops Let_def rbind_Inr_iff split: if_splits)

text \<open>A call on a refund whose history is a list is refused only by the transition table.\<close>

definition refund_target :: "refund_call \<Rightarrow> refund_status" where
  "refund_target x = (case x of RfApprove _ \<Rightarrow> RfApproved | RfReject _ _ \<Rightarrow> RfRejected | RfStart \<Rightarrow> RfProcessing
     | RfMarkProcessed _ \<Rightarrow> RfProcessed | RfComplete \<Rightarrow> RfCompleted | RfMarkFailed _ \<Rightarrow> RfFailed)"

definition refund_sound :: "refund \<Rightarrow> bool" where
  "refund_sound r \<longleftrightarrow> history_ok ''status_history'' (rf_metadata r)"

lemma refund_act_status: "refund_act now x r = Inr r' \<Longrightarrow> rf_status r' = refund_target x"
  by (cases x) (auto simp: refund_ops refund_target_def Let_def rbind_Inr_iff split: if_splits)

lemma push_sound [simp]:
  "history_ok k m \<Longrightarrow> push_history k e m
    = Inr (m(k \<mapsto> JList ((case m k of Some (JList es) \<Rightarrow> es | _ \<Rightarrow> []) @ [e])))"
  by (auto simp: history_ok_def push_history_def split: option.splits json.splits)

lemma refund_act_total:
  assumes "refund_sound r"
  shows "refund_target x \<in> set (refund_next (rf_status r)) \<Longrightarrow> \<exists>r'. refund_act now x r = Inr r' \<and> refund_sound r'"
    and "refund_target x \<notin> set (refund_next (rf_status r)) \<Longrightarrow>
      refund_act now x r = Inl (ValueError ''Cannot transition refund'')"
proof -
  have h: "history_ok ''status_history'' (rf_metadata r)" using assms by (simp add: refund_sound_def)
  show "refund_target x \<in> set (refund_next (rf_status r)) \<Longrightarrow> \<exists>r'. refund_act now x r = Inr r' \<and> refund_sound r'"
    by (cases x; cases "rf_status r = RfFailed")
      (simp_all add: refund_ops refund_target_def Let_def refund_sound_def h history_ok_def [of _ "_(_ \<mapsto> JList _)"])
  show "refund_target x \<notin> set (refund_next (rf_status r)) \<Longrightarrow>
      refund_act now x r = Inl (ValueError ''Cannot transition refund'')"
    by (cases x; cases "rf_status r = RfFailed") (auto simp: refund_ops refund_target_def)
qed

text \<open>What settling makes of a refund in processing.\<close>

lemma settle_facts:
  assumes "settle_refund now svc r = Inr (r', paid)"
  shows "rf_id r' = rf_id r \<and> rf_order_id r' = rf_order_id r \<and> rf_store_id r' = rf_store_id r
    \<and> rf_amount r' = rf_amount r \<and> rf_refund_number r' = rf_refund_number r
    \<and> (rf_status r' = RfCompleted \<and> paid \<in> {[], [(rf_id r, rf_order_id r, rf_amount r)]}
      \<or> rf_status r' = RfFailed \<and> paid = [])"
proof -
  have ok: "rf_id r' = rf_id r \<and> rf_order_id r' = rf_order_id r \<and> rf_store_id r' = rf_store_id r
    \<and> rf_amount r' = rf_amount r \<and> rf_refund_number r' = rf_refund_number r \<and> rf_status r' = RfCompleted"
    if paid_back: "rbind (refund_mark_processed now p r) (refund_complete now) = Inr r'" for p
  proof -
    obtain r1 where a: "refund_act now (RfMarkProcessed p) r = Inr r1" and b: "refund_act now RfComplete r1 = Inr r'"
      using paid_back by (auto simp: rbind_Inr_iff)
    show ?thesis using refund_act_keeps [OF a] refund_act_keeps [OF b] refund_act_status [OF b]
      by (simp add: refund_target_def)
  qed
  have bad: "rf_id r' = rf_id r \<and> rf_order_id r' = rf_order_id r \<and> rf_store_id r' = rf_store_id r
    \<and> rf_amount r' = rf_amount r \<and> rf_refund_number r' = rf_refund_number r \<and> rf_status r' = RfFailed"
    if "refund_mark_failed now e r = Inr r'" for e
  proof -
    have a: "refund_act now (RfMarkFailed e) r = Inr r'" using that by simp
    show ?thesis using refund_act_keeps [OF a] refund_act_status [OF a] by (simp add: refund_target_def)
  qed
  show ?thesis
  proof (cases "svc \<noteq> None \<and> truthy_str (rf_payment_id r)")
    case False
    then have "rbind (refund_mark_processed now None r) (refund_complete now) = Inr r'" "paid = []"
      using assms by (auto simp: settle_refund_def rbind_Inr_iff)
    then show ?thesis using ok by blast
  next
    case True
    show ?thesis
    proof (cases "the svc (the (rf_payment_id r)) (rf_amount r)")
      case (PaymentRefunded p)
      show ?thesis
      proof (cases "rbind (refund_mark_processed now p r) (refund_complete now)")
        case (Inr x)
        then have "x = r'" "paid = [(rf_id r, rf_order_id r, rf_amount r)]"
          using assms True PaymentRefunded by (simp_all add: settle_refund_def)
        then show ?thesis using ok Inr by blast
      qed (use assms True PaymentRefunded in \<open>simp add: settle_refund_def\<close>)
    next
      case (PaymentDeclined e)
      then show ?thesis using assms True bad by (auto simp: settle_refund_def rbind_Inr_iff)
    next
      case (PaymentRaised e)
      then show ?thesis using assms True bad by (auto simp: settle_refund_def rbind_Inr_iff)
    qed
  qed
qed

section \<open>The books of an order\<close>

definition paid_out :: "refund_desk \<Rightarrow> uuid \<Rightarrow> int" where
  "paid_out d oid = sum_list (map (\<lambda>(i, o', a). if o' = oid then a else 0) (rd_payouts d))"

definition status_reflects :: "order \<Rightarrow> int \<Rightarrow> bool" where
  "status_reflects o' n \<longleftrightarrow> (0 < n \<longrightarrow>
     ord_payment_status o' = (if ord_total o' \<le> n then PayRefunded else PayPartiallyRefunded))"

definition refund_completed :: "uuid \<Rightarrow> refund list \<Rightarrow> bool" where
  "refund_completed i rs \<longleftrightarrow> (case lookup_by rf_id i rs of None \<Rightarrow> False | Some r \<Rightarrow> rf_status r = RfCompleted)"

definition desk_core :: "refund_desk \<Rightarrow> bool" where
  "desk_core d \<longleftrightarrow> distinct (map ord_id (rd_orders d)) \<and> distinct (map rf_id (rd_refunds d))
     \<and> (\<forall>r\<in>set (rd_refunds d). 0 < rf_amount r)
     \<and> (\<forall>o'\<in>set (rd_orders d). total_refunded (ord_id o') True (rd_refunds d) \<le> collectible_total o')
     \<and> distinct (map fst (rd_payouts d))
     \<and> (\<forall>i\<in>set (map fst (rd_payouts d)). refund_completed i (rd_refunds d))
     \<and> (\<forall>oid. paid_out d oid \<le> total_refunded oid False (rd_refunds d))"

definition desk_ok :: "refund_desk \<Rightarrow> bool" where
  "desk_ok d \<longleftrightarrow> desk_core d
     \<and> (\<forall>o'\<in>set (rd_orders d). status_reflects o' (total_refunded (ord_id o') False (rd_refunds d)))"

lemma total_refunded_sum:
  "total_refunded oid b rs = sum_list (map (\<lambda>r. if rf_order_id r = oid
     \<and> (if b then rf_status r \<noteq> RfRejected else rf_status r = RfCompleted) then rf_amount r else 0) rs)"
  unfolding total_refunded_def by (induction rs) auto

lemma total_refunded_snoc [simp]:
  "total_refunded oid b (rs @ [r]) = total_refunded oid b rs + (if rf_order_id r = oid
     \<and> (if b then rf_status r \<noteq> RfRejected else rf_status r = RfCompleted) then rf_amount r else 0)"
  by (simp add: total_refunded_sum)

lemma total_refunded_nonneg: "\<forall>r\<in>set rs. 0 < rf_amount r \<Longrightarrow> 0 \<le> total_refunded oid b rs"
  unfolding total_refunded_sum by (rule sum_list_nonneg) (auto simp: less_imp_le)

lemma completed_le_open: "\<forall>r\<in>set rs. 0 < rf_amount r \<Longrightarrow> total_refunded oid False rs \<le> total_refunded oid True rs"
  unfolding total_refunded_sum by (induction rs) auto

lemma total_refunded_replace:
  assumes "distinct (map rf_id rs)" "lookup_by rf_id (rf_id r') rs = Some r"
    and "rf_order_id r' = rf_order_id r" "rf_amount r' = rf_amount r"
  shows "total_refunded oid False (replace_by rf_id r' rs) = total_refunded oid False rs
      + (if rf_order_id r = oid then (if rf_status r' = RfCompleted then rf_amount r else 0)
          - (if rf_status r = RfCompleted then rf_amount r else 0) else 0)"
    and "total_refunded oid True (replace_by rf_id r' rs) = total_refunded oid True rs
      + (if rf_order_id r = oid then (if rf_status r' \<noteq> RfRejected then rf_amount r else 0)
          - (if rf_status r \<noteq> RfRejected then rf_amount r else 0) else 0)"
  using sum_replace [OF assms(1,2), of "\<lambda>r. if rf_order_id r = oid \<and> rf_status r = RfCompleted then rf_amount r else 0"]
    sum_replace [OF assms(1,2), of "\<lambda>r. if rf_order_id r = oid \<and> rf_status r \<noteq> RfRejected then rf_amount r else 0"]
    assms(3,4) by (auto simp: total_refunded_sum)

section \<open>Every call keeps the books\<close>

text \<open>The columns of an order that the desk reads, and does not write.\<close>

definition order_money :: "order \<Rightarrow> uuid \<times> int \<times> int" where
  "order_money o' = (ord_id o', ord_total o', collectible_total o')"

lemma collectible_total_simps [simp]:
  "collectible_total (o'\<lparr>ord_payment_status := ps\<rparr>) = collectible_total o'"
  "collectible_total (order_touch now o') = collectible_total o'"
  by (simp_all add: collectible_total_def order_touch_def split: option.split)

lemma order_touch_simps [simp]:
  "ord_id (order_touch now o') = ord_id o'" "ord_total (order_touch now o') = ord_total o'"
  "ord_payment_status (order_touch now o') = ord_payment_status o'"
  by (simp_all add: order_touch_def)

lemma core_write:
  assumes d: "desk_core d" and l: "lookup_by rf_id (rf_id r') (rd_refunds d) = Some r"
    and keep: "rf_order_id r' = rf_order_id r" "rf_amount r' = rf_amount r"
    and open': "rf_status r \<notin> {RfCompleted, RfRejected}"
    and paid: "paid = [] \<or> paid = [(rf_id r', rf_order_id r, rf_amount r)] \<and> rf_status r' = RfCompleted"
  shows "desk_core (d\<lparr>rd_refunds := replace_by rf_id r' (rd_refunds d), rd_payouts := rd_payouts d @ paid\<rparr>)"
    (is "desk_core ?d")
proof -
  have dist: "distinct (map rf_id (rd_refunds d))" using d by (simp add: desk_core_def)
  have r: "r \<in> set (rd_refunds d)" "rf_id r' = rf_id r" using lookup_by_in [OF l] by auto
  then have pos: "0 < rf_amount r" using d by (simp add: desk_core_def)
  note tot = total_refunded_replace [OF dist l keep]
  have look: "lookup_by rf_id i (rd_refunds ?d) = (if i = rf_id r then Some r' else lookup_by rf_id i (rd_refunds d))" for i
    using l r(2) by (auto simp: lookup_replace)
  have fresh: "rf_id r \<notin> set (map fst (rd_payouts d))"
  proof
    assume "rf_id r \<in> set (map fst (rd_payouts d))"
    then have "refund_completed (rf_id r) (rd_refunds d)" using d by (simp only: desk_core_def)
    then show False using l r(2) open' by (simp add: refund_completed_def)
  qed
  have "\<forall>x\<in>set (rd_refunds ?d). 0 < rf_amount x"
    using d keep(2) pos in_replace [of _ rf_id r' "rd_refunds d"] by (fastforce simp: desk_core_def)
  moreover have "total_refunded (ord_id o') True (rd_refunds ?d) \<le> collectible_total o'" if "o' \<in> set (rd_orders d)" for o'
  proof -
    have "total_refunded (ord_id o') True (rd_refunds d) \<le> collectible_total o'" using d that by (simp add: desk_core_def)
    then show ?thesis using tot(2) [of "ord_id o'"] pos open' by (simp split: if_splits)
  qed
  moreover have "distinct (map fst (rd_payouts ?d))" using paid
    by (elim disjE) (use d fresh r(2) in \<open>simp_all add: desk_core_def\<close>)
  moreover have "refund_completed i (rd_refunds ?d)" if "i \<in> set (map fst (rd_payouts ?d))" for i
  proof (cases "i = rf_id r")
    case True
    then have "rf_status r' = RfCompleted" using that fresh paid by auto
    then show ?thesis using look True by (simp add: refund_completed_def)
  next
    case False
    then have "i \<in> set (map fst (rd_payouts d))" using that paid r(2) by auto
    then have "refund_completed i (rd_refunds d)" using d by (simp only: desk_core_def)
    then show ?thesis using look [of i] False by (simp only: refund_completed_def if_False)
  qed
  moreover have "paid_out ?d oid \<le> total_refunded oid False (rd_refunds ?d)" for oid
  proof -
    have "paid_out d oid \<le> total_refunded oid False (rd_refunds d)" using d by (simp add: desk_core_def)
    moreover have "paid_out ?d oid = paid_out d oid + (if paid \<noteq> [] \<and> rf_order_id r = oid then rf_amount r else 0)"
      using paid by (auto simp: paid_out_def)
    ultimately show ?thesis using tot(1) [of oid] paid pos open' by (simp split: if_splits) 
  qed
  ultimately show ?thesis using d unfolding desk_core_def by (intro conjI ballI allI) simp_all
qed

lemma core_orders:
  assumes "desk_core d" "map order_money os = map order_money (rd_orders d)"
  shows "desk_core (d\<lparr>rd_orders := os\<rparr>)"
proof -
  have ids: "map ord_id os = map ord_id (rd_orders d)"
  proof -
    have "map fst (map order_money os) = map fst (map order_money (rd_orders d))" using assms(2) by simp
    then show ?thesis by (simp add: order_money_def comp_def)
  qed
  have "\<exists>x\<in>set (rd_orders d). ord_id x = ord_id o' \<and> collectible_total x = collectible_total o'" if "o' \<in> set os" for o'
  proof -
    have "order_money o' \<in> set (map order_money (rd_orders d))" using that unfolding assms(2) [symmetric] by simp
    then show ?thesis by (auto simp: order_money_def)
  qed
  then have "total_refunded (ord_id o') True (rd_refunds d) \<le> collectible_total o'" if "o' \<in> set os" for o'
    using assms(1) that by (fastforce simp: desk_core_def)
  then show ?thesis using assms(1) ids by (simp add: desk_core_def paid_out_def)
qed

definition desk_step :: "refund_desk \<Rightarrow> refund_desk \<Rightarrow> bool" where
  "desk_step d d' \<longleftrightarrow> desk_ok d' \<and> map order_money (rd_orders d') = map order_money (rd_orders d)"

text \<open>A refund that is not completed by the call leaves the orders as they are.\<close>

lemma write_open_step:
  assumes d: "desk_ok d" and l: "lookup_by rf_id (rf_id r') (rd_refunds d) = Some r"
    and keep: "rf_order_id r' = rf_order_id r" "rf_amount r' = rf_amount r"
    and st: "rf_status r \<notin> {RfCompleted, RfRejected}" "rf_status r' \<noteq> RfCompleted"
  shows "desk_step d (save_refund r' d)"
proof -
  have core: "desk_core d" and dist: "distinct (map rf_id (rd_refunds d))" using d by (simp_all add: desk_ok_def desk_core_def)
  have "total_refunded oid False (replace_by rf_id r' (rd_refunds d)) = total_refunded oid False (rd_refunds d)" for oid
    using total_refunded_replace(1) [OF dist l keep] st by simp
  then show ?thesis using core_write [OF core l keep st(1), of "[]"] d
    by (simp add: desk_step_def desk_ok_def save_refund_def)
qed

text \<open>A completed refund is followed by the payment status of its order.\<close>

lemma write_completed_step:
  assumes d: "desk_ok d" and l: "lookup_by rf_id (rf_id r') (rd_refunds d) = Some r"
    and keep: "rf_order_id r' = rf_order_id r" "rf_amount r' = rf_amount r"
    and st: "rf_status r \<notin> {RfCompleted, RfRejected}" "rf_status r' = RfCompleted"
    and paid: "paid \<in> {[], [(rf_id r', rf_order_id r, rf_amount r)]}"
  shows "desk_step d (update_order_payment_status now (rf_order_id r)
      ((save_refund r' d)\<lparr>rd_payouts := rd_payouts d @ paid\<rparr>))"
proof -
  let ?rs = "replace_by rf_id r' (rd_refunds d)" and ?oid = "rf_order_id r"
  let ?d = "d\<lparr>rd_refunds := ?rs, rd_payouts := rd_payouts d @ paid\<rparr>"
  have sv: "(save_refund r' d)\<lparr>rd_payouts := rd_payouts d @ paid\<rparr> = ?d" by (simp add: save_refund_def)
  have core: "desk_core d" and dist: "distinct (map rf_id (rd_refunds d))" and od: "distinct (map ord_id (rd_orders d))"
    using d by (simp_all add: desk_ok_def desk_core_def)
  have core': "desk_core ?d" by (rule core_write [OF core l keep st(1)]) (use paid st(2) in auto)
  have same: "total_refunded oid False ?rs = total_refunded oid False (rd_refunds d)" if "oid \<noteq> ?oid" for oid
    using total_refunded_replace(1) [OF dist l keep, of oid] that by simp
  have refl: "status_reflects x (total_refunded (ord_id x) False ?rs)" if "x \<in> set (rd_orders d)" "ord_id x \<noteq> ?oid" for x
    using d that same [of "ord_id x"] by (simp add: desk_ok_def)
  show ?thesis
  proof (cases "lookup_by ord_id ?oid (rd_orders d)")
    case None
    then have "ord_id x \<noteq> ?oid" if "x \<in> set (rd_orders d)" for x
      using that by (metis image_eqI lookup_by_None)
    then show ?thesis using None core' refl
      by (simp add: sv update_order_payment_status_def desk_step_def desk_ok_def)
  next
    case (Some o')
    let ?n = "total_refunded ?oid False ?rs"
    define o2 where "o2 = order_touch now (if ?n \<ge> ord_total o' then o'\<lparr>ord_payment_status := PayRefunded\<rparr>
        else if ?n > 0 then o'\<lparr>ord_payment_status := PayPartiallyRefunded\<rparr> else o')"
    have up: "update_order_payment_status now ?oid ?d = ?d\<lparr>rd_orders := replace_by ord_id o2 (rd_orders d)\<rparr>"
      using Some by (simp add: update_order_payment_status_def o2_def Let_def)
    have o': "ord_id o' = ?oid" "o' \<in> set (rd_orders d)" using lookup_by_in [OF Some] by auto
    have o2: "order_money o2 = order_money o'" "ord_id o2 = ?oid" "status_reflects o2 ?n"
      using o'(1) by (auto simp: o2_def order_money_def status_reflects_def)
    have money: "map order_money (replace_by ord_id o2 (rd_orders d)) = map order_money (rd_orders d)"
    proof (rule map_column_replace)
      fix x assume "x \<in> set (rd_orders d)" "ord_id x = ord_id o2"
      then have "x = o'" using distinct_key_eq [OF od] o' o2(2) by simp
      then show "order_money x = order_money o2" using o2(1) by simp
    qed
    have "status_reflects x (total_refunded (ord_id x) False ?rs)" if "x \<in> set (replace_by ord_id o2 (rd_orders d))" for x
      using in_replace [OF that] o2 refl by auto
    moreover have "desk_core (?d\<lparr>rd_orders := replace_by ord_id o2 (rd_orders d)\<rparr>)"
      by (rule core_orders [OF core']) (simp add: money)
    ultimately show ?thesis unfolding sv up by (simp add: desk_step_def desk_ok_def money)
  qed
qed

lemma find_refund_Inr:
  "find_refund rid sid d = Inr r \<longleftrightarrow> lookup_by rf_id rid (rd_refunds d) = Some r \<and> rf_store_id r = sid"
  by (auto simp: find_refund_def split: option.splits if_splits)

lemma create_refund_step:
  assumes d: "desk_ok d" and c: "create_refund stores new_id now dto sid user d = Inr d'"
  shows "desk_step d d'"
proof -
  obtain o' ty why amt r where o': "lookup_by ord_id (ri_order_id dto) (rd_orders d) = Some o'"
    and amt: "refund_amount ty (ri_amount dto) (collectible_total o' - total_refunded (ri_order_id dto) True (rd_refunds d)) = Inr amt"
      "0 < collectible_total o' - total_refunded (ri_order_id dto) True (rd_refunds d)"
    and fr: "lookup_by rf_id new_id (rd_refunds d) = None"
    and nr: "r = new_refund new_id now dto sid user o' (next_refund_number sid (rd_refunds d)) ty why amt"
    and d': "d' = d\<lparr>rd_refunds := rd_refunds d @ [r]\<rparr>"
    using c by (auto simp: create_refund_def Let_def rbind_Inr_iff split: option.splits if_splits)
  have r: "rf_order_id r = ri_order_id dto" "rf_status r = RfRequested" "rf_id r = new_id" "rf_amount r = amt"
    by (simp_all add: nr new_refund_def)
  have fresh: "lookup_by rf_id (rf_id r) (rd_refunds d) = None" using fr r(3) by simp
  have pos: "0 < rf_amount r" and le: "rf_amount r \<le> collectible_total o' - total_refunded (ri_order_id dto) True (rd_refunds d)"
    using amt r(4) by (auto simp: refund_amount_def split: refund_type.splits option.splits if_splits)
  have od: "distinct (map ord_id (rd_orders d))" using d by (simp add: desk_ok_def desk_core_def)
  have "x = o'" if "x \<in> set (rd_orders d)" "ord_id x = rf_order_id r" for x
    using distinct_key_eq [OF od] that lookup_by_in [OF o'] r(1) by simp
  then have "total_refunded (ord_id x) True (rd_refunds d') \<le> collectible_total x" if "x \<in> set (rd_orders d)" for x
    using that d le r pos by (auto simp: d' desk_ok_def desk_core_def)
  moreover have "refund_completed i (rd_refunds d')" if "refund_completed i (rd_refunds d)" for i
    using that fresh by (auto simp: refund_completed_def d' lookup_snoc split: option.splits)
  moreover have "rf_id r \<notin> rf_id ` set (rd_refunds d)" using fresh by (simp add: lookup_by_None)
  moreover have "total_refunded oid False (rd_refunds d') = total_refunded oid False (rd_refunds d)" for oid
    using r(2) by (simp add: d')
  ultimately have "desk_ok d'" using d pos unfolding desk_ok_def desk_core_def
    by (intro conjI ballI allI) (auto simp: d' paid_out_def)
  then show ?thesis by (simp add: desk_step_def d')
qed

lemma process_step:
  assumes d: "desk_ok d" and p: "process_refund stores svc now rid sid user d = Inr d'"
  shows "desk_step d d'"
proof -
  obtain r r1 r2 paid where l: "lookup_by rf_id rid (rd_refunds d) = Some r"
    and a: "refund_act now RfStart r = Inr r1" and s: "settle_refund now svc r1 = Inr (r2, paid)"
    and d': "d' = (let d3 = (save_refund r2 (save_refund r1 d))\<lparr>rd_payouts := rd_payouts d @ paid\<rparr>
        in if rf_status r2 = RfCompleted then update_order_payment_status now (rf_order_id r) d3 else d3)"
    using p by (auto simp: process_refund_def rbind_Inr_iff find_refund_Inr save_refund_def Let_def)
  note k1 = refund_act_keeps [OF a] and k2 = settle_facts [OF s]
  have rid: "rf_id r = rid" using lookup_by_in [OF l] by simp
  have st: "rf_status r \<notin> {RfCompleted, RfRejected}"
    using k1 refund_act_status [OF a] by (auto simp: refund_target_def refund_next_def)
  have twice: "save_refund r2 (save_refund r1 d) = save_refund r2 d"
    using k1 k2 by (simp add: save_refund_def replace_by_def comp_def cong: if_cong)
  have l2: "lookup_by rf_id (rf_id r2) (rd_refunds d) = Some r" using l rid k1 k2 by simp
  have keep: "rf_order_id r2 = rf_order_id r" "rf_amount r2 = rf_amount r" using k1 k2 by simp_all
  show ?thesis
  proof (cases "rf_status r2 = RfCompleted")
    case True
    then have "paid \<in> {[], [(rf_id r2, rf_order_id r, rf_amount r)]}" using k1 k2 by auto
    from write_completed_step [OF d l2 keep st True this, of now] show ?thesis
      using True by (simp add: d' twice)
  next
    case False
    then have "paid = []" using k2 by auto
    moreover have "(save_refund r2 d)\<lparr>rd_payouts := rd_payouts d\<rparr> = save_refund r2 d" by (simp add: save_refund_def)
    ultimately show ?thesis using write_open_step [OF d l2 keep st False] False by (simp add: d' twice)
  qed
qed

lemma decision_step:
  assumes d: "desk_ok d" and l: "lookup_by rf_id rid (rd_refunds d) = Some r"
    and a: "refund_act now x r = Inr r'" and x: "refund_target x \<in> {RfApproved, RfRejected}"
  shows "desk_step d (save_refund r' d)"
proof -
  note k = refund_act_keeps [OF a] refund_act_status [OF a]
  have "rf_id r = rid" using lookup_by_in [OF l] by simp
  then have "lookup_by rf_id (rf_id r') (rd_refunds d) = Some r" using l k by simp
  then show ?thesis
    by (rule write_open_step [OF d]) (use k x in \<open>auto simp: refund_next_def split: refund_status.splits\<close>)
qed

lemma desk_act_step:
  assumes "desk_ok d" "desk_act stores c d = Inr d'"
  shows "desk_step d d'"
proof (cases c)
  case CreateRefund
  then show ?thesis using assms create_refund_step by simp
next
  case (ApproveRefund now rid sid user)
  then obtain r r' where "lookup_by rf_id rid (rd_refunds d) = Some r" "refund_act now (RfApprove user) r = Inr r'"
    "d' = save_refund r' d"
    using assms(2) by (auto simp: approve_refund_def rbind_Inr_iff find_refund_Inr)
  then show ?thesis using decision_step [OF assms(1), of rid r now "RfApprove user" r'] by (simp add: refund_target_def)
next
  case (RejectRefund now rid sid user reason)
  then obtain r r' where "lookup_by rf_id rid (rd_refunds d) = Some r" "refund_act now (RfReject user reason) r = Inr r'"
    "d' = save_refund r' d"
    using assms(2) by (auto simp: reject_refund_def rbind_Inr_iff find_refund_Inr)
  then show ?thesis using decision_step [OF assms(1), of rid r now "RfReject user reason" r'] by (simp add: refund_target_def)
next
  case ProcessRefund
  then show ?thesis using assms process_step by simp
qed

lemma desk_runs:
  assumes "desk_ok d" shows "desk_step d (serve_all (desk_act stores) cs d)"
proof -
  let ?I = "\<lambda>e. desk_step d e"
  have "?I d" using assms by (simp add: desk_step_def)
  then show ?thesis
    by (rule serve_all_invariant [where I = ?I, rotated])
      (use desk_act_step in \<open>fastforce simp: desk_step_def\<close>)
qed

text \<open>
  C9: no order gives back more than it collected. Over any sequence of refund requests (creations,
  approvals, rejections, processing with any answers of the provider, retries and refused calls
  included) what the provider paid out on an order, the completed refunds and all refunds that could
  still complete stay in this order below the collectible total; a refund is paid out at most once;
  the totals of the orders are untouched, and the payment status of an order says whether its
  completed refunds reach its total.
\<close>

theorem refunds_within_collectible:
  assumes "desk_ok s" "t = serve_all (desk_act stores) cs s"
  shows "map order_money (rd_orders t) = map order_money (rd_orders s)
    \<and> distinct (map fst (rd_payouts t))
    \<and> (\<forall>o'\<in>set (rd_orders t). let n = total_refunded (ord_id o') False (rd_refunds t) in
         paid_out t (ord_id o') \<le> n \<and> n \<le> total_refunded (ord_id o') True (rd_refunds t)
       \<and> total_refunded (ord_id o') True (rd_refunds t) \<le> collectible_total o'
       \<and> (0 < n \<longrightarrow> ord_payment_status o' = (if ord_total o' \<le> n then PayRefunded else PayPartiallyRefunded)))"
proof -
  have st: "desk_step s t" using desk_runs [OF assms(1)] assms(2) by simp
  then have ok: "desk_core t" "\<forall>o'\<in>set (rd_orders t). status_reflects o' (total_refunded (ord_id o') False (rd_refunds t))"
    by (simp_all add: desk_step_def desk_ok_def)
  have "total_refunded oid False (rd_refunds t) \<le> total_refunded oid True (rd_refunds t)" for oid
    by (rule completed_le_open) (use ok(1) in \<open>simp add: desk_core_def\<close>)
  then show ?thesis using st ok by (simp add: desk_step_def desk_core_def status_reflects_def Let_def)
qed

definition demo_refund_order :: order where
  "demo_refund_order = (demo_order DELIVERED)\<lparr>ord_id := 40, ord_store_id := 2, ord_payment_status := PayPaid, ord_total := 500,
     ord_collected_total := None, ord_payment_id := Some ''pay_1'', ord_payment_method := Some ''paymob''\<rparr>"

definition demo_desk :: refund_desk where
  "demo_desk = \<lparr>rd_orders = [demo_refund_order], rd_refunds = [], rd_payouts = []\<rparr>"

definition demo_owner :: "uuid \<Rightarrow> uuid option" where
  "demo_owner s = (if s = 2 then Some 9 else None)"

definition demo_partial :: "int \<Rightarrow> refund_input" where
  "demo_partial n = \<lparr>ri_order_id = 40, ri_refund_type = ''partial'', ri_reason = ''other'', ri_reason_note = None, ri_amount = Some n\<rparr>"

definition demo_desk_calls :: "desk_call list" where
  "demo_desk_calls = [CreateRefund 71 1 (demo_partial 300) 2 9, CreateRefund 72 2 (demo_partial 300) 2 9,
     ApproveRefund 3 71 2 9, ProcessRefund (Some (\<lambda>p a. PaymentDeclined None)) 4 71 2 9,
     CreateRefund 73 5 (demo_partial 201) 2 9,
     ProcessRefund (Some (\<lambda>p a. PaymentRefunded (Some ''r1''))) 6 71 2 9,
     ProcessRefund (Some (\<lambda>p a. PaymentRefunded (Some ''r2''))) 7 71 2 9,
     CreateRefund 74 8 (demo_partial 200) 2 9, ApproveRefund 9 74 2 9, ProcessRefund None 10 74 2 9]"

lemma demo_desk_ok: "desk_ok demo_desk"
  by (simp add: desk_ok_def desk_core_def demo_desk_def status_reflects_def paid_out_def total_refunded_def
      demo_refund_order_def collectible_total_def)

theorem refunds_within_collectible_witness:
  "map ord_payment_status (rd_orders (serve_all (desk_act demo_owner) demo_desk_calls demo_desk)) = [PayRefunded]
   \<and> map (\<lambda>r. (rf_id r, rf_amount r, rf_status r)) (rd_refunds (serve_all (desk_act demo_owner) demo_desk_calls demo_desk))
      = [(71, 300, RfCompleted), (74, 200, RfCompleted)]
   \<and> paid_out (serve_all (desk_act demo_owner) demo_desk_calls demo_desk) 40 \<le> 500"
proof -
  let ?t = "serve_all (desk_act demo_owner) demo_desk_calls demo_desk"
  have run: "map ord_id (rd_orders ?t) = [40]" "total_refunded 40 False (rd_refunds ?t) = 500"
    "map (\<lambda>r. (rf_id r, rf_amount r, rf_status r)) (rd_refunds ?t) = [(71, 300, RfCompleted), (74, 200, RfCompleted)]"
    "map ord_total (rd_orders ?t) = [500]" by code_simp+
  obtain o' where o': "rd_orders ?t = [o']" "ord_id o' = 40" "ord_total o' = 500"
    using run(1,4) by (cases "rd_orders ?t") auto
  from refunds_within_collectible [OF demo_desk_ok refl, of demo_owner demo_desk_calls] o' run(2,3)
  show ?thesis by (simp add: Let_def)
qed

section \<open>Processing decides every refund\<close>

definition provider_says :: "payment_service option \<Rightarrow> refund \<Rightarrow> provider_answer option" where
  "provider_says svc r = (case svc of None \<Rightarrow> None
     | Some f \<Rightarrow> if truthy_str (rf_payment_id r) then Some (f (the (rf_payment_id r)) (rf_amount r)) else None)"

lemma settle_answer:
  assumes s: "refund_sound r" and st: "rf_status r = RfProcessing"
  shows "\<exists>r' paid. settle_refund now svc r = Inr (r', paid) \<and> (case provider_says svc r of
      None \<Rightarrow> rf_status r' = RfCompleted \<and> paid = []
    | Some (PaymentRefunded p) \<Rightarrow> rf_status r' = RfCompleted \<and> paid = [(rf_id r, rf_order_id r, rf_amount r)]
        \<and> rf_provider_refund_id r' = p
    | Some (PaymentDeclined e) \<Rightarrow> rf_status r' = RfFailed \<and> paid = [] \<and> rf_failure_reason r' = e
    | Some (PaymentRaised e) \<Rightarrow> rf_status r' = RfFailed \<and> paid = [] \<and> rf_failure_reason r' = Some e)"
proof -
  have paid_back: "\<exists>r'. rbind (refund_mark_processed now p r) (refund_complete now) = Inr r' \<and> rf_status r' = RfCompleted
      \<and> rf_provider_refund_id r' = p" for p
  proof -
    obtain r1 where r1: "refund_act now (RfMarkProcessed p) r = Inr r1" "refund_sound r1"
      using refund_act_total(1) [OF s, of "RfMarkProcessed p" now] st by (auto simp: refund_target_def refund_next_def)
    have st1: "rf_status r1 = RfProcessed" using refund_act_status [OF r1(1)] by (simp add: refund_target_def)
    obtain r2 where r2: "refund_act now RfComplete r1 = Inr r2"
      using refund_act_total(1) [OF r1(2), of RfComplete now] st1 by (auto simp: refund_target_def refund_next_def)
    have "rf_provider_refund_id r1 = p" using r1(1) by (auto simp: refund_ops Let_def rbind_Inr_iff split: if_splits)
    then have "rf_provider_refund_id r2 = p" using r2 by (auto simp: refund_ops Let_def rbind_Inr_iff split: if_splits)
    then show ?thesis using r1(1) r2 refund_act_status [OF r2] by (simp add: refund_target_def)
  qed
  have bad: "\<exists>r'. refund_mark_failed now e r = Inr r' \<and> rf_status r' = RfFailed \<and> rf_failure_reason r' = e" for e
  proof -
    obtain r1 where r1: "refund_act now (RfMarkFailed e) r = Inr r1"
      using refund_act_total(1) [OF s, of "RfMarkFailed e" now] st by (auto simp: refund_target_def refund_next_def)
    have "rf_failure_reason r1 = e" using r1 by (auto simp: refund_ops Let_def rbind_Inr_iff split: if_splits)
    then show ?thesis using r1 refund_act_status [OF r1] by (simp add: refund_target_def)
  qed
  show ?thesis
  proof (cases "provider_says svc r")
    case None
    then have no: "(svc \<noteq> None \<and> truthy_str (rf_payment_id r)) = False"
      by (auto simp: provider_says_def split: option.splits if_splits)
    obtain r1 r' where "refund_mark_processed now None r = Inr r1" "refund_complete now r1 = Inr r'" "rf_status r' = RfCompleted"
      using paid_back [of None] by (auto simp: rbind_Inr_iff)
    then show ?thesis using None unfolding settle_refund_def no by simp
  next
    case (Some ans)
    then have c: "svc \<noteq> None \<and> truthy_str (rf_payment_id r)" "the svc (the (rf_payment_id r)) (rf_amount r) = ans"
      by (auto simp: provider_says_def split: option.splits if_splits)
    show ?thesis
    proof (cases ans)
      case (PaymentRefunded p)
      obtain r' where "rbind (refund_mark_processed now p r) (refund_complete now) = Inr r'"
        "rf_status r' = RfCompleted" "rf_provider_refund_id r' = p" using paid_back by blast
      then show ?thesis using Some c PaymentRefunded by (simp add: settle_refund_def)
    next
      case (PaymentDeclined e)
      obtain r' where "refund_mark_failed now e r = Inr r'" "rf_status r' = RfFailed" "rf_failure_reason r' = e"
        using bad by blast
      then show ?thesis using Some c PaymentDeclined by (simp add: settle_refund_def)
    next
      case (PaymentRaised e)
      obtain r' where "refund_mark_failed now (Some e) r = Inr r'" "rf_status r' = RfFailed" "rf_failure_reason r' = Some e"
        using bad by blast
      then show ?thesis using Some c PaymentRaised by (simp add: settle_refund_def)
    qed
  qed
qed

lemma update_payment_keeps [simp]:
  "rd_refunds (update_order_payment_status now oid d) = rd_refunds d"
  "rd_payouts (update_order_payment_status now oid d) = rd_payouts d"
  by (simp_all add: update_order_payment_status_def Let_def split: option.split)

text \<open>
  C31: processing settles a refund in one call. A refund of the store that was approved or has failed
  before is never left in processing, whatever the provider does: when the provider refunds, it is
  completed, carries the provider's reference, and the payout is the only one of the call; without a
  provider it is completed by hand; when the provider declines or raises it has failed, nothing is
  paid and the orders are untouched. In any other status the call is refused.
\<close>

theorem process_settles:
  assumes "stores sid = Some user" "lookup_by rf_id rid (rd_refunds d) = Some r" "rf_store_id r = sid"
    and "refund_sound r"
  shows "if rf_status r \<notin> {RfApproved, RfFailed}
    then process_refund stores svc now rid sid user d = Inl (ValidationError ''Cannot transition refund'')
    else \<exists>d' r'. process_refund stores svc now rid sid user d = Inr d' \<and> lookup_by rf_id rid (rd_refunds d') = Some r'
      \<and> (case provider_says svc r of
          None \<Rightarrow> rf_status r' = RfCompleted \<and> rd_payouts d' = rd_payouts d
        | Some (PaymentRefunded p) \<Rightarrow> rf_status r' = RfCompleted \<and> rf_provider_refund_id r' = p
            \<and> rd_payouts d' = rd_payouts d @ [(rid, rf_order_id r, rf_amount r)]
        | Some _ \<Rightarrow> rf_status r' = RfFailed \<and> rd_payouts d' = rd_payouts d \<and> rd_orders d' = rd_orders d)"
proof (cases "rf_status r \<in> {RfApproved, RfFailed}")
  case False
  then have "refund_act now RfStart r = Inl (ValueError ''Cannot transition refund'')"
    by (intro refund_act_total(2) [OF assms(4)]) (auto simp: refund_target_def refund_next_def split: refund_status.splits)
  then show ?thesis using False assms
    by (simp add: process_refund_def check_store_def find_refund_def as_validation_def)
next
  case True
  then have "refund_target RfStart \<in> set (refund_next (rf_status r))" by (auto simp: refund_target_def refund_next_def)
  from refund_act_total(1) [OF assms(4) this, of now] obtain r1 where r1: "refund_act now RfStart r = Inr r1" "refund_sound r1" by blast
  have st1: "rf_status r1 = RfProcessing" using refund_act_status [OF r1(1)] by (simp add: refund_target_def)
  note k1 = refund_act_keeps [OF r1(1)]
  have says: "provider_says svc r1 = provider_says svc r" using k1 by (cases svc) (simp_all add: provider_says_def)
  obtain r' paid where s: "settle_refund now svc r1 = Inr (r', paid)" and ans: "case provider_says svc r of
      None \<Rightarrow> rf_status r' = RfCompleted \<and> paid = []
    | Some (PaymentRefunded p) \<Rightarrow> rf_status r' = RfCompleted \<and> paid = [(rf_id r1, rf_order_id r1, rf_amount r1)]
        \<and> rf_provider_refund_id r' = p
    | Some (PaymentDeclined e) \<Rightarrow> rf_status r' = RfFailed \<and> paid = [] \<and> rf_failure_reason r' = e
    | Some (PaymentRaised e) \<Rightarrow> rf_status r' = RfFailed \<and> paid = [] \<and> rf_failure_reason r' = Some e"
    using settle_answer [OF r1(2) st1, of now svc] says by auto
  define d2 where "d2 = (save_refund r' (save_refund r1 d))\<lparr>rd_payouts := rd_payouts d @ paid\<rparr>"
  define d' where "d' = (if rf_status r' = RfCompleted then update_order_payment_status now (rf_order_id r) d2 else d2)"
  have run: "process_refund stores svc now rid sid user d = Inr d'"
    using assms r1 s by (simp add: process_refund_def check_store_def find_refund_def d'_def d2_def Let_def save_refund_def
        as_validation_def)
  have ids: "rf_id r = rid" "rf_id r1 = rid" "rf_id r' = rid" using lookup_by_in [OF assms(2)] k1 settle_facts [OF s] by simp_all
  have "rd_refunds d' = replace_by rf_id r' (replace_by rf_id r1 (rd_refunds d))"
    "rd_payouts d' = rd_payouts d @ paid" "rf_status r' \<noteq> RfCompleted \<Longrightarrow> rd_orders d' = rd_orders d"
    by (simp_all add: d'_def d2_def save_refund_def)
  moreover from this(1) have "lookup_by rf_id rid (rd_refunds d') = Some r'"
    using assms(2) ids by (simp add: lookup_replace)
  ultimately show ?thesis using True run ans ids k1
    by (auto split: option.splits provider_answer.splits)
qed

theorem process_settles_witness:
  "\<exists>d' r'. process_refund demo_owner (Some (\<lambda>p a. PaymentRaised ''timeout'')) 5 1 2 9
        (demo_desk\<lparr>rd_refunds := [demo_refund\<lparr>rf_store_id := 2, rf_status := RfApproved, rf_payment_id := Some ''p''\<rparr>]\<rparr>)
      = Inr d' \<and> lookup_by rf_id 1 (rd_refunds d') = Some r' \<and> rf_status r' = RfFailed \<and> rd_payouts d' = []"
proof -
  let ?r = "demo_refund\<lparr>rf_store_id := 2, rf_status := RfApproved, rf_payment_id := Some ''p''\<rparr>"
  let ?d = "demo_desk\<lparr>rd_refunds := [?r]\<rparr>"
  have h: "demo_owner 2 = Some 9" "lookup_by rf_id 1 (rd_refunds ?d) = Some ?r" "rf_store_id ?r = 2" "refund_sound ?r"
    by (simp_all add: demo_owner_def demo_refund_def refund_sound_def)
  have says: "provider_says (Some (\<lambda>p a. PaymentRaised ''timeout'')) ?r = Some (PaymentRaised ''timeout'')" "rd_payouts ?d = []"
    by (simp_all add: provider_says_def demo_desk_def)
  have st: "rf_status ?r \<in> {RfApproved, RfFailed}" by simp
  from process_settles [where stores = demo_owner, OF h, of "Some (\<lambda>p a. PaymentRaised ''timeout'')" 5] says st
  have "\<exists>d' r'. process_refund demo_owner (Some (\<lambda>p a. PaymentRaised ''timeout'')) 5 1 2 9 ?d = Inr d'
    \<and> lookup_by rf_id 1 (rd_refunds d') = Some r' \<and> rf_status r' = RfFailed \<and> rd_payouts d' = [] \<and> rd_orders d' = rd_orders ?d"
    by simp
  then show ?thesis by blast
qed

end
