(* ===== verification/Order_Return.thy ===== *)
theory Order_Return
  imports Status_Machine
begin

text \<open>
  The customer's return request, \<open>src/core/entities/order_return.py\<close>: its transition table,
  the operations with the actor each one records, and the cancellation reserved to the
  customer who asked.
\<close>

datatype return_status =
    RtRequested | RtApproved | RtRejected | RtReceived | RtCompleted | RtCanceled

definition return_status_value :: "return_status \<Rightarrow> string" where
  "return_status_value st = (case st of
      RtRequested \<Rightarrow> ''requested'' | RtApproved \<Rightarrow> ''approved'' | RtRejected \<Rightarrow> ''rejected''
    | RtReceived \<Rightarrow> ''received'' | RtCompleted \<Rightarrow> ''completed'' | RtCanceled \<Rightarrow> ''canceled'')"

datatype return_reason =
    RsDefective | RsWrongItem | RsNotAsDescribed | RsSizeOrFit | RsNoLongerNeeded | RsOther

definition return_next :: "return_status \<Rightarrow> return_status list" where
  "return_next st = (case st of
      RtRequested \<Rightarrow> [RtApproved, RtRejected, RtCanceled]
    | RtApproved \<Rightarrow> [RtReceived, RtRejected]
    | RtReceived \<Rightarrow> [RtCompleted, RtRejected]
    | RtRejected \<Rightarrow> [] | RtCompleted \<Rightarrow> [] | RtCanceled \<Rightarrow> [])"

record return_line =
  rl_id :: uuid
  rl_order_line_index :: int
  rl_product_id :: uuid
  rl_variant_id :: "uuid option"
  rl_product_name :: string
  rl_quantity :: int
  rl_unit_price :: int
  rl_reason :: "return_reason option"
  rl_customer_note :: "string option"

text \<open>The bounds the fields of a line declare.\<close>

definition return_line_ok :: "return_line \<Rightarrow> bool" where
  "return_line_ok l \<longleftrightarrow> 0 \<le> rl_order_line_index l \<and> 0 < rl_quantity l \<and> 0 \<le> rl_unit_price l"

record order_return =
  rt_id :: uuid
  rt_created_at :: instant
  rt_updated_at :: instant
  rt_order_id :: uuid
  rt_store_id :: uuid
  rt_tenant_id :: "uuid option"
  rt_customer_id :: "uuid option"
  rt_return_number :: string
  rt_line_items :: "return_line list"
  rt_status :: return_status
  rt_reason :: return_reason
  rt_customer_note :: "string option"
  rt_merchant_note :: "string option"
  rt_refund_id :: "uuid option"
  rt_requested_at :: instant
  rt_approved_at :: "instant option"
  rt_rejected_at :: "instant option"
  rt_received_at :: "instant option"
  rt_completed_at :: "instant option"
  rt_canceled_at :: "instant option"
  rt_approved_by :: "uuid option"
  rt_rejected_by :: "uuid option"
  rt_received_by :: "uuid option"
  rt_requested_amount :: int
  rt_currency :: string
  rt_metadata :: metadata

definition return_can_be_approved :: "order_return \<Rightarrow> bool" where
  "return_can_be_approved r \<longleftrightarrow> rt_status r = RtRequested"

definition return_can_be_rejected :: "order_return \<Rightarrow> bool" where
  "return_can_be_rejected r \<longleftrightarrow> rt_status r \<in> {RtRequested, RtApproved, RtReceived}"

definition return_can_be_received :: "order_return \<Rightarrow> bool" where
  "return_can_be_received r \<longleftrightarrow> rt_status r = RtApproved"

definition return_can_be_completed :: "order_return \<Rightarrow> bool" where
  "return_can_be_completed r \<longleftrightarrow> rt_status r = RtReceived"

definition return_can_be_canceled :: "order_return \<Rightarrow> bool" where
  "return_can_be_canceled r \<longleftrightarrow> rt_status r = RtRequested"

definition return_is_terminal :: "order_return \<Rightarrow> bool" where
  "return_is_terminal r \<longleftrightarrow> rt_status r \<in> {RtCompleted, RtRejected, RtCanceled}"

definition return_validate_transition :: "return_status \<Rightarrow> order_return \<Rightarrow> unit result" where
  "return_validate_transition st r =
     (if st \<notin> set (return_next (rt_status r)) then Inl (ValueError ''Cannot transition return'')
      else Inr ())"

definition return_record_transition ::
    "instant \<Rightarrow> string \<Rightarrow> string \<Rightarrow> uuid option \<Rightarrow> string option \<Rightarrow> order_return
      \<Rightarrow> order_return result" where
  "return_record_transition now src dst actor note r =
     rbind (push_history ''status_history''
         (JObj [(''from'', JStr src), (''to'', JStr dst), (''timestamp'', JTime now),
                (''actor_id'', json_opt_uuid actor), (''note'', json_opt_str note)])
         (rt_metadata r))
       (\<lambda>m. Inr (r\<lparr>rt_metadata := m\<rparr>))"

definition return_touch :: "instant \<Rightarrow> order_return \<Rightarrow> order_return" where
  "return_touch now r = r\<lparr>rt_updated_at := now\<rparr>"

definition return_approve ::
    "instant \<Rightarrow> uuid \<Rightarrow> string option \<Rightarrow> order_return \<Rightarrow> order_return result" where
  "return_approve now user merchant_note r =
     rbind (return_validate_transition RtApproved r) (\<lambda>_.
     let old = return_status_value (rt_status r);
         r1 = r\<lparr>rt_status := RtApproved, rt_approved_by := Some user, rt_approved_at := Some now\<rparr>;
         r2 = (if truthy_str merchant_note then r1\<lparr>rt_merchant_note := merchant_note\<rparr> else r1)
     in rbind (return_record_transition now old (return_status_value (rt_status r2)) (Some user)
                 merchant_note r2)
          (\<lambda>r3. Inr (return_touch now r3)))"

definition return_reject ::
    "instant \<Rightarrow> uuid \<Rightarrow> string option \<Rightarrow> order_return \<Rightarrow> order_return result" where
  "return_reject now user reason r =
     rbind (return_validate_transition RtRejected r) (\<lambda>_.
     let old = return_status_value (rt_status r);
         r1 = r\<lparr>rt_status := RtRejected, rt_rejected_by := Some user, rt_rejected_at := Some now\<rparr>;
         r2 = (if truthy_str reason then r1\<lparr>rt_merchant_note := reason\<rparr> else r1)
     in rbind (return_record_transition now old (return_status_value (rt_status r2)) (Some user)
                 reason r2)
          (\<lambda>r3. Inr (return_touch now r3)))"

definition return_mark_received ::
    "instant \<Rightarrow> uuid \<Rightarrow> string option \<Rightarrow> order_return \<Rightarrow> order_return result" where
  "return_mark_received now user note r =
     rbind (return_validate_transition RtReceived r) (\<lambda>_.
     let old = return_status_value (rt_status r);
         r1 = r\<lparr>rt_status := RtReceived, rt_received_by := Some user, rt_received_at := Some now\<rparr>
     in rbind (return_record_transition now old (return_status_value (rt_status r1)) (Some user)
                 note r1)
          (\<lambda>r2. Inr (return_touch now r2)))"

definition return_complete ::
    "instant \<Rightarrow> uuid option \<Rightarrow> order_return \<Rightarrow> order_return result" where
  "return_complete now refund_id r =
     rbind (return_validate_transition RtCompleted r) (\<lambda>_.
     let old = return_status_value (rt_status r);
         r1 = r\<lparr>rt_status := RtCompleted, rt_completed_at := Some now\<rparr>;
         r2 = (if refund_id \<noteq> None then r1\<lparr>rt_refund_id := refund_id\<rparr> else r1)
     in rbind (return_record_transition now old (return_status_value (rt_status r2)) None None r2)
          (\<lambda>r3. Inr (return_touch now r3)))"

definition return_cancel :: "instant \<Rightarrow> uuid \<Rightarrow> order_return \<Rightarrow> order_return result" where
  "return_cancel now customer r =
     rbind (return_validate_transition RtCanceled r) (\<lambda>_.
     if rt_customer_id r \<noteq> None \<and> rt_customer_id r \<noteq> Some customer
     then Inl (ValueError ''Only the requesting customer can cancel a return'')
     else (let old = return_status_value (rt_status r);
               r1 = r\<lparr>rt_status := RtCanceled, rt_canceled_at := Some now\<rparr>
           in rbind (return_record_transition now old (return_status_value (rt_status r1))
                       (Some customer) None r1)
                (\<lambda>r2. Inr (return_touch now r2))))"

section \<open>The contract\<close>

datatype return_call =
    RtApprove uuid "string option" | RtReject uuid "string option"
  | RtMarkReceived uuid "string option" | RtComplete "uuid option" | RtCancel uuid

fun return_act :: "instant \<Rightarrow> return_call \<Rightarrow> order_return \<Rightarrow> order_return result" where
  "return_act now (RtApprove u n) r = return_approve now u n r"
| "return_act now (RtReject u n) r = return_reject now u n r"
| "return_act now (RtMarkReceived u n) r = return_mark_received now u n r"
| "return_act now (RtComplete f) r = return_complete now f r"
| "return_act now (RtCancel c) r = return_cancel now c r"

lemmas return_ops = return_approve_def return_reject_def return_mark_received_def
  return_complete_def return_cancel_def return_validate_transition_def
  return_record_transition_def return_touch_def

lemma return_record_trail:
  "push_history ''status_history'' (JObj ((''from'', a) # (''to'', b) # kv)) m = Inr m' \<Longrightarrow>
    trail m' = trail m @ [(Some a, Some b)]"
  by (simp add: push_history_trail entry_edge_def)

lemma return_call_audit:
  assumes "return_act now x r = Inr r'"
  shows "rt_status r' \<in> set (return_next (rt_status r))
    \<and> trail (rt_metadata r') = trail (rt_metadata r)
        @ [(Some (JStr (return_status_value (rt_status r))),
            Some (JStr (return_status_value (rt_status r'))))]"
  using assms
  by (cases x) (auto simp: return_ops Let_def rbind_Inr_iff return_record_trail split: if_splits)

interpretation return_audited: audited_machine return_next rt_status "return_act now"
    return_status_value rt_metadata for now
  by unfold_locales (use return_call_audit in \<open>auto\<close>)

definition edges_labelled :: "return_status list \<Rightarrow> (json option \<times> json option) list" where
  "edges_labelled path = map (\<lambda>(a, b). (Some (JStr (return_status_value a)),
     Some (JStr (return_status_value b)))) (zip path (tl path))"

text \<open>The path a return has taken, told by its status.\<close>

definition return_paths :: "return_status \<Rightarrow> return_status list list" where
  "return_paths st = (case st of
      RtRequested \<Rightarrow> [[RtRequested]]
    | RtApproved \<Rightarrow> [[RtRequested, RtApproved]]
    | RtReceived \<Rightarrow> [[RtRequested, RtApproved, RtReceived]]
    | RtCompleted \<Rightarrow> [[RtRequested, RtApproved, RtReceived, RtCompleted]]
    | RtCanceled \<Rightarrow> [[RtRequested, RtCanceled]]
    | RtRejected \<Rightarrow> [[RtRequested, RtRejected], [RtRequested, RtApproved, RtRejected],
                     [RtRequested, RtApproved, RtReceived, RtRejected]])"

lemma return_paths_step:
  assumes "p \<in> set (return_paths a)" "b \<in> set (return_next a)"
  shows "p @ [b] \<in> set (return_paths b) \<and>
    edges_labelled (p @ [b]) = edges_labelled p @
      [(Some (JStr (return_status_value a)), Some (JStr (return_status_value b)))]"
  using assms by (cases a) (auto simp: return_paths_def return_next_def edges_labelled_def)

definition demo_return :: order_return where
  "demo_return = \<lparr>rt_id = 1, rt_created_at = 0, rt_updated_at = 0, rt_order_id = 2, rt_store_id = 3,
     rt_tenant_id = None, rt_customer_id = Some 7, rt_return_number = ''T1'', rt_line_items = [],
     rt_status = RtRequested, rt_reason = RsOther, rt_customer_note = None, rt_merchant_note = None,
     rt_refund_id = None, rt_requested_at = 0, rt_approved_at = None, rt_rejected_at = None,
     rt_received_at = None, rt_completed_at = None, rt_canceled_at = None, rt_approved_by = None,
     rt_rejected_by = None, rt_received_by = None, rt_requested_amount = 0, rt_currency = ''EGP'',
     rt_metadata = Map.empty\<rparr>"

text \<open>
  The history of a return is exactly the path to its status. Starting from a requested
  return with no history, after any accepted calls the trail lists the steps of the one path to
  the current status (of one of three for a rejected return): a completed return was approved,
  received and completed, in this order. And only the customer who made the request, when it is
  known, can cancel it.
\<close>

theorem return_trail_is_path:
  assumes "rt_status r = RtRequested" "trail (rt_metadata r) = []"
    and "foldM (return_act now) xs r = Inr r'"
  shows "(\<exists>p\<in>set (return_paths (rt_status r')). trail (rt_metadata r') = edges_labelled p)
    \<and> (rt_status r' = RtCompleted \<longrightarrow> trail (rt_metadata r') =
         [(Some (JStr ''requested''), Some (JStr ''approved'')),
          (Some (JStr ''approved''), Some (JStr ''received'')),
          (Some (JStr ''received''), Some (JStr ''completed''))])
    \<and> (\<forall>c r2. return_act now (RtCancel c) r' = Inr r2 \<longrightarrow>
         rt_status r' = RtRequested \<and> rt_customer_id r' \<in> {None, Some c})"
proof -
  let ?I = "\<lambda>s. \<exists>p\<in>set (return_paths (rt_status s)). trail (rt_metadata s) = edges_labelled p"
  have step: "?I s'" if I: "?I s" and act: "return_act now x s = Inr s'" for x s s'
  proof -
    obtain p where p: "p \<in> set (return_paths (rt_status s))" "trail (rt_metadata s) = edges_labelled p"
      using I by blast
    note a = return_call_audit [OF act]
    show ?thesis
      using return_paths_step [OF p(1) conjunct1 [OF a]] a p(2)
      by (intro bexI [of _ "p @ [rt_status s']"]) simp_all
  qed
  have start: "?I r" using assms(1,2) by (simp add: return_paths_def edges_labelled_def)
  have path: "?I r'"
    by (rule foldM_invariant [where I = ?I, OF _ start assms(3)]) (rule step)
  have completed: "trail (rt_metadata r') =
         [(Some (JStr ''requested''), Some (JStr ''approved'')),
          (Some (JStr ''approved''), Some (JStr ''received'')),
          (Some (JStr ''received''), Some (JStr ''completed''))]" if "rt_status r' = RtCompleted"
    using path unfolding that by (simp add: return_paths_def edges_labelled_def return_status_value_def)
  have "rt_status r' = RtRequested \<and> rt_customer_id r' \<in> {None, Some c}"
    if "return_act now (RtCancel c) r' = Inr r2" for c r2
    using that by (cases "rt_status r'")
      (auto simp: return_cancel_def return_validate_transition_def return_next_def split: if_splits)
  with path completed show ?thesis by blast
qed

theorem return_trail_is_path_witness:
  "\<exists>r'. foldM (return_act 5) [RtApprove 9 None, RtMarkReceived 9 None, RtComplete None] demo_return = Inr r'
    \<and> length (trail (rt_metadata r')) = 3"
proof -
  let ?xs = "[RtApprove 9 None, RtMarkReceived 9 None, RtComplete None]"
  have "\<exists>r'. foldM (return_act 5) ?xs demo_return = Inr r' \<and> rt_status r' = RtCompleted"
    by (simp add: return_ops Let_def demo_return_def return_next_def push_history_def)
  then obtain r' where r': "foldM (return_act 5) ?xs demo_return = Inr r'" "rt_status r' = RtCompleted"
    by blast
  from return_trail_is_path [OF _ _ r'(1)] r' show ?thesis
    by (simp add: demo_return_def trail_def)
qed

end
