(* ===== verification/Cheapest.thy ===== *)
theory Cheapest
  imports Numu_Prelude "HOL-Library.Multiset"
begin

text \<open>
  Selections from a sorted list: a prefix of an ascending list is the cheapest selection of its
  size, a prefix of a descending one the most expensive. The offers that discount the cheapest
  units and those that group the most expensive ones both rest on this.
\<close>

text \<open>A prefix of a sorted list is the cheapest selection of its size.\<close>

lemma sorted_prefix_cheapest:
  fixes xs :: "'a :: linordered_idom list"
  assumes "sorted xs" "M \<subseteq># mset xs" "size M = k"
  shows "sum_list (take k xs) \<le> sum_mset M"
  using assms
proof (induction xs arbitrary: M k)
  case (Cons x xs)
  show ?case
  proof (cases k)
    case 0
    then show ?thesis using Cons.prems(3) by simp
  next
    case (Suc j)
    obtain y where y: "y \<in># M" "x \<le> y" "M - {#y#} \<subseteq># mset xs"
    proof (cases "x \<in># M")
      case True
      then have "M - {#x#} \<subseteq># mset xs" using Cons.prems(2)
        by (metis insert_DiffM mset.simps(2) subset_mset.add_le_cancel_left add_mset_add_single
            union_commute)
      with True that show ?thesis by blast
    next
      case False
      obtain y where y: "y \<in># M" using Cons.prems(3) Suc by (metis size_eq_Suc_imp_elem)
      have sub: "M \<subseteq># mset xs"
        using Cons.prems(2) False by (metis insert_subset_eq_iff diff_single_trivial
            mset.simps(2) subset_eq_diff_conv add_mset_add_single)
      then have "y \<in> set xs" using y by (metis mset_subset_eqD set_mset_mset)
      then have "x \<le> y" using Cons.prems(1) by simp
      moreover have "M - {#y#} \<subseteq># mset xs" using sub by (meson diff_subset_eq_self subset_mset.order_trans)
      ultimately show ?thesis using that y by blast
    qed
    have "sum_list (take j xs) \<le> sum_mset (M - {#y#})"
      using Cons.IH [OF _ y(3), of j] Cons.prems(1,3) Suc y(1) by (simp add: size_Diff_singleton)
    moreover have "sum_mset M = y + sum_mset (M - {#y#})" using y(1) by (rule sum_mset.remove)
    ultimately show ?thesis using y(2) Suc by simp
  qed
qed simp

lemma sorted_prefix_dearest:
  fixes xs :: "'a :: linordered_idom list"
  assumes "sorted (map uminus xs)" "M \<subseteq># mset xs" "size M = k"
  shows "sum_mset M \<le> sum_list (take k xs)"
proof -
  have "sum_list (take k (map uminus xs)) \<le> sum_mset (image_mset uminus M)"
    using assms by (intro sorted_prefix_cheapest) (simp_all add: image_mset_subseteq_mono)
  moreover have "sum_list (take k (map uminus xs)) = - sum_list (take k xs)"
    using uminus_sum_list_map [of "\<lambda>x. x" "take k xs"] by (simp add: take_map comp_def)
  moreover have "sum_mset (image_mset uminus M) = - sum_mset M" by (induction M) simp_all
  ultimately show ?thesis by simp
qed

text \<open>In a descending list no later block of the same length is worth more.\<close>

lemma desc_block_le:
  fixes xs :: "'a :: linordered_idom list"
  assumes "sorted (map uminus xs)" "m + q \<le> length xs"
  shows "sum_list (take q (drop m xs)) \<le> sum_list (take q xs)"
proof -
  have mono: "xs ! (m + i) \<le> xs ! i" if "i < q" for i
    using assms that sorted_nth_mono [of "map uminus xs" i "m + i"] by simp
  have "sum_list (take q (drop m xs)) = (\<Sum>i<q. xs ! (m + i))"
    using assms(2) by (simp add: sum_list_sum_nth lessThan_atLeast0)
  also have "\<dots> \<le> (\<Sum>i<q. xs ! i)" by (rule sum_mono) (simp add: mono)
  also have "\<dots> = sum_list (take q xs)"
    using assms(2) by (simp add: sum_list_sum_nth lessThan_atLeast0)
  finally show ?thesis .
qed

lemma desc_blocks_le:
  fixes xs :: "int list"
  assumes "sorted (map uminus xs)" "k * q \<le> length xs"
  shows "sum_list (take (k * q) xs) \<le> int k * sum_list (take q xs)"
  using assms
proof (induction k)
  case (Suc k)
  have "sum_list (take (Suc k * q) xs) = sum_list (take (k * q) xs) + sum_list (take q (drop (k * q) xs))"
    by (metis add.commute mult_Suc sum_list_append take_add)
  moreover have "sum_list (take q (drop (k * q) xs)) \<le> sum_list (take q xs)"
    using Suc.prems by (intro desc_block_le) (simp_all add: add.commute)
  ultimately show ?case using Suc by (simp add: distrib_right)
qed simp

end
