(* ===== verification/Coupon.thy ===== *)
theory Coupon
  imports Cheapest
begin

text \<open>
  The coupon entity, \<open>src/core/entities/coupon.py\<close>: validity, the usage counter and the discount
  of each coupon type. Amounts are \<open>Decimal\<close> values, here exact rationals (the code's context
  keeps 28 digits). The configuration of the tiered and buy-x-get-y types is free JSON, so the
  reading of every key, well typed or not, is part of the model.
\<close>

datatype coupon_type = CtPercentage | CtFixed | CtFreeShipping | CtBuyXGetY | CtTiered

record coupon =
  cp_id :: uuid
  cp_created_at :: instant
  cp_updated_at :: instant
  cp_store_id :: uuid
  cp_tenant_id :: "uuid option"
  cp_code :: string
  cp_coupon_type :: coupon_type
  cp_value :: rat
  cp_min_order_amount :: "rat option"
  cp_max_discount_amount :: "rat option"
  cp_usage_limit :: "int option"
  cp_usage_count :: int
  cp_valid_from :: "instant option"
  cp_valid_until :: "instant option"
  cp_is_active :: bool
  cp_applicable_product_ids :: "uuid list option"
  cp_applicable_category_ids :: "uuid list option"
  cp_is_auto_apply :: bool
  cp_stackable :: bool
  cp_config :: "(string \<times> json) list option"
  cp_campaign_id :: "uuid option"

definition opt_nonneg :: "'a :: linordered_idom option \<Rightarrow> bool" where
  "opt_nonneg v = (case v of None \<Rightarrow> True | Some x \<Rightarrow> 0 \<le> x)"

text \<open>The bounds the fields declare; \<open>normalize_code\<close> runs first.\<close>

definition normalize_coupon_code :: "string \<Rightarrow> string" where
  "normalize_coupon_code v = upper (strip v)"

definition coupon_ok :: "coupon \<Rightarrow> bool" where
  "coupon_ok c \<longleftrightarrow> 1 \<le> length (cp_code c) \<and> length (cp_code c) \<le> 50 \<and> 0 \<le> cp_value c
     \<and> opt_nonneg (cp_min_order_amount c) \<and> opt_nonneg (cp_max_discount_amount c)
     \<and> opt_nonneg (cp_usage_limit c) \<and> 0 \<le> cp_usage_count c"

definition mk_coupon :: "coupon \<Rightarrow> coupon result" where
  "mk_coupon c = (let c' = c\<lparr>cp_code := normalize_coupon_code (cp_code c)\<rparr>
     in if coupon_ok c' then Inr c' else Inl (ValueError ''validation error for Coupon''))"

section \<open>Validity and use\<close>

definition coupon_is_expired :: "instant \<Rightarrow> coupon \<Rightarrow> bool" where
  "coupon_is_expired now c = (case cp_valid_until c of None \<Rightarrow> False | Some t \<Rightarrow> t < now)"

definition coupon_is_started :: "instant \<Rightarrow> coupon \<Rightarrow> bool" where
  "coupon_is_started now c = (case cp_valid_from c of None \<Rightarrow> True | Some t \<Rightarrow> t \<le> now)"

definition coupon_is_within_validity :: "instant \<Rightarrow> coupon \<Rightarrow> bool" where
  "coupon_is_within_validity now c \<longleftrightarrow> coupon_is_started now c \<and> \<not> coupon_is_expired now c"

definition coupon_has_remaining_uses :: "coupon \<Rightarrow> bool" where
  "coupon_has_remaining_uses c = (case cp_usage_limit c of None \<Rightarrow> True
     | Some n \<Rightarrow> cp_usage_count c < n)"

definition coupon_is_usable :: "instant \<Rightarrow> coupon \<Rightarrow> bool" where
  "coupon_is_usable now c \<longleftrightarrow>
     cp_is_active c \<and> coupon_is_within_validity now c \<and> coupon_has_remaining_uses c"

definition coupon_meets_minimum_order :: "rat \<Rightarrow> coupon \<Rightarrow> bool" where
  "coupon_meets_minimum_order amt c = (case cp_min_order_amount c of None \<Rightarrow> True
     | Some m \<Rightarrow> m \<le> amt)"

definition coupon_record_usage :: "instant \<Rightarrow> coupon \<Rightarrow> coupon result" where
  "coupon_record_usage now c =
     (if \<not> coupon_has_remaining_uses c then Inl (ValueError ''has reached its usage limit'')
      else Inr (c\<lparr>cp_usage_count := cp_usage_count c + 1, cp_updated_at := now\<rparr>))"

definition coupon_deactivate :: "instant \<Rightarrow> coupon \<Rightarrow> coupon" where
  "coupon_deactivate now c = c\<lparr>cp_is_active := False, cp_updated_at := now\<rparr>"

definition coupon_activate :: "instant \<Rightarrow> coupon \<Rightarrow> coupon" where
  "coupon_activate now c = c\<lparr>cp_is_active := True, cp_updated_at := now\<rparr>"

section \<open>Reading the configuration\<close>

text \<open>\<open>int(x)\<close> of a value that is an \<open>int\<close> (a boolean included) or a \<open>float\<close>; \<open>None\<close> for others.\<close>

definition num_int :: "json \<Rightarrow> int option" where
  "num_int j = (case j of JInt n \<Rightarrow> Some n | JFloat x \<Rightarrow> Some (trunc_rat x)
     | JBool b \<Rightarrow> Some (if b then 1 else 0) | _ \<Rightarrow> None)"

text \<open>\<open>Decimal(str(x))\<close>.\<close>

definition json_decimal :: "json \<Rightarrow> rat result" where
  "json_decimal j = (case j of
      JInt n \<Rightarrow> Inr (of_int n) | JFloat x \<Rightarrow> Inr x | JDec x \<Rightarrow> Inr x
    | JStr s \<Rightarrow> (case py_decimal_str s of Some x \<Rightarrow> Inr x | None \<Rightarrow> Inl (InvalidOperation ''Decimal''))
    | _ \<Rightarrow> Inl (InvalidOperation ''Decimal''))"

text \<open>\<open>int(config.get(k) or 0)\<close>.\<close>

definition json_int_or_zero :: "json option \<Rightarrow> int result" where
  "json_int_or_zero v = (case v of
      None \<Rightarrow> Inr 0
    | Some j \<Rightarrow> (case j of
        JNull \<Rightarrow> Inr 0
      | JBool b \<Rightarrow> Inr (if b then 1 else 0)
      | JInt n \<Rightarrow> Inr n
      | JFloat x \<Rightarrow> Inr (trunc_rat x)
      | JStr s \<Rightarrow> if s = [] then Inr 0 else (case py_int_str s of
          Some n \<Rightarrow> Inr n | None \<Rightarrow> Inl (ValueError ''invalid literal for int()''))
      | JList xs \<Rightarrow> if xs = [] then Inr 0 else Inl (TypeError ''int() argument'')
      | JObj xs \<Rightarrow> if xs = [] then Inr 0 else Inl (TypeError ''int() argument'')
      | _ \<Rightarrow> Inl (ValueError ''invalid literal for int()'')))"

text \<open>
  \<open>{str(x) for x in filter_list}\<close>, as far as it can meet the string of a product id: an element
  that is not a string prints as nothing of that shape, and neither does a single character of
  a string given in place of a list. \<open>None\<close> is a filter that lets everything through.
\<close>

definition filter_ids :: "json option \<Rightarrow> string list option result" where
  "filter_ids v =
     (if \<not> json_truthy v then Inr None
      else case the v of
        JList xs \<Rightarrow> Inr (Some (concat (map (\<lambda>x. case x of
            JStr s \<Rightarrow> [s] | JUuid u \<Rightarrow> [uuid_str u] | _ \<Rightarrow> []) xs)))
      | JObj kv \<Rightarrow> Inr (Some (map fst kv))
      | JInt _ \<Rightarrow> Inl (TypeError ''not iterable'')
      | JFloat _ \<Rightarrow> Inl (TypeError ''not iterable'')
      | JBool _ \<Rightarrow> Inl (TypeError ''not iterable'')
      | _ \<Rightarrow> Inr (Some []))"

section \<open>Discounts\<close>

text \<open>The loop over the tiers: the highest threshold reached so far and its percentage.\<close>

definition tier_step :: "int \<Rightarrow> json \<Rightarrow> int \<times> rat \<Rightarrow> (int \<times> rat) result" where
  "tier_step order_cents tier best = (case tier of
      JObj d \<Rightarrow>
       (case (map_of d ''min_subtotal_cents'', map_of d ''discount_percentage'') of
          (Some t, Some p) \<Rightarrow>
           (case (num_int t, num_int p) of
              (Some threshold, Some _) \<Rightarrow>
                if threshold \<le> order_cents \<and> fst best < threshold
                then rbind (json_decimal p) (\<lambda>pct. Inr (threshold, pct))
                else Inr best
            | _ \<Rightarrow> Inr best)
        | _ \<Rightarrow> Inr best)
    | _ \<Rightarrow> Inr best)"

definition tiered_discount :: "(string \<times> json) list option \<Rightarrow> rat \<Rightarrow> rat result" where
  "tiered_discount config amt = (case config of
      None \<Rightarrow> Inr 0
    | Some cfg \<Rightarrow>
       (case map_of cfg ''tiers'' of
          Some (JList tiers) \<Rightarrow>
            rbind (foldM (tier_step (trunc_rat (amt * 100))) tiers (-1, 0))
              (\<lambda>best. Inr (amt * snd best / 100))
        | _ \<Rightarrow> Inr 0))"

record bogo_line =
  bl_product_id :: uuid
  bl_unit_price :: rat
  bl_quantity :: int

definition bogo_matches :: "string list option \<Rightarrow> bogo_line \<Rightarrow> bool" where
  "bogo_matches ids l = (case ids of None \<Rightarrow> True | Some xs \<Rightarrow> uuid_str (bl_product_id l) \<in> set xs)"

text \<open>\<open>xs[:n]\<close>.\<close>

definition py_prefix :: "int \<Rightarrow> 'a list \<Rightarrow> 'a list" where
  "py_prefix n xs = (if 0 \<le> n then take (nat n) xs else take (nat (int (length xs) + n)) xs)"

text \<open>One entry per unit of the lines a filter lets through.\<close>

definition bogo_units :: "string list option \<Rightarrow> bogo_line list \<Rightarrow> rat list" where
  "bogo_units ids ls = concat (map (\<lambda>l. replicate (nat (bl_quantity l)) (bl_unit_price l))
     (filter (bogo_matches ids) ls))"

definition bogo_discount :: "(string \<times> json) list option \<Rightarrow> bogo_line list \<Rightarrow> rat result" where
  "bogo_discount config ls =
     (if config = None \<or> config = Some [] \<or> ls = [] then Inr 0
      else (let cfg = the config in
        rbind (json_int_or_zero (map_of cfg ''buy_quantity'')) (\<lambda>buy_q.
        rbind (json_int_or_zero (map_of cfg ''get_quantity'')) (\<lambda>get_q.
        let pct_raw = map_of cfg ''get_discount_percentage'' in
        if buy_q < 1 \<or> get_q < 1 \<or> pct_raw = None \<or> pct_raw = Some JNull then Inr 0
        else
          rbind (json_decimal (the pct_raw)) (\<lambda>pct.
          let buy_filter = map_of cfg ''buy_product_ids'';
              get_filter = (if json_truthy (map_of cfg ''get_product_ids'')
                            then map_of cfg ''get_product_ids'' else buy_filter)
          in rbind (filter_ids get_filter) (\<lambda>get_ids.
             rbind (filter_ids buy_filter) (\<lambda>buy_ids.
             let units = bogo_units get_ids ls;
                 buy_units = sum_list (map bl_quantity (filter (bogo_matches buy_ids) ls));
                 bundle_size = buy_q + get_q
             in if bundle_size = 0 then Inr 0
                else (let bundles = min (buy_units div bundle_size) (int (length units) div bundle_size)
                      in if bundles = 0 then Inr 0
                         else Inr (sum_list (py_prefix (bundles * get_q) (sort units)) * pct / 100)))))))))"

definition coupon_calculate_discount :: "coupon \<Rightarrow> rat \<Rightarrow> bogo_line list option \<Rightarrow> rat result" where
  "coupon_calculate_discount c amt ls =
     (if cp_coupon_type c = CtFreeShipping then Inr 0
      else rbind
        (case cp_coupon_type c of
           CtPercentage \<Rightarrow> Inr (amt * cp_value c / 100)
         | CtFixed \<Rightarrow> Inr (min (cp_value c) amt)
         | CtTiered \<Rightarrow> tiered_discount (cp_config c) amt
         | CtBuyXGetY \<Rightarrow> bogo_discount (cp_config c) (case ls of None \<Rightarrow> [] | Some xs \<Rightarrow> xs)
         | CtFreeShipping \<Rightarrow> Inr 0)
        (\<lambda>discount.
          let discount' = (case cp_max_discount_amount c of None \<Rightarrow> discount
                           | Some m \<Rightarrow> min discount m)
          in Inr (min discount' amt)))"

section \<open>Lemmas\<close>

text \<open>The best tier found so far is one of the tiers reached, and none reached is above it.\<close>

definition tier_pair :: "json \<Rightarrow> (int \<times> json) option" where
  "tier_pair tier = (case tier of
      JObj d \<Rightarrow>
       (case (map_of d ''min_subtotal_cents'', map_of d ''discount_percentage'') of
          (Some t, Some p) \<Rightarrow> (case (num_int t, num_int p) of (Some n, Some _) \<Rightarrow> Some (n, p) | _ \<Rightarrow> None)
        | _ \<Rightarrow> None)
    | _ \<Rightarrow> None)"

lemma tier_step_pair:
  "tier_step n tier best = (case tier_pair tier of
      None \<Rightarrow> Inr best
    | Some (t, p) \<Rightarrow> if t \<le> n \<and> fst best < t then rbind (json_decimal p) (\<lambda>pct. Inr (t, pct))
                    else Inr best)"
  by (auto simp: tier_step_def tier_pair_def split: json.split option.split)

definition tier_reached :: "int \<Rightarrow> json list \<Rightarrow> int \<Rightarrow> rat \<Rightarrow> bool" where
  "tier_reached n tiers t pct \<longleftrightarrow> t \<le> n \<and>
     (\<exists>tier\<in>set tiers. \<exists>p. tier_pair tier = Some (t, p) \<and> json_decimal p = Inr pct)"

lemma tier_fold:
  assumes "foldM (tier_step n) tiers (b, q) = Inr (b', q')"
  shows "b \<le> b' \<and> (b' = b \<longrightarrow> q' = q) \<and> (b' \<noteq> b \<longrightarrow> tier_reached n tiers b' q')
    \<and> (\<forall>tier\<in>set tiers. \<forall>t p. tier_pair tier = Some (t, p) \<longrightarrow> t \<le> n \<longrightarrow> t \<le> b')"
  using assms
proof (induction tiers arbitrary: b q)
  case (Cons tier tiers)
  then obtain b1 q1 where s: "tier_step n tier (b, q) = Inr (b1, q1)"
    "foldM (tier_step n) tiers (b1, q1) = Inr (b', q')" by (auto simp: rbind_Inr_iff)
  note ih = Cons.IH [OF s(2)]
  show ?case
  proof (cases "tier_pair tier")
    case None
    then have "b1 = b" "q1 = q" using s(1) by (simp_all add: tier_step_pair)
    with ih None show ?thesis by (auto simp: tier_reached_def)
  next
    case (Some tp)
    obtain t p where tp: "tp = (t, p)" by (cases tp)
    show ?thesis
    proof (cases "t \<le> n \<and> b < t")
      case True
      then have "b1 = t" "json_decimal p = Inr q1"
        using s(1) Some tp by (auto simp: tier_step_pair rbind_Inr_iff)
      with ih True Some tp show ?thesis by (fastforce simp: tier_reached_def)
    next
      case False
      then have "b1 = b" "q1 = q" using s(1) Some tp by (auto simp: tier_step_pair)
      with ih False Some tp show ?thesis by (auto simp: tier_reached_def)
    qed
  qed
qed simp

lemma length_bogo_units:
  "\<forall>l\<in>set ls. 0 \<le> bl_quantity l \<Longrightarrow>
    int (length (bogo_units ids ls)) = sum_list (map bl_quantity (filter (bogo_matches ids) ls))"
  by (induction ls) (simp_all add: bogo_units_def)

section \<open>Properties\<close>

definition demo_coupon :: "coupon_type \<Rightarrow> rat \<Rightarrow> rat option \<Rightarrow> (string \<times> json) list option \<Rightarrow> coupon" where
  "demo_coupon ty v mx cfg =
     \<lparr>cp_id = 1, cp_created_at = 0, cp_updated_at = 0, cp_store_id = 2, cp_tenant_id = None,
      cp_code = ''SAVE'', cp_coupon_type = ty, cp_value = v, cp_min_order_amount = None,
      cp_max_discount_amount = mx, cp_usage_limit = Some 1, cp_usage_count = 0,
      cp_valid_from = None, cp_valid_until = None, cp_is_active = True,
      cp_applicable_product_ids = None, cp_applicable_category_ids = None,
      cp_is_auto_apply = False, cp_stackable = False, cp_config = cfg, cp_campaign_id = None\<rparr>"

text \<open>
  The discount of a valid coupon never exceeds the order amount nor the coupon's maximum,
  whatever its type; for the percentage, fixed and free-shipping types it is never negative, and
  it is the plain percentage, or the plain value, wherever neither bound is hit.
\<close>

theorem coupon_discount_bounds:
  assumes ok: "coupon_ok c" and amt: "0 \<le> amt"
    and d: "coupon_calculate_discount c amt ls = Inr d"
  shows "d \<le> amt \<and> (\<forall>m. cp_max_discount_amount c = Some m \<longrightarrow> d \<le> m)
    \<and> (cp_coupon_type c \<in> {CtPercentage, CtFixed, CtFreeShipping} \<longrightarrow> 0 \<le> d)
    \<and> (cp_coupon_type c = CtPercentage \<and> cp_value c \<le> 100
        \<and> (\<forall>m. cp_max_discount_amount c = Some m \<longrightarrow> amt * cp_value c / 100 \<le> m)
       \<longrightarrow> d = amt * cp_value c / 100)
    \<and> (cp_coupon_type c = CtFixed \<and> cp_value c \<le> amt
        \<and> (\<forall>m. cp_max_discount_amount c = Some m \<longrightarrow> cp_value c \<le> m) \<longrightarrow> d = cp_value c)"
proof -
  have v: "0 \<le> cp_value c" and m: "\<And>m. cp_max_discount_amount c = Some m \<Longrightarrow> 0 \<le> m"
    using ok by (auto simp: coupon_ok_def opt_nonneg_def)
  have pct: "amt * cp_value c / 100 \<le> amt" if "cp_value c \<le> 100"
    using mult_left_mono [OF that amt] by simp
  show ?thesis
  proof (cases "cp_coupon_type c = CtFreeShipping")
    case True
    with d amt m show ?thesis by (auto simp: coupon_calculate_discount_def)
  next
    case False
    then obtain x where x: "d = min (case cp_max_discount_amount c of None \<Rightarrow> x | Some m \<Rightarrow> min x m) amt"
      "cp_coupon_type c = CtPercentage \<Longrightarrow> x = amt * cp_value c / 100"
      "cp_coupon_type c = CtFixed \<Longrightarrow> x = min (cp_value c) amt"
      using d by (auto simp: coupon_calculate_discount_def rbind_Inr_iff split: coupon_type.splits)
    have x0: "0 \<le> x" if "cp_coupon_type c \<in> {CtPercentage, CtFixed, CtFreeShipping}"
    proof (cases "cp_coupon_type c = CtPercentage")
      case True
      show ?thesis unfolding x(2) [OF True] using v amt by simp
    next
      case fixed: False
      then show ?thesis using that x(3) False v amt by auto
    qed
    have xp: "x \<le> amt" if "cp_coupon_type c = CtPercentage" "cp_value c \<le> 100"
      using that x(2) pct by simp
    show ?thesis
    proof (cases "cp_max_discount_amount c")
      case None
      then show ?thesis using False x(1) x0 xp amt
        by (auto simp: x(2) [symmetric] x(3) min_def)
    next
      case (Some m')
      have xm: "x \<le> m'" if "cp_coupon_type c = CtPercentage" "amt * cp_value c \<le> m' * 100"
        using that x(2) by simp
      from Some show ?thesis using False x(1) x0 xp xm amt m [OF Some]
        by (auto simp: x(2) [symmetric] x(3) min_def)
    qed
  qed
qed

theorem coupon_discount_bounds_witness:
  "coupon_calculate_discount (demo_coupon CtPercentage 20 (Some 15) None) 50 None = Inr 10
   \<and> (10::rat) \<le> 50"
proof -
  have ok: "coupon_ok (demo_coupon CtPercentage 20 (Some 15) None)"
    by (simp add: coupon_ok_def demo_coupon_def opt_nonneg_def)
  have d: "coupon_calculate_discount (demo_coupon CtPercentage 20 (Some 15) None) 50 None = Inr 10"
    by (simp add: coupon_calculate_discount_def demo_coupon_def)
  from coupon_discount_bounds [OF ok _ d] d show ?thesis by simp
qed

text \<open>
  A tiered coupon pays the percentage of the highest threshold the order reaches: the
  threshold paid is one of the configured tiers the order reaches, no reached tier lies above
  it, and when no reached tier has a non-negative threshold the discount is zero. The percentage
  is used as configured, so a negative one gives a negative discount.
\<close>

theorem tiered_pays_highest:
  assumes "map_of cfg ''tiers'' = Some (JList tiers)" "tiered_discount (Some cfg) amt = Inr d"
  shows "\<exists>t pct. d = amt * pct / 100
    \<and> (if \<exists>tier\<in>set tiers. \<exists>t p. tier_pair tier = Some (t, p) \<and> 0 \<le> t \<and> t \<le> trunc_rat (amt * 100)
       then tier_reached (trunc_rat (amt * 100)) tiers t pct else pct = 0)
    \<and> (\<forall>tier\<in>set tiers. \<forall>t' p. tier_pair tier = Some (t', p) \<longrightarrow> 0 \<le> t' \<longrightarrow>
         t' \<le> trunc_rat (amt * 100) \<longrightarrow> t' \<le> t)"
proof -
  let ?n = "trunc_rat (amt * 100)"
  obtain t pct where f: "foldM (tier_step ?n) tiers (-1, 0) = Inr (t, pct)" and d: "d = amt * pct / 100"
    using assms by (auto simp: tiered_discount_def rbind_Inr_iff)
  note r = tier_fold [OF f]
  have "tier_reached ?n tiers t pct"
    if "\<exists>tier\<in>set tiers. \<exists>t p. tier_pair tier = Some (t, p) \<and> 0 \<le> t \<and> t \<le> ?n"
    using that r by fastforce
  moreover have "pct = 0"
    if "\<not> (\<exists>tier\<in>set tiers. \<exists>t p. tier_pair tier = Some (t, p) \<and> 0 \<le> t \<and> t \<le> ?n)"
  proof (rule ccontr)
    assume "pct \<noteq> 0"
    with r have "t \<noteq> -1" by auto
    with r have "tier_reached ?n tiers t pct" "-1 \<le> t" by auto
    moreover from this \<open>t \<noteq> -1\<close> have "0 \<le> t" by linarith
    ultimately show False using that unfolding tier_reached_def by blast
  qed
  ultimately show ?thesis using d r by (intro exI [of _ t] exI [of _ pct]) auto
qed

definition demo_tiers :: "(string \<times> json) list" where
  "demo_tiers = [(''tiers'', JList
     [JObj [(''min_subtotal_cents'', JInt 1000), (''discount_percentage'', JInt 10)],
      JObj [(''min_subtotal_cents'', JInt 5000), (''discount_percentage'', JInt (-20))]])]"

theorem tiered_pays_highest_witness:
  "tiered_discount (Some demo_tiers) 50 = Inr (-10)
   \<and> (\<exists>t pct. (-10::rat) = 50 * pct / 100 \<and> (5000::int) \<le> t)"
proof -
  have d: "tiered_discount (Some demo_tiers) 50 = Inr (-10)"
    by (simp add: tiered_discount_def demo_tiers_def tier_step_def num_int_def json_decimal_def
        trunc_rat_def)
  have tr: "trunc_rat (50 * 100) = 5000" by (simp add: trunc_rat_def)
  have m: "map_of demo_tiers ''tiers'' = Some (JList
     [JObj [(''min_subtotal_cents'', JInt 1000), (''discount_percentage'', JInt 10)],
      JObj [(''min_subtotal_cents'', JInt 5000), (''discount_percentage'', JInt (-20))]])"
    by (simp add: demo_tiers_def)
  from tiered_pays_highest [OF m d] obtain t pct where
    "(-10::rat) = 50 * pct / 100" "(5000::int) \<le> t"
    by (auto simp: tr tier_pair_def num_int_def)
  with d show ?thesis by blast
qed

text \<open>
  Buy X, get Y discounts the cheapest units. With whole quantities and no product filters,
  out of every \<open>X + Y\<close> units in the cart \<open>Y\<close> are discounted by the configured percentage: the
  discounted units are a selection of that size from the cart's units whose sum is no larger
  than that of any other selection of the size.
\<close>

theorem bogo_discounts_cheapest:
  assumes cfg: "map_of cfg ''buy_quantity'' = Some (JInt bq)" "map_of cfg ''get_quantity'' = Some (JInt gq)"
      "map_of cfg ''get_discount_percentage'' = Some (JInt p)"
      "map_of cfg ''buy_product_ids'' = None" "map_of cfg ''get_product_ids'' = None"
    and q: "1 \<le> bq" "1 \<le> gq" and ls: "\<forall>l\<in>set ls. 0 \<le> bl_quantity l" "ls \<noteq> []"
  shows "\<exists>M. bogo_discount (Some cfg) ls = Inr (sum_mset M * of_int p / 100)
    \<and> M \<subseteq># mset (bogo_units None ls)
    \<and> int (size M) = gq * (sum_list (map bl_quantity ls) div (bq + gq))
    \<and> (\<forall>N. N \<subseteq># mset (bogo_units None ls) \<longrightarrow> size N = size M \<longrightarrow> sum_mset M \<le> sum_mset N)"
proof -
  let ?u = "bogo_units None ls" and ?n = "sum_list (map bl_quantity ls)"
  let ?b = "?n div (bq + gq)"
  have all: "filter (bogo_matches None) ls = ls" by (simp add: bogo_matches_def)
  have n: "int (length ?u) = ?n" using length_bogo_units [OF ls(1), of None] by (simp only: all)
  have n0: "0 \<le> ?n" unfolding n [symmetric] by simp
  then have b: "0 \<le> ?b" using q by (simp add: pos_imp_zdiv_nonneg_iff)
  have le: "?b * gq \<le> ?n"
  proof -
    have "?b * gq \<le> ?b * (bq + gq)" using b q by (intro mult_left_mono) auto
    also have "\<dots> = ?n - ?n mod (bq + gq)" by (rule minus_mod_eq_div_mult [symmetric])
    also have "\<dots> \<le> ?n" using q by simp
    finally show ?thesis .
  qed
  let ?M = "mset (take (nat (?b * gq)) (sort ?u))"
  have "cfg \<noteq> []" using cfg(1) by auto
  then have d: "bogo_discount (Some cfg) ls = Inr (sum_mset ?M * of_int p / 100)"
    using cfg q ls(2) n b all
    by (auto simp: bogo_discount_def Let_def json_int_or_zero_def json_decimal_def json_truthy_def
        filter_ids_def py_prefix_def sum_mset_sum_list)
  have sub: "?M \<subseteq># mset ?u"
    by (metis append_take_drop_id mset_append mset_sort mset_subset_eq_add_left)
  have "nat (?b * gq) \<le> length ?u" using le n by linarith
  then have sz: "size ?M = nat (?b * gq)" by simp
  then have size: "int (size ?M) = gq * ?b" using b q by (simp only: sz) (simp add: mult.commute)
  have "sum_mset ?M \<le> sum_mset N" if N: "N \<subseteq># mset ?u" "size N = size ?M" for N
    unfolding sum_mset_sum_list
    by (rule sorted_prefix_cheapest) (use N(1) N(2) [unfolded sz] in simp_all)
  with d sub size show ?thesis by blast
qed

definition demo_bogo :: "(string \<times> json) list" where
  "demo_bogo = [(''buy_quantity'', JInt 2), (''get_quantity'', JInt 1),
     (''get_discount_percentage'', JInt 100)]"

theorem bogo_discounts_cheapest_witness:
  "\<exists>M. bogo_discount (Some demo_bogo) [\<lparr>bl_product_id = 1, bl_unit_price = 30, bl_quantity = 2\<rparr>,
      \<lparr>bl_product_id = 2, bl_unit_price = 10, bl_quantity = 1\<rparr>] = Inr (sum_mset M)
    \<and> size M = 1"
  using bogo_discounts_cheapest [of demo_bogo 2 1 100
    "[\<lparr>bl_product_id = 1, bl_unit_price = 30, bl_quantity = 2\<rparr>,
      \<lparr>bl_product_id = 2, bl_unit_price = 10, bl_quantity = 1\<rparr>]"]
  by (simp add: demo_bogo_def) (metis (no_types, lifting) nat_int nat_1)

end
