(* ===== verification/Coupon_Use_Cases.thy ===== *)
theory Coupon_Use_Cases
  imports Coupon
begin

text \<open>
  The coupon use cases of \<open>src/application/use_cases/coupons/\<close> over the coupon table. The table
  is the list of its rows; a query by code or id is a scan of it. The store repository, whose
  rows are not modelled, is the argument \<open>stores\<close>: the owner and tenant of a store id.
\<close>

type_synonym coupon_table = "coupon list"

record store_ref =
  sr_owner_id :: uuid
  sr_tenant_id :: "uuid option"

section \<open>The repository\<close>

definition coupon_get_by_id :: "uuid \<Rightarrow> coupon_table \<Rightarrow> coupon option" where
  "coupon_get_by_id cid t = List.find (\<lambda>c. cp_id c = cid) t"

definition coupon_get_by_code :: "uuid \<Rightarrow> string \<Rightarrow> coupon_table \<Rightarrow> coupon option" where
  "coupon_get_by_code store code t =
     List.find (\<lambda>c. cp_store_id c = store \<and> cp_code c = upper (strip code)) t"

definition coupon_create_row :: "coupon \<Rightarrow> coupon_table \<Rightarrow> coupon_table" where
  "coupon_create_row c t = t @ [c]"

text \<open>The columns \<open>update\<close> writes back.\<close>

definition coupon_write_back :: "coupon \<Rightarrow> coupon \<Rightarrow> coupon" where
  "coupon_write_back e row = row\<lparr>cp_code := cp_code e, cp_coupon_type := cp_coupon_type e,
     cp_value := cp_value e, cp_min_order_amount := cp_min_order_amount e,
     cp_max_discount_amount := cp_max_discount_amount e, cp_usage_limit := cp_usage_limit e,
     cp_usage_count := cp_usage_count e, cp_valid_from := cp_valid_from e,
     cp_valid_until := cp_valid_until e, cp_is_active := cp_is_active e,
     cp_stackable := cp_stackable e, cp_is_auto_apply := cp_is_auto_apply e,
     cp_applicable_product_ids := cp_applicable_product_ids e,
     cp_applicable_category_ids := cp_applicable_category_ids e, cp_config := cp_config e\<rparr>"

definition coupon_update_row :: "coupon \<Rightarrow> coupon_table \<Rightarrow> coupon_table result" where
  "coupon_update_row e t =
     (if coupon_get_by_id (cp_id e) t = None then Inl (ValueError ''Coupon not found'')
      else Inr (map (\<lambda>r. if cp_id r = cp_id e then coupon_write_back e r else r) t))"

definition coupon_delete_row :: "uuid \<Rightarrow> coupon_table \<Rightarrow> bool \<times> coupon_table" where
  "coupon_delete_row cid t =
     (if coupon_get_by_id cid t = None then (False, t)
      else (True, filter (\<lambda>r. cp_id r \<noteq> cid) t))"

text \<open>One \<open>UPDATE ... SET usage_count = usage_count + 1\<close>.\<close>

definition coupon_increment_usage :: "uuid \<Rightarrow> coupon_table \<Rightarrow> coupon_table" where
  "coupon_increment_usage cid t =
     map (\<lambda>r. if cp_id r = cid then r\<lparr>cp_usage_count := cp_usage_count r + 1\<rparr> else r) t"

section \<open>Validate and apply\<close>

definition validate_coupon ::
    "instant \<Rightarrow> uuid \<Rightarrow> string \<Rightarrow> rat option \<Rightarrow> coupon_table \<Rightarrow> coupon result" where
  "validate_coupon now store code order_amount t =
     (case coupon_get_by_code store code t of
        None \<Rightarrow> Inl (EntityNotFoundError ''Coupon'')
      | Some c \<Rightarrow>
          if \<not> cp_is_active c then Inl (ValidationError ''This coupon is currently inactive'')
          else if coupon_is_expired now c then Inl (ValidationError ''This coupon has expired'')
          else if \<not> coupon_is_started now c then Inl (ValidationError ''This coupon is not yet valid'')
          else if \<not> coupon_has_remaining_uses c
            then Inl (ValidationError ''This coupon has reached its usage limit'')
          else if order_amount \<noteq> None \<and> \<not> coupon_meets_minimum_order (the order_amount) c
            then Inl (ValidationError ''Order total must be at least'')
          else Inr c)"

record coupon_applied =
  ap_coupon_id :: uuid
  ap_code :: string
  ap_coupon_type :: coupon_type
  ap_discount_amount :: rat
  ap_free_shipping :: bool
  ap_campaign_id :: "uuid option"

text \<open>The row lock of \<open>for_update\<close> is in the serial order in which calls reach the table.\<close>

definition apply_coupon ::
    "instant \<Rightarrow> uuid \<Rightarrow> string \<Rightarrow> rat \<Rightarrow> bogo_line list option \<Rightarrow> bool \<Rightarrow> coupon_table
      \<Rightarrow> (coupon_applied \<times> coupon_table) result" where
  "apply_coupon now store code order_amount ls promotion_linked t =
     (case coupon_get_by_code store code t of
        None \<Rightarrow> Inl (EntityNotFoundError ''Coupon'')
      | Some c \<Rightarrow>
          (let usable = (if promotion_linked then cp_is_active c \<and> coupon_has_remaining_uses c
                         else coupon_is_usable now c)
           in if \<not> usable then Inl (ValidationError ''This coupon cannot be applied'')
              else if \<not> promotion_linked \<and> \<not> coupon_meets_minimum_order order_amount c
                then Inl (ValidationError ''Order total must be at least'')
              else rbind (coupon_calculate_discount c order_amount ls) (\<lambda>d.
                Inr (\<lparr>ap_coupon_id = cp_id c, ap_code = cp_code c, ap_coupon_type = cp_coupon_type c,
                       ap_discount_amount = d,
                       ap_free_shipping = (cp_coupon_type c = CtFreeShipping),
                       ap_campaign_id = cp_campaign_id c\<rparr>,
                     coupon_increment_usage (cp_id c) t))))"

section \<open>Create, update, delete\<close>

record coupon_input =
  cc_code :: string
  cc_coupon_type :: string
  cc_value :: rat
  cc_is_active :: bool
  cc_min_order_amount :: "rat option"
  cc_max_discount_amount :: "rat option"
  cc_usage_limit :: "int option"
  cc_valid_from :: "instant option"
  cc_valid_until :: "instant option"
  cc_applicable_product_ids :: "uuid list option"
  cc_applicable_category_ids :: "uuid list option"
  cc_config :: "(string \<times> json) list option"

definition coupon_type_of :: "string \<Rightarrow> coupon_type option" where
  "coupon_type_of s =
     (if s = ''percentage'' then Some CtPercentage else if s = ''fixed'' then Some CtFixed
      else if s = ''free_shipping'' then Some CtFreeShipping
      else if s = ''buy_x_get_y'' then Some CtBuyXGetY
      else if s = ''tiered'' then Some CtTiered else None)"

text \<open>\<open>_validate\<close>: the list of error messages.\<close>

definition coupon_input_errors :: "coupon_input \<Rightarrow> string list" where
  "coupon_input_errors d =
     (if strip (cc_code d) = [] then [''Coupon code is required''] else [])
     @ (if coupon_type_of (cc_coupon_type d) = None then [''Invalid coupon type''] else [])
     @ (if cc_coupon_type d = ''percentage'' then
          (if cc_value d \<le> 0 \<or> 100 < cc_value d
           then [''Percentage value must be between 0 and 100''] else [])
        else if cc_coupon_type d = ''fixed'' then
          (if cc_value d \<le> 0 then [''Fixed discount value must be greater than 0''] else [])
        else [])
     @ (case cc_min_order_amount d of
          Some m \<Rightarrow> if m < 0 then [''Minimum order amount cannot be negative''] else [] | None \<Rightarrow> [])
     @ (case cc_max_discount_amount d of
          Some m \<Rightarrow> if m \<le> 0 then [''Maximum discount amount must be greater than 0''] else []
        | None \<Rightarrow> [])
     @ (case cc_usage_limit d of
          Some n \<Rightarrow> if n < 1 then [''Usage limit must be at least 1''] else [] | None \<Rightarrow> [])
     @ (case (cc_valid_from d, cc_valid_until d) of
          (Some a, Some b) \<Rightarrow> if b \<le> a then [''valid_from must be before valid_until''] else []
        | _ \<Rightarrow> [])"

definition create_coupon ::
    "(uuid \<Rightarrow> store_ref option) \<Rightarrow> uuid \<Rightarrow> instant \<Rightarrow> coupon_input \<Rightarrow> uuid \<Rightarrow> uuid \<Rightarrow> coupon_table
      \<Rightarrow> (coupon \<times> coupon_table) result" where
  "create_coupon stores fresh now d store user t =
     (case stores store of
        None \<Rightarrow> Inl (EntityNotFoundError ''Store'')
      | Some sr \<Rightarrow>
          if sr_owner_id sr \<noteq> user
          then Inl (AuthorizationError ''You don't have permission to create coupons for this store'')
          else if coupon_input_errors d \<noteq> [] then Inl (ValidationError ''Coupon validation failed'')
          else (let code = upper (strip (cc_code d)) in
            if coupon_get_by_code store code t \<noteq> None then Inl (EntityAlreadyExistsError ''Coupon'')
            else rbind (mk_coupon
              \<lparr>cp_id = fresh, cp_created_at = now, cp_updated_at = now, cp_store_id = store,
               cp_tenant_id = sr_tenant_id sr, cp_code = code,
               cp_coupon_type = the (coupon_type_of (cc_coupon_type d)), cp_value = cc_value d,
               cp_min_order_amount = cc_min_order_amount d,
               cp_max_discount_amount = cc_max_discount_amount d,
               cp_usage_limit = cc_usage_limit d, cp_usage_count = 0,
               cp_valid_from = cc_valid_from d, cp_valid_until = cc_valid_until d,
               cp_is_active = cc_is_active d,
               cp_applicable_product_ids = cc_applicable_product_ids d,
               cp_applicable_category_ids = cc_applicable_category_ids d,
               cp_is_auto_apply = False, cp_stackable = False, cp_config = cc_config d,
               cp_campaign_id = None\<rparr>) (\<lambda>c. Inr (c, coupon_create_row c t))))"

record coupon_patch =
  cu_code :: "string option"
  cu_coupon_type :: "string option"
  cu_value :: "rat option"
  cu_min_order_amount :: "rat option"
  cu_max_discount_amount :: "rat option"
  cu_usage_limit :: "int option"
  cu_valid_from :: "instant option"
  cu_valid_until :: "instant option"
  cu_is_active :: "bool option"
  cu_applicable_product_ids :: "uuid list option"
  cu_applicable_category_ids :: "uuid list option"
  cu_config :: "(string \<times> json) list option"

definition opt_else :: "'a option \<Rightarrow> 'a \<Rightarrow> 'a" where
  "opt_else v d = (case v of None \<Rightarrow> d | Some x \<Rightarrow> x)"

definition or_else :: "'a option \<Rightarrow> 'a option \<Rightarrow> 'a option" where
  "or_else v d = (case v of None \<Rightarrow> d | Some x \<Rightarrow> Some x)"

text \<open>A present list replaces the old one; the empty list clears it.\<close>

definition replace_ids :: "uuid list option \<Rightarrow> uuid list option \<Rightarrow> uuid list option" where
  "replace_ids v d = (case v of None \<Rightarrow> d | Some xs \<Rightarrow> if xs = [] then None else Some xs)"

text \<open>
  The assignments of the update in the code's order; each is checked against the field's bounds
  as it is made. The configuration of the patch is not among them.
\<close>

definition patch_code :: "coupon_patch \<Rightarrow> coupon_table \<Rightarrow> coupon \<Rightarrow> coupon result" where
  "patch_code p t c = (case cu_code p of
      None \<Rightarrow> Inr c
    | Some raw \<Rightarrow>
        (let new_code = upper (strip raw) in
         if new_code = cp_code c then Inr c
         else if coupon_get_by_code (cp_store_id c) new_code t \<noteq> None
           then Inl (EntityAlreadyExistsError ''Coupon'')
         else mk_coupon (c\<lparr>cp_code := new_code\<rparr>)))"

definition patch_type :: "coupon_patch \<Rightarrow> coupon \<Rightarrow> coupon result" where
  "patch_type p c = (case cu_coupon_type p of
      None \<Rightarrow> Inr c
    | Some s \<Rightarrow> (case coupon_type_of s of
        None \<Rightarrow> Inl (ValidationError ''Invalid coupon type'')
      | Some ty \<Rightarrow> Inr (c\<lparr>cp_coupon_type := ty\<rparr>)))"

definition patch_fields :: "coupon_patch \<Rightarrow> coupon \<Rightarrow> coupon" where
  "patch_fields p c = c\<lparr>cp_value := opt_else (cu_value p) (cp_value c),
     cp_min_order_amount := or_else (cu_min_order_amount p) (cp_min_order_amount c),
     cp_max_discount_amount := or_else (cu_max_discount_amount p) (cp_max_discount_amount c),
     cp_usage_limit := or_else (cu_usage_limit p) (cp_usage_limit c),
     cp_valid_from := or_else (cu_valid_from p) (cp_valid_from c),
     cp_valid_until := or_else (cu_valid_until p) (cp_valid_until c),
     cp_is_active := opt_else (cu_is_active p) (cp_is_active c),
     cp_applicable_product_ids := replace_ids (cu_applicable_product_ids p) (cp_applicable_product_ids c),
     cp_applicable_category_ids := replace_ids (cu_applicable_category_ids p) (cp_applicable_category_ids c)\<rparr>"

definition update_coupon ::
    "(uuid \<Rightarrow> store_ref option) \<Rightarrow> instant \<Rightarrow> uuid \<Rightarrow> coupon_patch \<Rightarrow> uuid \<Rightarrow> uuid \<Rightarrow> coupon_table
      \<Rightarrow> (coupon \<times> coupon_table) result" where
  "update_coupon stores now cid p user store t =
     (case coupon_get_by_id cid t of
        None \<Rightarrow> Inl (EntityNotFoundError ''Coupon'')
      | Some c \<Rightarrow>
          if cp_store_id c \<noteq> store then Inl (EntityNotFoundError ''Coupon'')
          else if (case stores (cp_store_id c) of None \<Rightarrow> True | Some sr \<Rightarrow> sr_owner_id sr \<noteq> user)
            then Inl (AuthorizationError ''You don't have permission to update this coupon'')
          else rbind (patch_code p t c) (\<lambda>c1. rbind (patch_type p c1) (\<lambda>c2.
            let c3 = patch_fields p c2 in
            if \<not> coupon_ok c3 then Inl (ValueError ''validation error for Coupon'')
            else rbind (coupon_update_row (c3\<lparr>cp_updated_at := now\<rparr>) t) (\<lambda>t'. Inr (c3, t')))))"

definition delete_coupon ::
    "(uuid \<Rightarrow> store_ref option) \<Rightarrow> uuid \<Rightarrow> uuid \<Rightarrow> uuid \<Rightarrow> coupon_table \<Rightarrow> (bool \<times> coupon_table) result"
  where
  "delete_coupon stores cid user store t =
     (case coupon_get_by_id cid t of
        None \<Rightarrow> Inl (EntityNotFoundError ''Coupon'')
      | Some c \<Rightarrow>
          if cp_store_id c \<noteq> store then Inl (EntityNotFoundError ''Coupon'')
          else if (case stores (cp_store_id c) of None \<Rightarrow> True | Some sr \<Rightarrow> sr_owner_id sr \<noteq> user)
            then Inl (AuthorizationError ''You don't have permission to delete this coupon'')
          else Inr (coupon_delete_row cid t))"

section \<open>Codes are looked up by their normal form\<close>

lemma of_char_lt_256: "(of_char c :: nat) < 256"
  by (metis of_char_mod_256 mod_less_divisor zero_less_numeral)

lemma of_char_upper:
  "(of_char (char_upper c) :: nat) =
    (let n = of_char c in if 97 \<le> n \<and> n \<le> 122 then n - 32 else n)"
proof -
  have "(of_char c - 32 :: nat) < 256" using of_char_lt_256 [of c] by linarith
  then show ?thesis by (simp add: char_upper_def Let_def)
qed

lemma char_upper_idem [simp]: "char_upper (char_upper c) = char_upper c"
proof -
  have "\<not> (97 \<le> (of_char (char_upper c) :: nat) \<and> (of_char (char_upper c) :: nat) \<le> 122)"
    by (auto simp: of_char_upper Let_def)
  then show ?thesis unfolding char_upper_def [of "char_upper c"] Let_def by (simp only: if_False)
qed

lemma is_space_upper [simp]: "is_space (char_upper c) = is_space c"
  by (auto simp: is_space_def of_char_upper Let_def)

lemma strip_upper: "strip (upper s) = upper (strip s)"
  by (simp add: strip_def upper_def dropWhile_map rev_map comp_def)

lemma dropWhile_rev_strip: "dropWhile is_space (strip s) = strip s"
proof -
  let ?t = "dropWhile is_space s"
  show ?thesis
  proof (cases ?t)
    case Nil
    show ?thesis unfolding strip_def Nil by simp
  next
    case (Cons c cs)
    then have c: "\<not> is_space c" by (metis dropWhile_eq_Cons_conv)
    have "\<exists>ds. dropWhile is_space (rev cs @ [c]) = ds @ [c]"
      using c by (cases "dropWhile is_space (rev cs) = []")
        (auto simp: dropWhile_append dropWhile_eq_Nil_conv)
    then show ?thesis using Cons c by (auto simp: strip_def)
  qed
qed

lemma strip_idem [simp]: "strip (strip s) = strip s"
proof -
  have "strip (strip s) = rev (dropWhile is_space (rev (strip s)))"
    unfolding strip_def [of "strip s"] dropWhile_rev_strip ..
  also have "\<dots> = strip s" by (simp add: strip_def dropWhile_idem)
  finally show ?thesis .
qed

lemma normal_code_idem [simp]: "upper (strip (upper (strip s))) = upper (strip s)"
  unfolding strip_upper by (simp add: upper_def comp_def)

section \<open>The table\<close>

text \<open>Rows have their own id, a normal code, and no two rows of a store share a code.\<close>

definition coupon_table_ok :: "coupon_table \<Rightarrow> bool" where
  "coupon_table_ok t \<longleftrightarrow> distinct (map cp_id t)
     \<and> distinct (map (\<lambda>c. (cp_store_id c, cp_code c)) t)
     \<and> (\<forall>c\<in>set t. upper (strip (cp_code c)) = cp_code c)"

lemma find_by_id:
  "distinct (map cp_id t) \<Longrightarrow> c \<in> set t \<Longrightarrow> coupon_get_by_id (cp_id c) t = Some c"
  by (induction t) (auto simp: coupon_get_by_id_def)

lemma get_by_id_Some: "coupon_get_by_id i t = Some c \<Longrightarrow> c \<in> set t \<and> cp_id c = i"
  by (auto simp: coupon_get_by_id_def find_Some_iff)

lemma find_by_code:
  "distinct (map (\<lambda>c. (cp_store_id c, cp_code c)) t) \<Longrightarrow> c \<in> set t \<Longrightarrow>
    upper (strip code) = cp_code c \<Longrightarrow> coupon_get_by_code (cp_store_id c) code t = Some c"
  by (induction t) (auto simp: coupon_get_by_code_def)

lemma get_by_code_Some:
  "coupon_get_by_code s code t = Some c \<Longrightarrow> c \<in> set t \<and> cp_store_id c = s \<and> cp_code c = upper (strip code)"
  by (auto simp: coupon_get_by_code_def find_Some_iff)

lemma get_by_code_None:
  "coupon_get_by_code s code t = None \<Longrightarrow>
    (s, upper (strip code)) \<notin> (\<lambda>c. (cp_store_id c, cp_code c)) ` set t"
  by (auto simp: coupon_get_by_code_def find_None_iff)

text \<open>Rewriting rows in place keeps the table well formed when it keeps ids, stores and codes.\<close>

lemma table_ok_map:
  assumes "coupon_table_ok t" "\<And>c. c \<in> set t \<Longrightarrow> cp_id (f c) = cp_id c"
    "\<And>c. c \<in> set t \<Longrightarrow> cp_store_id (f c) = cp_store_id c" "\<And>c. c \<in> set t \<Longrightarrow> cp_code (f c) = cp_code c"
  shows "coupon_table_ok (map f t)"
proof -
  have "map cp_id (map f t) = map cp_id t"
    "map (\<lambda>c. (cp_store_id c, cp_code c)) (map f t) = map (\<lambda>c. (cp_store_id c, cp_code c)) t"
    using assms(2-4) by simp_all
  then show ?thesis using assms unfolding coupon_table_ok_def by (simp only: set_map) auto
qed

lemma increment_ok: "coupon_table_ok t \<Longrightarrow> coupon_table_ok (coupon_increment_usage i t)"
  unfolding coupon_increment_usage_def by (rule table_ok_map) auto

lemma create_ok:
  assumes "coupon_table_ok t" "fresh \<notin> cp_id ` set t"
    and "create_coupon stores fresh now d store user t = Inr (c, t')"
  shows "coupon_table_ok t' \<and> t' = t @ [c] \<and> cp_store_id c = store
    \<and> cp_code c = upper (strip (cc_code d)) \<and> cp_id c = fresh \<and> cp_usage_count c = 0
    \<and> cp_is_active c = cc_is_active d \<and> cp_valid_from c = cc_valid_from d
    \<and> cp_valid_until c = cc_valid_until d \<and> cp_usage_limit c = cc_usage_limit d
    \<and> cp_min_order_amount c = cc_min_order_amount d \<and> coupon_ok c
    \<and> coupon_get_by_code store (cc_code d) t = None
    \<and> (\<exists>sr. stores store = Some sr \<and> sr_owner_id sr = user) \<and> coupon_input_errors d = []"
proof -
  have c: "t' = t @ [c]" "cp_store_id c = store" "cp_code c = upper (strip (cc_code d))"
    "cp_id c = fresh" "coupon_get_by_code store (upper (strip (cc_code d))) t = None"
    using assms(3) by (auto simp: create_coupon_def Let_def rbind_Inr_iff mk_coupon_def
        coupon_create_row_def normalize_coupon_code_def split: option.splits if_splits)
  have rest: "cp_usage_count c = 0" "cp_is_active c = cc_is_active d" "cp_valid_from c = cc_valid_from d"
    "cp_valid_until c = cc_valid_until d" "cp_usage_limit c = cc_usage_limit d"
    "cp_min_order_amount c = cc_min_order_amount d" "coupon_ok c" "coupon_input_errors d = []"
    "\<exists>sr. stores store = Some sr \<and> sr_owner_id sr = user"
    using assms(3) by (auto simp: create_coupon_def Let_def rbind_Inr_iff mk_coupon_def
        coupon_create_row_def split: option.splits if_splits)
  have "coupon_get_by_code store (cc_code d) t = None" using c(5) by (simp add: coupon_get_by_code_def)
  with c rest get_by_code_None [OF c(5)] assms(1,2) show ?thesis
    by (auto simp: coupon_table_ok_def)
qed

text \<open>A row is found by its id and rewritten with a code no other row of its store has.\<close>

lemma distinct_update_key:
  assumes "distinct (map k t)" "distinct (map cp_id t)" "c \<in> set t"
    "k (g c) = k c \<or> k (g c) \<notin> k ` set t"
  shows "distinct (map k (map (\<lambda>r. if cp_id r = cp_id c then g r else r) t))"
  using assms
proof (induction t)
  case (Cons x t)
  show ?case
  proof (cases "x = c")
    case True
    have "cp_id r \<noteq> cp_id c" if "r \<in> set t" for r
      using Cons.prems(2) True imageI [OF that, of cp_id] by auto
    then have "map (\<lambda>r. if cp_id r = cp_id c then g r else r) t = t"
      by (intro map_idI) auto
    then show ?thesis using Cons.prems True by auto
  next
    case False
    then have c: "c \<in> set t" using Cons.prems(3) by simp
    then have x: "cp_id x \<noteq> cp_id c" using Cons.prems(2) by auto
    have ih: "distinct (map k (map (\<lambda>r. if cp_id r = cp_id c then g r else r) t))"
      using Cons c by auto
    have "r = c" if "r \<in> set t" "cp_id r = cp_id c" for r
      using that c Cons.prems(2) by (auto simp: distinct_map inj_on_eq_iff)
    have "k x \<notin> k ` (\<lambda>r. if cp_id r = cp_id c then g r else r) ` set t"
    proof
      assume "k x \<in> k ` (\<lambda>r. if cp_id r = cp_id c then g r else r) ` set t"
      then obtain r where r: "r \<in> set t" "k x = k (if cp_id r = cp_id c then g r else r)" by blast
      have "k x \<noteq> k r" "k x \<noteq> k c" using Cons.prems(1) r(1) c by auto
      then show False using r Cons.prems(4) \<open>\<And>r. r \<in> set t \<Longrightarrow> cp_id r = cp_id c \<Longrightarrow> r = c\<close> [OF r(1)]
        by (cases "cp_id r = cp_id c") auto
    qed
    with ih x show ?thesis by (auto simp: image_comp comp_def)
  qed
qed simp

lemma update_ok:
  assumes ok: "coupon_table_ok t" and up: "update_coupon stores now i p user store t = Inr (c3, t')"
  shows "coupon_table_ok t'"
proof -
  obtain c c1 c2 where c: "coupon_get_by_id i t = Some c"
    and c1: "patch_code p t c = Inr c1" and c2: "patch_type p c1 = Inr c2" and c3: "c3 = patch_fields p c2"
    and t': "coupon_update_row (c3\<lparr>cp_updated_at := now\<rparr>) t = Inr t'"
    using up by (auto simp: update_coupon_def rbind_Inr_iff Let_def split: option.splits if_splits)
  have row: "c \<in> set t" using get_by_id_Some [OF c] by simp
  have id1: "cp_id c1 = cp_id c \<and> cp_store_id c1 = cp_store_id c
      \<and> upper (strip (cp_code c1)) = cp_code c1
      \<and> (cp_code c1 = cp_code c \<or> (cp_store_id c, cp_code c1) \<notin> (\<lambda>c. (cp_store_id c, cp_code c)) ` set t)"
  proof (cases "cu_code p")
    case None
    with c1 row ok show ?thesis by (simp add: patch_code_def coupon_table_ok_def)
  next
    case (Some raw)
    show ?thesis
    proof (cases "upper (strip raw) = cp_code c")
      case True
      with Some c1 row ok show ?thesis by (simp add: patch_code_def coupon_table_ok_def)
    next
      case False
      then have "coupon_get_by_code (cp_store_id c) (upper (strip raw)) t = None"
        "mk_coupon (c\<lparr>cp_code := upper (strip raw)\<rparr>) = Inr c1"
        using Some c1 by (auto simp: patch_code_def Let_def split: if_splits)
      then show ?thesis using get_by_code_None [of "cp_store_id c" "upper (strip raw)" t]
        by (auto simp: mk_coupon_def Let_def normalize_coupon_code_def split: if_splits)
    qed
  qed
  have "cp_id c2 = cp_id c1 \<and> cp_store_id c2 = cp_store_id c1 \<and> cp_code c2 = cp_code c1"
    using c2 by (auto simp: patch_type_def split: option.splits)
  then have id3: "cp_id c3 = cp_id c" "cp_store_id c3 = cp_store_id c" "cp_code c3 = cp_code c1"
    using id1 by (simp_all add: c3 patch_fields_def)
  let ?g = "coupon_write_back (c3\<lparr>cp_updated_at := now\<rparr>)"
  have t2: "t' = map (\<lambda>r. if cp_id r = cp_id c then ?g r else r) t"
    using t' id3 by (auto simp: coupon_update_row_def split: if_splits)
  have g: "cp_id (?g r) = cp_id r" "cp_store_id (?g r) = cp_store_id r" "cp_code (?g r) = cp_code c1" for r
    by (simp_all add: coupon_write_back_def id3)
  have "map cp_id t' = map cp_id t" unfolding t2 by (simp add: g)
  then have "distinct (map cp_id t')" using ok by (simp add: coupon_table_ok_def)
  moreover have "distinct (map (\<lambda>c. (cp_store_id c, cp_code c)) t')"
    unfolding t2 using ok row id1
    by (intro distinct_update_key) (auto simp: coupon_table_ok_def g)
  moreover have "upper (strip (cp_code r)) = cp_code r" if "r \<in> set t'" for r
    using that ok id1 unfolding coupon_table_ok_def t2 by (auto simp: g)
  ultimately show ?thesis unfolding coupon_table_ok_def by blast
qed

lemma delete_ok:
  assumes "coupon_table_ok t" "delete_coupon stores i user store t = Inr (b, t')"
  shows "coupon_table_ok t'"
  using assms by (auto simp: delete_coupon_def coupon_delete_row_def coupon_table_ok_def
      distinct_map intro: inj_on_subset split: option.splits if_splits)

lemma apply_Inr:
  assumes "apply_coupon now store code amt ls linked t = Inr (r, t')"
  shows "\<exists>c. coupon_get_by_code store code t = Some c \<and> coupon_has_remaining_uses c \<and> cp_is_active c
    \<and> t' = coupon_increment_usage (cp_id c) t \<and> ap_coupon_id r = cp_id c
    \<and> coupon_calculate_discount c amt ls = Inr (ap_discount_amount r)"
  using assms by (auto simp: apply_coupon_def Let_def rbind_Inr_iff coupon_is_usable_def
      split: option.splits if_splits)

section \<open>Requests\<close>

text \<open>
  One request against the table: a use case that raises leaves the table as it was. The clock
  and, for a creation, the new id come with the request.
\<close>

inductive coupon_request :: "(uuid \<Rightarrow> store_ref option) \<Rightarrow> coupon_table \<Rightarrow> coupon_table \<Rightarrow> bool"
  for stores where
    created: "fresh \<notin> cp_id ` set t \<Longrightarrow> create_coupon stores fresh now d store user t = Inr (c, t')
      \<Longrightarrow> coupon_request stores t t'"
  | updated: "update_coupon stores now i p user store t = Inr (c, t') \<Longrightarrow> coupon_request stores t t'"
  | deleted: "delete_coupon stores i user store t = Inr (b, t') \<Longrightarrow> coupon_request stores t t'"
  | applied: "apply_coupon now store code amt ls linked t = Inr (r, t') \<Longrightarrow> coupon_request stores t t'"
  | refused: "coupon_request stores t t"

lemma coupon_request_ok: "coupon_request stores t t' \<Longrightarrow> coupon_table_ok t \<Longrightarrow> coupon_table_ok t'"
proof (induction rule: coupon_request.induct)
  case (created fresh t now d store user c t')
  then show ?case using create_ok by blast
next
  case (applied now store code amt ls linked t r t')
  then show ?case using apply_Inr increment_ok by blast
qed (auto intro: update_ok delete_ok)

text \<open>
  Whatever requests reach the coupon table, no two coupons of a store ever share a code,
  and a coupon is found by every spelling of its code: with other letter case and with spaces
  around it.
\<close>

theorem coupon_codes_unique:
  assumes "(coupon_request stores)\<^sup>*\<^sup>* t t'" "coupon_table_ok t"
  shows "(\<forall>a\<in>set t'. \<forall>b\<in>set t'. cp_store_id a = cp_store_id b \<and> cp_code a = cp_code b \<longrightarrow> a = b)
    \<and> (\<forall>c\<in>set t'. \<forall>code. upper (strip code) = cp_code c \<longrightarrow>
         coupon_get_by_code (cp_store_id c) code t' = Some c)"
proof -
  have ok: "coupon_table_ok t'"
    using assms by (induction rule: rtranclp_induct) (auto intro: coupon_request_ok)
  then have d: "distinct (map (\<lambda>c. (cp_store_id c, cp_code c)) t')" by (simp add: coupon_table_ok_def)
  have "a = b" if "a \<in> set t'" "b \<in> set t'" "cp_store_id a = cp_store_id b" "cp_code a = cp_code b" for a b
    using d that by (auto simp: distinct_map dest: inj_onD)
  moreover have "coupon_get_by_code (cp_store_id c) code t' = Some c"
    if "c \<in> set t'" "upper (strip code) = cp_code c" for c code
    by (rule find_by_code [OF d that])
  ultimately show ?thesis by blast
qed

definition demo_stores :: "uuid \<Rightarrow> store_ref option" where
  "demo_stores s = (if s = 2 then Some \<lparr>sr_owner_id = 9, sr_tenant_id = None\<rparr> else None)"

definition demo_input :: coupon_input where
  "demo_input = \<lparr>cc_code = '' save10 '', cc_coupon_type = ''percentage'', cc_value = 10,
     cc_is_active = True, cc_min_order_amount = None, cc_max_discount_amount = None,
     cc_usage_limit = Some 1, cc_valid_from = None, cc_valid_until = None,
     cc_applicable_product_ids = None, cc_applicable_category_ids = None, cc_config = None\<rparr>"

theorem coupon_codes_unique_witness:
  "\<exists>c t'. create_coupon demo_stores 5 0 demo_input 2 9 [] = Inr (c, t')
     \<and> (\<forall>a\<in>set t'. \<forall>b\<in>set t'. cp_store_id a = cp_store_id b \<and> cp_code a = cp_code b \<longrightarrow> a = b)
     \<and> t' \<noteq> []"
proof -
  have "\<exists>c t'. create_coupon demo_stores 5 0 demo_input 2 9 [] = Inr (c, t') \<and> t' \<noteq> []"
    by (simp add: create_coupon_def demo_stores_def demo_input_def coupon_input_errors_def strip_def
        is_space_def coupon_type_of_def coupon_get_by_code_def mk_coupon_def coupon_ok_def
        opt_nonneg_def normalize_coupon_code_def upper_def char_upper_def coupon_create_row_def Let_def)
  then obtain c t' where c: "create_coupon demo_stores 5 0 demo_input 2 9 [] = Inr (c, t')" "t' \<noteq> []"
    by blast
  have "coupon_request demo_stores [] t'" by (rule coupon_request.created [OF _ c(1)]) simp
  then have "(coupon_request demo_stores)\<^sup>*\<^sup>* [] t'" by (rule r_into_rtranclp)
  from coupon_codes_unique [OF this] c show ?thesis by (simp add: coupon_table_ok_def)
qed

section \<open>Usage limits\<close>

text \<open>A stream of apply requests; the ones that raise change nothing.\<close>

record apply_request =
  ar_now :: instant
  ar_store :: uuid
  ar_code :: string
  ar_amount :: rat
  ar_lines :: "bogo_line list option"
  ar_promotion_linked :: bool

fun apply_all :: "apply_request list \<Rightarrow> coupon_table \<Rightarrow> coupon_applied list \<times> coupon_table" where
  "apply_all [] t = ([], t)"
| "apply_all (q # qs) t =
     (case apply_coupon (ar_now q) (ar_store q) (ar_code q) (ar_amount q) (ar_lines q)
             (ar_promotion_linked q) t of
        Inl _ \<Rightarrow> apply_all qs t
      | Inr (r, t') \<Rightarrow> (let (rs, u) = apply_all qs t' in (r # rs, u)))"

definition usage_of :: "uuid \<Rightarrow> coupon_table \<Rightarrow> int" where
  "usage_of i t = (case coupon_get_by_id i t of None \<Rightarrow> 0 | Some c \<Rightarrow> cp_usage_count c)"

lemma increment_get:
  "coupon_get_by_id i (coupon_increment_usage j t) =
    map_option (\<lambda>c. if i = j then c\<lparr>cp_usage_count := cp_usage_count c + 1\<rparr> else c) (coupon_get_by_id i t)"
  by (induction t) (auto simp: coupon_get_by_id_def coupon_increment_usage_def)

text \<open>
  C26: usage limits hold. However many apply requests reach a well-formed table, one at a time,
  the counter of a limited coupon ends at or below its limit if it started there, and it grows
  by exactly the number of applications granted for that coupon, so at most as many are granted
  as were left.
\<close>

theorem apply_respects_limit:
  assumes "coupon_table_ok t" "coupon_get_by_id i t = Some c" "cp_usage_limit c = Some n"
    "cp_usage_count c \<le> n" "apply_all qs t = (rs, t')"
  shows "usage_of i t' \<le> n
    \<and> usage_of i t' = cp_usage_count c + int (length (filter (\<lambda>r. ap_coupon_id r = i) rs))
    \<and> int (length (filter (\<lambda>r. ap_coupon_id r = i) rs)) \<le> n - cp_usage_count c"
proof -
  have "usage_of i t' \<le> n \<and>
    usage_of i t' = cp_usage_count c + int (length (filter (\<lambda>r. ap_coupon_id r = i) rs))"
    using assms
  proof (induction qs arbitrary: t c rs)
    case Nil
    then show ?case by (simp add: usage_of_def)
  next
    case (Cons q qs)
    show ?case
    proof (cases "apply_coupon (ar_now q) (ar_store q) (ar_code q) (ar_amount q) (ar_lines q)
        (ar_promotion_linked q) t")
      case (Inl e)
      then show ?thesis using Cons.IH [OF Cons.prems(1-4)] Cons.prems(5) by simp
    next
      case (Inr p)
      obtain r t1 where p: "p = (r, t1)" by (cases p)
      obtain rs1 where rs1: "apply_all qs t1 = (rs1, t')" "rs = r # rs1"
        using Cons.prems(5) Inr p by (auto split: prod.splits)
      obtain d where d: "d \<in> set t" "coupon_has_remaining_uses d" "t1 = coupon_increment_usage (cp_id d) t"
        "ap_coupon_id r = cp_id d"
        using apply_Inr [OF Inr [unfolded p]] get_by_code_Some by blast
      have t1: "coupon_table_ok t1" unfolding d(3) by (rule increment_ok [OF Cons.prems(1)])
      show ?thesis
      proof (cases "cp_id d = i")
        case True
        have "coupon_get_by_id (cp_id d) t = Some d"
          using d(1) Cons.prems(1) by (intro find_by_id) (simp_all add: coupon_table_ok_def)
        then have dc: "d = c" using True Cons.prems(2) by simp
        let ?c = "c\<lparr>cp_usage_count := cp_usage_count c + 1\<rparr>"
        have "coupon_get_by_id i t1 = Some ?c"
          using Cons.prems(2) True by (simp add: d(3) increment_get)
        moreover have "cp_usage_count ?c \<le> n"
          using d(2) dc Cons.prems(3) by (simp add: coupon_has_remaining_uses_def)
        ultimately show ?thesis using Cons.IH [OF t1 _ _ _ rs1(1), of ?c] Cons.prems(3) rs1(2) d(4) True
          by simp
      next
        case False
        have "coupon_get_by_id i t1 = Some c"
          using Cons.prems(2) False by (simp add: d(3) increment_get)
        then show ?thesis using Cons.IH [OF t1 _ Cons.prems(3,4) rs1(1)] rs1(2) d(4) False by simp
      qed
    qed
  qed
  then show ?thesis by linarith
qed

definition demo_apply :: apply_request where
  "demo_apply = \<lparr>ar_now = 5, ar_store = 2, ar_code = ''SAVE'', ar_amount = 50, ar_lines = None,
     ar_promotion_linked = False\<rparr>"

theorem apply_respects_limit_witness:
  "\<exists>rs t'. apply_all [demo_apply, demo_apply] [demo_coupon CtPercentage 20 None None] = (rs, t')
     \<and> length (filter (\<lambda>r. ap_coupon_id r = 1) rs) \<le> 1 \<and> usage_of 1 t' \<le> 1"
proof -
  let ?t = "[demo_coupon CtPercentage 20 None None]"
  obtain rs t' where run: "apply_all [demo_apply, demo_apply] ?t = (rs, t')" by fastforce
  have ok: "coupon_table_ok ?t"
    by (simp add: coupon_table_ok_def demo_coupon_def strip_def is_space_def upper_def char_upper_def)
  have get: "coupon_get_by_id 1 ?t = Some (demo_coupon CtPercentage 20 None None)"
    by (simp add: coupon_get_by_id_def demo_coupon_def)
  have lim: "cp_usage_limit (demo_coupon CtPercentage 20 None None) = Some 1"
    "cp_usage_count (demo_coupon CtPercentage 20 None None) = 0" by (simp_all add: demo_coupon_def)
  from apply_respects_limit [OF ok get lim(1) _ run] lim(2) run show ?thesis by simp
qed

text \<open>
  The storefront's validation is a promise: when validating a code against an order amount
  succeeds, applying the same code to that amount is refused only if computing the discount of
  its configuration raises, and otherwise grants exactly that discount on that coupon.
\<close>

theorem validated_coupon_applies:
  assumes "validate_coupon now store code (Some amt) t = Inr c"
  shows "apply_coupon now store code amt ls linked t =
    (case coupon_calculate_discount c amt ls of
       Inl e \<Rightarrow> Inl e
     | Inr d \<Rightarrow> Inr (\<lparr>ap_coupon_id = cp_id c, ap_code = cp_code c, ap_coupon_type = cp_coupon_type c,
         ap_discount_amount = d, ap_free_shipping = (cp_coupon_type c = CtFreeShipping),
         ap_campaign_id = cp_campaign_id c\<rparr>, coupon_increment_usage (cp_id c) t))"
  using assms by (auto simp: validate_coupon_def apply_coupon_def coupon_is_usable_def
      coupon_is_within_validity_def Let_def rbind_def split: option.splits if_splits sum.splits)

lemma save_code: "upper (strip ''save'') = ''SAVE''"
  by code_simp

theorem validated_coupon_applies_witness:
  "\<exists>r t'. apply_coupon 5 2 ''save'' 50 None False [demo_coupon CtPercentage 20 None None] = Inr (r, t')
     \<and> ap_discount_amount r = 10"
proof -
  let ?c = "demo_coupon CtPercentage 20 None None"
  have v: "validate_coupon 5 2 ''save'' (Some 50) [?c] = Inr ?c"
    by (simp add: validate_coupon_def coupon_get_by_code_def save_code)
      (simp add: demo_coupon_def coupon_is_expired_def coupon_is_started_def coupon_has_remaining_uses_def coupon_meets_minimum_order_def Let_def)
  have d: "coupon_calculate_discount ?c 50 None = Inr 10"
    by (simp add: coupon_calculate_discount_def demo_coupon_def)
  show ?thesis using validated_coupon_applies [OF v, of None False] by (simp add: d)
qed

end
