(* ===== verification/Discount_Rule.thy ===== *)
theory Discount_Rule
  imports Cheapest "HOL-Library.AList"
begin

text \<open>
  The mathematics of one discount, \<open>src/core/value_objects/discount_rule.py\<close>: the rule with its
  validation and the seven kinds of discount over a cart's lines. A field the code bounds below
  by zero is a natural number; upper bounds and positivity are checks of the constructor. The
  explanation of a result, a sentence with numbers in it, is kept as a constructor with these
  numbers.
\<close>

section \<open>Rules, contexts, results\<close>

definition max_bundle_legs :: nat where
  "max_bundle_legs = 5"

datatype rule_kind =
    KPercentage | KFixed | KFreeShipping | KBogo | KTiered | KMultibuy | KBundle

record discount_tier =
  dt_threshold_cents :: nat
  dt_percent :: nat

record multibuy_tier =
  mt_quantity :: nat
  mt_price_cents :: nat

record bundle_leg =
  bg_quantity :: nat
  bg_label :: "string option"

record cart_line =
  cl_product_id :: uuid
  cl_quantity :: int
  cl_unit_price_cents :: int
  cl_category_id :: "uuid option"

type_synonym line_filter = "cart_line \<Rightarrow> bool"

record discount_context =
  dc_subtotal_cents :: int
  dc_line_items :: "cart_line list"
  dc_shipping_cents :: int
  dc_customer_id :: "uuid option"

datatype explanation =
    BelowMinimum "nat option"
  | FreeShippingOffer
  | PercentOff nat "int option" "nat option"
  | CentsOff nat "int option"
  | BogoNotMet
  | BogoDeal nat nat nat int bool
  | MultibuyNeeds nat nat bool
  | MultibuyNoSaving "(nat \<times> nat) list" bool
  | MultibuyDeal "(nat \<times> nat) list" nat bool
  | BundleUnmet "nat list" nat
  | BundleDeal "nat list" nat nat
  | NoTierMet
  | TierOff nat nat

record discount_result =
  dr_discount_cents :: int
  dr_free_shipping :: bool
  dr_affected :: "uuid list"
  dr_explanation :: explanation

record discount_rule =
  ru_kind :: rule_kind
  ru_value_cents :: "nat option"
  ru_value_percent :: "nat option"
  ru_min_subtotal_cents :: "nat option"
  ru_max_discount_cents :: "nat option"
  ru_buy_quantity :: "nat option"
  ru_get_quantity :: "nat option"
  ru_get_discount_percent :: "nat option"
  ru_tiers :: "discount_tier list"
  ru_multibuy_quantity :: "nat option"
  ru_multibuy_price_cents :: "nat option"
  ru_multibuy_tiers :: "multibuy_tier list"
  ru_bundle_legs :: "bundle_leg list"
  ru_bundle_price_cents :: "nat option"

text \<open>The bounds the fields declare.\<close>

definition opt_all :: "('a \<Rightarrow> bool) \<Rightarrow> 'a option \<Rightarrow> bool" where
  "opt_all P v = (case v of None \<Rightarrow> True | Some x \<Rightarrow> P x)"

definition rule_fields_ok :: "discount_rule \<Rightarrow> bool" where
  "rule_fields_ok r \<longleftrightarrow> opt_all (\<lambda>n. n \<le> 100) (ru_value_percent r)
     \<and> opt_all (\<lambda>n. 1 \<le> n) (ru_buy_quantity r) \<and> opt_all (\<lambda>n. 1 \<le> n) (ru_get_quantity r)
     \<and> opt_all (\<lambda>n. n \<le> 100) (ru_get_discount_percent r)
     \<and> list_all (\<lambda>t. dt_percent t \<le> 100) (ru_tiers r)
     \<and> opt_all (\<lambda>n. 2 \<le> n) (ru_multibuy_quantity r) \<and> opt_all (\<lambda>n. 0 < n) (ru_multibuy_price_cents r)
     \<and> list_all (\<lambda>t. 2 \<le> mt_quantity t \<and> 0 < mt_price_cents t) (ru_multibuy_tiers r)
     \<and> list_all (\<lambda>g. 1 \<le> bg_quantity g \<and> opt_all (\<lambda>l. length l \<le> 80) (bg_label g)) (ru_bundle_legs r)
     \<and> opt_all (\<lambda>n. 0 < n) (ru_bundle_price_cents r)"

text \<open>
  The price breaks of a multibuy, largest group first: the scalar pair, overridden by the tiers
  of the list, a later tier overriding an earlier one of the same quantity.
\<close>

definition resolved_multibuy_tiers :: "discount_rule \<Rightarrow> multibuy_tier list" where
  "resolved_multibuy_tiers r =
     (let scalar = (case (ru_multibuy_quantity r, ru_multibuy_price_cents r) of
            (Some q, Some p) \<Rightarrow> [(q, p)] | _ \<Rightarrow> []);
          by_quantity = foldl (\<lambda>m t. AList.update (mt_quantity t) (mt_price_cents t) m) scalar
            (ru_multibuy_tiers r)
      in map (\<lambda>(q, p). \<lparr>mt_quantity = q, mt_price_cents = p\<rparr>) (rev (sort_key fst by_quantity)))"

definition validate_kind_fields :: "discount_rule \<Rightarrow> discount_rule result" where
  "validate_kind_fields r = (case ru_kind r of
      KPercentage \<Rightarrow> if ru_value_percent r = None
        then Inl (ValueError ''percentage discount requires value_percent'') else Inr r
    | KFixed \<Rightarrow> if ru_value_cents r = None
        then Inl (ValueError ''fixed discount requires value_cents'') else Inr r
    | KBogo \<Rightarrow> if ru_buy_quantity r = None \<or> ru_get_quantity r = None
        then Inl (ValueError ''bogo discount requires buy_quantity and get_quantity'')
        else Inr (if ru_get_discount_percent r = None
                  then r\<lparr>ru_get_discount_percent := Some 100\<rparr> else r)
    | KTiered \<Rightarrow> if ru_tiers r = []
        then Inl (ValueError ''tiered discount requires at least one tier'') else Inr r
    | KMultibuy \<Rightarrow>
        if \<not> (ru_multibuy_quantity r \<noteq> None \<and> ru_multibuy_price_cents r \<noteq> None)
           \<and> ru_multibuy_tiers r = []
        then Inl (ValueError ''multibuy discount requires a price'')
        else if (ru_multibuy_quantity r = None) \<noteq> (ru_multibuy_price_cents r = None)
        then Inl (ValueError ''multibuy_quantity and multibuy_price_cents must be set together'')
        else if \<not> distinct (map mt_quantity (ru_multibuy_tiers r))
        then Inl (ValueError ''multibuy tiers must have distinct quantities'') else Inr r
    | KBundle \<Rightarrow>
        if ru_bundle_legs r = [] \<or> ru_bundle_price_cents r = None
        then Inl (ValueError ''bundle discount requires bundle_legs and bundle_price_cents'')
        else if length (ru_bundle_legs r) < 2
        then Inl (ValueError ''bundle discount needs at least 2 legs'')
        else if max_bundle_legs < length (ru_bundle_legs r)
        then Inl (ValueError ''bundle discount supports at most 5 legs'') else Inr r
    | KFreeShipping \<Rightarrow> Inr r)"

definition mk_discount_rule :: "discount_rule \<Rightarrow> discount_rule result" where
  "mk_discount_rule r =
     (if \<not> rule_fields_ok r then Inl (ValueError ''validation error for DiscountRule'')
      else validate_kind_fields r)"

section \<open>The simple kinds\<close>

definition below_minimum :: "discount_rule \<Rightarrow> discount_context \<Rightarrow> bool" where
  "below_minimum r ctx = (case ru_min_subtotal_cents r of None \<Rightarrow> False
     | Some m \<Rightarrow> dc_subtotal_cents ctx < int m)"

definition rule_cap :: "discount_rule \<Rightarrow> int \<Rightarrow> discount_context \<Rightarrow> int" where
  "rule_cap r raw ctx =
     (let capped = max 0 raw;
          capped' = (case ru_max_discount_cents r of None \<Rightarrow> capped | Some m \<Rightarrow> min capped (int m))
      in min capped' (dc_subtotal_cents ctx))"

definition matching_lines :: "line_filter option \<Rightarrow> cart_line list \<Rightarrow> cart_line list" where
  "matching_lines f ls = (case f of None \<Rightarrow> ls | Some p \<Rightarrow> filter p ls)"

definition scoped_base_cents :: "discount_context \<Rightarrow> line_filter option \<Rightarrow> int \<times> bool" where
  "scoped_base_cents ctx f =
     (if Option.is_none f \<or> dc_line_items ctx = [] then (dc_subtotal_cents ctx, False)
      else (sum_list (map (\<lambda>l. cl_unit_price_cents l * cl_quantity l)
              (filter (the f) (dc_line_items ctx))), True))"

definition plain_result :: "int \<Rightarrow> explanation \<Rightarrow> discount_result" where
  "plain_result d e = \<lparr>dr_discount_cents = d, dr_free_shipping = False, dr_affected = [],
     dr_explanation = e\<rparr>"

definition rule_percentage ::
    "discount_rule \<Rightarrow> discount_context \<Rightarrow> line_filter option \<Rightarrow> discount_result" where
  "rule_percentage r ctx f =
     (let pct = the (ru_value_percent r);
          (base, scoped) = scoped_base_cents ctx f;
          raw = (base * int pct) div 100;
          capped = rule_cap r raw ctx
      in plain_result capped (PercentOff pct (if scoped then Some base else None)
           (case ru_max_discount_cents r of None \<Rightarrow> None
            | Some m \<Rightarrow> if capped = int m then Some m else None)))"

definition rule_fixed ::
    "discount_rule \<Rightarrow> discount_context \<Rightarrow> line_filter option \<Rightarrow> discount_result" where
  "rule_fixed r ctx f =
     (let v = the (ru_value_cents r);
          (base, scoped) = scoped_base_cents ctx f;
          raw = (if scoped then min (int v) base else int v)
      in plain_result (rule_cap r raw ctx) (CentsOff v (if scoped then Some base else None)))"

section \<open>Buy X, get Y\<close>

text \<open>The loop that hands out the discounted units, cheapest line first.\<close>

fun bogo_loop :: "nat \<Rightarrow> cart_line list \<Rightarrow> int \<Rightarrow> int \<times> uuid list \<Rightarrow> int \<times> uuid list" where
  "bogo_loop pct [] remaining acc = acc"
| "bogo_loop pct (l # ls) remaining acc =
     (if remaining \<le> 0 then acc
      else (let taken = min (cl_quantity l) remaining;
                unit_off = (cl_unit_price_cents l * int pct) div 100
            in bogo_loop pct ls (remaining - taken)
                 (fst acc + unit_off * taken, snd acc @ [cl_product_id l])))"

definition rule_bogo ::
    "discount_rule \<Rightarrow> discount_context \<Rightarrow> line_filter option \<Rightarrow> line_filter option \<Rightarrow> discount_result"
  where
  "rule_bogo r ctx buy_filter get_filter =
     (let buy_q = the (ru_buy_quantity r); get_q = the (ru_get_quantity r);
          pct = the (ru_get_discount_percent r);
          sorted_lines = sort_key cl_unit_price_cents (dc_line_items ctx);
          buy_lines = matching_lines buy_filter sorted_lines;
          get_lines = matching_lines get_filter sorted_lines;
          buy_units = sum_list (map cl_quantity buy_lines);
          get_units = sum_list (map cl_quantity get_lines);
          bundles = (if Option.is_none buy_filter \<and> Option.is_none get_filter
            then sum_list (map cl_quantity sorted_lines) div (int buy_q + int get_q)
            else min (buy_units div int buy_q) (get_units div int get_q))
      in if bundles = 0 then plain_result 0 BogoNotMet
         else (let (discount_total, affected) = bogo_loop pct get_lines (bundles * int get_q) (0, [])
               in \<lparr>dr_discount_cents = rule_cap r discount_total ctx, dr_free_shipping = False,
                   dr_affected = affected,
                   dr_explanation = BogoDeal buy_q get_q pct bundles
                     (\<not> Option.is_none buy_filter \<or> \<not> Option.is_none get_filter)\<rparr>))"

section \<open>Units\<close>

record cart_unit =
  un_price_cents :: int
  un_product_id :: uuid
  un_line :: cart_line

definition units_of_line :: "cart_line \<Rightarrow> cart_unit list" where
  "units_of_line l = replicate (nat (cl_quantity l))
     \<lparr>un_price_cents = cl_unit_price_cents l, un_product_id = cl_product_id l, un_line = l\<rparr>"

definition expand_units :: "cart_line list \<Rightarrow> line_filter option \<Rightarrow> cart_unit list" where
  "expand_units ls f =
     sort_key (\<lambda>u. - un_price_cents u) (concat (map units_of_line (matching_lines f ls)))"

text \<open>\<open>seen\<close> and \<open>affected\<close>: product ids in order of first appearance.\<close>

fun add_affected :: "uuid list \<Rightarrow> uuid list \<Rightarrow> uuid list" where
  "add_affected aff [] = aff"
| "add_affected aff (p # ps) = add_affected (if p \<in> set aff then aff else aff @ [p]) ps"

definition units_sum :: "cart_unit list \<Rightarrow> int" where
  "units_sum us = sum_list (map un_price_cents us)"

section \<open>Multibuy\<close>

text \<open>
  One round of the tier selection over the units that remain: the tier with the best saving per
  unit, ties to the smaller group. The key is compared as the pair the code builds.
\<close>

definition key_greater :: "rat \<times> int \<Rightarrow> rat \<times> int \<Rightarrow> bool" where
  "key_greater a b \<longleftrightarrow> fst b < fst a \<or> (fst a = fst b \<and> snd b < snd a)"

fun best_tier ::
    "cart_unit list \<Rightarrow> multibuy_tier list \<Rightarrow> ((rat \<times> int) \<times> int \<times> nat) option
      \<Rightarrow> ((rat \<times> int) \<times> int \<times> nat) option" where
  "best_tier us [] best = best"
| "best_tier us (t # ts) best =
     best_tier us ts
       (if length us < mt_quantity t then best
        else (let saving = units_sum (take (mt_quantity t) us) - int (mt_price_cents t)
              in if saving \<le> 0 then best
                 else (let key = (fdiv saving (int (mt_quantity t)), - int (mt_quantity t))
                       in case best of
                            None \<Rightarrow> Some (key, saving, mt_quantity t)
                          | Some b \<Rightarrow> if key_greater key (fst b)
                                      then Some (key, saving, mt_quantity t) else best)))"

text \<open>What a selected tier is: one that fits, saves, and takes at least one unit.\<close>

definition tier_saves :: "cart_unit list \<Rightarrow> multibuy_tier list \<Rightarrow> int \<Rightarrow> nat \<Rightarrow> bool" where
  "tier_saves us ts saving q \<longleftrightarrow> (\<exists>t\<in>set ts. mt_quantity t = q \<and> q \<le> length us
     \<and> saving = units_sum (take q us) - int (mt_price_cents t) \<and> 0 < saving)"

lemma best_tier_sound:
  "best_tier us ts best = Some (k, saving, q) \<Longrightarrow>
    best = Some (k, saving, q) \<or> tier_saves us ts saving q"
proof (induction ts arbitrary: best)
  case (Cons t ts)
  from Cons.IH [OF Cons.prems [simplified]] show ?case
    by (fastforce simp: tier_saves_def Let_def split: if_splits option.splits)
qed simp

lemma tier_saves_pos: "tier_saves us ts saving q \<Longrightarrow> 0 < q \<and> q \<le> length us"
  by (cases q) (auto simp: tier_saves_def units_sum_def)

record multibuy_state =
  mb_total :: int
  mb_groups :: nat
  mb_used :: "nat list"
  mb_affected :: "uuid list"

definition multibuy_apply :: "cart_unit list \<Rightarrow> int \<Rightarrow> nat \<Rightarrow> multibuy_state \<Rightarrow> multibuy_state" where
  "multibuy_apply us saving q st =
     \<lparr>mb_total = mb_total st + saving, mb_groups = mb_groups st + 1, mb_used = mb_used st @ [q],
      mb_affected = add_affected (mb_affected st) (map un_product_id (take q us))\<rparr>"

function multibuy_loop ::
    "multibuy_tier list \<Rightarrow> cart_unit list \<Rightarrow> multibuy_state \<Rightarrow> multibuy_state" where
  "multibuy_loop ts us st = (case best_tier us ts None of
      None \<Rightarrow> st
    | Some (_, saving, q) \<Rightarrow> multibuy_loop ts (drop q us) (multibuy_apply us saving q st))"
  by pat_completeness auto

termination
proof (relation "measure (\<lambda>(ts, us, st). length us)")
  fix ts us and st :: multibuy_state and b k r saving q
  assume "best_tier us ts None = Some b" "(k, r) = b" "(saving, q) = r"
  then have "tier_saves us ts saving q" using best_tier_sound [of us ts None k saving q] by auto
  then have "0 < q" "q \<le> length us" using tier_saves_pos by auto
  then show "((ts, drop q us, multibuy_apply us saving q st), ts, us, st)
      \<in> measure (\<lambda>(ts, us, st). length us)" by simp
qed simp

declare multibuy_loop.simps [simp del]

text \<open>First occurrences, in order: \<open>dict.fromkeys\<close>.\<close>

fun first_occurrences :: "nat list \<Rightarrow> nat list \<Rightarrow> nat list" where
  "first_occurrences seen [] = []"
| "first_occurrences seen (x # xs) =
     (if x \<in> set seen then first_occurrences seen xs else x # first_occurrences (x # seen) xs)"

definition tier_price :: "multibuy_tier list \<Rightarrow> nat \<Rightarrow> nat" where
  "tier_price ts q = (case map_of (map (\<lambda>t. (mt_quantity t, mt_price_cents t)) (rev ts)) q of
      None \<Rightarrow> 0 | Some p \<Rightarrow> p)"

definition multibuy_start :: multibuy_state where
  "multibuy_start = \<lparr>mb_total = 0, mb_groups = 0, mb_used = [], mb_affected = []\<rparr>"

definition rule_multibuy ::
    "discount_rule \<Rightarrow> discount_context \<Rightarrow> line_filter option \<Rightarrow> discount_result" where
  "rule_multibuy r ctx f =
     (let ts = resolved_multibuy_tiers r;
          us = expand_units (dc_line_items ctx) f;
          scoped = (\<not> Option.is_none f);
          smallest = Min (set (map mt_quantity ts))
      in if length us < smallest then plain_result 0 (MultibuyNeeds smallest (length us) scoped)
         else (let st = multibuy_loop ts us multibuy_start
               in if mb_total st \<le> 0
                  then plain_result 0 (MultibuyNoSaving
                    (map (\<lambda>t. (mt_quantity t, mt_price_cents t)) (rev ts)) scoped)
                  else \<lparr>dr_discount_cents = rule_cap r (mb_total st) ctx, dr_free_shipping = False,
                        dr_affected = mb_affected st,
                        dr_explanation = MultibuyDeal
                          (map (\<lambda>q. (q, tier_price ts q)) (first_occurrences [] (mb_used st)))
                          (mb_groups st) scoped\<rparr>))"

section \<open>Bundles\<close>

text \<open>\<open>_take\<close>: the indices of one leg's units, most expensive first, none of them consumed.\<close>

definition leg_filter_at :: "line_filter option list \<Rightarrow> nat \<Rightarrow> line_filter option" where
  "leg_filter_at fs i = (if i < length fs then fs ! i else None)"

definition take_leg ::
    "cart_unit list \<Rightarrow> line_filter option \<Rightarrow> nat \<Rightarrow> nat set \<Rightarrow> nat list option" where
  "take_leg us f q consumed =
     (let picked = take q (filter (\<lambda>i. i \<notin> consumed \<and>
            (case f of None \<Rightarrow> True | Some p \<Rightarrow> p (un_line (us ! i)))) [0..<length us])
      in if length picked = q then Some picked else None)"

text \<open>One attempt at a bundle: the legs in order, each reserving its units; \<open>None\<close> if one fails.\<close>

fun take_legs ::
    "cart_unit list \<Rightarrow> line_filter option list \<Rightarrow> bundle_leg list \<Rightarrow> nat \<Rightarrow> nat set \<Rightarrow> nat list option"
  where
  "take_legs us fs [] i consumed = Some []"
| "take_legs us fs (g # gs) i consumed =
     (case take_leg us (leg_filter_at fs i) (bg_quantity g) consumed of
        None \<Rightarrow> None
      | Some picked \<Rightarrow>
          map_option (\<lambda>rest. picked @ rest) (take_legs us fs gs (i + 1) (consumed \<union> set picked)))"

lemma take_leg_fresh:
  "take_leg us f q consumed = Some picked \<Longrightarrow>
    distinct picked \<and> set picked \<subseteq> {..<length us} - consumed \<and> length picked = q
    \<and> (\<forall>i\<in>set picked. case f of None \<Rightarrow> True | Some p \<Rightarrow> p (un_line (us ! i)))"
  by (auto simp: take_leg_def Let_def dest!: in_set_takeD split: if_splits)

lemma take_legs_fresh:
  "take_legs us fs gs i consumed = Some chosen \<Longrightarrow>
    distinct chosen \<and> set chosen \<subseteq> {..<length us} - consumed"
proof (induction gs arbitrary: i consumed chosen)
  case (Cons g gs)
  then obtain picked rest where
    p: "take_leg us (leg_filter_at fs i) (bg_quantity g) consumed = Some picked"
    and r: "take_legs us fs gs (i + 1) (consumed \<union> set picked) = Some rest"
    and c: "chosen = picked @ rest"
    by (auto split: option.splits)
  from take_leg_fresh [OF p] Cons.IH [OF r] show ?case by (auto simp: c)
qed simp

record bundle_state =
  bs_total :: int
  bs_bundles :: nat
  bs_affected :: "uuid list"

definition indices_sum :: "cart_unit list \<Rightarrow> nat list \<Rightarrow> int" where
  "indices_sum us is = sum_list (map (\<lambda>i. un_price_cents (us ! i)) is)"

function bundle_loop ::
    "cart_unit list \<Rightarrow> line_filter option list \<Rightarrow> bundle_leg list \<Rightarrow> nat \<Rightarrow> nat set \<Rightarrow> bundle_state
      \<Rightarrow> bundle_state" where
  "bundle_loop us fs gs price consumed st = (case take_legs us fs gs 0 consumed of
      None \<Rightarrow> st
    | Some chosen \<Rightarrow>
        if indices_sum us chosen \<le> int price then st
        else bundle_loop us fs gs price (consumed \<union> set chosen)
          \<lparr>bs_total = bs_total st + (indices_sum us chosen - int price),
           bs_bundles = bs_bundles st + 1,
           bs_affected = add_affected (bs_affected st) (map (\<lambda>i. un_product_id (us ! i)) chosen)\<rparr>)"
  by pat_completeness auto

termination
proof (relation "measure (\<lambda>(us, fs, gs, price, consumed, st). card ({..<length us} - consumed))")
  fix us fs gs price consumed and st :: bundle_state and chosen
  assume t: "take_legs us fs gs 0 consumed = Some chosen" and s: "\<not> indices_sum us chosen \<le> int price"
  have "chosen \<noteq> []" using s by (auto simp: indices_sum_def)
  then have "{..<length us} - (consumed \<union> set chosen) \<subset> {..<length us} - consumed"
    using take_legs_fresh [OF t] by (cases chosen) auto
  then have "card ({..<length us} - (consumed \<union> set chosen)) < card ({..<length us} - consumed)"
    by (intro psubset_card_mono) auto
  then show "((us, fs, gs, price, consumed \<union> set chosen,
          \<lparr>bs_total = bs_total st + (indices_sum us chosen - int price), bs_bundles = bs_bundles st + 1,
             bs_affected = add_affected (bs_affected st) (map (\<lambda>i. un_product_id (us ! i)) chosen)\<rparr>),
         us, fs, gs, price, consumed, st)
        \<in> measure (\<lambda>(us, fs, gs, price, consumed, st). card ({..<length us} - consumed))"
    by simp
qed simp

declare bundle_loop.simps [simp del]

definition rule_bundle ::
    "discount_rule \<Rightarrow> discount_context \<Rightarrow> line_filter option list option \<Rightarrow> discount_result" where
  "rule_bundle r ctx leg_filters =
     (let price = the (ru_bundle_price_cents r);
          fs = (case leg_filters of None \<Rightarrow> [] | Some xs \<Rightarrow> xs);
          us = expand_units (dc_line_items ctx) None;
          st = bundle_loop us fs (ru_bundle_legs r) price {}
                 \<lparr>bs_total = 0, bs_bundles = 0, bs_affected = []\<rparr>;
          shape = map bg_quantity (ru_bundle_legs r)
      in if bs_total st \<le> 0 then plain_result 0 (BundleUnmet shape price)
         else \<lparr>dr_discount_cents = rule_cap r (bs_total st) ctx, dr_free_shipping = False,
               dr_affected = bs_affected st,
               dr_explanation = BundleDeal shape price (bs_bundles st)\<rparr>)"

section \<open>Tiers and the entry point\<close>

text \<open>\<open>max(xs, key)\<close>: the first of the largest.\<close>

fun first_max :: "('a \<Rightarrow> nat) \<Rightarrow> 'a \<Rightarrow> 'a list \<Rightarrow> 'a" where
  "first_max k b [] = b"
| "first_max k b (x # xs) = first_max k (if k b < k x then x else b) xs"

definition rule_tiered :: "discount_rule \<Rightarrow> discount_context \<Rightarrow> discount_result" where
  "rule_tiered r ctx =
     (case filter (\<lambda>t. int (dt_threshold_cents t) \<le> dc_subtotal_cents ctx) (ru_tiers r) of
        [] \<Rightarrow> plain_result 0 NoTierMet
      | t # ts \<Rightarrow>
          (let winning = first_max dt_threshold_cents t ts;
               raw = (dc_subtotal_cents ctx * int (dt_percent winning)) div 100
           in plain_result (rule_cap r raw ctx) (TierOff (dt_percent winning) (dt_threshold_cents winning))))"

definition rule_calculate ::
    "discount_rule \<Rightarrow> discount_context \<Rightarrow> line_filter option \<Rightarrow> line_filter option
      \<Rightarrow> line_filter option list option \<Rightarrow> discount_result" where
  "rule_calculate r ctx buy_filter get_filter leg_filters =
     (if below_minimum r ctx then plain_result 0 (BelowMinimum (ru_min_subtotal_cents r))
      else case ru_kind r of
        KFreeShipping \<Rightarrow> \<lparr>dr_discount_cents = 0, dr_free_shipping = True, dr_affected = [],
                         dr_explanation = FreeShippingOffer\<rparr>
      | KPercentage \<Rightarrow> rule_percentage r ctx buy_filter
      | KFixed \<Rightarrow> rule_fixed r ctx buy_filter
      | KBogo \<Rightarrow> rule_bogo r ctx buy_filter get_filter
      | KTiered \<Rightarrow> rule_tiered r ctx
      | KMultibuy \<Rightarrow> rule_multibuy r ctx buy_filter
      | KBundle \<Rightarrow> rule_bundle r ctx leg_filters)"

section \<open>Bounds\<close>

lemma rule_cap_bounds:
  assumes "0 \<le> dc_subtotal_cents ctx"
  shows "0 \<le> rule_cap r raw ctx" "rule_cap r raw ctx \<le> dc_subtotal_cents ctx"
    "ru_max_discount_cents r = Some m \<Longrightarrow> rule_cap r raw ctx \<le> int m"
    "rule_cap r raw ctx \<le> max 0 raw"
  using assms by (auto simp: rule_cap_def Let_def split: option.splits)

lemma plain_result_discount [simp]: "dr_discount_cents (plain_result d e) = d"
  by (simp add: plain_result_def)

text \<open>Every kind returns zero or a capped amount.\<close>

lemma rule_calculate_capped:
  "dr_discount_cents (rule_calculate r ctx bf gf lf) = 0
    \<or> (\<exists>raw. dr_discount_cents (rule_calculate r ctx bf gf lf) = rule_cap r raw ctx)"
proof (cases "below_minimum r ctx")
  case True
  then show ?thesis by (simp add: rule_calculate_def)
next
  case False
  then show ?thesis
    by (cases "ru_kind r")
      (auto simp: rule_calculate_def rule_percentage_def rule_fixed_def rule_bogo_def rule_tiered_def
        rule_multibuy_def rule_bundle_def Let_def split: prod.split list.split)
qed

text \<open>
  Whatever the kind of the rule and whatever the cart, the discount is never negative,
  never above the subtotal, never above the rule's maximum, and zero below its minimum subtotal.
\<close>

theorem rule_discount_bounds:
  assumes "0 \<le> dc_subtotal_cents ctx"
  shows "0 \<le> dr_discount_cents (rule_calculate r ctx bf gf lf)
    \<and> dr_discount_cents (rule_calculate r ctx bf gf lf) \<le> dc_subtotal_cents ctx
    \<and> (\<forall>m. ru_max_discount_cents r = Some m \<longrightarrow>
         dr_discount_cents (rule_calculate r ctx bf gf lf) \<le> int m)
    \<and> (\<forall>m. ru_min_subtotal_cents r = Some m \<and> dc_subtotal_cents ctx < int m \<longrightarrow>
         dr_discount_cents (rule_calculate r ctx bf gf lf) = 0
         \<and> \<not> dr_free_shipping (rule_calculate r ctx bf gf lf))"
proof -
  have z: "dr_discount_cents (rule_calculate r ctx bf gf lf) = 0
      \<and> \<not> dr_free_shipping (rule_calculate r ctx bf gf lf)"
    if "ru_min_subtotal_cents r = Some m" "dc_subtotal_cents ctx < int m" for m
    using that by (simp add: rule_calculate_def below_minimum_def plain_result_def)
  from rule_calculate_capped [of r ctx bf gf lf] show ?thesis
  proof
    assume "dr_discount_cents (rule_calculate r ctx bf gf lf) = 0"
    with assms z show ?thesis by simp
  next
    assume "\<exists>raw. dr_discount_cents (rule_calculate r ctx bf gf lf) = rule_cap r raw ctx"
    with z rule_cap_bounds [OF assms] show ?thesis by metis
  qed
qed

definition demo_rule :: "rule_kind \<Rightarrow> discount_rule" where
  "demo_rule k = \<lparr>ru_kind = k, ru_value_cents = Some 500, ru_value_percent = Some 20,
     ru_min_subtotal_cents = None, ru_max_discount_cents = Some 150, ru_buy_quantity = Some 1,
     ru_get_quantity = Some 1, ru_get_discount_percent = Some 50, ru_tiers = [],
     ru_multibuy_quantity = Some 2, ru_multibuy_price_cents = Some 150, ru_multibuy_tiers = [],
     ru_bundle_legs = [\<lparr>bg_quantity = 1, bg_label = None\<rparr>, \<lparr>bg_quantity = 1, bg_label = None\<rparr>],
     ru_bundle_price_cents = Some 180\<rparr>"

definition demo_cart_line :: "uuid \<Rightarrow> int \<Rightarrow> int \<Rightarrow> cart_line" where
  "demo_cart_line p q price = \<lparr>cl_product_id = p, cl_quantity = q, cl_unit_price_cents = price,
     cl_category_id = None\<rparr>"

definition demo_context :: discount_context where
  "demo_context = \<lparr>dc_subtotal_cents = 500,
     dc_line_items = [demo_cart_line 1 3 100, demo_cart_line 2 1 200], dc_shipping_cents = 0,
     dc_customer_id = None\<rparr>"

theorem rule_discount_bounds_witness:
  "dr_discount_cents (rule_calculate (demo_rule KFixed) demo_context None None None) = 150
   \<and> (0::int) \<le> 150"
proof -
  have d: "dr_discount_cents (rule_calculate (demo_rule KFixed) demo_context None None None) = 150"
    by (simp add: rule_calculate_def demo_rule_def below_minimum_def rule_fixed_def
        scoped_base_cents_def rule_cap_def demo_context_def Let_def)
  have "0 \<le> dc_subtotal_cents demo_context" by (simp add: demo_context_def)
  from rule_discount_bounds [OF this, of "demo_rule KFixed" None None None] d show ?thesis by simp
qed

section \<open>Multibuy groups\<close>

lemma best_tier_Some: "best \<noteq> None \<Longrightarrow> best_tier us ts best \<noteq> None"
proof (induction ts arbitrary: best)
  case (Cons t ts)
  then show ?case by (auto simp: Let_def split: option.splits if_splits)
qed simp

lemma best_tier_None:
  "best_tier us ts None = None \<Longrightarrow> t \<in> set ts \<Longrightarrow> mt_quantity t \<le> length us \<Longrightarrow>
    units_sum (take (mt_quantity t) us) \<le> int (mt_price_cents t)"
proof (induction ts)
  case (Cons x ts)
  show ?case
  proof (cases "length us < mt_quantity x
      \<or> units_sum (take (mt_quantity x) us) \<le> int (mt_price_cents x)")
    case True
    then have "best_tier us (x # ts) None = best_tier us ts None" by (auto simp: Let_def)
    then have "best_tier us ts None = None" using Cons.prems(1) by (simp only:)
    then show ?thesis using Cons.IH Cons.prems(2,3) True by auto
  next
    case False
    then have "best_tier us (x # ts) None \<noteq> None"
      by (simp add: Let_def del: not_None_eq) (rule best_tier_Some, simp)
    with Cons.prems(1) show ?thesis by simp
  qed
qed simp

text \<open>
  A grouping: blocks of consecutive units, each priced by a tier of its size that saves, and a
  rest no tier saves on.
\<close>

fun grouping :: "multibuy_tier list \<Rightarrow> cart_unit list \<Rightarrow> (cart_unit list \<times> multibuy_tier) list
    \<Rightarrow> cart_unit list \<Rightarrow> bool" where
  "grouping ts us [] rest \<longleftrightarrow> us = rest \<and>
     (\<forall>t\<in>set ts. mt_quantity t \<le> length rest \<longrightarrow>
        units_sum (take (mt_quantity t) rest) \<le> int (mt_price_cents t))"
| "grouping ts us ((g, t) # gs) rest \<longleftrightarrow> t \<in> set ts \<and> length g = mt_quantity t
     \<and> int (mt_price_cents t) < units_sum g \<and> (\<exists>us'. us = g @ us' \<and> grouping ts us' gs rest)"

definition grouping_saving :: "(cart_unit list \<times> multibuy_tier) list \<Rightarrow> int" where
  "grouping_saving gs = sum_list (map (\<lambda>(g, t). units_sum g - int (mt_price_cents t)) gs)"

lemma multibuy_loop_grouping:
  "\<exists>gs rest. grouping ts us gs rest
    \<and> mb_total (multibuy_loop ts us st) = mb_total st + grouping_saving gs
    \<and> mb_groups (multibuy_loop ts us st) = mb_groups st + length gs
    \<and> mb_used (multibuy_loop ts us st) = mb_used st @ map (length \<circ> fst) gs"
proof (induction ts us st rule: multibuy_loop.induct)
  case (1 ts us st)
  show ?case
  proof (cases "best_tier us ts None")
    case None
    then have "grouping ts us [] us" using best_tier_None [OF None] by simp
    with None show ?thesis
      by (intro exI [of _ "[]"] exI [of _ us]) (simp add: multibuy_loop.simps grouping_saving_def)
  next
    case (Some b)
    obtain k saving q where b: "b = (k, saving, q)" by (cases b)
    obtain gs rest where ih: "grouping ts (drop q us) gs rest"
      "mb_total (multibuy_loop ts (drop q us) (multibuy_apply us saving q st))
         = mb_total (multibuy_apply us saving q st) + grouping_saving gs"
      "mb_groups (multibuy_loop ts (drop q us) (multibuy_apply us saving q st))
         = mb_groups (multibuy_apply us saving q st) + length gs"
      "mb_used (multibuy_loop ts (drop q us) (multibuy_apply us saving q st))
         = mb_used (multibuy_apply us saving q st) @ map (length \<circ> fst) gs"
      using "1.IH" [OF Some b [symmetric] refl] by blast
    obtain t where t: "t \<in> set ts" "mt_quantity t = q" "q \<le> length us"
      "saving = units_sum (take q us) - int (mt_price_cents t)" "0 < saving"
      using best_tier_sound [OF Some [unfolded b]] by (auto simp: tier_saves_def)
    have "grouping ts us ((take q us, t) # gs) rest"
      unfolding grouping.simps
      using t ih(1) by (intro conjI exI [of _ "drop q us"]) simp_all
    then show ?thesis using Some b t ih
      by (intro exI [of _ "(take q us, t) # gs"] exI [of _ rest])
        (simp add: multibuy_loop.simps grouping_saving_def multibuy_apply_def min_def)
  qed
qed

lemma grouping_saving_nonneg: "grouping ts us gs rest \<Longrightarrow> 0 \<le> grouping_saving gs"
  by (induction ts us gs rest rule: grouping.induct) (auto simp: grouping_saving_def)

lemma grouping_saving_pos: "grouping ts us gs rest \<Longrightarrow> gs \<noteq> [] \<Longrightarrow> 0 < grouping_saving gs"
proof (induction ts us gs rest rule: grouping.induct)
  case (2 ts us g t gs rest)
  then show ?case using grouping_saving_nonneg by (fastforce simp: grouping_saving_def)
qed simp

lemma expand_units_desc: "sorted (map uminus (map un_price_cents (expand_units ls f)))"
  using sorted_sort_key [of "\<lambda>u. - un_price_cents u"] by (simp add: expand_units_def comp_def)

text \<open>
  C25: what a multibuy charges. Let the units of the eligible lines be sorted by falling price.
  The discount is the capped saving of a grouping of them: consecutive blocks, each as large as
  one of the rule's tiers and dearer at list price than that tier, followed by a rest on which no
  tier saves anything. So no unit is discounted twice and no group costs more than list price.
\<close>

theorem multibuy_is_grouping:
  shows "\<exists>gs rest. (grouping (resolved_multibuy_tiers r) (expand_units (dc_line_items ctx) f) gs rest
      \<or> (gs = [] \<and> length (expand_units (dc_line_items ctx) f)
           < Min (set (map mt_quantity (resolved_multibuy_tiers r)))))
    \<and> (if gs = [] then dr_discount_cents (rule_multibuy r ctx f) = 0
       else dr_discount_cents (rule_multibuy r ctx f) = rule_cap r (grouping_saving gs) ctx
         \<and> 0 < grouping_saving gs)"
proof -
  let ?ts = "resolved_multibuy_tiers r" and ?us = "expand_units (dc_line_items ctx) f"
  show ?thesis
  proof (cases "length ?us < Min (set (map mt_quantity ?ts))")
    case True
    then show ?thesis
      by (intro exI [of _ "[]"] exI [of _ ?us]) (simp add: rule_multibuy_def Let_def)
  next
    case False
    obtain gs rest where g: "grouping ?ts ?us gs rest"
      "mb_total (multibuy_loop ?ts ?us multibuy_start) = grouping_saving gs"
      using multibuy_loop_grouping [of ?ts ?us multibuy_start] by (auto simp: multibuy_start_def)
    have e: "grouping_saving [] = 0" by (simp add: grouping_saving_def)
    show ?thesis using False g e grouping_saving_pos [OF g(1)]
      by (intro exI [of _ gs] exI [of _ rest]) (auto simp: rule_multibuy_def Let_def)
  qed
qed

section \<open>The greedy choice with one tier\<close>

lemma grouping_single_optimal:
  assumes "grouping [t] us gs rest" "sorted (map uminus (map un_price_cents us))"
    and "k * mt_quantity t \<le> length us"
  shows "units_sum (take (k * mt_quantity t) us) - int k * int (mt_price_cents t) \<le> grouping_saving gs"
  using assms
proof (induction "[t]" us gs rest arbitrary: k rule: grouping.induct)
  case (1 us rest)
  let ?q = "mt_quantity t"
  show ?case
  proof (cases k)
    case 0
    then show ?thesis by (simp add: units_sum_def grouping_saving_def)
  next
    case (Suc j)
    then have "?q \<le> length us" using "1.prems"(3) by simp
    then have le: "units_sum (take ?q us) \<le> int (mt_price_cents t)" using "1.prems"(1) by simp
    have "units_sum (take (k * ?q) us) \<le> int k * units_sum (take ?q us)"
      using desc_blocks_le [OF "1.prems"(2), of k ?q] "1.prems"(3)
      by (simp add: units_sum_def take_map)
    also have "\<dots> \<le> int k * int (mt_price_cents t)" using le by (intro mult_left_mono) auto
    finally show ?thesis by (simp add: grouping_saving_def)
  qed
next
  case (2 us g t' gs rest)
  then have t': "t' = t" "length g = mt_quantity t" "int (mt_price_cents t) < units_sum g" by auto
  obtain us' where us': "us = g @ us'" "grouping [t] us' gs rest" using "2.prems"(1) by auto
  have s: "sorted (map uminus (map un_price_cents us'))"
    using "2.prems"(2) by (simp add: us'(1) sorted_append)
  show ?case
  proof (cases k)
    case 0
    then show ?thesis using grouping_saving_nonneg [OF "2.prems"(1)] by (simp add: units_sum_def)
  next
    case (Suc j)
    have "units_sum (take (j * mt_quantity t) us') - int j * int (mt_price_cents t) \<le> grouping_saving gs"
      using "2.prems"(3) Suc t'(2) us' s by (intro "2.hyps") simp_all
    moreover have "take (k * mt_quantity t) us = g @ take (j * mt_quantity t) us'"
      using Suc t'(2) by (simp add: us'(1))
    ultimately show ?thesis using t' Suc
      by (simp add: grouping_saving_def units_sum_def algebra_simps)
  qed
qed

lemma rule_cap_mono: "a \<le> b \<Longrightarrow> rule_cap r a ctx \<le> rule_cap r b ctx"
  by (auto simp: rule_cap_def Let_def split: option.splits)

lemma rule_cap_zero: "0 \<le> dc_subtotal_cents ctx \<Longrightarrow> rule_cap r 0 ctx = 0"
  by (simp add: rule_cap_def split: option.splits)

text \<open>
  With a single price break, N for P, the greedy grouping is optimal: for every number k
  and every choice of k times N of the eligible units, pricing them as k groups gives a discount
  no larger than the one the rule gives.
\<close>

theorem multibuy_single_tier_optimal:
  assumes tier: "resolved_multibuy_tiers r = [t]" and pos: "0 \<le> dc_subtotal_cents ctx"
    and N: "N \<subseteq># mset (map un_price_cents (expand_units (dc_line_items ctx) f))"
    and k: "size N = k * mt_quantity t"
  shows "rule_cap r (sum_mset N - int k * int (mt_price_cents t)) ctx
    \<le> dr_discount_cents (rule_multibuy r ctx f)"
proof -
  let ?us = "expand_units (dc_line_items ctx) f"
  obtain gs rest where g: "grouping [t] ?us gs rest"
    "mb_total (multibuy_loop [t] ?us multibuy_start) = grouping_saving gs"
    using multibuy_loop_grouping [of "[t]" ?us multibuy_start] by (auto simp: multibuy_start_def)
  have "size N \<le> length ?us" using size_mset_mono [OF N] by simp
  then have len: "k * mt_quantity t \<le> length ?us" using k by simp
  have "sum_mset N \<le> sum_list (take (k * mt_quantity t) (map un_price_cents ?us))"
    by (rule sorted_prefix_dearest [OF expand_units_desc N k])
  also have "\<dots> = units_sum (take (k * mt_quantity t) ?us)" by (simp add: units_sum_def take_map)
  finally have le: "sum_mset N - int k * int (mt_price_cents t) \<le> grouping_saving gs"
    using grouping_single_optimal [OF g(1) expand_units_desc len] by linarith
  show ?thesis
  proof (cases "length ?us < mt_quantity t")
    case True
    then have "k = 0" using len by (cases k) auto
    then have "N = {#}" using k by simp
    then show ?thesis using True \<open>k = 0\<close>
      by (simp add: rule_multibuy_def tier Let_def rule_cap_zero [OF pos])
  next
    case False
    then have "dr_discount_cents (rule_multibuy r ctx f)
        = (if grouping_saving gs \<le> 0 then 0 else rule_cap r (grouping_saving gs) ctx)"
      by (simp add: rule_multibuy_def tier Let_def g(2))
    moreover have "rule_cap r (grouping_saving gs) ctx = 0" if "grouping_saving gs \<le> 0"
      using that grouping_saving_nonneg [OF g(1)] rule_cap_zero [OF pos] by (metis antisym)
    ultimately show ?thesis using rule_cap_mono [OF le, of r ctx] by (auto split: if_splits)
  qed
qed

lemma demo_units: "map un_price_cents (expand_units (dc_line_items demo_context) None) = [200, 100, 100, 100]"
  by (simp add: expand_units_def demo_context_def demo_cart_line_def units_of_line_def
      matching_lines_def numeral_3_eq_3 eval_nat_numeral)

theorem multibuy_single_tier_optimal_witness:
  "rule_cap (demo_rule KMultibuy) (300 - 150) demo_context
    \<le> dr_discount_cents (rule_multibuy (demo_rule KMultibuy) demo_context None)"
proof -
  have t: "resolved_multibuy_tiers (demo_rule KMultibuy) = [\<lparr>mt_quantity = 2, mt_price_cents = 150\<rparr>]"
    by (simp add: resolved_multibuy_tiers_def demo_rule_def)
  have pos: "0 \<le> dc_subtotal_cents demo_context" by (simp add: demo_context_def)
  have N: "{#200, 100#} \<subseteq># mset (map un_price_cents (expand_units (dc_line_items demo_context) None))"
    unfolding demo_units by simp
  from multibuy_single_tier_optimal [OF t pos N, of 1] show ?thesis by simp
qed

text \<open>
  With several tiers the greedy choice need not be optimal, even when the larger group is the
  better deal per unit: on four units of 100 with tiers 2 for 150 and 3 for 210 the loop takes
  the group of three and saves 90, where two groups of two would save 100.
\<close>

lemma greedy_multibuy_can_lose:
  "mb_total (multibuy_loop [\<lparr>mt_quantity = 3, mt_price_cents = 210\<rparr>, \<lparr>mt_quantity = 2, mt_price_cents = 150\<rparr>]
     (expand_units [demo_cart_line 1 4 100] None) multibuy_start) = 90
   \<and> (210 :: rat) / 3 < 150 / 2
   \<and> (let us = expand_units [demo_cart_line 1 4 100] None
      in (units_sum (take 2 us) - 150) + (units_sum (take 2 (drop 2 us)) - 150)) = 100"
proof -
  have us: "expand_units [demo_cart_line 1 4 100] None =
      (let u = \<lparr>un_price_cents = 100, un_product_id = 1, un_line = demo_cart_line 1 4 100\<rparr> in [u, u, u, u])"
    by (simp add: expand_units_def demo_cart_line_def units_of_line_def matching_lines_def
        eval_nat_numeral Let_def)
  have f: "fdiv 90 3 = 30" "fdiv 50 2 = 25"
    using fdiv_exact [of 3 30] fdiv_exact [of 2 25] by simp_all
  show ?thesis
    by (simp add: us multibuy_loop.simps units_sum_def Let_def f key_greater_def multibuy_apply_def
        multibuy_start_def)
qed

section \<open>Bundles\<close>

text \<open>A bundle split by its legs: each leg's share has its size and passes its filter.\<close>

fun legs_filled :: "cart_unit list \<Rightarrow> line_filter option list \<Rightarrow> bundle_leg list \<Rightarrow> nat \<Rightarrow> nat list \<Rightarrow> bool"
  where
  "legs_filled us fs [] i ch \<longleftrightarrow> ch = []"
| "legs_filled us fs (g # gs) i ch \<longleftrightarrow> (\<exists>picked rest. ch = picked @ rest
     \<and> length picked = bg_quantity g
     \<and> (\<forall>j\<in>set picked. case leg_filter_at fs i of None \<Rightarrow> True | Some p \<Rightarrow> p (un_line (us ! j)))
     \<and> legs_filled us fs gs (i + 1) rest)"

lemma take_legs_filled: "take_legs us fs gs i consumed = Some ch \<Longrightarrow> legs_filled us fs gs i ch"
proof (induction gs arbitrary: i consumed ch)
  case (Cons g gs)
  then obtain picked rest where
    p: "take_leg us (leg_filter_at fs i) (bg_quantity g) consumed = Some picked"
    and r: "take_legs us fs gs (i + 1) (consumed \<union> set picked) = Some rest"
    and c: "ch = picked @ rest"
    by (auto split: option.splits)
  from take_leg_fresh [OF p] Cons.IH [OF r] c show ?case by auto
qed simp

definition bundles_saving :: "cart_unit list \<Rightarrow> nat \<Rightarrow> nat list list \<Rightarrow> int" where
  "bundles_saving us price bss = sum_list (map (\<lambda>ch. indices_sum us ch - int price) bss)"

text \<open>A set of bundles over the units: disjoint, each filling the legs and dearer than the price.\<close>

definition bundling ::
    "cart_unit list \<Rightarrow> line_filter option list \<Rightarrow> bundle_leg list \<Rightarrow> nat \<Rightarrow> nat set \<Rightarrow> nat list list \<Rightarrow> bool"
  where
  "bundling us fs gs price consumed bss \<longleftrightarrow> distinct (concat bss)
     \<and> set (concat bss) \<subseteq> {..<length us} - consumed
     \<and> (\<forall>ch\<in>set bss. legs_filled us fs gs 0 ch \<and> int price < indices_sum us ch)"

lemma bundle_loop_bundling:
  "\<exists>bss. bundling us fs gs price consumed bss
    \<and> bs_total (bundle_loop us fs gs price consumed st) = bs_total st + bundles_saving us price bss
    \<and> bs_bundles (bundle_loop us fs gs price consumed st) = bs_bundles st + length bss"
proof (induction us fs gs price consumed st rule: bundle_loop.induct)
  case (1 us fs gs price consumed st)
  have base: "bundling us fs gs price consumed [] \<and> bundles_saving us price [] = 0"
    by (simp add: bundling_def bundles_saving_def)
  show ?case
  proof (cases "take_legs us fs gs 0 consumed")
    case None
    with base show ?thesis by (intro exI [of _ "[]"]) (simp add: bundle_loop.simps)
  next
    case (Some ch)
    show ?thesis
    proof (cases "indices_sum us ch \<le> int price")
      case True
      with base Some show ?thesis by (intro exI [of _ "[]"]) (simp add: bundle_loop.simps)
    next
      case False
      let ?st = "\<lparr>bs_total = bs_total st + (indices_sum us ch - int price), bs_bundles = bs_bundles st + 1,
         bs_affected = add_affected (bs_affected st) (map (\<lambda>i. un_product_id (us ! i)) ch)\<rparr>"
      obtain bss where ih: "bundling us fs gs price (consumed \<union> set ch) bss"
        "bs_total (bundle_loop us fs gs price (consumed \<union> set ch) ?st)
           = bs_total ?st + bundles_saving us price bss"
        "bs_bundles (bundle_loop us fs gs price (consumed \<union> set ch) ?st) = bs_bundles ?st + length bss"
        using "1.IH" [OF Some False] by blast
      have "bundling us fs gs price consumed (ch # bss)"
        using ih(1) False take_legs_fresh [OF Some] take_legs_filled [OF Some]
        by (auto simp: bundling_def)
      then show ?thesis using ih(2,3) Some False
        by (intro exI [of _ "ch # bss"]) (simp add: bundle_loop.simps [of us fs gs price consumed] bundles_saving_def)
    qed
  qed
qed

lemma bundles_saving_pos:
  "bundling us fs gs price consumed bss \<Longrightarrow> bss \<noteq> [] \<Longrightarrow> 0 < bundles_saving us price bss"
proof (induction bss)
  case (Cons ch bss)
  then have "bundling us fs gs price consumed bss" by (auto simp: bundling_def)
  with Cons show ?case
    by (cases "bss = []") (auto simp: bundles_saving_def bundling_def)
qed simp

text \<open>
  What a bundle charges. The discount is the capped saving of bundles drawn from the cart's
  units: no unit is in two bundles or in two legs of one, each bundle has from every leg as many
  units as the leg asks for, all passing the leg's filter, and each is dearer at list price than
  the bundle price. When there is none, nothing is discounted.
\<close>

theorem bundle_is_bundling:
  shows "\<exists>bss. bundling (expand_units (dc_line_items ctx) None) (case lf of None \<Rightarrow> [] | Some xs \<Rightarrow> xs)
      (ru_bundle_legs r) (the (ru_bundle_price_cents r)) {} bss
    \<and> dr_discount_cents (rule_bundle r ctx lf) = (if bss = [] then 0
        else rule_cap r (bundles_saving (expand_units (dc_line_items ctx) None)
               (the (ru_bundle_price_cents r)) bss) ctx)
    \<and> (bss \<noteq> [] \<longrightarrow> dr_explanation (rule_bundle r ctx lf)
         = BundleDeal (map bg_quantity (ru_bundle_legs r)) (the (ru_bundle_price_cents r)) (length bss))"
proof -
  let ?us = "expand_units (dc_line_items ctx) None" and ?p = "the (ru_bundle_price_cents r)"
  let ?fs = "case lf of None \<Rightarrow> [] | Some xs \<Rightarrow> xs"
  let ?st = "\<lparr>bs_total = 0, bs_bundles = 0, bs_affected = []\<rparr>"
  obtain bss where b: "bundling ?us ?fs (ru_bundle_legs r) ?p {} bss"
    "bs_total (bundle_loop ?us ?fs (ru_bundle_legs r) ?p {} ?st) = bundles_saving ?us ?p bss"
    "bs_bundles (bundle_loop ?us ?fs (ru_bundle_legs r) ?p {} ?st) = length bss"
    using bundle_loop_bundling [of ?us ?fs "ru_bundle_legs r" ?p "{}" ?st] by auto
  have "bundles_saving ?us ?p bss \<le> 0 \<longleftrightarrow> bss = []"
    using bundles_saving_pos [OF b(1)] by (cases "bss = []") (simp_all add: bundles_saving_def)
  then show ?thesis using b
    by (intro exI [of _ bss]) (simp add: rule_bundle_def Let_def plain_result_def)
qed

theorem bundle_is_bundling_witness:
  "dr_discount_cents (rule_bundle (demo_rule KBundle) demo_context
      (Some [Some (\<lambda>l. cl_product_id l = 1), Some (\<lambda>l. cl_product_id l = 2)])) = 120
   \<and> (\<exists>bss. bss \<noteq> [] \<and> bundling (expand_units (dc_line_items demo_context) None)
       [Some (\<lambda>l. cl_product_id l = 1), Some (\<lambda>l. cl_product_id l = 2)]
       (ru_bundle_legs (demo_rule KBundle)) 180 {} bss)"
proof -
  let ?fs = "[Some (\<lambda>l. cl_product_id l = 1), Some (\<lambda>l. cl_product_id l = 2)]"
  let ?a = "\<lparr>un_price_cents = 200, un_product_id = 2, un_line = demo_cart_line 2 1 200\<rparr>"
  let ?b = "\<lparr>un_price_cents = 100, un_product_id = 1, un_line = demo_cart_line 1 3 100\<rparr>"
  have us: "expand_units (dc_line_items demo_context) None = [?a, ?b, ?b, ?b]"
    by (simp add: expand_units_def demo_context_def demo_cart_line_def units_of_line_def
        matching_lines_def eval_nat_numeral)
  let ?legs = "ru_bundle_legs (demo_rule KBundle)"
  have ix: "[0..<length [?a, ?b, ?b, ?b]] = [0, 1, 2, 3]" by (simp add: upt_rec)
  have t1: "take_legs [?a, ?b, ?b, ?b] ?fs ?legs 0 {} = Some [1, 0]"
    by (simp only: take_legs.simps demo_rule_def discount_rule.simps take_leg_def ix)
      (simp add: leg_filter_at_def demo_cart_line_def Let_def)
  have t2: "take_legs [?a, ?b, ?b, ?b] ?fs ?legs 0 {0, 1} = None"
    by (simp only: take_legs.simps demo_rule_def discount_rule.simps take_leg_def ix)
      (simp add: leg_filter_at_def demo_cart_line_def Let_def)
  have loop: "bs_total (bundle_loop [?a, ?b, ?b, ?b] ?fs ?legs 180 {}
      \<lparr>bs_total = 0, bs_bundles = 0, bs_affected = []\<rparr>) = 120"
    by (subst bundle_loop.simps, simp add: t1 indices_sum_def)
      (subst bundle_loop.simps, simp add: t2 [unfolded One_nat_def] insert_commute)
  have d: "dr_discount_cents (rule_bundle (demo_rule KBundle) demo_context (Some ?fs)) = 120"
    unfolding rule_bundle_def us using loop
    by (simp add: Let_def) (simp add: demo_rule_def rule_cap_def demo_context_def)
  from bundle_is_bundling [of demo_context "Some ?fs" "demo_rule KBundle"] obtain bss where
    "bundling (expand_units (dc_line_items demo_context) None) ?fs (ru_bundle_legs (demo_rule KBundle))
       (the (ru_bundle_price_cents (demo_rule KBundle))) {} bss" "bss \<noteq> []"
    using d by (auto split: if_splits)
  with d show ?thesis by (auto simp: demo_rule_def)
qed

section \<open>Buy X, get Y, unit by unit\<close>

text \<open>The reference: one entry per unit, cheapest first, and the first \<open>n\<close> of them discounted.\<close>

definition unit_offs :: "nat \<Rightarrow> cart_line list \<Rightarrow> int list" where
  "unit_offs pct ls = concat (map (\<lambda>l. replicate (nat (cl_quantity l))
     ((cl_unit_price_cents l * int pct) div 100)) ls)"

lemma bogo_loop_units:
  "\<forall>l\<in>set ls. 0 \<le> cl_quantity l \<Longrightarrow>
    fst (bogo_loop pct ls n acc) = fst acc + sum_list (take (nat n) (unit_offs pct ls))"
proof (induction ls arbitrary: n acc)
  case (Cons l ls)
  show ?case
  proof (cases "n \<le> 0")
    case False
    let ?t = "min (cl_quantity l) n"
    have q: "0 \<le> cl_quantity l" using Cons.prems by simp
    have "nat ?t = min (nat n) (nat (cl_quantity l))"
      using q False by (cases "cl_quantity l \<le> n") simp_all
    moreover have "nat (n - ?t) = nat n - nat (cl_quantity l)"
      using q False by (auto simp: min_def)
    moreover have "int (nat ?t) = ?t" using q False by simp
    ultimately have "sum_list (take (nat n) (unit_offs pct (l # ls)))
        = (cl_unit_price_cents l * int pct) div 100 * ?t
          + sum_list (take (nat (n - ?t)) (unit_offs pct ls))"
      by (simp add: unit_offs_def sum_list_replicate mult.commute)
    then show ?thesis using False Cons.IH [of "n - ?t"] Cons.prems by (simp add: Let_def)
  qed simp
qed (simp add: unit_offs_def)

lemma sort_key_sorted_lines: "sorted (map cl_unit_price_cents (sort_key cl_unit_price_cents ls))"
  by simp

text \<open>
  Buy X, get Y agrees with its unit-by-unit reading: expand the lines of the get side to
  units, cheapest first, take the number of units the unlocked bundles give away, and sum their
  percentage off, each rounded down; cap the sum.
\<close>

theorem bogo_by_units:
  assumes "\<forall>l\<in>set (dc_line_items ctx). 0 \<le> cl_quantity l" and "0 \<le> dc_subtotal_cents ctx"
  shows "dr_discount_cents (rule_bogo r ctx bf gf) =
    rule_cap r (sum_list (take
      (nat ((if Option.is_none bf \<and> Option.is_none gf
             then sum_list (map cl_quantity (dc_line_items ctx))
                    div (int (the (ru_buy_quantity r)) + int (the (ru_get_quantity r)))
             else min (sum_list (map cl_quantity (matching_lines bf (dc_line_items ctx)))
                         div int (the (ru_buy_quantity r)))
                      (sum_list (map cl_quantity (matching_lines gf (dc_line_items ctx)))
                         div int (the (ru_get_quantity r))))
            * int (the (ru_get_quantity r))))
      (unit_offs (the (ru_get_discount_percent r))
        (matching_lines gf (sort_key cl_unit_price_cents (dc_line_items ctx)))))) ctx"
proof -
  let ?ls = "dc_line_items ctx"
  let ?s = "sort_key cl_unit_price_cents ?ls"
  have perm: "sum_list (map cl_quantity (matching_lines f ?s)) = sum_list (map cl_quantity (matching_lines f ?ls))"
    for f
  proof -
    have "mset (matching_lines f ?s) = mset (matching_lines f ?ls)"
      by (cases f) (simp_all add: matching_lines_def)
    then show ?thesis by (metis mset_map sum_mset_sum_list)
  qed
  have perm0: "sum_list (map cl_quantity ?s) = sum_list (map cl_quantity ?ls)"
    using perm [of None] by (simp add: matching_lines_def)
  have nn: "\<forall>l\<in>set (matching_lines gf ?s). 0 \<le> cl_quantity l"
    using assms(1) by (cases gf) (auto simp: matching_lines_def)
  show ?thesis
    using bogo_loop_units [OF nn] rule_cap_zero [OF assms(2)]
    by (simp add: rule_bogo_def Let_def perm perm0 case_prod_beta)
qed

theorem bogo_by_units_witness:
  "dr_discount_cents (rule_bogo (demo_rule KBogo) demo_context None None) = 100"
proof -
  have q: "\<forall>l\<in>set (dc_line_items demo_context). 0 \<le> cl_quantity l" "0 \<le> dc_subtotal_cents demo_context"
    by (simp_all add: demo_context_def demo_cart_line_def)
  show ?thesis unfolding bogo_by_units [OF q]
    by (simp add: demo_context_def demo_cart_line_def demo_rule_def matching_lines_def unit_offs_def
        rule_cap_def eval_nat_numeral)
qed

end
