(* ===== verification/Promotion.thy ===== *)
theory Promotion
  imports Discount_Rule Status_Machine
begin

text \<open>
  The promotion aggregate: \<open>src/core/entities/promotion.py\<close> with its invariants and lifecycle, the
  enumerations of \<open>src/core/enums/promotion_enums.py\<close>, and the targets and displays attached to a
  promotion (\<open>promotion_target.py\<close>, \<open>promotion_display.py\<close>). The entity checks its invariants on
  every assignment, so an operation of several assignments is a chain of checked steps.
\<close>

section \<open>Enumerations\<close>

datatype promotion_surface =
    SfDiscountCode | SfAutomatic | SfAnnouncementBar | SfPopup | SfFloatingWidget | SfCookieBanner

datatype promotion_status =
    PsDraft | PsScheduled | PsActive | PsPaused | PsExpired | PsArchived

datatype display_trigger =
    OnLoad | OnDelay | OnScrollPct | OnExitIntent | OnAddToCart | AlwaysShown

datatype display_frequency =
    OncePerSession | OncePerVisitor | EveryVisit | UntilDismissed | UntilRedeemed

datatype target_kind = TkAudience | TkProduct | TkCategory | TkCustomerTag | TkGeo

section \<open>The promotion\<close>

text \<open>The content is a surface with a payload the modelled code does not read.\<close>

record promotion_content =
  pc_surface :: promotion_surface
  pc_payload :: "(string \<times> json) list"

record promotion =
  pr_id :: uuid
  pr_created_at :: instant
  pr_updated_at :: instant
  pr_tenant_id :: uuid
  pr_store_id :: uuid
  pr_name :: string
  pr_surface :: promotion_surface
  pr_status :: promotion_status
  pr_coupon_id :: "uuid option"
  pr_discount_rule :: "discount_rule option"
  pr_content :: promotion_content
  pr_translations :: "(string \<times> json) list"
  pr_priority :: int
  pr_starts_at :: "instant option"
  pr_ends_at :: "instant option"
  pr_version :: int
  pr_usage_limit_total :: "int option"
  pr_usage_limit_per_customer :: "int option"
  pr_created_by :: "uuid option"
  pr_updated_by :: "uuid option"

definition window_ok :: "instant option \<Rightarrow> instant option \<Rightarrow> bool" where
  "window_ok starts ends = (case (starts, ends) of (Some a, Some b) \<Rightarrow> a < b | _ \<Rightarrow> True)"

definition enforce_invariants :: "promotion \<Rightarrow> promotion result" where
  "enforce_invariants p =
     (if pr_surface p = SfDiscountCode \<and> pr_coupon_id p = None
      then Inl (CouponPromotionLinkError ''discount_code surface requires coupon_id'')
      else if pr_surface p \<noteq> SfDiscountCode \<and> pr_coupon_id p \<noteq> None
      then Inl (CouponPromotionLinkError ''coupon_id only allowed when surface=discount_code'')
      else if \<not> window_ok (pr_starts_at p) (pr_ends_at p)
      then Inl (ValueError ''ends_at must be strictly after starts_at'')
      else if pc_surface (pr_content p) \<noteq> pr_surface p
      then Inl (ValueError ''content.surface must match promotion.surface'')
      else Inr p)"

definition promotion_name_ok :: "promotion \<Rightarrow> bool" where
  "promotion_name_ok p \<longleftrightarrow> 1 \<le> length (pr_name p) \<and> length (pr_name p) \<le> 120"

definition mk_promotion :: "promotion \<Rightarrow> promotion result" where
  "mk_promotion p = (if \<not> promotion_name_ok p then Inl (ValueError ''name'') else enforce_invariants p)"

text \<open>Assignments, each followed by the invariants.\<close>

definition set_status :: "promotion_status \<Rightarrow> promotion \<Rightarrow> promotion result" where
  "set_status st p = enforce_invariants (p\<lparr>pr_status := st\<rparr>)"

definition promotion_touch :: "instant \<Rightarrow> promotion \<Rightarrow> promotion result" where
  "promotion_touch now p = enforce_invariants (p\<lparr>pr_updated_at := now\<rparr>)"

section \<open>Lifecycle\<close>

definition promotion_activate :: "instant \<Rightarrow> promotion \<Rightarrow> promotion result" where
  "promotion_activate now p =
     (if pr_status p \<notin> {PsDraft, PsPaused, PsScheduled}
      then Inl (PromotionStateError ''cannot activate promotion'')
      else rbind (set_status PsActive p) (promotion_touch now))"

definition promotion_pause :: "instant \<Rightarrow> promotion \<Rightarrow> promotion result" where
  "promotion_pause now p =
     (if pr_status p \<notin> {PsActive, PsScheduled}
      then Inl (PromotionStateError ''cannot pause promotion'')
      else rbind (set_status PsPaused p) (promotion_touch now))"

definition promotion_archive :: "instant \<Rightarrow> promotion \<Rightarrow> promotion result" where
  "promotion_archive now p =
     (if pr_status p = PsArchived then Inr p
      else rbind (set_status PsArchived p) (promotion_touch now))"

definition promotion_schedule ::
    "instant \<Rightarrow> instant \<Rightarrow> instant option \<Rightarrow> promotion \<Rightarrow> promotion result" where
  "promotion_schedule now starts ends p =
     (if pr_status p \<notin> {PsDraft, PsPaused}
      then Inl (PromotionStateError ''cannot schedule promotion'')
      else if (case ends of None \<Rightarrow> False | Some e \<Rightarrow> e \<le> starts)
      then Inl (ValueError ''ends_at must be strictly after starts_at'')
      else rbind (enforce_invariants (p\<lparr>pr_starts_at := Some starts\<rparr>)) (\<lambda>p1.
           rbind (enforce_invariants (p1\<lparr>pr_ends_at := ends\<rparr>)) (\<lambda>p2.
           rbind (set_status PsScheduled p2) (promotion_touch now))))"

definition expire_if_window_passed :: "instant \<Rightarrow> promotion \<Rightarrow> (bool \<times> promotion) result" where
  "expire_if_window_passed now p =
     (if (case pr_ends_at p of None \<Rightarrow> False | Some e \<Rightarrow> e < now)
         \<and> pr_status p \<in> {PsActive, PsScheduled, PsPaused}
      then rbind (set_status PsExpired p) (\<lambda>p1. rbind (promotion_touch now p1) (\<lambda>p2. Inr (True, p2)))
      else Inr (False, p))"

definition is_currently_active :: "instant \<Rightarrow> promotion \<Rightarrow> bool" where
  "is_currently_active now p \<longleftrightarrow> pr_status p = PsActive
     \<and> (case pr_starts_at p of None \<Rightarrow> True | Some s \<Rightarrow> s \<le> now)
     \<and> (case pr_ends_at p of None \<Rightarrow> True | Some e \<Rightarrow> now \<le> e)"

section \<open>Targets\<close>

text \<open>
  The keys of a target's value that the code reads, in the shape it documents: lists of strings,
  empty when the key is missing.
\<close>

record target_value =
  tv_kind :: "string option"
  tv_product_ids :: "string list"
  tv_category_ids :: "string list"
  tv_tags :: "string list"
  tv_countries :: "string list"
  tv_cities :: "string list"

record promotion_target =
  tg_id :: uuid
  tg_tenant_id :: uuid
  tg_promotion_id :: uuid
  tg_target_kind :: target_kind
  tg_target_value :: target_value
  tg_inclusion :: bool
  tg_role :: "string option"

definition leg_role_prefix :: string where
  "leg_role_prefix = ''leg:''"

text \<open>\<open>TARGET_ROLE_PATTERN\<close>: \<open>buy_set\<close>, \<open>get_set\<close>, or \<open>leg:\<close> and a number below 100 without leading zero.\<close>

definition target_role_ok :: "string \<Rightarrow> bool" where
  "target_role_ok r \<longleftrightarrow> r = ''buy_set'' \<or> r = ''get_set''
     \<or> (take 4 r = leg_role_prefix \<and> list_all is_digit (drop 4 r)
        \<and> (drop 4 r = ''0'' \<or> (length (drop 4 r) \<in> {1, 2} \<and> hd (drop 4 r) \<noteq> CHR ''0'')))"

definition leg_role :: "nat \<Rightarrow> string" where
  "leg_role i = leg_role_prefix @ nat_digits i"

text \<open>\<open>^leg:(\d{1,2})$\<close>; \<open>$\<close> also matches before a final newline.\<close>

definition leg_index :: "string option \<Rightarrow> nat option" where
  "leg_index role = (case role of
      None \<Rightarrow> None
    | Some r \<Rightarrow>
        (let r' = (if r \<noteq> [] \<and> last r = CHR 0x0A then butlast r else r);
             ds = drop 4 r'
         in if take 4 r' = leg_role_prefix \<and> length ds \<in> {1, 2} \<and> list_all is_digit ds
            then Some (nat (digits_val ds)) else None))"

text \<open>
  \<open>UUID(s)\<close>: prefixes \<open>urn:\<close> and \<open>uuid:\<close>, outer braces and hyphens are dropped, and 32
  hexadecimal digits must remain.
\<close>

fun erase :: "string \<Rightarrow> string \<Rightarrow> string" where
  "erase pat [] = []"
| "erase pat (c # cs) =
     (if pat \<noteq> [] \<and> take (length pat) (c # cs) = pat
      then erase pat (drop (length pat - 1) cs) else c # erase pat cs)"

definition is_brace :: "char \<Rightarrow> bool" where
  "is_brace c \<longleftrightarrow> c = CHR ''{'' \<or> c = CHR ''}''"

definition hex_val :: "char \<Rightarrow> nat option" where
  "hex_val c = (let n = (of_char c :: nat) in
     if 48 \<le> n \<and> n \<le> 57 then Some (n - 48)
     else if 97 \<le> n \<and> n \<le> 102 then Some (n - 87)
     else if 65 \<le> n \<and> n \<le> 70 then Some (n - 55) else None)"

definition parse_uuid :: "string \<Rightarrow> uuid result" where
  "parse_uuid s =
     (let t = erase ''uuid:'' (erase ''urn:'' s);
          u = rev (dropWhile is_brace (rev (dropWhile is_brace t)));
          h = filter (\<lambda>c. c \<noteq> CHR ''-'') u
      in if length h = 32 \<and> list_all (\<lambda>c. hex_val c \<noteq> None) h
         then Inr (foldl (\<lambda>a c. a * 16 + of_nat (the (hex_val c))) 0 h)
         else Inl (ValueError ''badly formed hexadecimal UUID string''))"

section \<open>Displays\<close>

record promotion_display =
  dp_id :: uuid
  dp_tenant_id :: uuid
  dp_promotion_id :: uuid
  dp_trigger :: display_trigger
  dp_trigger_value :: "(string \<times> json) list"
  dp_frequency :: display_frequency
  dp_pages :: "string list"
  dp_device_targets :: "string list"
  dp_is_enabled :: bool

definition starts_with :: "string \<Rightarrow> string \<Rightarrow> bool" where
  "starts_with p s \<longleftrightarrow> take (length p) s = p"

definition page_matches :: "string \<Rightarrow> string \<Rightarrow> bool" where
  "page_matches path pattern =
     (if 2 \<le> length pattern \<and> drop (length pattern - 2) pattern = ''/*''
      then (let prefix = take (length pattern - 2) pattern
            in path = prefix \<or> starts_with (prefix @ ''/'') path)
      else pattern = path)"

definition matches_page :: "promotion_display \<Rightarrow> string \<Rightarrow> bool" where
  "matches_page d path \<longleftrightarrow> dp_pages d = [] \<or> list_ex (page_matches path) (dp_pages d)"

definition matches_device :: "promotion_display \<Rightarrow> string \<Rightarrow> bool" where
  "matches_device d device \<longleftrightarrow> device \<in> set (dp_device_targets d)"

section \<open>The lifecycle as a status machine\<close>

datatype promotion_call =
    PrActivate | PrPause | PrArchive | PrSchedule instant "instant option" | PrExpire

fun promotion_act :: "instant \<Rightarrow> promotion_call \<Rightarrow> promotion \<Rightarrow> promotion result" where
  "promotion_act now PrActivate p = promotion_activate now p"
| "promotion_act now PrPause p = promotion_pause now p"
| "promotion_act now PrArchive p = promotion_archive now p"
| "promotion_act now (PrSchedule s e) p = promotion_schedule now s e p"
| "promotion_act now PrExpire p = rbind (expire_if_window_passed now p) (\<lambda>r. Inr (snd r))"

definition promotion_next :: "promotion_status \<Rightarrow> promotion_status list" where
  "promotion_next st = (case st of
      PsDraft \<Rightarrow> [PsActive, PsScheduled, PsArchived]
    | PsScheduled \<Rightarrow> [PsActive, PsPaused, PsExpired, PsArchived]
    | PsActive \<Rightarrow> [PsPaused, PsExpired, PsArchived]
    | PsPaused \<Rightarrow> [PsActive, PsScheduled, PsExpired, PsArchived]
    | PsExpired \<Rightarrow> [PsArchived]
    | PsArchived \<Rightarrow> [])"

definition promotion_inv :: "promotion \<Rightarrow> bool" where
  "promotion_inv p \<longleftrightarrow> (pr_surface p = SfDiscountCode \<longleftrightarrow> pr_coupon_id p \<noteq> None)
     \<and> window_ok (pr_starts_at p) (pr_ends_at p) \<and> pc_surface (pr_content p) = pr_surface p"

lemma enforce_Inr_iff: "enforce_invariants p = Inr q \<longleftrightarrow> q = p \<and> promotion_inv p"
  by (auto simp: enforce_invariants_def promotion_inv_def)

lemmas promotion_ops = promotion_activate_def promotion_pause_def promotion_archive_def
  promotion_schedule_def expire_if_window_passed_def set_status_def promotion_touch_def

lemma promotion_act_status:
  assumes "promotion_act now x p = Inr p'"
  shows "pr_status p' = pr_status p \<or> pr_status p' \<in> set (promotion_next (pr_status p))"
  using assms by (cases x; cases "pr_status p")
    (auto simp: promotion_ops rbind_Inr_iff promotion_next_def enforce_Inr_iff split: if_splits)

text \<open>A run is a list of calls, each with the time it is made at.\<close>

definition promotion_timed :: "instant \<times> promotion_call \<Rightarrow> promotion \<Rightarrow> promotion result" where
  "promotion_timed x = promotion_act (fst x) (snd x)"

interpretation promotion_machine: status_machine promotion_next pr_status promotion_timed
  by unfold_locales (use promotion_act_status in \<open>simp add: promotion_timed_def\<close>)

text \<open>An accepted call keeps the invariants and everything but status, window and update time.\<close>

lemma promotion_act_frame:
  assumes "promotion_act now x p = Inr p'" "promotion_inv p"
  shows "promotion_inv p' \<and> pr_surface p' = pr_surface p
    \<and> pr_coupon_id p' = pr_coupon_id p \<and> pr_discount_rule p' = pr_discount_rule p
    \<and> pr_content p' = pr_content p"
  using assms by (cases x)
    (auto simp: promotion_ops rbind_Inr_iff enforce_Inr_iff split: if_splits)

definition demo_promotion :: "uuid \<Rightarrow> promotion_status \<Rightarrow> promotion" where
  "demo_promotion i st = \<lparr>pr_id = i, pr_created_at = 0, pr_updated_at = 0, pr_tenant_id = 1,
     pr_store_id = 2, pr_name = ''Sale'', pr_surface = SfAutomatic, pr_status = st,
     pr_coupon_id = None, pr_discount_rule = Some (demo_rule KPercentage),
     pr_content = \<lparr>pc_surface = SfAutomatic, pc_payload = []\<rparr>, pr_translations = [],
     pr_priority = 0, pr_starts_at = Some 10, pr_ends_at = Some 20, pr_version = 1,
     pr_usage_limit_total = None, pr_usage_limit_per_customer = None, pr_created_by = None,
     pr_updated_by = None\<rparr>"

lemma demo_promotion_inv: "promotion_inv (demo_promotion i st)"
  by (simp add: promotion_inv_def demo_promotion_def window_ok_def)

text \<open>On a well-formed promotion the invariants refuse nothing but a new window that starts after the old end.\<close>

lemma promotion_calls_exact:
  assumes "promotion_inv p"
  shows "promotion_activate now p = (if pr_status p \<in> {PsDraft, PsPaused, PsScheduled}
      then Inr (p\<lparr>pr_status := PsActive, pr_updated_at := now\<rparr>) else Inl (PromotionStateError ''cannot activate promotion''))"
    "promotion_pause now p = (if pr_status p \<in> {PsActive, PsScheduled}
      then Inr (p\<lparr>pr_status := PsPaused, pr_updated_at := now\<rparr>) else Inl (PromotionStateError ''cannot pause promotion''))"
    "promotion_archive now p = Inr (if pr_status p = PsArchived then p else p\<lparr>pr_status := PsArchived, pr_updated_at := now\<rparr>)"
    "expire_if_window_passed now p =
      (if pr_status p \<in> {PsActive, PsScheduled, PsPaused} \<and> (\<exists>ends. pr_ends_at p = Some ends \<and> ends < now)
       then Inr (True, p\<lparr>pr_status := PsExpired, pr_updated_at := now\<rparr>) else Inr (False, p))"
    "promotion_schedule now starts ends p = Inr q \<longleftrightarrow> pr_status p \<in> {PsDraft, PsPaused}
      \<and> window_ok (Some starts) ends \<and> window_ok (Some starts) (pr_ends_at p)
      \<and> q = p\<lparr>pr_starts_at := Some starts, pr_ends_at := ends, pr_status := PsScheduled, pr_updated_at := now\<rparr>"
  using assms
  by (auto simp: promotion_ops enforce_invariants_def promotion_inv_def window_ok_def rbind_Inr_iff split: option.splits if_splits)

lemma promotion_schedule_late:
  assumes "promotion_inv p" "pr_status p = PsPaused" "pr_ends_at p = Some old" "old \<le> starts" "starts < ends"
  shows "promotion_schedule now starts (Some ends) p = Inl (ValueError ''ends_at must be strictly after starts_at'')"
  using assms by (auto simp: promotion_schedule_def enforce_invariants_def promotion_inv_def window_ok_def)

text \<open>
  C27: the life of a promotion. Whatever calls a well-formed promotion accepts, at whatever times, it stays well
  formed (a coupon exactly for code promotions, an end after its start, content of its own
  surface), keeps its surface, coupon and rule, and its status goes along the lifecycle table: an archived
  promotion stays archived and an expired one can only be archived. Wherever it stands, it can be activated
  exactly from draft, paused and scheduled, paused exactly from active and scheduled, always archived,
  scheduled exactly from draft and paused, and it expires exactly when it is active, scheduled or paused and its
  end has passed; each call sets its own status and the update time and, but for the window when scheduling, nothing else.
  A paused promotion whose old window ended before the new start cannot be rescheduled: the check on the first
  assignment still sees the old end.
\<close>

theorem promotion_lifecycle:
  assumes "promotion_inv p" "foldM promotion_timed xs p = Inr p'"
  shows "promotion_inv p' \<and> pr_surface p' = pr_surface p \<and> pr_coupon_id p' = pr_coupon_id p
    \<and> pr_discount_rule p' = pr_discount_rule p
    \<and> (\<exists>path. chain promotion_next (pr_status p) path \<and> pr_status p' = last (pr_status p # path))
    \<and> (pr_status p = PsArchived \<longrightarrow> pr_status p' = PsArchived)
    \<and> (pr_status p \<in> {PsExpired, PsArchived} \<longrightarrow> pr_status p' \<in> {PsExpired, PsArchived})
    \<and> (\<forall>now. promotion_activate now p' = (if pr_status p' \<in> {PsDraft, PsPaused, PsScheduled}
          then Inr (p'\<lparr>pr_status := PsActive, pr_updated_at := now\<rparr>) else Inl (PromotionStateError ''cannot activate promotion'')))
    \<and> (\<forall>now. promotion_pause now p' = (if pr_status p' \<in> {PsActive, PsScheduled}
          then Inr (p'\<lparr>pr_status := PsPaused, pr_updated_at := now\<rparr>) else Inl (PromotionStateError ''cannot pause promotion'')))
    \<and> (\<forall>now. promotion_archive now p'
          = Inr (if pr_status p' = PsArchived then p' else p'\<lparr>pr_status := PsArchived, pr_updated_at := now\<rparr>))
    \<and> (\<forall>now. expire_if_window_passed now p' =
         (if pr_status p' \<in> {PsActive, PsScheduled, PsPaused} \<and> (\<exists>ends. pr_ends_at p' = Some ends \<and> ends < now)
          then Inr (True, p'\<lparr>pr_status := PsExpired, pr_updated_at := now\<rparr>) else Inr (False, p')))
    \<and> (\<forall>now starts ends q. promotion_schedule now starts ends p' = Inr q \<longleftrightarrow> pr_status p' \<in> {PsDraft, PsPaused}
          \<and> window_ok (Some starts) ends \<and> window_ok (Some starts) (pr_ends_at p')
          \<and> q = p'\<lparr>pr_starts_at := Some starts, pr_ends_at := ends, pr_status := PsScheduled, pr_updated_at := now\<rparr>)
    \<and> (\<forall>now old starts ends. pr_status p' = PsPaused \<and> pr_ends_at p' = Some old \<and> old \<le> starts
         \<and> starts < ends \<longrightarrow>
         promotion_schedule now starts (Some ends) p'
           = Inl (ValueError ''ends_at must be strictly after starts_at''))"
proof -
  let ?I = "\<lambda>q. promotion_inv q \<and> pr_surface q = pr_surface p \<and> pr_coupon_id q = pr_coupon_id p
    \<and> pr_discount_rule q = pr_discount_rule p"
  have inv: "?I p'"
    by (rule foldM_invariant [where I = ?I, OF _ _ assms(2)])
      (use assms(1) promotion_act_frame in \<open>auto simp: promotion_timed_def\<close>)
  have arch: "pr_status p' = PsArchived" if "pr_status p = PsArchived"
    using promotion_machine.run_terminal [OF assms(2)] that by (simp add: promotion_next_def)
  have expd: "pr_status p' \<in> {PsExpired, PsArchived}" if "pr_status p \<in> {PsExpired, PsArchived}"
    by (rule promotion_machine.run_closed [OF assms(2) that]) (auto simp: promotion_next_def)
  show ?thesis
    by (intro conjI allI impI promotion_calls_exact promotion_machine.run_chain [OF assms(2)])
      (use inv arch expd promotion_schedule_late in blast)+
qed

theorem promotion_lifecycle_witness:
  "\<exists>p'. foldM promotion_timed [(5, PrActivate), (6, PrPause)] (demo_promotion 1 PsDraft) = Inr p'
     \<and> promotion_inv p'
     \<and> promotion_schedule 7 30 (Some 40) p'
         = Inl (ValueError ''ends_at must be strictly after starts_at'')
     \<and> promotion_activate 7 p' = Inr (p'\<lparr>pr_status := PsActive, pr_updated_at := 7\<rparr>)"
proof -
  have "\<exists>p'. foldM promotion_timed [(5, PrActivate), (6, PrPause)] (demo_promotion 1 PsDraft) = Inr p'
      \<and> pr_status p' = PsPaused \<and> pr_ends_at p' = Some 20"
    by (simp add: promotion_timed_def promotion_ops enforce_invariants_def demo_promotion_def window_ok_def)
  then obtain p' where p': "foldM promotion_timed [(5, PrActivate), (6, PrPause)] (demo_promotion 1 PsDraft) = Inr p'"
    "pr_status p' = PsPaused" "pr_ends_at p' = Some 20" by blast
  from promotion_lifecycle [OF demo_promotion_inv p'(1)] p' show ?thesis by simp
qed

end
