(* ===== verification/Discount_Calculator.thy ===== *)
theory Discount_Calculator
  imports Promotion "HOL-Library.List_Lexorder" "HOL-Library.Char_ord"
begin

text \<open>
  \<open>src/core/services/discount_calculator.py\<close>: stacking the discounts of several promotions. At
  most one code applies, automatic promotions add up over what is left of the subtotal, and of
  several multibuys over one catalogue scope only the best runs. A malformed identifier in a
  target makes the whole calculation raise.
\<close>

type_synonym targets_map = "(uuid \<rightharpoonup> promotion_target list) option"

definition targets_of :: "targets_map \<Rightarrow> uuid \<Rightarrow> promotion_target list" where
  "targets_of tm i = (case tm of None \<Rightarrow> [] | Some m \<Rightarrow> (case m i of None \<Rightarrow> [] | Some ts \<Rightarrow> ts))"

section \<open>Line filters\<close>

record filter_sets =
  fs_buy_pids :: "uuid list"
  fs_buy_cids :: "uuid list"
  fs_get_pids :: "uuid list"
  fs_get_cids :: "uuid list"
  fs_has_buy :: bool
  fs_has_get :: bool

definition add_target_sets :: "promotion_target \<Rightarrow> filter_sets \<Rightarrow> filter_sets result" where
  "add_target_sets t fs =
     (if tg_role t = Some ''buy_set'' then
        (let fs = fs\<lparr>fs_has_buy := True\<rparr> in
         case tg_target_kind t of
           TkProduct \<Rightarrow> rbind (mapM parse_uuid (tv_product_ids (tg_target_value t))) (\<lambda>ids.
             Inr (fs\<lparr>fs_buy_pids := fs_buy_pids fs @ ids\<rparr>))
         | TkCategory \<Rightarrow> rbind (mapM parse_uuid (tv_category_ids (tg_target_value t))) (\<lambda>ids.
             Inr (fs\<lparr>fs_buy_cids := fs_buy_cids fs @ ids\<rparr>))
         | _ \<Rightarrow> Inr fs)
      else if tg_role t = Some ''get_set'' then
        (let fs = fs\<lparr>fs_has_get := True\<rparr> in
         case tg_target_kind t of
           TkProduct \<Rightarrow> rbind (mapM parse_uuid (tv_product_ids (tg_target_value t))) (\<lambda>ids.
             Inr (fs\<lparr>fs_get_pids := fs_get_pids fs @ ids\<rparr>))
         | TkCategory \<Rightarrow> rbind (mapM parse_uuid (tv_category_ids (tg_target_value t))) (\<lambda>ids.
             Inr (fs\<lparr>fs_get_cids := fs_get_cids fs @ ids\<rparr>))
         | _ \<Rightarrow> Inr fs)
      else Inr fs)"

definition make_filter :: "uuid list \<Rightarrow> uuid list \<Rightarrow> line_filter" where
  "make_filter pids cids = (\<lambda>l.
     if pids \<noteq> [] \<and> cl_product_id l \<in> set pids then True
     else if cids \<noteq> [] \<and> (case cl_category_id l of None \<Rightarrow> False | Some c \<Rightarrow> c \<in> set cids) then True
     else False)"

definition build_line_filters ::
    "promotion \<Rightarrow> targets_map \<Rightarrow> (line_filter option \<times> line_filter option) result" where
  "build_line_filters p tm =
     (if targets_of tm (pr_id p) = [] then Inr (None, None)
      else rbind (foldM add_target_sets (targets_of tm (pr_id p))
             \<lparr>fs_buy_pids = [], fs_buy_cids = [], fs_get_pids = [], fs_get_cids = [],
              fs_has_buy = False, fs_has_get = False\<rparr>) (\<lambda>fs.
        Inr (if fs_has_buy fs then Some (make_filter (fs_buy_pids fs) (fs_buy_cids fs)) else None,
             if fs_has_get fs then Some (make_filter (fs_get_pids fs) (fs_get_cids fs)) else None)))"

text \<open>The per-leg id lists, one pair per leg.\<close>

definition add_leg_target ::
    "promotion_target \<Rightarrow> (uuid list \<times> uuid list) list \<Rightarrow> (uuid list \<times> uuid list) list result" where
  "add_leg_target t legs = (case leg_index (tg_role t) of
      None \<Rightarrow> Inr legs
    | Some i \<Rightarrow>
        if length legs \<le> i then Inr legs
        else (case tg_target_kind t of
            TkProduct \<Rightarrow> rbind (mapM parse_uuid (tv_product_ids (tg_target_value t))) (\<lambda>ids.
              Inr (legs[i := (fst (legs ! i) @ ids, snd (legs ! i))]))
          | TkCategory \<Rightarrow> rbind (mapM parse_uuid (tv_category_ids (tg_target_value t))) (\<lambda>ids.
              Inr (legs[i := (fst (legs ! i), snd (legs ! i) @ ids)]))
          | _ \<Rightarrow> Inr legs))"

definition build_leg_filters ::
    "promotion \<Rightarrow> targets_map \<Rightarrow> line_filter option list option result" where
  "build_leg_filters p tm = (case pr_discount_rule p of
      None \<Rightarrow> Inr None
    | Some r \<Rightarrow>
        if ru_kind r \<noteq> KBundle then Inr None
        else rbind (foldM add_leg_target (targets_of tm (pr_id p))
               (replicate (length (ru_bundle_legs r)) ([], []))) (\<lambda>legs.
          Inr (Some (map (\<lambda>(ps, cs). if ps \<noteq> [] \<or> cs \<noteq> [] then Some (make_filter ps cs) else None)
            legs))))"

section \<open>Results\<close>

datatype reject_reason =
    NoDiscountRule
  | NoMath promotion_surface
  | NoSavings explanation
  | CodeOutbid
  | TierOutbid

type_synonym rejection = "uuid \<times> reject_reason"

record discount_total =
  to_code_discount_cents :: int
  to_automatic_discount_cents :: int
  to_free_shipping :: bool
  to_applied :: "uuid list"
  to_rejected :: "rejection list"
  to_by_promotion :: "(uuid \<times> int) list"

definition total_discount_cents :: "discount_total \<Rightarrow> int" where
  "total_discount_cents t = to_code_discount_cents t + to_automatic_discount_cents t"

section \<open>Evaluation of one promotion\<close>

definition evaluate_promotion ::
    "targets_map \<Rightarrow> discount_context \<Rightarrow> promotion \<Rightarrow> discount_result result" where
  "evaluate_promotion tm ctx p =
     rbind (build_line_filters p tm) (\<lambda>(bf, gf).
     rbind (build_leg_filters p tm) (\<lambda>lf.
       Inr (rule_calculate (the (pr_discount_rule p)) ctx bf gf lf)))"

section \<open>Splitting by surface\<close>

fun split_promotions ::
    "promotion list \<Rightarrow> promotion list \<times> promotion list \<times> rejection list" where
  "split_promotions [] = ([], [], [])"
| "split_promotions (p # ps) = (case split_promotions ps of (codes, autos, rej) \<Rightarrow>
     if pr_discount_rule p = None then (codes, autos, (pr_id p, NoDiscountRule) # rej)
     else if pr_surface p = SfDiscountCode then (p # codes, autos, rej)
     else if pr_surface p = SfAutomatic then (codes, p # autos, rej)
     else (codes, autos, (pr_id p, NoMath (pr_surface p)) # rej))"

section \<open>Codes\<close>

fun best_code ::
    "targets_map \<Rightarrow> discount_context \<Rightarrow> promotion list \<Rightarrow> (promotion \<times> discount_result) option
      \<Rightarrow> (promotion \<times> discount_result) option result" where
  "best_code tm ctx [] best = Inr best"
| "best_code tm ctx (p # ps) best =
     rbind (evaluate_promotion tm ctx p) (\<lambda>r.
       best_code tm ctx ps
         (case best of
            None \<Rightarrow> Some (p, r)
          | Some (bp, br) \<Rightarrow> if dr_discount_cents br < dr_discount_cents r then Some (p, r) else best))"

record code_outcome =
  co_discount :: int
  co_applied :: "uuid list"
  co_rejected :: "rejection list"
  co_by_promotion :: "(uuid \<times> int) list"
  co_free_shipping :: bool

definition no_code :: code_outcome where
  "no_code = \<lparr>co_discount = 0, co_applied = [], co_rejected = [], co_by_promotion = [],
     co_free_shipping = False\<rparr>"

definition code_stage ::
    "targets_map \<Rightarrow> discount_context \<Rightarrow> promotion list \<Rightarrow> code_outcome result" where
  "code_stage tm ctx codes =
     rbind (best_code tm ctx codes None) (\<lambda>best. Inr (case best of
        None \<Rightarrow> no_code
      | Some (bp, br) \<Rightarrow>
          (let others = map (\<lambda>o'. (pr_id o', CodeOutbid)) (filter (\<lambda>o'. pr_id o' \<noteq> pr_id bp) codes)
           in if dr_discount_cents br = 0 \<and> \<not> dr_free_shipping br
              then no_code\<lparr>co_rejected := (pr_id bp, NoSavings (dr_explanation br)) # others\<rparr>
              else \<lparr>co_discount = dr_discount_cents br, co_applied = [pr_id bp], co_rejected = others,
                    co_by_promotion = [(pr_id bp, dr_discount_cents br)],
                    co_free_shipping = dr_free_shipping br\<rparr>)))"

section \<open>Rival multibuys\<close>

fun join_with_comma :: "string list \<Rightarrow> string" where
  "join_with_comma [] = []"
| "join_with_comma [x] = x"
| "join_with_comma (x # xs) = x @ '','' @ join_with_comma xs"

definition sorted_set :: "string list \<Rightarrow> string list" where
  "sorted_set xs = sort (remdups xs)"

definition multibuy_scope_key :: "promotion \<Rightarrow> targets_map \<Rightarrow> string option" where
  "multibuy_scope_key p tm = (case pr_discount_rule p of
      None \<Rightarrow> None
    | Some r \<Rightarrow>
        if ru_kind r \<noteq> KMultibuy then None
        else (let buys = filter (\<lambda>t. tg_role t = Some ''buy_set'') (targets_of tm (pr_id p));
                  pids = concat (map (\<lambda>t. if tg_target_kind t = TkProduct
                           then tv_product_ids (tg_target_value t) else []) buys);
                  cids = concat (map (\<lambda>t. if tg_target_kind t = TkCategory
                           then tv_category_ids (tg_target_value t) else []) buys)
              in Some (''p:'' @ join_with_comma (sorted_set pids)
                       @ ''|c:'' @ join_with_comma (sorted_set cids))))"

text \<open>\<open>by_scope.setdefault(key, []).append(promo)\<close>, scopes in order of first appearance.\<close>

fun add_to_scope ::
    "string \<Rightarrow> promotion \<Rightarrow> (string \<times> promotion list) list \<Rightarrow> (string \<times> promotion list) list" where
  "add_to_scope k p [] = [(k, [p])]"
| "add_to_scope k p ((k', ps) # rest) =
     (if k = k' then (k', ps @ [p]) # rest else (k', ps) # add_to_scope k p rest)"

fun group_scopes ::
    "targets_map \<Rightarrow> promotion list \<Rightarrow> (string \<times> promotion list) list \<times> uuid list
      \<Rightarrow> (string \<times> promotion list) list \<times> uuid list" where
  "group_scopes tm [] acc = acc"
| "group_scopes tm (p # ps) (groups, pass) =
     group_scopes tm ps (case multibuy_scope_key p tm of
        None \<Rightarrow> (groups, pr_id p # pass)
      | Some k \<Rightarrow> (add_to_scope k p groups, pass))"

fun best_of_group ::
    "targets_map \<Rightarrow> discount_context \<Rightarrow> promotion list \<Rightarrow> promotion option \<times> int
      \<Rightarrow> (promotion option \<times> int) result" where
  "best_of_group tm ctx [] best = Inr best"
| "best_of_group tm ctx (p # ps) best =
     rbind (build_line_filters p tm) (\<lambda>(bf, gf).
       let r = rule_calculate (the (pr_discount_rule p)) ctx bf gf None
       in best_of_group tm ctx ps
            (if snd best < dr_discount_cents r then (Some p, dr_discount_cents r) else best))"

text \<open>The winners of the scopes and the losers with their reason.\<close>

definition settle_group ::
    "targets_map \<Rightarrow> discount_context \<Rightarrow> string \<times> promotion list \<Rightarrow> uuid list \<times> rejection list
      \<Rightarrow> (uuid list \<times> rejection list) result" where
  "settle_group tm ctx g acc = (case snd g of
      [p] \<Rightarrow> Inr (pr_id p # fst acc, snd acc)
    | ps \<Rightarrow>
        rbind (best_of_group tm ctx ps (None, -1)) (\<lambda>best.
          case fst best of
            None \<Rightarrow> Inl (AssertionError ''best is not None'')
          | Some b \<Rightarrow> Inr (pr_id b # fst acc,
              snd acc @ map (\<lambda>p. (pr_id p, TierOutbid)) (filter (\<lambda>p. pr_id p \<noteq> pr_id b) ps))))"

definition resolve_rivalry ::
    "promotion list \<Rightarrow> targets_map \<Rightarrow> discount_context \<Rightarrow> (promotion list \<times> rejection list) result" where
  "resolve_rivalry autos tm ctx =
     (let (groups, pass) = group_scopes tm autos ([], [])
      in if list_all (\<lambda>g. length (snd g) = 1) groups then Inr (autos, [])
         else rbind (foldM (settle_group tm ctx) groups ([], [])) (\<lambda>(winners, losers).
           Inr (filter (\<lambda>p. pr_id p \<in> set winners \<or> pr_id p \<in> set pass) autos, losers)))"

section \<open>Automatic discounts\<close>

record auto_state =
  au_running :: int
  au_applied :: "uuid list"
  au_rejected :: "rejection list"
  au_by_promotion :: "(uuid \<times> int) list"
  au_ids :: "uuid list"
  au_free_shipping :: bool

definition auto_step ::
    "targets_map \<Rightarrow> discount_context \<Rightarrow> int \<Rightarrow> promotion \<Rightarrow> auto_state \<Rightarrow> auto_state result" where
  "auto_step tm ctx code_discount p st =
     (let remaining = max 0 (dc_subtotal_cents ctx - code_discount - au_running st)
      in rbind (evaluate_promotion tm (ctx\<lparr>dc_subtotal_cents := remaining\<rparr>) p) (\<lambda>r.
        let st1 = (if dr_free_shipping r then st\<lparr>au_free_shipping := True\<rparr> else st)
        in if dr_discount_cents r \<le> 0 \<and> \<not> dr_free_shipping r
           then Inr (st1\<lparr>au_rejected := au_rejected st1 @ [(pr_id p, NoSavings (dr_explanation r))]\<rparr>)
           else Inr (st1\<lparr>au_running := au_running st1 + dr_discount_cents r,
             au_applied := au_applied st1 @ [pr_id p],
             au_by_promotion := (if 0 < dr_discount_cents r
               then AList.update (pr_id p) (dr_discount_cents r) (au_by_promotion st1)
               else au_by_promotion st1),
             au_ids := au_ids st1 @ [pr_id p]\<rparr>)))"

text \<open>The unwinding of an overflow from the last automatic promotion backwards.\<close>

fun trim_overflow :: "uuid list \<Rightarrow> int \<Rightarrow> (uuid \<times> int) list \<Rightarrow> (uuid \<times> int) list" where
  "trim_overflow [] overflow by = by"
| "trim_overflow (i # is) overflow by =
     (if overflow \<le> 0 then by
      else (let share = (case map_of by i of None \<Rightarrow> 0 | Some n \<Rightarrow> n);
                taken = min share overflow
            in trim_overflow is (overflow - taken) (AList.update i (share - taken) by)))"

definition auto_start :: "code_outcome \<Rightarrow> rejection list \<Rightarrow> auto_state" where
  "auto_start co rejected = \<lparr>au_running = 0, au_applied = co_applied co, au_rejected = rejected,
     au_by_promotion = co_by_promotion co, au_ids = [], au_free_shipping = co_free_shipping co\<rparr>"

text \<open>The floor at the subtotal and the result.\<close>

definition finish_total :: "discount_context \<Rightarrow> int \<Rightarrow> auto_state \<Rightarrow> discount_total" where
  "finish_total ctx code_discount st =
     (let total = code_discount + au_running st;
          overflow = total - dc_subtotal_cents ctx
      in \<lparr>to_code_discount_cents = code_discount,
          to_automatic_discount_cents =
            (if 0 < overflow then max 0 (au_running st - overflow) else au_running st),
          to_free_shipping = au_free_shipping st, to_applied = au_applied st,
          to_rejected = au_rejected st,
          to_by_promotion = (if 0 < overflow
            then trim_overflow (rev (au_ids st)) overflow (au_by_promotion st)
            else au_by_promotion st)\<rparr>)"

definition calculate_total ::
    "promotion list \<Rightarrow> discount_context \<Rightarrow> targets_map \<Rightarrow> discount_total result" where
  "calculate_total promotions ctx tm =
     (let (codes, autos, rejected) = split_promotions promotions in
      rbind (code_stage tm ctx codes) (\<lambda>co.
      rbind (resolve_rivalry autos tm ctx) (\<lambda>(kept, losers).
      rbind (foldM (auto_step tm ctx (co_discount co)) kept
               (auto_start co (rejected @ co_rejected co @ losers))) (\<lambda>st.
        Inr (finish_total ctx (co_discount co) st)))))"

definition calculate_one :: "discount_rule \<Rightarrow> discount_context \<Rightarrow> discount_result" where
  "calculate_one r ctx =
     (if ru_kind r = KFreeShipping
      then \<lparr>dr_discount_cents = 0, dr_free_shipping = True, dr_affected = [],
            dr_explanation = FreeShippingOffer\<rparr>
      else rule_calculate r ctx None None None)"

section \<open>One automatic promotion\<close>

lemma evaluate_range:
  assumes "evaluate_promotion tm ctx p = Inr r" "0 \<le> dc_subtotal_cents ctx"
  shows "0 \<le> dr_discount_cents r \<and> dr_discount_cents r \<le> dc_subtotal_cents ctx"
proof -
  obtain bf gf lf where r: "r = rule_calculate (the (pr_discount_rule p)) ctx bf gf lf"
    using assms(1) by (auto simp: evaluate_promotion_def rbind_Inr_iff)
  show ?thesis unfolding r
    using rule_calculate_capped [of "the (pr_discount_rule p)" ctx bf gf lf]
    by (elim disjE exE) (simp_all add: rule_cap_bounds(1,2) [OF assms(2)] assms(2))
qed

lemma alist_update_new: "k \<notin> fst ` set al \<Longrightarrow> AList.update k v al = al @ [(k, v)]"
  by (induction al) auto

text \<open>What one step does, told by the amount \<open>d\<close> it adds.\<close>

lemma auto_step_Inr:
  assumes step: "auto_step tm ctx c p st = Inr st'"
    and pos: "0 \<le> c + au_running st" "c + au_running st \<le> dc_subtotal_cents ctx"
  obtains d where "au_running st' = au_running st + d" "0 \<le> d"
    "c + au_running st' \<le> dc_subtotal_cents ctx"
    "(d = 0 \<and> au_applied st' = au_applied st \<and> au_by_promotion st' = au_by_promotion st
      \<and> fst ` set (au_rejected st') = fst ` set (au_rejected st) \<union> {pr_id p})
     \<or> (au_applied st' = au_applied st @ [pr_id p] \<and> au_rejected st' = au_rejected st
        \<and> au_by_promotion st' = (if 0 < d then AList.update (pr_id p) d (au_by_promotion st)
                                 else au_by_promotion st))"
proof -
  let ?ctx = "ctx\<lparr>dc_subtotal_cents := max 0 (dc_subtotal_cents ctx - c - au_running st)\<rparr>"
  obtain r where r: "evaluate_promotion tm ?ctx p = Inr r"
    using step by (auto simp: auto_step_def Let_def rbind_Inr_iff)
  have b: "0 \<le> dr_discount_cents r" "dr_discount_cents r \<le> dc_subtotal_cents ctx - c - au_running st"
    using evaluate_range [OF r] pos by auto
  show ?thesis
  proof (cases "dr_discount_cents r \<le> 0 \<and> \<not> dr_free_shipping r")
    case True
    with step r pos show ?thesis by (intro that [of 0]) (auto simp: auto_step_def Let_def)
  next
    case False
    with step r b show ?thesis
      by (intro that [of "dr_discount_cents r"]) (auto simp: auto_step_def Let_def)
  qed
qed

text \<open>The loop over the automatic promotions.\<close>

lemma auto_loop:
  assumes "foldM (auto_step tm ctx c) ps st = Inr st'"
    and "0 \<le> au_running st" "0 \<le> c" "c + au_running st \<le> dc_subtotal_cents ctx"
    and "distinct (map pr_id ps)" "set (map pr_id ps) \<inter> set (au_applied st) = {}"
    and "fst ` set (au_by_promotion st) \<subseteq> set (au_applied st)"
    and "distinct (map fst (au_by_promotion st))"
  shows "0 \<le> au_running st' \<and> c + au_running st' \<le> dc_subtotal_cents ctx
    \<and> sum_list (map snd (au_by_promotion st')) - au_running st'
        = sum_list (map snd (au_by_promotion st)) - au_running st
    \<and> distinct (map fst (au_by_promotion st')) \<and> fst ` set (au_by_promotion st') \<subseteq> set (au_applied st')
    \<and> (\<exists>ap rj. au_applied st' = au_applied st @ ap \<and> distinct ap
        \<and> fst ` set (au_rejected st') = fst ` set (au_rejected st) \<union> rj
        \<and> set ap \<union> rj = set (map pr_id ps) \<and> set ap \<inter> rj = {})"
  using assms
proof (induction ps arbitrary: st)
  case Nil
  then show ?case by auto
next
  case (Cons p ps)
  obtain st1 where s1: "auto_step tm ctx c p st = Inr st1"
    and s2: "foldM (auto_step tm ctx c) ps st1 = Inr st'"
    using Cons.prems(1) by (auto simp: rbind_Inr_iff)
  have pre: "0 \<le> c + au_running st" using Cons.prems(2,3) by simp
  obtain d where d: "au_running st1 = au_running st + d" "0 \<le> d"
    "c + au_running st1 \<le> dc_subtotal_cents ctx"
    "(d = 0 \<and> au_applied st1 = au_applied st \<and> au_by_promotion st1 = au_by_promotion st
      \<and> fst ` set (au_rejected st1) = fst ` set (au_rejected st) \<union> {pr_id p})
     \<or> (au_applied st1 = au_applied st @ [pr_id p] \<and> au_rejected st1 = au_rejected st
        \<and> au_by_promotion st1 = (if 0 < d then AList.update (pr_id p) d (au_by_promotion st)
                                 else au_by_promotion st))"
    by (rule auto_step_Inr [OF s1 pre Cons.prems(4)])
  define ids where "ids = pr_id ` set ps"
  have ids: "pr_id p \<notin> ids" "ids \<inter> set (au_applied st) = {}" "pr_id p \<notin> set (au_applied st)"
    "distinct (map pr_id ps)"
    using Cons.prems(5,6) by (auto simp: ids_def)
  have new: "pr_id p \<notin> fst ` set (au_by_promotion st)" using Cons.prems(6,7) by auto
  have by1: "sum_list (map snd (au_by_promotion st1)) = sum_list (map snd (au_by_promotion st)) + d
      \<and> distinct (map fst (au_by_promotion st1)) \<and> fst ` set (au_by_promotion st1) \<subseteq> set (au_applied st1)"
    using d(4)
  proof (elim disjE conjE)
    assume "d = 0" "au_applied st1 = au_applied st" "au_by_promotion st1 = au_by_promotion st"
    then show ?thesis using Cons.prems(7,8) by simp
  next
    assume a: "au_applied st1 = au_applied st @ [pr_id p]"
      and b: "au_by_promotion st1 = (if 0 < d then AList.update (pr_id p) d (au_by_promotion st)
                                     else au_by_promotion st)"
    show ?thesis
    proof (cases "0 < d")
      case True
      then have "au_by_promotion st1 = au_by_promotion st @ [(pr_id p, d)]"
        using b new by (simp add: alist_update_new)
      then show ?thesis using a Cons.prems(7,8) new by auto
    next
      case False
      then show ?thesis using a b d(2) Cons.prems(7,8) by auto
    qed
  qed
  have ap1: "set (map pr_id ps) \<inter> set (au_applied st1) = {}"
    using d(4) ids by (auto simp: ids_def [symmetric])
  have "0 \<le> au_running st1" using d(1,2) Cons.prems(2) by simp
  from Cons.IH [OF s2 this Cons.prems(3) d(3) ids(4) ap1] by1
  obtain ap rj where ih: "0 \<le> au_running st'" "c + au_running st' \<le> dc_subtotal_cents ctx"
    "sum_list (map snd (au_by_promotion st')) - au_running st'
        = sum_list (map snd (au_by_promotion st1)) - au_running st1"
    "distinct (map fst (au_by_promotion st'))" "fst ` set (au_by_promotion st') \<subseteq> set (au_applied st')"
    "au_applied st' = au_applied st1 @ ap" "distinct ap"
    "fst ` set (au_rejected st') = fst ` set (au_rejected st1) \<union> rj"
    "set ap \<union> rj = ids" "set ap \<inter> rj = {}" unfolding ids_def by auto
  have p: "pr_id p \<notin> set ap" "pr_id p \<notin> rj" using ih(9) ids(1) by auto
  have all: "set (map pr_id (p # ps)) = insert (pr_id p) ids" by (simp add: ids_def)
  from d(4) show ?case
  proof
    assume a: "d = 0 \<and> au_applied st1 = au_applied st \<and> au_by_promotion st1 = au_by_promotion st
      \<and> fst ` set (au_rejected st1) = fst ` set (au_rejected st) \<union> {pr_id p}"
    show ?thesis unfolding all
      by (intro conjI exI [of _ ap] exI [of _ "insert (pr_id p) rj"])
        (use ih d(1) by1 a p in auto)
  next
    assume a: "au_applied st1 = au_applied st @ [pr_id p] \<and> au_rejected st1 = au_rejected st
        \<and> au_by_promotion st1 = (if 0 < d then AList.update (pr_id p) d (au_by_promotion st)
                                 else au_by_promotion st)"
    show ?thesis unfolding all
      by (intro conjI exI [of _ "pr_id p # ap"] exI [of _ rj])
        (use ih(1-5) d(1) by1 in simp_all,
         use ih(6-10) a p in auto)
  qed
qed

lemma auto_step_appends:
  assumes "auto_step tm ctx c p st = Inr st1" "pr_id p \<notin> fst ` set (au_by_promotion st)"
  obtains xs where "au_by_promotion st1 = au_by_promotion st @ xs" "fst ` set xs \<subseteq> {pr_id p}"
proof -
  have "au_by_promotion st1 = au_by_promotion st \<or> (\<exists>d. au_by_promotion st1 = au_by_promotion st @ [(pr_id p, d)])"
    using assms by (auto simp: auto_step_def rbind_Inr_iff Let_def alist_update_new split: if_splits)
  then show ?thesis using that [of "[]"] that by fastforce
qed

lemma disjoint_step: "p \<notin> I \<Longrightarrow> I \<inter> K = {} \<Longrightarrow> X \<subseteq> {p} \<Longrightarrow> I \<inter> (K \<union> X) = {}" by blast

lemma insert_step: "X \<subseteq> {p} \<Longrightarrow> Y \<subseteq> I \<Longrightarrow> X \<union> Y \<subseteq> insert p I" by blast

lemma auto_loop_appends:
  assumes "foldM (auto_step tm ctx c) ps st = Inr st'" "distinct (map pr_id ps)"
    and "pr_id ` set ps \<inter> fst ` set (au_by_promotion st) = {}"
  shows "\<exists>xs. au_by_promotion st' = au_by_promotion st @ xs \<and> fst ` set xs \<subseteq> pr_id ` set ps"
  using assms
proof (induction ps arbitrary: st)
  case (Cons p ps)
  obtain st1 where s1: "auto_step tm ctx c p st = Inr st1" and s2: "foldM (auto_step tm ctx c) ps st1 = Inr st'"
    using Cons.prems(1) by (auto simp: rbind_Inr_iff)
  define I K where "I = pr_id ` set ps" and "K = fst ` set (au_by_promotion st)"
  have pre: "pr_id p \<notin> I" "pr_id p \<notin> K" "I \<inter> K = {}" "distinct (map pr_id ps)"
    using Cons.prems(2,3) by (simp_all add: I_def K_def)
  obtain x where x: "au_by_promotion st1 = au_by_promotion st @ x" "fst ` set x \<subseteq> {pr_id p}"
    by (rule auto_step_appends [OF s1 pre(2) [unfolded K_def]])
  have k1: "fst ` set (au_by_promotion st1) = K \<union> fst ` set x" using x(1) by (simp add: K_def image_Un)
  have "pr_id ` set ps \<inter> fst ` set (au_by_promotion st1) = {}"
    unfolding k1 I_def [symmetric] by (rule disjoint_step [OF pre(1,3) x(2)])
  from Cons.IH [OF s2 pre(4) this] obtain ys where
    ys: "au_by_promotion st' = au_by_promotion st1 @ ys" "fst ` set ys \<subseteq> pr_id ` set ps" by (elim exE conjE) (rule that)
  have "au_by_promotion st' = au_by_promotion st @ (x @ ys)" using x(1) ys(1) by simp
  moreover have "fst ` set (x @ ys) \<subseteq> insert (pr_id p) I"
    using x(2) ys(2) unfolding I_def [symmetric] set_append image_Un by (rule insert_step)
  ultimately have "\<exists>xs. au_by_promotion st' = au_by_promotion st @ xs \<and> fst ` set xs \<subseteq> insert (pr_id p) I" by (intro exI conjI)
  then show ?case by (simp add: I_def)
qed simp

section \<open>Splitting and codes\<close>

lemma split_promotions_spec:
  "split_promotions ps = (codes, autos, rej) \<Longrightarrow>
    codes = filter (\<lambda>p. pr_discount_rule p \<noteq> None \<and> pr_surface p = SfDiscountCode) ps
    \<and> autos = filter (\<lambda>p. pr_discount_rule p \<noteq> None \<and> pr_surface p = SfAutomatic) ps
    \<and> fst ` set rej = pr_id ` set (filter (\<lambda>p. pr_discount_rule p = None
        \<or> pr_surface p \<notin> {SfDiscountCode, SfAutomatic}) ps)"
proof (induction ps arbitrary: codes autos rej)
  case (Cons p ps)
  obtain c a r where s: "split_promotions ps = (c, a, r)" by (cases "split_promotions ps") auto
  note ih = Cons.IH [OF s]
  consider (norule) "pr_discount_rule p = None" | (code) "pr_discount_rule p \<noteq> None" "pr_surface p = SfDiscountCode"
    | (auto) "pr_discount_rule p \<noteq> None" "pr_surface p = SfAutomatic"
    | (other) "pr_discount_rule p \<noteq> None" "pr_surface p \<notin> {SfDiscountCode, SfAutomatic}" by blast
  then show ?case
  proof cases
    case norule
    then have "codes = c" "autos = a" "rej = (pr_id p, NoDiscountRule) # r" using Cons.prems s by simp_all
    with norule ih show ?thesis by simp
  next
    case code
    then have "codes = p # c" "autos = a" "rej = r" using Cons.prems s by (simp_all del: not_None_eq)
    with code ih show ?thesis by (simp del: not_None_eq)
  next
    case auto
    then have "codes = c" "autos = p # a" "rej = r" using Cons.prems s by (simp_all del: not_None_eq)
    with auto ih show ?thesis by (simp del: not_None_eq)
  next
    case other
    then have "codes = c" "autos = a" "rej = (pr_id p, NoMath (pr_surface p)) # r"
      using Cons.prems s by (simp_all del: not_None_eq)
    with other ih show ?thesis by (simp del: not_None_eq)
  qed
qed simp

lemma best_code_spec:
  assumes "best_code tm ctx ps best = Inr best'"
  shows "(case best' of None \<Rightarrow> best = None \<and> ps = []
    | Some (bp, br) \<Rightarrow> (best = Some (bp, br) \<or> (bp \<in> set ps \<and> evaluate_promotion tm ctx bp = Inr br))
        \<and> (\<forall>q r. best = Some (q, r) \<longrightarrow> dr_discount_cents r \<le> dr_discount_cents br)
        \<and> (\<forall>q\<in>set ps. \<exists>r. evaluate_promotion tm ctx q = Inr r \<and> dr_discount_cents r \<le> dr_discount_cents br))"
  using assms
proof (induction ps arbitrary: best)
  case Nil
  then show ?case by (auto split: option.splits)
next
  case (Cons p ps)
  obtain r where r: "evaluate_promotion tm ctx p = Inr r"
    and rest: "best_code tm ctx ps (case best of None \<Rightarrow> Some (p, r)
      | Some (bp, br) \<Rightarrow> if dr_discount_cents br < dr_discount_cents r then Some (p, r) else best) = Inr best'"
    using Cons.prems by (auto simp: rbind_Inr_iff)
  let ?b1 = "case best of None \<Rightarrow> Some (p, r)
      | Some (bp, br) \<Rightarrow> if dr_discount_cents br < dr_discount_cents r then Some (p, r) else best"
  obtain q1 r1 where b1: "?b1 = Some (q1, r1)" "dr_discount_cents r \<le> dr_discount_cents r1"
    "best = Some (q1, r1) \<or> (q1 = p \<and> r1 = r)"
    "\<And>q r'. best = Some (q, r') \<Longrightarrow> dr_discount_cents r' \<le> dr_discount_cents r1"
  proof (cases best)
    case None
    then show ?thesis using that [of p r] by simp
  next
    case (Some b)
    obtain q2 r2 where b: "b = (q2, r2)" by (cases b)
    show ?thesis
    proof (cases "dr_discount_cents r2 < dr_discount_cents r")
      case True
      then show ?thesis using that [of p r] Some b by simp
    next
      case False
      then show ?thesis using that [of q2 r2] Some b by simp
    qed
  qed
  obtain bp br where best': "best' = Some (bp, br)"
    using Cons.IH [OF rest] b1(1) by (cases best') auto
  note ih = Cons.IH [OF rest, unfolded best' option.case prod.case b1(1)]
  have le: "dr_discount_cents r1 \<le> dr_discount_cents br" using ih by simp
  have "best = Some (bp, br) \<or> (bp \<in> set (p # ps) \<and> evaluate_promotion tm ctx bp = Inr br)"
    using ih b1(3) r by auto
  moreover have "dr_discount_cents r' \<le> dr_discount_cents br" if "best = Some (q, r')" for q r'
    using b1(4) [OF that] le by simp
  moreover have "\<exists>r'. evaluate_promotion tm ctx q = Inr r' \<and> dr_discount_cents r' \<le> dr_discount_cents br"
    if "q \<in> set (p # ps)" for q
    using that ih r b1(2) le by (cases "q = p") auto
  ultimately show ?case by (simp add: best')
qed

lemma code_stage_spec:
  assumes "code_stage tm ctx codes = Inr co" "0 \<le> dc_subtotal_cents ctx" "distinct (map pr_id codes)"
  shows "0 \<le> co_discount co \<and> co_discount co \<le> dc_subtotal_cents ctx
    \<and> sum_list (map snd (co_by_promotion co)) = co_discount co
    \<and> map fst (co_by_promotion co) = co_applied co
    \<and> set (co_applied co) \<inter> fst ` set (co_rejected co) = {}
    \<and> set (co_applied co) \<union> fst ` set (co_rejected co) = pr_id ` set codes
    \<and> length (co_applied co) \<le> 1
    \<and> (\<forall>q\<in>set codes. \<exists>r. evaluate_promotion tm ctx q = Inr r \<and> dr_discount_cents r \<le> co_discount co)"
proof -
  obtain best where b: "best_code tm ctx codes None = Inr best"
    using assms(1) by (auto simp: code_stage_def rbind_Inr_iff)
  show ?thesis
  proof (cases best)
    case None
    then have "codes = []" "co = no_code"
      using best_code_spec [OF b] assms(1) b by (auto simp: code_stage_def)
    with assms(2) show ?thesis by (simp add: no_code_def)
  next
    case (Some bb)
    obtain bp br where bb: "bb = (bp, br)" by (cases bb)
    from best_code_spec [OF b] Some bb have s: "bp \<in> set codes" "evaluate_promotion tm ctx bp = Inr br"
      "\<forall>q\<in>set codes. \<exists>r. evaluate_promotion tm ctx q = Inr r \<and> dr_discount_cents r \<le> dr_discount_cents br"
      by auto
    note range = evaluate_range [OF s(2) assms(2)]
    show ?thesis
    proof (cases "dr_discount_cents br = 0 \<and> \<not> dr_free_shipping br")
      case True
      with assms(1) b Some bb have "co = no_code\<lparr>co_rejected := (pr_id bp, NoSavings (dr_explanation br))
          # map (\<lambda>o'. (pr_id o', CodeOutbid)) (filter (\<lambda>o'. pr_id o' \<noteq> pr_id bp) codes)\<rparr>"
        by (simp add: code_stage_def Let_def)
      with True s assms(2) show ?thesis by (auto simp: no_code_def image_image)
    next
      case False
      with assms(1) b Some bb have "co = \<lparr>co_discount = dr_discount_cents br, co_applied = [pr_id bp],
          co_rejected = map (\<lambda>o'. (pr_id o', CodeOutbid)) (filter (\<lambda>o'. pr_id o' \<noteq> pr_id bp) codes),
          co_by_promotion = [(pr_id bp, dr_discount_cents br)], co_free_shipping = dr_free_shipping br\<rparr>"
        by (auto simp: code_stage_def Let_def)
      with s range show ?thesis by (auto simp: image_image)
    qed
  qed
qed

section \<open>Rivalry\<close>

definition all_members :: "(string \<times> promotion list) list \<Rightarrow> promotion set" where
  "all_members groups = (\<Union>g\<in>set groups. set (snd g))"

text \<open>Groups are non-empty, keyed by their scope, and the keys are pairwise different.\<close>

definition groups_ok :: "targets_map \<Rightarrow> (string \<times> promotion list) list \<Rightarrow> bool" where
  "groups_ok tm groups \<longleftrightarrow> distinct (map fst groups)
     \<and> (\<forall>g\<in>set groups. snd g \<noteq> [] \<and> (\<forall>p\<in>set (snd g). multibuy_scope_key p tm = Some (fst g)))"

lemma fst_add_to_scope: "fst ` set (add_to_scope k p groups) = insert k (fst ` set groups)"
  by (induction k p groups rule: add_to_scope.induct) auto

lemma set_add_to_scope:
  "g \<in> set (add_to_scope k p groups) \<Longrightarrow> g \<in> set groups
    \<or> g = (k, [p]) \<or> (\<exists>ps. (k, ps) \<in> set groups \<and> g = (k, ps @ [p]))"
  by (induction k p groups rule: add_to_scope.induct) (auto split: if_splits)

lemma distinct_add_to_scope:
  "distinct (map fst groups) \<Longrightarrow> distinct (map fst (add_to_scope k p groups))"
proof (induction k p groups rule: add_to_scope.induct)
  case (2 k p k' ps rest)
  then show ?case using fst_add_to_scope [of k p rest] by (cases "k = k'") simp_all
qed simp

lemma add_to_scope_ok:
  assumes ok: "groups_ok tm groups" and key: "multibuy_scope_key p tm = Some k"
  shows "groups_ok tm (add_to_scope k p groups)"
proof -
  have "snd g \<noteq> [] \<and> (\<forall>q\<in>set (snd g). multibuy_scope_key q tm = Some (fst g))"
    if "g \<in> set (add_to_scope k p groups)" for g
    using set_add_to_scope [OF that]
  proof (elim disjE exE conjE)
    assume "g \<in> set groups"
    then show ?thesis using ok by (simp add: groups_ok_def)
  next
    assume "g = (k, [p])"
    then show ?thesis using key by simp
  next
    fix ps assume ps: "(k, ps) \<in> set groups" "g = (k, ps @ [p])"
    have "\<forall>q\<in>set ps. multibuy_scope_key q tm = Some k" using ok ps(1) unfolding groups_ok_def by fastforce
    then show ?thesis using key ps(2) by simp
  qed
  then show ?thesis using ok distinct_add_to_scope unfolding groups_ok_def by blast
qed

lemma members_add_to_scope: "all_members (add_to_scope k p groups) = insert p (all_members groups)"
  by (induction k p groups rule: add_to_scope.induct) (auto simp: all_members_def)

lemma length_add_to_scope:
  "length (concat (map snd (add_to_scope k p groups))) = Suc (length (concat (map snd groups)))"
  by (induction k p groups rule: add_to_scope.induct) auto

lemma group_scopes_spec:
  assumes "group_scopes tm ps (groups, pass) = (groups', pass')" "groups_ok tm groups"
  shows "groups_ok tm groups'
    \<and> all_members groups' = all_members groups \<union> set (filter (\<lambda>p. multibuy_scope_key p tm \<noteq> None) ps)
    \<and> set pass' = set pass \<union> pr_id ` set (filter (\<lambda>p. multibuy_scope_key p tm = None) ps)"
  using assms
proof (induction ps arbitrary: groups pass)
  case (Cons p ps)
  show ?case
  proof (cases "multibuy_scope_key p tm")
    case None
    then have "group_scopes tm ps (groups, pr_id p # pass) = (groups', pass')" using Cons.prems(1) by simp
    from Cons.IH [OF this Cons.prems(2)] None show ?thesis by simp
  next
    case (Some k)
    then have "group_scopes tm ps (add_to_scope k p groups, pass) = (groups', pass')"
      using Cons.prems(1) by simp
    from Cons.IH [OF this add_to_scope_ok [OF Cons.prems(2) Some]] Some show ?thesis
      by (simp add: members_add_to_scope)
  qed
qed simp

lemma best_of_group_Inr:
  "best_of_group tm ctx ps best = Inr best' \<Longrightarrow>
    fst best' = fst best \<or> (\<exists>p\<in>set ps. fst best' = Some p)"
proof (induction ps arbitrary: best)
  case (Cons p ps)
  obtain bf gf where f: "build_line_filters p tm = Inr (bf, gf)"
    using Cons.prems by (auto simp: rbind_Inr_iff)
  let ?r = "rule_calculate (the (pr_discount_rule p)) ctx bf gf None"
  let ?b = "if snd best < dr_discount_cents ?r then (Some p, dr_discount_cents ?r) else best"
  have "best_of_group tm ctx ps ?b = Inr best'" using Cons.prems f by (simp add: Let_def)
  from Cons.IH [OF this] show ?case by (auto split: if_splits)
qed simp

lemma settle_group_Inr:
  assumes "settle_group tm ctx g acc = Inr acc'" "snd g \<noteq> []"
  obtains b where "b \<in> set (snd g)" "set (fst acc') = insert (pr_id b) (set (fst acc))"
    "fst ` set (snd acc') = fst ` set (snd acc) \<union> pr_id ` set (filter (\<lambda>p. pr_id p \<noteq> pr_id b) (snd g))"
proof -
  consider (one) p where "snd g = [p]" | (many) p q ps where "snd g = p # q # ps"
    using assms(2) by (metis list.exhaust)
  then show ?thesis
  proof cases
    case one
    with assms(1) show ?thesis by (intro that [of p]) (auto simp: settle_group_def)
  next
    case many
    obtain best b where b: "best_of_group tm ctx (snd g) (None, -1) = Inr best" "fst best = Some b"
      "acc' = (pr_id b # fst acc, snd acc @ map (\<lambda>p. (pr_id p, TierOutbid))
         (filter (\<lambda>p. pr_id p \<noteq> pr_id b) (snd g)))"
      using assms(1) many by (auto simp: settle_group_def rbind_Inr_iff split: option.splits
          simp del: best_of_group.simps)
    have "b \<in> set (snd g)" using best_of_group_Inr [OF b(1)] b(2) by auto
    then show ?thesis using b(3) by (intro that [of b]) (simp_all add: image_Un image_image)
  qed
qed

text \<open>One winner per group; everyone else in the group loses.\<close>

lemma settle_groups:
  assumes "foldM (settle_group tm ctx) groups acc = Inr acc'" "\<forall>g\<in>set groups. snd g \<noteq> []"
  shows "\<exists>ws. list_all2 (\<lambda>g b. b \<in> set (snd g)) groups ws
    \<and> set (fst acc') = set (fst acc) \<union> pr_id ` set ws
    \<and> fst ` set (snd acc') = fst ` set (snd acc)
        \<union> (\<Union>(g, b)\<in>set (zip groups ws). pr_id ` set (filter (\<lambda>p. pr_id p \<noteq> pr_id b) (snd g)))"
  using assms
proof (induction groups arbitrary: acc)
  case Nil
  then show ?case by simp
next
  case (Cons g groups)
  obtain acc1 where s: "settle_group tm ctx g acc = Inr acc1"
    "foldM (settle_group tm ctx) groups acc1 = Inr acc'"
    using Cons.prems(1) by (auto simp: rbind_Inr_iff)
  obtain b where b: "b \<in> set (snd g)" "set (fst acc1) = insert (pr_id b) (set (fst acc))"
    "fst ` set (snd acc1) = fst ` set (snd acc) \<union> pr_id ` set (filter (\<lambda>p. pr_id p \<noteq> pr_id b) (snd g))"
    by (rule settle_group_Inr [OF s(1)]) (use Cons.prems(2) in auto)
  obtain ws where ws: "list_all2 (\<lambda>g b. b \<in> set (snd g)) groups ws"
    "set (fst acc') = set (fst acc1) \<union> pr_id ` set ws"
    "fst ` set (snd acc') = fst ` set (snd acc1)
        \<union> (\<Union>(g, b)\<in>set (zip groups ws). pr_id ` set (filter (\<lambda>p. pr_id p \<noteq> pr_id b) (snd g)))"
    using Cons.IH [OF s(2)] Cons.prems(2) by auto
  then show ?case using b by (intro exI [of _ "b # ws"]) (simp add: Un_assoc)
qed

text \<open>
  Which automatic promotions survive, and that no two survivors share a multibuy scope. The
  promotions have different ids.
\<close>

lemma resolve_rivalry_spec:
  assumes r: "resolve_rivalry autos tm ctx = Inr (kept, losers)"
    and d: "inj_on pr_id (set autos)"
  shows "pr_id ` set kept \<union> fst ` set losers = pr_id ` set autos
    \<and> pr_id ` set kept \<inter> fst ` set losers = {} \<and> (\<exists>P. kept = filter P autos)
    \<and> (\<forall>p\<in>set kept. \<forall>q\<in>set kept. multibuy_scope_key p tm = multibuy_scope_key q tm
         \<and> multibuy_scope_key p tm \<noteq> None \<longrightarrow> p = q)"
proof -
  obtain groups pass where g: "group_scopes tm autos ([], []) = (groups, pass)" by fastforce
  have spec: "groups_ok tm groups"
    "all_members groups = set (filter (\<lambda>p. multibuy_scope_key p tm \<noteq> None) autos)"
    "set pass = pr_id ` set (filter (\<lambda>p. multibuy_scope_key p tm = None) autos)"
    using group_scopes_spec [OF g] by (simp_all add: groups_ok_def all_members_def)
  have key: "multibuy_scope_key p tm = Some (fst h)" if "h \<in> set groups" "p \<in> set (snd h)" for h p
    using spec(1) that by (simp add: groups_ok_def)
  have inj: "h = h'" if "h \<in> set groups" "h' \<in> set groups" "fst h = fst h'" for h h'
    using spec(1) that by (auto simp: groups_ok_def distinct_map dest: inj_onD)
  have home: "\<exists>h\<in>set groups. p \<in> set (snd h)" if "p \<in> set autos" "multibuy_scope_key p tm \<noteq> None" for p
    using spec(2) that by (auto simp: all_members_def)
  have sub: "set (snd h) \<subseteq> set autos" if "h \<in> set groups" for h
    using spec(2) that by (auto simp: all_members_def)
  show ?thesis
  proof (cases "list_all (\<lambda>h. length (snd h) = 1) groups")
    case True
    then have k: "kept = autos" "losers = []" using r g by (auto simp: resolve_rivalry_def)
    have "p = q" if pq: "p \<in> set autos" "q \<in> set autos" "multibuy_scope_key p tm = multibuy_scope_key q tm"
      "multibuy_scope_key p tm \<noteq> None" for p q
    proof -
      obtain h h' where h: "h \<in> set groups" "p \<in> set (snd h)" "h' \<in> set groups" "q \<in> set (snd h')"
        using home pq by metis
      then have "h = h'" using inj key pq(3) by (metis option.inject)
      moreover have "length (snd h) = 1" using True h(1) by (simp add: list_all_iff)
      ultimately show ?thesis using h by (cases "snd h") auto
    qed
    then have "\<forall>p\<in>set kept. \<forall>q\<in>set kept. multibuy_scope_key p tm = multibuy_scope_key q tm
         \<and> multibuy_scope_key p tm \<noteq> None \<longrightarrow> p = q" using k by blast
    moreover have "\<exists>P. kept = filter P autos" using k by (intro exI [of _ "\<lambda>_. True"]) simp
    ultimately show ?thesis using k by simp
  next
    case False
    obtain winners where f: "foldM (settle_group tm ctx) groups ([], []) = Inr (winners, losers)"
      and k: "kept = filter (\<lambda>p. pr_id p \<in> set winners \<or> pr_id p \<in> set pass) autos"
      using r g False by (auto simp: resolve_rivalry_def rbind_Inr_iff)
    obtain ws where ws: "list_all2 (\<lambda>g b. b \<in> set (snd g)) groups ws" "set winners = pr_id ` set ws"
      "fst ` set losers = (\<Union>(g, b)\<in>set (zip groups ws). pr_id ` set (filter (\<lambda>p. pr_id p \<noteq> pr_id b) (snd g)))"
      using settle_groups [OF f] spec(1) by (auto simp: groups_ok_def)
    have zip: "b \<in> set (snd h)" if "(h, b) \<in> set (zip groups ws)" for h b
      using ws(1) that by (auto simp: list_all2_iff)
    have wsz: "\<exists>h. (h, b) \<in> set (zip groups ws)" if "b \<in> set ws" for b
      using that list_all2_lengthD [OF ws(1)] by (metis in_set_impl_in_set_zip2)
    have gz: "\<exists>b. (h, b) \<in> set (zip groups ws)" if "h \<in> set groups" for h
      using that list_all2_lengthD [OF ws(1)] by (metis in_set_impl_in_set_zip1)
    have same: "b = b'" if "(h, b) \<in> set (zip groups ws)" "(h, b') \<in> set (zip groups ws)" for h b b'
    proof -
      have "distinct groups" using spec(1) by (auto simp: groups_ok_def distinct_map)
      then show ?thesis using that
        by (metis (no_types, opaque_lifting) distinct_zipI1 distinct_conv_nth in_set_zip
            length_zip min_less_iff_conj nth_eq_iff_index_eq fst_conv snd_conv)
    qed
    have pass_key: "multibuy_scope_key p tm = None" if "p \<in> set autos" "pr_id p \<in> set pass" for p
      using spec(3) d that by (auto dest: inj_onD)
    have win: "\<exists>h. (h, p) \<in> set (zip groups ws)" if p: "p \<in> set autos" "pr_id p \<in> set winners" for p
    proof -
      obtain b where b: "b \<in> set ws" "pr_id p = pr_id b" using ws(2) p(2) by blast
      then obtain h where h: "(h, b) \<in> set (zip groups ws)" using wsz by blast
      then have "b \<in> set autos" using zip [OF h] sub [OF set_zip_leftD [OF h]] by blast
      then have "p = b" using d p(1) b(2) by (simp add: inj_on_eq_iff)
      then show ?thesis using h by blast
    qed
    have kept_key: "\<exists>h. (h, p) \<in> set (zip groups ws)"
      if "p \<in> set kept" "multibuy_scope_key p tm \<noteq> None" for p
      using that k win pass_key by fastforce
    have "p = q" if pq: "p \<in> set kept" "q \<in> set kept" "multibuy_scope_key p tm = multibuy_scope_key q tm"
      "multibuy_scope_key p tm \<noteq> None" for p q
    proof -
      obtain h h' where h: "(h, p) \<in> set (zip groups ws)" "(h', q) \<in> set (zip groups ws)"
        using kept_key pq by metis
      have "fst h = fst h'"
        using key [OF set_zip_leftD [OF h(1)] zip [OF h(1)]] key [OF set_zip_leftD [OF h(2)] zip [OF h(2)]] pq(3)
        by simp
      then have "h = h'" using inj h set_zip_leftD by metis
      then show ?thesis using same h by blast
    qed
    moreover have "pr_id p \<notin> fst ` set losers" if p: "p \<in> set kept" for p
    proof
      assume "pr_id p \<in> fst ` set losers"
      then obtain h b q where q: "(h, b) \<in> set (zip groups ws)" "q \<in> set (snd h)" "pr_id q \<noteq> pr_id b"
        "pr_id p = pr_id q" using ws(3) by auto
      have h: "h \<in> set groups" using q(1) by (rule set_zip_leftD)
      have "p = q" using d p k sub [OF h] q(2,4) by (auto dest: inj_onD)
      then have pk: "multibuy_scope_key p tm = Some (fst h)" using key [OF h q(2)] by simp
      then obtain h' where h': "(h', p) \<in> set (zip groups ws)" using kept_key [OF p] pk by (metis option.distinct(1))
      have "fst h' = fst h" using key [OF set_zip_leftD [OF h'] zip [OF h']] pk by simp
      then have "h' = h" using inj h set_zip_leftD [OF h'] by blast
      then have "p = b" using same h' q(1) by blast
      then show False using \<open>p = q\<close> q(3) by simp
    qed
    moreover have "pr_id p \<in> pr_id ` set kept \<union> fst ` set losers" if p: "p \<in> set autos" for p
    proof (cases "multibuy_scope_key p tm")
      case None
      then have "pr_id p \<in> set pass" using p spec(3) by simp
      then show ?thesis using p k by simp
    next
      case (Some s)
      then obtain h where h: "h \<in> set groups" "p \<in> set (snd h)" using home [OF p] by (metis option.distinct(1))
      then obtain b where b: "(h, b) \<in> set (zip groups ws)" using gz by blast
      show ?thesis
      proof (cases "pr_id p = pr_id b")
        case True
        then have "pr_id p \<in> set winners" using ws(2) set_zip_rightD [OF b] by simp
        then show ?thesis using p k by simp
      next
        case False
        then have "pr_id p \<in> fst ` set losers" using ws(3) b h(2) by fastforce
        then show ?thesis by simp
      qed
    qed
    moreover have "fst ` set losers \<subseteq> pr_id ` set autos"
    proof
      fix i assume "i \<in> fst ` set losers"
      then obtain h b q where q: "(h, b) \<in> set (zip groups ws)" "q \<in> set (snd h)" "i = pr_id q"
        using ws(3) by auto
      then show "i \<in> pr_id ` set autos" using sub [OF set_zip_leftD [OF q(1)]] by blast
    qed
    moreover have "set kept \<subseteq> set autos" "\<exists>P. kept = filter P autos" using k by auto
    ultimately show ?thesis by blast
  qed
qed

section \<open>The whole calculation\<close>

lemma calculate_total_Inr:
  assumes "calculate_total ps ctx tm = Inr t"
  obtains codes autos rej co kept losers st where
    "split_promotions ps = (codes, autos, rej)" "code_stage tm ctx codes = Inr co"
    "resolve_rivalry autos tm ctx = Inr (kept, losers)"
    "foldM (auto_step tm ctx (co_discount co)) kept (auto_start co (rej @ co_rejected co @ losers)) = Inr st"
    "t = finish_total ctx (co_discount co) st"
proof -
  obtain codes autos rej where s: "split_promotions ps = (codes, autos, rej)"
    by (cases "split_promotions ps") auto
  obtain co where co: "code_stage tm ctx codes = Inr co"
    using assms s by (auto simp: calculate_total_def rbind_Inr_iff)
  obtain kept losers where k: "resolve_rivalry autos tm ctx = Inr (kept, losers)"
    using assms s co by (auto simp: calculate_total_def rbind_Inr_iff)
  obtain st where "foldM (auto_step tm ctx (co_discount co)) kept
      (auto_start co (rej @ co_rejected co @ losers)) = Inr st" "t = finish_total ctx (co_discount co) st"
    using assms s co k by (auto simp: calculate_total_def rbind_Inr_iff)
  with s co k show ?thesis by (rule that)
qed

text \<open>
  Everything the stages give, for promotions with different ids over a non-negative subtotal.
  The overflow branch is never taken: every rule is capped by what is left of the subtotal.
\<close>

lemma filter_ids_sub: "xs = filter P ys \<Longrightarrow> pr_id ` set xs \<subseteq> pr_id ` set ys"
  by auto

lemma calculate_total_stages:
  assumes "calculate_total ps ctx tm = Inr t" "0 \<le> dc_subtotal_cents ctx" "distinct (map pr_id ps)"
  obtains codes autos co kept losers ap rj and rej :: "rejection list" where
    "codes = filter (\<lambda>p. pr_discount_rule p \<noteq> None \<and> pr_surface p = SfDiscountCode) ps"
    "autos = filter (\<lambda>p. pr_discount_rule p \<noteq> None \<and> pr_surface p = SfAutomatic) ps"
    "fst ` set rej = pr_id ` set (filter (\<lambda>p. pr_discount_rule p = None
        \<or> pr_surface p \<notin> {SfDiscountCode, SfAutomatic}) ps)"
    "code_stage tm ctx codes = Inr co" "distinct (map pr_id codes)"
    "resolve_rivalry autos tm ctx = Inr (kept, losers)" "distinct (map pr_id autos)"
    "set (co_applied co) \<subseteq> pr_id ` set codes" "pr_id ` set kept \<subseteq> pr_id ` set autos"
    "pr_id ` set codes \<inter> pr_id ` set autos = {}"
    "to_code_discount_cents t = co_discount co" "0 \<le> to_automatic_discount_cents t"
    "total_discount_cents t \<le> dc_subtotal_cents ctx"
    "sum_list (map snd (to_by_promotion t)) = total_discount_cents t"
    "distinct (map fst (to_by_promotion t))" "fst ` set (to_by_promotion t) \<subseteq> set (to_applied t)"
    "to_applied t = co_applied co @ ap" "distinct ap"
    "fst ` set (to_rejected t) = fst ` set rej \<union> fst ` set (co_rejected co) \<union> fst ` set losers \<union> rj"
    "set ap \<union> rj = pr_id ` set kept" "set ap \<inter> rj = {}"
    "map fst (co_by_promotion co) = co_applied co" "sum_list (map snd (co_by_promotion co)) = co_discount co"
    "\<exists>xs. to_by_promotion t = co_by_promotion co @ xs \<and> fst ` set xs \<subseteq> pr_id ` set autos"
proof -
  obtain codes autos rej co kept losers st where
    s: "split_promotions ps = (codes, autos, rej)" and co: "code_stage tm ctx codes = Inr co" and
    k: "resolve_rivalry autos tm ctx = Inr (kept, losers)" and
    st: "foldM (auto_step tm ctx (co_discount co)) kept (auto_start co (rej @ co_rejected co @ losers)) = Inr st" and
    t: "t = finish_total ctx (co_discount co) st"
    by (rule calculate_total_Inr [OF assms(1)])
  note sp = split_promotions_spec [OF s]
  have inj: "inj_on pr_id (set ps)" using assms(3) by (simp add: distinct_map)
  have codes: "codes = filter (\<lambda>p. pr_discount_rule p \<noteq> None \<and> pr_surface p = SfDiscountCode) ps"
    and autos: "autos = filter (\<lambda>p. pr_discount_rule p \<noteq> None \<and> pr_surface p = SfAutomatic) ps"
    and rej: "fst ` set rej = pr_id ` set (filter (\<lambda>p. pr_discount_rule p = None
        \<or> pr_surface p \<notin> {SfDiscountCode, SfAutomatic}) ps)" using sp by simp_all
  have dc: "distinct (map pr_id codes)" unfolding codes using assms(3) by (rule distinct_map_filter)
  have da: "distinct (map pr_id autos)" unfolding autos using assms(3) by (rule distinct_map_filter)
  have disj: "pr_id ` set codes \<inter> pr_id ` set autos = {}"
  proof (rule ccontr)
    assume "\<not> ?thesis"
    then obtain p q where pq: "p \<in> set codes" "q \<in> set autos" "pr_id p = pr_id q" by blast
    then have "p = q" using codes autos inj by (auto dest: inj_onD)
    then show False using pq(1,2) codes autos by simp
  qed
  note cs = code_stage_spec [OF co assms(2) dc]
  have ija: "inj_on pr_id (set autos)" using da by (simp add: distinct_map)
  obtain P where P: "kept = filter P autos" using resolve_rivalry_spec [OF k ija] by blast
  have kid: "pr_id ` set kept \<subseteq> pr_id ` set autos" using P by (rule filter_ids_sub)
  have cap: "set (co_applied co) \<subseteq> pr_id ` set codes" using cs by blast
  have fresh: "set (map pr_id kept) \<inter> set (co_applied co) = {}" using cap disj kid by (simp, blast)
  have dby: "distinct (map fst (co_by_promotion co))" using cs by (cases "co_applied co") auto
  have bya: "fst ` set (co_by_promotion co) \<subseteq> set (co_applied co)" using cs by (metis list.set_map order_refl)
  have "0 \<le> au_running st \<and> co_discount co + au_running st \<le> dc_subtotal_cents ctx
    \<and> sum_list (map snd (au_by_promotion st)) - au_running st
        = sum_list (map snd (co_by_promotion co)) - 0
    \<and> distinct (map fst (au_by_promotion st)) \<and> fst ` set (au_by_promotion st) \<subseteq> set (au_applied st)
    \<and> (\<exists>ap rj. au_applied st = co_applied co @ ap \<and> distinct ap
        \<and> fst ` set (au_rejected st) = fst ` set (rej @ co_rejected co @ losers) \<union> rj
        \<and> set ap \<union> rj = set (map pr_id kept) \<and> set ap \<inter> rj = {})"
    using auto_loop [OF st] cs P da fresh dby bya by (simp add: auto_start_def distinct_map_filter)
  then obtain ap rj where loop: "0 \<le> au_running st" "co_discount co + au_running st \<le> dc_subtotal_cents ctx"
    "sum_list (map snd (au_by_promotion st)) = co_discount co + au_running st"
    "distinct (map fst (au_by_promotion st))" "fst ` set (au_by_promotion st) \<subseteq> set (au_applied st)"
    "au_applied st = co_applied co @ ap" "distinct ap"
    "fst ` set (au_rejected st) = fst ` set rej \<union> fst ` set (co_rejected co) \<union> fst ` set losers \<union> rj"
    "set ap \<union> rj = pr_id ` set kept" "set ap \<inter> rj = {}"
    using cs by (auto simp: image_Un Un_assoc)
  have "pr_id ` set kept \<inter> fst ` set (co_by_promotion co) = {}" using fresh bya by (simp, blast)
  then have "\<exists>xs. au_by_promotion st = co_by_promotion co @ xs \<and> fst ` set xs \<subseteq> pr_id ` set kept"
    using auto_loop_appends [OF st] da P by (simp add: auto_start_def distinct_map_filter)
  then have appended: "\<exists>xs. au_by_promotion st = co_by_promotion co @ xs \<and> fst ` set xs \<subseteq> pr_id ` set autos"
    using kid by (meson order_trans)
  have "to_code_discount_cents t = co_discount co" "to_automatic_discount_cents t = au_running st"
    "to_by_promotion t = au_by_promotion st" "to_applied t = au_applied st" "to_rejected t = au_rejected st"
    using t loop(2) by (simp_all add: finish_total_def Let_def)
  with loop codes autos rej co dc k da cap kid disj cs appended show ?thesis
    by (intro that [of codes autos rej co kept losers ap rj]) (simp_all add: total_discount_cents_def)
qed

lemma decided_disjoint:
  assumes "C \<subseteq> IC" "A \<subseteq> IA" "RC \<subseteq> IC" "L \<subseteq> IA" "RJ \<subseteq> IA" "IC \<inter> IA = {}"
    "R \<inter> (IC \<union> IA) = {}" "C \<inter> RC = {}" "A \<inter> L = {}" "A \<inter> RJ = {}"
  shows "(C \<union> A) \<inter> (R \<union> RC \<union> L \<union> RJ) = {}"
  using assms by blast

lemma calculate_total_decided:
  assumes "calculate_total ps ctx tm = Inr t" "0 \<le> dc_subtotal_cents ctx" "distinct (map pr_id ps)"
  shows "distinct (to_applied t)
    \<and> set (to_applied t) \<union> fst ` set (to_rejected t) = pr_id ` set ps
    \<and> set (to_applied t) \<inter> fst ` set (to_rejected t) = {}"
proof (rule calculate_total_stages [OF assms])
  fix codes autos co kept losers ap rj and rej :: "rejection list"
  assume codes: "codes = filter (\<lambda>p. pr_discount_rule p \<noteq> None \<and> pr_surface p = SfDiscountCode) ps"
    and autos: "autos = filter (\<lambda>p. pr_discount_rule p \<noteq> None \<and> pr_surface p = SfAutomatic) ps"
    and rej: "fst ` set rej = pr_id ` set (filter (\<lambda>p. pr_discount_rule p = None
        \<or> pr_surface p \<notin> {SfDiscountCode, SfAutomatic}) ps)"
    and co: "code_stage tm ctx codes = Inr co" "distinct (map pr_id codes)"
    and k: "resolve_rivalry autos tm ctx = Inr (kept, losers)" "distinct (map pr_id autos)"
    and cap: "set (co_applied co) \<subseteq> pr_id ` set codes" and kid: "pr_id ` set kept \<subseteq> pr_id ` set autos"
    and disj: "pr_id ` set codes \<inter> pr_id ` set autos = {}"
    and ap: "to_applied t = co_applied co @ ap" "distinct ap"
      "fst ` set (to_rejected t) = fst ` set rej \<union> fst ` set (co_rejected co) \<union> fst ` set losers \<union> rj"
      "set ap \<union> rj = pr_id ` set kept" "set ap \<inter> rj = {}"
  have inj: "inj_on pr_id (set ps)" using assms(3) by (simp add: distinct_map)
  note cs = code_stage_spec [OF co(1) assms(2) co(2)]
  have ija: "inj_on pr_id (set autos)" using k(2) by (simp add: distinct_map)
  note rr = resolve_rivalry_spec [OF k(1) ija]
  have rid: "fst ` set rej \<inter> (pr_id ` set codes \<union> pr_id ` set autos) = {}"
  proof (rule ccontr)
    assume "\<not> ?thesis"
    then obtain p q where pq: "p \<in> set ps" "pr_discount_rule p = None \<or> pr_surface p \<notin> {SfDiscountCode, SfAutomatic}"
      "q \<in> set codes \<or> q \<in> set autos" "pr_id p = pr_id q" unfolding rej by auto
    have "q \<in> set ps" using pq(3) unfolding codes autos by auto
    then have "p = q" using pq(1,4) inj by (auto dest: inj_onD)
    then show False using pq(2,3) unfolding codes autos by (elim disjE) simp_all
  qed
  have all: "pr_id ` set ps = fst ` set rej \<union> pr_id ` set codes \<union> pr_id ` set autos"
  proof -
    have "set ps = set (filter (\<lambda>p. pr_discount_rule p = None
        \<or> pr_surface p \<notin> {SfDiscountCode, SfAutomatic}) ps) \<union> set codes \<union> set autos"
      unfolding codes autos set_filter by blast
    then show ?thesis unfolding rej by (simp only: image_Un)
  qed
  have "set (to_applied t) \<union> fst ` set (to_rejected t) = pr_id ` set ps"
  proof -
    have "set (to_applied t) \<union> fst ` set (to_rejected t)
      = fst ` set rej \<union> (set (co_applied co) \<union> fst ` set (co_rejected co))
          \<union> ((set ap \<union> rj) \<union> fst ` set losers)" unfolding ap(1,3) by auto
    then show ?thesis unfolding all ap(4) using cs rr by simp
  qed
  moreover have "set (to_applied t) \<inter> fst ` set (to_rejected t) = {}"
  proof -
    obtain "pr_id ` set kept \<inter> fst ` set losers = {}"
      "pr_id ` set kept \<union> fst ` set losers = pr_id ` set autos" using rr by blast
    then have "set ap \<inter> fst ` set losers = {}" "fst ` set losers \<subseteq> pr_id ` set autos"
      using ap(4) by blast+
    moreover have "fst ` set (co_rejected co) \<subseteq> pr_id ` set codes" using cs by blast
    moreover have "set ap \<subseteq> pr_id ` set autos" "rj \<subseteq> pr_id ` set autos" using ap(4) kid by blast+
    moreover have "set (co_applied co) \<inter> fst ` set (co_rejected co) = {}" using cs by blast
    ultimately show ?thesis unfolding ap(1,3) set_append
      by (intro decided_disjoint [OF cap _ _ _ _ disj rid _ _ ap(5)])
  qed
  moreover have "distinct (to_applied t)"
  proof -
    have "set ap \<inter> set (co_applied co) = {}" using cap disj ap(4) kid by blast
    moreover have "distinct (co_applied co)" using cs by (cases "co_applied co") auto
    ultimately show ?thesis using ap(1,2) by auto
  qed
  ultimately show ?thesis by blast
qed

lemma calculate_total_unique:
  assumes "calculate_total ps ctx tm = Inr t" "0 \<le> dc_subtotal_cents ctx" "distinct (map pr_id ps)"
    and pq: "p \<in> set ps" "q \<in> set ps" "pr_id p \<in> set (to_applied t)" "pr_id q \<in> set (to_applied t)"
    and same: "pr_surface p = SfDiscountCode \<and> pr_surface q = SfDiscountCode
      \<or> pr_surface p = SfAutomatic \<and> pr_surface q = SfAutomatic
        \<and> multibuy_scope_key p tm = multibuy_scope_key q tm \<and> multibuy_scope_key p tm \<noteq> None"
  shows "p = q"
proof (rule calculate_total_stages [OF assms(1-3)])
  fix codes autos co kept losers ap rj and rej :: "rejection list"
  assume codes: "codes = filter (\<lambda>p. pr_discount_rule p \<noteq> None \<and> pr_surface p = SfDiscountCode) ps"
    and autos: "autos = filter (\<lambda>p. pr_discount_rule p \<noteq> None \<and> pr_surface p = SfAutomatic) ps"
    and co: "code_stage tm ctx codes = Inr co" "distinct (map pr_id codes)"
    and k: "resolve_rivalry autos tm ctx = Inr (kept, losers)" "distinct (map pr_id autos)"
    and cap: "set (co_applied co) \<subseteq> pr_id ` set codes" and kid: "pr_id ` set kept \<subseteq> pr_id ` set autos"
    and ap: "to_applied t = co_applied co @ ap" "set ap \<union> rj = pr_id ` set kept"
  have inj: "x = y" if "x \<in> set ps" "y \<in> set ps" "pr_id x = pr_id y" for x y
    using assms(3) that by (auto simp: distinct_map dest: inj_onD)
  have code: "pr_id x \<in> set (co_applied co)" if x: "x \<in> set ps" "pr_surface x = SfDiscountCode"
    "pr_id x \<in> set (to_applied t)" for x
  proof (rule ccontr)
    assume "pr_id x \<notin> set (co_applied co)"
    then obtain y where y: "y \<in> set autos" "pr_id x = pr_id y" using x(3) ap kid by auto
    then have "x = y" using inj x(1) autos by simp
    then show False using y(1) x(2) autos by simp
  qed
  have auto: "x \<in> set kept" if x: "x \<in> set ps" "pr_surface x = SfAutomatic"
    "pr_id x \<in> set (to_applied t)" for x
  proof -
    have "pr_id x \<notin> set (co_applied co)"
    proof
      assume "pr_id x \<in> set (co_applied co)"
      then obtain y where y: "y \<in> set codes" "pr_id x = pr_id y" using cap by auto
      then have "x = y" using inj x(1) codes by simp
      then show False using y(1) x(2) codes by simp
    qed
    then have "pr_id x \<in> pr_id ` set kept" using x(3) ap by auto
    then obtain y where y: "y \<in> set kept" "pr_id x = pr_id y" by auto
    have "inj_on pr_id (set autos)" using k(2) by (simp add: distinct_map)
    then obtain P where "kept = filter P autos" using resolve_rivalry_spec [OF k(1)] by blast
    then have "x = y" using inj x(1) y autos by simp
    then show ?thesis using y(1) by simp
  qed
  from same show ?thesis
  proof (elim disjE conjE)
    assume s: "pr_surface p = SfDiscountCode" "pr_surface q = SfDiscountCode"
    have "length (co_applied co) \<le> 1" using code_stage_spec [OF co(1) assms(2) co(2)] by blast
    then have "pr_id p = pr_id q" using code [OF pq(1) s(1) pq(3)] code [OF pq(2) s(2) pq(4)]
      by (cases "co_applied co") auto
    then show ?thesis by (rule inj [OF pq(1,2)])
  next
    assume s: "pr_surface p = SfAutomatic" "pr_surface q = SfAutomatic"
      "multibuy_scope_key p tm = multibuy_scope_key q tm" "multibuy_scope_key p tm \<noteq> None"
    have "inj_on pr_id (set autos)" using k(2) by (simp add: distinct_map)
    from resolve_rivalry_spec [OF k(1) this] show ?thesis
      using auto [OF pq(1) s(1) pq(3)] auto [OF pq(2) s(2) pq(4)] s(3,4) by blast
  qed
qed

lemma calculate_total_bounds:
  assumes "calculate_total ps ctx tm = Inr t" "0 \<le> dc_subtotal_cents ctx" "distinct (map pr_id ps)"
  shows "0 \<le> to_code_discount_cents t \<and> 0 \<le> to_automatic_discount_cents t
    \<and> total_discount_cents t \<le> dc_subtotal_cents ctx"
proof (rule calculate_total_stages [OF assms])
  fix codes and co :: code_outcome
  assume "code_stage tm ctx codes = Inr co" "distinct (map pr_id codes)"
    and t: "to_code_discount_cents t = co_discount co" "0 \<le> to_automatic_discount_cents t"
    "total_discount_cents t \<le> dc_subtotal_cents ctx"
  then have "0 \<le> co_discount co" using code_stage_spec assms(2) by blast
  with t show ?thesis by simp
qed

section \<open>Properties\<close>

definition demo_stack :: "promotion list" where
  "demo_stack = [
     (demo_promotion 1 PsActive)\<lparr>pr_surface := SfDiscountCode, pr_discount_rule := Some (demo_rule KFixed)\<rparr>,
     (demo_promotion 2 PsActive)\<lparr>pr_surface := SfDiscountCode, pr_discount_rule := Some (demo_rule KPercentage)\<rparr>,
     (demo_promotion 3 PsActive)\<lparr>pr_discount_rule := Some (demo_rule KMultibuy)\<rparr>,
     (demo_promotion 4 PsActive)\<lparr>pr_discount_rule := Some ((demo_rule KMultibuy)\<lparr>ru_multibuy_price_cents := Some 190\<rparr>)\<rparr>,
     (demo_promotion 5 PsActive)\<lparr>pr_discount_rule := None\<rparr>]"

definition demo_stack_total :: discount_total where
  "demo_stack_total = \<lparr>to_code_discount_cents = 150, to_automatic_discount_cents = 150,
     to_free_shipping = False, to_applied = [1, 3],
     to_rejected = [(5, NoDiscountRule), (2, CodeOutbid), (4, TierOutbid)],
     to_by_promotion = [(1, 150), (3, 150)]\<rparr>"

lemma demo_stack_total: "calculate_total demo_stack demo_context None = Inr demo_stack_total"
  by code_simp

lemma demo_stack_distinct: "distinct (map pr_id demo_stack)"
  by (simp add: demo_stack_def demo_promotion_def)

lemma demo_subtotal: "0 \<le> dc_subtotal_cents demo_context"
  by (simp add: demo_context_def)

text \<open>
  C24: the money reconciles. For promotions with different ids over a non-negative subtotal,
  neither bucket of the total is negative, code and automatic discounts together never exceed
  the subtotal, and the per-promotion breakdown, which lists only applied promotions, each
  once, adds up to exactly the total discount.
\<close>

theorem totals_reconcile:
  assumes "calculate_total ps ctx tm = Inr t" "0 \<le> dc_subtotal_cents ctx" "distinct (map pr_id ps)"
  shows "0 \<le> to_code_discount_cents t \<and> 0 \<le> to_automatic_discount_cents t
    \<and> total_discount_cents t \<le> dc_subtotal_cents ctx
    \<and> sum_list (map snd (to_by_promotion t)) = total_discount_cents t
    \<and> distinct (map fst (to_by_promotion t)) \<and> fst ` set (to_by_promotion t) \<subseteq> set (to_applied t)"
proof (rule calculate_total_stages [OF assms])
  assume "sum_list (map snd (to_by_promotion t)) = total_discount_cents t"
    "distinct (map fst (to_by_promotion t))" "fst ` set (to_by_promotion t) \<subseteq> set (to_applied t)"
  with calculate_total_bounds [OF assms] show ?thesis by simp
qed

theorem totals_reconcile_witness:
  "total_discount_cents demo_stack_total = 300 \<and> 300 \<le> dc_subtotal_cents demo_context
    \<and> sum_list (map snd (to_by_promotion demo_stack_total)) = 300"
  using totals_reconcile [OF demo_stack_total demo_subtotal demo_stack_distinct]
  by (simp add: demo_stack_total_def total_discount_cents_def)

text \<open>
  C36: every promotion is decided, once. The applied list has no repetition, applied and
  rejected promotions are disjoint and together are exactly the promotions given. At most one
  discount code is applied, and no code with a rule would have saved more than the code
  discount charged.
\<close>

theorem every_promotion_decided:
  assumes "calculate_total ps ctx tm = Inr t" "0 \<le> dc_subtotal_cents ctx" "distinct (map pr_id ps)"
  shows "distinct (to_applied t)
    \<and> set (to_applied t) \<union> fst ` set (to_rejected t) = pr_id ` set ps
    \<and> set (to_applied t) \<inter> fst ` set (to_rejected t) = {}
    \<and> (\<forall>p\<in>set ps. \<forall>q\<in>set ps. pr_surface p = SfDiscountCode \<and> pr_surface q = SfDiscountCode
        \<and> pr_id p \<in> set (to_applied t) \<and> pr_id q \<in> set (to_applied t) \<longrightarrow> p = q)
    \<and> (\<forall>q\<in>set ps. pr_discount_rule q \<noteq> None \<and> pr_surface q = SfDiscountCode \<longrightarrow>
         (\<exists>r. evaluate_promotion tm ctx q = Inr r \<and> dr_discount_cents r \<le> to_code_discount_cents t))"
proof -
  have "\<forall>q\<in>set ps. pr_discount_rule q \<noteq> None \<and> pr_surface q = SfDiscountCode \<longrightarrow>
         (\<exists>r. evaluate_promotion tm ctx q = Inr r \<and> dr_discount_cents r \<le> to_code_discount_cents t)"
  proof (rule calculate_total_stages [OF assms])
    fix codes and co :: code_outcome
    assume c: "codes = filter (\<lambda>p. pr_discount_rule p \<noteq> None \<and> pr_surface p = SfDiscountCode) ps"
      "code_stage tm ctx codes = Inr co" "distinct (map pr_id codes)"
      "to_code_discount_cents t = co_discount co"
    then have "\<forall>q\<in>set codes. \<exists>r. evaluate_promotion tm ctx q = Inr r
        \<and> dr_discount_cents r \<le> to_code_discount_cents t" using code_stage_spec assms(2) by simp
    then show ?thesis unfolding c(1) by simp
  qed
  moreover have "\<forall>p\<in>set ps. \<forall>q\<in>set ps. pr_surface p = SfDiscountCode \<and> pr_surface q = SfDiscountCode
        \<and> pr_id p \<in> set (to_applied t) \<and> pr_id q \<in> set (to_applied t) \<longrightarrow> p = q"
    using calculate_total_unique [OF assms] by blast
  ultimately show ?thesis using calculate_total_decided [OF assms] by (intro conjI) (elim conjE, assumption)+
qed

theorem every_promotion_decided_witness:
  "set (to_applied demo_stack_total) \<union> fst ` set (to_rejected demo_stack_total) = {1, 2, 3, 4, 5}
    \<and> distinct (to_applied demo_stack_total)"
  using every_promotion_decided [OF demo_stack_total demo_subtotal demo_stack_distinct]
  by (simp add: demo_stack_def demo_promotion_def)

text \<open>
  Rival multibuys never stack. Two different automatic promotions whose multibuy covers
  the same catalogue scope are never both applied, so a ladder of tiers written as separate
  promotions pays out one of its tiers.
\<close>

theorem one_multibuy_per_scope:
  assumes "calculate_total ps ctx tm = Inr t" "0 \<le> dc_subtotal_cents ctx" "distinct (map pr_id ps)"
    and "p \<in> set ps" "q \<in> set ps" "p \<noteq> q" "pr_surface p = SfAutomatic" "pr_surface q = SfAutomatic"
    and "multibuy_scope_key p tm = Some key" "multibuy_scope_key q tm = Some key"
  shows "\<not> {pr_id p, pr_id q} \<subseteq> set (to_applied t)"
  using calculate_total_unique [OF assms(1-5)] assms(6-10) by auto

theorem one_multibuy_per_scope_witness:
  "multibuy_scope_key (demo_stack ! 2) None = Some ''p:|c:''
    \<and> \<not> {pr_id (demo_stack ! 2), pr_id (demo_stack ! 3)} \<subseteq> set (to_applied demo_stack_total)"
proof -
  have k: "multibuy_scope_key (demo_stack ! 2) None = Some ''p:|c:''"
    "multibuy_scope_key (demo_stack ! 3) None = Some ''p:|c:''" by code_simp+
  have m: "demo_stack ! 2 \<in> set demo_stack" "demo_stack ! 3 \<in> set demo_stack"
    "demo_stack ! 2 \<noteq> demo_stack ! 3" "pr_surface (demo_stack ! 2) = SfAutomatic"
    "pr_surface (demo_stack ! 3) = SfAutomatic"
    by (simp_all add: demo_stack_def demo_promotion_def)
  show ?thesis
    using one_multibuy_per_scope [OF demo_stack_total demo_subtotal demo_stack_distinct m k] k(1) by blast
qed

end
