(* ===== verification/Eligibility.thy ===== *)
theory Eligibility
  imports Promotion
begin

text \<open>
  \<open>src/core/services/promotion_eligibility_checker.py\<close>: whether a promotion runs for a visitor.
  Reading an identifier list can raise, when an entry is not an identifier, and then the check
  raises.
\<close>

record eligibility_context =
  ec_customer_id :: "uuid option"
  ec_customer_tags :: "string list"
  ec_cart_subtotal_cents :: int
  ec_cart_product_ids :: "uuid list"
  ec_cart_category_ids :: "uuid list"
  ec_country :: "string option"
  ec_city :: "string option"
  ec_device :: string
  ec_is_first_visit :: bool
  ec_is_logged_in :: bool
  ec_dismissed :: "uuid set"
  ec_convert_count_total :: int
  ec_convert_count_per_customer :: int

datatype eligibility =
    Eligible
  | NotActive promotion_status
  | ScheduledInFuture
  | WindowEnded
  | DismissedByVisitor
  | IncludeMissed target_kind
  | ExcludeMatched target_kind
  | TotalCapReached
  | CustomerCapReached

definition match_audience :: "target_value \<Rightarrow> eligibility_context \<Rightarrow> bool" where
  "match_audience v ctx =
     (let kind = (case tv_kind v of None \<Rightarrow> ''all'' | Some k \<Rightarrow> k)
      in if kind = ''all'' then True
         else if kind = ''new_visitor'' then ec_is_first_visit ctx
         else if kind = ''returning'' then \<not> ec_is_first_visit ctx
         else if kind = ''logged_in'' then ec_is_logged_in ctx
         else if kind = ''guest'' then \<not> ec_is_logged_in ctx
         else False)"

text \<open>\<open>country in countries\<close> for an optional country: \<open>None\<close> is in no list of strings.\<close>

definition opt_member :: "string option \<Rightarrow> string list \<Rightarrow> bool" where
  "opt_member x xs = (case x of None \<Rightarrow> False | Some s \<Rightarrow> s \<in> set xs)"

definition target_matches :: "promotion_target \<Rightarrow> eligibility_context \<Rightarrow> bool result" where
  "target_matches t ctx = (let v = tg_target_value t in
     case tg_target_kind t of
       TkAudience \<Rightarrow> Inr (match_audience v ctx)
     | TkProduct \<Rightarrow> rbind (mapM parse_uuid (tv_product_ids v)) (\<lambda>ids.
         Inr (list_ex (\<lambda>p. p \<in> set ids) (ec_cart_product_ids ctx)))
     | TkCategory \<Rightarrow> rbind (mapM parse_uuid (tv_category_ids v)) (\<lambda>ids.
         Inr (list_ex (\<lambda>c. c \<in> set ids) (ec_cart_category_ids ctx)))
     | TkCustomerTag \<Rightarrow> Inr (list_ex (\<lambda>t. t \<in> set (tv_tags v)) (ec_customer_tags ctx))
     | TkGeo \<Rightarrow> Inr ((tv_countries v = [] \<or> opt_member (ec_country ctx) (tv_countries v))
         \<and> (tv_cities v = [] \<or> opt_member (ec_city ctx) (tv_cities v))))"

text \<open>The loop over the targets: the first one that decides against the promotion.\<close>

fun check_targets :: "promotion_target list \<Rightarrow> eligibility_context \<Rightarrow> eligibility option result" where
  "check_targets [] ctx = Inr None"
| "check_targets (t # ts) ctx =
     (if tg_role t \<noteq> None then check_targets ts ctx
      else rbind (target_matches t ctx) (\<lambda>matches.
        if tg_inclusion t \<and> \<not> matches then Inr (Some (IncludeMissed (tg_target_kind t)))
        else if \<not> tg_inclusion t \<and> matches then Inr (Some (ExcludeMatched (tg_target_kind t)))
        else check_targets ts ctx))"

definition is_eligible ::
    "promotion \<Rightarrow> promotion_target list \<Rightarrow> eligibility_context \<Rightarrow> instant \<Rightarrow> eligibility result" where
  "is_eligible p targets ctx now =
     (if pr_status p \<noteq> PsActive then Inr (NotActive (pr_status p))
      else if (case pr_starts_at p of None \<Rightarrow> False | Some s \<Rightarrow> now < s) then Inr ScheduledInFuture
      else if (case pr_ends_at p of None \<Rightarrow> False | Some e \<Rightarrow> e < now) then Inr WindowEnded
      else if pr_id p \<in> ec_dismissed ctx then Inr DismissedByVisitor
      else rbind (check_targets targets ctx) (\<lambda>verdict.
        case verdict of
          Some why \<Rightarrow> Inr why
        | None \<Rightarrow>
            if (case pr_usage_limit_total p of None \<Rightarrow> False
                | Some n \<Rightarrow> n \<le> ec_convert_count_total ctx) then Inr TotalCapReached
            else if (case pr_usage_limit_per_customer p of None \<Rightarrow> False
                | Some n \<Rightarrow> ec_customer_id ctx \<noteq> None \<and> n \<le> ec_convert_count_per_customer ctx)
            then Inr CustomerCapReached
            else Inr Eligible))"

section \<open>The specification\<close>

lemma check_targets_None:
  "check_targets ts ctx = Inr None \<longleftrightarrow>
    (\<forall>t\<in>set ts. tg_role t = None \<longrightarrow> target_matches t ctx = Inr (tg_inclusion t))"
proof (induction ts)
  case (Cons t ts)
  then show ?case by (cases "target_matches t ctx") auto
qed simp

lemma check_targets_not_Eligible: "check_targets ts ctx \<noteq> Inr (Some Eligible)"
proof (induction ts)
  case (Cons t ts)
  then show ?case by (cases "target_matches t ctx") auto
qed simp

lemma match_audience_kinds:
  "match_audience v ctx \<longleftrightarrow> tv_kind v \<in> {None, Some ''all''}
    \<or> (tv_kind v = Some ''new_visitor'' \<and> ec_is_first_visit ctx)
    \<or> (tv_kind v = Some ''returning'' \<and> \<not> ec_is_first_visit ctx)
    \<or> (tv_kind v = Some ''logged_in'' \<and> ec_is_logged_in ctx)
    \<or> (tv_kind v = Some ''guest'' \<and> \<not> ec_is_logged_in ctx)"
  by (cases "tv_kind v") (auto simp: match_audience_def)

lemma is_eligible_active:
  assumes "is_eligible p targets ctx now = Inr Eligible"
  shows "is_currently_active now p \<and> pr_id p \<notin> ec_dismissed ctx"
  using assms by (auto simp: is_eligible_def is_currently_active_def split: if_splits option.splits)

definition demo_visitor :: eligibility_context where
  "demo_visitor = \<lparr>ec_customer_id = None, ec_customer_tags = [''vip''], ec_cart_subtotal_cents = 0,
     ec_cart_product_ids = [], ec_cart_category_ids = [], ec_country = Some ''EG'', ec_city = None,
     ec_device = ''mobile'', ec_is_first_visit = True, ec_is_logged_in = False, ec_dismissed = {},
     ec_convert_count_total = 0, ec_convert_count_per_customer = 0\<rparr>"

text \<open>
  A promotion is eligible exactly when it is active and inside its window (both ends
  included), the visitor has not dismissed it, every untagged including target matches and no
  untagged excluding one does (each read without error), and the usage caps that are set are not
  reached; targets tagged with a role never matter.
\<close>

theorem eligible_iff:
  "is_eligible p targets ctx now = Inr Eligible \<longleftrightarrow>
    is_currently_active now p \<and> pr_id p \<notin> ec_dismissed ctx
    \<and> list_all (\<lambda>t. target_matches t ctx = Inr (tg_inclusion t)) (filter (\<lambda>t. tg_role t = None) targets)
    \<and> (case pr_usage_limit_total p of None \<Rightarrow> True | Some n \<Rightarrow> ec_convert_count_total ctx < n)
    \<and> (case pr_usage_limit_per_customer p of None \<Rightarrow> True
       | Some n \<Rightarrow> ec_customer_id ctx = None \<or> ec_convert_count_per_customer ctx < n)"
proof (cases "check_targets targets ctx")
  case (Inl e)
  then have "\<not> list_all (\<lambda>t. target_matches t ctx = Inr (tg_inclusion t)) (filter (\<lambda>t. tg_role t = None) targets)"
    using check_targets_None [of targets ctx] by (auto simp: list_all_iff)
  with Inl show ?thesis by (auto simp: is_eligible_def)
next
  case (Inr v)
  show ?thesis
  proof (cases v)
    case None
    then have "list_all (\<lambda>t. target_matches t ctx = Inr (tg_inclusion t)) (filter (\<lambda>t. tg_role t = None) targets)"
      using check_targets_None [of targets ctx] Inr by (auto simp: list_all_iff)
    with Inr None show ?thesis
      by (auto simp: is_eligible_def is_currently_active_def split: option.splits)
  next
    case (Some why)
    then have "\<not> list_all (\<lambda>t. target_matches t ctx = Inr (tg_inclusion t)) (filter (\<lambda>t. tg_role t = None) targets)"
      using check_targets_None [of targets ctx] Inr by (auto simp: list_all_iff)
    moreover have "why \<noteq> Eligible" using check_targets_not_Eligible [of targets ctx] Inr Some by simp
    ultimately show ?thesis using Inr Some by (auto simp: is_eligible_def)
  qed
qed

end
