(* ===== verification/Promotion_Resolver.thy ===== *)
theory Promotion_Resolver
  imports Eligibility "HOL-Library.Product_Lexorder"
begin

text \<open>
  \<open>src/core/services/promotion_resolver.py\<close>: what a visitor of a page is shown. The tables the
  repositories read (\<open>promotion_repository.py\<close>, \<open>promotion_dismissal_repository.py\<close>,
  \<open>promotion_event_repository.py\<close>) are lists of rows; displays and targets are listed in the order
  of their creation, and rows of equal sort key keep their order in the table.
\<close>

section \<open>The tables\<close>

text \<open>\<open>promotion_dismissal.py\<close>: exactly one of customer and visitor token is set.\<close>

record promotion_dismissal =
  di_promotion_id :: uuid
  di_customer_id :: "uuid option"
  di_visitor_token :: "string option"

definition mk_dismissal :: "promotion_dismissal \<Rightarrow> promotion_dismissal result" where
  "mk_dismissal d =
     (if (di_customer_id d \<noteq> None) = (di_visitor_token d \<noteq> None)
      then Inl (ValueError ''exactly one of customer_id or visitor_token must be set'')
      else Inr d)"

datatype promotion_event_type = EvImpression | EvClick | EvDismiss | EvRedeem | EvConvert

record promotion_event =
  pe_promotion_id :: uuid
  pe_event_type :: promotion_event_type
  pe_customer_id :: "uuid option"

record promotion_db =
  db_promotions :: "promotion list"
  db_displays :: "promotion_display list"
  db_targets :: "promotion_target list"
  db_dismissals :: "promotion_dismissal list"
  db_events :: "promotion_event list"

definition list_active_for_storefront ::
    "promotion_db \<Rightarrow> uuid \<Rightarrow> instant \<Rightarrow> bool \<Rightarrow> promotion list" where
  "list_active_for_storefront db store now include_drafts =
     sort_key (\<lambda>p. (- pr_priority p, - pr_created_at p))
       (filter (\<lambda>p. pr_store_id p = store \<and>
          (if include_drafts then pr_status p \<in> {PsActive, PsDraft, PsScheduled, PsPaused}
           else pr_status p = PsActive
             \<and> (case pr_starts_at p of None \<Rightarrow> True | Some s \<Rightarrow> s \<le> now)
             \<and> (case pr_ends_at p of None \<Rightarrow> True | Some e \<Rightarrow> now < e)))
         (db_promotions db))"

definition displays_for :: "promotion_db \<Rightarrow> uuid \<Rightarrow> promotion_display list" where
  "displays_for db i = filter (\<lambda>d. dp_promotion_id d = i) (db_displays db)"

definition targets_for :: "promotion_db \<Rightarrow> uuid \<Rightarrow> promotion_target list" where
  "targets_for db i = filter (\<lambda>t. tg_promotion_id t = i) (db_targets db)"

text \<open>An insert that conflicts with one of the two unique indexes does nothing.\<close>

definition record_dismissal :: "promotion_dismissal \<Rightarrow> promotion_db \<Rightarrow> promotion_db" where
  "record_dismissal d db =
     (if list_ex (\<lambda>e. di_promotion_id e = di_promotion_id d
          \<and> ((di_customer_id d \<noteq> None \<and> di_customer_id e = di_customer_id d)
             \<or> (di_visitor_token d \<noteq> None \<and> di_visitor_token e = di_visitor_token d)))
          (db_dismissals db)
      then db else db\<lparr>db_dismissals := db_dismissals db @ [d]\<rparr>)"

definition list_dismissed_promotion_ids ::
    "promotion_db \<Rightarrow> uuid \<Rightarrow> uuid option \<Rightarrow> string option \<Rightarrow> uuid list" where
  "list_dismissed_promotion_ids db store customer visitor =
     (if customer = None \<and> visitor = None then []
      else map di_promotion_id (filter (\<lambda>d.
          list_ex (\<lambda>p. pr_id p = di_promotion_id d \<and> pr_store_id p = store) (db_promotions db)
          \<and> ((customer \<noteq> None \<and> di_customer_id d = customer)
             \<or> (visitor \<noteq> None \<and> di_visitor_token d = visitor))) (db_dismissals db)))"

definition count_conversions :: "promotion_db \<Rightarrow> uuid \<Rightarrow> int" where
  "count_conversions db i =
     int (length (filter (\<lambda>e. pe_promotion_id e = i \<and> pe_event_type e = EvConvert) (db_events db)))"

definition count_conversions_for_customer :: "promotion_db \<Rightarrow> uuid \<Rightarrow> uuid \<Rightarrow> int" where
  "count_conversions_for_customer db i c =
     int (length (filter (\<lambda>e. pe_promotion_id e = i \<and> pe_customer_id e = Some c
        \<and> pe_event_type e = EvConvert) (db_events db)))"

section \<open>Resolution\<close>

record resolved_promotion =
  rs_promotion :: promotion
  rs_display :: "promotion_display option"
  rs_targets :: "promotion_target list"

record resolved_promotions =
  rp_announcement_bars :: "resolved_promotion list"
  rp_popups :: "resolved_promotion list"
  rp_floating_widgets :: "resolved_promotion list"
  rp_cookie_banner :: "resolved_promotion option"
  rp_auto_discounts :: "resolved_promotion list"
  rp_discount_codes_visible :: "resolved_promotion list"

fun first_matching_display ::
    "promotion_display list \<Rightarrow> string \<Rightarrow> string \<Rightarrow> promotion_display option" where
  "first_matching_display [] path device = None"
| "first_matching_display (d # ds) path device =
     (if \<not> dp_is_enabled d then first_matching_display ds path device
      else if \<not> matches_page d path then first_matching_display ds path device
      else if \<not> matches_device d device then first_matching_display ds path device
      else Some d)"

text \<open>
  The context of one promotion: the visitor's, with the dismissals of the customer and, where an
  event repository is wired, the conversion counts of the caps that are set.
\<close>

definition scoped_context ::
    "promotion_db \<Rightarrow> bool \<Rightarrow> uuid \<Rightarrow> eligibility_context \<Rightarrow> promotion \<Rightarrow> eligibility_context" where
  "scoped_context db has_events store ctx p =
     ctx\<lparr>ec_dismissed := ec_dismissed ctx
           \<union> set (list_dismissed_promotion_ids db store (ec_customer_id ctx) None),
         ec_convert_count_total :=
           (if has_events \<and> pr_usage_limit_total p \<noteq> None then count_conversions db (pr_id p) else 0),
         ec_convert_count_per_customer := (case ec_customer_id ctx of
             Some c \<Rightarrow> if has_events \<and> pr_usage_limit_per_customer p \<noteq> None
                then count_conversions_for_customer db (pr_id p) c else 0
           | None \<Rightarrow> 0)\<rparr>"

definition resolve_one ::
    "promotion_db \<Rightarrow> bool \<Rightarrow> uuid \<Rightarrow> eligibility_context \<Rightarrow> string \<Rightarrow> instant \<Rightarrow> promotion
      \<Rightarrow> (promotion_surface \<Rightarrow> resolved_promotion list)
      \<Rightarrow> (promotion_surface \<Rightarrow> resolved_promotion list) result" where
  "resolve_one db has_events store ctx path now p buckets =
     (let targets = targets_for db (pr_id p) in
      rbind (is_eligible p targets (scoped_context db has_events store ctx p) now) (\<lambda>verdict.
        if verdict \<noteq> Eligible then Inr buckets
        else (let display = first_matching_display (displays_for db (pr_id p)) path (ec_device ctx)
              in if display = None \<and> pr_surface p \<notin> {SfDiscountCode, SfAutomatic} then Inr buckets
                 else Inr (buckets(pr_surface p := buckets (pr_surface p)
                   @ [\<lparr>rs_promotion = p, rs_display = display, rs_targets = targets\<rparr>])))))"

definition bucket_key :: "resolved_promotion \<Rightarrow> int \<times> instant" where
  "bucket_key r = (- pr_priority (rs_promotion r), pr_created_at (rs_promotion r))"

definition resolve_active_for_visitor ::
    "promotion_db \<Rightarrow> bool \<Rightarrow> uuid \<Rightarrow> eligibility_context \<Rightarrow> string \<Rightarrow> instant \<Rightarrow> bool
      \<Rightarrow> resolved_promotions result" where
  "resolve_active_for_visitor db has_events store ctx path now preview =
     (let promotions = list_active_for_storefront db store now preview in
      if promotions = []
      then Inr \<lparr>rp_announcement_bars = [], rp_popups = [], rp_floating_widgets = [],
                rp_cookie_banner = None, rp_auto_discounts = [], rp_discount_codes_visible = []\<rparr>
      else rbind (foldM (resolve_one db has_events store ctx path now) promotions (\<lambda>s. [])) (\<lambda>buckets.
        let sorted = (\<lambda>s. sort_key bucket_key (buckets s)) in
        Inr \<lparr>rp_announcement_bars = sorted SfAnnouncementBar, rp_popups = sorted SfPopup,
             rp_floating_widgets = sorted SfFloatingWidget,
             rp_cookie_banner = (case sorted SfCookieBanner of [] \<Rightarrow> None | r # _ \<Rightarrow> Some r),
             rp_auto_discounts = sorted SfAutomatic,
             rp_discount_codes_visible = sorted SfDiscountCode\<rparr>))"

section \<open>What is shown\<close>

definition shown_on :: "resolved_promotions \<Rightarrow> promotion_surface \<Rightarrow> resolved_promotion list" where
  "shown_on out s = (case s of
      SfAnnouncementBar \<Rightarrow> rp_announcement_bars out
    | SfPopup \<Rightarrow> rp_popups out
    | SfFloatingWidget \<Rightarrow> rp_floating_widgets out
    | SfCookieBanner \<Rightarrow> (case rp_cookie_banner out of None \<Rightarrow> [] | Some r \<Rightarrow> [r])
    | SfAutomatic \<Rightarrow> rp_auto_discounts out
    | SfDiscountCode \<Rightarrow> rp_discount_codes_visible out)"

text \<open>The entry of a promotion that is to be shown, if it is.\<close>

definition entry_of ::
    "promotion_db \<Rightarrow> bool \<Rightarrow> uuid \<Rightarrow> eligibility_context \<Rightarrow> string \<Rightarrow> instant \<Rightarrow> promotion
      \<Rightarrow> resolved_promotion option" where
  "entry_of db has_events store ctx path now p =
     (let display = first_matching_display (displays_for db (pr_id p)) path (ec_device ctx)
      in if is_eligible p (targets_for db (pr_id p)) (scoped_context db has_events store ctx p) now
              = Inr Eligible
            \<and> (display \<noteq> None \<or> pr_surface p \<in> {SfDiscountCode, SfAutomatic})
         then Some \<lparr>rs_promotion = p, rs_display = display, rs_targets = targets_for db (pr_id p)\<rparr>
         else None)"

lemma resolve_one_entry:
  assumes "resolve_one db he store ctx path now p buckets = Inr buckets'"
  shows "buckets' s = buckets s @ (case entry_of db he store ctx path now p of
     None \<Rightarrow> [] | Some r \<Rightarrow> if pr_surface p = s then [r] else [])"
proof -
  obtain v where v: "is_eligible p (targets_for db (pr_id p)) (scoped_context db he store ctx p) now = Inr v"
    using assms by (auto simp: resolve_one_def rbind_Inr_iff Let_def)
  show ?thesis
  proof (cases "v = Eligible \<and> (first_matching_display (displays_for db (pr_id p)) path (ec_device ctx) \<noteq> None
      \<or> pr_surface p \<in> {SfDiscountCode, SfAutomatic})")
    case True
    then show ?thesis using assms v
      by (simp add: resolve_one_def entry_of_def Let_def del: not_None_eq) (auto simp del: not_None_eq)
  next
    case False
    then show ?thesis using assms v
      by (cases "v = Eligible") (simp_all add: resolve_one_def entry_of_def Let_def)
  qed
qed

lemma resolve_all:
  assumes "foldM (resolve_one db he store ctx path now) ps buckets = Inr buckets'"
  shows "set (buckets' s) = set (buckets s)
    \<union> {r. \<exists>p\<in>set ps. pr_surface p = s \<and> entry_of db he store ctx path now p = Some r}"
  using assms
proof (induction ps arbitrary: buckets)
  case (Cons p ps)
  obtain b1 where b1: "resolve_one db he store ctx path now p buckets = Inr b1"
    and rest: "foldM (resolve_one db he store ctx path now) ps b1 = Inr buckets'"
    using Cons.prems by (auto simp: rbind_Inr_iff)
  from Cons.IH [OF rest] resolve_one_entry [OF b1, of s] show ?case
    by (cases "entry_of db he store ctx path now p") auto
qed simp

text \<open>The buckets before the cookie banner is reduced to its winner.\<close>

lemma resolve_buckets:
  assumes "resolve_active_for_visitor db he store ctx path now preview = Inr out"
  obtains buckets where
    "\<And>s. set (buckets s) = {r. \<exists>p\<in>set (list_active_for_storefront db store now preview).
        pr_surface p = s \<and> entry_of db he store ctx path now p = Some r}"
    "\<And>s. sorted (map bucket_key (buckets s))"
    "\<And>s. shown_on out s = (if s = SfCookieBanner then take 1 (buckets s) else buckets s)"
proof (cases "list_active_for_storefront db store now preview = []")
  case True
  then show ?thesis using assms
    by (intro that [of "\<lambda>s. []"])
      (auto simp: resolve_active_for_visitor_def shown_on_def split: promotion_surface.split)
next
  case False
  obtain b where b: "foldM (resolve_one db he store ctx path now)
      (list_active_for_storefront db store now preview) (\<lambda>s. []) = Inr b"
    using assms False by (auto simp: resolve_active_for_visitor_def rbind_Inr_iff Let_def)
  show ?thesis
  proof (rule that [of "\<lambda>s. sort_key bucket_key (b s)"])
    fix s
    show "set (sort_key bucket_key (b s)) = {r. \<exists>p\<in>set (list_active_for_storefront db store now preview).
        pr_surface p = s \<and> entry_of db he store ctx path now p = Some r}"
      using resolve_all [OF b, of s] by simp
    show "sorted (map bucket_key (sort_key bucket_key (b s)))" by simp
    show "shown_on out s = (if s = SfCookieBanner then take 1 (sort_key bucket_key (b s))
        else sort_key bucket_key (b s))"
      using assms False b
      by (cases s; cases "sort_key bucket_key (b SfCookieBanner)")
        (auto simp: resolve_active_for_visitor_def shown_on_def Let_def)
  qed
qed

lemma in_list_active:
  "p \<in> set (list_active_for_storefront db store now preview) \<longleftrightarrow>
    p \<in> set (db_promotions db) \<and> pr_store_id p = store
    \<and> (if preview then pr_status p \<in> {PsActive, PsDraft, PsScheduled, PsPaused}
       else is_currently_active now p \<and> pr_ends_at p \<noteq> Some now)"
  by (auto simp: list_active_for_storefront_def is_currently_active_def split: option.splits)

lemma entry_of_Some:
  assumes "entry_of db he store ctx path now p = Some r"
  shows "rs_promotion r = p \<and> is_currently_active now p
    \<and> pr_id p \<notin> set (list_dismissed_promotion_ids db store (ec_customer_id ctx) None)
    \<and> (rs_display r = None \<longrightarrow> pr_surface p \<in> {SfDiscountCode, SfAutomatic})"
proof -
  let ?c = "scoped_context db he store ctx p" and ?ts = "targets_for db (pr_id p)"
  let ?d = "first_matching_display (displays_for db (pr_id p)) path (ec_device ctx)"
  have e: "is_eligible p ?ts ?c now = Inr Eligible"
    "?d \<noteq> None \<or> pr_surface p \<in> {SfDiscountCode, SfAutomatic}"
    "r = \<lparr>rs_promotion = p, rs_display = ?d, rs_targets = ?ts\<rparr>"
    using assms by (auto simp: entry_of_def Let_def split: if_splits)
  have "is_currently_active now p \<and> pr_id p \<notin> ec_dismissed ?c"
    using is_eligible_active [OF e(1)] .
  moreover have "set (list_dismissed_promotion_ids db store (ec_customer_id ctx) None) \<subseteq> ec_dismissed ?c"
    by (simp add: scoped_context_def)
  ultimately show ?thesis using e(2,3) by auto
qed

definition demo_promotion_db :: promotion_db where
  "demo_promotion_db = \<lparr>
     db_promotions = [demo_promotion 1 PsActive, (demo_promotion 2 PsDraft)\<lparr>pr_priority := 9\<rparr>,
       (demo_promotion 3 PsActive)\<lparr>pr_priority := 5\<rparr>, demo_promotion 4 PsActive],
     db_displays = [], db_targets = [],
     db_dismissals = [\<lparr>di_promotion_id = 4, di_customer_id = Some 7, di_visitor_token = None\<rparr>],
     db_events = []\<rparr>"

lemma first_matching_display_Some:
  "first_matching_display ds path device = Some d \<Longrightarrow>
    d \<in> set ds \<and> dp_is_enabled d \<and> matches_page d path \<and> matches_device d device"
  by (induction ds path device rule: first_matching_display.induct) (auto split: if_splits)

lemma entry_display:
  assumes "entry_of db he store ctx path now p = Some r" "rs_display r = Some d"
  shows "d \<in> set (db_displays db) \<and> dp_promotion_id d = pr_id p
    \<and> dp_is_enabled d \<and> matches_page d path \<and> matches_device d (ec_device ctx)"
proof -
  have "rs_display r = first_matching_display (displays_for db (pr_id p)) path (ec_device ctx)"
    using assms(1) by (auto simp: entry_of_def Let_def split: if_splits)
  then have "first_matching_display (displays_for db (pr_id p)) path (ec_device ctx) = Some d"
    using assms(2) by simp
  from first_matching_display_Some [OF this] show ?thesis by (simp add: displays_for_def)
qed



end
