(* ===== verification/Ledger.thy ===== *)
theory Ledger
  imports Numu_Prelude "HOL-Library.Sublist"
begin

text \<open>
  The contract of an append-only ledger, as the gift cards and the merchant wallets keep one: a
  request that is accepted appends entries to the accounts and moves each balance by exactly what
  it appended. The client's facts follow: at any time the balance of an account is the sum of its
  entries, and no entry is ever changed or removed.
\<close>

locale ledger_book =
  fixes act :: "'c \<Rightarrow> 's \<Rightarrow> 's result"
    and ok :: "'s \<Rightarrow> bool"
    and balance :: "'s \<Rightarrow> 'k \<Rightarrow> int"
    and entries :: "'s \<Rightarrow> 'k \<Rightarrow> int list"
  assumes act_ok: "ok s \<Longrightarrow> act c s = Inr t \<Longrightarrow> ok t"
    and act_posts: "ok s \<Longrightarrow> act c s = Inr t \<Longrightarrow>
      \<exists>d. entries t k = entries s k @ d \<and> balance t k = balance s k + sum_list d"
begin

definition balanced :: "'s \<Rightarrow> bool" where
  "balanced s \<longleftrightarrow> ok s \<and> (\<forall>k. balance s k = sum_list (entries s k))"

lemma serve_ok: "ok s \<Longrightarrow> ok (serve act c s)"
  using act_ok by (cases "act c s") (auto simp: serve_def)

lemma serve_posts:
  "ok s \<Longrightarrow> \<exists>d. entries (serve act c s) k = entries s k @ d
    \<and> balance (serve act c s) k = balance s k + sum_list d"
  using act_posts [of s c] by (cases "act c s") (auto simp: serve_def)

lemma serve_all_ok: "ok s \<Longrightarrow> ok (serve_all act cs s)"
  by (rule serve_all_invariant [where I = ok]) (auto intro: act_ok)

lemma serve_all_posts:
  "ok s \<Longrightarrow> \<exists>d. entries (serve_all act cs s) k = entries s k @ d
    \<and> balance (serve_all act cs s) k = balance s k + sum_list d"
proof (induction cs arbitrary: s)
  case (Cons c cs)
  obtain d where d: "entries (serve act c s) k = entries s k @ d"
    "balance (serve act c s) k = balance s k + sum_list d" using serve_posts [OF Cons.prems] by blast
  obtain e where "entries (serve_all act cs (serve act c s)) k = entries (serve act c s) k @ e"
    "balance (serve_all act cs (serve act c s)) k = balance (serve act c s) k + sum_list e"
    using Cons.IH [OF serve_ok [OF Cons.prems]] by blast
  with d show ?case by (intro exI [of _ "d @ e"]) simp
qed simp

lemma books_balance:
  assumes "balanced s" shows "balanced (serve_all act cs s)"
proof -
  have "balance (serve_all act cs s) k = sum_list (entries (serve_all act cs s) k)" for k
    using serve_all_posts [of s cs k] assms by (auto simp: balanced_def)
  then show ?thesis using assms serve_all_ok by (simp add: balanced_def)
qed

lemma append_only: "ok s \<Longrightarrow> prefix (entries s k) (entries (serve_all act cs s) k)"
  using serve_all_posts [of s cs k] by (auto simp: prefix_def)

end

text \<open>
  A ledger whose entries carry a snapshot of the balance after them: the snapshots of an account
  are the running sums of its entries.
\<close>

fun running :: "int \<Rightarrow> int list \<Rightarrow> int list" where
  "running b [] = []"
| "running b (x # xs) = (b + x) # running (b + x) xs"

lemma running_append: "running b (xs @ ys) = running b xs @ running (b + sum_list xs) ys"
  by (induction xs arbitrary: b) (simp_all add: algebra_simps)

locale audited_ledger = ledger_book act ok balance entries
  for act :: "'c \<Rightarrow> 's \<Rightarrow> 's result"
    and ok :: "'s \<Rightarrow> bool"
    and balance :: "'s \<Rightarrow> 'k \<Rightarrow> int"
    and entries :: "'s \<Rightarrow> 'k \<Rightarrow> int list" +
  fixes snapshots :: "'s \<Rightarrow> 'k \<Rightarrow> int list"
  assumes act_snapshots: "ok s \<Longrightarrow> act c s = Inr t \<Longrightarrow>
      \<exists>d. entries t k = entries s k @ d \<and> snapshots t k = snapshots s k @ running (balance s k) d"
begin

definition audited :: "'s \<Rightarrow> bool" where
  "audited s \<longleftrightarrow> balanced s \<and> (\<forall>k. snapshots s k = running 0 (entries s k))"

lemma act_audited:
  assumes "audited s" "act c s = Inr t" shows "audited t"
proof -
  have ok: "ok s" and bal: "balance s k = sum_list (entries s k)" for k
    using assms(1) by (simp_all add: audited_def balanced_def)
  have "balance t k = sum_list (entries t k)" for k
    using act_posts [OF ok assms(2), of k] bal by auto
  moreover have "snapshots t k = running 0 (entries t k)" for k
    using act_snapshots [OF ok assms(2), of k] assms(1) bal by (auto simp: audited_def running_append)
  ultimately show ?thesis using act_ok [OF ok assms(2)] by (simp add: audited_def balanced_def)
qed

lemma books_audited: "audited s \<Longrightarrow> audited (serve_all act cs s)"
  by (rule serve_all_invariant [where I = audited]) (auto intro: act_audited)

end

end
