(* ===== verification/Gift_Card.thy ===== *)
theory Gift_Card
  imports Ledger Tables
begin

text \<open>
  Gift cards: the entity of \<open>src/core/entities/gift_card.py\<close>, the two tables behind
  \<open>src/infrastructure/repositories/gift_card_repository.py\<close> as lists of rows, and the service of
  \<open>src/application/services/gift_card_service.py\<close>. The SHA-256 digest is the argument \<open>sha\<close>, and
  the random choices of a code are an argument, as is the clock.
\<close>

section \<open>Cards and codes\<close>

datatype gift_card_status = GcActive | GcDepleted | GcExpired | GcVoided

datatype transaction_kind = TkIssue | TkRedeem | TkRefund | TkAdjust | TkVoid

definition normalize_code :: "string \<Rightarrow> string" where
  "normalize_code code = filter is_alnum (upper code)"

definition hash_code :: "(string \<Rightarrow> string) \<Rightarrow> string \<Rightarrow> string" where
  "hash_code sha code = sha (normalize_code code)"

record gift_card =
  gc_id :: uuid
  gc_tenant_id :: uuid
  gc_store_id :: uuid
  gc_code_hash :: string
  gc_last_four :: string
  gc_initial_balance_cents :: int
  gc_current_balance_cents :: int
  gc_currency :: string
  gc_status :: gift_card_status
  gc_customer_id :: "uuid option"
  gc_issued_by_user_id :: "uuid option"
  gc_issuing_order_id :: "uuid option"
  gc_expires_at :: "instant option"
  gc_note :: "string option"

definition mk_gift_card :: "gift_card \<Rightarrow> gift_card result" where
  "mk_gift_card c =
     (if 0 \<le> gc_initial_balance_cents c \<and> 0 \<le> gc_current_balance_cents c
         \<and> length (gc_currency c) = 3
      then Inr c else Inl (ValueError ''gift card fields''))"

definition is_redeemable :: "instant \<Rightarrow> gift_card \<Rightarrow> bool" where
  "is_redeemable now c =
     (if gc_status c \<noteq> GcActive then False
      else if gc_current_balance_cents c \<le> 0 then False
      else if (case gc_expires_at c of None \<Rightarrow> False | Some e \<Rightarrow> e \<le> now) then False
      else True)"

record gift_card_transaction =
  gt_tenant_id :: uuid
  gt_store_id :: uuid
  gt_gift_card_id :: uuid
  gt_kind :: transaction_kind
  gt_amount_cents :: int
  gt_order_id :: "uuid option"
  gt_actor_user_id :: "uuid option"
  gt_actor_customer_id :: "uuid option"
  gt_note :: "string option"

definition code_alphabet :: string where
  "code_alphabet = ''ABCDEFGHJKMNPQRSTVWXYZ23456789''"

definition code_length :: nat where
  "code_length = 16"

text \<open>\<open>picks i\<close> is the index the \<open>i\<close>-th \<open>secrets.choice\<close> draws.\<close>

definition generate_code :: "(nat \<Rightarrow> nat) \<Rightarrow> string" where
  "generate_code picks =
     (let body = map (\<lambda>i. code_alphabet ! (picks i mod length code_alphabet)) [0..<code_length];
          chunks = map (\<lambda>i. take 4 (drop (4 * i) body)) [0..<code_length div 4]
      in ''GC-'' @ concat (map (\<lambda>c. c @ ''-'') (butlast chunks)) @ last chunks)"

section \<open>The repository\<close>

record gift_card_db =
  gd_cards :: "gift_card list"
  gd_transactions :: "gift_card_transaction list"

definition gc_get_by_id :: "uuid \<Rightarrow> gift_card_db \<Rightarrow> gift_card option" where
  "gc_get_by_id i db = List.find (\<lambda>c. gc_id c = i) (gd_cards db)"

definition gc_get_by_code ::
    "(string \<Rightarrow> string) \<Rightarrow> string \<Rightarrow> uuid \<Rightarrow> gift_card_db \<Rightarrow> gift_card option" where
  "gc_get_by_code sha code store db =
     List.find (\<lambda>c. gc_code_hash c = hash_code sha code \<and> gc_store_id c = store) (gd_cards db)"

text \<open>The insert breaks the primary key or the unique index on the hash when either is taken.\<close>

definition gc_create :: "gift_card \<Rightarrow> gift_card_db \<Rightarrow> gift_card_db result" where
  "gc_create gcard db =
     (if list_ex (\<lambda>c. gc_id c = gc_id gcard \<or> gc_code_hash c = gc_code_hash gcard) (gd_cards db)
      then Inl (IntegrityError ''gift_cards'')
      else Inr (db\<lparr>gd_cards := gd_cards db @ [gcard]\<rparr>))"

definition gc_list_transactions :: "uuid \<Rightarrow> gift_card_db \<Rightarrow> gift_card_transaction list" where
  "gc_list_transactions i db = rev (filter (\<lambda>t. gt_gift_card_id t = i) (gd_transactions db))"

definition gc_list_for_store ::
    "uuid \<Rightarrow> gift_card_status option \<Rightarrow> gift_card_db \<Rightarrow> gift_card list" where
  "gc_list_for_store store status db =
     rev (filter (\<lambda>c. gc_store_id c = store
       \<and> (case status of None \<Rightarrow> True | Some s \<Rightarrow> gc_status c = s)) (gd_cards db))"

definition gc_list_for_customer :: "uuid \<Rightarrow> gift_card_db \<Rightarrow> gift_card list" where
  "gc_list_for_customer customer db = rev (filter (\<lambda>c. gc_customer_id c = Some customer) (gd_cards db))"

record tx_args =
  ta_order_id :: "uuid option"
  ta_actor_user_id :: "uuid option"
  ta_actor_customer_id :: "uuid option"
  ta_note :: "string option"

definition gc_apply_transaction ::
    "uuid \<Rightarrow> transaction_kind \<Rightarrow> int \<Rightarrow> tx_args \<Rightarrow> bool \<Rightarrow> gift_card_db
      \<Rightarrow> (gift_card \<times> gift_card_db) result" where
  "gc_apply_transaction i kind amount_cents args allow_negative db =
     (case gc_get_by_id i db of
        None \<Rightarrow> Inl (ValueError ''Gift card not found'')
      | Some row \<Rightarrow>
          (let new_balance = gc_current_balance_cents row + amount_cents in
           if new_balance < 0 \<and> \<not> allow_negative
           then Inl (ValueError ''Gift card balance insufficient'')
           else (let bal = max 0 new_balance;
                     status = (if kind = TkVoid then GcVoided
                       else if bal = 0 \<and> gc_status row = GcActive then GcDepleted
                       else if gc_status row = GcDepleted \<and> 0 < bal then GcActive
                       else gc_status row);
                     row' = row\<lparr>gc_current_balance_cents := bal, gc_status := status\<rparr>;
                     tx = \<lparr>gt_tenant_id = gc_tenant_id row, gt_store_id = gc_store_id row,
                       gt_gift_card_id = gc_id row, gt_kind = kind, gt_amount_cents = amount_cents,
                       gt_order_id = ta_order_id args, gt_actor_user_id = ta_actor_user_id args,
                       gt_actor_customer_id = ta_actor_customer_id args, gt_note = ta_note args\<rparr>
                 in Inr (row', db\<lparr>gd_cards := map (\<lambda>c. if gc_id c = i then row' else c) (gd_cards db),
                      gd_transactions := gd_transactions db @ [tx]\<rparr>))))"

section \<open>The service\<close>

text \<open>The codes of the (at most three) draws, up to the first whose hash is free.\<close>

fun draw_code ::
    "(string \<Rightarrow> string) \<Rightarrow> gift_card_db \<Rightarrow> (nat \<Rightarrow> nat) list \<Rightarrow> string result" where
  "draw_code sha db [] = Inl (RuntimeError ''Gift card code generation failed (3 collisions)'')"
| "draw_code sha db (picks # rest) =
     (let code = generate_code picks in
      if List.find (\<lambda>c. gc_code_hash c = hash_code sha code) (gd_cards db) = None
      then Inr code else draw_code sha db rest)"

record issue_request =
  ir_tenant_id :: uuid
  ir_store_id :: uuid
  ir_amount_cents :: int
  ir_currency :: string
  ir_customer_id :: "uuid option"
  ir_issued_by_user_id :: "uuid option"
  ir_issuing_order_id :: "uuid option"
  ir_expires_at :: "instant option"
  ir_note :: "string option"

definition gc_issue ::
    "(string \<Rightarrow> string) \<Rightarrow> uuid \<Rightarrow> (nat \<Rightarrow> nat) \<times> (nat \<Rightarrow> nat) \<times> (nat \<Rightarrow> nat) \<Rightarrow> issue_request
      \<Rightarrow> gift_card_db \<Rightarrow> ((gift_card \<times> string) \<times> gift_card_db) result" where
  "gc_issue sha new_id draws r db =
     (if ir_amount_cents r \<le> 0 then Inl (ValueError ''Gift card initial balance must be > 0'')
      else rbind (draw_code sha db [fst draws, fst (snd draws), snd (snd draws)]) (\<lambda>code.
        let normalized = normalize_code code in
        rbind (mk_gift_card \<lparr>gc_id = new_id, gc_tenant_id = ir_tenant_id r, gc_store_id = ir_store_id r,
            gc_code_hash = hash_code sha code,
            gc_last_four = drop (length normalized - 4) normalized,
            gc_initial_balance_cents = ir_amount_cents r, gc_current_balance_cents = 0,
            gc_currency = ir_currency r, gc_status = GcActive, gc_customer_id = ir_customer_id r,
            gc_issued_by_user_id = ir_issued_by_user_id r,
            gc_issuing_order_id = ir_issuing_order_id r, gc_expires_at = ir_expires_at r,
            gc_note = ir_note r\<rparr>) (\<lambda>gcard.
        rbind (gc_create gcard db) (\<lambda>db1.
        rbind (gc_apply_transaction new_id TkIssue (ir_amount_cents r)
            \<lparr>ta_order_id = None, ta_actor_user_id = ir_issued_by_user_id r,
             ta_actor_customer_id = None,
             ta_note = Some (''issued: '' @ int_str (ir_amount_cents r) @ '' '' @ ir_currency r)\<rparr>
            False db1) (\<lambda>(credited, db2).
          Inr ((credited, code), db2))))))"

definition gc_redeem ::
    "instant \<Rightarrow> uuid \<Rightarrow> int \<Rightarrow> uuid \<Rightarrow> uuid option \<Rightarrow> gift_card_db \<Rightarrow> (gift_card \<times> gift_card_db) result" where
  "gc_redeem now i amount_cents order_id actor_customer db =
     (if amount_cents \<le> 0 then Inl (ValueError ''Redemption amount must be > 0'')
      else case gc_get_by_id i db of
        None \<Rightarrow> Inl (ValueError ''Gift card not found'')
      | Some gcard \<Rightarrow>
          if \<not> is_redeemable now gcard then Inl (ValueError ''Gift card not redeemable'')
          else if gc_current_balance_cents gcard < amount_cents
          then Inl (ValueError ''Redemption exceeds balance'')
          else gc_apply_transaction i TkRedeem (- amount_cents)
                 \<lparr>ta_order_id = Some order_id, ta_actor_user_id = None,
                  ta_actor_customer_id = actor_customer, ta_note = None\<rparr> False db)"

definition gc_refund ::
    "uuid \<Rightarrow> int \<Rightarrow> uuid \<Rightarrow> string option \<Rightarrow> gift_card_db \<Rightarrow> (gift_card \<times> gift_card_db) result" where
  "gc_refund i amount_cents order_id note db =
     (if amount_cents \<le> 0 then Inl (ValueError ''Refund amount must be > 0'')
      else gc_apply_transaction i TkRefund amount_cents
             \<lparr>ta_order_id = Some order_id, ta_actor_user_id = None, ta_actor_customer_id = None,
              ta_note = note\<rparr> False db)"

definition gc_void ::
    "uuid \<Rightarrow> uuid option \<Rightarrow> string option \<Rightarrow> gift_card_db \<Rightarrow> (gift_card \<times> gift_card_db) result" where
  "gc_void i actor_user note db =
     (case gc_get_by_id i db of
        None \<Rightarrow> Inl (ValueError ''Gift card not found'')
      | Some gcard \<Rightarrow>
          (let remaining = gc_current_balance_cents gcard in
           gc_apply_transaction i TkVoid (if 0 < remaining then - remaining else 0)
             \<lparr>ta_order_id = None, ta_actor_user_id = actor_user, ta_actor_customer_id = None,
              ta_note = (if truthy_str note then note else Some ''voided by merchant'')\<rparr> False db))"

section \<open>Requests\<close>

datatype gift_card_call =
    GcIssue uuid "(nat \<Rightarrow> nat) \<times> (nat \<Rightarrow> nat) \<times> (nat \<Rightarrow> nat)" issue_request
  | GcRedeem instant uuid int uuid "uuid option"
  | GcRefund uuid int uuid "string option"
  | GcVoid uuid "uuid option" "string option"

fun gift_card_act ::
    "(string \<Rightarrow> string) \<Rightarrow> gift_card_call \<Rightarrow> gift_card_db \<Rightarrow> gift_card_db result" where
  "gift_card_act sha (GcIssue i draws r) db = map_sum id snd (gc_issue sha i draws r db)"
| "gift_card_act sha (GcRedeem now i n o' c) db = map_sum id snd (gc_redeem now i n o' c db)"
| "gift_card_act sha (GcRefund i n o' note) db = map_sum id snd (gc_refund i n o' note db)"
| "gift_card_act sha (GcVoid i u note) db = map_sum id snd (gc_void i u note db)"

section \<open>The books\<close>

definition gc_balance :: "gift_card_db \<Rightarrow> uuid \<Rightarrow> int" where
  "gc_balance db i = (case gc_get_by_id i db of None \<Rightarrow> 0 | Some c \<Rightarrow> gc_current_balance_cents c)"

definition gc_entries :: "gift_card_db \<Rightarrow> uuid \<Rightarrow> int list" where
  "gc_entries db i = map gt_amount_cents (filter (\<lambda>t. gt_gift_card_id t = i) (gd_transactions db))"

text \<open>A card is active exactly while it holds money, until it is voided.\<close>

definition card_ok :: "gift_card \<Rightarrow> bool" where
  "card_ok c \<longleftrightarrow> 0 \<le> gc_current_balance_cents c
     \<and> (gc_status c = GcActive \<longrightarrow> 0 < gc_current_balance_cents c)
     \<and> (gc_status c = GcDepleted \<longrightarrow> gc_current_balance_cents c = 0)"

definition keys_ok :: "gift_card_db \<Rightarrow> bool" where
  "keys_ok db \<longleftrightarrow> distinct (map gc_id (gd_cards db)) \<and> distinct (map gc_code_hash (gd_cards db))
     \<and> gt_gift_card_id ` set (gd_transactions db) \<subseteq> gc_id ` set (gd_cards db)"

definition gift_db_ok :: "gift_card_db \<Rightarrow> bool" where
  "gift_db_ok db \<longleftrightarrow> keys_ok db \<and> (\<forall>c\<in>set (gd_cards db). card_ok c)"

lemma get_by_id_in:
  assumes "keys_ok db"
  shows "gc_get_by_id i db = Some c \<longleftrightarrow> c \<in> set (gd_cards db) \<and> gc_id c = i"
  using assms find_key_Some [of gc_id "gd_cards db" i c] by (simp add: gc_get_by_id_def keys_ok_def)

text \<open>What one transaction does to the tables.\<close>

lemma apply_transaction_spec:
  assumes t: "gc_apply_transaction i kind n args False db = Inr (c', db')" and k: "keys_ok db"
  obtains c where "gc_get_by_id i db = Some c" "0 \<le> gc_current_balance_cents c + n"
    "c' = c\<lparr>gc_current_balance_cents := gc_current_balance_cents c + n,
       gc_status := (if kind = TkVoid then GcVoided
         else if gc_current_balance_cents c + n = 0 \<and> gc_status c = GcActive then GcDepleted
         else if gc_status c = GcDepleted \<and> 0 < gc_current_balance_cents c + n then GcActive
         else gc_status c)\<rparr>"
    "\<And>j. gc_get_by_id j db' = (if j = i then Some c' else gc_get_by_id j db)"
    "\<And>j. gc_entries db' j = gc_entries db j @ (if j = i then [n] else [])"
    "keys_ok db'" "gd_cards db' = map (\<lambda>x. if gc_id x = i then c' else x) (gd_cards db)"
proof -
  obtain c where c: "gc_get_by_id i db = Some c" "0 \<le> gc_current_balance_cents c + n"
    using t by (auto simp: gc_apply_transaction_def Let_def split: option.splits if_splits)
  define d where "d = c\<lparr>gc_current_balance_cents := gc_current_balance_cents c + n,
       gc_status := (if kind = TkVoid then GcVoided
         else if gc_current_balance_cents c + n = 0 \<and> gc_status c = GcActive then GcDepleted
         else if gc_status c = GcDepleted \<and> 0 < gc_current_balance_cents c + n then GcActive
         else gc_status c)\<rparr>"
  have id: "c \<in> set (gd_cards db)" "gc_id c = i" using get_by_id_in [OF k] c(1) by simp_all
  have d: "gc_id d = i" "gc_code_hash d = gc_code_hash c" by (simp_all add: d_def id)
  have dn: "\<not> gc_current_balance_cents c + n < 0" "max 0 (gc_current_balance_cents c + n)
      = gc_current_balance_cents c + n" using c(2) by simp_all
  have "c' = d \<and> db' = db\<lparr>gd_cards := map (\<lambda>x. if gc_id x = i then d else x) (gd_cards db),
    gd_transactions := gd_transactions db @ [\<lparr>gt_tenant_id = gc_tenant_id c, gt_store_id = gc_store_id c,
       gt_gift_card_id = i, gt_kind = kind, gt_amount_cents = n, gt_order_id = ta_order_id args,
       gt_actor_user_id = ta_actor_user_id args, gt_actor_customer_id = ta_actor_customer_id args,
       gt_note = ta_note args\<rparr>]\<rparr>"
    unfolding d_def using t c(1) dn id(2)
    by (auto simp: gc_apply_transaction_def Let_def split del: if_split)
  then have r: "c' = d" "gd_cards db' = map (\<lambda>x. if gc_id x = i then d else x) (gd_cards db)"
    "gd_transactions db' = gd_transactions db @ [\<lparr>gt_tenant_id = gc_tenant_id c, gt_store_id = gc_store_id c,
       gt_gift_card_id = i, gt_kind = kind, gt_amount_cents = n, gt_order_id = ta_order_id args,
       gt_actor_user_id = ta_actor_user_id args, gt_actor_customer_id = ta_actor_customer_id args,
       gt_note = ta_note args\<rparr>]"
    by simp_all
  have "gc_get_by_id j db' = (if j = i then Some c' else gc_get_by_id j db)" for j
    using c(1) find_replace [of gc_id d i j "gd_cards db", OF d(1)] by (simp add: gc_get_by_id_def r)
  moreover have "gc_entries db' j = gc_entries db j @ (if j = i then [n] else [])" for j
    by (simp add: gc_entries_def r)
  moreover have "keys_ok db'"
  proof -
    have same: "x = c" if "x \<in> set (gd_cards db)" "gc_id x = i" for x
      using k id that by (auto simp: keys_ok_def distinct_map dest: inj_onD)
    have "map gc_id (gd_cards db') = map gc_id (gd_cards db)"
      unfolding r by (rule map_replace_same) (simp add: d)
    moreover have "map gc_code_hash (gd_cards db') = map gc_code_hash (gd_cards db)"
      unfolding r by (rule map_replace_same) (use same d in simp)
    moreover have "gt_gift_card_id ` set (gd_transactions db')
        = insert i (gt_gift_card_id ` set (gd_transactions db))" by (simp add: r)
    moreover have "i \<in> gc_id ` set (gd_cards db)" using id by blast
    moreover have "gc_id ` set (gd_cards db') = gc_id ` set (gd_cards db)"
      using \<open>map gc_id (gd_cards db') = map gc_id (gd_cards db)\<close> by (metis list.set_map)
    ultimately show ?thesis using k by (simp add: keys_ok_def)
  qed
  ultimately show ?thesis using c d_def r by (intro that) simp_all
qed

lemma apply_transaction_ok:
  assumes t: "gc_apply_transaction i kind n args False db = Inr (c', db')" and k: "keys_ok db"
    and others: "\<And>x. x \<in> set (gd_cards db) \<Longrightarrow> gc_id x \<noteq> i \<Longrightarrow> card_ok x"
  shows "gift_db_ok db'"
proof (rule apply_transaction_spec [OF t k])
  fix c
  assume "0 \<le> gc_current_balance_cents c + n"
    "c' = c\<lparr>gc_current_balance_cents := gc_current_balance_cents c + n,
       gc_status := (if kind = TkVoid then GcVoided
         else if gc_current_balance_cents c + n = 0 \<and> gc_status c = GcActive then GcDepleted
         else if gc_status c = GcDepleted \<and> 0 < gc_current_balance_cents c + n then GcActive
         else gc_status c)\<rparr>"
    and r: "keys_ok db'" "gd_cards db' = map (\<lambda>x. if gc_id x = i then c' else x) (gd_cards db)"
  then have "card_ok c'" by (cases "gc_status c") (auto simp: card_ok_def)
  with r others show ?thesis by (auto simp: gift_db_ok_def)
qed

lemma apply_transaction_posts:
  assumes t: "gc_apply_transaction i kind n args False db = Inr (c', db')" and k: "keys_ok db"
  shows "gc_entries db' j = gc_entries db j @ (if j = i then [n] else [])
    \<and> gc_balance db' j = gc_balance db j + (if j = i then n else 0)"
proof (rule apply_transaction_spec [OF t k])
  fix c
  assume "gc_get_by_id i db = Some c"
    "c' = c\<lparr>gc_current_balance_cents := gc_current_balance_cents c + n,
       gc_status := (if kind = TkVoid then GcVoided
         else if gc_current_balance_cents c + n = 0 \<and> gc_status c = GcActive then GcDepleted
         else if gc_status c = GcDepleted \<and> 0 < gc_current_balance_cents c + n then GcActive
         else gc_status c)\<rparr>"
    and r: "\<And>j. gc_get_by_id j db' = (if j = i then Some c' else gc_get_by_id j db)"
    "\<And>j. gc_entries db' j = gc_entries db j @ (if j = i then [n] else [])"
  then show ?thesis by (simp add: gc_balance_def)
qed

lemma draw_code_Inr:
  "draw_code sha db ds = Inr code \<Longrightarrow> \<exists>p. code = generate_code p
    \<and> (\<forall>c\<in>set (gd_cards db). gc_code_hash c \<noteq> hash_code sha code)"
  by (induction ds) (auto simp: Let_def find_None_iff split: if_splits)

lemma create_spec:
  assumes "gc_create c db = Inr db'" "gift_db_ok db" "gc_current_balance_cents c = 0"
  shows "keys_ok db' \<and> (\<forall>x\<in>set (gd_cards db'). gc_id x \<noteq> gc_id c \<longrightarrow> card_ok x)
    \<and> gc_get_by_id (gc_id c) db' = Some c \<and> gc_get_by_id (gc_id c) db = None
    \<and> (\<forall>j. j \<noteq> gc_id c \<longrightarrow> gc_get_by_id j db' = gc_get_by_id j db)
    \<and> (\<forall>j. gc_balance db' j = gc_balance db j) \<and> (\<forall>j. gc_entries db' j = gc_entries db j)
    \<and> gd_cards db' = gd_cards db @ [c]"
proof -
  have fresh: "\<forall>x\<in>set (gd_cards db). gc_id x \<noteq> gc_id c \<and> gc_code_hash x \<noteq> gc_code_hash c"
    and db': "db' = db\<lparr>gd_cards := gd_cards db @ [c]\<rparr>"
    using assms(1) by (auto simp: gc_create_def list_ex_iff split: if_splits)
  have ok: "keys_ok db" "\<forall>x\<in>set (gd_cards db). card_ok x" using assms(2) by (simp_all add: gift_db_ok_def)
  have "gc_id c \<notin> gc_id ` set (gd_cards db)" "gc_code_hash c \<notin> gc_code_hash ` set (gd_cards db)"
    using fresh by fastforce+
  then have k: "keys_ok db'" using ok(1) by (auto simp: db' keys_ok_def)
  have none: "gc_get_by_id (gc_id c) db = None" using fresh by (auto simp: gc_get_by_id_def find_None_iff)
  have some: "gc_get_by_id (gc_id c) db' = Some c" using get_by_id_in [OF k] by (simp add: db')
  have other: "gc_get_by_id j db' = gc_get_by_id j db" if "j \<noteq> gc_id c" for j
    using that by (simp add: gc_get_by_id_def db' find_snoc split: option.split)
  have "gc_balance db' j = gc_balance db j" for j
    using none some other assms(3) by (cases "j = gc_id c") (simp_all add: gc_balance_def)
  moreover have "gc_entries db' j = gc_entries db j" for j by (simp add: gc_entries_def db')
  moreover have "gd_cards db' = gd_cards db @ [c]" by (simp add: db')
  ultimately show ?thesis using k none some other ok(2) by simp
qed

lemma issue_spec:
  assumes i: "gc_issue sha new_id draws r db = Inr ((credited, code), db')" and ok: "gift_db_ok db"
  obtains p where "code = generate_code p" "gift_db_ok db'"
    "gc_id credited = new_id" "gc_code_hash credited = hash_code sha code"
    "gc_store_id credited = ir_store_id r" "gc_current_balance_cents credited = ir_amount_cents r"
    "gc_status credited = GcActive" "0 < ir_amount_cents r"
    "gc_get_by_id new_id db = None"
    "\<And>j. gc_get_by_id j db' = (if j = new_id then Some credited else gc_get_by_id j db)"
    "\<And>j. gc_entries db' j = gc_entries db j @ (if j = new_id then [ir_amount_cents r] else [])"
    "\<And>j. gc_balance db' j = gc_balance db j + (if j = new_id then ir_amount_cents r else 0)"
proof -
  have pos: "0 < ir_amount_cents r" using i by (auto simp: gc_issue_def split: if_splits)
  obtain c db1 args where d: "draw_code sha db [fst draws, fst (snd draws), snd (snd draws)] = Inr code"
    and cr: "gc_create c db = Inr db1"
    and c: "gc_id c = new_id" "gc_code_hash c = hash_code sha code" "gc_store_id c = ir_store_id r"
      "gc_current_balance_cents c = 0" "gc_status c = GcActive"
    and ap: "gc_apply_transaction new_id TkIssue (ir_amount_cents r) args False db1 = Inr (credited, db')"
    using i by (auto simp: gc_issue_def rbind_Inr_iff Let_def mk_gift_card_def split: if_splits)
  obtain p where p: "code = generate_code p" using draw_code_Inr [OF d] by blast
  note cs = create_spec [OF cr ok c(4), unfolded c(1)]
  have k1: "keys_ok db1" and o1: "\<And>x. x \<in> set (gd_cards db1) \<Longrightarrow> gc_id x \<noteq> new_id \<Longrightarrow> card_ok x"
    and g1: "gc_get_by_id new_id db1 = Some c" using cs by auto
  have ok': "gift_db_ok db'" by (rule apply_transaction_ok [OF ap k1 o1])
  note posts = apply_transaction_posts [OF ap k1]
  show ?thesis
  proof (rule apply_transaction_spec [OF ap k1])
    fix c0
    assume "gc_get_by_id new_id db1 = Some c0"
      "credited = c0\<lparr>gc_current_balance_cents := gc_current_balance_cents c0 + ir_amount_cents r,
       gc_status := (if TkIssue = TkVoid then GcVoided
         else if gc_current_balance_cents c0 + ir_amount_cents r = 0 \<and> gc_status c0 = GcActive then GcDepleted
         else if gc_status c0 = GcDepleted \<and> 0 < gc_current_balance_cents c0 + ir_amount_cents r then GcActive
         else gc_status c0)\<rparr>"
      and get: "\<And>j. gc_get_by_id j db' = (if j = new_id then Some credited else gc_get_by_id j db1)"
    then have cred: "gc_id credited = new_id" "gc_code_hash credited = hash_code sha code"
      "gc_store_id credited = ir_store_id r" "gc_current_balance_cents credited = ir_amount_cents r"
      "gc_status credited = GcActive" using g1 c pos by simp_all
    show ?thesis
      by (rule that [OF p ok' cred pos]) (use cs get posts in auto)
  qed
qed

lemma gift_card_act_Inr:
  assumes "gift_card_act sha x db = Inr db'" "gift_db_ok db"
  obtains (issue) i draws r c code where "x = GcIssue i draws r" "gc_issue sha i draws r db = Inr ((c, code), db')"
    | (tx) i kind n args c' where "gc_apply_transaction i kind n args False db = Inr (c', db')"
      "kind = TkVoid \<or> kind = TkRedeem \<or> kind = TkRefund"
proof (cases x)
  case (GcIssue i draws r)
  then show ?thesis using assms(1) issue by (cases "gc_issue sha i draws r db") auto
next
  case (GcRedeem now i n ord c)
  then obtain c' where "gc_redeem now i n ord c db = Inr (c', db')"
    using assms(1) by (cases "gc_redeem now i n ord c db") auto
  then show ?thesis using tx by (auto simp: gc_redeem_def split: if_splits option.splits)
next
  case (GcRefund i n ord nt)
  then obtain c' where "gc_refund i n ord nt db = Inr (c', db')"
    using assms(1) by (cases "gc_refund i n ord nt db") auto
  then show ?thesis using tx by (auto simp: gc_refund_def split: if_splits)
next
  case (GcVoid i u nt)
  then obtain c' where "gc_void i u nt db = Inr (c', db')"
    using assms(1) by (cases "gc_void i u nt db") auto
  then show ?thesis using tx by (auto simp: gc_void_def Let_def split: option.splits)
qed

lemma gift_db_cards_ok: "gift_db_ok db \<Longrightarrow> keys_ok db \<and> (\<forall>x\<in>set (gd_cards db). card_ok x)"
  by (simp add: gift_db_ok_def)

interpretation gift_books: ledger_book "gift_card_act sha" gift_db_ok gc_balance gc_entries for sha
proof unfold_locales
  fix db x db'
  assume ok: "gift_db_ok db" and x: "gift_card_act sha x db = Inr db'"
  show "gift_db_ok db'"
  proof (rule gift_card_act_Inr [OF x ok])
    fix i draws r c code assume "gc_issue sha i draws r db = Inr ((c, code), db')"
    then show ?thesis by (rule issue_spec [OF _ ok])
  next
    fix i kind n args c' assume "gc_apply_transaction i kind n args False db = Inr (c', db')"
    then show ?thesis by (rule apply_transaction_ok) (use gift_db_cards_ok [OF ok] in simp_all)
  qed
next
  fix db x db' k
  assume ok: "gift_db_ok db" and x: "gift_card_act sha x db = Inr db'"
  show "\<exists>d. gc_entries db' k = gc_entries db k @ d \<and> gc_balance db' k = gc_balance db k + sum_list d"
  proof (rule gift_card_act_Inr [OF x ok])
    fix i draws r c code assume "gc_issue sha i draws r db = Inr ((c, code), db')"
    then show ?thesis
      by (rule issue_spec [OF _ ok]) (intro exI [of _ "if k = i then [ir_amount_cents r] else []"], simp)
  next
    fix i kind n args c' assume "gc_apply_transaction i kind n args False db = Inr (c', db')"
    from apply_transaction_posts [OF this conjunct1 [OF gift_db_cards_ok [OF ok]], of k]
    show ?thesis by (intro exI [of _ "if k = i then [n] else []"]) simp
  qed
qed

lemma voided_stays:
  assumes x: "gift_card_act sha x db = Inr db'" and ok: "gift_db_ok db"
    and v: "gc_get_by_id i db = Some c" "gc_status c = GcVoided"
  shows "\<exists>c'. gc_get_by_id i db' = Some c' \<and> gc_status c' = GcVoided"
proof (rule gift_card_act_Inr [OF x ok])
  fix j draws r d code assume "gc_issue sha j draws r db = Inr ((d, code), db')"
  then show ?thesis
  proof (rule issue_spec [OF _ ok])
    assume "gc_get_by_id j db = None" "\<And>k. gc_get_by_id k db' = (if k = j then Some d else gc_get_by_id k db)"
    then show ?thesis using v by (cases "i = j") simp_all
  qed
next
  fix j kind n args d assume t: "gc_apply_transaction j kind n args False db = Inr (d, db')"
  show ?thesis
  proof (rule apply_transaction_spec [OF t conjunct1 [OF gift_db_cards_ok [OF ok]]])
    fix e
    assume "gc_get_by_id j db = Some e"
      "d = e\<lparr>gc_current_balance_cents := gc_current_balance_cents e + n,
       gc_status := (if kind = TkVoid then GcVoided
         else if gc_current_balance_cents e + n = 0 \<and> gc_status e = GcActive then GcDepleted
         else if gc_status e = GcDepleted \<and> 0 < gc_current_balance_cents e + n then GcActive
         else gc_status e)\<rparr>"
      "\<And>k. gc_get_by_id k db' = (if k = j then Some d else gc_get_by_id k db)"
    then show ?thesis using v by (cases "i = j") auto
  qed
qed

lemma voided_for_good:
  assumes "gift_db_ok db" "gc_get_by_id i db = Some c" "gc_status c = GcVoided"
  shows "\<exists>c'. gc_get_by_id i (serve_all (gift_card_act sha) calls db) = Some c' \<and> gc_status c' = GcVoided"
proof -
  let ?I = "\<lambda>db. gift_db_ok db \<and> (\<exists>c'. gc_get_by_id i db = Some c' \<and> gc_status c' = GcVoided)"
  have "?I (serve_all (gift_card_act sha) calls db)"
  proof (rule serve_all_invariant [where I = ?I])
    fix x s t assume s: "?I s" and t: "gift_card_act sha x s = Inr t"
    from s have "gift_db_ok t" using gift_books.act_ok [OF _ t] by blast
    with s voided_stays [OF t] show "?I t" by blast
  qed (use assms in blast)
  then show ?thesis by blast
qed

section \<open>Properties\<close>

definition demo_issue :: issue_request where
  "demo_issue = \<lparr>ir_tenant_id = 1, ir_store_id = 2, ir_amount_cents = 500, ir_currency = ''EGP'',
     ir_customer_id = None, ir_issued_by_user_id = None, ir_issuing_order_id = None,
     ir_expires_at = None, ir_note = None\<rparr>"

definition no_cards :: gift_card_db where
  "no_cards = \<lparr>gd_cards = [], gd_transactions = []\<rparr>"

definition demo_draws :: "(nat \<Rightarrow> nat) \<times> (nat \<Rightarrow> nat) \<times> (nat \<Rightarrow> nat)" where
  "demo_draws = (\<lambda>i. i, \<lambda>i. 0, \<lambda>i. 0)"

lemma no_cards_ok: "gift_db_ok no_cards"
  by (simp add: gift_db_ok_def keys_ok_def no_cards_def)

text \<open>
  C11: the gift card books balance. However many requests to issue, redeem, refund and void reach
  the tables, from tables whose books balance, the balance of every card is the sum of its
  ledger entries and is never negative, a card that is not voided is active exactly while it
  holds money, and no earlier ledger entry is changed or removed.
\<close>

theorem gift_card_books_balance:
  assumes "gift_db_ok db" "\<forall>i. gc_balance db i = sum_list (gc_entries db i)"
    and "db' = serve_all (gift_card_act sha) calls db"
  shows "(\<forall>c\<in>set (gd_cards db'). gc_current_balance_cents c = sum_list (gc_entries db' (gc_id c))
      \<and> 0 \<le> gc_current_balance_cents c
      \<and> (gc_status c \<in> {GcActive, GcDepleted} \<longrightarrow>
           (gc_status c = GcActive \<longleftrightarrow> 0 < gc_current_balance_cents c)))
    \<and> (\<forall>i. prefix (gc_entries db i) (gc_entries db' i))"
proof -
  have "gift_books.balanced db" using assms(1,2) by (simp add: gift_books.balanced_def)
  then have "gift_books.balanced db'" unfolding assms(3) by (rule gift_books.books_balance)
  then have ok: "gift_db_ok db'" and bal: "\<And>i. gc_balance db' i = sum_list (gc_entries db' i)"
    by (simp_all add: gift_books.balanced_def)
  have "gc_current_balance_cents c = sum_list (gc_entries db' (gc_id c))" if "c \<in> set (gd_cards db')" for c
    using bal [of "gc_id c"] get_by_id_in [of db' "gc_id c" c] ok that
    by (simp add: gc_balance_def gift_db_ok_def)
  moreover have "card_ok c" if "c \<in> set (gd_cards db')" for c using ok that by (simp add: gift_db_ok_def)
  moreover have "prefix (gc_entries db i) (gc_entries db' i)" for i
    unfolding assms(3) using assms(1) by (rule gift_books.append_only)
  ultimately show ?thesis by (auto simp: card_ok_def)
qed

theorem gift_card_books_balance_witness:
  "gc_entries (serve_all (gift_card_act id)
       [GcIssue 7 demo_draws demo_issue, GcRedeem 0 7 200 9 None, GcRedeem 0 7 301 9 None, GcVoid 7 None None]
       no_cards) 7 = [500, -200, -300]
   \<and> (\<forall>i. prefix (gc_entries no_cards i) (gc_entries (serve_all (gift_card_act id)
       [GcIssue 7 demo_draws demo_issue, GcRedeem 0 7 200 9 None, GcRedeem 0 7 301 9 None, GcVoid 7 None None]
       no_cards) i))"
proof -
  have "\<forall>i. gc_balance no_cards i = sum_list (gc_entries no_cards i)"
    by (simp add: gc_balance_def gc_entries_def gc_get_by_id_def no_cards_def)
  from gift_card_books_balance [OF no_cards_ok this refl, of id "[GcIssue 7 demo_draws demo_issue,
      GcRedeem 0 7 200 9 None, GcRedeem 0 7 301 9 None, GcVoid 7 None None]"]
  have "\<forall>i. prefix (gc_entries no_cards i) (gc_entries (serve_all (gift_card_act id)
       [GcIssue 7 demo_draws demo_issue, GcRedeem 0 7 200 9 None, GcRedeem 0 7 301 9 None, GcVoid 7 None None]
       no_cards) i)" by blast
  moreover have "gc_entries (serve_all (gift_card_act id)
       [GcIssue 7 demo_draws demo_issue, GcRedeem 0 7 200 9 None, GcRedeem 0 7 301 9 None, GcVoid 7 None None]
       no_cards) 7 = [500, -200, -300]" by code_simp
  ultimately show ?thesis by blast
qed

text \<open>
  Redemption. A redemption goes through exactly when the amount is positive and covered by
  an active card that has not expired; it takes exactly the amount from that card and from no
  other, and a card emptied by it is depleted. A voided card is voided for good: whatever
  requests follow, every redemption of it is refused.
\<close>

theorem redeem_effect:
  assumes "gift_db_ok db"
  shows "((\<exists>r. gc_redeem now i n order_id cust db = Inr r) \<longleftrightarrow>
      (\<exists>c. gc_get_by_id i db = Some c \<and> 0 < n \<and> n \<le> gc_current_balance_cents c
         \<and> gc_status c = GcActive \<and> (case gc_expires_at c of None \<Rightarrow> True | Some e \<Rightarrow> now < e)))
    \<and> (\<forall>c c' db'. gc_get_by_id i db = Some c \<and> gc_redeem now i n order_id cust db = Inr (c', db') \<longrightarrow>
        gc_get_by_id i db' = Some (c\<lparr>gc_current_balance_cents := gc_current_balance_cents c - n,
          gc_status := (if n = gc_current_balance_cents c then GcDepleted else GcActive)\<rparr>)
        \<and> (\<forall>j. j \<noteq> i \<longrightarrow> gc_get_by_id j db' = gc_get_by_id j db))
    \<and> (\<forall>c. gc_get_by_id i db = Some c \<and> gc_status c = GcVoided \<longrightarrow>
        (\<exists>e. gc_redeem now i n order_id cust (serve_all (gift_card_act sha) calls db) = Inl e))"
proof -
  have k: "keys_ok db" using assms by (simp add: gift_db_ok_def)
  have card: "card_ok c" if "gc_get_by_id i db = Some c" for c
    using assms get_by_id_in [OF k] that by (simp add: gift_db_ok_def)
  have "(\<exists>r. gc_redeem now i n order_id cust db = Inr r) \<longleftrightarrow>
      (\<exists>c. gc_get_by_id i db = Some c \<and> 0 < n \<and> n \<le> gc_current_balance_cents c
         \<and> gc_status c = GcActive \<and> (case gc_expires_at c of None \<Rightarrow> True | Some e \<Rightarrow> now < e))"
    by (cases "gc_get_by_id i db")
      (auto simp: gc_redeem_def is_redeemable_def gc_apply_transaction_def Let_def split: option.splits)
  moreover have "gc_get_by_id i db' = Some (c\<lparr>gc_current_balance_cents := gc_current_balance_cents c - n,
          gc_status := (if n = gc_current_balance_cents c then GcDepleted else GcActive)\<rparr>)
      \<and> (\<forall>j. j \<noteq> i \<longrightarrow> gc_get_by_id j db' = gc_get_by_id j db)"
    if c: "gc_get_by_id i db = Some c" and r: "gc_redeem now i n order_id cust db = Inr (c', db')" for c c' db'
  proof -
    obtain args where t: "gc_apply_transaction i TkRedeem (- n) args False db = Inr (c', db')"
      and a: "gc_status c = GcActive" "n \<le> gc_current_balance_cents c"
      using r c by (auto simp: gc_redeem_def is_redeemable_def split: if_splits)
    show ?thesis
      by (rule apply_transaction_spec [OF t k]) (use a c in \<open>auto split: if_splits\<close>)
  qed
  moreover have "\<exists>e. gc_redeem now i n order_id cust (serve_all (gift_card_act sha) calls db) = Inl e"
    if v: "gc_get_by_id i db = Some c" "gc_status c = GcVoided" for c
  proof -
    obtain c' where "gc_get_by_id i (serve_all (gift_card_act sha) calls db) = Some c'" "gc_status c' = GcVoided"
      using voided_for_good [OF assms v] by blast
    then show ?thesis by (simp add: gc_redeem_def is_redeemable_def)
  qed
  ultimately show ?thesis by blast
qed


theorem redeem_effect_witness:
  "gift_db_ok (serve_all (gift_card_act id) [GcIssue 7 demo_draws demo_issue] no_cards)
    \<and> (\<exists>r. gc_redeem 0 7 500 9 None (serve_all (gift_card_act id) [GcIssue 7 demo_draws demo_issue] no_cards) = Inr r)"
proof -
  let ?db = "serve_all (gift_card_act id) [GcIssue 7 demo_draws demo_issue] no_cards"
  have ok: "gift_db_ok ?db" by (rule gift_books.serve_all_ok [OF no_cards_ok])
  have "map_option (\<lambda>c. (gc_current_balance_cents c, gc_status c, gc_expires_at c)) (gc_get_by_id 7 ?db)
      = Some (500, GcActive, None)" by code_simp
  then obtain c where "gc_get_by_id 7 ?db = Some c" "gc_current_balance_cents c = 500"
    "gc_status c = GcActive" "gc_expires_at c = None" by auto
  then have "\<exists>c. gc_get_by_id 7 ?db = Some c \<and> 0 < (500::int) \<and> 500 \<le> gc_current_balance_cents c
         \<and> gc_status c = GcActive \<and> (case gc_expires_at c of None \<Rightarrow> True | Some e \<Rightarrow> 0 < e)" by auto
  then show ?thesis using redeem_effect [OF ok, of 0 7 500 9 None] ok by blast
qed

lemma card_identity_stays:
  assumes x: "gift_card_act sha x db = Inr db'" and ok: "gift_db_ok db"
    and c: "gc_get_by_id i db = Some c" "gc_code_hash c = h" "gc_store_id c = s"
  shows "\<exists>c'. gc_get_by_id i db' = Some c' \<and> gc_code_hash c' = h \<and> gc_store_id c' = s"
proof (rule gift_card_act_Inr [OF x ok])
  fix j draws r d code assume "gc_issue sha j draws r db = Inr ((d, code), db')"
  then show ?thesis
  proof (rule issue_spec [OF _ ok])
    assume "gc_get_by_id j db = None" "\<And>k. gc_get_by_id k db' = (if k = j then Some d else gc_get_by_id k db)"
    then show ?thesis using c by (cases "i = j") simp_all
  qed
next
  fix j kind n args d assume t: "gc_apply_transaction j kind n args False db = Inr (d, db')"
  show ?thesis
    by (rule apply_transaction_spec [OF t conjunct1 [OF gift_db_cards_ok [OF ok]]])
      (use c in \<open>cases "i = j"; simp\<close>)
qed

lemma found_by_code:
  assumes ok: "gift_db_ok db" and c: "gc_get_by_id i db = Some c" "gc_code_hash c = hash_code sha code"
    "gc_store_id c = s"
  shows "gc_get_by_code sha code s db = Some c"
proof -
  have mem: "c \<in> set (gd_cards db)" using get_by_id_in [of db i c] ok c(1) by (simp add: gift_db_ok_def)
  have d: "distinct (map gc_code_hash (gd_cards db))" using ok by (simp add: gift_db_ok_def keys_ok_def)
  have "List.find (\<lambda>x. gc_code_hash x = hash_code sha code \<and> gc_store_id x = s) xs = Some c"
    if "c \<in> set xs" "distinct (map gc_code_hash xs)" for xs
    using that
  proof (induction xs)
    case (Cons x xs)
    show ?case
    proof (cases "x = c")
      case False
      then have "gc_code_hash x \<noteq> hash_code sha code" using Cons.prems c(2) by (auto simp: image_iff)
      then show ?thesis using Cons False by auto
    qed (use c in simp)
  qed simp
  then show ?thesis using mem d by (simp add: gc_get_by_code_def)
qed

lemma code_alphabet_upper:
  "c \<in> set code_alphabet \<Longrightarrow> char_upper c = c \<and> is_alnum c"
  unfolding code_alphabet_def by (auto simp: char_upper_def is_alnum_def)

lemma pick_in: "code_alphabet ! (n mod length code_alphabet) \<in> set code_alphabet"
proof -
  have "0 < length code_alphabet" by (simp add: code_alphabet_def)
  then show ?thesis by (intro nth_mem mod_less_divisor)
qed

lemma pick_upper:
  "char_upper (code_alphabet ! (n mod length code_alphabet)) = code_alphabet ! (n mod length code_alphabet)"
  "is_alnum (code_alphabet ! (n mod length code_alphabet))"
  using code_alphabet_upper [OF pick_in] by simp_all

lemma normalize_generated:
  "normalize_code (generate_code p)
    = ''GC'' @ map (\<lambda>i. code_alphabet ! (p i mod length code_alphabet)) [0..<code_length]"
proof -
  have n: "[0..<16] = [0,1,2,3,4,5,6,7,8,9,10,11,12,13,14,15::nat]" "[0..<4] = [0,1,2,3::nat]" by code_simp+
  have dash: "char_upper (CHR ''-'') = CHR ''-''" "\<not> is_alnum (CHR ''-'')"
    "char_upper (CHR ''G'') = CHR ''G''" "char_upper (CHR ''C'') = CHR ''C''"
    "is_alnum (CHR ''G'')" "is_alnum (CHR ''C'')" by (simp_all add: char_upper_def is_alnum_def)
  show ?thesis
    by (simp add: generate_code_def normalize_code_def code_length_def Let_def n upper_def dash pick_upper)
qed

text \<open>
  The code handed out finds the card. A code is \<open>GC\<close> and 16 symbols of the alphabet once
  normalised, and whatever the customer types that normalises to the same text (other letter
  case, spaces or dashes anywhere) finds the issued card in its own store, then and after any
  later requests; in no other store does it find anything when it is issued.
\<close>

theorem issued_code_found:
  assumes "gift_db_ok db" "gc_issue sha i draws r db = Inr ((c, code), db')"
    and "normalize_code typed = normalize_code code"
  shows "(\<exists>syms. normalize_code code = ''GC'' @ syms \<and> length syms = 16 \<and> set syms \<subseteq> set code_alphabet)
    \<and> gc_get_by_code sha typed (ir_store_id r) db' = Some c
    \<and> (\<exists>c'. gc_get_by_code sha typed (ir_store_id r) (serve_all (gift_card_act sha) calls db') = Some c'
          \<and> gc_id c' = i)
    \<and> (\<forall>s. s \<noteq> ir_store_id r \<longrightarrow> gc_get_by_code sha typed s db' = None)"
proof (rule issue_spec [OF assms(2,1)])
  fix p
  assume p: "code = generate_code p" and ok: "gift_db_ok db'"
    and c: "gc_id c = i" "gc_code_hash c = hash_code sha code" "gc_store_id c = ir_store_id r"
    and get: "\<And>j. gc_get_by_id j db' = (if j = i then Some c else gc_get_by_id j db)"
  have h: "gc_code_hash c = hash_code sha typed" using c(2) assms(3) by (simp add: hash_code_def)
  have g: "gc_get_by_id i db' = Some c" using get by simp
  have "normalize_code code = ''GC'' @ map (\<lambda>i. code_alphabet ! (p i mod length code_alphabet)) [0..<code_length]"
    unfolding p by (rule normalize_generated)
  moreover have "set (map (\<lambda>i. code_alphabet ! (p i mod length code_alphabet)) [0..<code_length]) \<subseteq> set code_alphabet"
    using pick_in by auto
  ultimately have "\<exists>syms. normalize_code code = ''GC'' @ syms \<and> length syms = 16 \<and> set syms \<subseteq> set code_alphabet"
    by (intro exI [of _ "map (\<lambda>i. code_alphabet ! (p i mod length code_alphabet)) [0..<code_length]"])
      (simp add: code_length_def)
  moreover have "gc_get_by_code sha typed (ir_store_id r) db' = Some c"
    by (rule found_by_code [OF ok g h c(3)])
  moreover have "\<exists>c'. gc_get_by_code sha typed (ir_store_id r) (serve_all (gift_card_act sha) calls db') = Some c'
          \<and> gc_id c' = i"
  proof -
    let ?I = "\<lambda>db. gift_db_ok db \<and> (\<exists>c'. gc_get_by_id i db = Some c'
      \<and> gc_code_hash c' = hash_code sha typed \<and> gc_store_id c' = ir_store_id r)"
    have "?I (serve_all (gift_card_act sha) calls db')"
    proof (rule serve_all_invariant [where I = ?I])
      fix x s t assume s: "?I s" and t: "gift_card_act sha x s = Inr t"
      from s have "gift_db_ok t" using gift_books.act_ok [OF _ t] by blast
      with s card_identity_stays [OF t] show "?I t" by blast
    qed (use ok g h c(3) in blast)
    then obtain c' where c': "gift_db_ok (serve_all (gift_card_act sha) calls db')"
      "gc_get_by_id i (serve_all (gift_card_act sha) calls db') = Some c'"
      "gc_code_hash c' = hash_code sha typed" "gc_store_id c' = ir_store_id r" by blast
    then have "gc_id c' = i" using get_by_id_in [of _ i c'] by (auto simp: gift_db_ok_def)
    then show ?thesis using found_by_code [OF c'] by blast
  qed
  moreover have "gc_get_by_code sha typed s db' = None" if s: "s \<noteq> ir_store_id r" for s
  proof (rule ccontr)
    assume "gc_get_by_code sha typed s db' \<noteq> None"
    then obtain x where x: "x \<in> set (gd_cards db')" "gc_code_hash x = hash_code sha typed" "gc_store_id x = s"
      by (auto simp: gc_get_by_code_def find_Some_iff dest: nth_mem)
    have "c \<in> set (gd_cards db')" using get_by_id_in [of db' i c] ok g by (simp add: gift_db_ok_def)
    moreover have "inj_on gc_code_hash (set (gd_cards db'))"
      using ok by (simp add: gift_db_ok_def keys_ok_def distinct_map)
    ultimately have "x = c" using x(1,2) h by (metis inj_onD)
    then show False using x(3) c(3) s by simp
  qed
  ultimately show ?thesis by blast
qed

theorem issued_code_found_witness:
  "\<exists>c db'. gc_issue id 7 demo_draws demo_issue no_cards = Inr ((c, ''GC-ABCD-EFGH-JKMN-PQRS''), db')
    \<and> gc_get_by_code id '' gc abcd-efghjkmnpqrs'' 2 db' = Some c"
proof -
  have e: "map_sum id (\<lambda>r. snd (fst r)) (gc_issue id 7 demo_draws demo_issue no_cards)
      = Inr ''GC-ABCD-EFGH-JKMN-PQRS''" by code_simp
  then obtain c db' where i: "gc_issue id 7 demo_draws demo_issue no_cards = Inr ((c, ''GC-ABCD-EFGH-JKMN-PQRS''), db')"
    by (cases "gc_issue id 7 demo_draws demo_issue no_cards") auto
  have "normalize_code '' gc abcd-efghjkmnpqrs'' = normalize_code ''GC-ABCD-EFGH-JKMN-PQRS''" by code_simp
  from issued_code_found [OF no_cards_ok i this, of "[]"] i show ?thesis
    by (auto simp: demo_issue_def)
qed

end
