(* ===== verification/Wallet.thy ===== *)
theory Wallet
  imports Ledger Tables
begin

text \<open>
  The merchant wallet: the vocabulary of \<open>src/core/entities/wallet.py\<close>, the tables of
  \<open>src/infrastructure/database/models/public/wallet.py\<close> and the ledger, holds and warning ladder of
  \<open>src/application/services/wallet_service.py\<close>. A row lock is in the serial order in which the
  calls reach the tables; the identifiers the database draws are arguments.
\<close>

section \<open>Vocabulary\<close>

datatype wallet_status = WsActive | WsSuspended | WsExempt

datatype wallet_kind =
    WkTopup | WkCommission | WkCommissionReversal | WkAdjustment | WkAppCharge | WkAppChargeReversal

datatype topup_method = TmCard | TmVodafoneCash | TmInstapay

definition method_value :: "topup_method \<Rightarrow> string" where
  "method_value m = (case m of
      TmCard \<Rightarrow> ''card'' | TmVodafoneCash \<Rightarrow> ''vodafone_cash'' | TmInstapay \<Rightarrow> ''instapay'')"

definition manual_topup_methods :: "topup_method list" where
  "manual_topup_methods = [TmVodafoneCash, TmInstapay]"

datatype topup_status = TsPending | TsAwaitingProof | TsUnderReview | TsSucceeded | TsFailed | TsExpired

section \<open>Tables\<close>

record merchant_wallet =
  mw_id :: uuid
  mw_tenant_id :: uuid
  mw_balance_cents :: int
  mw_pending_balance_cents :: int
  mw_negative_allowance_cents :: "int option"
  mw_commission_bps_override :: "int option"
  mw_status :: wallet_status
  mw_last_warning_level :: nat

record wallet_transaction =
  wt_id :: uuid
  wt_wallet_id :: uuid
  wt_tenant_id :: uuid
  wt_kind :: wallet_kind
  wt_amount_cents :: int
  wt_balance_after_cents :: int
  wt_currency :: string
  wt_order_id :: "uuid option"
  wt_topup_intent_id :: "uuid option"
  wt_idempotency_key :: "string option"
  wt_actor_user_id :: "uuid option"
  wt_note :: "string option"
  wt_meta :: "(string \<times> json) list"

record topup_intent =
  ti_id :: uuid
  ti_tenant_id :: uuid
  ti_created_by_user_id :: "uuid option"
  ti_method :: topup_method
  ti_amount_cents :: int
  ti_currency :: string
  ti_status :: topup_status
  ti_special_reference :: string
  ti_gateway_transaction_id :: "string option"
  ti_display_destination :: "string option"
  ti_qr_payload :: "string option"
  ti_expires_at :: "instant option"
  ti_credited_transaction_id :: "uuid option"
  ti_failure_reason :: "string option"

datatype proof_status = PfAutoApproved | PfAwaitingReview | PfApproved | PfRejected

record topup_proof =
  tp_id :: uuid
  tp_created_at :: instant
  tp_tenant_id :: uuid
  tp_topup_intent_id :: uuid
  tp_image_key :: string
  tp_image_hash :: string
  tp_transaction_ref :: string
  tp_declared_amount_cents :: "int option"
  tp_status :: proof_status
  tp_review_decision_by :: "uuid option"
  tp_review_decision_at :: "instant option"
  tp_rejection_reason :: "string option"
  tp_block_reasons :: "string list option"

datatype lifecycle_state = LsDemo | LsTrial | LsActive | LsReadOnly | LsCancelled

record tenant =
  tn_id :: uuid
  tn_plan :: string
  tn_feature_flags :: "(string \<times> json) list"
  tn_lifecycle_state :: lifecycle_state
  tn_expires_at :: "instant option"
  tn_read_only_at :: "instant option"
  tn_delete_at :: "instant option"
  tn_trial_converted_at :: "instant option"

definition is_writable :: "tenant \<Rightarrow> bool" where
  "is_writable t \<longleftrightarrow> tn_lifecycle_state t \<in> {LsDemo, LsTrial, LsActive}"

record wallet_db =
  wd_wallets :: "merchant_wallet list"
  wd_transactions :: "wallet_transaction list"
  wd_intents :: "topup_intent list"
  wd_proofs :: "topup_proof list"
  wd_tenants :: "tenant list"

definition wallet_of :: "uuid \<Rightarrow> wallet_db \<Rightarrow> merchant_wallet option" where
  "wallet_of tid db = lookup_by mw_tenant_id tid (wd_wallets db)"

definition put_wallet :: "merchant_wallet \<Rightarrow> wallet_db \<Rightarrow> wallet_db" where
  "put_wallet w db = db\<lparr>wd_wallets := replace_by mw_tenant_id w (wd_wallets db)\<rparr>"

definition put_intent :: "topup_intent \<Rightarrow> wallet_db \<Rightarrow> wallet_db" where
  "put_intent i db = db\<lparr>wd_intents := replace_by ti_id i (wd_intents db)\<rparr>"

section \<open>The wallet row\<close>

text \<open>
  The lazy creation. A clash of the drawn identifier with that of another wallet fails the insert,
  and then the re-read finds no row.
\<close>

definition get_or_create_wallet ::
    "uuid \<Rightarrow> uuid \<Rightarrow> wallet_db \<Rightarrow> (merchant_wallet \<times> wallet_db) result" where
  "get_or_create_wallet new_id tid db = (case wallet_of tid db of
      Some w \<Rightarrow> Inr (w, db)
    | None \<Rightarrow>
        if new_id \<in> mw_id ` set (wd_wallets db)
        then Inl (RuntimeError ''No row was found when one was required'')
        else (let w = \<lparr>mw_id = new_id, mw_tenant_id = tid, mw_balance_cents = 0,
                    mw_pending_balance_cents = 0, mw_negative_allowance_cents = None,
                    mw_commission_bps_override = None, mw_status = WsActive,
                    mw_last_warning_level = 0\<rparr>
              in Inr (w, db\<lparr>wd_wallets := wd_wallets db @ [w]\<rparr>)))"

section \<open>The ledger\<close>

record entry_args =
  ea_currency :: string
  ea_order_id :: "uuid option"
  ea_topup_intent_id :: "uuid option"
  ea_idempotency_key :: "string option"
  ea_actor_user_id :: "uuid option"
  ea_note :: "string option"
  ea_meta :: "(string \<times> json) list"

text \<open>
  The unique constraints of the ledger: one commission and one reversal per order, and one entry
  per idempotency key; \<open>NULL\<close> conflicts with nothing.
\<close>

definition tx_conflict :: "wallet_transaction \<Rightarrow> wallet_transaction \<Rightarrow> bool" where
  "tx_conflict a b \<longleftrightarrow> wt_id a = wt_id b
     \<or> (wt_kind a = wt_kind b \<and> wt_kind a \<in> {WkCommission, WkCommissionReversal}
          \<and> wt_order_id a \<noteq> None \<and> wt_order_id a = wt_order_id b)
     \<or> (wt_idempotency_key a \<noteq> None \<and> wt_idempotency_key a = wt_idempotency_key b)"

text \<open>The identifiers drawn for a wallet, should it be created, and for the ledger row.\<close>

type_synonym drawn_ids = "uuid \<times> uuid"

definition apply_entry ::
    "drawn_ids \<Rightarrow> uuid \<Rightarrow> wallet_kind \<Rightarrow> int \<Rightarrow> entry_args \<Rightarrow> wallet_db
      \<Rightarrow> (wallet_transaction option \<times> wallet_db) result" where
  "apply_entry ids tid kind amount_cents a db =
     rbind (get_or_create_wallet (fst ids) tid db) (\<lambda>(w, db1).
       if mw_status w = WsSuspended then Inl WalletSuspendedError
       else (let new_balance = mw_balance_cents w + amount_cents;
                 tx = \<lparr>wt_id = snd ids, wt_wallet_id = mw_id w, wt_tenant_id = tid, wt_kind = kind,
                   wt_amount_cents = amount_cents, wt_balance_after_cents = new_balance,
                   wt_currency = ea_currency a, wt_order_id = ea_order_id a,
                   wt_topup_intent_id = ea_topup_intent_id a,
                   wt_idempotency_key = ea_idempotency_key a, wt_actor_user_id = ea_actor_user_id a,
                   wt_note = ea_note a, wt_meta = ea_meta a\<rparr>
             in if list_ex (tx_conflict tx) (wd_transactions db1) then Inr (None, db1)
                else Inr (Some tx, put_wallet (w\<lparr>mw_balance_cents := new_balance\<rparr>)
                       (db1\<lparr>wd_transactions := wd_transactions db1 @ [tx]\<rparr>))))"

section \<open>Holds\<close>

definition add_pending_hold :: "int \<Rightarrow> merchant_wallet \<Rightarrow> merchant_wallet" where
  "add_pending_hold amount_cents w =
     w\<lparr>mw_pending_balance_cents := mw_pending_balance_cents w + amount_cents\<rparr>"

definition release_pending_hold :: "int \<Rightarrow> merchant_wallet \<Rightarrow> merchant_wallet" where
  "release_pending_hold amount_cents w =
     w\<lparr>mw_pending_balance_cents := max 0 (mw_pending_balance_cents w - amount_cents)\<rparr>"

section \<open>The warning ladder\<close>

definition warning_level_none :: nat where "warning_level_none = 0"
definition warning_level_low :: nat where "warning_level_low = 1"
definition warning_level_negative :: nat where "warning_level_negative = 2"
definition warning_level_blocked :: nat where "warning_level_blocked = 3"

definition warning_level_for :: "int \<Rightarrow> int \<Rightarrow> int \<Rightarrow> nat" where
  "warning_level_for balance_cents negative_allowance_cents low_threshold_cents =
     (if balance_cents < - negative_allowance_cents then warning_level_blocked
      else if balance_cents < 0 then warning_level_negative
      else if balance_cents < low_threshold_cents then warning_level_low
      else warning_level_none)"

text \<open>The thresholds the service holds: those of the environment, or the admin's.\<close>

record wallet_limits =
  wl_default_allowance :: int
  wl_low_threshold :: int

definition allowance_for :: "wallet_limits \<Rightarrow> merchant_wallet \<Rightarrow> int" where
  "allowance_for l w = (case mw_negative_allowance_cents w of
      Some n \<Rightarrow> n | None \<Rightarrow> wl_default_allowance l)"

definition current_warning_level :: "wallet_limits \<Rightarrow> merchant_wallet \<Rightarrow> nat" where
  "current_warning_level l w =
     warning_level_for (mw_balance_cents w) (allowance_for l w) (wl_low_threshold l)"

definition bump_warning_level ::
    "wallet_limits \<Rightarrow> merchant_wallet \<Rightarrow> nat option \<times> merchant_wallet" where
  "bump_warning_level l w =
     (let level = current_warning_level l w in
      if mw_last_warning_level w < level then (Some level, w\<lparr>mw_last_warning_level := level\<rparr>)
      else if level = warning_level_none \<and> mw_last_warning_level w \<noteq> 0
      then (None, w\<lparr>mw_last_warning_level := warning_level_none\<rparr>)
      else (None, w))"

text \<open>\<open>get_or_create_wallet\<close> followed by \<open>bump_warning_level\<close>, as the callers do after an entry.\<close>

definition bump_wallet ::
    "wallet_limits \<Rightarrow> uuid \<Rightarrow> uuid \<Rightarrow> wallet_db \<Rightarrow> (nat option \<times> wallet_db) result" where
  "bump_wallet l new_id tid db =
     rbind (get_or_create_wallet new_id tid db) (\<lambda>(w, db1).
       let (level, w') = bump_warning_level l w in Inr (level, put_wallet w' db1))"

section \<open>Well-formed books\<close>

definition wb_balance :: "wallet_db \<Rightarrow> uuid \<Rightarrow> int" where
  "wb_balance db t = (case wallet_of t db of None \<Rightarrow> 0 | Some w \<Rightarrow> mw_balance_cents w)"

definition wb_pending :: "wallet_db \<Rightarrow> uuid \<Rightarrow> int" where
  "wb_pending db t = (case wallet_of t db of None \<Rightarrow> 0 | Some w \<Rightarrow> mw_pending_balance_cents w)"

definition wb_entries :: "wallet_db \<Rightarrow> uuid \<Rightarrow> int list" where
  "wb_entries db t = map wt_amount_cents (filter (\<lambda>x. wt_tenant_id x = t) (wd_transactions db))"

definition wb_snapshots :: "wallet_db \<Rightarrow> uuid \<Rightarrow> int list" where
  "wb_snapshots db t = map wt_balance_after_cents (filter (\<lambda>x. wt_tenant_id x = t) (wd_transactions db))"

text \<open>
  One wallet per tenant, ledger rows that belong to the wallet of their tenant, and no two rows
  in conflict.
\<close>

definition wallets_ok :: "wallet_db \<Rightarrow> bool" where
  "wallets_ok db \<longleftrightarrow> distinct (map mw_tenant_id (wd_wallets db)) \<and> distinct (map mw_id (wd_wallets db))
     \<and> (\<forall>x\<in>set (wd_transactions db). \<exists>w. wallet_of (wt_tenant_id x) db = Some w \<and> mw_id w = wt_wallet_id x)
     \<and> sorted_wrt (\<lambda>a b. \<not> tx_conflict b a) (wd_transactions db)"

definition same_topups :: "wallet_db \<Rightarrow> wallet_db \<Rightarrow> bool" where
  "same_topups db db' \<longleftrightarrow> wd_intents db' = wd_intents db \<and> wd_proofs db' = wd_proofs db
     \<and> wd_tenants db' = wd_tenants db"

lemma same_topups_refl [simp]: "same_topups db db"
  by (simp add: same_topups_def)

lemma same_topups_trans: "same_topups a b \<Longrightarrow> same_topups b c \<Longrightarrow> same_topups a c"
  by (simp add: same_topups_def)

lemma wallet_of_Some:
  "wallets_ok db \<Longrightarrow> wallet_of t db = Some w \<longleftrightarrow> w \<in> set (wd_wallets db) \<and> mw_tenant_id w = t"
  by (simp add: wallet_of_def wallets_ok_def lookup_by_Some)

lemma wallet_of_tenant: "wallet_of t db = Some w \<Longrightarrow> mw_tenant_id w = t"
  by (auto simp: wallet_of_def dest: lookup_by_in)

lemma put_wallet_lookup:
  "wallet_of (mw_tenant_id w) db = Some w0 \<Longrightarrow>
    wallet_of u (put_wallet w db) = (if u = mw_tenant_id w then Some w else wallet_of u db)"
  by (simp add: wallet_of_def put_wallet_def lookup_replace)

lemma put_wallet_tables [simp]:
  "wd_transactions (put_wallet w db) = wd_transactions db" "wd_intents (put_wallet w db) = wd_intents db"
  "wd_proofs (put_wallet w db) = wd_proofs db" "wd_tenants (put_wallet w db) = wd_tenants db"
  by (simp_all add: put_wallet_def)

lemma put_wallet_ok:
  assumes "wallets_ok db" "wallet_of (mw_tenant_id w) db = Some w0" "mw_id w = mw_id w0"
  shows "wallets_ok (put_wallet w db)"
proof -
  have w0: "w0 \<in> set (wd_wallets db)" "mw_tenant_id w0 = mw_tenant_id w"
    using assms(1,2) by (simp_all add: wallet_of_Some)
  have only: "x = w0" if "x \<in> set (wd_wallets db)" "mw_tenant_id x = mw_tenant_id w" for x
    by (rule distinct_key_eq [of mw_tenant_id "wd_wallets db"]) (use assms(1) w0 that in \<open>simp_all add: wallets_ok_def\<close>)
  have ids: "map mw_id (replace_by mw_tenant_id w (wd_wallets db)) = map mw_id (wd_wallets db)"
  proof (rule map_column_replace)
    fix x assume "x \<in> set (wd_wallets db)" "mw_tenant_id x = mw_tenant_id w"
    then have "x = w0" by (rule only)
    then show "mw_id x = mw_id w" using assms(3) by simp
  qed
  have own: "\<exists>v. wallet_of (wt_tenant_id x) (put_wallet w db) = Some v \<and> mw_id v = wt_wallet_id x"
    if x: "x \<in> set (wd_transactions db)" for x
  proof -
    obtain v where v: "wallet_of (wt_tenant_id x) db = Some v" "mw_id v = wt_wallet_id x"
      using assms(1) x unfolding wallets_ok_def by blast
    show ?thesis
    proof (cases "wt_tenant_id x = mw_tenant_id w")
      case True
      then have "v = w0" using v(1) assms(2) by simp
      then show ?thesis using put_wallet_lookup [OF assms(2), of "wt_tenant_id x"] True v(2) assms(3) by simp
    next
      case False
      then show ?thesis using put_wallet_lookup [OF assms(2), of "wt_tenant_id x"] v by simp
    qed
  qed
  have tab: "wd_wallets (put_wallet w db) = replace_by mw_tenant_id w (wd_wallets db)"
    by (simp add: put_wallet_def)
  have "distinct (map mw_tenant_id (wd_wallets (put_wallet w db)))" "distinct (map mw_id (wd_wallets (put_wallet w db)))"
    unfolding tab ids map_key_replace using assms(1) by (simp_all add: wallets_ok_def)
  moreover have "sorted_wrt (\<lambda>a b. \<not> tx_conflict b a) (wd_transactions (put_wallet w db))"
    using assms(1) by (simp add: wallets_ok_def)
  ultimately show ?thesis unfolding wallets_ok_def using own by simp
qed

text \<open>The lazy creation changes no balance, no hold and no ledger.\<close>

lemma get_or_create_spec:
  assumes g: "get_or_create_wallet n t db = Inr (w, db')" and ok: "wallets_ok db"
  shows "wallets_ok db' \<and> wallet_of t db' = Some w \<and> mw_tenant_id w = t
    \<and> wd_transactions db' = wd_transactions db \<and> same_topups db db'
    \<and> wb_balance db' u = wb_balance db u \<and> wb_pending db' u = wb_pending db u
    \<and> (u \<noteq> t \<longrightarrow> wallet_of u db' = wallet_of u db)
    \<and> (wallet_of t db = Some w \<or> wallet_of t db = None \<and> mw_status w = WsActive
         \<and> mw_balance_cents w = 0 \<and> mw_pending_balance_cents w = 0)"
proof (cases "wallet_of t db")
  case (Some v)
  then show ?thesis using g ok wallet_of_tenant [OF Some] by (simp add: get_or_create_wallet_def)
next
  case None
  then have new: "n \<notin> mw_id ` set (wd_wallets db)" "db' = db\<lparr>wd_wallets := wd_wallets db @ [w]\<rparr>"
    and w: "mw_tenant_id w = t" "mw_id w = n" "mw_balance_cents w = 0" "mw_pending_balance_cents w = 0"
      "mw_status w = WsActive"
    using g by (auto simp: get_or_create_wallet_def Let_def split: if_splits)
  have nt: "t \<notin> mw_tenant_id ` set (wd_wallets db)" using None by (simp add: wallet_of_def lookup_by_None)
  have look: "wallet_of u db' = (if u = t then Some w else wallet_of u db)" for u
    using None w(1) by (auto simp: wallet_of_def new(2) lookup_snoc split: option.split)
  have "wallets_ok db'"
    using ok new nt w(1,2) look None unfolding wallets_ok_def by (fastforce split: if_splits)
  then show ?thesis using look None w new(2)
    by (simp add: wb_balance_def wb_pending_def same_topups_def)
qed

lemma apply_entry_spec:
  assumes e: "apply_entry ids t kind n a db = Inr (r, db')" and ok: "wallets_ok db"
  shows "wallets_ok db' \<and> same_topups db db' \<and> wb_pending db' u = wb_pending db u
    \<and> wb_entries db' u = wb_entries db u @ (if r \<noteq> None \<and> u = t then [n] else [])
    \<and> wb_balance db' u = wb_balance db u + (if r \<noteq> None \<and> u = t then n else 0)
    \<and> wb_snapshots db' u = wb_snapshots db u @ (if r \<noteq> None \<and> u = t then [wb_balance db' u] else [])
    \<and> wd_transactions db' = wd_transactions db @ (case r of None \<Rightarrow> [] | Some x \<Rightarrow> [x])
    \<and> (\<forall>x. r = Some x \<longrightarrow> wt_tenant_id x = t \<and> wt_kind x = kind \<and> wt_amount_cents x = n
         \<and> wt_order_id x = ea_order_id a \<and> wt_topup_intent_id x = ea_topup_intent_id a
         \<and> wt_idempotency_key x = ea_idempotency_key a \<and> wt_id x = snd ids
         \<and> wt_balance_after_cents x = wb_balance db' t)
    \<and> (\<exists>w. wallet_of t db' = Some w \<and> mw_status w \<noteq> WsSuspended)"
proof -
  obtain w db1 where g: "get_or_create_wallet (fst ids) t db = Inr (w, db1)"
    using e by (auto simp: apply_entry_def rbind_Inr_iff)
  note gs = get_or_create_spec [OF g ok]
  have active: "mw_status w \<noteq> WsSuspended" using e g by (auto simp: apply_entry_def)
  define x where "x = \<lparr>wt_id = snd ids, wt_wallet_id = mw_id w, wt_tenant_id = t, wt_kind = kind,
                   wt_amount_cents = n, wt_balance_after_cents = mw_balance_cents w + n,
                   wt_currency = ea_currency a, wt_order_id = ea_order_id a,
                   wt_topup_intent_id = ea_topup_intent_id a,
                   wt_idempotency_key = ea_idempotency_key a, wt_actor_user_id = ea_actor_user_id a,
                   wt_note = ea_note a, wt_meta = ea_meta a\<rparr>"
  show ?thesis
  proof (cases "list_ex (tx_conflict x) (wd_transactions db1)")
    case True
    then have "r = None" "db' = db1" using e g active by (simp_all add: apply_entry_def Let_def x_def)
    then show ?thesis using gs active by (simp add: wb_entries_def wb_snapshots_def)
  next
    case False
    define w' where "w' = w\<lparr>mw_balance_cents := mw_balance_cents w + n\<rparr>"
    define db2 where "db2 = db1\<lparr>wd_transactions := wd_transactions db1 @ [x]\<rparr>"
    have r: "r = Some x" "db' = put_wallet w' db2"
      using e g active False by (simp_all add: apply_entry_def Let_def x_def w'_def db2_def)
    have same: "wallet_of u db2 = wallet_of u db1" for u by (simp add: wallet_of_def db2_def)
    have w: "wallet_of t db1 = Some w" "mw_tenant_id w' = t" using gs by (simp_all add: w'_def)
    have ok1: "wallets_ok db1" and t1: "wd_transactions db1 = wd_transactions db" using gs by simp_all
    have "wallets_ok db2"
    proof -
      have "\<forall>y\<in>set (wd_transactions db1). \<not> tx_conflict x y" using False by (simp add: list_ex_iff)
      then have "sorted_wrt (\<lambda>a b. \<not> tx_conflict b a) (wd_transactions db2)"
        using ok1 by (simp add: wallets_ok_def db2_def sorted_wrt_append)
      moreover have "\<exists>v. wallet_of (wt_tenant_id x) db2 = Some v \<and> mw_id v = wt_wallet_id x"
        using w(1) same by (simp add: x_def)
      ultimately show ?thesis using ok1 same by (simp add: wallets_ok_def) (simp add: db2_def)
    qed
    then have "wallets_ok db'" unfolding r
      by (rule put_wallet_ok [where ?w0.0 = w]) (use w same in \<open>simp_all add: w'_def\<close>)
    moreover have look: "wallet_of u db' = (if u = t then Some w' else wallet_of u db1)" for u
      unfolding r using put_wallet_lookup [of w' db2 w u] w same by simp
    moreover have "wb_balance db' u = wb_balance db1 u + (if u = t then n else 0)"
      using look w(1) by (simp add: wb_balance_def w'_def)
    then have "wb_balance db' u = wb_balance db u + (if u = t then n else 0)" using gs by simp
    moreover have "wb_pending db' u = wb_pending db1 u"
      using look w(1) by (simp add: wb_pending_def w'_def)
    then have "wb_pending db' u = wb_pending db u" using gs by simp
    moreover have "wd_transactions db' = wd_transactions db @ [x]" using gs by (simp add: r db2_def)
    moreover have "same_topups db db'" using gs by (simp add: r db2_def same_topups_def)
    moreover have "wt_balance_after_cents x = wb_balance db' t" "mw_status w' \<noteq> WsSuspended"
      using look active by (simp_all add: wb_balance_def x_def w'_def)
    ultimately show ?thesis using r(1)
      by (auto simp: wb_entries_def wb_snapshots_def x_def)
  qed
qed

lemma bump_wallet_spec:
  assumes b: "bump_wallet l n t db = Inr (lv, db')" and ok: "wallets_ok db"
  shows "wallets_ok db' \<and> same_topups db db' \<and> wb_pending db' u = wb_pending db u
    \<and> wb_balance db' u = wb_balance db u \<and> wd_transactions db' = wd_transactions db"
proof -
  obtain w db1 where g: "get_or_create_wallet n t db = Inr (w, db1)"
    using b by (auto simp: bump_wallet_def rbind_Inr_iff)
  note gs = get_or_create_spec [OF g ok]
  obtain w' where w': "db' = put_wallet w' db1" "mw_tenant_id w' = t" "mw_id w' = mw_id w"
    "mw_balance_cents w' = mw_balance_cents w" "mw_pending_balance_cents w' = mw_pending_balance_cents w"
    using b g gs by (auto simp: bump_wallet_def bump_warning_level_def Let_def split: if_splits)
  have w: "wallet_of (mw_tenant_id w') db1 = Some w" using gs w'(2) by simp
  have look: "wallet_of u db' = (if u = t then Some w' else wallet_of u db1)" for u
    unfolding w' using put_wallet_lookup [OF w] w'(2) by simp
  have "wallets_ok db'" unfolding w'(1) by (rule put_wallet_ok [OF _ w w'(3)]) (use gs in simp)
  moreover have "wb_balance db' u = wb_balance db1 u" "wb_pending db' u = wb_pending db1 u"
    using look w'(4,5) w [unfolded w'(2)] by (simp_all add: wb_balance_def wb_pending_def)
  ultimately show ?thesis using gs w'(1) by (auto simp: same_topups_def)
qed

end
