(* ===== verification/Auto_Approval.thy ===== *)
theory Auto_Approval
  imports Numu_Prelude
begin

text \<open>
  \<open>src/infrastructure/external_services/manual_transfer/auto_approval.py\<close>: the rules that decide
  whether an uploaded payment receipt is approved without a human. \<open>casefold\<close> is lower-casing on
  ASCII text. The intent enters with the answer of its \<open>is_expired(now)\<close>.
\<close>

record approval_config =
  ac_threshold_cents :: int
  ac_daily_cap_cents :: int
  ac_daily_count_cap :: int
  ac_enabled :: bool
  ac_amount_mismatch_tolerance_bps :: "int option"
  ac_require_ocr_amount_match :: bool
  ac_require_ocr_ipa_match :: bool
  ac_ocr_amount_tolerance_bps :: int
  ac_require_note_contains_reference :: bool
  ac_require_transaction_ref_match :: bool
  ac_require_recipient_name_match :: bool

record approval_facts =
  af_order_total_cents :: int
  af_daily_auto_approved_count :: int
  af_daily_auto_approved_cents :: int
  af_merchant_ipa :: "string option"
  af_intent_reference_code :: "string option"
  af_submitted_transaction_ref :: "string option"
  af_merchant_recipient_name_token :: "string option"

text \<open>What the rules read of the proof.\<close>

record proof_reading =
  po_declared_amount_cents :: "int option"
  po_ocr_status :: "string option"
  po_ocr_extracted_amount_cents :: "int option"
  po_ocr_extracted_ipa :: "string option"
  po_ocr_extracted_note :: "string option"
  po_ocr_extracted_transaction_ref :: "string option"
  po_ocr_extracted_recipient_name :: "string option"

record approval_decision =
  ad_approved :: bool
  ad_reasons :: "string list"
  ad_soft_block :: bool

text \<open>\<open>p in s\<close> for strings.\<close>

fun contains :: "string \<Rightarrow> string \<Rightarrow> bool" where
  "contains p [] = (p = [])"
| "contains p (c # cs) = (take (length p) (c # cs) = p \<or> contains p cs)"

definition digits_of :: "string \<Rightarrow> string" where
  "digits_of s = filter is_digit s"

text \<open>Both values present and not the empty string, and related.\<close>

definition both_such_that :: "(string \<Rightarrow> string \<Rightarrow> bool) \<Rightarrow> string option \<Rightarrow> string option \<Rightarrow> bool" where
  "both_such_that P a b = (case (a, b) of
      (Some x, Some y) \<Rightarrow> x \<noteq> [] \<and> y \<noteq> [] \<and> P x y | _ \<Rightarrow> False)"

definition off_by_more :: "int \<Rightarrow> int option \<Rightarrow> int \<Rightarrow> bool" where
  "off_by_more tot amount bps = (case amount of
      None \<Rightarrow> False
    | Some a \<Rightarrow> 0 < tot \<and> (tot * bps) div 10000 < \<bar>a - tot\<bar>)"

text \<open>\<open>if condition: reasons.append(tag)\<close>.\<close>

definition add_reason :: "bool \<Rightarrow> string \<Rightarrow> string list \<Rightarrow> string list" where
  "add_reason c tag rs = (if c then rs @ [tag] else rs)"

definition evaluate_approval ::
    "bool \<Rightarrow> proof_reading \<Rightarrow> approval_config \<Rightarrow> approval_facts \<Rightarrow> approval_decision" where
  "evaluate_approval expired p cfg f =
     (let r0 = add_reason expired ''intent_expired'' [] in
      if \<not> ac_enabled cfg
      then \<lparr>ad_approved = False, ad_reasons = r0 @ [''auto_approval_disabled''],
            ad_soft_block = (\<not> expired)\<rparr>
      else (let
        tot = af_order_total_cents f;
        r1 = add_reason (ac_threshold_cents cfg < tot) ''amount_above_auto_approve_threshold'' r0;
        r2 = add_reason (case ac_amount_mismatch_tolerance_bps cfg of
                None \<Rightarrow> False
              | Some bps \<Rightarrow> off_by_more tot (po_declared_amount_cents p) bps)
              ''declared_amount_mismatch'' r1;
        projected = af_daily_auto_approved_cents f + tot;
        r3 = add_reason (ac_daily_count_cap cfg \<le> af_daily_auto_approved_count f)
              ''daily_auto_approve_count_exceeded'' r2;
        r4 = add_reason (ac_daily_cap_cents cfg < projected)
              ''daily_auto_approve_amount_exceeded'' r3;
        ocr_ready = (po_ocr_status p = Some ''ok'');
        r5 = add_reason (ac_require_ocr_amount_match cfg \<and> ocr_ready
                \<and> off_by_more tot (po_ocr_extracted_amount_cents p) (ac_ocr_amount_tolerance_bps cfg))
              ''ocr_amount_mismatch'' r4;
        r6 = add_reason (ac_require_ocr_ipa_match cfg \<and> ocr_ready
                \<and> both_such_that (\<lambda>a b. lower a \<noteq> lower b) (po_ocr_extracted_ipa p) (af_merchant_ipa f))
              ''ocr_ipa_mismatch'' r5;
        r7 = add_reason (ac_require_note_contains_reference cfg \<and> ocr_ready
                \<and> both_such_that (\<lambda>note ref. \<not> contains (lower ref) (lower note))
                    (po_ocr_extracted_note p) (af_intent_reference_code f))
              ''ocr_note_missing_reference'' r6;
        r8 = add_reason (ac_require_transaction_ref_match cfg \<and> ocr_ready
                \<and> both_such_that (\<lambda>a b. digits_of a \<noteq> [] \<and> digits_of b \<noteq> [] \<and> digits_of a \<noteq> digits_of b)
                    (po_ocr_extracted_transaction_ref p) (af_submitted_transaction_ref f))
              ''ocr_transaction_ref_mismatch'' r7;
        r9 = add_reason (ac_require_recipient_name_match cfg \<and> ocr_ready
                \<and> both_such_that (\<lambda>name token. strip token \<noteq> []
                      \<and> \<not> contains (lower (strip token)) (lower name))
                    (po_ocr_extracted_recipient_name p) (af_merchant_recipient_name_token f))
              ''ocr_recipient_name_mismatch'' r8
        in if r9 = [] then \<lparr>ad_approved = True, ad_reasons = [], ad_soft_block = False\<rparr>
           else \<lparr>ad_approved = False, ad_reasons = r9, ad_soft_block = (\<not> expired)\<rparr>))"

section \<open>The defaults of the platform\<close>

definition default_auto_approve_threshold_cents :: int where
  "default_auto_approve_threshold_cents = 50000"

definition default_auto_approve_daily_cap_cents :: int where
  "default_auto_approve_daily_cap_cents = 500000"

definition default_auto_approve_daily_count :: int where
  "default_auto_approve_daily_count = 10"

section \<open>Reasons\<close>

text \<open>Each rule as a tag and the condition under which it speaks against the receipt.\<close>

definition approval_rules ::
    "bool \<Rightarrow> proof_reading \<Rightarrow> approval_config \<Rightarrow> approval_facts \<Rightarrow> (string \<times> bool) list" where
  "approval_rules expired p cfg f =
     (let tot = af_order_total_cents f; ready = (po_ocr_status p = Some ''ok'') in
      [(''intent_expired'', expired),
       (''amount_above_auto_approve_threshold'', ac_threshold_cents cfg < tot),
       (''declared_amount_mismatch'', case ac_amount_mismatch_tolerance_bps cfg of
          None \<Rightarrow> False | Some bps \<Rightarrow> off_by_more tot (po_declared_amount_cents p) bps),
       (''daily_auto_approve_count_exceeded'', ac_daily_count_cap cfg \<le> af_daily_auto_approved_count f),
       (''daily_auto_approve_amount_exceeded'',
          ac_daily_cap_cents cfg < af_daily_auto_approved_cents f + tot),
       (''ocr_amount_mismatch'', ac_require_ocr_amount_match cfg \<and> ready
          \<and> off_by_more tot (po_ocr_extracted_amount_cents p) (ac_ocr_amount_tolerance_bps cfg)),
       (''ocr_ipa_mismatch'', ac_require_ocr_ipa_match cfg \<and> ready
          \<and> both_such_that (\<lambda>a b. lower a \<noteq> lower b) (po_ocr_extracted_ipa p) (af_merchant_ipa f)),
       (''ocr_note_missing_reference'', ac_require_note_contains_reference cfg \<and> ready
          \<and> both_such_that (\<lambda>note ref. \<not> contains (lower ref) (lower note))
              (po_ocr_extracted_note p) (af_intent_reference_code f)),
       (''ocr_transaction_ref_mismatch'', ac_require_transaction_ref_match cfg \<and> ready
          \<and> both_such_that (\<lambda>a b. digits_of a \<noteq> [] \<and> digits_of b \<noteq> [] \<and> digits_of a \<noteq> digits_of b)
              (po_ocr_extracted_transaction_ref p) (af_submitted_transaction_ref f)),
       (''ocr_recipient_name_mismatch'', ac_require_recipient_name_match cfg \<and> ready
          \<and> both_such_that (\<lambda>name token. strip token \<noteq> []
                \<and> \<not> contains (lower (strip token)) (lower name))
              (po_ocr_extracted_recipient_name p) (af_merchant_recipient_name_token f))])"

lemma speaking_Cons:
  "map fst (filter snd ((t, c) # rs)) = (if c then [t] else []) @ map fst (filter snd rs)"
  by simp

lemma speaking_Nil: "map fst (filter snd []) = []"
  by simp

lemma add_reason_append: "add_reason c t rs = rs @ (if c then [t] else [])"
  by (simp add: add_reason_def)

lemma evaluate_approval_enabled:
  assumes "ac_enabled cfg"
  shows "evaluate_approval expired p cfg f
    = (let rs = map fst (filter snd (approval_rules expired p cfg f))
       in if rs = [] then \<lparr>ad_approved = True, ad_reasons = [], ad_soft_block = False\<rparr>
          else \<lparr>ad_approved = False, ad_reasons = rs, ad_soft_block = (\<not> expired)\<rparr>)"
  unfolding evaluate_approval_def approval_rules_def Let_def speaking_Cons speaking_Nil add_reason_append
  using assms by (simp only: not_True_eq_False if_False append_Nil append_Nil2 append_assoc)

lemma evaluate_approval_rules:
  assumes "ac_enabled cfg"
  shows "ad_reasons (evaluate_approval expired p cfg f)
      = map fst (filter snd (approval_rules expired p cfg f))
    \<and> (ad_approved (evaluate_approval expired p cfg f)
        \<longleftrightarrow> map fst (filter snd (approval_rules expired p cfg f)) = [])"
  by (simp add: evaluate_approval_enabled [OF assms] Let_def)

lemma contains_iff: "contains p s \<longleftrightarrow> (\<exists>a b. s = a @ p @ b)"
proof (induction s)
  case (Cons c cs)
  show ?case
  proof
    assume "contains p (c # cs)"
    then consider "take (length p) (c # cs) = p" | "contains p cs" by auto
    then show "\<exists>a b. c # cs = a @ p @ b"
    proof cases
      case 1
      then have "c # cs = [] @ p @ drop (length p) (c # cs)" by (metis append_Nil append_take_drop_id)
      then show ?thesis by blast
    next
      case 2
      then obtain a b where "cs = a @ p @ b" using Cons.IH by blast
      then have "c # cs = (c # a) @ p @ b" by simp
      then show ?thesis by blast
    qed
  next
    assume "\<exists>a b. c # cs = a @ p @ b"
    then obtain a b where ab: "c # cs = a @ p @ b" by blast
    show "contains p (c # cs)"
    proof (cases a)
      case Nil
      then have "take (length p) (c # cs) = p" using ab by simp
      then show ?thesis by simp
    next
      case (Cons x a')
      with ab have "cs = a' @ p @ b" by simp
      with Cons.IH show ?thesis by auto
    qed
  qed
qed auto

definition demo_config :: approval_config where
  "demo_config = \<lparr>ac_threshold_cents = 50000, ac_daily_cap_cents = 500000, ac_daily_count_cap = 10,
     ac_enabled = True, ac_amount_mismatch_tolerance_bps = Some 100,
     ac_require_ocr_amount_match = True, ac_require_ocr_ipa_match = True,
     ac_ocr_amount_tolerance_bps = 100, ac_require_note_contains_reference = True,
     ac_require_transaction_ref_match = False, ac_require_recipient_name_match = False\<rparr>"

definition demo_facts :: "int \<Rightarrow> approval_facts" where
  "demo_facts tot = \<lparr>af_order_total_cents = tot, af_daily_auto_approved_count = 3,
     af_daily_auto_approved_cents = 460000, af_merchant_ipa = Some ''numu@ipa'',
     af_intent_reference_code = Some ''WT-K7'', af_submitted_transaction_ref = Some ''991'',
     af_merchant_recipient_name_token = None\<rparr>"

definition demo_reading :: "int \<Rightarrow> proof_reading" where
  "demo_reading n = \<lparr>po_declared_amount_cents = Some n, po_ocr_status = Some ''ok'',
     po_ocr_extracted_amount_cents = Some n, po_ocr_extracted_ipa = Some ''NUMU@ipa'',
     po_ocr_extracted_note = Some ''order wt-k7 thanks'', po_ocr_extracted_transaction_ref = None,
     po_ocr_extracted_recipient_name = None\<rparr>"

text \<open>
  C37: a receipt approves itself only inside every limit. With the switch on, a decision lists
  exactly the rules that speak against the receipt, in their order, and approves exactly when
  there is none; an approved receipt is not expired, its order is within the single-order
  threshold, and with it the day stays within the amount cap and the count below its cap, and
  where the amount or the receiver of the transfer was read off the image and is checked, it
  agrees. With the switch off nothing is approved.
\<close>

theorem auto_approval_within_limits:
  "(ac_enabled cfg \<longrightarrow>
      ad_reasons (evaluate_approval expired p cfg f) = map fst (filter snd (approval_rules expired p cfg f)))
   \<and> (ad_approved (evaluate_approval expired p cfg f) \<longleftrightarrow>
        ac_enabled cfg \<and> list_all (\<lambda>r. \<not> snd r) (approval_rules expired p cfg f))
   \<and> (ad_approved (evaluate_approval expired p cfg f) \<longrightarrow>
        \<not> expired \<and> af_order_total_cents f \<le> ac_threshold_cents cfg
        \<and> af_daily_auto_approved_cents f + af_order_total_cents f \<le> ac_daily_cap_cents cfg
        \<and> af_daily_auto_approved_count f + 1 \<le> ac_daily_count_cap cfg
        \<and> (\<forall>a. ac_require_ocr_amount_match cfg \<and> po_ocr_status p = Some ''ok''
              \<and> po_ocr_extracted_amount_cents p = Some a \<and> 0 < af_order_total_cents f \<longrightarrow>
            \<bar>a - af_order_total_cents f\<bar>
              \<le> af_order_total_cents f * ac_ocr_amount_tolerance_bps cfg div 10000)
        \<and> (\<forall>a b. ac_require_ocr_ipa_match cfg \<and> po_ocr_status p = Some ''ok''
              \<and> po_ocr_extracted_ipa p = Some a \<and> a \<noteq> [] \<and> af_merchant_ipa f = Some b \<and> b \<noteq> [] \<longrightarrow>
            lower a = lower b))"
proof -
  have app: "ad_approved (evaluate_approval expired p cfg f) \<longleftrightarrow>
        ac_enabled cfg \<and> list_all (\<lambda>r. \<not> snd r) (approval_rules expired p cfg f)"
  proof (cases "ac_enabled cfg")
    case True
    then show ?thesis using evaluate_approval_rules [OF True, of expired p f]
      by (simp add: filter_empty_conv list_all_iff)
  qed (simp add: evaluate_approval_def Let_def)
  have "\<bar>a - af_order_total_cents f\<bar> \<le> af_order_total_cents f * ac_ocr_amount_tolerance_bps cfg div 10000"
    if "list_all (\<lambda>r. \<not> snd r) (approval_rules expired p cfg f)" "ac_require_ocr_amount_match cfg"
      "po_ocr_status p = Some ''ok''" "po_ocr_extracted_amount_cents p = Some a" "0 < af_order_total_cents f" for a
    using that by (simp add: approval_rules_def Let_def off_by_more_def)
  moreover have "lower a = lower b"
    if "list_all (\<lambda>r. \<not> snd r) (approval_rules expired p cfg f)" "ac_require_ocr_ipa_match cfg"
      "po_ocr_status p = Some ''ok''" "po_ocr_extracted_ipa p = Some a" "a \<noteq> []"
      "af_merchant_ipa f = Some b" "b \<noteq> []" for a b
    using that by (simp add: approval_rules_def Let_def both_such_that_def)
  moreover have "\<not> expired \<and> af_order_total_cents f \<le> ac_threshold_cents cfg
        \<and> af_daily_auto_approved_cents f + af_order_total_cents f \<le> ac_daily_cap_cents cfg
        \<and> af_daily_auto_approved_count f + 1 \<le> ac_daily_count_cap cfg"
    if "list_all (\<lambda>r. \<not> snd r) (approval_rules expired p cfg f)"
    using that by (simp add: approval_rules_def Let_def)
  ultimately show ?thesis using app evaluate_approval_rules [of cfg expired p f] by blast
qed

theorem auto_approval_within_limits_witness:
  "ad_approved (evaluate_approval False (demo_reading 40000) demo_config (demo_facts 40000))
   \<and> af_daily_auto_approved_cents (demo_facts 40000) + af_order_total_cents (demo_facts 40000) \<le> 500000
   \<and> ad_reasons (evaluate_approval True (demo_reading 60000) demo_config (demo_facts 60000))
       = [''intent_expired'', ''amount_above_auto_approve_threshold'', ''daily_auto_approve_amount_exceeded'']"
proof -
  have e: "ad_approved (evaluate_approval False (demo_reading 40000) demo_config (demo_facts 40000))"
    by code_simp
  moreover have "map fst (filter snd (approval_rules True (demo_reading 60000) demo_config (demo_facts 60000)))
      = [''intent_expired'', ''amount_above_auto_approve_threshold'', ''daily_auto_approve_amount_exceeded'']"
    by code_simp
  moreover have "ac_enabled demo_config" "ac_daily_cap_cents demo_config = 500000" by (simp_all add: demo_config_def)
  ultimately show ?thesis
    using auto_approval_within_limits [of demo_config False "demo_reading 40000" "demo_facts 40000"]
      auto_approval_within_limits [of demo_config True "demo_reading 60000" "demo_facts 60000"] by simp
qed

end
