(* ===== verification/Wallet_Topup.thy ===== *)
theory Wallet_Topup
  imports Wallet Auto_Approval
begin

text \<open>
  Topping a wallet up: \<open>src/application/use_cases/wallet/\<close> (\<open>create_topup.py\<close>, \<open>submit_topup_proof.py\<close>,
  \<open>review_topup_proof.py\<close>, \<open>credit_wallet.py\<close>), the expiry task
  \<open>src/infrastructure/messaging/tasks/wallet_topup_expiry_task.py\<close>, and what the two platform
  webhooks do once the signature is verified. The image digest, the upload, the text recognition
  and the random references are arguments.
\<close>

section \<open>Creation\<close>

record wallet_admin_settings =
  wa_topups_enabled :: bool
  wa_card_enabled :: bool
  wa_vodafone_cash_enabled :: bool
  wa_instapay_enabled :: bool
  wa_commission_bps_default :: "int option"
  wa_negative_allowance_cents :: int
  wa_low_balance_threshold_cents :: int
  wa_min_topup_cents :: int
  wa_checkout_gate_enabled :: bool
  wa_golive_gate_enabled :: bool
  wa_vodafone_cash_number :: "string option"
  wa_instapay_ipa :: "string option"

definition method_enabled :: "wallet_admin_settings \<Rightarrow> topup_method \<Rightarrow> bool" where
  "method_enabled s m = (case m of
      TmCard \<Rightarrow> wa_card_enabled s
    | TmVodafoneCash \<Rightarrow> wa_vodafone_cash_enabled s
    | TmInstapay \<Rightarrow> wa_instapay_enabled s)"

definition max_topup_cents :: int where "max_topup_cents = 5000000"
definition manual_expiry_minutes :: int where "manual_expiry_minutes = 30"
definition gateway_expiry_hours :: int where "gateway_expiry_hours = 1"

definition minutes :: "int \<Rightarrow> int" where "minutes n = n * 60 * 1000000"
definition hours :: "int \<Rightarrow> int" where "hours n = n * 3600 * 1000000"

text \<open>\<open>f"\<dots>"\<close> of a \<open>UUID\<close> is \<open>str\<close>. An insert breaks the unique index on the reference or the key.\<close>

definition add_intent :: "topup_intent \<Rightarrow> wallet_db \<Rightarrow> (topup_intent \<times> wallet_db) result" where
  "add_intent i db =
     (if list_ex (\<lambda>j. ti_id j = ti_id i \<or> ti_special_reference j = ti_special_reference i) (wd_intents db)
      then Inl (IntegrityError ''wallet_topup_intents'')
      else Inr (i, db\<lparr>wd_intents := wd_intents db @ [i]\<rparr>))"

definition create_card ::
    "instant \<Rightarrow> bool \<Rightarrow> uuid \<Rightarrow> uuid \<Rightarrow> uuid \<Rightarrow> int \<Rightarrow> wallet_db \<Rightarrow> (topup_intent \<times> wallet_db) result" where
  "create_card now platform_configured new_id tid user amount_cents db =
     (if \<not> platform_configured then Inl (HTTPException ''503 Card payments are not configured.'')
      else add_intent \<lparr>ti_id = new_id, ti_tenant_id = tid, ti_created_by_user_id = Some user,
        ti_method = TmCard, ti_amount_cents = amount_cents, ti_currency = ''EGP'',
        ti_status = TsPending, ti_special_reference = ''WTOP-'' @ uuid_str new_id,
        ti_gateway_transaction_id = None, ti_display_destination = None, ti_qr_payload = None,
        ti_expires_at = Some (now + hours gateway_expiry_hours), ti_credited_transaction_id = None,
        ti_failure_reason = None\<rparr> db)"

text \<open>
  \<open>urllib.parse.quote\<close> on ASCII text, and the payload of the InstaPay code. The amount is written
  with two decimals.
\<close>

definition hex_upper :: "nat \<Rightarrow> char" where
  "hex_upper n = (''0123456789ABCDEF'' ! n)"

definition quote_char :: "string \<Rightarrow> char \<Rightarrow> string" where
  "quote_char safe c =
     (if is_alnum c \<or> c \<in> set ''_.-~'' \<or> c \<in> set safe then [c]
      else [CHR ''%'', hex_upper (of_char c div 16), hex_upper (of_char c mod 16)])"

definition quote :: "string \<Rightarrow> string \<Rightarrow> string" where
  "quote safe s = concat (map (quote_char safe) s)"

definition cents_2f :: "int \<Rightarrow> string" where
  "cents_2f n = int_str (n div 100) @ ''.'' @ (if n mod 100 < 10 then ''0'' else '''') @ int_str (n mod 100)"

definition build_qr_payload :: "string \<Rightarrow> int \<Rightarrow> string \<Rightarrow> string option \<Rightarrow> string" where
  "build_qr_payload ipa amount_cents ref note =
     ''instapay://pay?'' @ ''ipa='' @ quote ''@'' ipa @ ''&amount='' @ cents_2f amount_cents
       @ ''&ref='' @ quote '''' ref
       @ (case note of None \<Rightarrow> '''' | Some s \<Rightarrow> if s = [] then '''' else ''&note='' @ quote '''' s)"

text \<open>The first of the drawn references that is free; after three tries the fourth is taken as it is.\<close>

fun pick_reference :: "string list \<Rightarrow> string \<Rightarrow> wallet_db \<Rightarrow> string" where
  "pick_reference [] r db = r"
| "pick_reference (next # rest) r db =
     (if r \<in> ti_special_reference ` set (wd_intents db) then pick_reference rest next db else r)"

definition create_manual ::
    "instant \<Rightarrow> wallet_admin_settings \<Rightarrow> string \<times> string \<times> string \<times> string \<Rightarrow> uuid \<Rightarrow> uuid \<Rightarrow> uuid
      \<Rightarrow> topup_method \<Rightarrow> int \<Rightarrow> wallet_db \<Rightarrow> (topup_intent \<times> wallet_db) result" where
  "create_manual now admin draws new_id tid user m amount_cents db =
     (let destination = (if m = TmInstapay then wa_instapay_ipa admin else wa_vodafone_cash_number admin);
          prefix = (if m = TmInstapay then ''WT'' else ''VC'')
      in if \<not> truthy_str destination
      then Inl (HTTPException (''503 '' @ method_value m @ '' top-ups are not configured.''))
      else (let (s0, s1, s2, s3) = draws;
                ref = pick_reference (map (\<lambda>s. prefix @ ''-'' @ s) [s1, s2, s3]) (prefix @ ''-'' @ s0) db;
                qr = (if m = TmInstapay
                      then Some (build_qr_payload (the destination) amount_cents ref
                             (Some (''NUMU wallet top-up '' @ ref)))
                      else None)
            in add_intent \<lparr>ti_id = new_id, ti_tenant_id = tid, ti_created_by_user_id = Some user,
                 ti_method = m, ti_amount_cents = amount_cents, ti_currency = ''EGP'',
                 ti_status = TsAwaitingProof, ti_special_reference = ref,
                 ti_gateway_transaction_id = None, ti_display_destination = destination,
                 ti_qr_payload = qr, ti_expires_at = Some (now + minutes manual_expiry_minutes),
                 ti_credited_transaction_id = None, ti_failure_reason = None\<rparr> db))"

definition create_topup ::
    "instant \<Rightarrow> wallet_admin_settings \<Rightarrow> bool \<Rightarrow> bool \<Rightarrow> string \<times> string \<times> string \<times> string \<Rightarrow> uuid
      \<Rightarrow> uuid \<Rightarrow> uuid \<Rightarrow> topup_method \<Rightarrow> int \<Rightarrow> wallet_db \<Rightarrow> (topup_intent \<times> wallet_db) result" where
  "create_topup now admin ff_topups platform_configured draws new_id tid user m amount_cents db =
     (if \<not> wa_topups_enabled admin \<and> \<not> ff_topups
      then Inl (HTTPException ''403 Wallet top-ups are not enabled yet.'')
      else if \<not> method_enabled admin m
      then Inl (HTTPException ''403 This top-up method is currently disabled.'')
      else if \<not> (wa_min_topup_cents admin \<le> amount_cents \<and> amount_cents \<le> max_topup_cents)
      then Inl (HTTPException ''422 Top-up amount'')
      else if m = TmCard then create_card now platform_configured new_id tid user amount_cents db
      else create_manual now admin draws new_id tid user m amount_cents db)"

text \<open>The route: a positive amount, and at most ten top-ups open at a time.\<close>

definition open_topups :: "uuid \<Rightarrow> wallet_db \<Rightarrow> nat" where
  "open_topups tid db = length (filter (\<lambda>i. ti_tenant_id i = tid
     \<and> ti_status i \<in> {TsPending, TsAwaitingProof, TsUnderReview}) (wd_intents db))"

definition create_wallet_topup ::
    "instant \<Rightarrow> wallet_admin_settings \<Rightarrow> bool \<Rightarrow> bool \<Rightarrow> string \<times> string \<times> string \<times> string \<Rightarrow> uuid
      \<Rightarrow> uuid \<Rightarrow> uuid \<Rightarrow> topup_method \<Rightarrow> int \<Rightarrow> wallet_db \<Rightarrow> (topup_intent \<times> wallet_db) result" where
  "create_wallet_topup now admin ff_topups platform_configured draws new_id tid user m amount_cents db =
     (if \<not> 0 < amount_cents then Inl (ValidationError ''amount_cents'')
      else if 10 \<le> open_topups tid db then Inl (HTTPException ''429 Too many open top-ups.'')
      else create_topup now admin ff_topups platform_configured draws new_id tid user m amount_cents db)"

section \<open>Credit\<close>

definition convert_payg_tenant :: "instant \<Rightarrow> uuid \<Rightarrow> wallet_db \<Rightarrow> wallet_db" where
  "convert_payg_tenant now tid db = (case lookup_by tn_id tid (wd_tenants db) of
      None \<Rightarrow> db
    | Some t \<Rightarrow>
        if is_writable t \<or> lower (tn_plan t) \<noteq> ''payg'' then db
        else db\<lparr>wd_tenants := replace_by tn_id (t\<lparr>tn_lifecycle_state := LsActive,
               tn_read_only_at := None, tn_delete_at := None,
               tn_trial_converted_at := (case tn_trial_converted_at t of
                   None \<Rightarrow> Some now | Some c \<Rightarrow> Some c)\<rparr>) (wd_tenants db)\<rparr>)"

definition find_intent :: "uuid \<Rightarrow> wallet_db \<Rightarrow> topup_intent result" where
  "find_intent iid db = (case lookup_by ti_id iid (wd_intents db) of
      None \<Rightarrow> Inl (RuntimeError ''No row was found when one was required'')
    | Some i \<Rightarrow> Inr i)"

text \<open>The hold of an intent under review becomes real money.\<close>

definition release_hold_of :: "uuid \<Rightarrow> topup_intent \<Rightarrow> wallet_db \<Rightarrow> wallet_db result" where
  "release_hold_of new_id i db =
     (if ti_status i = TsUnderReview
      then rbind (get_or_create_wallet new_id (ti_tenant_id i) db) (\<lambda>(w, db1).
             Inr (put_wallet (release_pending_hold (ti_amount_cents i) w) db1))
      else Inr db)"

definition credit_topup_intent ::
    "instant \<Rightarrow> wallet_limits \<Rightarrow> drawn_ids \<Rightarrow> uuid \<Rightarrow> string \<Rightarrow> string \<Rightarrow> uuid option \<Rightarrow> wallet_db
      \<Rightarrow> (wallet_transaction option \<times> wallet_db) result" where
  "credit_topup_intent now limits ids iid key source actor db =
     rbind (find_intent iid db) (\<lambda>i.
       if ti_status i = TsSucceeded \<or> ti_credited_transaction_id i \<noteq> None then Inr (None, db)
       else rbind (release_hold_of (fst ids) i db) (\<lambda>db1.
         rbind (apply_entry ids (ti_tenant_id i) WkTopup (ti_amount_cents i)
             \<lparr>ea_currency = ti_currency i, ea_order_id = None, ea_topup_intent_id = Some (ti_id i),
              ea_idempotency_key = Some key, ea_actor_user_id = actor,
              ea_note = Some (''Top-up via '' @ method_value (ti_method i) @ '' ('' @ ti_special_reference i @ '')''),
              ea_meta = [(''source'', JStr source)]\<rparr> db1) (\<lambda>(tx, db2).
           case tx of
             None \<Rightarrow> Inr (None, put_intent (i\<lparr>ti_status := TsSucceeded\<rparr>) db2)
           | Some x \<Rightarrow>
               (let db3 = convert_payg_tenant now (ti_tenant_id i)
                      (put_intent (i\<lparr>ti_status := TsSucceeded,
                         ti_credited_transaction_id := Some (wt_id x)\<rparr>) db2)
                in rbind (bump_wallet limits (fst ids) (ti_tenant_id i) db3) (\<lambda>(level, db4).
                     Inr (Some x, db4))))))"

section \<open>Review\<close>

definition put_proof :: "topup_proof \<Rightarrow> wallet_db \<Rightarrow> wallet_db" where
  "put_proof p db = db\<lparr>wd_proofs := replace_by tp_id p (wd_proofs db)\<rparr>"

definition load_proof :: "uuid \<Rightarrow> wallet_db \<Rightarrow> (topup_proof \<times> topup_intent) result" where
  "load_proof pid db = (case lookup_by tp_id pid (wd_proofs db) of
      None \<Rightarrow> Inl (HTTPException ''404 Proof not found.'')
    | Some p \<Rightarrow>
        if tp_status p \<noteq> PfAwaitingReview then Inl (HTTPException ''409 Proof is already decided.'')
        else rbind (find_intent (tp_topup_intent_id p) db) (\<lambda>i. Inr (p, i)))"

definition proof_key :: "uuid \<Rightarrow> string" where
  "proof_key pid = ''proof:'' @ uuid_str pid"

definition approve_proof ::
    "instant \<Rightarrow> wallet_limits \<Rightarrow> drawn_ids \<Rightarrow> uuid \<Rightarrow> uuid \<Rightarrow> wallet_db
      \<Rightarrow> (wallet_transaction option \<times> wallet_db) result" where
  "approve_proof now limits ids pid admin db =
     rbind (load_proof pid db) (\<lambda>(p, i).
       credit_topup_intent now limits ids (ti_id i) (proof_key pid) ''admin_review'' (Some admin)
         (put_proof (p\<lparr>tp_status := PfApproved, tp_review_decision_by := Some admin,
                      tp_review_decision_at := Some now\<rparr>) db))"

definition reject_proof ::
    "instant \<Rightarrow> uuid \<Rightarrow> uuid \<Rightarrow> uuid \<Rightarrow> string \<Rightarrow> wallet_db \<Rightarrow> wallet_db result" where
  "reject_proof now new_id pid admin reason db =
     rbind (load_proof pid db) (\<lambda>(p, i).
       let why = (if strip reason = [] then ''Rejected by admin'' else strip reason);
           db1 = put_proof (p\<lparr>tp_status := PfRejected, tp_review_decision_by := Some admin,
                  tp_review_decision_at := Some now, tp_rejection_reason := Some why\<rparr>) db
       in rbind (get_or_create_wallet new_id (ti_tenant_id i) db1) (\<lambda>(w, db2).
            let db3 = (if ti_status i = TsUnderReview
                       then put_wallet (release_pending_hold (ti_amount_cents i) w) db2 else db2)
            in Inr (if ti_status i \<noteq> TsSucceeded
                    then put_intent (i\<lparr>ti_status := TsAwaitingProof, ti_failure_reason := Some why\<rparr>) db3
                    else db3)))"

section \<open>Receipts\<close>

definition platform_auto_approval_config :: approval_config where
  "platform_auto_approval_config = \<lparr>
     ac_threshold_cents = default_auto_approve_threshold_cents,
     ac_daily_cap_cents = default_auto_approve_daily_cap_cents,
     ac_daily_count_cap = default_auto_approve_daily_count, ac_enabled = True,
     ac_amount_mismatch_tolerance_bps = Some 100, ac_require_ocr_amount_match = True,
     ac_require_ocr_ipa_match = True, ac_ocr_amount_tolerance_bps = 100,
     ac_require_note_contains_reference = True, ac_require_transaction_ref_match = False,
     ac_require_recipient_name_match = False\<rparr>"

record ocr_result =
  oc_status :: string
  oc_extracted_amount_cents :: "int option"
  oc_extracted_ipa :: "string option"
  oc_extracted_note :: "string option"
  oc_extracted_transaction_ref :: "string option"
  oc_extracted_recipient_name :: "string option"

text \<open>
  The number and the sum of the auto-approved receipts since an instant, over the outer join with
  the ledger rows of their intents: a receipt with several rows counts once for each.
\<close>

definition daily_auto_approved :: "instant \<Rightarrow> wallet_db \<Rightarrow> int \<times> int" where
  "daily_auto_approved since db =
     (let ps = filter (\<lambda>p. tp_status p = PfAutoApproved \<and> since \<le> tp_created_at p) (wd_proofs db);
          rows = (\<lambda>p. filter (\<lambda>x. wt_topup_intent_id x = Some (tp_topup_intent_id p)) (wd_transactions db))
      in (int (sum_list (map (\<lambda>p. max 1 (length (rows p))) ps)),
          sum_list (map (\<lambda>p. sum_list (map wt_amount_cents (rows p))) ps)))"

record receipt =
  re_tenant_id :: uuid
  re_topup_intent_id :: uuid
  re_image_bytes :: string
  re_transaction_ref :: string
  re_declared_amount_cents :: "int option"

text \<open>The decision of the rules, held back when no amount was read off the image.\<close>

definition receipt_decision ::
    "instant \<Rightarrow> ocr_result \<Rightarrow> topup_intent \<Rightarrow> string \<Rightarrow> int option \<Rightarrow> wallet_db \<Rightarrow> approval_decision" where
  "receipt_decision now ocr i ref declared db =
     (let (daily_count, daily_cents) = daily_auto_approved (now - hours 24) db;
          expired = (case ti_expires_at i of None \<Rightarrow> False | Some e \<Rightarrow> e \<le> now);
          d = evaluate_approval expired
            \<lparr>po_declared_amount_cents = declared,
             po_ocr_status = (if oc_status ocr = ''skipped'' then None else Some (oc_status ocr)),
             po_ocr_extracted_amount_cents = oc_extracted_amount_cents ocr,
             po_ocr_extracted_ipa = oc_extracted_ipa ocr,
             po_ocr_extracted_note = oc_extracted_note ocr,
             po_ocr_extracted_transaction_ref = oc_extracted_transaction_ref ocr,
             po_ocr_extracted_recipient_name = oc_extracted_recipient_name ocr\<rparr>
            platform_auto_approval_config
            \<lparr>af_order_total_cents = ti_amount_cents i, af_daily_auto_approved_count = daily_count,
             af_daily_auto_approved_cents = daily_cents, af_merchant_ipa = ti_display_destination i,
             af_intent_reference_code = Some (ti_special_reference i),
             af_submitted_transaction_ref = Some ref, af_merchant_recipient_name_token = None\<rparr>;
          ocr_ok = (oc_status ocr = ''ok'')
      in if ad_approved d \<and> \<not> (ocr_ok \<and> oc_extracted_amount_cents ocr \<noteq> None)
         then \<lparr>ad_approved = False,
               ad_reasons = ad_reasons d @ [if ocr_ok then ''ocr_no_amount_found''
                 else ''ocr_verification_unavailable''],
               ad_soft_block = True\<rparr>
         else d)"

text \<open>The checks before anything is uploaded.\<close>

definition check_receipt :: "instant \<Rightarrow> string \<Rightarrow> receipt \<Rightarrow> string \<Rightarrow> wallet_db \<Rightarrow> topup_intent result" where
  "check_receipt now image_hash r ref db =
     (if ref = [] then Inl (HTTPException ''422 Transaction reference is required.'')
      else case List.find (\<lambda>i. ti_id i = re_topup_intent_id r \<and> ti_tenant_id i = re_tenant_id r) (wd_intents db) of
        None \<Rightarrow> Inl (HTTPException ''404 Top-up not found.'')
      | Some i \<Rightarrow>
          if ti_method i \<notin> set manual_topup_methods
          then Inl (HTTPException ''409 This top-up method does not use receipt upload.'')
          else if ti_status i = TsSucceeded
          then Inl (HTTPException ''409 This top-up is already credited.'')
          else if ti_status i \<notin> {TsAwaitingProof, TsUnderReview}
          then Inl (HTTPException ''409 This top-up can no longer accept a receipt.'')
          else if (case ti_expires_at i of None \<Rightarrow> False | Some e \<Rightarrow> e \<le> now)
          then Inl (HTTPException ''410 The payment window for this top-up has expired.'')
          else if list_ex (\<lambda>p. tp_tenant_id p = re_tenant_id r
                 \<and> (tp_image_hash p = image_hash \<or> tp_transaction_ref p = ref)) (wd_proofs db)
          then Inl (HTTPException ''409 This screenshot or transaction reference was already submitted.'')
          else Inr i)"

text \<open>The hold of a receipt that waits for a human; an intent is held only once.\<close>

definition queue_for_review :: "uuid \<Rightarrow> uuid \<Rightarrow> uuid \<Rightarrow> wallet_db \<Rightarrow> (bool \<times> wallet_db) result" where
  "queue_for_review new_id tid iid db =
     rbind (find_intent iid db) (\<lambda>i.
       rbind (if ti_status i = TsAwaitingProof
              then rbind (get_or_create_wallet new_id tid db) (\<lambda>(w, db1).
                     Inr (True, put_wallet (add_pending_hold (ti_amount_cents i) w) db1))
              else Inr (False, db)) (\<lambda>(on_hold, db2).
         Inr (on_hold, if ti_status i \<noteq> TsSucceeded
                       then put_intent (i\<lparr>ti_status := TsUnderReview\<rparr>) db2 else db2)))"

record submit_outcome =
  so_proof_id :: uuid
  so_approved :: bool
  so_credited_balance_cents :: "int option"
  so_on_hold :: bool

definition submit_topup_proof ::
    "instant \<Rightarrow> (string \<Rightarrow> string) \<Rightarrow> (string \<Rightarrow> string result) \<Rightarrow> (string \<Rightarrow> ocr_result) \<Rightarrow> wallet_limits
      \<Rightarrow> drawn_ids \<Rightarrow> uuid \<Rightarrow> receipt \<Rightarrow> wallet_db \<Rightarrow> (submit_outcome \<times> wallet_db) result" where
  "submit_topup_proof now sha upload vision limits ids pid r db =
     (let ref = strip (re_transaction_ref r); image_hash = sha (re_image_bytes r) in
      rbind (check_receipt now image_hash r ref db) (\<lambda>i.
      rbind (upload (''wallet-topups/'' @ uuid_str (re_tenant_id r) @ ''/'' @ uuid_str (ti_id i) @ ''/''
          @ ti_special_reference i @ ''.bin'')) (\<lambda>image_key.
      let d = receipt_decision now (vision (re_image_bytes r)) i ref (re_declared_amount_cents r) db;
          p = \<lparr>tp_id = pid, tp_created_at = now, tp_tenant_id = re_tenant_id r,
               tp_topup_intent_id = ti_id i, tp_image_key = image_key, tp_image_hash = image_hash,
               tp_transaction_ref = ref, tp_declared_amount_cents = re_declared_amount_cents r,
               tp_status = (if ad_approved d then PfAutoApproved else PfAwaitingReview),
               tp_review_decision_by = None, tp_review_decision_at = None, tp_rejection_reason = None,
               tp_block_reasons = (if ad_approved d then None else Some (ad_reasons d))\<rparr>
      in if pid \<in> tp_id ` set (wd_proofs db)
         then Inl (HTTPException ''409 This screenshot or transaction reference was already submitted.'')
         else (let db1 = db\<lparr>wd_proofs := wd_proofs db @ [p]\<rparr> in
           if ad_approved d
           then rbind (credit_topup_intent now limits ids (ti_id i) (proof_key pid)
                    (method_value (ti_method i) @ ''_auto_approval'') None db1) (\<lambda>(tx, db2).
                  Inr (\<lparr>so_proof_id = pid, so_approved = True,
                        so_credited_balance_cents = map_option wt_balance_after_cents tx,
                        so_on_hold = False\<rparr>, db2))
           else rbind (queue_for_review (fst ids) (re_tenant_id r) (ti_id i) db1) (\<lambda>(on_hold, db2).
                  Inr (\<lparr>so_proof_id = pid, so_approved = False, so_credited_balance_cents = None,
                        so_on_hold = on_hold\<rparr>, db2))))))"

section \<open>Expiry\<close>

definition expire_topups :: "instant \<Rightarrow> wallet_db \<Rightarrow> wallet_db" where
  "expire_topups now db = db\<lparr>wd_intents := map (\<lambda>i.
     if ti_status i \<in> {TsPending, TsAwaitingProof}
        \<and> (case ti_expires_at i of None \<Rightarrow> False | Some e \<Rightarrow> e < now)
     then i\<lparr>ti_status := TsExpired, ti_failure_reason := Some ''expired''\<rparr> else i) (wd_intents db)\<rparr>"

section \<open>Webhooks\<close>

text \<open>The answers of a webhook.\<close>

datatype webhook_answer = WhReceived | WhProcessed

definition topup_prefix :: string where "topup_prefix = ''WTOP-''"

definition kashier_topup_callback ::
    "instant \<Rightarrow> wallet_limits \<Rightarrow> drawn_ids \<Rightarrow> string \<Rightarrow> string \<Rightarrow> string \<Rightarrow> int \<Rightarrow> wallet_db
      \<Rightarrow> (webhook_answer \<times> wallet_db) result" where
  "kashier_topup_callback now limits ids merchant_order_id transaction_id payment_status paid_cents db =
     (if take (length topup_prefix) merchant_order_id \<noteq> topup_prefix then Inr (WhReceived, db)
      else case lookup_by ti_special_reference merchant_order_id (wd_intents db) of
        None \<Rightarrow> Inr (WhReceived, db)
      | Some i \<Rightarrow>
          if payment_status \<notin> {''SUCCESS'', ''PAID'', ''CAPTURED''}
          then Inr (WhReceived, if ti_status i = TsPending
                 then put_intent (i\<lparr>ti_status := TsFailed,
                        ti_gateway_transaction_id := (if transaction_id = [] then None else Some transaction_id),
                        ti_failure_reason := Some (if payment_status = [] then ''declined'' else payment_status)\<rparr>) db
                 else db)
          else if ti_status i \<notin> {TsPending, TsExpired, TsFailed} then Inr (WhReceived, db)
          else if paid_cents \<noteq> ti_amount_cents i then Inr (WhReceived, db)
          else rbind (credit_topup_intent now limits ids (ti_id i) (''kashier:'' @ transaction_id)
                 ''kashier_platform_webhook'' None
                 (put_intent (i\<lparr>ti_gateway_transaction_id := Some transaction_id\<rparr>) db)) (\<lambda>(tx, db').
               Inr (WhProcessed, db')))"

definition paymob_topup_callback ::
    "instant \<Rightarrow> wallet_limits \<Rightarrow> drawn_ids \<Rightarrow> string \<Rightarrow> string \<Rightarrow> bool \<Rightarrow> bool \<Rightarrow> string \<Rightarrow> int \<Rightarrow> wallet_db
      \<Rightarrow> (webhook_answer \<times> wallet_db) result" where
  "paymob_topup_callback now limits ids merchant_order_id transaction_id is_refunded success message
      amount_cents db =
     (if take (length topup_prefix) merchant_order_id \<noteq> topup_prefix then Inr (WhReceived, db)
      else case lookup_by ti_special_reference merchant_order_id (wd_intents db) of
        None \<Rightarrow> Inr (WhReceived, db)
      | Some i \<Rightarrow>
          if is_refunded then Inr (WhReceived, db)
          else if \<not> success
          then Inr (WhReceived, if ti_status i = TsPending
                 then put_intent (i\<lparr>ti_status := TsFailed,
                        ti_gateway_transaction_id := Some transaction_id,
                        ti_failure_reason := Some (if message = [] then ''declined'' else message)\<rparr>) db
                 else db)
          else if ti_status i \<notin> {TsPending, TsExpired, TsFailed} then Inr (WhReceived, db)
          else if amount_cents \<noteq> ti_amount_cents i then Inr (WhReceived, db)
          else rbind (credit_topup_intent now limits ids (ti_id i) (''paymob:'' @ transaction_id)
                 ''paymob_platform_webhook'' None
                 (put_intent (i\<lparr>ti_gateway_transaction_id := Some transaction_id\<rparr>) db)) (\<lambda>(tx, db').
               Inr (WhProcessed, db')))"

section \<open>Administration\<close>

text \<open>A suspended wallet answers 409. The audit log is not a table of this model.\<close>

definition adjust_wallet ::
    "wallet_limits \<Rightarrow> drawn_ids \<Rightarrow> uuid \<Rightarrow> uuid \<Rightarrow> int \<Rightarrow> string \<Rightarrow> wallet_db
      \<Rightarrow> (wallet_transaction option \<times> wallet_db) result" where
  "adjust_wallet limits ids tid admin amount_cents note db =
     (if amount_cents = 0 then Inl (HTTPException ''422 Amount cannot be zero'')
      else (case apply_entry ids tid WkAdjustment amount_cents
               \<lparr>ea_currency = ''EGP'', ea_order_id = None, ea_topup_intent_id = None,
                ea_idempotency_key = None, ea_actor_user_id = Some admin, ea_note = Some note,
                ea_meta = [(''source'', JStr ''admin_adjust'')]\<rparr> db of
           Inl e \<Rightarrow> Inl (if e = WalletSuspendedError then HTTPException ''409 Wallet is suspended'' else e)
         | Inr (tx, db1) \<Rightarrow>
             rbind (bump_wallet limits (fst ids) tid db1) (\<lambda>(level, db2). Inr (tx, db2))))"

record wallet_config_patch =
  wp_status :: "wallet_status option"
  wp_clear_commission_override :: bool
  wp_commission_bps_override :: "int option"
  wp_negative_allowance_cents :: "int option"

definition patch_wallet :: "wallet_config_patch \<Rightarrow> merchant_wallet \<Rightarrow> merchant_wallet" where
  "patch_wallet q w =
     (let w1 = (case wp_status q of None \<Rightarrow> w | Some s \<Rightarrow> w\<lparr>mw_status := s\<rparr>);
          w2 = (if wp_clear_commission_override q then w1\<lparr>mw_commission_bps_override := None\<rparr>
                else case wp_commission_bps_override q of
                    None \<Rightarrow> w1 | Some b \<Rightarrow> w1\<lparr>mw_commission_bps_override := Some b\<rparr>)
      in case wp_negative_allowance_cents q of
           None \<Rightarrow> w2 | Some n \<Rightarrow> w2\<lparr>mw_negative_allowance_cents := Some n\<rparr>)"

definition update_wallet_config ::
    "uuid \<Rightarrow> uuid \<Rightarrow> wallet_config_patch \<Rightarrow> wallet_db \<Rightarrow> (merchant_wallet \<times> wallet_db) result" where
  "update_wallet_config new_id tid q db =
     rbind (get_or_create_wallet new_id tid db) (\<lambda>(w, db1).
       let w' = patch_wallet q w in Inr (w', put_wallet w' db1))"

end
