(* ===== verification/Wallet_Commission.thy ===== *)
theory Wallet_Commission
  imports Wallet_Topup Order
begin

text \<open>
  The commission on paid orders: the plan table of \<open>src/core/entities/plan.py\<close>, the rate of
  \<open>wallet_settings.py\<close> and \<open>wallet_service.py\<close>, the event handler
  \<open>src/infrastructure/events/handlers/wallet_commission_handler.py\<close>, the nightly sweep
  \<open>src/infrastructure/messaging/tasks/wallet_reconciliation_task.py\<close> and the checkout gate. Stores,
  orders and currency rates are tables these calls only read.
\<close>

section \<open>Plans\<close>

record plan_features =
  pf_max_products :: int
  pf_max_orders_per_month :: int
  pf_max_stores :: int
  pf_max_staff_members :: int
  pf_max_customers :: int
  pf_webhooks_enabled :: bool
  pf_custom_domain_enabled :: bool
  pf_api_access_enabled :: bool
  pf_analytics_enabled :: bool
  pf_discount_codes_enabled :: bool
  pf_monthly_price_piasters :: int
  pf_annual_price_piasters :: int
  pf_display_name :: string
  pf_max_partner_apps :: int
  pf_commission_bps :: int

definition plan_row ::
    "string \<Rightarrow> int \<times> int \<times> int \<times> int \<times> int \<Rightarrow> bool \<times> bool \<times> bool \<times> bool \<times> bool \<Rightarrow> int \<times> int \<Rightarrow> int
      \<Rightarrow> plan_features" where
  "plan_row name limits flags price bps =
     (let (p, m, s, f, c) = limits; (w, d, a, n, k) = flags in
      \<lparr>pf_max_products = p, pf_max_orders_per_month = m, pf_max_stores = s,
       pf_max_staff_members = f, pf_max_customers = c, pf_webhooks_enabled = w,
       pf_custom_domain_enabled = d, pf_api_access_enabled = a, pf_analytics_enabled = n,
       pf_discount_codes_enabled = k, pf_monthly_price_piasters = fst price,
       pf_annual_price_piasters = snd price, pf_display_name = name, pf_max_partner_apps = -1,
       pf_commission_bps = bps\<rparr>)"

definition plan_limits :: "(string \<times> plan_features) list" where
  "plan_limits = [
     (''demo'', plan_row ''Demo'' (10, 50, 1, 1, 100) (False, False, False, True, False) (0, 0) 0),
     (''trial'', plan_row ''Trial'' (-1, 500, 1, 3, 5000) (True, True, False, True, True) (0, 0) 0),
     (''starter'', plan_row ''Starter'' (-1, -1, 1, 3, 5000) (True, True, False, True, True) (25000, 250000) 0),
     (''pro'', plan_row ''Pro'' (-1, -1, 3, 10, -1) (True, True, True, True, True) (49900, 499000) 0),
     (''developer'', plan_row ''Development store'' (-1, -1, 0, 3, -1) (True, False, True, True, True) (0, 0) 0),
     (''enterprise'', plan_row ''Enterprise'' (-1, -1, -1, -1, -1) (True, True, True, True, True) (-1, -1) 0),
     (''payg'', plan_row ''Pay as you Grow'' (100, -1, 1, 3, 5000) (True, True, False, True, True) (0, 0) 300),
     (''free'', plan_row ''Free (legacy)'' (50, 100, 1, 1, 500) (False, False, False, False, False) (0, 0) 0)]"

definition get_plan_features :: "string \<Rightarrow> plan_features" where
  "get_plan_features plan = (case map_of plan_limits (lower plan) of
      Some f \<Rightarrow> f | None \<Rightarrow> the (map_of plan_limits ''trial''))"

section \<open>The rate\<close>

definition resolve_commission_bps :: "int \<Rightarrow> int option \<Rightarrow> wallet_admin_settings \<Rightarrow> int" where
  "resolve_commission_bps tenant_plan_bps wallet_override_bps admin =
     (if tenant_plan_bps \<le> 0 then 0
      else case wallet_override_bps of
          Some b \<Rightarrow> b
        | None \<Rightarrow> (case wa_commission_bps_default admin of Some b \<Rightarrow> b | None \<Rightarrow> tenant_plan_bps))"

definition effective_commission_bps_admin ::
    "wallet_admin_settings \<Rightarrow> tenant \<Rightarrow> merchant_wallet option \<Rightarrow> int" where
  "effective_commission_bps_admin admin t w =
     (if (case w of None \<Rightarrow> False | Some x \<Rightarrow> mw_status x = WsExempt) then 0
      else resolve_commission_bps (pf_commission_bps (get_plan_features (tn_plan t)))
             (case w of None \<Rightarrow> None | Some x \<Rightarrow> mw_commission_bps_override x) admin)"

text \<open>The thresholds after \<open>load_admin_defaults\<close>.\<close>

definition admin_limits :: "wallet_admin_settings \<Rightarrow> wallet_limits" where
  "admin_limits a = \<lparr>wl_default_allowance = wa_negative_allowance_cents a,
     wl_low_threshold = wa_low_balance_threshold_cents a\<rparr>"

section \<open>Orders as the handlers read them\<close>

record sold_order =
  so_id :: uuid
  so_store_id :: uuid
  so_order_number :: string
  so_total :: int
  so_collected_total :: "int option"
  so_currency :: string
  so_status :: order_status
  so_payment_status :: payment_status
  so_payment_method :: "string option"
  so_paid_at :: "instant option"
  so_created_at :: instant
  so_auto_rto_at :: "instant option"

record currency_rate =
  cr_base :: string
  cr_target :: string
  cr_rate :: rat

record sales =
  sl_stores :: "(uuid \<times> uuid) list"
  sl_orders :: "sold_order list"
  sl_rates :: "currency_rate list"

definition commission_bps_divisor :: int where "commission_bps_divisor = 10000"

definition to_egp_cents :: "sales \<Rightarrow> int \<Rightarrow> string \<Rightarrow> int option \<times> (string \<times> json) list" where
  "to_egp_cents sl amount_cents cur =
     (if cur = ''EGP'' then (Some amount_cents, [])
      else case List.find (\<lambda>r. cr_base r = cur \<and> cr_target r = ''EGP'') (sl_rates sl) of
          None \<Rightarrow> (None, [])
        | Some r \<Rightarrow> (Some (trunc_rat (of_int amount_cents * cr_rate r)),
            [(''original_amount_cents'', JInt amount_cents), (''original_currency'', JStr cur),
             (''fx_rate'', JDec (cr_rate r))]))"

section \<open>The handler\<close>

definition charge_commission ::
    "wallet_admin_settings \<Rightarrow> drawn_ids \<Rightarrow> sales \<Rightarrow> uuid \<Rightarrow> uuid \<Rightarrow> string \<Rightarrow> wallet_db
      \<Rightarrow> ((nat option \<times> int option) \<times> wallet_db) result" where
  "charge_commission admin ids sl store_id order_id order_number db =
     (case map_of (sl_stores sl) store_id of
        None \<Rightarrow> Inr ((None, None), db)
      | Some tid \<Rightarrow>
       (case lookup_by tn_id tid (wd_tenants db) of
          None \<Rightarrow> Inr ((None, None), db)
        | Some t \<Rightarrow>
         (let bps = effective_commission_bps_admin admin t (wallet_of tid db) in
          if bps \<le> 0 then Inr ((None, None), db)
          else case lookup_by so_id order_id (sl_orders sl) of
              None \<Rightarrow> Inr ((None, None), db)
            | Some row \<Rightarrow>
             (let total_cents = (case so_collected_total row of Some c \<Rightarrow> c | None \<Rightarrow> so_total row) in
              case to_egp_cents sl total_cents (so_currency row) of
                (None, fx_meta) \<Rightarrow> Inr ((None, None), db)
              | (Some egp_cents, fx_meta) \<Rightarrow>
                 (let commission_cents = egp_cents * bps div commission_bps_divisor in
                  if commission_cents \<le> 0 then Inr ((None, None), db)
                  else rbind (apply_entry ids tid WkCommission (- commission_cents)
                    \<lparr>ea_currency = ''EGP'', ea_order_id = Some order_id, ea_topup_intent_id = None,
                     ea_idempotency_key = None, ea_actor_user_id = None,
                     ea_note = Some (''Commission for order '' @ order_number),
                     ea_meta = (''bps'', JInt bps) # fx_meta\<rparr> db) (\<lambda>(tx, db1).
                    case tx of
                      None \<Rightarrow> Inr ((None, None), db1)
                    | Some x \<Rightarrow>
                        rbind (bump_wallet (admin_limits admin) (fst ids) tid db1) (\<lambda>(level, db2).
                          Inr ((level, Some (wt_balance_after_cents x)), db2))))))))"

text \<open>The handler never raises: what fails is rolled back.\<close>

definition handle_commission_charge_on_order_paid ::
    "wallet_admin_settings \<Rightarrow> drawn_ids \<Rightarrow> sales \<Rightarrow> uuid \<Rightarrow> uuid \<Rightarrow> string \<Rightarrow> wallet_db
      \<Rightarrow> (nat option \<times> int option) \<times> wallet_db" where
  "handle_commission_charge_on_order_paid admin ids sl store_id order_id order_number db =
     (case charge_commission admin ids sl store_id order_id order_number db of
        Inl e \<Rightarrow> ((None, None), db) | Inr r \<Rightarrow> r)"

section \<open>The nightly sweep\<close>

definition days :: "int \<Rightarrow> int" where "days n = n * 86400 * 1000000"

definition lookback_days :: int where "lookback_days = 7"
definition presumed_sold_days :: int where "presumed_sold_days = 14"

definition commission_exists :: "wallet_db \<Rightarrow> uuid \<Rightarrow> bool" where
  "commission_exists db oid =
     list_ex (\<lambda>x. wt_order_id x = Some oid \<and> wt_kind x = WkCommission) (wd_transactions db)"

definition orders_of :: "sales \<Rightarrow> uuid \<Rightarrow> sold_order list" where
  "orders_of sl tid = filter (\<lambda>r. map_of (sl_stores sl) (so_store_id r) = Some tid) (sl_orders sl)"

definition missed_orders :: "instant \<Rightarrow> sales \<Rightarrow> wallet_db \<Rightarrow> uuid \<Rightarrow> sold_order list" where
  "missed_orders now sl db tid = filter (\<lambda>r. so_payment_status r = PayPaid
       \<and> (case so_paid_at r of None \<Rightarrow> False | Some p \<Rightarrow> now - days lookback_days \<le> p)
       \<and> \<not> commission_exists db (so_id r)) (orders_of sl tid)"

definition presumed_orders :: "instant \<Rightarrow> sales \<Rightarrow> wallet_db \<Rightarrow> uuid \<Rightarrow> sold_order list" where
  "presumed_orders now sl db tid =
     (let before = now - days presumed_sold_days in
      filter (\<lambda>r. so_payment_method r = Some ''cod''
         \<and> so_status r \<in> {PENDING, CONFIRMED, PROCESSING, SHIPPED, DELIVERED, RETURNED}
         \<and> so_created_at r \<le> before \<and> before - days lookback_days \<le> so_created_at r
         \<and> \<not> commission_exists db (so_id r)
         \<and> (so_status r \<noteq> RETURNED \<or> so_auto_rto_at r \<noteq> None)) (orders_of sl tid))"

record sweep_state =
  sw_charged :: nat
  sw_skipped :: nat
  sw_db :: wallet_db

text \<open>One order of the sweep. The flag says that the tenant's remaining orders are not tried.\<close>

definition sweep_order ::
    "wallet_admin_settings \<Rightarrow> (uuid \<Rightarrow> drawn_ids) \<Rightarrow> sales \<Rightarrow> uuid \<Rightarrow> int \<Rightarrow> uuid set \<Rightarrow> sold_order
      \<Rightarrow> sweep_state \<Rightarrow> bool \<times> sweep_state" where
  "sweep_order admin draw sl tid bps presumed_ids r s =
     (case to_egp_cents sl (so_total r) (so_currency r) of
        (None, fx_meta) \<Rightarrow> (False, s\<lparr>sw_skipped := sw_skipped s + 1\<rparr>)
      | (Some egp_cents, fx_meta) \<Rightarrow>
         (let commission_cents = egp_cents * bps div commission_bps_divisor;
              is_presumed = (so_id r \<in> presumed_ids) in
          if commission_cents \<le> 0 then (False, s)
          else case apply_entry (draw (so_id r)) tid WkCommission (- commission_cents)
              \<lparr>ea_currency = ''EGP'', ea_order_id = Some (so_id r), ea_topup_intent_id = None,
               ea_idempotency_key = Some (''recon:'' @ uuid_str (so_id r)), ea_actor_user_id = None,
               ea_note = Some (if is_presumed
                 then ''Commission for order '' @ so_order_number r @ '' (no outcome after ''
                   @ int_str presumed_sold_days @ '' days)''
                 else ''Commission (reconciliation) for order '' @ so_order_number r),
               ea_meta = (''bps'', JInt bps) # (''source'', JStr (if is_presumed then ''presumed_sold'' else ''recon'')) # fx_meta\<rparr>
              (sw_db s) of
            Inr (tx, db') \<Rightarrow> (False, s\<lparr>sw_charged := sw_charged s + (if tx = None then 0 else 1), sw_db := db'\<rparr>)
          | Inl e \<Rightarrow> (e = WalletSuspendedError, s\<lparr>sw_skipped := sw_skipped s + 1\<rparr>)))"

fun sweep_orders ::
    "(sold_order \<Rightarrow> sweep_state \<Rightarrow> bool \<times> sweep_state) \<Rightarrow> sold_order list \<Rightarrow> sweep_state \<Rightarrow> sweep_state" where
  "sweep_orders step [] s = s"
| "sweep_orders step (r # rs) s =
     (let (stop, s') = step r s in if stop then s' else sweep_orders step rs s')"

definition sweep_tenant ::
    "instant \<Rightarrow> wallet_admin_settings \<Rightarrow> (uuid \<Rightarrow> drawn_ids) \<Rightarrow> sales \<Rightarrow> tenant \<Rightarrow> sweep_state \<Rightarrow> sweep_state" where
  "sweep_tenant now admin draw sl t s =
     (let tid = tn_id t; db = sw_db s;
          bps = effective_commission_bps_admin admin t (wallet_of tid db) in
      if bps \<le> 0 then s
      else (let missed = missed_orders now sl db tid;
                presumed = presumed_orders now sl db tid;
                presumed_ids = so_id ` set presumed - so_id ` set missed
            in sweep_orders (sweep_order admin draw sl tid bps presumed_ids)
                 (missed @ filter (\<lambda>r. so_id r \<in> presumed_ids) presumed) s))"

text \<open>The commission-bearing tenants: the \<open>payg\<close> plan, or a rate of their own.\<close>

definition sweep_tenants :: "wallet_db \<Rightarrow> tenant list" where
  "sweep_tenants db = filter (\<lambda>t. tn_plan t = ''payg''
     \<or> (case wallet_of (tn_id t) db of None \<Rightarrow> False
        | Some w \<Rightarrow> mw_commission_bps_override w \<noteq> None)) (wd_tenants db)"

text \<open>The second pass: the ledger is authoritative, a stored balance that differs is healed.\<close>

definition ledger_sum :: "wallet_db \<Rightarrow> uuid \<Rightarrow> int" where
  "ledger_sum db wid = sum_list (map wt_amount_cents (filter (\<lambda>x. wt_wallet_id x = wid) (wd_transactions db)))"

definition drift_rows :: "wallet_db \<Rightarrow> merchant_wallet list" where
  "drift_rows db = filter (\<lambda>w. mw_balance_cents w \<noteq> ledger_sum db (mw_id w)) (wd_wallets db)"

definition heal_drift :: "wallet_db \<Rightarrow> wallet_db" where
  "heal_drift db = fold (\<lambda>w d. d\<lparr>wd_wallets := map (\<lambda>v. if mw_id v = mw_id w
       then v\<lparr>mw_balance_cents := ledger_sum db (mw_id w)\<rparr> else v) (wd_wallets d)\<rparr>) (drift_rows db) db"

record sweep_result =
  sr_charged :: nat
  sr_skipped :: nat
  sr_drift_healed :: nat

definition wallet_reconciliation ::
    "instant \<Rightarrow> wallet_admin_settings \<Rightarrow> (uuid \<Rightarrow> drawn_ids) \<Rightarrow> sales \<Rightarrow> wallet_db
      \<Rightarrow> sweep_result \<times> wallet_db" where
  "wallet_reconciliation now admin draw sl db =
     (let s = fold (sweep_tenant now admin draw sl) (sweep_tenants db)
                \<lparr>sw_charged = 0, sw_skipped = 0, sw_db = db\<rparr>
      in (\<lparr>sr_charged = sw_charged s, sr_skipped = sw_skipped s,
           sr_drift_healed = length (drift_rows (sw_db s))\<rparr>, heal_drift (sw_db s)))"

section \<open>The checkout gate\<close>

datatype gate_state = GateOk | GateBlocked | GateNotLive

definition flag_set :: "(string \<times> json) list \<Rightarrow> string \<Rightarrow> bool" where
  "flag_set flags k = json_truthy (map_of flags k)"

text \<open>The two environment switches of the gate: \<open>ff_golive_gate\<close> and \<open>ff_wallet_checkout_gate\<close>.\<close>

definition compute_gate_state ::
    "instant \<Rightarrow> wallet_admin_settings \<Rightarrow> bool \<Rightarrow> bool \<Rightarrow> uuid \<Rightarrow> wallet_db \<Rightarrow> gate_state" where
  "compute_gate_state now admin ff_golive_gate ff_wallet_checkout_gate tid db =
     (case lookup_by tn_id tid (wd_tenants db) of
        None \<Rightarrow> GateOk
      | Some t \<Rightarrow>
         (let flags = tn_feature_flags t;
              on_live_trial = (tn_lifecycle_state t = LsTrial
                \<and> (case tn_expires_at t of None \<Rightarrow> True | Some e \<Rightarrow> now < e)) in
          if (wa_golive_gate_enabled admin \<or> ff_golive_gate) \<and> \<not> on_live_trial
             \<and> tn_plan t \<in> {''trial'', ''demo'', ''free''} \<and> \<not> flag_set flags ''golive_exempt''
          then GateNotLive
          else if \<not> wa_checkout_gate_enabled admin \<and> \<not> ff_wallet_checkout_gate
             \<and> \<not> flag_set flags ''wallet_checkout_gate''
          then GateOk
          else if effective_commission_bps_admin admin t (wallet_of tid db) = 0 then GateOk
          else case wallet_of tid db of
              None \<Rightarrow> GateOk
            | Some w \<Rightarrow>
                if mw_status w \<noteq> WsActive then GateOk
                else if mw_balance_cents w < - allowance_for (admin_limits admin) w then GateBlocked
                else GateOk))"

end
