(* ===== verification/Wallet_Books.thy ===== *)
theory Wallet_Books
  imports Wallet_Commission
begin

text \<open>
  The books of the wallets: every operation of \<open>Wallet\<close>, \<open>Wallet_Topup\<close> and \<open>Wallet_Commission\<close>
  appends to the ledger exactly what it moves, keeps the holds equal to the top-ups under review and
  credits a top-up at most once. The ledger contract is interpreted on the stream of all calls.
\<close>

section \<open>What a call appends\<close>

text \<open>
  A step that keeps the books: it appends ledger rows, moves every balance by what it appended, and
  each appended row carries the balance after it.
\<close>

definition posts :: "wallet_db \<Rightarrow> wallet_db \<Rightarrow> bool" where
  "posts db db' \<longleftrightarrow> wallets_ok db' \<and> (\<forall>k. \<exists>d. wb_entries db' k = wb_entries db k @ d
     \<and> wb_balance db' k = wb_balance db k + sum_list d
     \<and> wb_snapshots db' k = wb_snapshots db k @ running (wb_balance db k) d)"

lemma posts_ok: "posts db db' \<Longrightarrow> wallets_ok db'"
  by (simp add: posts_def)

lemma posts_still:
  assumes "wallets_ok db'" "\<And>k. wb_balance db' k = wb_balance db k" "wd_transactions db' = wd_transactions db"
  shows "posts db db'"
  unfolding posts_def
proof (intro conjI allI assms(1))
  fix k
  show "\<exists>d. wb_entries db' k = wb_entries db k @ d \<and> wb_balance db' k = wb_balance db k + sum_list d
     \<and> wb_snapshots db' k = wb_snapshots db k @ running (wb_balance db k) d"
    by (rule exI [of _ "[]"]) (simp add: assms wb_entries_def wb_snapshots_def)
qed

lemma posts_refl: "wallets_ok db \<Longrightarrow> posts db db"
  by (rule posts_still) simp_all

lemma posts_trans [trans]:
  assumes "posts a b" "posts b c" shows "posts a c"
  unfolding posts_def
proof (intro conjI allI)
  show "wallets_ok c" using assms(2) by (rule posts_ok)
  fix k
  obtain d where d: "wb_entries b k = wb_entries a k @ d" "wb_balance b k = wb_balance a k + sum_list d"
      "wb_snapshots b k = wb_snapshots a k @ running (wb_balance a k) d"
    using assms(1) unfolding posts_def by blast
  obtain e where e: "wb_entries c k = wb_entries b k @ e" "wb_balance c k = wb_balance b k + sum_list e"
      "wb_snapshots c k = wb_snapshots b k @ running (wb_balance b k) e"
    using assms(2) unfolding posts_def by blast
  show "\<exists>d. wb_entries c k = wb_entries a k @ d \<and> wb_balance c k = wb_balance a k + sum_list d
     \<and> wb_snapshots c k = wb_snapshots a k @ running (wb_balance a k) d"
    by (rule exI [of _ "d @ e"]) (simp add: d e running_append)
qed

text \<open>Steps that leave wallets and ledger as they are.\<close>

lemma wallets_ok_cong:
  "wd_wallets db' = wd_wallets db \<Longrightarrow> wd_transactions db' = wd_transactions db
    \<Longrightarrow> wallets_ok db' = wallets_ok db"
  by (simp add: wallets_ok_def wallet_of_def)

lemma wb_cong:
  "wd_wallets db' = wd_wallets db \<Longrightarrow> wb_balance db' k = wb_balance db k \<and> wb_pending db' k = wb_pending db k"
  by (simp add: wb_balance_def wb_pending_def wallet_of_def)

lemma posts_off_books:
  "wallets_ok db \<Longrightarrow> wd_wallets db' = wd_wallets db \<Longrightarrow> wd_transactions db' = wd_transactions db \<Longrightarrow> posts db db'"
  by (rule posts_still) (simp_all add: wallets_ok_cong [of db' db] wb_cong [of db' db])

lemma put_intent_books [simp]:
  "wd_wallets (put_intent i db) = wd_wallets db" "wd_transactions (put_intent i db) = wd_transactions db"
  "wd_proofs (put_intent i db) = wd_proofs db" "wd_tenants (put_intent i db) = wd_tenants db"
  by (simp_all add: put_intent_def)

lemma put_proof_books [simp]:
  "wd_wallets (put_proof p db) = wd_wallets db" "wd_transactions (put_proof p db) = wd_transactions db"
  "wd_intents (put_proof p db) = wd_intents db" "wd_tenants (put_proof p db) = wd_tenants db"
  by (simp_all add: put_proof_def)

lemma convert_payg_books [simp]:
  "wd_wallets (convert_payg_tenant now t db) = wd_wallets db"
  "wd_transactions (convert_payg_tenant now t db) = wd_transactions db"
  "wd_intents (convert_payg_tenant now t db) = wd_intents db"
  "wd_proofs (convert_payg_tenant now t db) = wd_proofs db"
  by (simp_all add: convert_payg_tenant_def split: option.split)

lemma get_or_create_posts:
  "get_or_create_wallet n t db = Inr (w, db') \<Longrightarrow> wallets_ok db \<Longrightarrow> posts db db'"
  by (rule posts_still) (simp_all add: get_or_create_spec)

lemma apply_entry_posts:
  assumes "apply_entry ids t kind n a db = Inr (r, db')" "wallets_ok db" shows "posts db db'"
  unfolding posts_def
proof (intro conjI allI)
  show "wallets_ok db'" using apply_entry_spec [OF assms] by blast
  fix k
  show "\<exists>d. wb_entries db' k = wb_entries db k @ d \<and> wb_balance db' k = wb_balance db k + sum_list d
     \<and> wb_snapshots db' k = wb_snapshots db k @ running (wb_balance db k) d"
  proof (cases "r \<noteq> None \<and> k = t")
    case True
    then show ?thesis using apply_entry_spec [OF assms, of k] by (intro exI [of _ "[n]"]) (simp del: not_None_eq)
  next
    case False
    then show ?thesis using apply_entry_spec [OF assms, of k]
      by (intro exI [of _ "[]"]) (simp only: if_False if_not_P append_Nil2 running.simps sum_list.Nil)
  qed
qed

lemma bump_wallet_posts: "bump_wallet l n t db = Inr (lv, db') \<Longrightarrow> wallets_ok db \<Longrightarrow> posts db db'"
  by (rule posts_still) (simp_all add: bump_wallet_spec)

text \<open>Writing a wallet row back with its balance unchanged.\<close>

lemma put_wallet_posts:
  assumes "wallets_ok db" "wallet_of (mw_tenant_id w) db = Some v" "mw_id w = mw_id v"
    "mw_balance_cents w = mw_balance_cents v"
  shows "posts db (put_wallet w db)"
proof (rule posts_still)
  show "wallets_ok (put_wallet w db)" using assms(1-3) by (rule put_wallet_ok)
  show "wb_balance (put_wallet w db) k = wb_balance db k" for k
    using assms by (simp add: wb_balance_def put_wallet_lookup [OF assms(2)])
qed simp

text \<open>The hold of a wallet just read is released or added.\<close>

lemma put_wallet_pending:
  assumes "wallet_of t db = Some v" "mw_tenant_id w = t"
  shows "wb_pending (put_wallet w db) u = (if u = t then mw_pending_balance_cents w else wb_pending db u)"
  using assms put_wallet_lookup [of w db v u] by (simp add: wb_pending_def)

section \<open>Every operation keeps the books\<close>

lemma release_hold_spec:
  assumes r: "release_hold_of n i db = Inr db'" and ok: "wallets_ok db"
  shows "posts db db' \<and> same_topups db db' \<and> wd_transactions db' = wd_transactions db
    \<and> wb_pending db' u = (if u = ti_tenant_id i \<and> ti_status i = TsUnderReview
        then max 0 (wb_pending db u - ti_amount_cents i) else wb_pending db u)"
proof (cases "ti_status i = TsUnderReview")
  case True
  then obtain w db1 where g: "get_or_create_wallet n (ti_tenant_id i) db = Inr (w, db1)"
    and db': "db' = put_wallet (release_pending_hold (ti_amount_cents i) w) db1"
    using r by (auto simp: release_hold_of_def rbind_Inr_iff)
  note gs = get_or_create_spec [OF g ok]
  let ?w = "release_pending_hold (ti_amount_cents i) w"
  have w: "mw_tenant_id ?w = ti_tenant_id i" "mw_id ?w = mw_id w" "mw_balance_cents ?w = mw_balance_cents w"
    "mw_pending_balance_cents ?w = max 0 (mw_pending_balance_cents w - ti_amount_cents i)"
    using gs by (simp_all add: release_pending_hold_def)
  have look: "wallet_of (mw_tenant_id ?w) db1 = Some w" using gs w(1) by simp
  have "posts db1 db'" unfolding db' by (rule put_wallet_posts [OF _ look]) (use gs w in simp_all)
  then have "posts db db'" using get_or_create_posts [OF g ok] posts_trans by blast
  moreover have "wb_pending db' u = (if u = ti_tenant_id i then max 0 (wb_pending db u - ti_amount_cents i) else wb_pending db u)"
  proof -
    have "wb_pending db1 (ti_tenant_id i) = mw_pending_balance_cents w" using gs by (simp add: wb_pending_def)
    moreover have "wb_pending db1 v = wb_pending db v" for v using get_or_create_spec [OF g ok] by blast
    moreover have "wallet_of (ti_tenant_id i) db1 = Some w" using gs by blast
    ultimately show ?thesis unfolding db' using put_wallet_pending [of "ti_tenant_id i" db1 w ?w u] w by simp
  qed
  moreover have "wd_transactions db1 = wd_transactions db" "same_topups db db1" using gs by blast+
  ultimately show ?thesis using True by (simp add: db' same_topups_def)
next
  case False
  then show ?thesis using r ok by (simp add: release_hold_of_def posts_refl)
qed

text \<open>What a credit does to each table.\<close>

lemma credit_spec:
  assumes c: "credit_topup_intent now l ids iid key src actor db = Inr (r, db')" and ok: "wallets_ok db"
  obtains (already) "r = None" "db' = db"
  | (credited) i i' where "lookup_by ti_id iid (wd_intents db) = Some i" "ti_status i \<noteq> TsSucceeded"
      "posts db db'" "wd_intents db' = replace_by ti_id i' (wd_intents db)" "wd_proofs db' = wd_proofs db"
      "ti_id i' = ti_id i" "ti_tenant_id i' = ti_tenant_id i" "ti_amount_cents i' = ti_amount_cents i"
      "ti_special_reference i' = ti_special_reference i" "ti_status i' = TsSucceeded"
      "\<And>u. wb_pending db' u = (if u = ti_tenant_id i \<and> ti_status i = TsUnderReview
        then max 0 (wb_pending db u - ti_amount_cents i) else wb_pending db u)"
      "wd_transactions db' = wd_transactions db @ (case r of None \<Rightarrow> [] | Some x \<Rightarrow> [x])"
      "\<And>x. r = Some x \<Longrightarrow> wt_kind x = WkTopup \<and> wt_tenant_id x = ti_tenant_id i
        \<and> wt_amount_cents x = ti_amount_cents i \<and> wt_topup_intent_id x = Some (ti_id i)
        \<and> ti_credited_transaction_id i' = Some (wt_id x) \<and> wt_idempotency_key x = Some key"
      "ti_credited_transaction_id i = None"
proof -
  obtain i where i: "lookup_by ti_id iid (wd_intents db) = Some i"
    using c by (auto simp: credit_topup_intent_def find_intent_def rbind_Inr_iff split: option.splits)
  then have find: "find_intent iid db = Inr i" by (simp add: find_intent_def)
  show thesis
  proof (cases "ti_status i = TsSucceeded \<or> ti_credited_transaction_id i \<noteq> None")
    case True
    then show thesis using c find by (intro already) (simp_all add: credit_topup_intent_def)
  next
    case False
    let ?t = "ti_tenant_id i"
    let ?a = "\<lparr>ea_currency = ti_currency i, ea_order_id = None, ea_topup_intent_id = Some (ti_id i),
              ea_idempotency_key = Some key, ea_actor_user_id = actor,
              ea_note = Some (''Top-up via '' @ method_value (ti_method i) @ '' ('' @ ti_special_reference i @ '')''),
              ea_meta = [(''source'', JStr src)]\<rparr>"
    obtain db1 tx db2 where h: "release_hold_of (fst ids) i db = Inr db1"
      and e: "apply_entry ids ?t WkTopup (ti_amount_cents i) ?a db1 = Inr (tx, db2)"
      using c find False by (auto simp: credit_topup_intent_def rbind_Inr_iff simp del: not_None_eq)
    note hs = release_hold_spec [OF h ok]
    have ok1: "wallets_ok db1" using hs posts_ok by blast
    note es = apply_entry_spec [OF e ok1]
    have p2: "posts db db2" using hs apply_entry_posts [OF e ok1] posts_trans by blast
    have ok2: "wallets_ok db2" using p2 by (rule posts_ok)
    have tx2: "wd_transactions db2 = wd_transactions db @ (case tx of None \<Rightarrow> [] | Some x \<Rightarrow> [x])"
      using es hs by simp
    have tops: "wd_intents db2 = wd_intents db" "wd_proofs db2 = wd_proofs db"
      using es hs by (simp_all add: same_topups_def)
    have pend: "wb_pending db2 u = (if u = ?t \<and> ti_status i = TsUnderReview
        then max 0 (wb_pending db u - ti_amount_cents i) else wb_pending db u)" for u
      using apply_entry_spec [OF e ok1, of u] release_hold_spec [OF h ok, of u] by simp
    have row: "wt_kind x = WkTopup \<and> wt_tenant_id x = ?t \<and> wt_amount_cents x = ti_amount_cents i
        \<and> wt_topup_intent_id x = Some (ti_id i) \<and> wt_idempotency_key x = Some key" if x: "tx = Some x" for x
      using es x by simp
    show thesis
    proof (cases tx)
      case None
      let ?i = "i\<lparr>ti_status := TsSucceeded\<rparr>"
      have r: "r = None" "db' = put_intent ?i db2"
        using c find False h e None by (simp_all add: credit_topup_intent_def)
      have "posts db2 db'" unfolding r by (rule posts_off_books [OF ok2]) simp_all
      then have p: "posts db db'" using p2 posts_trans by blast
      show thesis
        by (rule credited [OF i _ p, of ?i])
          (use False tops tx2 pend None r wb_cong [of "put_intent ?i db2" db2] in \<open>simp_all add: put_intent_def\<close>)
    next
      case (Some x)
      let ?i = "i\<lparr>ti_status := TsSucceeded, ti_credited_transaction_id := Some (wt_id x)\<rparr>"
      let ?d = "convert_payg_tenant now ?t (put_intent ?i db2)"
      obtain lv where b: "bump_wallet l (fst ids) ?t ?d = Inr (lv, db')" and r: "r = Some x"
        using c find False h e Some by (auto simp: credit_topup_intent_def rbind_Inr_iff Let_def simp del: not_None_eq)
      have "posts db2 ?d" by (rule posts_off_books [OF ok2]) simp_all
      then have pd: "posts db ?d" using p2 posts_trans by blast
      then have okd: "wallets_ok ?d" by (rule posts_ok)
      note bs = bump_wallet_spec [OF b okd]
      have p: "posts db db'" using pd bump_wallet_posts [OF b okd] posts_trans by blast
      have pend': "wb_pending db' u = wb_pending db2 u" for u
        using bump_wallet_spec [OF b okd, of u] wb_cong [of ?d db2 u] by simp
      have tabs: "wd_intents db' = replace_by ti_id ?i (wd_intents db)" "wd_proofs db' = wd_proofs db"
        "wd_transactions db' = wd_transactions db @ [x]"
        using bs tops tx2 Some by (simp_all add: same_topups_def) (simp add: put_intent_def)
      show thesis
        by (rule credited [OF i _ p tabs(1,2)])
          (use False pend pend' Some r row tabs(3) in simp_all)
    qed
  qed
qed

section \<open>Holds and credits\<close>

definition hold_of :: "uuid \<Rightarrow> topup_intent \<Rightarrow> int" where
  "hold_of t i = (if ti_tenant_id i = t \<and> ti_status i = TsUnderReview then ti_amount_cents i else 0)"

definition held :: "wallet_db \<Rightarrow> uuid \<Rightarrow> int" where
  "held db t = sum_list (map (hold_of t) (wd_intents db))"

text \<open>The ledger row a credited intent stands for.\<close>

definition credits :: "topup_intent \<Rightarrow> wallet_transaction \<Rightarrow> bool" where
  "credits i x \<longleftrightarrow> wt_topup_intent_id x = Some (ti_id i) \<and> ti_status i = TsSucceeded
     \<and> ti_credited_transaction_id i = Some (wt_id x) \<and> wt_amount_cents x = ti_amount_cents i
     \<and> wt_tenant_id x = ti_tenant_id i"

definition topups_ok :: "wallet_db \<Rightarrow> bool" where
  "topups_ok db \<longleftrightarrow> distinct (map ti_id (wd_intents db)) \<and> (\<forall>i\<in>set (wd_intents db). 0 \<le> ti_amount_cents i)
     \<and> (\<forall>t. wb_pending db t = held db t)
     \<and> (\<forall>x\<in>set (wd_transactions db). wt_kind x = WkTopup \<longrightarrow> (\<exists>i\<in>set (wd_intents db). credits i x))"

lemma topups_still:
  assumes "topups_ok db" "wd_intents db' = wd_intents db" "\<And>t. wb_pending db' t = wb_pending db t"
    and "\<And>x. x \<in> set (wd_transactions db') \<Longrightarrow> wt_kind x = WkTopup \<Longrightarrow> x \<in> set (wd_transactions db)"
  shows "topups_ok db'"
  using assms by (simp add: topups_ok_def held_def)

text \<open>One intent changes, with its hold and perhaps its credit.\<close>

lemma topups_step:
  assumes ok: "topups_ok db" and i: "lookup_by ti_id (ti_id i') (wd_intents db) = Some i"
    and i': "ti_tenant_id i' = ti_tenant_id i" "ti_amount_cents i' = ti_amount_cents i"
    and ints: "wd_intents db' = replace_by ti_id i' (wd_intents db)"
    and pend: "\<And>t. wb_pending db' t = wb_pending db t - hold_of t i + hold_of t i'"
    and rows: "\<And>x. x \<in> set (wd_transactions db') \<Longrightarrow> wt_kind x = WkTopup \<Longrightarrow> x \<in> set (wd_transactions db) \<or> credits i' x"
    and stay: "ti_status i = TsSucceeded \<Longrightarrow>
      ti_status i' = TsSucceeded \<and> ti_credited_transaction_id i' = ti_credited_transaction_id i"
  shows "topups_ok db'"
proof -
  have d: "distinct (map ti_id (wd_intents db))" using ok by (simp add: topups_ok_def)
  have inn: "i \<in> set (wd_intents db)" and ids: "ti_id i = ti_id i'" using lookup_by_in [OF i] by simp_all
  have i'in: "i' \<in> set (wd_intents db')" using inn ids by (auto simp: ints replace_by_def intro: image_eqI [of _ _ i])
  have keep: "\<exists>j\<in>set (wd_intents db'). credits j x" if x: "j \<in> set (wd_intents db)" "credits j x" for j x
  proof (cases "ti_id j = ti_id i'")
    case True
    then have "j = i" using distinct_key_eq [OF d x(1) inn] ids by simp
    then have "credits i' x" using x(2) stay i' ids by (simp add: credits_def)
    then show ?thesis using i'in by blast
  next
    case False
    then have "j \<in> set (wd_intents db')" using x(1) by (auto simp: ints replace_by_def intro: image_eqI [of _ _ j])
    then show ?thesis using x(2) by blast
  qed
  have amt: "0 \<le> ti_amount_cents j" if j: "j \<in> set (wd_intents db')" for j
    using in_replace [OF j [unfolded ints]] ok inn i'(2) by (auto simp: topups_ok_def)
  have hold: "wb_pending db' t = held db' t" for t
    using sum_replace [OF d i, of "hold_of t"] pend [of t] ok by (simp add: topups_ok_def held_def ints)
  have cred: "\<exists>j\<in>set (wd_intents db'). credits j x" if x: "x \<in> set (wd_transactions db')" "wt_kind x = WkTopup" for x
  proof (cases "x \<in> set (wd_transactions db)")
    case True
    then obtain j where "j \<in> set (wd_intents db)" "credits j x" using ok x(2) by (auto simp: topups_ok_def)
    then show ?thesis by (rule keep)
  next
    case False
    then show ?thesis using rows [OF x] i'in by blast
  qed
  have d': "distinct (map ti_id (wd_intents db'))" using d by (simp add: ints)
  show ?thesis unfolding topups_ok_def
    using amt hold cred d' by blast
qed

lemma hold_le_pending:
  assumes "topups_ok db" "i \<in> set (wd_intents db)" shows "hold_of t i \<le> wb_pending db t"
proof -
  have "hold_of t i \<le> sum_list (map (hold_of t) (wd_intents db))"
    by (rule row_le_sum [OF assms(2)]) (use assms(1) in \<open>simp add: topups_ok_def hold_of_def\<close>)
  then show ?thesis using assms(1) by (simp add: topups_ok_def held_def)
qed

text \<open>Releasing an intent's hold takes away exactly that hold.\<close>

lemma release_exact:
  assumes "topups_ok db" "i \<in> set (wd_intents db)"
  shows "(if u = ti_tenant_id i \<and> ti_status i = TsUnderReview
        then max 0 (wb_pending db u - ti_amount_cents i) else wb_pending db u) = wb_pending db u - hold_of u i"
  using hold_le_pending [OF assms, of u] by (auto simp: hold_of_def)

definition books_ok :: "wallet_db \<Rightarrow> bool" where
  "books_ok db \<longleftrightarrow> wallets_ok db \<and> topups_ok db"

definition keeps :: "wallet_db \<Rightarrow> wallet_db \<Rightarrow> bool" where
  "keeps db db' \<longleftrightarrow> posts db db' \<and> topups_ok db'"

lemma keepsI: "posts db db' \<Longrightarrow> topups_ok db' \<Longrightarrow> keeps db db'"
  by (simp add: keeps_def)

lemma keeps_ok: "keeps db db' \<Longrightarrow> books_ok db'"
  by (auto simp: keeps_def books_ok_def dest: posts_ok)

lemma keeps_refl: "books_ok db \<Longrightarrow> keeps db db"
  by (simp add: keeps_def books_ok_def posts_refl)

lemma keeps_trans [trans]: "keeps a b \<Longrightarrow> keeps b c \<Longrightarrow> keeps a c"
  using posts_trans by (auto simp: keeps_def)

lemma keeps_get_or_create:
  assumes "get_or_create_wallet n t db = Inr (w, db')" "books_ok db" shows "keeps db db'"
proof (rule keepsI)
  have ok: "wallets_ok db" "topups_ok db" using assms(2) by (simp_all add: books_ok_def)
  note gs = get_or_create_spec [OF assms(1) ok(1)]
  show "posts db db'" by (rule get_or_create_posts [OF assms(1) ok(1)])
  show "topups_ok db'" by (rule topups_still [OF ok(2)]) (use gs in \<open>simp_all add: same_topups_def\<close>)
qed

lemma keeps_apply_entry:
  assumes "apply_entry ids t kind n a db = Inr (r, db')" "books_ok db" "kind \<noteq> WkTopup" shows "keeps db db'"
proof (rule keepsI)
  have ok: "wallets_ok db" "topups_ok db" using assms(2) by (simp_all add: books_ok_def)
  note es = apply_entry_spec [OF assms(1) ok(1)]
  show "posts db db'" by (rule apply_entry_posts [OF assms(1) ok(1)])
  have rows: "x \<in> set (wd_transactions db)" if "x \<in> set (wd_transactions db')" "wt_kind x = WkTopup" for x
    using that es assms(3) by (cases r) auto
  show "topups_ok db'"
    by (rule topups_still [OF ok(2) _ _ rows]) (use es in \<open>simp_all add: same_topups_def\<close>)
qed

lemma keeps_bump:
  assumes "bump_wallet l n t db = Inr (lv, db')" "books_ok db" shows "keeps db db'"
proof (rule keepsI)
  have ok: "wallets_ok db" "topups_ok db" using assms(2) by (simp_all add: books_ok_def)
  show "posts db db'" by (rule bump_wallet_posts [OF assms(1) ok(1)])
  show "topups_ok db'"
    by (rule topups_still [OF ok(2)]) (use bump_wallet_spec [OF assms(1) ok(1)] in \<open>simp_all add: same_topups_def\<close>)
qed

lemma keeps_off_books:
  assumes "books_ok db" "wd_wallets db' = wd_wallets db" "wd_transactions db' = wd_transactions db"
    "wd_intents db' = wd_intents db"
  shows "keeps db db'"
proof (rule keepsI)
  have ok: "wallets_ok db" "topups_ok db" using assms(1) by (simp_all add: books_ok_def)
  show "posts db db'" using ok(1) assms(2,3) by (rule posts_off_books)
  show "topups_ok db'" by (rule topups_still [OF ok(2)]) (simp_all add: assms wb_cong [of db' db])
qed

text \<open>An intent changes and keeps its hold and its credit.\<close>

lemma keeps_put_intent:
  assumes "books_ok db" "lookup_by ti_id (ti_id i') (wd_intents db) = Some i"
    "ti_tenant_id i' = ti_tenant_id i" "ti_amount_cents i' = ti_amount_cents i"
    "hold_of (ti_tenant_id i) i' = hold_of (ti_tenant_id i) i"
    "ti_status i = TsSucceeded \<Longrightarrow>
      ti_status i' = TsSucceeded \<and> ti_credited_transaction_id i' = ti_credited_transaction_id i"
  shows "keeps db (put_intent i' db)"
proof (rule keepsI)
  have ok: "wallets_ok db" "topups_ok db" using assms(1) by (simp_all add: books_ok_def)
  have h: "hold_of t i' = hold_of t i" for t using assms(3,5) by (cases "t = ti_tenant_id i") (auto simp: hold_of_def)
  show "posts db (put_intent i' db)" by (rule posts_off_books [OF ok(1)]) simp_all
  show "topups_ok (put_intent i' db)"
    by (rule topups_step [OF ok(2) assms(2-4)])
      (use assms(6) wb_cong [of "put_intent i' db" db] h in \<open>simp_all add: put_intent_def\<close>)
qed

lemma intent_lookup:
  "books_ok db \<Longrightarrow> i \<in> set (wd_intents db) \<Longrightarrow> lookup_by ti_id (ti_id i) (wd_intents db) = Some i"
  by (simp add: books_ok_def topups_ok_def lookup_by_Some)

lemma keeps_credit:
  assumes c: "credit_topup_intent now l ids iid key src actor db = Inr (r, db')" and b: "books_ok db"
  shows "keeps db db'"
proof -
  have ok: "wallets_ok db" "topups_ok db" using b by (simp_all add: books_ok_def)
  from c ok(1) show ?thesis
  proof (cases rule: credit_spec)
    case already
    then show ?thesis using b keeps_refl by simp
  next
    case (credited i i')
    have i: "lookup_by ti_id (ti_id i') (wd_intents db) = Some i" "i \<in> set (wd_intents db)"
      using credited(1,6) lookup_by_in [OF credited(1)] by simp_all
    have pend: "wb_pending db' t = wb_pending db t - hold_of t i + hold_of t i'" for t
      using credited(10,11) release_exact [OF ok(2) i(2), of t] by (simp add: hold_of_def)
    have rows: "x \<in> set (wd_transactions db) \<or> credits i' x"
      if "x \<in> set (wd_transactions db')" "wt_kind x = WkTopup" for x
      using that credited(12) credited(13) credited(6,7,8,10) by (cases r) (auto simp: credits_def)
    have "topups_ok db'"
      by (rule topups_step [OF ok(2) i(1) credited(7,8,4) pend rows]) (use credited(2) in simp_all)
    then show ?thesis using credited(3) keepsI by blast
  qed
qed

section \<open>The calls\<close>

lemma keeps_add_intent:
  assumes a: "add_intent i db = Inr (r, db')" and b: "books_ok db"
    and i: "0 \<le> ti_amount_cents i" "ti_status i \<in> {TsPending, TsAwaitingProof}"
  shows "keeps db db'"
proof (rule keepsI)
  have ok: "wallets_ok db" "topups_ok db" using b by (simp_all add: books_ok_def)
  have new: "ti_id i \<notin> ti_id ` set (wd_intents db)" and db': "db' = db\<lparr>wd_intents := wd_intents db @ [i]\<rparr>"
    using a by (auto simp: add_intent_def list_ex_iff split: if_splits)
  show "posts db db'" by (rule posts_off_books [OF ok(1)]) (simp_all add: db')
  have h: "hold_of t i = 0" for t using i(2) by (auto simp: hold_of_def)
  have "wb_pending db' t = wb_pending db t" for t using wb_cong [of db' db] by (simp add: db')
  then show "topups_ok db'" using ok(2) new i(1) h by (simp add: topups_ok_def held_def db')
qed

lemma keeps_create:
  assumes c: "create_wallet_topup now adm ff pc draws n t u m amt db = Inr (r, db')" and b: "books_ok db"
  shows "keeps db db'"
proof -
  obtain i where "add_intent i db = Inr (r, db')" "0 \<le> ti_amount_cents i" "ti_status i \<in> {TsPending, TsAwaitingProof}"
    using c by (cases draws) (auto simp: create_wallet_topup_def create_topup_def create_card_def create_manual_def
        Let_def split: if_splits)
  then show ?thesis using keeps_add_intent b by blast
qed

lemma keeps_approve:
  assumes a: "approve_proof now l ids pid adm db = Inr (r, db')" and b: "books_ok db"
  shows "keeps db db'"
proof -
  obtain p i where lp: "load_proof pid db = Inr (p, i)" using a by (auto simp: approve_proof_def rbind_Inr_iff)
  let ?d = "put_proof (p\<lparr>tp_status := PfApproved, tp_review_decision_by := Some adm, tp_review_decision_at := Some now\<rparr>) db"
  have k: "keeps db ?d" by (rule keeps_off_books [OF b]) simp_all
  have "credit_topup_intent now l ids (ti_id i) (proof_key pid) ''admin_review'' (Some adm) ?d = Inr (r, db')"
    using a lp by (simp add: approve_proof_def)
  from keeps_credit [OF this keeps_ok [OF k]] show ?thesis using k keeps_trans by blast
qed

lemma load_proof_intent:
  "load_proof pid db = Inr (p, i) \<Longrightarrow> i \<in> set (wd_intents db)"
  by (auto simp: load_proof_def find_intent_def rbind_Inr_iff dest: lookup_by_in split: option.splits if_splits)

lemma keeps_reject:
  assumes r: "reject_proof now n pid adm reason db = Inr db'" and b: "books_ok db"
  shows "keeps db db'"
proof -
  obtain p i where lp: "load_proof pid db = Inr (p, i)" using r by (auto simp: reject_proof_def rbind_Inr_iff)
  define why where "why = (if strip reason = [] then ''Rejected by admin'' else strip reason)"
  define d1 where "d1 = put_proof (p\<lparr>tp_status := PfRejected, tp_review_decision_by := Some adm,
                  tp_review_decision_at := Some now, tp_rejection_reason := Some why\<rparr>) db"
  have r': "rbind (get_or_create_wallet n (ti_tenant_id i) d1) (\<lambda>(w, db2).
      Inr (if ti_status i \<noteq> TsSucceeded
           then put_intent (i\<lparr>ti_status := TsAwaitingProof, ti_failure_reason := Some why\<rparr>)
             (if ti_status i = TsUnderReview then put_wallet (release_pending_hold (ti_amount_cents i) w) db2 else db2)
           else if ti_status i = TsUnderReview then put_wallet (release_pending_hold (ti_amount_cents i) w) db2 else db2))
    = Inr db'"
    using r lp unfolding d1_def why_def by (simp only: reject_proof_def Let_def rbind_simps prod.case)
  then obtain w d2 where g: "get_or_create_wallet n (ti_tenant_id i) d1 = Inr (w, d2)"
    by (auto simp: rbind_Inr_iff)
  let ?d3 = "if ti_status i = TsUnderReview then put_wallet (release_pending_hold (ti_amount_cents i) w) d2 else d2"
  let ?i = "i\<lparr>ti_status := TsAwaitingProof, ti_failure_reason := Some why\<rparr>"
  have db': "db' = (if ti_status i \<noteq> TsSucceeded then put_intent ?i ?d3 else ?d3)"
    using r' g by simp
  have k1: "keeps db d1" unfolding d1_def by (rule keeps_off_books [OF b]) simp_all
  have k2: "keeps d1 d2" by (rule keeps_get_or_create [OF g keeps_ok [OF k1]])
  have b2: "books_ok d2" by (rule keeps_ok [OF k2])
  have ok2: "wallets_ok d2" "topups_ok d2" using b2 by (simp_all add: books_ok_def)
  have ok1: "wallets_ok d1" using keeps_ok [OF k1] by (simp add: books_ok_def)
  have hs: "posts d1 ?d3 \<and> same_topups d1 ?d3 \<and> wd_transactions ?d3 = wd_transactions d1
    \<and> wb_pending ?d3 u = (if u = ti_tenant_id i \<and> ti_status i = TsUnderReview
        then max 0 (wb_pending d1 u - ti_amount_cents i) else wb_pending d1 u)" for u
  proof (cases "ti_status i = TsUnderReview")
    case True
    then have "release_hold_of n i d1 = Inr ?d3" using g by (simp add: release_hold_of_def)
    from release_hold_spec [OF this ok1, of u] show ?thesis .
  next
    case False
    then show ?thesis using get_or_create_spec [OF g ok1, of u] get_or_create_posts [OF g ok1] by simp
  qed
  have i2: "i \<in> set (wd_intents d1)" using load_proof_intent [OF lp] by (simp add: d1_def)
  have t1: "topups_ok d1" using keeps_ok [OF k1] by (simp add: books_ok_def)
  have p3: "posts db ?d3" using hs k1 posts_trans by (auto simp: keeps_def)
  show ?thesis
  proof (cases "ti_status i = TsSucceeded")
    case True
    then have "db' = d2" using db' by simp
    then show ?thesis using k1 k2 keeps_trans by blast
  next
    case False
    then have e: "db' = put_intent ?i ?d3" using db' by simp
    have "posts ?d3 db'" unfolding e by (rule posts_off_books [OF posts_ok [OF p3]]) simp_all
    then have p: "posts db db'" using p3 posts_trans by blast
    have ints: "wd_intents ?d3 = wd_intents d1" using hs by (simp add: same_topups_def)
    have pend: "wb_pending db' t = wb_pending d1 t - hold_of t i + hold_of t ?i" for t
      using hs [of t] release_exact [OF t1 i2, of t] wb_cong [of db' ?d3 t]
      by (simp add: e hold_of_def)
    have "topups_ok db'"
      by (rule topups_step [OF t1 _ _ _ _ pend])
        (use intent_lookup [OF keeps_ok [OF k1] i2] False hs ints in \<open>simp_all add: e put_intent_def\<close>)
    then show ?thesis using p keepsI by blast
  qed
qed

lemma keeps_queue:
  assumes q: "queue_for_review n tid iid db = Inr (h, db')" and b: "books_ok db"
    and own: "\<And>i. i \<in> set (wd_intents db) \<Longrightarrow> ti_id i = iid \<Longrightarrow>
        ti_tenant_id i = tid \<and> ti_status i \<in> {TsAwaitingProof, TsUnderReview}"
  shows "keeps db db'"
proof -
  have ok: "wallets_ok db" "topups_ok db" using b by (simp_all add: books_ok_def)
  obtain i where f: "find_intent iid db = Inr i" using q by (auto simp: queue_for_review_def rbind_Inr_iff)
  then have i: "i \<in> set (wd_intents db)" "ti_id i = iid"
    by (auto simp: find_intent_def dest: lookup_by_in split: option.splits)
  then have tid: "ti_tenant_id i = tid" and st: "ti_status i \<in> {TsAwaitingProof, TsUnderReview}"
    using own by blast+
  note look = intent_lookup [OF b i(1)]
  let ?i = "i\<lparr>ti_status := TsUnderReview\<rparr>"
  show ?thesis
  proof (cases "ti_status i = TsAwaitingProof")
    case True
    then obtain w d1 where g: "get_or_create_wallet n tid db = Inr (w, d1)"
      using q f by (auto simp: queue_for_review_def rbind_Inr_iff)
    let ?w = "add_pending_hold (ti_amount_cents i) w"
    have e: "db' = put_intent ?i (put_wallet ?w d1)"
      using q f g True by (simp add: queue_for_review_def)
    note gs = get_or_create_spec [OF g ok(1)]
    have w: "mw_tenant_id ?w = tid" "mw_id ?w = mw_id w" "mw_balance_cents ?w = mw_balance_cents w"
      "mw_pending_balance_cents ?w = mw_pending_balance_cents w + ti_amount_cents i"
      using gs by (simp_all add: add_pending_hold_def)
    have look1: "wallet_of tid d1 = Some w" using gs by blast
    have p1: "posts d1 (put_wallet ?w d1)" by (rule put_wallet_posts [of d1 ?w w]) (use gs w in simp_all)
    then have "posts (put_wallet ?w d1) db'" unfolding e
      by (intro posts_off_books [OF posts_ok [OF p1]]) simp_all
    then have p: "posts db db'" using p1 get_or_create_posts [OF g ok(1)] posts_trans by blast
    have pend: "wb_pending db' t = wb_pending db t - hold_of t i + hold_of t ?i" for t
    proof -
      have "wb_pending db tid = mw_pending_balance_cents w"
        using get_or_create_spec [OF g ok(1), of tid] look1 by (simp add: wb_pending_def)
      moreover have "wb_pending d1 t = wb_pending db t" using get_or_create_spec [OF g ok(1), of t] by blast
      ultimately show ?thesis
        using put_wallet_pending [OF look1 w(1), of t] wb_cong [of db' "put_wallet ?w d1" t] w(4) True tid
        by (simp add: e hold_of_def)
    qed
    have "topups_ok db'"
      by (rule topups_step [OF ok(2) _ _ _ _ pend])
        (use look True gs in \<open>simp_all add: e put_intent_def same_topups_def\<close>)
    then show ?thesis using p keepsI by blast
  next
    case False
    then have ur: "ti_status i = TsUnderReview" using st by simp
    then have "db' = put_intent ?i db" using q f by (simp add: queue_for_review_def)
    moreover have "keeps db (put_intent ?i db)"
      by (rule keeps_put_intent [OF b, of _ i]) (use look ur in \<open>simp_all add: hold_of_def\<close>)
    ultimately show ?thesis by simp
  qed
qed

lemma check_receipt_intent:
  "check_receipt now h r ref db = Inr i \<Longrightarrow> i \<in> set (wd_intents db) \<and> ti_id i = re_topup_intent_id r
    \<and> ti_tenant_id i = re_tenant_id r \<and> ti_status i \<in> {TsAwaitingProof, TsUnderReview}"
  by (auto simp: check_receipt_def find_Some_iff in_set_conv_nth split: option.splits if_splits)

lemma keeps_submit:
  assumes s: "submit_topup_proof now sha upl vis l ids pid r db = Inr (out, db')" and b: "books_ok db"
  shows "keeps db db'"
proof -
  define ref where "ref = strip (re_transaction_ref r)"
  define h where "h = sha (re_image_bytes r)"
  obtain i where ck: "check_receipt now h r ref db = Inr i"
    using s by (auto simp: submit_topup_proof_def Let_def rbind_Inr_iff h_def ref_def)
  obtain key where up: "upl (''wallet-topups/'' @ uuid_str (re_tenant_id r) @ ''/'' @ uuid_str (ti_id i) @ ''/''
          @ ti_special_reference i @ ''.bin'') = Inr key"
    using s ck by (auto simp: submit_topup_proof_def Let_def rbind_Inr_iff h_def ref_def)
  define d where "d = receipt_decision now (vis (re_image_bytes r)) i ref (re_declared_amount_cents r) db"
  define p where "p = \<lparr>tp_id = pid, tp_created_at = now, tp_tenant_id = re_tenant_id r,
               tp_topup_intent_id = ti_id i, tp_image_key = key, tp_image_hash = h,
               tp_transaction_ref = ref, tp_declared_amount_cents = re_declared_amount_cents r,
               tp_status = (if ad_approved d then PfAutoApproved else PfAwaitingReview),
               tp_review_decision_by = None, tp_review_decision_at = None, tp_rejection_reason = None,
               tp_block_reasons = (if ad_approved d then None else Some (ad_reasons d))\<rparr>"
  define d1 where "d1 = db\<lparr>wd_proofs := wd_proofs db @ [p]\<rparr>"
  note fold = h_def [symmetric] ref_def [symmetric]
  have k1: "keeps db d1" unfolding d1_def by (rule keeps_off_books [OF b]) simp_all
  have b1: "books_ok d1" using k1 by (rule keeps_ok)
  note own = check_receipt_intent [OF ck]
  have "keeps d1 db'"
  proof (cases "ad_approved d")
    case True
    have "\<exists>tx. credit_topup_intent now l ids (ti_id i) (proof_key pid)
        (method_value (ti_method i) @ ''_auto_approval'') None d1 = Inr (tx, db')"
      using s True ck up unfolding submit_topup_proof_def fold Let_def d1_def p_def d_def
      by (auto simp: rbind_Inr_iff split: if_splits)
    then show ?thesis using keeps_credit [OF _ b1] by blast
  next
    case False
    have "\<exists>oh. queue_for_review (fst ids) (re_tenant_id r) (ti_id i) d1 = Inr (oh, db')"
      using s False ck up unfolding submit_topup_proof_def fold Let_def d1_def p_def d_def
      by (auto simp: rbind_Inr_iff split: if_splits)
    then obtain oh where q: "queue_for_review (fst ids) (re_tenant_id r) (ti_id i) d1 = Inr (oh, db')" by blast
    have "ti_tenant_id j = re_tenant_id r \<and> ti_status j \<in> {TsAwaitingProof, TsUnderReview}"
      if "j \<in> set (wd_intents d1)" "ti_id j = ti_id i" for j
    proof -
      have "j = i" using distinct_key_eq [of ti_id "wd_intents db" j i] that own b
        by (simp add: d1_def books_ok_def topups_ok_def)
      then show ?thesis using own by simp
    qed
    from keeps_queue [OF q b1 this] show ?thesis .
  qed
  with k1 show ?thesis by (rule keeps_trans)
qed

lemma keeps_expire:
  assumes b: "books_ok db" shows "keeps db (expire_topups now db)"
proof (rule keepsI)
  let ?db = "expire_topups now db"
  let ?f = "\<lambda>i. if ti_status i \<in> {TsPending, TsAwaitingProof}
        \<and> (case ti_expires_at i of None \<Rightarrow> False | Some e \<Rightarrow> e < now)
     then i\<lparr>ti_status := TsExpired, ti_failure_reason := Some ''expired''\<rparr> else i"
  have ok: "wallets_ok db" "topups_ok db" using b by (simp_all add: books_ok_def)
  have f: "wd_intents ?db = map ?f (wd_intents db)" by (simp add: expire_topups_def)
  have same: "wd_wallets ?db = wd_wallets db" "wd_transactions ?db = wd_transactions db"
    by (simp_all add: expire_topups_def)
  have fi: "ti_id (?f i) = ti_id i" "ti_amount_cents (?f i) = ti_amount_cents i"
    "hold_of t (?f i) = hold_of t i" "credits i x \<Longrightarrow> credits (?f i) x" for i t x
    by (auto simp: hold_of_def credits_def)
  show "posts db ?db" by (rule posts_off_books [OF ok(1) same])
  have "map ti_id (wd_intents ?db) = map ti_id (wd_intents db)"
    "map (hold_of t) (wd_intents ?db) = map (hold_of t) (wd_intents db)" for t
    unfolding f map_map comp_def fi by (rule refl)+
  then have "distinct (map ti_id (wd_intents ?db))" "held ?db t = held db t" "wb_pending ?db t = wb_pending db t" for t
    using ok(2) wb_cong [of ?db db t] same by (simp_all add: topups_ok_def held_def)
  moreover have "\<forall>i\<in>set (wd_intents ?db). 0 \<le> ti_amount_cents i"
    using ok(2) unfolding f by (auto simp: topups_ok_def)
  moreover have "\<exists>i\<in>set (wd_intents ?db). credits i x"
    if x: "x \<in> set (wd_transactions db)" "wt_kind x = WkTopup" for x
  proof -
    obtain i where "i \<in> set (wd_intents db)" "credits i x" using ok(2) x by (auto simp: topups_ok_def)
    then show ?thesis using fi(4) unfolding f set_map by blast
  qed
  ultimately show "topups_ok ?db" using ok(2) by (simp add: topups_ok_def same)
qed

text \<open>An intent the gateway answers for: it fails, or it is credited after its transaction is noted.\<close>

lemma keeps_gateway:
  assumes b: "books_ok db" and i: "lookup_by ti_special_reference ref (wd_intents db) = Some i"
  shows "ti_status i = TsPending \<Longrightarrow>
      keeps db (put_intent (i\<lparr>ti_status := TsFailed, ti_gateway_transaction_id := g, ti_failure_reason := f\<rparr>) db)"
    and "credit_topup_intent now l ids (ti_id i) key src actor (put_intent (i\<lparr>ti_gateway_transaction_id := g\<rparr>) db)
        = Inr (r, db') \<Longrightarrow> keeps db db'"
proof -
  have "i \<in> set (wd_intents db)" using lookup_by_in [OF i] by blast
  note look = intent_lookup [OF b this]
  show "keeps db (put_intent (i\<lparr>ti_status := TsFailed, ti_gateway_transaction_id := g, ti_failure_reason := f\<rparr>) db)"
    if "ti_status i = TsPending"
    by (rule keeps_put_intent [OF b, of _ i]) (use look that in \<open>simp_all add: hold_of_def\<close>)
  have "keeps db (put_intent (i\<lparr>ti_gateway_transaction_id := g\<rparr>) db)"
    by (rule keeps_put_intent [OF b, of _ i]) (use look in \<open>simp_all add: hold_of_def\<close>)
  then show "keeps db db'"
    if "credit_topup_intent now l ids (ti_id i) key src actor (put_intent (i\<lparr>ti_gateway_transaction_id := g\<rparr>) db)
        = Inr (r, db')"
    using keeps_credit [OF that] keeps_ok keeps_trans by blast
qed

lemma keeps_kashier:
  assumes k: "kashier_topup_callback now l ids ref tx st paid db = Inr (a, db')" and b: "books_ok db"
  shows "keeps db db'"
proof (cases "lookup_by ti_special_reference ref (wd_intents db)")
  case None
  then show ?thesis using k keeps_refl [OF b] by (simp add: kashier_topup_callback_def split: if_splits)
next
  case (Some i)
  note gw = keeps_gateway [OF b Some]
  show ?thesis
    using k Some gw(1) gw(2) [where ids = ids] keeps_refl [OF b]
    by (auto simp: kashier_topup_callback_def rbind_Inr_iff split: if_splits)
qed

lemma keeps_paymob:
  assumes k: "paymob_topup_callback now l ids ref tx refd succ msg paid db = Inr (a, db')" and b: "books_ok db"
  shows "keeps db db'"
proof (cases "lookup_by ti_special_reference ref (wd_intents db)")
  case None
  then show ?thesis using k keeps_refl [OF b] by (simp add: paymob_topup_callback_def split: if_splits)
next
  case (Some i)
  note gw = keeps_gateway [OF b Some]
  show ?thesis
    using k Some gw(1) gw(2) [where ids = ids] keeps_refl [OF b]
    by (auto simp: paymob_topup_callback_def rbind_Inr_iff split: if_splits)
qed

lemma keeps_entry_bump:
  assumes "apply_entry ids t kind n a db = Inr (tx, db1)" "bump_wallet l m t db1 = Inr (lv, db2)"
    "books_ok db" "kind \<noteq> WkTopup"
  shows "keeps db db2"
  using keeps_apply_entry [OF assms(1,3,4)] keeps_bump [OF assms(2)] keeps_ok keeps_trans by blast

lemma keeps_adjust:
  assumes a: "adjust_wallet l ids t adm n why db = Inr (tx, db')" and b: "books_ok db"
  shows "keeps db db'"
proof -
  have nz: "n \<noteq> 0" using a by (auto simp: adjust_wallet_def)
  then obtain args tx1 db1 where p: "apply_entry ids t WkAdjustment n args db = Inr (tx1, db1)"
    "rbind (bump_wallet l (fst ids) t db1) (\<lambda>(level, db2). Inr (tx1, db2)) = Inr (tx, db')"
    using a by (auto simp: adjust_wallet_def split: sum.splits prod.splits)
  then obtain lv where "bump_wallet l (fst ids) t db1 = Inr (lv, db')" by (auto simp: rbind_Inr_iff)
  with p(1) show ?thesis by (rule keeps_entry_bump) (use b in simp_all)
qed

lemma patch_wallet_fields [simp]:
  "mw_id (patch_wallet q w) = mw_id w" "mw_tenant_id (patch_wallet q w) = mw_tenant_id w"
  "mw_balance_cents (patch_wallet q w) = mw_balance_cents w"
  "mw_pending_balance_cents (patch_wallet q w) = mw_pending_balance_cents w"
  by (simp_all add: patch_wallet_def Let_def split: option.split)

lemma keeps_config:
  assumes u: "update_wallet_config n t q db = Inr (w', db')" and b: "books_ok db"
  shows "keeps db db'"
proof -
  have ok: "wallets_ok db" using b by (simp add: books_ok_def)
  obtain w d1 where g: "get_or_create_wallet n t db = Inr (w, d1)"
    using u by (auto simp: update_wallet_config_def rbind_Inr_iff)
  have look: "wallet_of t d1 = Some w" and t: "mw_tenant_id w = t" and ok1: "wallets_ok d1"
    using get_or_create_spec [OF g ok] by blast+
  have e: "w' = patch_wallet q w" "db' = put_wallet w' d1" using u g by (auto simp: update_wallet_config_def Let_def)
  have w': "mw_tenant_id w' = t" "mw_id w' = mw_id w" "mw_balance_cents w' = mw_balance_cents w"
    "mw_pending_balance_cents w' = mw_pending_balance_cents w"
    using t by (simp_all add: e(1))
  have b1: "books_ok d1" using keeps_ok [OF keeps_get_or_create [OF g b]] .
  have p: "posts d1 db'" unfolding e(2) by (rule put_wallet_posts [of d1 w' w]) (use ok1 look w' in simp_all)
  have "wb_pending db' u = wb_pending d1 u" for u
    using put_wallet_pending [OF look w'(1), of u] look w'(4) by (simp add: e(2) wb_pending_def)
  then have "topups_ok db'"
    using topups_still [of d1 db'] b1 by (simp add: e(2) books_ok_def)
  with p have "keeps d1 db'" by (rule keepsI)
  then show ?thesis using keeps_get_or_create [OF g b] keeps_trans by blast
qed

lemma keeps_commission:
  assumes b: "books_ok db"
  shows "keeps db (snd (handle_commission_charge_on_order_paid adm ids sl sid oid no db))"
proof -
  have "keeps db db'" if c: "charge_commission adm ids sl sid oid no db = Inr (r, db')" for r db'
  proof (rule ccontr)
    assume n: "\<not> keeps db db'"
    then have "db' \<noteq> db" using keeps_refl [OF b] by auto
    then obtain t k a tx db1 where e: "apply_entry ids t WkCommission k a db = Inr (tx, db1)"
      and r: "(case tx of None \<Rightarrow> Inr ((None, None), db1)
              | Some x \<Rightarrow> rbind (bump_wallet (admin_limits adm) (fst ids) t db1) (\<lambda>(level, db2).
                          Inr ((level, Some (wt_balance_after_cents x)), db2))) = Inr (r, db')"
      using c by (auto simp: charge_commission_def Let_def rbind_Inr_iff split: option.splits if_splits prod.splits)
    show False
    proof (cases tx)
      case None
      then show False using n r keeps_apply_entry [OF e b] by simp
    next
      case (Some x)
      then obtain lv where "bump_wallet (admin_limits adm) (fst ids) t db1 = Inr (lv, db')"
        using r by (auto simp: rbind_Inr_iff)
      from keeps_entry_bump [OF e this b] n show False by simp
    qed
  qed
  then show ?thesis using keeps_refl [OF b]
    by (cases "charge_commission adm ids sl sid oid no db")
      (auto simp: handle_commission_charge_on_order_paid_def)
qed

lemma keeps_sweep_order:
  assumes b: "books_ok (sw_db s)"
  shows "keeps (sw_db s) (sw_db (snd (sweep_order adm draw sl t bps ps r s)))"
proof -
  obtain egp m where e: "to_egp_cents sl (so_total r) (so_currency r) = (egp, m)" by fastforce
  show ?thesis
  proof (cases "\<exists>c. egp = Some c \<and> 0 < c * bps div commission_bps_divisor")
    case False
    then have "sw_db (snd (sweep_order adm draw sl t bps ps r s)) = sw_db s"
      using e by (cases egp) (auto simp: sweep_order_def)
    then show ?thesis using keeps_refl [OF b] by simp
  next
    case True
    then obtain c where c: "egp = Some c" "\<not> c * bps div commission_bps_divisor \<le> 0" by auto
    then obtain args where step: "sweep_order adm draw sl t bps ps r s =
        (case apply_entry (draw (so_id r)) t WkCommission (- (c * bps div commission_bps_divisor)) args (sw_db s) of
            Inr (tx, db') \<Rightarrow> (False, s\<lparr>sw_charged := sw_charged s + (if tx = None then 0 else 1), sw_db := db'\<rparr>)
          | Inl e \<Rightarrow> (e = WalletSuspendedError, s\<lparr>sw_skipped := sw_skipped s + 1\<rparr>))"
      using e by (simp add: sweep_order_def Let_def)
    show ?thesis
    proof (cases "apply_entry (draw (so_id r)) t WkCommission (- (c * bps div commission_bps_divisor)) args (sw_db s)")
      case (Inl e)
      then show ?thesis using step keeps_refl [OF b] by simp
    next
      case (Inr p)
      then show ?thesis using step keeps_apply_entry [OF _ b] by (cases p) simp
    qed
  qed
qed

lemma keeps_sweep_orders:
  "books_ok (sw_db s) \<Longrightarrow> keeps (sw_db s) (sw_db (sweep_orders (sweep_order adm draw sl t bps ps) rs s))"
proof (induction rs arbitrary: s)
  case Nil
  then show ?case by (simp add: keeps_refl)
next
  case (Cons r rs)
  obtain stop s' where s': "sweep_order adm draw sl t bps ps r s = (stop, s')" by fastforce
  then have k: "keeps (sw_db s) (sw_db s')" using keeps_sweep_order [OF Cons.prems] by (metis snd_conv)
  then show ?case using s' Cons.IH [OF keeps_ok [OF k]] keeps_trans by (auto split: if_splits)
qed

lemma keeps_sweep_tenants:
  "books_ok (sw_db s) \<Longrightarrow> keeps (sw_db s) (sw_db (fold (sweep_tenant now adm draw sl) ts s))"
proof (induction ts arbitrary: s)
  case Nil
  then show ?case by (simp add: keeps_refl)
next
  case (Cons t ts)
  have k: "keeps (sw_db s) (sw_db (sweep_tenant now adm draw sl t s))"
    using keeps_sweep_orders [OF Cons.prems] keeps_refl [OF Cons.prems] by (simp add: sweep_tenant_def Let_def)
  then show ?case using Cons.IH [OF keeps_ok [OF k]] keeps_trans by auto
qed

text \<open>With balanced books the second pass of the sweep has nothing to heal.\<close>

definition balanced_books :: "wallet_db \<Rightarrow> bool" where
  "balanced_books db \<longleftrightarrow> books_ok db \<and> (\<forall>t. wb_balance db t = sum_list (wb_entries db t))"

lemma keeps_balanced:
  assumes b: "balanced_books db" and k: "keeps db db'" shows "balanced_books db'"
proof -
  have "wb_balance db' t = sum_list (wb_entries db' t)" for t
  proof -
    obtain d where "wb_entries db' t = wb_entries db t @ d" "wb_balance db' t = wb_balance db t + sum_list d"
      using k unfolding keeps_def posts_def by blast
    then show ?thesis using b by (simp add: balanced_books_def)
  qed
  then show ?thesis using keeps_ok [OF k] by (simp add: balanced_books_def)
qed

lemma ledger_sum_entries:
  assumes ok: "wallets_ok db" and w: "w \<in> set (wd_wallets db)"
  shows "ledger_sum db (mw_id w) = sum_list (wb_entries db (mw_tenant_id w))"
proof -
  have "wt_wallet_id x = mw_id w \<longleftrightarrow> wt_tenant_id x = mw_tenant_id w" if x: "x \<in> set (wd_transactions db)" for x
  proof -
    obtain v where v: "wallet_of (wt_tenant_id x) db = Some v" "mw_id v = wt_wallet_id x"
      using ok x unfolding wallets_ok_def by blast
    then have vin: "v \<in> set (wd_wallets db)" "mw_tenant_id v = wt_tenant_id x" using ok by (simp_all add: wallet_of_Some)
    have "distinct (map mw_id (wd_wallets db))" "distinct (map mw_tenant_id (wd_wallets db))"
      using ok by (simp_all add: wallets_ok_def)
    then show ?thesis using distinct_key_eq vin w v(2) by metis
  qed
  then have "filter (\<lambda>x. wt_wallet_id x = mw_id w) (wd_transactions db)
      = filter (\<lambda>x. wt_tenant_id x = mw_tenant_id w) (wd_transactions db)" by (rule filter_cong [OF refl])
  then show ?thesis by (simp add: ledger_sum_def wb_entries_def)
qed

lemma no_drift:
  assumes "balanced_books db" shows "drift_rows db = [] \<and> heal_drift db = db"
proof -
  have "mw_balance_cents w = ledger_sum db (mw_id w)" if w: "w \<in> set (wd_wallets db)" for w
  proof -
    have ok: "wallets_ok db" using assms by (simp add: balanced_books_def books_ok_def)
    then have "wallet_of (mw_tenant_id w) db = Some w" using w by (simp add: wallet_of_Some)
    then show ?thesis using assms ledger_sum_entries [OF ok w]
      by (simp add: balanced_books_def wb_balance_def) (metis option.simps(5))
  qed
  then have "drift_rows db = []" by (simp add: drift_rows_def filter_empty_conv)
  then show ?thesis by (simp add: heal_drift_def)
qed

lemma keeps_reconciliation:
  assumes b: "balanced_books db"
  shows "keeps db (snd (wallet_reconciliation now adm draw sl db))
    \<and> sr_drift_healed (fst (wallet_reconciliation now adm draw sl db)) = 0"
proof -
  let ?s = "fold (sweep_tenant now adm draw sl) (sweep_tenants db) \<lparr>sw_charged = 0, sw_skipped = 0, sw_db = db\<rparr>"
  have k: "keeps db (sw_db ?s)"
    using keeps_sweep_tenants [of "\<lparr>sw_charged = 0, sw_skipped = 0, sw_db = db\<rparr>"] b by (simp add: balanced_books_def)
  from no_drift [OF keeps_balanced [OF b k]] k show ?thesis by (simp add: wallet_reconciliation_def Let_def)
qed

section \<open>The stream of calls\<close>

datatype wallet_call =
    WcCreate instant wallet_admin_settings bool bool "string \<times> string \<times> string \<times> string" uuid uuid uuid
      topup_method int
  | WcSubmit instant "string \<Rightarrow> string result" "string \<Rightarrow> ocr_result" wallet_limits drawn_ids uuid receipt
  | WcApprove instant wallet_limits drawn_ids uuid uuid
  | WcReject instant uuid uuid uuid string
  | WcExpire instant
  | WcKashier instant wallet_limits drawn_ids string string string int
  | WcPaymob instant wallet_limits drawn_ids string string bool bool string int
  | WcAdjust wallet_limits drawn_ids uuid uuid int string
  | WcConfig uuid uuid wallet_config_patch
  | WcOrderPaid wallet_admin_settings drawn_ids sales uuid uuid string
  | WcReconcile instant wallet_admin_settings "uuid \<Rightarrow> drawn_ids" sales

fun wallet_act :: "(string \<Rightarrow> string) \<Rightarrow> wallet_call \<Rightarrow> wallet_db \<Rightarrow> wallet_db result" where
  "wallet_act sha (WcCreate now adm ff pc draws n t u m amt) db =
     rbind (create_wallet_topup now adm ff pc draws n t u m amt db) (\<lambda>r. Inr (snd r))"
| "wallet_act sha (WcSubmit now upl vis l ids pid r) db =
     rbind (submit_topup_proof now sha upl vis l ids pid r db) (\<lambda>r. Inr (snd r))"
| "wallet_act sha (WcApprove now l ids pid adm) db = rbind (approve_proof now l ids pid adm db) (\<lambda>r. Inr (snd r))"
| "wallet_act sha (WcReject now n pid adm why) db = reject_proof now n pid adm why db"
| "wallet_act sha (WcExpire now) db = Inr (expire_topups now db)"
| "wallet_act sha (WcKashier now l ids ref tx st paid) db =
     rbind (kashier_topup_callback now l ids ref tx st paid db) (\<lambda>r. Inr (snd r))"
| "wallet_act sha (WcPaymob now l ids ref tx refd succ msg paid) db =
     rbind (paymob_topup_callback now l ids ref tx refd succ msg paid db) (\<lambda>r. Inr (snd r))"
| "wallet_act sha (WcAdjust l ids t adm n why) db = rbind (adjust_wallet l ids t adm n why db) (\<lambda>r. Inr (snd r))"
| "wallet_act sha (WcConfig n t q) db = rbind (update_wallet_config n t q db) (\<lambda>r. Inr (snd r))"
| "wallet_act sha (WcOrderPaid adm ids sl sid oid no) db =
     Inr (snd (handle_commission_charge_on_order_paid adm ids sl sid oid no db))"
| "wallet_act sha (WcReconcile now adm draw sl) db = Inr (snd (wallet_reconciliation now adm draw sl db))"

lemmas call_keeps = keeps_create keeps_submit keeps_approve keeps_reject keeps_kashier keeps_paymob
  keeps_adjust keeps_config

lemma wallet_act_keeps:
  assumes a: "wallet_act sha c db = Inr db'" and b: "balanced_books db" shows "keeps db db'"
proof -
  have bo: "books_ok db" using b by (simp add: balanced_books_def)
  show ?thesis
    using a call_keeps [OF _ bo] keeps_expire [OF bo] keeps_commission [OF bo] keeps_reconciliation [OF b]
    by (cases c) (auto simp: rbind_Inr_iff simp del: split_paired_All)
qed

interpretation wallet_books: audited_ledger "wallet_act sha" balanced_books wb_balance wb_entries wb_snapshots for sha
proof unfold_locales
  fix db c db' k
  assume b: "balanced_books db" and a: "wallet_act sha c db = Inr db'"
  note k = wallet_act_keeps [OF a b]
  show "balanced_books db'" using b k by (rule keeps_balanced)
  show "\<exists>d. wb_entries db' k = wb_entries db k @ d \<and> wb_balance db' k = wb_balance db k + sum_list d"
    and "\<exists>d. wb_entries db' k = wb_entries db k @ d \<and> wb_snapshots db' k = wb_snapshots db k @ running (wb_balance db k) d"
    using k unfolding keeps_def posts_def by blast+
qed

lemma tx_conflict_sym: "tx_conflict a b \<Longrightarrow> tx_conflict b a"
  unfolding tx_conflict_def by metis

lemma conflict_free:
  assumes "wallets_ok db" "x \<in> set (wd_transactions db)" "y \<in> set (wd_transactions db)" "tx_conflict x y"
  shows "x = y"
proof -
  have "sorted_wrt (\<lambda>a b. \<not> tx_conflict b a) xs \<Longrightarrow> x \<in> set xs \<Longrightarrow> y \<in> set xs \<Longrightarrow> x = y" for xs
    using assms(4) tx_conflict_sym by (induction xs) auto
  moreover have "sorted_wrt (\<lambda>a b. \<not> tx_conflict b a) (wd_transactions db)"
    using assms(1) by (simp add: wallets_ok_def)
  ultimately show ?thesis using assms(2,3) by blast
qed

definition empty_books :: wallet_db where
  "empty_books = \<lparr>wd_wallets = [], wd_transactions = [], wd_intents = [], wd_proofs = [], wd_tenants = []\<rparr>"

lemma empty_books_ok: "balanced_books (empty_books\<lparr>wd_tenants := ts\<rparr>)"
  by (simp add: empty_books_def balanced_books_def books_ok_def wallets_ok_def topups_ok_def held_def
      wb_balance_def wb_pending_def wb_entries_def wallet_of_def)

section \<open>A day of a wallet\<close>

definition demo_admin :: wallet_admin_settings where
  "demo_admin = \<lparr>wa_topups_enabled = True, wa_card_enabled = True, wa_vodafone_cash_enabled = True,
     wa_instapay_enabled = True, wa_commission_bps_default = None, wa_negative_allowance_cents = 5000,
     wa_low_balance_threshold_cents = 10000, wa_min_topup_cents = 5000, wa_checkout_gate_enabled = True,
     wa_golive_gate_enabled = False, wa_vodafone_cash_number = Some ''01000'', wa_instapay_ipa = Some ''numu@ipa''\<rparr>"

definition demo_tenant :: tenant where
  "demo_tenant = \<lparr>tn_id = 1, tn_plan = ''payg'', tn_feature_flags = [], tn_lifecycle_state = LsReadOnly,
     tn_expires_at = None, tn_read_only_at = Some 0, tn_delete_at = None, tn_trial_converted_at = None\<rparr>"

definition demo_books :: wallet_db where
  "demo_books = empty_books\<lparr>wd_tenants := [demo_tenant]\<rparr>"

definition demo_limits :: wallet_limits where
  "demo_limits = admin_limits demo_admin"

definition demo_sales :: sales where
  "demo_sales = \<lparr>sl_stores = [(5, 1)],
     sl_orders = [\<lparr>so_id = 70, so_store_id = 5, so_order_number = ''N-1'', so_total = 100050,
        so_collected_total = None, so_currency = ''EGP'', so_status = DELIVERED,
        so_payment_status = PayPaid, so_payment_method = Some ''cod'', so_paid_at = Some 0,
        so_created_at = 0, so_auto_rto_at = None\<rparr>],
     sl_rates = []\<rparr>"

definition no_ocr :: "string \<Rightarrow> ocr_result" where
  "no_ocr img = \<lparr>oc_status = ''skipped'', oc_extracted_amount_cents = None, oc_extracted_ipa = None,
     oc_extracted_note = None, oc_extracted_transaction_ref = None, oc_extracted_recipient_name = None\<rparr>"

text \<open>Two receipts wait for review, one is approved twice; the order's paid event arrives twice.\<close>

definition demo_calls :: "wallet_call list" where
  "demo_calls = [
     WcCreate 0 demo_admin False True (''AAAA'', ''BBBB'', ''CCCC'', ''DDDD'') 20 1 9 TmInstapay 40000,
     WcCreate 0 demo_admin False True (''EEEE'', ''BBBB'', ''CCCC'', ''DDDD'') 21 1 9 TmVodafoneCash 7000,
     WcSubmit 0 Inr no_ocr demo_limits (30, 31) 40
       \<lparr>re_tenant_id = 1, re_topup_intent_id = 20, re_image_bytes = ''img1'', re_transaction_ref = ''111'',
        re_declared_amount_cents = None\<rparr>,
     WcSubmit 0 Inr no_ocr demo_limits (30, 32) 41
       \<lparr>re_tenant_id = 1, re_topup_intent_id = 21, re_image_bytes = ''img2'', re_transaction_ref = ''222'',
        re_declared_amount_cents = None\<rparr>,
     WcApprove 0 demo_limits (30, 33) 40 8,
     WcApprove 0 demo_limits (30, 34) 40 8,
     WcOrderPaid demo_admin (30, 35) demo_sales 5 70 ''N-1'',
     WcOrderPaid demo_admin (30, 36) demo_sales 5 70 ''N-1'',
     WcReconcile 0 demo_admin (\<lambda>u. (30, 37)) demo_sales]"

lemma demo_books_ok: "balanced_books demo_books" "\<forall>t. wb_snapshots demo_books t = running 0 (wb_entries demo_books t)"
  by (simp_all add: demo_books_def empty_books_ok)
    (simp add: empty_books_def wb_snapshots_def wb_entries_def)

lemma demo_run:
  "wb_entries (serve_all (wallet_act id) demo_calls demo_books) 1 = [40000, -3001]
   \<and> wb_snapshots (serve_all (wallet_act id) demo_calls demo_books) 1 = [40000, 36999]
   \<and> wb_pending (serve_all (wallet_act id) demo_calls demo_books) 1 = 7000"
  by code_simp

section \<open>Properties\<close>

text \<open>
  C5: the wallet ledger is sound. From consistent books, whatever top-ups, receipts, reviews,
  gateway callbacks, adjustments, configuration changes, commissions and sweeps follow, the balance
  of every tenant is the sum of its ledger rows, every row carries the balance right after it, no
  row is ever changed or removed, and the nightly integrity pass finds no wallet to heal.
\<close>

theorem wallet_ledger_sound:
  assumes "balanced_books db" "\<forall>t. wb_snapshots db t = running 0 (wb_entries db t)"
    and "db' = serve_all (wallet_act sha) calls db"
  shows "(\<forall>t. wb_balance db' t = sum_list (wb_entries db' t)
      \<and> wb_snapshots db' t = running 0 (wb_entries db' t)
      \<and> prefix (wb_entries db t) (wb_entries db' t))
    \<and> drift_rows db' = []"
proof -
  have "wallet_books.balanced db" using assms(1) by (simp add: wallet_books.balanced_def balanced_books_def)
  then have "wallet_books.audited db" using assms(2) by (simp add: wallet_books.audited_def)
  then have a: "wallet_books.audited db'" unfolding assms(3) by (rule wallet_books.books_audited)
  have "prefix (wb_entries db t) (wb_entries db' t)" for t
    unfolding assms(3) by (rule wallet_books.append_only [OF assms(1)])
  moreover have "drift_rows db' = []" using no_drift a by (simp add: wallet_books.audited_def wallet_books.balanced_def)
  ultimately show ?thesis using a by (simp add: wallet_books.audited_def wallet_books.balanced_def)
qed


theorem wallet_ledger_sound_witness:
  "wb_balance (serve_all (wallet_act id) demo_calls demo_books) 1 = 36999
   \<and> drift_rows (serve_all (wallet_act id) demo_calls demo_books) = []"
  using wallet_ledger_sound [OF demo_books_ok refl, of id demo_calls] demo_run by simp

text \<open>
  C6: holds and credits of top-ups. From consistent books, after any calls, the amount a tenant
  sees on hold is the sum of its top-ups under review, never negative, and a top-up is credited at
  most once: two ledger rows for one intent are the same row, and the intent of a credit is
  \<open>succeeded\<close>, belongs to the tenant and carries exactly the credited amount.
\<close>

theorem topup_holds_and_credits:
  assumes "balanced_books db" and "db' = serve_all (wallet_act sha) calls db"
  shows "(\<forall>t. wb_pending db' t = (\<Sum>i \<leftarrow> filter (\<lambda>i. ti_tenant_id i = t \<and> ti_status i = TsUnderReview)
            (wd_intents db'). ti_amount_cents i) \<and> 0 \<le> wb_pending db' t)
    \<and> (\<forall>x y. x \<in> set (wd_transactions db') \<longrightarrow> y \<in> set (wd_transactions db') \<longrightarrow>
          wt_kind x = WkTopup \<longrightarrow> wt_kind y = WkTopup \<longrightarrow> wt_topup_intent_id x = wt_topup_intent_id y \<longrightarrow> x = y)
    \<and> (\<forall>x. x \<in> set (wd_transactions db') \<longrightarrow> wt_kind x = WkTopup \<longrightarrow>
          (\<exists>i\<in>set (wd_intents db'). wt_topup_intent_id x = Some (ti_id i) \<and> ti_status i = TsSucceeded
             \<and> ti_tenant_id i = wt_tenant_id x \<and> ti_amount_cents i = wt_amount_cents x))"
proof -
  have "balanced_books db'" unfolding assms(2) by (rule wallet_books.serve_all_ok [OF assms(1)])
  then have w: "wallets_ok db'" and t: "topups_ok db'" by (simp_all add: balanced_books_def books_ok_def)
  have cred: "\<exists>i\<in>set (wd_intents db'). credits i x" if "x \<in> set (wd_transactions db')" "wt_kind x = WkTopup" for x
    using t that by (simp add: topups_ok_def)
  have d: "distinct (map ti_id (wd_intents db'))" using t by (simp add: topups_ok_def)
  have "x = y" if xy: "x \<in> set (wd_transactions db')" "y \<in> set (wd_transactions db')" "wt_kind x = WkTopup"
      "wt_kind y = WkTopup" "wt_topup_intent_id x = wt_topup_intent_id y" for x y
  proof -
    obtain i j where i: "i \<in> set (wd_intents db')" "credits i x" and j: "j \<in> set (wd_intents db')" "credits j y"
      using cred xy by blast
    then have "i = j" using distinct_key_eq [OF d i(1) j(1)] xy(5) by (simp add: credits_def)
    then have "wt_id x = wt_id y" using i(2) j(2) by (simp add: credits_def)
    then show ?thesis using conflict_free [OF w xy(1,2)] by (simp add: tx_conflict_def)
  qed
  moreover have "wb_pending db' u = (\<Sum>i \<leftarrow> filter (\<lambda>i. ti_tenant_id i = u \<and> ti_status i = TsUnderReview)
            (wd_intents db'). ti_amount_cents i)" for u
  proof -
    have "held db' u = (\<Sum>i \<leftarrow> filter (\<lambda>i. ti_tenant_id i = u \<and> ti_status i = TsUnderReview)
            (wd_intents db'). ti_amount_cents i)"
      by (simp add: held_def hold_of_def [abs_def] sum_list_map_filter')
    then show ?thesis using t by (simp add: topups_ok_def)
  qed
  moreover have "0 \<le> wb_pending db' u" for u
  proof -
    have "0 \<le> held db' u" unfolding held_def
      by (rule sum_column_nonneg) (use t in \<open>simp add: topups_ok_def hold_of_def\<close>)
    then show ?thesis using t by (simp add: topups_ok_def)
  qed
  moreover have "\<exists>i\<in>set (wd_intents db'). wt_topup_intent_id x = Some (ti_id i) \<and> ti_status i = TsSucceeded
             \<and> ti_tenant_id i = wt_tenant_id x \<and> ti_amount_cents i = wt_amount_cents x"
    if "x \<in> set (wd_transactions db')" "wt_kind x = WkTopup" for x
    using cred [OF that] by (auto simp: credits_def)
  ultimately show ?thesis by blast
qed


lemma demo_first_row:
  "map (\<lambda>x. (wt_kind x, wt_amount_cents x)) (wd_transactions (serve_all (wallet_act id) demo_calls demo_books))
    = [(WkTopup, 40000), (WkCommission, -3001)]"
  by code_simp

theorem topup_holds_and_credits_witness:
  "wb_pending (serve_all (wallet_act id) demo_calls demo_books) 1 = 7000
   \<and> (\<Sum>i \<leftarrow> filter (\<lambda>i. ti_tenant_id i = 1 \<and> ti_status i = TsUnderReview)
        (wd_intents (serve_all (wallet_act id) demo_calls demo_books)). ti_amount_cents i) = 7000
   \<and> (\<exists>i. i \<in> set (wd_intents (serve_all (wallet_act id) demo_calls demo_books))
        \<and> ti_status i = TsSucceeded \<and> ti_amount_cents i = 40000)"
proof -
  let ?db = "serve_all (wallet_act id) demo_calls demo_books"
  note c = topup_holds_and_credits [OF demo_books_ok(1) refl, of id demo_calls]
  obtain x where x: "x \<in> set (wd_transactions ?db)" "wt_kind x = WkTopup" "wt_amount_cents x = 40000"
    using demo_first_row by (cases "wd_transactions ?db") auto
  then obtain i where "i \<in> set (wd_intents ?db)" "ti_status i = TsSucceeded" "ti_amount_cents i = 40000"
    using c by metis
  then show ?thesis using c demo_run by metis
qed

text \<open>What the handler of a paid order writes.\<close>

lemma commission_row:
  assumes ok: "wallets_ok db" and db': "db' = snd (handle_commission_charge_on_order_paid adm ids sl sid oid no db)"
  shows "wd_transactions db' = wd_transactions db
    \<or> (\<exists>x r c tid t. wd_transactions db' = wd_transactions db @ [x] \<and> wt_kind x = WkCommission
        \<and> wt_order_id x = Some oid \<and> wt_tenant_id x = tid \<and> map_of (sl_stores sl) sid = Some tid
        \<and> lookup_by so_id oid (sl_orders sl) = Some r \<and> lookup_by tn_id tid (wd_tenants db) = Some t
        \<and> fst (to_egp_cents sl (case so_collected_total r of Some c \<Rightarrow> c | None \<Rightarrow> so_total r) (so_currency r)) = Some c
        \<and> wt_amount_cents x = - (c * effective_commission_bps_admin adm t (wallet_of tid db) div 10000)
        \<and> wt_amount_cents x < 0)"
proof (cases "charge_commission adm ids sl sid oid no db")
  case (Inl e)
  then show ?thesis using db' by (simp add: handle_commission_charge_on_order_paid_def)
next
  case (Inr p)
  then have e: "charge_commission adm ids sl sid oid no db = Inr (fst p, db')"
    using db' by (simp add: handle_commission_charge_on_order_paid_def)
  show ?thesis
  proof (cases "db' = db")
    case False
    then obtain tid t r c m where s: "map_of (sl_stores sl) sid = Some tid" "lookup_by tn_id tid (wd_tenants db) = Some t"
        "lookup_by so_id oid (sl_orders sl) = Some r"
        "to_egp_cents sl (case so_collected_total r of Some c \<Rightarrow> c | None \<Rightarrow> so_total r) (so_currency r) = (Some c, m)"
      and "\<not> c * effective_commission_bps_admin adm t (wallet_of tid db) div commission_bps_divisor \<le> 0"
      using e by (auto simp: charge_commission_def Let_def split: option.splits if_splits prod.splits)
    then have pos: "0 < c * effective_commission_bps_admin adm t (wallet_of tid db) div 10000"
      by (simp add: commission_bps_divisor_def)
    let ?n = "c * effective_commission_bps_admin adm t (wallet_of tid db) div 10000"
    obtain a tx db1 where a: "apply_entry ids tid WkCommission (- ?n) a db = Inr (tx, db1)" "ea_order_id a = Some oid"
      and r: "(case tx of None \<Rightarrow> Inr ((None, None), db1)
              | Some x \<Rightarrow> rbind (bump_wallet (admin_limits adm) (fst ids) tid db1) (\<lambda>(level, db2).
                          Inr ((level, Some (wt_balance_after_cents x)), db2))) = Inr (fst p, db')"
      using e s False
      by (auto simp: charge_commission_def Let_def rbind_Inr_iff commission_bps_divisor_def split: if_splits)
    note as = apply_entry_spec [OF a(1) ok]
    show ?thesis
    proof (cases tx)
      case None
      then show ?thesis using r as by simp
    next
      case (Some x)
      then obtain lv where b: "bump_wallet (admin_limits adm) (fst ids) tid db1 = Inr (lv, db')"
        using r by (auto simp: rbind_Inr_iff)
      have "wallets_ok db1" using as by blast
      then have "wd_transactions db' = wd_transactions db1" using bump_wallet_spec [OF b] by blast
      moreover have "wd_transactions db1 = wd_transactions db @ [x]" using as Some by simp
      moreover have "wt_kind x = WkCommission" "wt_order_id x = Some oid" "wt_tenant_id x = tid" "wt_amount_cents x = - ?n"
        using as Some a(2) by simp_all
      ultimately show ?thesis using s pos by (intro disjI2 exI [of _ x] exI [of _ r] exI [of _ c] exI [of _ tid] exI [of _ t]) simp
    qed
  qed simp
qed

text \<open>
  C7: commissions. After any calls an order has at most one commission in the ledger. When the
  paid event of an order charges, the row is for that order and the tenant of its store, and the
  charge is the rate's basis points of what was collected, in EGP, rounded down in the merchant's
  favour; a second delivery of the event, whatever the settings, charges nothing.
\<close>

theorem commission_charged_once:
  assumes "balanced_books db" and "db' = serve_all (wallet_act sha) calls db"
    and "once = snd (handle_commission_charge_on_order_paid adm ids sl sid oid no db')"
  shows "(\<forall>x y. x \<in> set (wd_transactions db') \<longrightarrow> y \<in> set (wd_transactions db') \<longrightarrow> wt_kind x = WkCommission \<longrightarrow>
            wt_kind y = WkCommission \<longrightarrow> wt_order_id x \<noteq> None \<longrightarrow> wt_order_id x = wt_order_id y \<longrightarrow> x = y)
    \<and> (wd_transactions once \<noteq> wd_transactions db' \<longrightarrow>
        (\<exists>x r egp t bps. wd_transactions once = wd_transactions db' @ [x]
          \<and> wt_kind x = WkCommission \<and> wt_order_id x = Some oid
          \<and> map_of (sl_stores sl) sid = Some (wt_tenant_id x)
          \<and> lookup_by so_id oid (sl_orders sl) = Some r \<and> lookup_by tn_id (wt_tenant_id x) (wd_tenants db') = Some t
          \<and> fst (to_egp_cents sl (case so_collected_total r of Some c \<Rightarrow> c | None \<Rightarrow> so_total r) (so_currency r)) = Some egp
          \<and> bps = effective_commission_bps_admin adm t (wallet_of (wt_tenant_id x) db')
          \<and> wt_amount_cents x < 0 \<and> 10000 * (- wt_amount_cents x) \<le> egp * bps
          \<and> egp * bps < 10000 * (1 - wt_amount_cents x)))
    \<and> (wd_transactions once \<noteq> wd_transactions db' \<longrightarrow>
        wd_transactions (snd (handle_commission_charge_on_order_paid adm2 ids2 sl2 sid2 oid no2 once)) = wd_transactions once)"
proof -
  have "balanced_books db'" unfolding assms(2) by (rule wallet_books.serve_all_ok [OF assms(1)])
  then have b: "books_ok db'" by (simp add: balanced_books_def)
  then have w: "wallets_ok db'" by (simp add: books_ok_def)
  have "keeps db' once" unfolding assms(3) by (rule keeps_commission [OF b])
  then have b1: "books_ok once" by (rule keeps_ok)
  then have w1: "wallets_ok once" by (simp add: books_ok_def)
  let ?twice = "snd (handle_commission_charge_on_order_paid adm2 ids2 sl2 sid2 oid no2 once)"
  have w2: "wallets_ok ?twice" using keeps_ok [OF keeps_commission [OF b1]] by (simp add: books_ok_def)
  note row = commission_row [OF w assms(3)]
  have dup: "wd_transactions ?twice = wd_transactions once" if ch: "wd_transactions once \<noteq> wd_transactions db'"
  proof (rule ccontr)
    assume "wd_transactions ?twice \<noteq> wd_transactions once"
    then obtain y where y: "wd_transactions ?twice = wd_transactions once @ [y]" "wt_kind y = WkCommission"
        "wt_order_id y = Some oid" using commission_row [OF w1 refl] by blast
    obtain x where x: "wd_transactions once = wd_transactions db' @ [x]" "wt_kind x = WkCommission"
        "wt_order_id x = Some oid" using row ch by blast
    have "tx_conflict y x" using x y by (simp add: tx_conflict_def)
    moreover have "\<not> tx_conflict y x" using w2 x(1) y(1) by (simp add: wallets_ok_def sorted_wrt_append)
    ultimately show False by blast
  qed
  have fl: "10000 * (n div 10000) \<le> n \<and> n < 10000 * (1 + n div 10000)" for n :: int by presburger
  have charge: "\<exists>x r egp t bps. wd_transactions once = wd_transactions db' @ [x]
          \<and> wt_kind x = WkCommission \<and> wt_order_id x = Some oid
          \<and> map_of (sl_stores sl) sid = Some (wt_tenant_id x)
          \<and> lookup_by so_id oid (sl_orders sl) = Some r \<and> lookup_by tn_id (wt_tenant_id x) (wd_tenants db') = Some t
          \<and> fst (to_egp_cents sl (case so_collected_total r of Some c \<Rightarrow> c | None \<Rightarrow> so_total r) (so_currency r)) = Some egp
          \<and> bps = effective_commission_bps_admin adm t (wallet_of (wt_tenant_id x) db')
          \<and> wt_amount_cents x < 0 \<and> 10000 * (- wt_amount_cents x) \<le> egp * bps
          \<and> egp * bps < 10000 * (1 - wt_amount_cents x)"
    if ch: "wd_transactions once \<noteq> wd_transactions db'"
  proof -
    obtain x r c t where "wd_transactions once = wd_transactions db' @ [x]" "wt_kind x = WkCommission"
      "wt_order_id x = Some oid" "map_of (sl_stores sl) sid = Some (wt_tenant_id x)"
      "lookup_by so_id oid (sl_orders sl) = Some r" "lookup_by tn_id (wt_tenant_id x) (wd_tenants db') = Some t"
      "fst (to_egp_cents sl (case so_collected_total r of Some c \<Rightarrow> c | None \<Rightarrow> so_total r) (so_currency r)) = Some c"
      "wt_amount_cents x = - (c * effective_commission_bps_admin adm t (wallet_of (wt_tenant_id x) db') div 10000)"
      "wt_amount_cents x < 0"
      using row ch by blast
    then show ?thesis using fl [of "c * effective_commission_bps_admin adm t (wallet_of (wt_tenant_id x) db')"]
      by (intro exI [of _ x] exI [of _ r] exI [of _ c] exI [of _ t]
          exI [of _ "effective_commission_bps_admin adm t (wallet_of (wt_tenant_id x) db')"]) simp
  qed
  have once_per_order: "x = y" if "x \<in> set (wd_transactions db')" "y \<in> set (wd_transactions db')" "wt_kind x = WkCommission"
    "wt_kind y = WkCommission" "wt_order_id x \<noteq> None" "wt_order_id x = wt_order_id y" for x y
    using conflict_free [OF w that(1,2)] that(3-6) by (simp add: tx_conflict_def)
  show ?thesis
    apply (intro conjI allI impI)
    subgoal for x y by (rule once_per_order)
    subgoal by (rule charge)
    subgoal by (rule dup)
    done
qed

theorem commission_charged_once_witness:
  "(let db = serve_all (wallet_act id) (take 6 demo_calls) demo_books;
        once = snd (handle_commission_charge_on_order_paid demo_admin (30, 35) demo_sales 5 70 ''N-1'' db)
    in length (wd_transactions once) = 2
       \<and> wd_transactions (snd (handle_commission_charge_on_order_paid demo_admin (30, 36) demo_sales 5 70 ''N-1'' once))
         = wd_transactions once)"
proof -
  let ?db = "serve_all (wallet_act id) (take 6 demo_calls) demo_books"
  let ?once = "snd (handle_commission_charge_on_order_paid demo_admin (30, 35) demo_sales 5 70 ''N-1'' ?db)"
  have "(let db = ?db in length (wd_transactions db) = 1
      \<and> length (wd_transactions (snd (handle_commission_charge_on_order_paid demo_admin (30, 35) demo_sales 5 70 ''N-1'' db))) = 2)"
    by code_simp
  then have n: "length (wd_transactions ?db) = 1" "length (wd_transactions ?once) = 2" by (simp_all add: Let_def)
  then have "wd_transactions ?once \<noteq> wd_transactions ?db" by auto
  then have "wd_transactions (snd (handle_commission_charge_on_order_paid demo_admin (30, 36) demo_sales 5 70 ''N-1'' ?once))
      = wd_transactions ?once"
    using commission_charged_once [OF demo_books_ok(1) refl refl, of id "take 6 demo_calls"] by blast
  then show ?thesis using n by (simp add: Let_def)
qed

end
