(* ===== verification/Stock.thy ===== *)
theory Stock
  imports Order Tables Py_Digits
begin

text \<open>
  Stock: the tables of products, variants, locations and levels, and the write path of
  order-driven changes \<open>src/application/services/stock_service.py\<close> with its two kinds of callers, the
  creation of an order (\<open>create_order.py\<close>) and the partial acceptance of a delivery
  (\<open>api/v1/routes/stores/orders.py\<close>). A manifest line is kept in the types the code writes it with;
  the values of option dictionaries are text.
\<close>

section \<open>Tables\<close>

record combo =
  cb_options :: "(string \<times> string) list"
  cb_enabled :: json
  cb_stock :: json

text \<open>
  The attributes the code reads: the legacy combinations when they are a list (\<open>None\<close> stands for an
  element that is not an object), and the overselling switch.
\<close>

record product_row =
  pd_id :: uuid
  pd_tenant_id :: uuid
  pd_quantity :: int
  pd_combinations :: "combo option list option"
  pd_continue_selling :: bool

record variant_row =
  vr_id :: uuid
  vr_product_id :: uuid
  vr_store_id :: uuid
  vr_option_values :: "(string \<times> string) list"
  vr_inventory_quantity :: int
  vr_track_inventory :: bool

record level_row =
  lv_tenant_id :: uuid
  lv_store_id :: uuid
  lv_variant_id :: uuid
  lv_location_id :: uuid
  lv_available :: int
  lv_reserved :: int

record stock_db =
  sk_products :: "product_row list"
  sk_variants :: "variant_row list"
  sk_levels :: "level_row list"

section \<open>Which rows a line means\<close>

definition norm_options :: "(string \<times> string) list \<Rightarrow> (string \<times> string) list" where
  "norm_options d = map (\<lambda>(k, v). (lower k, lower v)) d"

text \<open>Equality of the dictionaries two pair lists build: the last value of a key counts.\<close>

definition same_dict :: "(string \<times> string) list \<Rightarrow> (string \<times> string) list \<Rightarrow> bool" where
  "same_dict a b \<longleftrightarrow> list_all (\<lambda>k. map_of (rev a) k = map_of (rev b) k) (map fst a @ map fst b)"

definition options_match :: "(string \<times> string) list \<Rightarrow> (string \<times> string) list \<Rightarrow> bool" where
  "options_match sel opts \<longleftrightarrow> same_dict (norm_options opts) (norm_options sel)"

definition resolve_variant_row ::
    "uuid \<Rightarrow> uuid option \<Rightarrow> (string \<times> string) list \<Rightarrow> stock_db \<Rightarrow> variant_row option" where
  "resolve_variant_row pid vid sel db =
     (let by_id = (case vid of
            None \<Rightarrow> None
          | Some v \<Rightarrow> (case lookup_by vr_id v (sk_variants db) of
                None \<Rightarrow> None | Some r \<Rightarrow> if vr_product_id r = pid then Some r else None));
          rows = filter (\<lambda>r. vr_product_id r = pid) (sk_variants db)
      in case by_id of
           Some r \<Rightarrow> Some r
         | None \<Rightarrow>
             if rows = [] then None
             else if sel \<noteq> [] then List.find (\<lambda>r. options_match sel (vr_option_values r)) rows
             else case List.find (\<lambda>r. vr_option_values r = []) rows of
                 Some r \<Rightarrow> Some r
               | None \<Rightarrow> (case rows of [r] \<Rightarrow> Some r | _ \<Rightarrow> None))"

definition combo_matches :: "(string \<times> string) list \<Rightarrow> combo option \<Rightarrow> bool" where
  "combo_matches sel c = (case c of None \<Rightarrow> False | Some x \<Rightarrow> options_match sel (cb_options x))"

definition find_combo :: "(string \<times> string) list \<Rightarrow> product_row \<Rightarrow> combo option" where
  "find_combo sel p =
     (if sel = [] then None
      else case pd_combinations p of
          None \<Rightarrow> None
        | Some cs \<Rightarrow> (case List.find (combo_matches sel) cs of Some (Some c) \<Rightarrow> Some c | _ \<Rightarrow> None))"

definition combo_stock :: "combo \<Rightarrow> int" where
  "combo_stock c = (case cb_stock c of
      JInt n \<Rightarrow> n
    | JBool b \<Rightarrow> (if b then 1 else 0)
    | JFloat x \<Rightarrow> trunc_rat x
    | JStr s \<Rightarrow> (if s = [] then 0 else case py_int_str s of Some n \<Rightarrow> n | None \<Rightarrow> 0)
    | _ \<Rightarrow> 0)"

fun set_first :: "('a \<Rightarrow> bool) \<Rightarrow> 'a \<Rightarrow> 'a list \<Rightarrow> 'a list" where
  "set_first P y [] = []"
| "set_first P y (x # xs) = (if P x then y # xs else x # set_first P y xs)"

definition move_combo :: "(string \<times> string) list \<Rightarrow> combo \<Rightarrow> int \<Rightarrow> product_row \<Rightarrow> product_row" where
  "move_combo sel c delta p = p\<lparr>pd_combinations := map_option (set_first (combo_matches sel)
     (Some (c\<lparr>cb_stock := JStr (int_str (combo_stock c + delta))\<rparr>))) (pd_combinations p)\<rparr>"

section \<open>The locations\<close>

definition lv_key :: "level_row \<Rightarrow> uuid \<times> uuid" where
  "lv_key l = (lv_variant_id l, lv_location_id l)"

definition most_available :: "level_row \<Rightarrow> level_row list \<Rightarrow> level_row" where
  "most_available r rs = foldl (\<lambda>m x. if lv_available m < lv_available x then x else m) r rs"

definition mirror_into_levels :: "uuid \<Rightarrow> int \<Rightarrow> level_row list \<Rightarrow> level_row list" where
  "mirror_into_levels vid delta levels = (case filter (\<lambda>l. lv_variant_id l = vid) levels of
      [] \<Rightarrow> levels
    | r # rs \<Rightarrow>
        (let target = (if delta < 0 then most_available r rs else r)
         in replace_by lv_key (target\<lparr>lv_available := max 0 (lv_available target + delta)\<rparr>) levels))"

section \<open>One line\<close>

record manifest_line =
  ml_product_id :: uuid
  ml_variant_id :: "uuid option"
  ml_selections :: "(string \<times> string) list"
  ml_quantity :: int

datatype line_refusal = NotFound | NoMatchingVariant | ComboDisabled | InsufficientStock

datatype line_outcome = LineRefused line_refusal | LineMoved manifest_line

text \<open>The count the guard of a debit reads.\<close>

definition guard_count :: "product_row \<Rightarrow> combo option \<Rightarrow> variant_row option \<Rightarrow> uuid option \<Rightarrow> int" where
  "guard_count p c v vid = (case c of
      Some x \<Rightarrow> combo_stock x
    | None \<Rightarrow> (case v of
          Some r \<Rightarrow> if Some (vr_id r) = vid then vr_inventory_quantity r else pd_quantity p
        | None \<Rightarrow> pd_quantity p))"

definition move_product ::
    "(string \<times> string) list \<Rightarrow> combo option \<Rightarrow> int \<Rightarrow> product_row \<Rightarrow> product_row" where
  "move_product sel c delta p =
     (let p1 = p\<lparr>pd_quantity := pd_quantity p + delta\<rparr>
      in case c of None \<Rightarrow> p1 | Some x \<Rightarrow> move_combo sel x delta p1)"

definition write_line :: "product_row \<Rightarrow> variant_row option \<Rightarrow> int \<Rightarrow> stock_db \<Rightarrow> stock_db" where
  "write_line p v delta db =
     (let db1 = db\<lparr>sk_products := replace_by pd_id p (sk_products db)\<rparr>
      in case v of
           None \<Rightarrow> db1
         | Some r \<Rightarrow> db1\<lparr>
             sk_variants := replace_by vr_id
               (r\<lparr>vr_inventory_quantity := vr_inventory_quantity r + delta\<rparr>) (sk_variants db1),
             sk_levels := mirror_into_levels (vr_id r) delta (sk_levels db1)\<rparr>)"

definition apply_line_delta ::
    "uuid \<Rightarrow> uuid \<Rightarrow> uuid option \<Rightarrow> (string \<times> string) list \<Rightarrow> int \<Rightarrow> bool \<Rightarrow> stock_db
      \<Rightarrow> line_outcome \<times> stock_db" where
  "apply_line_delta tid pid vid sel delta allow_negative db =
     (case List.find (\<lambda>p. pd_id p = pid \<and> pd_tenant_id p = tid) (sk_products db) of
        None \<Rightarrow> (LineRefused NotFound, db)
      | Some p \<Rightarrow>
         (let c = find_combo sel p; v = resolve_variant_row pid vid sel db in
          if delta < 0 \<and> sel \<noteq> [] \<and> c = None then (LineRefused NoMatchingVariant, db)
          else if delta < 0 \<and> (case c of None \<Rightarrow> False | Some x \<Rightarrow> cb_enabled x = JBool False)
          then (LineRefused ComboDisabled, db)
          else if delta < 0 \<and> \<not> allow_negative \<and> guard_count p c v vid < - delta
          then (LineRefused InsufficientStock, db)
          else (LineMoved \<lparr>ml_product_id = pid, ml_variant_id = map_option vr_id v,
                  ml_selections = sel, ml_quantity = \<bar>delta\<bar>\<rparr>,
                write_line (move_product sel c delta p) v delta db)))"

definition debit_order_line ::
    "uuid \<Rightarrow> uuid \<Rightarrow> uuid option \<Rightarrow> (string \<times> string) list \<Rightarrow> int \<Rightarrow> bool \<Rightarrow> stock_db
      \<Rightarrow> line_outcome \<times> stock_db" where
  "debit_order_line tid pid vid sel quantity allow_negative db =
     apply_line_delta tid pid vid sel (- quantity) allow_negative db"

section \<open>Restocking\<close>

definition restock_line :: "uuid \<Rightarrow> manifest_line \<Rightarrow> nat \<times> stock_db \<Rightarrow> nat \<times> stock_db" where
  "restock_line tid m s =
     (if ml_quantity m \<le> 0 then s
      else case apply_line_delta tid (ml_product_id m) (ml_variant_id m) (ml_selections m)
             (ml_quantity m) True (snd s) of
          (LineMoved _, db') \<Rightarrow> (fst s + 1, db')
        | (LineRefused _, db') \<Rightarrow> (fst s, db'))"

definition restock_lines :: "uuid \<Rightarrow> manifest_line list \<Rightarrow> stock_db \<Rightarrow> nat \<times> stock_db" where
  "restock_lines tid lines db = fold (restock_line tid) lines (0, db)"

definition line_covers :: "manifest_line \<Rightarrow> manifest_line \<Rightarrow> bool" where
  "line_covers d m \<longleftrightarrow> ml_product_id m = ml_product_id d
     \<and> \<not> (ml_variant_id d \<noteq> None \<and> ml_variant_id m \<noteq> None \<and> ml_variant_id m \<noteq> ml_variant_id d)"

text \<open>One returned entry taken off the manifest, line by line.\<close>

fun take_off :: "int \<Rightarrow> manifest_line \<Rightarrow> manifest_line list \<Rightarrow> manifest_line list" where
  "take_off qty d [] = []"
| "take_off qty d (m # ms) =
     (if qty \<le> 0 then m # ms
      else if \<not> line_covers d m then m # take_off qty d ms
      else (let t = min qty (ml_quantity m)
            in m\<lparr>ml_quantity := ml_quantity m - t\<rparr> # take_off (qty - t) d ms))"

definition minus_restocked :: "manifest_line list \<Rightarrow> manifest_line list \<Rightarrow> manifest_line list" where
  "minus_restocked lines restocked = fold (\<lambda>d. take_off (ml_quantity d) d) restocked lines"

record debit_manifest =
  dm_lines :: "manifest_line list"
  dm_at :: instant

definition build_debit_manifest :: "instant \<Rightarrow> manifest_line list \<Rightarrow> debit_manifest" where
  "build_debit_manifest now lines = \<lparr>dm_lines = lines, dm_at = now\<rparr>"

text \<open>The stock entries of \<open>order.metadata\<close>.\<close>

record stock_note =
  sn_debited :: "debit_manifest option"
  sn_restocked_at :: "instant option"
  sn_restock_reason :: "string option"
  sn_restocked_lines :: "manifest_line list"

definition no_stock_note :: stock_note where
  "no_stock_note = \<lparr>sn_debited = None, sn_restocked_at = None, sn_restock_reason = None, sn_restocked_lines = []\<rparr>"

definition manifest_of :: "stock_note \<Rightarrow> manifest_line list" where
  "manifest_of n = (case sn_debited n of None \<Rightarrow> [] | Some d \<Rightarrow> dm_lines d)"

definition restock_order ::
    "instant \<Rightarrow> uuid \<Rightarrow> string option \<Rightarrow> stock_note \<Rightarrow> stock_db \<Rightarrow> bool \<times> stock_note \<times> stock_db" where
  "restock_order now tid reason n db =
     (if manifest_of n = [] then (False, n, db)
      else if sn_restocked_at n \<noteq> None then (False, n, db)
      else (let (restored, db') = restock_lines tid (minus_restocked (manifest_of n) (sn_restocked_lines n)) db;
                n1 = n\<lparr>sn_restocked_at := Some now\<rparr>
            in (True, if truthy_str reason then n1\<lparr>sn_restock_reason := reason\<rparr> else n1, db')))"

section \<open>The callers\<close>

text \<open>Creating an order: untracked variants are passed over, and one refused line refuses the order.\<close>

fun debit_stock :: "uuid \<Rightarrow> order_line_item list \<Rightarrow> stock_db \<Rightarrow> (manifest_line list \<times> stock_db) result" where
  "debit_stock tid [] db = Inr ([], db)"
| "debit_stock tid (li # lis) db =
     (case lookup_by pd_id (ol_product_id li) (sk_products db) of
        None \<Rightarrow> debit_stock tid lis db
      | Some p \<Rightarrow>
          if (case ol_variant_id li of
                None \<Rightarrow> False
              | Some v \<Rightarrow> (case lookup_by vr_id v (sk_variants db) of
                    None \<Rightarrow> False | Some r \<Rightarrow> \<not> vr_track_inventory r))
          then debit_stock tid lis db
          else (case debit_order_line tid (ol_product_id li) (ol_variant_id li) [] (ol_quantity li)
                       (pd_continue_selling p) db of
                (LineRefused _, db') \<Rightarrow> Inl (ValidationError ''Insufficient stock'')
              | (LineMoved e, db') \<Rightarrow>
                  rbind (debit_stock tid lis db') (\<lambda>(es, db''). Inr (e # es, db''))))"

text \<open>What the creation of an order does to stock and to the order's metadata.\<close>

definition place_stock ::
    "instant \<Rightarrow> bool \<Rightarrow> uuid \<Rightarrow> order_line_item list \<Rightarrow> stock_db \<Rightarrow> (stock_note \<times> stock_db) result" where
  "place_stock now as_draft tid lis db =
     (if as_draft then Inr (no_stock_note, db)
      else rbind (debit_stock tid lis db) (\<lambda>(debited, db').
        Inr (if debited = [] then no_stock_note
             else no_stock_note\<lparr>sn_debited := Some (build_debit_manifest now debited)\<rparr>, db')))"

text \<open>The pieces of a partial acceptance: they are put back and noted, whatever the manifest says.\<close>

definition restock_returned ::
    "uuid \<Rightarrow> manifest_line list \<Rightarrow> stock_note \<Rightarrow> stock_db \<Rightarrow> stock_note \<times> stock_db" where
  "restock_returned tid lines n db =
     (let (restocked, db') = restock_lines tid lines db
      in (n\<lparr>sn_restocked_lines := sn_restocked_lines n @ lines\<rparr>, db'))"

section \<open>One line moves every count by the same amount\<close>

definition stock_count :: "stock_db \<Rightarrow> uuid \<Rightarrow> int" where
  "stock_count db pid = (case lookup_by pd_id pid (sk_products db) of None \<Rightarrow> 0 | Some p \<Rightarrow> pd_quantity p)"

definition variant_count :: "stock_db \<Rightarrow> uuid \<Rightarrow> int" where
  "variant_count db vid =
     (case lookup_by vr_id vid (sk_variants db) of None \<Rightarrow> 0 | Some r \<Rightarrow> vr_inventory_quantity r)"

definition keys_distinct :: "stock_db \<Rightarrow> bool" where
  "keys_distinct db \<longleftrightarrow> distinct (map pd_id (sk_products db)) \<and> distinct (map vr_id (sk_variants db))"

definition vr_shape :: "variant_row \<Rightarrow> uuid \<times> uuid \<times> (string \<times> string) list" where
  "vr_shape r = (vr_id r, vr_product_id r, vr_option_values r)"

text \<open>The identities of the rows, which no stock change touches.\<close>

definition same_rows :: "stock_db \<Rightarrow> stock_db \<Rightarrow> bool" where
  "same_rows db db' \<longleftrightarrow> map (\<lambda>p. (pd_id p, pd_tenant_id p)) (sk_products db') = map (\<lambda>p. (pd_id p, pd_tenant_id p)) (sk_products db)
     \<and> map vr_shape (sk_variants db') = map vr_shape (sk_variants db)"

definition owned :: "stock_db \<Rightarrow> uuid \<Rightarrow> uuid \<Rightarrow> bool" where
  "owned db tid pid \<longleftrightarrow> (pid, tid) \<in> set (map (\<lambda>p. (pd_id p, pd_tenant_id p)) (sk_products db))"

lemma same_rows_refl [simp]: "same_rows db db"
  by (simp add: same_rows_def)

lemma same_rows_trans: "same_rows a b \<Longrightarrow> same_rows b c \<Longrightarrow> same_rows a c"
  by (simp add: same_rows_def)

lemma same_rows_owned: "same_rows db db' \<Longrightarrow> owned db' = owned db"
  unfolding owned_def same_rows_def by (intro ext) metis

lemma same_rows_ids:
  assumes "same_rows db db'"
  shows "map pd_id (sk_products db') = map pd_id (sk_products db)" "map vr_id (sk_variants db') = map vr_id (sk_variants db)"
proof -
  have "map fst (map (\<lambda>p. (pd_id p, pd_tenant_id p)) (sk_products db')) = map fst (map (\<lambda>p. (pd_id p, pd_tenant_id p)) (sk_products db))"
    and "map fst (map vr_shape (sk_variants db')) = map fst (map vr_shape (sk_variants db))"
    using assms by (simp_all only: same_rows_def)
  then show "map pd_id (sk_products db') = map pd_id (sk_products db)" "map vr_id (sk_variants db') = map vr_id (sk_variants db)"
    by (simp_all add: comp_def vr_shape_def)
qed

lemma same_rows_keys: "same_rows db db' \<Longrightarrow> keys_distinct db \<Longrightarrow> keys_distinct db'"
  by (simp add: keys_distinct_def same_rows_ids)

lemma find_both_keys:
  assumes "distinct (map pd_id ps)"
  shows "List.find (\<lambda>p. pd_id p = pid \<and> pd_tenant_id p = tid) ps
    = (case lookup_by pd_id pid ps of Some p \<Rightarrow> if pd_tenant_id p = tid then Some p else None | None \<Rightarrow> None)"
  using assms
proof (induction ps)
  case (Cons a ps)
  have "List.find (\<lambda>p. pd_id p = pid \<and> pd_tenant_id p = tid) ps = None" if "pd_id a = pid"
    using Cons.prems that by (auto simp: find_None_iff image_iff)
  then show ?case using Cons by auto
qed simp

lemma resolve_in:
  assumes "resolve_variant_row pid vid sel db = Some r"
  shows "r \<in> set (sk_variants db) \<and> vr_product_id r = pid"
  using assms by (auto simp: resolve_variant_row_def Let_def find_Some_iff filter_eq_Cons_iff lookup_by_def
      split: option.splits if_splits list.splits dest!: nth_mem)

lemma move_product_simps [simp]:
  "pd_id (move_product sel c d p) = pd_id p" "pd_tenant_id (move_product sel c d p) = pd_tenant_id p"
  "pd_quantity (move_product sel c d p) = pd_quantity p + d"
  by (simp_all add: move_product_def move_combo_def Let_def split: option.split)

text \<open>The rows an accepted line changes.\<close>

lemma line_moved:
  assumes l: "apply_line_delta tid pid vid sel delta neg db = (LineMoved e, db')" and k: "keys_distinct db"
  obtains p where "lookup_by pd_id pid (sk_products db) = Some p" "pd_tenant_id p = tid"
    "same_rows db db'"
    "\<And>q. stock_count db' q = stock_count db q + (if q = pid then delta else 0)"
    "\<And>w. variant_count db' w = variant_count db w
        + (if Some w = map_option vr_id (resolve_variant_row pid vid sel db) then delta else 0)"
    "e = \<lparr>ml_product_id = pid, ml_variant_id = map_option vr_id (resolve_variant_row pid vid sel db),
          ml_selections = sel, ml_quantity = \<bar>delta\<bar>\<rparr>"
    "delta < 0 \<Longrightarrow> \<not> neg \<Longrightarrow> 0 \<le> guard_count p (find_combo sel p) (resolve_variant_row pid vid sel db) vid + delta"
    "delta < 0 \<Longrightarrow> sel \<noteq> [] \<Longrightarrow> find_combo sel p \<noteq> None"
    "sk_products db' = replace_by pd_id (move_product sel (find_combo sel p) delta p) (sk_products db)"
proof -
  have dp: "distinct (map pd_id (sk_products db))" and dv: "distinct (map vr_id (sk_variants db))"
    using k by (simp_all add: keys_distinct_def)
  obtain p where f: "List.find (\<lambda>p. pd_id p = pid \<and> pd_tenant_id p = tid) (sk_products db) = Some p"
    using l by (auto simp: apply_line_delta_def split: option.splits)
  then have p: "lookup_by pd_id pid (sk_products db) = Some p" "pd_tenant_id p = tid"
    unfolding find_both_keys [OF dp] by (auto split: option.splits if_splits)
  have pid: "pd_id p = pid" "p \<in> set (sk_products db)" using lookup_by_in [OF p(1)] by simp_all
  define c where "c = find_combo sel p"
  define v where "v = resolve_variant_row pid vid sel db"
  define p2 where "p2 = move_product sel c delta p"
  have p2: "pd_id p2 = pid" "pd_tenant_id p2 = tid" "pd_quantity p2 = pd_quantity p + delta"
    using pid p(2) by (simp_all add: p2_def)
  note body = l [unfolded apply_line_delta_def f option.case Let_def, folded c_def v_def p2_def]
  have out: "e = \<lparr>ml_product_id = pid, ml_variant_id = map_option vr_id v, ml_selections = sel, ml_quantity = \<bar>delta\<bar>\<rparr>"
    "delta < 0 \<Longrightarrow> \<not> neg \<Longrightarrow> 0 \<le> guard_count p c v vid + delta" "delta < 0 \<Longrightarrow> sel \<noteq> [] \<Longrightarrow> c \<noteq> None"
    and db': "db' = write_line p2 v delta db"
    using body by (simp_all add: p2_def split: if_splits)
  have prods: "sk_products db' = replace_by pd_id p2 (sk_products db)" by (simp add: db' write_line_def Let_def split: option.split)
  have st: "stock_count db' q = stock_count db q + (if q = pid then delta else 0)" for q
    using p(1) p2 by (simp add: stock_count_def prods lookup_replace)
  have vin: "lookup_by vr_id (vr_id r) (sk_variants db) = Some r" if "v = Some r" for r
    using resolve_in [OF that [unfolded v_def]] by (simp add: lookup_by_Some [OF dv])
  have vt: "variant_count db' w = variant_count db w + (if Some w = map_option vr_id v then delta else 0)" for w
  proof (cases v)
    case None
    then show ?thesis by (simp add: db' write_line_def variant_count_def)
  next
    case (Some r)
    then show ?thesis using vin [OF Some] by (simp add: db' write_line_def variant_count_def lookup_replace)
  qed
  have "map (\<lambda>p. (pd_id p, pd_tenant_id p)) (sk_products db') = map (\<lambda>p. (pd_id p, pd_tenant_id p)) (sk_products db)"
    unfolding prods
  proof (rule map_column_replace)
    fix x assume "x \<in> set (sk_products db)" "pd_id x = pd_id p2"
    then have "x = p" using distinct_key_eq [OF dp] pid p2(1) by simp
    then show "(pd_id x, pd_tenant_id x) = (pd_id p2, pd_tenant_id p2)" using p2 pid p(2) by simp
  qed
  moreover have "map vr_shape (sk_variants db') = map vr_shape (sk_variants db)"
  proof (cases v)
    case (Some r)
    let ?r = "r\<lparr>vr_inventory_quantity := vr_inventory_quantity r + delta\<rparr>"
    have "map vr_shape (replace_by vr_id ?r (sk_variants db)) = map vr_shape (sk_variants db)"
    proof (rule map_column_replace)
      fix x assume x: "x \<in> set (sk_variants db)" "vr_id x = vr_id ?r"
      moreover have "r \<in> set (sk_variants db)" using resolve_in Some by (auto simp: v_def)
      ultimately have "x = r" using distinct_key_eq [OF dv] by simp
      then show "vr_shape x = vr_shape ?r" by (simp add: vr_shape_def)
    qed
    then show ?thesis using Some by (simp add: db' write_line_def)
  qed (simp add: db' write_line_def)
  ultimately have "same_rows db db'" by (simp add: same_rows_def)
  from that [OF p this st] show thesis using vt out prods by (simp add: c_def v_def p2_def)
qed

lemma line_refused: "apply_line_delta tid pid vid sel delta neg db = (LineRefused r, db') \<Longrightarrow> db' = db"
  by (auto simp: apply_line_delta_def Let_def split: option.splits if_splits)

text \<open>A line put back is refused only when its product is gone.\<close>

lemma restock_never_refused:
  assumes "keys_distinct db" "0 < delta"
  shows "(\<exists>e db'. apply_line_delta tid pid vid sel delta neg db = (LineMoved e, db')) \<longleftrightarrow> owned db tid pid"
proof -
  have dp: "distinct (map pd_id (sk_products db))" using assms(1) by (simp add: keys_distinct_def)
  have "List.find (\<lambda>p. pd_id p = pid \<and> pd_tenant_id p = tid) (sk_products db) = None \<longleftrightarrow> \<not> owned db tid pid"
    by (auto simp: find_None_iff owned_def image_iff)
  then show ?thesis using assms(2)
    by (cases "List.find (\<lambda>p. pd_id p = pid \<and> pd_tenant_id p = tid) (sk_products db)")
      (auto simp: apply_line_delta_def Let_def)
qed

section \<open>Manifests\<close>

definition product_units :: "manifest_line list \<Rightarrow> uuid \<Rightarrow> int" where
  "product_units ms pid = sum_list (map (\<lambda>m. if ml_product_id m = pid then ml_quantity m else 0) ms)"

definition variant_units :: "manifest_line list \<Rightarrow> uuid \<Rightarrow> int" where
  "variant_units ms vid = sum_list (map (\<lambda>m. if ml_variant_id m = Some vid then ml_quantity m else 0) ms)"

lemma units_simps [simp]:
  "product_units [] p = 0" "variant_units [] v = 0"
  "product_units (m # ms) p = (if ml_product_id m = p then ml_quantity m else 0) + product_units ms p"
  "variant_units (m # ms) v = (if ml_variant_id m = Some v then ml_quantity m else 0) + variant_units ms v"
  "product_units (ms @ ns) p = product_units ms p + product_units ns p"
  "variant_units (ms @ ns) v = variant_units ms v + variant_units ns v"
  by (simp_all add: product_units_def variant_units_def)

lemma units_nonneg:
  "\<forall>m\<in>set ms. 0 \<le> ml_quantity m \<Longrightarrow> 0 \<le> product_units ms p"
  by (induction ms) simp_all

text \<open>Taking a returned entry off never takes more than it holds, and only from its own product.\<close>

lemma take_off_units:
  assumes "\<forall>m\<in>set ms. 0 \<le> ml_quantity m"
  shows "product_units ms p - (if p = ml_product_id d then max 0 qty else 0) \<le> product_units (take_off qty d ms) p
    \<and> product_units (take_off qty d ms) p \<le> product_units ms p
    \<and> (p \<noteq> ml_product_id d \<longrightarrow> product_units (take_off qty d ms) p = product_units ms p)
    \<and> (\<forall>m\<in>set (take_off qty d ms). 0 \<le> ml_quantity m \<and> ml_product_id m \<in> ml_product_id ` set ms)"
  using assms
proof (induction qty d ms rule: take_off.induct)
  case (2 qty d m ms)
  consider "qty \<le> 0" | "0 < qty" "\<not> line_covers d m" | "0 < qty" "line_covers d m" by linarith
  then show ?case
  proof cases
    case 2
    then have "\<forall>x\<in>set ms. 0 \<le> ml_quantity x" using "2.prems" by simp
    with "2.IH"(1) 2 "2.prems" show ?thesis by auto
  next
    case 3
    define t where "t = min qty (ml_quantity m)"
    have nn: "\<forall>x\<in>set ms. 0 \<le> ml_quantity x" using "2.prems" by simp
    have ih: "product_units ms p - (if p = ml_product_id d then max 0 (qty - t) else 0) \<le> product_units (take_off (qty - t) d ms) p
        \<and> product_units (take_off (qty - t) d ms) p \<le> product_units ms p
        \<and> (p \<noteq> ml_product_id d \<longrightarrow> product_units (take_off (qty - t) d ms) p = product_units ms p)
        \<and> (\<forall>m\<in>set (take_off (qty - t) d ms). 0 \<le> ml_quantity m \<and> ml_product_id m \<in> ml_product_id ` set ms)"
      by (rule "2.IH"(2)) (use 3 nn in \<open>simp_all add: t_def\<close>)
    have e: "take_off qty d (m # ms) = m\<lparr>ml_quantity := ml_quantity m - t\<rparr> # take_off (qty - t) d ms"
      using 3 by (simp add: t_def Let_def)
    have t: "0 \<le> t" "t \<le> qty" "t \<le> ml_quantity m" using 3 "2.prems" by (auto simp: t_def)
    have "ml_product_id m = ml_product_id d" using 3 by (simp add: line_covers_def)
    then show ?thesis unfolding e using ih t by (auto simp: max_def)
  qed (use "2.prems" in auto)
qed simp

lemma minus_restocked_units:
  assumes "\<forall>m\<in>set ms. 0 \<le> ml_quantity m"
  shows "product_units ms p - sum_list (map (\<lambda>d. if ml_product_id d = p then max 0 (ml_quantity d) else 0) ds)
      \<le> product_units (minus_restocked ms ds) p
    \<and> product_units (minus_restocked ms ds) p \<le> product_units ms p
    \<and> (\<forall>m\<in>set (minus_restocked ms ds). 0 \<le> ml_quantity m \<and> ml_product_id m \<in> ml_product_id ` set ms)"
  using assms
proof (induction ds arbitrary: ms)
  case (Cons d ds)
  let ?ms = "take_off (ml_quantity d) d ms"
  note t = take_off_units [OF Cons.prems, of p d "ml_quantity d"]
  have "\<forall>m\<in>set ?ms. 0 \<le> ml_quantity m" using t by blast
  from Cons.IH [OF this] t show ?case by (fastforce simp: minus_restocked_def)
qed (simp add: minus_restocked_def)

lemma take_off_keeps:
  "map (\<lambda>m. (ml_product_id m, ml_variant_id m, ml_selections m)) (take_off q d ms)
    = map (\<lambda>m. (ml_product_id m, ml_variant_id m, ml_selections m)) ms"
  by (induction q d ms rule: take_off.induct) (simp_all add: Let_def)

section \<open>Putting lines back\<close>

text \<open>The rows a manifest line names: its product under the tenant, and its variant or none.\<close>

definition line_known :: "stock_db \<Rightarrow> uuid \<Rightarrow> manifest_line \<Rightarrow> bool" where
  "line_known db tid m \<longleftrightarrow> owned db tid (ml_product_id m)
     \<and> map_option vr_id (resolve_variant_row (ml_product_id m) (ml_variant_id m) (ml_selections m) db) = ml_variant_id m"

lemma map_find: "map_option f (List.find P xs) = map_option f (List.find Q ys)"
  if "map g xs = map g ys" "\<And>x. P x = R (g x)" "\<And>y. Q y = R (g y)" "\<And>x. f x = h (g x)"
  using that(1)
proof (induction xs arbitrary: ys)
  case (Cons x xs)
  then obtain y ys' where y: "ys = y # ys'" "g y = g x" "map g xs = map g ys'" by (cases ys) auto
  then show ?case using Cons.IH [OF y(3)] that(2-4) by simp
qed simp

lemma filter_shape:
  assumes "map g xs = map g ys" "\<And>x. P x = R (g x)"
  shows "map g (filter P xs) = map g (filter P ys)"
  using assms(1)
proof (induction xs arbitrary: ys)
  case (Cons x xs)
  then obtain y ys' where "ys = y # ys'" "g y = g x" "map g xs = map g ys'" by (cases ys) auto
  then show ?case using Cons.IH assms(2) by simp
qed simp

lemma resolve_shape:
  assumes "same_rows db db'"
  shows "map_option vr_id (resolve_variant_row pid vid sel db') = map_option vr_id (resolve_variant_row pid vid sel db)"
proof -
  have s: "map vr_shape (sk_variants db') = map vr_shape (sk_variants db)" using assms by (simp add: same_rows_def)
  define by_id where "by_id d = (case vid of
            None \<Rightarrow> None
          | Some v \<Rightarrow> (case lookup_by vr_id v (sk_variants d) of
                None \<Rightarrow> None | Some r \<Rightarrow> if vr_product_id r = pid then Some r else None))" for d :: stock_db
  define rows where "rows d = filter (\<lambda>r. vr_product_id r = pid) (sk_variants d)" for d :: stock_db
  have rows: "map vr_shape (rows db') = map vr_shape (rows db)"
    unfolding rows_def by (rule filter_shape [OF s, of _ "\<lambda>x. fst (snd x) = pid"]) (simp add: vr_shape_def)
  have look: "map_option vr_shape (lookup_by vr_id v (sk_variants db')) = map_option vr_shape (lookup_by vr_id v (sk_variants db))" for v
    unfolding lookup_by_def
    by (rule map_find [OF s, of _ "\<lambda>x. fst x = v" _ _ "\<lambda>x. x"]) (simp_all add: vr_shape_def)
  have by_id: "map_option vr_id (by_id db') = map_option vr_id (by_id db)"
  proof (cases vid)
    case (Some v)
    then show ?thesis using look [of v]
      by (cases "lookup_by vr_id v (sk_variants db')"; cases "lookup_by vr_id v (sk_variants db)")
        (auto simp: by_id_def vr_shape_def)
  qed (simp add: by_id_def)
  have opt: "map_option vr_id (List.find (\<lambda>r. options_match sel (vr_option_values r)) (rows db'))
      = map_option vr_id (List.find (\<lambda>r. options_match sel (vr_option_values r)) (rows db))"
    by (rule map_find [OF rows, of _ "\<lambda>x. options_match sel (snd (snd x))" _ _ fst]) (simp_all add: vr_shape_def)
  have dflt: "map_option vr_id (List.find (\<lambda>r. vr_option_values r = []) (rows db'))
      = map_option vr_id (List.find (\<lambda>r. vr_option_values r = []) (rows db))"
    by (rule map_find [OF rows, of _ "\<lambda>x. snd (snd x) = []" _ _ fst]) (simp_all add: vr_shape_def)
  have len: "length (rows db') = length (rows db)" using rows by (metis length_map)
  have one: "map_option vr_id (case rows db' of [r] \<Rightarrow> Some r | _ \<Rightarrow> None)
      = map_option vr_id (case rows db of [r] \<Rightarrow> Some r | _ \<Rightarrow> None)"
    using rows by (auto split: list.split simp: vr_shape_def)
  have def: "resolve_variant_row pid vid sel d = (case by_id d of Some r \<Rightarrow> Some r | None \<Rightarrow>
             if rows d = [] then None
             else if sel \<noteq> [] then List.find (\<lambda>r. options_match sel (vr_option_values r)) (rows d)
             else case List.find (\<lambda>r. vr_option_values r = []) (rows d) of
                 Some r \<Rightarrow> Some r | None \<Rightarrow> (case rows d of [r] \<Rightarrow> Some r | _ \<Rightarrow> None))" for d
    by (simp only: resolve_variant_row_def by_id_def rows_def Let_def)
  have e: "(rows db' = []) = (rows db = [])" using len by auto
  show ?thesis unfolding def e using by_id opt dflt one
    by (cases "by_id db"; cases "by_id db'"; cases "List.find (\<lambda>r. vr_option_values r = []) (rows db)";
        cases "List.find (\<lambda>r. vr_option_values r = []) (rows db')") auto
qed

lemma line_known_same: "same_rows db db' \<Longrightarrow> line_known db' tid m = line_known db tid m"
  by (simp add: line_known_def same_rows_owned resolve_shape)

text \<open>What putting lines back adds, per product and, for lines that name their variant, per variant.\<close>

lemma restock_line_effect:
  assumes k: "keys_distinct (snd s)" and q: "0 \<le> ml_quantity m" and r: "restock_line tid m s = s'"
  shows "same_rows (snd s) (snd s')
    \<and> stock_count (snd s') p = stock_count (snd s) p
        + (if ml_product_id m = p \<and> owned (snd s) tid p then ml_quantity m else 0)
    \<and> (line_known (snd s) tid m \<longrightarrow> variant_count (snd s') v = variant_count (snd s) v
        + (if ml_variant_id m = Some v then ml_quantity m else 0))"
proof (cases "0 < ml_quantity m \<and> owned (snd s) tid (ml_product_id m)")
  case True
  obtain e db' where a: "apply_line_delta tid (ml_product_id m) (ml_variant_id m) (ml_selections m) (ml_quantity m) True (snd s)
      = (LineMoved e, db')"
    using restock_never_refused [OF k] True by blast
  then have s': "snd s' = db'" using r True by (auto simp: restock_line_def)
  from line_moved [OF a k] obtain
    rows: "same_rows (snd s) db'"
    and st: "\<And>q. stock_count db' q = stock_count (snd s) q + (if q = ml_product_id m then ml_quantity m else 0)"
    and vt: "\<And>w. variant_count db' w = variant_count (snd s) w + (if Some w = map_option vr_id
        (resolve_variant_row (ml_product_id m) (ml_variant_id m) (ml_selections m) (snd s)) then ml_quantity m else 0)"
    by blast
  show ?thesis using rows st [of p] vt [of v] True by (auto simp: s' line_known_def)
next
  case False
  have "snd s' = snd s"
  proof (cases "ml_quantity m \<le> 0")
    case True
    then show ?thesis using r by (auto simp: restock_line_def)
  next
    case pos: False
    then have no: "\<not> (\<exists>e db'. apply_line_delta tid (ml_product_id m) (ml_variant_id m) (ml_selections m) (ml_quantity m) True (snd s)
        = (LineMoved e, db'))" using restock_never_refused [OF k, of "ml_quantity m"] False by auto
    obtain out db' where a: "apply_line_delta tid (ml_product_id m) (ml_variant_id m) (ml_selections m) (ml_quantity m) True (snd s)
        = (out, db')" by fastforce
    then obtain f where "out = LineRefused f" using no by (cases out) auto
    then show ?thesis using a line_refused r pos by (auto simp: restock_line_def)
  qed
  then show ?thesis using False q by (auto simp: line_known_def)
qed

lemma restock_lines_effect:
  assumes "keys_distinct db" "\<forall>m\<in>set ms. 0 \<le> ml_quantity m"
  shows "same_rows db (snd (restock_lines tid ms db))
    \<and> stock_count (snd (restock_lines tid ms db)) p
        = stock_count db p + (if owned db tid p then product_units ms p else 0)
    \<and> ((\<forall>m\<in>set ms. line_known db tid m) \<longrightarrow>
        variant_count (snd (restock_lines tid ms db)) v = variant_count db v + variant_units ms v)"
proof -
  have "same_rows (snd s) (snd (fold (restock_line tid) ms s))
    \<and> stock_count (snd (fold (restock_line tid) ms s)) p
        = stock_count (snd s) p + (if owned (snd s) tid p then product_units ms p else 0)
    \<and> ((\<forall>m\<in>set ms. line_known (snd s) tid m) \<longrightarrow>
        variant_count (snd (fold (restock_line tid) ms s)) v = variant_count (snd s) v + variant_units ms v)"
    if "keys_distinct (snd s)" for s
    using that assms(2)
  proof (induction ms arbitrary: s)
    case (Cons m ms)
    let ?s = "restock_line tid m s"
    have "0 \<le> ml_quantity m" using Cons.prems by simp
    note e = restock_line_effect [OF Cons.prems(1) this refl, of tid p v]
    then have rows: "same_rows (snd s) (snd ?s)" by blast
    have "\<forall>m\<in>set ms. 0 \<le> ml_quantity m" using Cons.prems by simp
    note ih = Cons.IH [OF same_rows_keys [OF rows Cons.prems(1)] this]
    have own: "owned (snd ?s) = owned (snd s)" by (rule same_rows_owned [OF rows])
    show ?case using e ih same_rows_trans [OF rows] own line_known_same [OF rows, of tid] by simp
  qed simp
  from this [of "(0, db)"] assms(1) show ?thesis by (simp add: restock_lines_def)
qed

text \<open>What the lines of a new order take, and the manifest that records it.\<close>

lemma resolved_known:
  assumes "keys_distinct db" "owned db tid pid"
  shows "line_known db tid \<lparr>ml_product_id = pid, ml_variant_id = map_option vr_id (resolve_variant_row pid vid sel db),
      ml_selections = sel, ml_quantity = q\<rparr>"
proof (cases "resolve_variant_row pid vid sel db")
  case None
  then have "resolve_variant_row pid None sel db = None"
    by (auto simp: resolve_variant_row_def Let_def split: option.splits if_splits)
  then show ?thesis using None assms(2) by (simp add: line_known_def)
next
  case (Some r)
  have "lookup_by vr_id (vr_id r) (sk_variants db) = Some r" "vr_product_id r = pid"
    using resolve_in [OF Some] assms(1) by (simp_all add: keys_distinct_def lookup_by_Some)
  then have "resolve_variant_row pid (Some (vr_id r)) sel db = Some r" by (simp add: resolve_variant_row_def Let_def)
  then show ?thesis using Some assms(2) by (simp add: line_known_def)
qed

text \<open>A debit that the entries \<open>es\<close> record: what left the counts is what they name.\<close>

definition debited_by :: "uuid \<Rightarrow> manifest_line list \<Rightarrow> stock_db \<Rightarrow> stock_db \<Rightarrow> bool" where
  "debited_by tid es db db' \<longleftrightarrow> same_rows db db' \<and> (\<forall>m\<in>set es. 0 \<le> ml_quantity m \<and> line_known db tid m)
     \<and> (\<forall>p. stock_count db' p + product_units es p = stock_count db p)
     \<and> (\<forall>v. variant_count db' v + variant_units es v = variant_count db v)"

lemma debited_Nil [simp]: "debited_by tid [] db db"
  by (simp add: debited_by_def)

lemma debited_Cons:
  assumes "debit_order_line tid pid vid sel q neg db = (LineMoved e, d1)" "keys_distinct db" "0 < q"
    and rest: "debited_by tid es d1 db'"
  shows "debited_by tid (e # es) db db'"
proof -
  have a: "apply_line_delta tid pid vid sel (- q) neg db = (LineMoved e, d1)"
    using assms(1) by (simp add: debit_order_line_def)
  from line_moved [OF a assms(2)] obtain p0 where p0: "lookup_by pd_id pid (sk_products db) = Some p0" "pd_tenant_id p0 = tid"
    and rows: "same_rows db d1"
    and st: "\<And>r. stock_count d1 r = stock_count db r + (if r = pid then - q else 0)"
    and vt: "\<And>w. variant_count d1 w = variant_count db w + (if Some w = map_option vr_id (resolve_variant_row pid vid sel db) then - q else 0)"
    and e: "e = \<lparr>ml_product_id = pid, ml_variant_id = map_option vr_id (resolve_variant_row pid vid sel db),
        ml_selections = sel, ml_quantity = \<bar>- q\<bar>\<rparr>" by blast
  have own: "owned db tid pid" using p0 lookup_by_in [OF p0(1)] by (force simp: owned_def)
  have e1: "0 \<le> ml_quantity e" "ml_quantity e = q" "ml_product_id e = pid"
    "ml_variant_id e = map_option vr_id (resolve_variant_row pid vid sel db)" "line_known db tid e"
    using assms(3) resolved_known [OF assms(2) own] by (simp_all add: e)
  have "variant_count db' v + variant_units (e # es) v = variant_count db v" for v
  proof -
    have "variant_count d1 v = variant_count db v + (if ml_variant_id e = Some v then - q else 0)"
      using vt [of v] unfolding e1(4) [symmetric] by (simp add: eq_commute)
    moreover have "variant_count db' v + variant_units es v = variant_count d1 v" using rest by (simp add: debited_by_def)
    ultimately show ?thesis using e1(2) by (simp split: if_splits)
  qed
  moreover have "stock_count db' p + product_units (e # es) p = stock_count db p" for p
  proof -
    have "stock_count db' p + product_units es p = stock_count d1 p" using rest by (simp add: debited_by_def)
    then show ?thesis using st [of p] e1(2,3) by (simp split: if_splits)
  qed
  moreover have "same_rows db db'" using rest same_rows_trans [OF rows] by (simp add: debited_by_def)
  moreover have "\<forall>m\<in>set es. 0 \<le> ml_quantity m \<and> line_known db tid m"
    using rest line_known_same [OF rows] by (simp add: debited_by_def)
  ultimately show ?thesis using e1(1,5) by (simp add: debited_by_def)
qed

lemma debited_keys:
  assumes "debit_order_line tid pid vid sel q neg db = (LineMoved e, d1)" "keys_distinct db"
  shows "keys_distinct d1"
  using line_moved [of tid pid vid sel "- q" neg db e d1] assms same_rows_keys by (auto simp: debit_order_line_def)

lemma debit_stock_effect:
  assumes "debit_stock tid lis db = Inr (es, db')" "keys_distinct db" "list_all order_line_ok lis"
  shows "debited_by tid es db db'"
  using assms
proof (induction lis arbitrary: db es db')
  case (Cons li lis)
  have oks: "list_all order_line_ok lis" and ok: "0 < ol_quantity li" using Cons.prems(3) by (simp, simp add: order_line_ok_def)
  define untracked where "untracked \<longleftrightarrow> (case ol_variant_id li of
                None \<Rightarrow> False
              | Some v \<Rightarrow> (case lookup_by vr_id v (sk_variants db) of
                    None \<Rightarrow> False | Some r \<Rightarrow> \<not> vr_track_inventory r))"
  note run = Cons.prems(1) [unfolded debit_stock.simps, folded untracked_def]
  show ?case
  proof (cases "lookup_by pd_id (ol_product_id li) (sk_products db) = None \<or> untracked")
    case True
    then have "debit_stock tid lis db = Inr (es, db')" using run by (auto split: option.splits)
    from Cons.IH [OF this Cons.prems(2) oks] show ?thesis .
  next
    case False
    then obtain pr where pr: "lookup_by pd_id (ol_product_id li) (sk_products db) = Some pr" "\<not> untracked" by auto
    obtain out d1 where d: "debit_order_line tid (ol_product_id li) (ol_variant_id li) [] (ol_quantity li)
        (pd_continue_selling pr) db = (out, d1)" by fastforce
    then obtain e where o: "out = LineMoved e" using run pr by (cases out) auto
    then obtain es1 where rest: "debit_stock tid lis d1 = Inr (es1, db')" "es = e # es1"
      using run pr d by (auto simp: rbind_Inr_iff)
    note d = d [unfolded o]
    from debited_Cons [OF d Cons.prems(2) ok Cons.IH [OF rest(1) debited_keys [OF d Cons.prems(2)] oks]]
    show ?thesis by (simp add: rest(2))
  qed
qed simp

section \<open>Counts written as text\<close>

lemma combo_stock_written: "combo_stock (c\<lparr>cb_stock := JStr (int_str n)\<rparr>) = n"
proof -
  have "int_str n \<noteq> []" using nat_digits_value [of "nat n"] by (simp add: int_str_def)
  then show ?thesis by (simp add: combo_stock_def py_int_str_int_str)
qed

lemma find_set_first: "P y \<Longrightarrow> List.find P (set_first P y xs) = map_option (\<lambda>_. y) (List.find P xs)"
  by (induction xs) simp_all

text \<open>The combination a line found is found again with its new stock.\<close>

lemma find_combo_moved:
  assumes "find_combo sel p = Some c"
  shows "find_combo sel (move_product sel (Some c) d p) = Some (c\<lparr>cb_stock := JStr (int_str (combo_stock c + d))\<rparr>)"
proof -
  have sel: "sel \<noteq> []" using assms by (auto simp: find_combo_def)
  obtain cs where cs: "pd_combinations p = Some cs" "List.find (combo_matches sel) cs = Some (Some c)"
    using assms by (auto simp: find_combo_def split: option.splits if_splits)
  then have "combo_matches sel (Some c)" by (auto simp: find_Some_iff)
  then have "combo_matches sel (Some (c\<lparr>cb_stock := j\<rparr>))" for j by (simp add: combo_matches_def)
  then show ?thesis using sel cs
    by (simp add: find_combo_def move_product_def move_combo_def find_set_first)
qed

text \<open>Levels stay non-negative, whatever is mirrored into them.\<close>

lemma mirror_nonneg:
  "\<forall>l\<in>set ls. 0 \<le> lv_available l \<Longrightarrow> \<forall>l\<in>set (mirror_into_levels vid d ls). 0 \<le> lv_available l"
  by (auto simp: mirror_into_levels_def Let_def replace_by_def split: list.split)

lemma line_levels:
  assumes "apply_line_delta tid pid vid sel delta neg db = (LineMoved e, db')"
  shows "sk_levels db' = sk_levels db \<or> (\<exists>v. sk_levels db' = mirror_into_levels v delta (sk_levels db))"
proof -
  obtain p v where "db' = write_line p v delta db"
    using assms by (auto simp: apply_line_delta_def Let_def split: option.splits if_splits)
  then show ?thesis by (cases v) (auto simp: write_line_def)
qed

definition demo_stock :: stock_db where
  "demo_stock = \<lparr>sk_products = [\<lparr>pd_id = 1, pd_tenant_id = 9, pd_quantity = 5,
       pd_combinations = Some [None, Some \<lparr>cb_options = [(''Size'', ''L'')], cb_enabled = JBool True, cb_stock = JStr ''3''\<rparr>],
       pd_continue_selling = False\<rparr>],
     sk_variants = [\<lparr>vr_id = 11, vr_product_id = 1, vr_store_id = 2, vr_option_values = [(''size'', ''l'')],
       vr_inventory_quantity = 3, vr_track_inventory = True\<rparr>],
     sk_levels = [\<lparr>lv_tenant_id = 9, lv_store_id = 2, lv_variant_id = 11, lv_location_id = 21, lv_available = 1, lv_reserved = 0\<rparr>,
       \<lparr>lv_tenant_id = 9, lv_store_id = 2, lv_variant_id = 11, lv_location_id = 22, lv_available = 2, lv_reserved = 0\<rparr>]\<rparr>"

text \<open>
  C34: one line moves every count together. A refused line changes nothing, and a line put back is
  refused only when the product is not the tenant's. An accepted line adds the same delta to the
  product, to the variant row it resolves to and to the combination its selections name, and to no
  other product or variant; no level becomes negative; and without leave to oversell a debit is
  accepted only when the count its guard reads covers it.
\<close>

theorem line_moves_together:
  assumes "keys_distinct db" and "apply_line_delta tid pid vid sel delta neg db = (out, db')"
  shows "case out of
      LineRefused r \<Rightarrow> db' = db \<and> (delta < 0 \<or> \<not> owned db tid pid)
    | LineMoved e \<Rightarrow>
       (\<exists>p. lookup_by pd_id pid (sk_products db) = Some p \<and> pd_tenant_id p = tid
         \<and> (\<forall>q. stock_count db' q = stock_count db q + (if q = pid then delta else 0))
         \<and> (\<forall>w. variant_count db' w = variant_count db w
              + (if Some w = map_option vr_id (resolve_variant_row pid vid sel db) then delta else 0))
         \<and> (\<forall>c. find_combo sel p = Some c \<longrightarrow>
              (\<exists>p' c'. lookup_by pd_id pid (sk_products db') = Some p' \<and> find_combo sel p' = Some c'
                 \<and> combo_stock c' = combo_stock c + delta))
         \<and> (delta < 0 \<and> \<not> neg \<longrightarrow>
              0 \<le> guard_count p (find_combo sel p) (resolve_variant_row pid vid sel db) vid + delta))
       \<and> ((\<forall>l\<in>set (sk_levels db). 0 \<le> lv_available l) \<longrightarrow> (\<forall>l\<in>set (sk_levels db'). 0 \<le> lv_available l))"
proof (cases out)
  case (LineRefused r)
  have "delta < 0 \<or> \<not> owned db tid pid"
  proof (rule ccontr)
    assume n: "\<not> (delta < 0 \<or> \<not> owned db tid pid)"
    then obtain p where "List.find (\<lambda>p. pd_id p = pid \<and> pd_tenant_id p = tid) (sk_products db) = Some p"
      by (cases "List.find (\<lambda>p. pd_id p = pid \<and> pd_tenant_id p = tid) (sk_products db)")
        (auto simp: find_None_iff owned_def image_iff)
    then show False using assms(2) n LineRefused by (simp add: apply_line_delta_def Let_def)
  qed
  moreover have "db' = db" using line_refused assms(2) LineRefused by simp
  ultimately show ?thesis unfolding LineRefused line_outcome.case by (intro conjI)
next
  case (LineMoved e)
  obtain p where
    p: "lookup_by pd_id pid (sk_products db) = Some p" "pd_tenant_id p = tid" "same_rows db db'"
    and st: "\<And>q. stock_count db' q = stock_count db q + (if q = pid then delta else 0)"
    and vt: "\<And>w. variant_count db' w = variant_count db w
        + (if Some w = map_option vr_id (resolve_variant_row pid vid sel db) then delta else 0)"
    and e: "e = \<lparr>ml_product_id = pid, ml_variant_id = map_option vr_id (resolve_variant_row pid vid sel db),
          ml_selections = sel, ml_quantity = \<bar>delta\<bar>\<rparr>"
    and gd: "delta < 0 \<Longrightarrow> \<not> neg \<Longrightarrow> 0 \<le> guard_count p (find_combo sel p) (resolve_variant_row pid vid sel db) vid + delta"
    and sl: "delta < 0 \<Longrightarrow> sel \<noteq> [] \<Longrightarrow> find_combo sel p \<noteq> None"
    and pr: "sk_products db' = replace_by pd_id (move_product sel (find_combo sel p) delta p) (sk_products db)"
    by (rule line_moved [OF assms(2) [unfolded LineMoved] assms(1)]) (rule that)
  have pid: "pd_id p = pid" using lookup_by_in [OF p(1)] by simp
  have cb: "\<exists>p' c'. lookup_by pd_id pid (sk_products db') = Some p' \<and> find_combo sel p' = Some c'
                 \<and> combo_stock c' = combo_stock c + delta" if "find_combo sel p = Some c" for c
    using find_combo_moved [OF that, of delta] that p(1) pid
    by (simp add: pr lookup_replace combo_stock_written)
  have "sk_levels db' = sk_levels db \<or> (\<exists>v. sk_levels db' = mirror_into_levels v delta (sk_levels db))"
    using line_levels [OF assms(2) [unfolded LineMoved]] .
  then have lv: "(\<forall>l\<in>set (sk_levels db). 0 \<le> lv_available l) \<longrightarrow> (\<forall>l\<in>set (sk_levels db'). 0 \<le> lv_available l)"
    using mirror_nonneg by metis
  have "\<exists>p. lookup_by pd_id pid (sk_products db) = Some p \<and> pd_tenant_id p = tid
         \<and> (\<forall>q. stock_count db' q = stock_count db q + (if q = pid then delta else 0))
         \<and> (\<forall>w. variant_count db' w = variant_count db w
              + (if Some w = map_option vr_id (resolve_variant_row pid vid sel db) then delta else 0))
         \<and> (\<forall>c. find_combo sel p = Some c \<longrightarrow>
              (\<exists>p' c'. lookup_by pd_id pid (sk_products db') = Some p' \<and> find_combo sel p' = Some c'
                 \<and> combo_stock c' = combo_stock c + delta))
         \<and> (delta < 0 \<and> \<not> neg \<longrightarrow>
              0 \<le> guard_count p (find_combo sel p) (resolve_variant_row pid vid sel db) vid + delta)"
    by (rule exI [of _ p], intro conjI allI impI) (use p in assumption | rule st vt gd cb p | blast)+
  then show ?thesis unfolding LineMoved line_outcome.case using lv by (rule conjI)
qed

theorem line_moves_together_witness:
  "stock_count (snd (apply_line_delta 9 1 None [(''SIZE'', ''l'')] (-2) False demo_stock)) 1 = 3
   \<and> variant_count (snd (apply_line_delta 9 1 None [(''SIZE'', ''l'')] (-2) False demo_stock)) 11 = 1
   \<and> map lv_available (sk_levels (snd (apply_line_delta 9 1 None [(''SIZE'', ''l'')] (-2) False demo_stock))) = [1, 0]"
proof -
  let ?r = "apply_line_delta 9 1 None [(''SIZE'', ''l'')] (-2) False demo_stock"
  have run: "(case ?r of (LineMoved e, db') \<Rightarrow> map lv_available (sk_levels db') = [1, 0] | _ \<Rightarrow> False)"
    and init: "stock_count demo_stock 1 = 5" "variant_count demo_stock 11 = 3"
      "map_option vr_id (resolve_variant_row 1 None [(''SIZE'', ''l'')] demo_stock) = Some 11"
    by code_simp+
  obtain out db' where r: "?r = (out, db')" by fastforce
  have k: "keys_distinct demo_stock" by code_simp
  from run r obtain e where o: "out = LineMoved e" "map lv_available (sk_levels db') = [1, 0]"
    by (cases out) simp_all
  from line_moves_together [OF k r] init show ?thesis unfolding r o(1) using o(2) by (auto simp del: map_option_eq_Some)
qed

end
