(* ===== verification/Stock_Calls.thy ===== *)
theory Stock_Calls
  imports Stock
begin

text \<open>
  The stock of a shop over time: orders are placed, partially returned and undone, each with the note
  its metadata keeps. The units an order holds are what its manifest has not put back yet.
\<close>

section \<open>The stock of a shop and its open orders\<close>

record shop_order =
  so_id :: uuid
  so_tenant :: uuid
  so_note :: stock_note

record shop =
  sh_stock :: stock_db
  sh_orders :: "shop_order list"

datatype shop_call =
    PlaceOrder instant bool uuid uuid "order_line_item list"
  | PiecesReturned uuid "manifest_line list"
  | OrderGone instant uuid "string option"

definition with_order :: "uuid \<Rightarrow> shop \<Rightarrow> (shop_order \<Rightarrow> shop result) \<Rightarrow> shop result" where
  "with_order oid s f = (case lookup_by so_id oid (sh_orders s) of
      None \<Rightarrow> Inl (EntityNotFoundError ''Order'') | Some o' \<Rightarrow> f o')"

definition set_note :: "shop_order \<Rightarrow> stock_note \<Rightarrow> stock_db \<Rightarrow> shop \<Rightarrow> shop" where
  "set_note o' n db s = \<lparr>sh_stock = db, sh_orders = replace_by so_id (o'\<lparr>so_note := n\<rparr>) (sh_orders s)\<rparr>"

text \<open>
  The calls that move stock. The entity checks its lines, the primary key its identifier, and the
  request of a partial acceptance its quantities.
\<close>

fun shop_act :: "shop_call \<Rightarrow> shop \<Rightarrow> shop result" where
  "shop_act (PlaceOrder now as_draft tid oid lis) s =
     (if \<not> list_all order_line_ok lis then Inl (ValidationError ''line_items'')
      else if lookup_by so_id oid (sh_orders s) \<noteq> None then Inl (ValidationError ''orders_pkey'')
      else rbind (place_stock now as_draft tid lis (sh_stock s)) (\<lambda>(n, db).
        Inr \<lparr>sh_stock = db, sh_orders = sh_orders s @ [\<lparr>so_id = oid, so_tenant = tid, so_note = n\<rparr>]\<rparr>))"
| "shop_act (PiecesReturned oid lines) s =
     (if \<not> list_all (\<lambda>m. 1 \<le> ml_quantity m) lines then Inl (ValidationError ''returned_quantity'')
      else with_order oid s (\<lambda>o'. case restock_returned (so_tenant o') lines (so_note o') (sh_stock s) of
             (n, db) \<Rightarrow> Inr (set_note o' n db s)))"
| "shop_act (OrderGone now oid reason) s =
     with_order oid s (\<lambda>o'. case restock_order now (so_tenant o') reason (so_note o') (sh_stock s) of
        (_, n, db) \<Rightarrow> Inr (set_note o' n db s))"

text \<open>What an order still holds: its manifest less the returned pieces, until it is put back.\<close>

definition held :: "stock_note \<Rightarrow> manifest_line list" where
  "held n = (if sn_restocked_at n \<noteq> None then [] else minus_restocked (manifest_of n) (sn_restocked_lines n))"

definition held_units :: "shop \<Rightarrow> uuid \<Rightarrow> int" where
  "held_units s p = sum_list (map (\<lambda>o'. product_units (held (so_note o')) p) (sh_orders s))"

definition held_variant_units :: "shop \<Rightarrow> uuid \<Rightarrow> int" where
  "held_variant_units s v = sum_list (map (\<lambda>o'. variant_units (held (so_note o')) v) (sh_orders s))"

definition order_note_ok :: "stock_db \<Rightarrow> shop_order \<Rightarrow> bool" where
  "order_note_ok db o' \<longleftrightarrow> (\<forall>m\<in>set (manifest_of (so_note o')). 0 \<le> ml_quantity m \<and> line_known db (so_tenant o') m)
     \<and> (\<forall>m\<in>set (sn_restocked_lines (so_note o')). 0 \<le> ml_quantity m)"

definition shop_ok :: "shop \<Rightarrow> bool" where
  "shop_ok s \<longleftrightarrow> keys_distinct (sh_stock s) \<and> distinct (map so_id (sh_orders s))
     \<and> (\<forall>o'\<in>set (sh_orders s). order_note_ok (sh_stock s) o')"

definition is_return :: "shop_call \<Rightarrow> bool" where
  "is_return c = (case c of PiecesReturned _ _ \<Rightarrow> True | _ \<Rightarrow> False)"

lemma line_known_shape:
  "line_known db tid m \<longleftrightarrow> line_known db tid (m\<lparr>ml_quantity := q\<rparr>)"
  by (simp add: line_known_def)

lemma take_off_known:
  "\<forall>m\<in>set ms. line_known db tid m \<Longrightarrow> \<forall>m\<in>set (take_off q d ms). line_known db tid m"
  by (induction q d ms rule: take_off.induct) (simp_all add: Let_def line_known_shape [symmetric])

lemma minus_restocked_known:
  "\<forall>m\<in>set ms. line_known db tid m \<Longrightarrow> \<forall>m\<in>set (minus_restocked ms ds). line_known db tid m"
proof (induction ds arbitrary: ms)
  case (Cons d ds)
  from Cons.IH [OF take_off_known [OF Cons.prems]] show ?case by (simp add: minus_restocked_def)
qed (simp add: minus_restocked_def)

lemma held_ok:
  assumes "order_note_ok db o'"
  shows "\<forall>m\<in>set (held (so_note o')). 0 \<le> ml_quantity m \<and> line_known db (so_tenant o') m"
proof (cases "sn_restocked_at (so_note o') = None")
  case True
  have "\<forall>m\<in>set (manifest_of (so_note o')). 0 \<le> ml_quantity m" "\<forall>m\<in>set (manifest_of (so_note o')). line_known db (so_tenant o') m"
    using assms by (simp_all add: order_note_ok_def)
  with minus_restocked_units [of "manifest_of (so_note o')"] minus_restocked_known [of "manifest_of (so_note o')"]
  show ?thesis using True by (simp add: held_def)
qed (simp add: held_def)

lemma not_owned_units:
  "\<forall>m\<in>set ms. line_known db tid m \<Longrightarrow> \<not> owned db tid p \<Longrightarrow> product_units ms p = 0"
  by (induction ms) (auto simp: line_known_def)

text \<open>Returned pieces never take more off what is held than they are.\<close>

lemma held_returned:
  assumes "order_note_ok db o'" "\<forall>m\<in>set lines. 0 \<le> ml_quantity m"
    and n: "n = (so_note o')\<lparr>sn_restocked_lines := sn_restocked_lines (so_note o') @ lines\<rparr>"
  shows "product_units (held (so_note o')) p \<le> product_units (held n) p
      + (if owned db (so_tenant o') p then product_units lines p else 0)"
proof (cases "sn_restocked_at (so_note o') = None")
  case True
  let ?h = "held (so_note o')"
  note ok = held_ok [OF assms(1)]
  have h: "held n = minus_restocked ?h lines"
    using True by (simp add: held_def n manifest_of_def minus_restocked_def)
  have pos: "\<forall>m\<in>set ?h. 0 \<le> ml_quantity m" using ok by blast
  have "(\<Sum>d\<leftarrow>lines. if ml_product_id d = p then max 0 (ml_quantity d) else 0) = product_units lines p"
    using assms(2) unfolding product_units_def by (intro arg_cong [where f = sum_list] map_cong) auto
  with minus_restocked_units [OF pos, of p lines] have "product_units ?h p \<le> product_units (held n) p + product_units lines p"
    and nn: "\<forall>m\<in>set (held n). 0 \<le> ml_quantity m" unfolding h by auto
  moreover have "product_units ?h p = 0" if "\<not> owned db (so_tenant o') p"
    by (rule not_owned_units [OF _ that]) (use ok in blast)
  ultimately show ?thesis using units_nonneg [OF nn] by simp
next
  case False
  then have "held (so_note o') = []" "held n = []" by (simp_all add: held_def n)
  moreover have "0 \<le> product_units lines p" using units_nonneg assms(2) by blast
  ultimately show ?thesis by simp
qed

lemma held_fresh [simp]:
  "held no_stock_note = []" "held (no_stock_note\<lparr>sn_debited := Some (build_debit_manifest now es)\<rparr>) = es"
  "manifest_of no_stock_note = []" "manifest_of (no_stock_note\<lparr>sn_debited := Some (build_debit_manifest now es)\<rparr>) = es"
  "sn_restocked_lines no_stock_note = []" "sn_restocked_lines (no_stock_note\<lparr>sn_debited := d\<rparr>) = []"
  by (simp_all add: held_def no_stock_note_def manifest_of_def build_debit_manifest_def minus_restocked_def)

lemma order_note_same: "same_rows db db' \<Longrightarrow> order_note_ok db' o' = order_note_ok db o'"
  by (simp add: order_note_ok_def line_known_same)

text \<open>One order's note and the stock change together: what the shop holds changes by the difference.\<close>

lemma set_note_facts:
  assumes "shop_ok s" "lookup_by so_id oid (sh_orders s) = Some o'"
  shows "held_units (set_note o' n db s) p = held_units s p - product_units (held (so_note o')) p + product_units (held n) p"
    "held_variant_units (set_note o' n db s) v
      = held_variant_units s v - variant_units (held (so_note o')) v + variant_units (held n) v"
    "same_rows (sh_stock s) db \<Longrightarrow> order_note_ok db (o'\<lparr>so_note := n\<rparr>) \<Longrightarrow> shop_ok (set_note o' n db s)"
proof -
  have d: "distinct (map so_id (sh_orders s))" using assms(1) by (simp add: shop_ok_def)
  have l: "lookup_by so_id (so_id (o'\<lparr>so_note := n\<rparr>)) (sh_orders s) = Some o'"
    using assms(2) lookup_by_in [OF assms(2)] by simp
  show "held_units (set_note o' n db s) p = held_units s p - product_units (held (so_note o')) p + product_units (held n) p"
    using sum_replace [OF d l, of "\<lambda>o'. product_units (held (so_note o')) p"] by (simp add: held_units_def set_note_def)
  show "held_variant_units (set_note o' n db s) v
      = held_variant_units s v - variant_units (held (so_note o')) v + variant_units (held n) v"
    using sum_replace [OF d l, of "\<lambda>o'. variant_units (held (so_note o')) v"] by (simp add: held_variant_units_def set_note_def)
  assume rows: "same_rows (sh_stock s) db" and ok: "order_note_ok db (o'\<lparr>so_note := n\<rparr>)"
  have "order_note_ok db x" if "x \<in> set (replace_by so_id (o'\<lparr>so_note := n\<rparr>) (sh_orders s))" for x
    using in_replace [OF that] ok assms(1) order_note_same [OF rows] by (auto simp: shop_ok_def)
  then show "shop_ok (set_note o' n db s)" using assms(1) d same_rows_keys [OF rows]
    by (simp add: shop_ok_def set_note_def)
qed

definition shop_step :: "bool \<Rightarrow> shop \<Rightarrow> shop \<Rightarrow> bool" where
  "shop_step exact s t \<longleftrightarrow> shop_ok t
     \<and> (\<forall>p. stock_count (sh_stock s) p + held_units s p \<le> stock_count (sh_stock t) p + held_units t p)
     \<and> (exact \<longrightarrow> (\<forall>p. stock_count (sh_stock t) p + held_units t p = stock_count (sh_stock s) p + held_units s p)
         \<and> (\<forall>v. variant_count (sh_stock t) v + held_variant_units t v
              = variant_count (sh_stock s) v + held_variant_units s v))"

text \<open>An order is added with the note of its debit.\<close>

lemma placed_step:
  assumes ok: "shop_ok s" and fresh: "lookup_by so_id oid (sh_orders s) = None"
    and es: "held n = es" "manifest_of n = es" "sn_restocked_lines n = []"
    and eff: "debited_by tid es (sh_stock s) db"
  shows "shop_step True s \<lparr>sh_stock = db, sh_orders = sh_orders s @ [\<lparr>so_id = oid, so_tenant = tid, so_note = n\<rparr>]\<rparr>"
    (is "shop_step True s ?t")
proof -
  have rows: "same_rows (sh_stock s) db" using eff by (simp add: debited_by_def)
  have "order_note_ok db \<lparr>so_id = oid, so_tenant = tid, so_note = n\<rparr>"
    using eff es(2,3) line_known_same [OF rows] by (simp add: order_note_ok_def debited_by_def)
  moreover have "oid \<notin> so_id ` set (sh_orders s)" using fresh by (simp add: lookup_by_None)
  moreover have "keys_distinct (sh_stock s)" using ok by (simp add: shop_ok_def)
  ultimately have "shop_ok ?t" using ok same_rows_keys [OF rows] order_note_same [OF rows]
    by (simp add: shop_ok_def)
  moreover have "held_units ?t p = held_units s p + product_units es p"
    "held_variant_units ?t v = held_variant_units s v + variant_units es v" for p v
    using es(1) by (simp_all add: held_units_def held_variant_units_def)
  ultimately show ?thesis using eff by (simp add: shop_step_def debited_by_def algebra_simps)
qed

lemma debit_note:
  "held (if es = [] then no_stock_note else no_stock_note\<lparr>sn_debited := Some (build_debit_manifest now es)\<rparr>) = es"
  "manifest_of (if es = [] then no_stock_note else no_stock_note\<lparr>sn_debited := Some (build_debit_manifest now es)\<rparr>) = es"
  "sn_restocked_lines (if es = [] then no_stock_note else no_stock_note\<lparr>sn_debited := Some (build_debit_manifest now es)\<rparr>) = []"
  by (simp_all add: held_def manifest_of_def minus_restocked_def no_stock_note_def build_debit_manifest_def)

lemma place_step:
  assumes "shop_ok s" "shop_act (PlaceOrder now as_draft tid oid lis) s = Inr t"
  shows "shop_step True s t"
proof -
  obtain n db where ok: "list_all order_line_ok lis" "lookup_by so_id oid (sh_orders s) = None"
    and pl: "place_stock now as_draft tid lis (sh_stock s) = Inr (n, db)"
    and t: "t = \<lparr>sh_stock = db, sh_orders = sh_orders s @ [\<lparr>so_id = oid, so_tenant = tid, so_note = n\<rparr>]\<rparr>"
    using assms(2) by (auto simp: rbind_Inr_iff split: if_splits)
  have k: "keys_distinct (sh_stock s)" using assms(1) by (simp add: shop_ok_def)
  show ?thesis unfolding t
  proof (cases as_draft)
    case True
    then have n: "n = no_stock_note" "db = sh_stock s" using pl by (simp_all add: place_stock_def)
    show "shop_step True s \<lparr>sh_stock = db, sh_orders = sh_orders s @ [\<lparr>so_id = oid, so_tenant = tid, so_note = n\<rparr>]\<rparr>"
      by (rule placed_step [OF assms(1) ok(2), of _ "[]"])
        (simp_all add: n held_def manifest_of_def minus_restocked_def no_stock_note_def)
  next
    case False
    then obtain es where d: "debit_stock tid lis (sh_stock s) = Inr (es, db)"
      and n: "n = (if es = [] then no_stock_note else no_stock_note\<lparr>sn_debited := Some (build_debit_manifest now es)\<rparr>)"
      using pl by (auto simp: place_stock_def rbind_Inr_iff)
    show "shop_step True s \<lparr>sh_stock = db, sh_orders = sh_orders s @ [\<lparr>so_id = oid, so_tenant = tid, so_note = n\<rparr>]\<rparr>"
      unfolding n by (rule placed_step [OF assms(1) ok(2) debit_note debit_stock_effect [OF d k ok(1)]])
  qed
qed

lemma returned_step:
  assumes "shop_ok s" "shop_act (PiecesReturned oid lines) s = Inr t"
  shows "shop_step False s t"
proof -
  obtain o' n db where pos: "list_all (\<lambda>m. 1 \<le> ml_quantity m) lines" and l: "lookup_by so_id oid (sh_orders s) = Some o'"
    and r: "restock_returned (so_tenant o') lines (so_note o') (sh_stock s) = (n, db)" and t: "t = set_note o' n db s"
    using assms(2) by (auto simp: with_order_def split: if_splits option.splits prod.splits)
  have q: "\<forall>m\<in>set lines. 0 \<le> ml_quantity m" using pos by (auto simp: list_all_iff)
  have k: "keys_distinct (sh_stock s)" using assms(1) by (simp add: shop_ok_def)
  have n: "n = (so_note o')\<lparr>sn_restocked_lines := sn_restocked_lines (so_note o') @ lines\<rparr>"
    and db: "db = snd (restock_lines (so_tenant o') lines (sh_stock s))"
    using r by (auto simp: restock_returned_def split: prod.splits)
  note eff = restock_lines_effect [OF k q, of "so_tenant o'", folded db]
  have o': "order_note_ok (sh_stock s) o'" using assms(1) lookup_by_in [OF l] by (simp add: shop_ok_def)
  have rows: "same_rows (sh_stock s) db" using eff by blast
  have "order_note_ok db (o'\<lparr>so_note := n\<rparr>)"
    using o' q line_known_same [OF rows] by (auto simp: order_note_ok_def n manifest_of_def)
  from set_note_facts(3) [OF assms(1) l rows this] have "shop_ok t" by (simp add: t)
  moreover have "stock_count (sh_stock s) p + held_units s p \<le> stock_count (sh_stock t) p + held_units t p" for p
  proof -
    have "stock_count db p = stock_count (sh_stock s) p
        + (if owned (sh_stock s) (so_tenant o') p then product_units lines p else 0)" using eff by blast
    then show ?thesis using held_returned [OF o' q n, of p]
      by (simp add: t set_note_facts(1) [OF assms(1) l]) (simp add: set_note_def)
  qed
  ultimately show ?thesis by (simp add: shop_step_def)
qed

lemma gone_step:
  assumes "shop_ok s" "shop_act (OrderGone now oid reason) s = Inr t"
  shows "shop_step True s t"
proof -
  obtain o' f n db where l: "lookup_by so_id oid (sh_orders s) = Some o'"
    and r: "restock_order now (so_tenant o') reason (so_note o') (sh_stock s) = (f, n, db)" and t: "t = set_note o' n db s"
    using assms(2) by (auto simp: with_order_def split: option.splits prod.splits)
  have k: "keys_distinct (sh_stock s)" using assms(1) by (simp add: shop_ok_def)
  have o': "order_note_ok (sh_stock s) o'" using assms(1) lookup_by_in [OF l] by (simp add: shop_ok_def)
  let ?h = "held (so_note o')"
  have h: "\<forall>m\<in>set ?h. 0 \<le> ml_quantity m" "\<forall>m\<in>set ?h. line_known (sh_stock s) (so_tenant o') m"
    using held_ok [OF o'] by blast+
  have rows: "same_rows (sh_stock s) db"
    and st: "stock_count db p + product_units (held n) p = stock_count (sh_stock s) p + product_units ?h p"
    and vt: "variant_count db v + variant_units (held n) v = variant_count (sh_stock s) v + variant_units ?h v"
    and nt: "manifest_of n = manifest_of (so_note o')" "sn_restocked_lines n = sn_restocked_lines (so_note o')"
    for p v
  proof -
    have "same_rows (sh_stock s) db
      \<and> stock_count db p + product_units (held n) p = stock_count (sh_stock s) p + product_units ?h p
      \<and> variant_count db v + variant_units (held n) v = variant_count (sh_stock s) v + variant_units ?h v
      \<and> manifest_of n = manifest_of (so_note o') \<and> sn_restocked_lines n = sn_restocked_lines (so_note o')"
    proof (cases "manifest_of (so_note o') = [] \<or> sn_restocked_at (so_note o') \<noteq> None")
      case True
      then have "n = so_note o'" "db = sh_stock s" using r by (auto simp: restock_order_def split: if_splits)
      then show ?thesis by simp
    next
      case False
      then have held: "?h = minus_restocked (manifest_of (so_note o')) (sn_restocked_lines (so_note o'))"
        by (simp add: held_def)
      have db: "db = snd (restock_lines (so_tenant o') ?h (sh_stock s))"
        and n: "n = (so_note o')\<lparr>sn_restocked_at := Some now\<rparr>
          \<or> n = (so_note o')\<lparr>sn_restocked_at := Some now, sn_restock_reason := reason\<rparr>"
        using r False unfolding held by (auto simp: restock_order_def Let_def split: prod.splits if_splits)
      have n': "held n = []" "manifest_of n = manifest_of (so_note o')" "sn_restocked_lines n = sn_restocked_lines (so_note o')"
        using n by (auto simp: held_def manifest_of_def)
      note eff = restock_lines_effect [OF k h(1), of "so_tenant o'" p v, folded db]
      have "product_units ?h p = 0" if "\<not> owned (sh_stock s) (so_tenant o') p"
        by (rule not_owned_units [OF h(2) that])
      then show ?thesis using eff h(2) n' by (auto split: if_splits)
    qed
    then show "same_rows (sh_stock s) db"
      "stock_count db p + product_units (held n) p = stock_count (sh_stock s) p + product_units ?h p"
      "variant_count db v + variant_units (held n) v = variant_count (sh_stock s) v + variant_units ?h v"
      "manifest_of n = manifest_of (so_note o')" "sn_restocked_lines n = sn_restocked_lines (so_note o')" by blast+
  qed
  have "order_note_ok db (o'\<lparr>so_note := n\<rparr>)"
    using o' line_known_same [OF rows] by (simp add: order_note_ok_def nt)
  from set_note_facts(3) [OF assms(1) l rows this] have "shop_ok t" by (simp add: t)
  moreover have "sh_stock t = db" by (simp add: t set_note_def)
  moreover have "held_units t p = held_units s p - product_units ?h p + product_units (held n) p"
    "held_variant_units t v = held_variant_units s v - variant_units ?h v + variant_units (held n) v" for p v
    unfolding t by (rule set_note_facts [OF assms(1) l])+
  ultimately have "stock_count (sh_stock t) p + held_units t p = stock_count (sh_stock s) p + held_units s p"
    "variant_count (sh_stock t) v + held_variant_units t v = variant_count (sh_stock s) v + held_variant_units s v"
    "shop_ok t" for p v using st [of p] vt [of v] by simp_all
  then show ?thesis by (simp add: shop_step_def)
qed

lemma shop_step_trans:
  assumes "shop_step b s t" "shop_step c t u" shows "shop_step (b \<and> c) s u"
  unfolding shop_step_def
proof (intro conjI allI impI)
  show "shop_ok u" using assms(2) by (simp add: shop_step_def)
  show "stock_count (sh_stock s) p + held_units s p \<le> stock_count (sh_stock u) p + held_units u p" for p
  proof -
    have "stock_count (sh_stock s) p + held_units s p \<le> stock_count (sh_stock t) p + held_units t p"
      "stock_count (sh_stock t) p + held_units t p \<le> stock_count (sh_stock u) p + held_units u p"
      using assms by (simp_all add: shop_step_def)
    then show ?thesis by linarith
  qed
qed (use assms in \<open>simp_all add: shop_step_def\<close>)

lemma shop_act_step:
  assumes "shop_ok s" "shop_act c s = Inr t" shows "shop_step (\<not> is_return c) s t"
  using assms place_step returned_step gone_step by (cases c) (auto simp: is_return_def simp del: shop_act.simps)

lemma shop_walk:
  assumes "shop_ok s"
  shows "shop_step (list_all (\<lambda>c. \<not> is_return c) cs) s (serve_all shop_act cs s)"
  using assms
proof (induction cs arbitrary: s)
  case (Cons c cs)
  let ?t = "serve shop_act c s"
  have st: "shop_step (\<not> is_return c) s ?t"
    using shop_act_step [OF Cons.prems] Cons.prems by (cases "shop_act c s") (simp_all add: serve_def shop_step_def)
  then have "shop_ok ?t" by (simp add: shop_step_def)
  from shop_step_trans [OF st Cons.IH [OF this]] show ?case by simp
qed (simp add: shop_step_def)

text \<open>
  C10: no stock is lost. Over any sequence of calls that place orders, put returned pieces back and
  undo orders, refused ones included, the count of every product together with what the open orders
  hold of it never falls; and as long as no pieces are returned it stays the same, for every product
  and for every variant.
\<close>

theorem stock_conserved:
  assumes "shop_ok s" "t = serve_all shop_act cs s"
  shows "shop_ok t
    \<and> (\<forall>p. stock_count (sh_stock s) p + held_units s p \<le> stock_count (sh_stock t) p + held_units t p)
    \<and> (list_all (\<lambda>c. \<not> is_return c) cs \<longrightarrow>
        (\<forall>p. stock_count (sh_stock t) p + held_units t p = stock_count (sh_stock s) p + held_units s p)
      \<and> (\<forall>v. variant_count (sh_stock t) v + held_variant_units t v
            = variant_count (sh_stock s) v + held_variant_units s v))"
  using shop_walk [OF assms(1), of cs] unfolding shop_step_def assms(2) .

definition demo_stock_line :: "uuid option \<Rightarrow> int \<Rightarrow> order_line_item" where
  "demo_stock_line v q = \<lparr>ol_product_id = 1, ol_product_name = ''Bread'', ol_variant_id = v, ol_variant_name = None,
     ol_sku = None, ol_quantity = q, ol_unit_price = 100, ol_total_price = 100 * q, ol_weight = None, ol_properties = []\<rparr>"

definition demo_shop :: shop where
  "demo_shop = \<lparr>sh_stock = demo_stock, sh_orders = []\<rparr>"

definition demo_shop_calls :: "shop_call list" where
  "demo_shop_calls = [PlaceOrder 1 False 9 51 [demo_stock_line (Some 11) 2, demo_stock_line None 1],
     PlaceOrder 2 False 9 52 [demo_stock_line (Some 11) 4],
     OrderGone 3 51 None, OrderGone 4 51 None]"

theorem stock_conserved_witness:
  "stock_count (sh_stock (serve_all shop_act demo_shop_calls demo_shop)) 1 = 5
   \<and> map (\<lambda>o'. (so_id o', sn_restocked_at (so_note o'))) (sh_orders (serve_all shop_act demo_shop_calls demo_shop)) = [(51, Some 3)]
   \<and> stock_count (sh_stock (serve_all shop_act (take 2 demo_shop_calls) demo_shop)) 1 = 2"
proof -
  have k: "shop_ok demo_shop" by code_simp
  have h: "held_units (serve_all shop_act demo_shop_calls demo_shop) 1 = 0" "held_units demo_shop 1 = 0"
    "stock_count (sh_stock demo_shop) 1 = 5" "list_all (\<lambda>c. \<not> is_return c) demo_shop_calls"
    "map (\<lambda>o'. (so_id o', sn_restocked_at (so_note o'))) (sh_orders (serve_all shop_act demo_shop_calls demo_shop)) = [(51, Some 3)]"
    "stock_count (sh_stock (serve_all shop_act (take 2 demo_shop_calls) demo_shop)) 1 = 2"
    by code_simp+
  from stock_conserved [OF k refl, of demo_shop_calls] h show ?thesis by (metis add_0_right)
qed

end
