(* ===== verification/Order_Desk.thy ===== *)
theory Order_Desk
  imports Stock_Calls
begin

text \<open>
  The order use cases \<open>src/application/use_cases/orders/\<close> (creation, edits, status changes, COD
  confirmation) and the partial acceptance of a delivery (\<open>api/v1/routes/stores/orders.py\<close>) over the
  tables of orders and stock. The stock entries of an order's metadata are kept beside the order as
  its \<open>stock_note\<close>. The store and customer repositories are arguments: the owner and tenant of a
  store, the store of a customer. The events the use cases publish are kept in the order of
  publication; the network reputation, delivery checks and funnel steps, which only add flags to the
  metadata, are left out.
\<close>

section \<open>VAT-inclusive amounts\<close>

definition default_vat_rate :: rat where
  "default_vat_rate = 14"

definition extract_vat_cents :: "int \<Rightarrow> rat \<Rightarrow> int \<times> int" where
  "extract_vat_cents subtotal rate =
     (if subtotal \<le> 0 \<or> rate \<le> 0 then (0, max 0 subtotal)
      else (let vat = half_up (of_int subtotal * rate / (100 + rate)) in (vat, subtotal - vat)))"

section \<open>The desk\<close>

record desk_order =
  do_order :: order
  do_note :: stock_note

datatype order_event =
    OrderCreated uuid
  | OrderStatusChanged uuid order_status order_status "string option"
  | OrderPartiallyAccepted uuid int int int

record order_desk =
  od_stock :: stock_db
  od_orders :: "desk_order list"
  od_events :: "order_event list"

type_synonym store_refs = "uuid \<Rightarrow> (uuid \<times> uuid) option"

definition do_id :: "desk_order \<Rightarrow> uuid" where
  "do_id x = ord_id (do_order x)"

definition check_owner :: "store_refs \<Rightarrow> uuid \<Rightarrow> uuid \<Rightarrow> uuid result" where
  "check_owner stores sid user = (case stores sid of
      None \<Rightarrow> Inl (EntityNotFoundError ''Store'')
    | Some (owner, tid) \<Rightarrow> if owner \<noteq> user then Inl (AuthorizationError ''orders in this store'') else Inr tid)"

definition find_order :: "uuid \<Rightarrow> uuid \<Rightarrow> order_desk \<Rightarrow> desk_order result" where
  "find_order oid sid d = (case lookup_by do_id oid (od_orders d) of
      None \<Rightarrow> Inl (EntityNotFoundError ''Order'')
    | Some x \<Rightarrow> if ord_store_id (do_order x) \<noteq> sid then Inl (EntityNotFoundError ''Order'') else Inr x)"

definition save_order :: "desk_order \<Rightarrow> order_desk \<Rightarrow> order_desk" where
  "save_order x d = d\<lparr>od_orders := replace_by do_id x (od_orders d)\<rparr>"

definition publish :: "order_event \<Rightarrow> order_desk \<Rightarrow> order_desk" where
  "publish e d = d\<lparr>od_events := od_events d @ [e]\<rparr>"

section \<open>Creating an order\<close>

record line_input =
  li_product_id :: uuid
  li_product_name :: string
  li_quantity :: int
  li_unit_price :: int
  li_variant_id :: "uuid option"
  li_variant_name :: "string option"
  li_sku :: "string option"
  li_properties :: "(string \<times> json) list option"

record order_input =
  oi_customer_id :: uuid
  oi_line_items :: "line_input list"
  oi_shipping_address :: order_address
  oi_billing_address :: "order_address option"
  oi_shipping_cost :: int
  oi_tax_amount :: int
  oi_discount_amount :: int
  oi_currency :: string
  oi_payment_method :: "string option"
  oi_shipping_method :: "string option"
  oi_customer_notes :: "string option"

text \<open>The properties of the input line are not copied.\<close>

definition line_of_input :: "line_input \<Rightarrow> order_line_item" where
  "line_of_input li = \<lparr>ol_product_id = li_product_id li, ol_product_name = li_product_name li,
     ol_variant_id = li_variant_id li, ol_variant_name = li_variant_name li, ol_sku = li_sku li,
     ol_quantity = li_quantity li, ol_unit_price = li_unit_price li,
     ol_total_price = li_unit_price li * li_quantity li, ol_weight = None, ol_properties = []\<rparr>"

text \<open>The nine fields the use cases copy.\<close>

definition address_of_input :: "order_address \<Rightarrow> order_address" where
  "address_of_input a = a\<lparr>oa_latitude := None, oa_longitude := None, oa_location_accuracy := None,
     oa_location_source := None, oa_geocoded_address := None\<rparr>"

definition input_subtotal :: "line_input list \<Rightarrow> int" where
  "input_subtotal lis = foldl (\<lambda>s li. s + li_unit_price li * li_quantity li) 0 lis"

definition recorded_tax :: "order_input \<Rightarrow> int" where
  "recorded_tax dto = (if oi_tax_amount dto = 0
     then fst (extract_vat_cents (input_subtotal (oi_line_items dto)) default_vat_rate) else oi_tax_amount dto)"

definition new_order :: "uuid \<Rightarrow> string \<Rightarrow> instant \<Rightarrow> bool \<Rightarrow> uuid \<Rightarrow> uuid \<Rightarrow> order_input \<Rightarrow> order" where
  "new_order new_id number now as_draft sid tid dto = order_post_init
     \<lparr>ord_id = new_id, ord_created_at = now, ord_updated_at = now, ord_store_id = sid, ord_tenant_id = Some tid,
      ord_customer_id = oi_customer_id dto, ord_order_number = number,
      ord_line_items = map line_of_input (oi_line_items dto),
      ord_shipping_address = address_of_input (oi_shipping_address dto),
      ord_billing_address = map_option address_of_input (oi_billing_address dto),
      ord_status = (if as_draft then DRAFT else PENDING), ord_payment_status = PayPending,
      ord_fulfillment_status = Unfulfilled, ord_subtotal = input_subtotal (oi_line_items dto),
      ord_shipping_cost = oi_shipping_cost dto, ord_tax_amount = recorded_tax dto,
      ord_discount_amount = oi_discount_amount dto,
      ord_total = input_subtotal (oi_line_items dto) + oi_shipping_cost dto - oi_discount_amount dto,
      ord_collected_total = None, ord_currency = oi_currency dto, ord_payment_method = oi_payment_method dto,
      ord_payment_id = None, ord_shipping_method = oi_shipping_method dto, ord_shipping_zone_id = None,
      ord_shipping_rate_id = None, ord_deposit_required_cents = None,
      ord_deposit_amount_cents = None, ord_deposit_paid_at = None, ord_deposit_expires_at = None,
      ord_deposit_gateway = None, ord_deposit_payment_id = None,
      ord_customer_confirmation_status = None, ord_customer_confirmation_requested_at = None,
      ord_customer_confirmed_at = None, ord_cod_review_status = None, ord_cod_reviewed_at = None,
      ord_tracking_number = None, ord_tracking_url = None, ord_notes = None, ord_coupon_code = None,
      ord_coupon_id = None, ord_applied_promotions = [], ord_customer_notes = oi_customer_notes dto,
      ord_metadata = Map.empty, ord_utm_source = None, ord_utm_medium = None, ord_utm_campaign = None,
      ord_utm_term = None, ord_utm_content = None, ord_campaign_id = None, ord_attribution = None,
      ord_first_touch_at = None, ord_session_fingerprint = None, ord_version = 1, ord_cancelled_at = None,
      ord_paid_at = None, ord_cash_received_at = None, ord_fulfilled_at = None, ord_shipped_at = None,
      ord_delivered_at = None\<rparr>"

definition create_order :: "store_refs \<Rightarrow> (uuid \<Rightarrow> uuid option) \<Rightarrow> uuid \<Rightarrow> string \<Rightarrow> instant \<Rightarrow> order_input
    \<Rightarrow> uuid \<Rightarrow> uuid \<Rightarrow> bool \<Rightarrow> order_desk \<Rightarrow> order_desk result" where
  "create_order stores customers new_id number now dto sid user as_draft d =
     rbind (check_owner stores sid user) (\<lambda>tid.
     if customers (oi_customer_id dto) \<noteq> Some sid then Inl (EntityNotFoundError ''Customer'')
     else (let o' = new_order new_id number now as_draft sid tid dto in
       if \<not> order_ok o' then Inl (ValidationError ''Order'')
       else rbind (place_stock now as_draft tid (ord_line_items o') (od_stock d)) (\<lambda>(n, db).
         if lookup_by do_id new_id (od_orders d) \<noteq> None then Inl (IntegrityError ''orders_pkey'')
         else (let d1 = d\<lparr>od_stock := db, od_orders := od_orders d @ [\<lparr>do_order = o', do_note = n\<rparr>]\<rparr>
           in Inr (if as_draft then d1 else publish (OrderCreated new_id) d1)))))"

section \<open>Editing an order\<close>

record order_patch =
  op_shipping_address :: "order_address option"
  op_billing_address :: "order_address option"
  op_shipping_cost :: "int option"
  op_tax_amount :: "int option"
  op_discount_amount :: "int option"
  op_payment_method :: "string option"
  op_shipping_method :: "string option"
  op_tracking_number :: "string option"
  op_notes :: "string option"
  op_customer_notes :: "string option"

definition if_given :: "'a option \<Rightarrow> ('a \<Rightarrow> 's \<Rightarrow> 's) \<Rightarrow> 's \<Rightarrow> 's" where
  "if_given v f s = (case v of None \<Rightarrow> s | Some x \<Rightarrow> f x s)"

definition retotal :: "order \<Rightarrow> order" where
  "retotal o' = o'\<lparr>ord_total := ord_subtotal o' + ord_shipping_cost o' + ord_tax_amount o' - ord_discount_amount o'\<rparr>"

text \<open>An assignment to a field is validated: the money columns must not become negative.\<close>

definition set_money :: "int option \<Rightarrow> (int \<Rightarrow> order \<Rightarrow> order) \<Rightarrow> order \<Rightarrow> order result" where
  "set_money v f o' = (case v of
      None \<Rightarrow> Inr o'
    | Some n \<Rightarrow> if n < 0 then Inl (ValidationError ''Order'')
        else (let o2 = retotal (f n o') in if ord_total o2 < 0 then Inl (ValidationError ''Order'') else Inr o2))"

definition patch_order :: "instant \<Rightarrow> order_patch \<Rightarrow> order \<Rightarrow> order result" where
  "patch_order now p o' =
     (let o1 = if_given (op_shipping_address p) (\<lambda>a. ord_shipping_address_update (\<lambda>_. address_of_input a)) o';
          o2 = if_given (op_billing_address p) (\<lambda>a. ord_billing_address_update (\<lambda>_. Some (address_of_input a))) o1
      in rbind (set_money (op_shipping_cost p) (\<lambda>n. ord_shipping_cost_update (\<lambda>_. n)) o2) (\<lambda>o3.
         rbind (set_money (op_tax_amount p) (\<lambda>n. ord_tax_amount_update (\<lambda>_. n)) o3) (\<lambda>o4.
         rbind (set_money (op_discount_amount p) (\<lambda>n. ord_discount_amount_update (\<lambda>_. n)) o4) (\<lambda>o5.
         let o6 = if_given (op_payment_method p) (\<lambda>s. ord_payment_method_update (\<lambda>_. Some s)) o5;
             o7 = if_given (op_shipping_method p) (\<lambda>s. ord_shipping_method_update (\<lambda>_. Some s)) o6;
             o8 = if_given (op_tracking_number p) (\<lambda>s. ord_tracking_number_update (\<lambda>_. Some s)) o7;
             o9 = if_given (op_notes p) (\<lambda>s. ord_notes_update (\<lambda>_. Some s)) o8;
             o10 = if_given (op_customer_notes p) (\<lambda>s. ord_customer_notes_update (\<lambda>_. Some s)) o9
         in Inr (order_touch now o10)))))"

definition update_order :: "store_refs \<Rightarrow> instant \<Rightarrow> uuid \<Rightarrow> order_patch \<Rightarrow> uuid \<Rightarrow> uuid \<Rightarrow> order_desk
    \<Rightarrow> order_desk result" where
  "update_order stores now oid p sid user d =
     rbind (check_owner stores sid user) (\<lambda>_. rbind (find_order oid sid d) (\<lambda>x.
     rbind (patch_order now p (do_order x)) (\<lambda>o'. Inr (save_order (x\<lparr>do_order := o'\<rparr>) d))))"

section \<open>Status changes\<close>

definition order_status_of :: "string \<Rightarrow> order_status option" where
  "order_status_of s = List.find (\<lambda>st. order_status_value st = s)
     [DRAFT, PENDING_DEPOSIT, AWAITING_PAYMENT, PENDING, CONFIRMED, PROCESSING, SHIPPED, DELIVERED, RETURNED,
      CANCELLED, REFUNDED, PAYMENT_FAILED]"

definition apply_status :: "instant \<Rightarrow> order_status \<Rightarrow> string option \<Rightarrow> string option \<Rightarrow> order \<Rightarrow> order result" where
  "apply_status now new reason source o' = (case new of
      CONFIRMED \<Rightarrow> order_confirm now o'
    | PROCESSING \<Rightarrow> order_start_processing now o'
    | SHIPPED \<Rightarrow> order_ship now None None source o'
    | DELIVERED \<Rightarrow> order_deliver now source o'
    | CANCELLED \<Rightarrow> order_cancel now reason o'
    | RETURNED \<Rightarrow> order_return_to_origin now reason o'
    | REFUNDED \<Rightarrow> order_refund now reason o'
    | PAYMENT_FAILED \<Rightarrow> Inr (order_mark_payment_failed now reason o')
    | _ \<Rightarrow>
        if ord_status o' \<in> {CANCELLED, REFUNDED, RETURNED} \<and> \<not> order_can_transition_to new o'
        then Inl (ValueError ''Cannot move order'')
        else Inr (order_touch now (o'\<lparr>ord_status := new\<rparr>)))"

text \<open>No product belongs to no tenant: then every line is passed over and only the note is stamped.\<close>

definition restock_for :: "instant \<Rightarrow> uuid option \<Rightarrow> string option \<Rightarrow> stock_note \<Rightarrow> stock_db \<Rightarrow> stock_note \<times> stock_db" where
  "restock_for now tid reason n db = (case tid of
      Some t \<Rightarrow> snd (restock_order now t reason n db)
    | None \<Rightarrow> (fst (snd (restock_order now 0 reason n \<lparr>sk_products = [], sk_variants = [], sk_levels = []\<rparr>)), db))"

definition update_order_status :: "store_refs \<Rightarrow> instant \<Rightarrow> uuid \<Rightarrow> string \<Rightarrow> string option \<Rightarrow> string option
    \<Rightarrow> uuid \<Rightarrow> uuid \<Rightarrow> order_desk \<Rightarrow> order_desk result" where
  "update_order_status stores now oid st reason source sid user d =
     rbind (check_owner stores sid user) (\<lambda>_. rbind (find_order oid sid d) (\<lambda>x.
     case order_status_of st of
       None \<Rightarrow> Inl (ValidationError ''Invalid order status'')
     | Some new \<Rightarrow>
         rbind (as_validation (apply_status now new reason source (do_order x))) (\<lambda>o'.
         let (n, db) = (if new \<in> {CANCELLED, RETURNED}
               then restock_for now (ord_tenant_id o') reason (do_note x) (od_stock d) else (do_note x, od_stock d));
             d1 = (save_order \<lparr>do_order = o', do_note = n\<rparr> d)\<lparr>od_stock := db\<rparr>;
             old = ord_status (do_order x)
         in Inr (if old = new then d1 else publish (OrderStatusChanged oid old new reason) d1))))"

section \<open>Cash collected by a courier\<close>

definition confirm_cod_payment :: "instant \<Rightarrow> string \<Rightarrow> int \<Rightarrow> order_desk \<Rightarrow> order_desk result" where
  "confirm_cod_payment now tracking cod_amount d =
     (case filter (\<lambda>x. ord_tracking_number (do_order x) = Some tracking) (od_orders d) of
        [] \<Rightarrow> Inl (EntityNotFoundError ''Order'')
      | [x] \<Rightarrow>
          rbind (as_validation (order_deliver now None (do_order x))) (\<lambda>o1.
          rbind (order_mark_as_paid now (''cod-bosta-'' @ tracking) (Some ''cod'') o1) (\<lambda>o2.
          Inr (save_order (x\<lparr>do_order := o2\<lparr>ord_metadata := (ord_metadata o2)(''cod_amount'' \<mapsto> JInt cod_amount,
             ''cod_collected_via'' \<mapsto> JStr ''bosta_webhook'', ''cod_tracking_number'' \<mapsto> JStr tracking)\<rparr>\<rparr>) d)))
      | _ \<Rightarrow> Inl (RuntimeError ''MultipleResultsFound''))"

section \<open>Partial acceptance\<close>

text \<open>A dictionary comprehension: a repeated key keeps its place and takes the last value.\<close>

definition dict_put :: "'k \<times> 'v \<Rightarrow> ('k \<times> 'v) list \<Rightarrow> ('k \<times> 'v) list" where
  "dict_put kv d = (if fst kv \<in> set (map fst d) then map (\<lambda>e. if fst e = fst kv then kv else e) d else d @ [kv])"

definition json_uuid :: "json option \<Rightarrow> uuid option" where
  "json_uuid j = (case j of Some (JUuid u) \<Rightarrow> Some u | _ \<Rightarrow> None)"

definition json_int :: "json option \<Rightarrow> int" where
  "json_int j = (case j of Some (JInt n) \<Rightarrow> n | _ \<Rightarrow> 0)"

definition json_texts :: "json option \<Rightarrow> (string \<times> string) list" where
  "json_texts j = (case j of
      Some (JObj kv) \<Rightarrow> List.map_filter (\<lambda>(k, v). case v of JStr s \<Rightarrow> Some (k, s) | _ \<Rightarrow> None) kv
    | _ \<Rightarrow> [])"

definition returned_manifest_line :: "json \<Rightarrow> manifest_line" where
  "returned_manifest_line j = (case j of
      JObj kv \<Rightarrow> \<lparr>ml_product_id = the (json_uuid (map_of kv ''product_id'')),
        ml_variant_id = json_uuid (map_of kv ''variant_id''), ml_selections = json_texts (map_of kv ''selections''),
        ml_quantity = json_int (map_of kv ''returned_quantity'')\<rparr>
    | _ \<Rightarrow> \<lparr>ml_product_id = 0, ml_variant_id = None, ml_selections = [], ml_quantity = 0\<rparr>)"

definition is_cash :: "string option \<Rightarrow> bool" where
  "is_cash m = (lower (case m of None \<Rightarrow> '''' | Some s \<Rightarrow> s) \<in> set [''cod'', ''cash_on_delivery'', ''cash''])"

definition record_acceptance :: "instant \<Rightarrow> (int \<times> int) list \<Rightarrow> string option \<Rightarrow> bool \<Rightarrow> bool \<Rightarrow> uuid \<Rightarrow> desk_order
    \<Rightarrow> order_desk \<Rightarrow> order_desk result" where
  "record_acceptance now returned reason restock was_paid tid x d =
     rbind (order_record_partial_acceptance now returned reason (do_order x)) (\<lambda>((lines, value, collected), o').
       let (n, db) = (if restock then restock_returned tid (map returned_manifest_line lines) (do_note x) (od_stock d)
             else (do_note x, od_stock d));
           refund_due = (if is_cash (ord_payment_method o') then 0 else if was_paid then value else 0)
       in Inr (publish (OrderPartiallyAccepted (do_id x) value collected refund_due)
            ((save_order \<lparr>do_order = o', do_note = n\<rparr> d)\<lparr>od_stock := db\<rparr>)))"

definition record_partial_acceptance :: "store_refs \<Rightarrow> instant \<Rightarrow> uuid \<Rightarrow> (int \<times> int) list \<Rightarrow> string option \<Rightarrow> bool
    \<Rightarrow> uuid \<Rightarrow> uuid \<Rightarrow> order_desk \<Rightarrow> order_desk result" where
  "record_partial_acceptance stores now oid lines reason restock sid user d =
     (if lines = [] \<or> \<not> list_all (\<lambda>(i, q). 0 \<le> i \<and> 1 \<le> q) lines then Inl (ValidationError ''lines'')
      else rbind (check_owner stores sid user) (\<lambda>tid. rbind (find_order oid sid d) (\<lambda>x.
        let o' = do_order x; returned = fold dict_put lines [] in
        if ord_status o' \<notin> {SHIPPED, DELIVERED}
        then Inl (HTTPException ''Partial acceptance applies to shipped or delivered orders'')
        else if json_truthy (ord_metadata o' ''partial_acceptance'')
        then Inl (HTTPException ''A partial acceptance was already recorded for this order'')
        else case order_record_partial_acceptance now returned reason o' of
            Inl (ValueError e) \<Rightarrow> Inl (HTTPException e)
          | Inl e \<Rightarrow> Inl e
          | Inr _ \<Rightarrow>
              rbind (if ord_status o' = SHIPPED
                then update_order_status stores now oid ''delivered''
                  (if truthy_str reason then reason else Some ''partial acceptance'') None sid user d
                else Inr d) (\<lambda>d1.
              rbind (find_order oid sid d1) (\<lambda>x1.
              record_acceptance now returned reason restock (ord_payment_status o' = PayPaid) tid x1 d1)))))"

datatype order_desk_call =
    DeskCreate uuid string instant order_input uuid uuid bool
  | DeskEdit instant uuid order_patch uuid uuid
  | DeskStatus instant uuid string "string option" "string option" uuid uuid
  | DeskCod instant string int
  | DeskPartial instant uuid "(int \<times> int) list" "string option" bool uuid uuid

fun order_desk_act :: "store_refs \<Rightarrow> (uuid \<Rightarrow> uuid option) \<Rightarrow> order_desk_call \<Rightarrow> order_desk \<Rightarrow> order_desk result" where
  "order_desk_act stores customers (DeskCreate new_id number now dto sid user as_draft) d =
     create_order stores customers new_id number now dto sid user as_draft d"
| "order_desk_act stores customers (DeskEdit now oid p sid user) d = update_order stores now oid p sid user d"
| "order_desk_act stores customers (DeskStatus now oid st reason source sid user) d =
     update_order_status stores now oid st reason source sid user d"
| "order_desk_act stores customers (DeskCod now tracking n) d = confirm_cod_payment now tracking n d"
| "order_desk_act stores customers (DeskPartial now oid lines reason restock sid user) d =
     record_partial_acceptance stores now oid lines reason restock sid user d"

end
