(* ===== verification/Order_Stock.thy ===== *)
theory Order_Stock
  imports Order_Desk
begin

text \<open>
  What the order use cases do to stock. The desk of orders refines the shop of \<open>Stock_Calls\<close>: an
  accepted call of the desk is one call of the shop or leaves its stock and notes alone. The edits and status
  changes keep an order's identity; a closed order never moves again and holds no stock; the totals
  of a created and of an edited order.
\<close>

section \<open>What the order's methods keep\<close>

definition order_ident :: "order \<Rightarrow> uuid \<times> uuid \<times> uuid option" where
  "order_ident o' = (ord_id o', ord_store_id o', ord_tenant_id o')"

lemma ident_frame [simp]:
  "order_ident (order_touch now o') = order_ident o'" "order_ident (stamp_status now st o') = order_ident o'"
  "order_ident (note_reason k r o') = order_ident o'" "order_ident (retotal o') = order_ident o'"
  "order_ident (o'\<lparr>ord_status := st\<rparr>) = order_ident o'" "order_ident (o'\<lparr>ord_metadata := m\<rparr>) = order_ident o'"
  "order_ident (o'\<lparr>ord_payment_status := ps\<rparr>) = order_ident o'"
  by (auto simp: order_ident_def order_touch_def note_reason_def retotal_def stamp_status_def Let_def split: order_status.split)

lemma transition_ident: "order_transition_to now st reason source o' = Inr o2 \<Longrightarrow> order_ident o2 = order_ident o'"
  by (auto simp: order_transition_to_def rbind_Inr_iff)

lemma tracking_ident [simp]:
  "order_ident (o'\<lparr>ord_tracking_number := s\<rparr>) = order_ident o'" "order_ident (o'\<lparr>ord_tracking_url := s\<rparr>) = order_ident o'"
  by (simp_all add: order_ident_def)

lemma ship_ident:
  assumes "order_ship now n u s o' = Inr o2" shows "order_ident o2 = order_ident o'"
proof -
  obtain o3 where "order_transition_to now SHIPPED (Some ''shipped'') s o' = Inr o3"
    and o2: "o2 = o3 \<or> o2 = o3\<lparr>ord_tracking_number := n\<rparr> \<or> o2 = o3\<lparr>ord_tracking_url := u\<rparr>
      \<or> o2 = o3\<lparr>ord_tracking_number := n, ord_tracking_url := u\<rparr>"
    using assms by (simp add: order_ship_def rbind_Inr_iff Let_def split: if_splits) metis+
  from transition_ident [OF this(1)] o2 show ?thesis by (elim disjE) simp_all
qed

lemma apply_status_ident:
  assumes "apply_status now new reason source o' = Inr o2" shows "order_ident o2 = order_ident o'"
  using assms
  by (cases new) (auto simp: apply_status_def order_confirm_def order_start_processing_def order_deliver_def
      order_cancel_def order_return_to_origin_def order_refund_def order_mark_payment_failed_def rbind_Inr_iff
      split: if_splits dest: transition_ident ship_ident)

lemma payment_ident_frame [simp]:
  "order_ident (o'\<lparr>ord_deposit_paid_at := t\<rparr>) = order_ident o'"
  "order_ident (o'\<lparr>ord_deposit_payment_id := s\<rparr>) = order_ident o'"
  "order_ident (o'\<lparr>ord_deposit_gateway := s\<rparr>) = order_ident o'"
  "order_ident (o'\<lparr>ord_payment_id := s\<rparr>) = order_ident o'"
  "order_ident (o'\<lparr>ord_payment_method := s\<rparr>) = order_ident o'"
  "order_ident (o'\<lparr>ord_paid_at := t\<rparr>) = order_ident o'"
  "order_ident (o'\<lparr>ord_collected_total := n\<rparr>) = order_ident o'"
  by (simp_all add: order_ident_def)

lemma mark_as_paid_delivered:
  assumes "order_mark_as_paid now pid m o' = Inr o2" "ord_status o' = DELIVERED"
  shows "order_ident o2 = order_ident o'" "ord_status o2 = DELIVERED"
proof -
  let ?p = "if truthy_str m then o'\<lparr>ord_payment_status := PayPaid, ord_payment_id := Some pid, ord_payment_method := m\<rparr>
    else o'\<lparr>ord_payment_status := PayPaid, ord_payment_id := Some pid\<rparr>"
  have "ord_status ?p = DELIVERED" using assms(2) by simp
  then have o2: "o2 = order_touch now (?p\<lparr>ord_paid_at := Some now\<rparr>)"
    using assms by (simp add: order_mark_as_paid_def Let_def pre_fulfilment_def split del: if_split)
  show "order_ident o2 = order_ident o'" "ord_status o2 = DELIVERED"
    unfolding o2 using assms(2) by simp_all
qed

lemma if_given_keeps: "(\<And>a. g (f a s) = g s) \<Longrightarrow> g (if_given v f s) = g s"
  by (cases v) (simp_all add: if_given_def)

lemma set_money_keeps:
  assumes "set_money v f o' = Inr o2" "\<And>n x. g (f n x) = g x" "\<And>x. g (retotal x) = g x"
  shows "g o2 = g o'"
  using assms by (cases v) (auto simp: set_money_def Let_def split: if_splits)

text \<open>What no edit touches: the identity, the status, the lines, the subtotal.\<close>

definition order_fixed :: "order \<Rightarrow> (uuid \<times> uuid \<times> uuid option) \<times> order_status \<times> order_line_item list \<times> int" where
  "order_fixed o' = (order_ident o', ord_status o', ord_line_items o', ord_subtotal o')"

lemma retotal_fixed: "order_fixed (retotal o') = order_fixed o'"
  by (simp add: order_fixed_def retotal_def order_ident_def)

lemma patch_fixed:
  assumes "patch_order now p o' = Inr o2" shows "order_fixed o2 = order_fixed o'"
proof -
  note keep = if_given_keeps [where g = order_fixed]
  let ?o1 = "if_given (op_shipping_address p) (\<lambda>a. ord_shipping_address_update (\<lambda>_. address_of_input a)) o'"
  let ?o2 = "if_given (op_billing_address p) (\<lambda>a. ord_billing_address_update (\<lambda>_. Some (address_of_input a))) ?o1"
  obtain o3 o4 o5 where s: "set_money (op_shipping_cost p) (\<lambda>n. ord_shipping_cost_update (\<lambda>_. n)) ?o2 = Inr o3"
      "set_money (op_tax_amount p) (\<lambda>n. ord_tax_amount_update (\<lambda>_. n)) o3 = Inr o4"
      "set_money (op_discount_amount p) (\<lambda>n. ord_discount_amount_update (\<lambda>_. n)) o4 = Inr o5"
    and o2: "o2 = order_touch now (if_given (op_customer_notes p) (\<lambda>s. ord_customer_notes_update (\<lambda>_. Some s))
      (if_given (op_notes p) (\<lambda>s. ord_notes_update (\<lambda>_. Some s))
      (if_given (op_tracking_number p) (\<lambda>s. ord_tracking_number_update (\<lambda>_. Some s))
      (if_given (op_shipping_method p) (\<lambda>s. ord_shipping_method_update (\<lambda>_. Some s))
      (if_given (op_payment_method p) (\<lambda>s. ord_payment_method_update (\<lambda>_. Some s)) o5)))))"
    using assms by (auto simp: patch_order_def Let_def rbind_Inr_iff)
  have "order_fixed o2 = order_fixed o5"
    unfolding o2 by (simp add: keep order_fixed_def order_ident_def order_touch_def if_given_def split: option.split)
  moreover have "order_fixed o3 = order_fixed ?o2"
    by (rule set_money_keeps [where g = order_fixed, OF s(1) _ retotal_fixed]) (simp add: order_fixed_def order_ident_def)
  moreover have "order_fixed o4 = order_fixed o3"
    by (rule set_money_keeps [where g = order_fixed, OF s(2) _ retotal_fixed]) (simp add: order_fixed_def order_ident_def)
  moreover have "order_fixed o5 = order_fixed o4"
    by (rule set_money_keeps [where g = order_fixed, OF s(3) _ retotal_fixed]) (simp add: order_fixed_def order_ident_def)
  moreover have "order_fixed ?o2 = order_fixed o'"
    by (simp add: if_given_def order_fixed_def order_ident_def split: option.split)
  ultimately show ?thesis by simp
qed

lemma patch_ident: "patch_order now p o' = Inr o2 \<Longrightarrow> order_ident o2 = order_ident o' \<and> ord_status o2 = ord_status o'"
  using patch_fixed [of now p o' o2] by (simp add: order_fixed_def)

lemma acceptance_ident:
  assumes "order_record_partial_acceptance now returned reason o' = Inr (s, o2)"
  shows "order_ident o2 = order_ident o' \<and> ord_status o2 = ord_status o'"
  using assms by (auto simp: order_record_partial_acceptance_def rbind_Inr_iff Let_def order_ident_def order_touch_def
    split: if_splits)

lemma step_status:
  "order_ship now n u s o' = Inr o2 \<Longrightarrow> ord_status o2 = SHIPPED"
  "order_cancel now r o' = Inr o2 \<Longrightarrow> ord_status o2 = CANCELLED"
  "order_return_to_origin now r o' = Inr o2 \<Longrightarrow> ord_status o2 = RETURNED"
  "order_refund now r o' = Inr o2 \<Longrightarrow> ord_status o2 = REFUNDED"
proof -
  assume a: "order_ship now n u s o' = Inr o2"
  then obtain o3 where o3: "order_transition_to now SHIPPED (Some ''shipped'') s o' = Inr o3"
    by (auto simp only: order_ship_def rbind_Inr_iff split: if_splits)
  have "ord_status o2 = ord_status o3"
    using a by (simp add: order_ship_def Let_def o3 split: if_splits) auto
  then show "ord_status o2 = SHIPPED" using order_transition_routed [OF o3] by simp
next
  assume "order_cancel now r o' = Inr o2"
  then obtain o3 where o3: "order_transition_to now CANCELLED r None o' = Inr o3" and o2: "o2 = note_reason ''cancellation_reason'' r o3"
    by (auto simp: order_cancel_def rbind_Inr_iff split: if_splits)
  show "ord_status o2 = CANCELLED" unfolding o2 using order_transition_routed [OF o3] by simp
next
  assume "order_return_to_origin now r o' = Inr o2"
  then obtain o3 where o3: "order_transition_to now RETURNED r None o' = Inr o3" and o2: "o2 = note_reason ''return_reason'' r o3"
    by (auto simp: order_return_to_origin_def rbind_Inr_iff)
  show "ord_status o2 = RETURNED" unfolding o2 using order_transition_routed [OF o3] by simp
next
  assume "order_refund now r o' = Inr o2"
  then obtain o3 where o3: "order_transition_to now REFUNDED r None o' = Inr o3"
    and o2: "o2 = note_reason ''refund_reason'' r (o3\<lparr>ord_payment_status := PayRefunded\<rparr>)"
    by (auto simp: order_refund_def rbind_Inr_iff split: if_splits)
  show "ord_status o2 = REFUNDED" unfolding o2 using order_transition_routed [OF o3] by simp
qed

text \<open>The table is followed, or the field is set outright; a closed order is never moved.\<close>

lemma apply_status_moves:
  assumes "apply_status now new reason source o' = Inr o2"
  shows "ord_status o2 = (if new = PAYMENT_FAILED then ord_status o' else new)
    \<and> (new \<in> set (order_next (ord_status o')) \<or> ord_status o' \<notin> {CANCELLED, REFUNDED, RETURNED} \<or> new = PAYMENT_FAILED)"
  using assms
proof (cases new)
  case SHIPPED
  then have "order_ship now None None source o' = Inr o2" using assms by (simp add: apply_status_def)
  from order_ship_routed [OF this] step_status(1) [OF this] show ?thesis by (simp add: SHIPPED order_routed_def)
next
  case CANCELLED
  then have "order_cancel now reason o' = Inr o2" using assms by (simp add: apply_status_def)
  from order_cancel_routed [OF this] step_status(2) [OF this] show ?thesis by (simp add: CANCELLED order_routed_def)
next
  case RETURNED
  then have "order_return_to_origin now reason o' = Inr o2" using assms by (simp add: apply_status_def)
  from order_return_routed [OF this] step_status(3) [OF this] show ?thesis by (simp add: RETURNED order_routed_def)
next
  case REFUNDED
  then have "order_refund now reason o' = Inr o2" using assms by (simp add: apply_status_def)
  from order_refund_routed [OF this] step_status(4) [OF this] show ?thesis by (simp add: REFUNDED order_routed_def)
next
  case CONFIRMED
  then have "order_transition_to now CONFIRMED (Some ''confirmed'') None o' = Inr o2"
    using assms by (simp add: apply_status_def order_confirm_def split: if_splits)
  from order_transition_routed [OF this] show ?thesis by (auto simp add: CONFIRMED order_routed_def)
next
  case PROCESSING
  then have "order_transition_to now PROCESSING (Some ''processing'') None o' = Inr o2"
    using assms by (simp add: apply_status_def order_start_processing_def split: if_splits)
  from order_transition_routed [OF this] show ?thesis by (auto simp add: PROCESSING order_routed_def)
next
  case DELIVERED
  then have "order_transition_to now DELIVERED (Some ''delivered'') source o' = Inr o2"
    using assms by (simp add: apply_status_def order_deliver_def split: if_splits)
  from order_transition_routed [OF this] show ?thesis by (auto simp add: DELIVERED order_routed_def)
next
  case PAYMENT_FAILED
  then have "order_mark_payment_failed now reason o' = o2" using assms by (simp add: apply_status_def)
  then show ?thesis using order_payment_marks_quiet(1) [of o' now reason] by (simp add: PAYMENT_FAILED order_quiet_def)
qed (auto simp: apply_status_def order_can_transition_to_def split: if_splits)

lemma closed_next: "ord_status o' \<in> {CANCELLED, REFUNDED, RETURNED} \<Longrightarrow> order_next (ord_status o') = []"
  by (auto simp: order_next_def)

lemma apply_status_status:
  assumes "apply_status now new reason source o' = Inr o2"
  shows "ord_status o2 = (if new = PAYMENT_FAILED then ord_status o' else new)"
    "ord_status o' \<in> {CANCELLED, REFUNDED, RETURNED} \<Longrightarrow> new = PAYMENT_FAILED"
  using apply_status_moves [OF assms] closed_next [of o'] by auto

section \<open>The stock behind the orders\<close>

definition shop_view :: "desk_order \<Rightarrow> shop_order" where
  "shop_view x = \<lparr>so_id = do_id x, so_tenant = the (ord_tenant_id (do_order x)), so_note = do_note x\<rparr>"

definition shop_of :: "order_desk \<Rightarrow> shop" where
  "shop_of d = \<lparr>sh_stock = od_stock d, sh_orders = map shop_view (od_orders d)\<rparr>"

definition desk_order_ok :: "store_refs \<Rightarrow> desk_order \<Rightarrow> bool" where
  "desk_order_ok stores x \<longleftrightarrow>
     (case stores (ord_store_id (do_order x)) of None \<Rightarrow> False | Some (_, tid) \<Rightarrow> ord_tenant_id (do_order x) = Some tid)
     \<and> (ord_status (do_order x) \<in> {CANCELLED, RETURNED} \<longrightarrow> held (do_note x) = [])"

definition order_desk_ok :: "store_refs \<Rightarrow> order_desk \<Rightarrow> bool" where
  "order_desk_ok stores d \<longleftrightarrow> shop_ok (shop_of d) \<and> list_all (desk_order_ok stores) (od_orders d)"

lemma shop_view_id [simp]: "so_id (shop_view x) = do_id x"
  by (simp add: shop_view_def)

lemma lookup_view: "lookup_by so_id oid (map shop_view xs) = map_option shop_view (lookup_by do_id oid xs)"
  by (induction xs) simp_all

lemma replace_view: "map shop_view (replace_by do_id x xs) = replace_by so_id (shop_view x) (map shop_view xs)"
  by (induction xs) (simp_all add: replace_by_def)

text \<open>Saving an order: its identity is the stored one's, so the shop sees its note and stock change only.\<close>

definition resave :: "desk_order \<Rightarrow> stock_db \<Rightarrow> order_desk \<Rightarrow> order_desk" where
  "resave y db d = (save_order y d)\<lparr>od_stock := db\<rparr>"

lemma resave_shop:
  assumes "lookup_by do_id oid (od_orders d) = Some x" "order_ident (do_order y) = order_ident (do_order x)"
  shows "shop_of (resave y db d) = set_note (shop_view x) (do_note y) db (shop_of d)"
  using assms by (simp add: shop_of_def resave_def save_order_def set_note_def replace_view order_ident_def shop_view_def do_id_def)

lemma shop_of_publish [simp]: "shop_of (publish e d) = shop_of d" "od_orders (publish e d) = od_orders d"
  by (simp_all add: shop_of_def publish_def)

lemma find_order_Inr:
  assumes "find_order oid sid d = Inr x"
  shows "lookup_by do_id oid (od_orders d) = Some x" "x \<in> set (od_orders d)" "do_id x = oid" "ord_store_id (do_order x) = sid"
proof -
  show l: "lookup_by do_id oid (od_orders d) = Some x" and "ord_store_id (do_order x) = sid"
    using assms by (auto simp: find_order_def split: option.splits if_splits)
  then show "x \<in> set (od_orders d)" "do_id x = oid" using lookup_by_in [OF l] by simp_all
qed

lemma set_note_same:
  assumes "shop_ok s" "lookup_by so_id oid (sh_orders s) = Some o'"
  shows "set_note o' (so_note o') (sh_stock s) s = s"
proof -
  have d: "distinct (map so_id (sh_orders s))" using assms(1) by (simp add: shop_ok_def)
  have "map (\<lambda>x. if so_id x = so_id o' then o' else x) (sh_orders s) = sh_orders s"
    using lookup_by_in [OF assms(2)] d by (intro map_idI) (auto simp: distinct_map inj_on_def)
  then show ?thesis by (cases s) (simp add: set_note_def replace_by_def)
qed

section \<open>One call of the desk\<close>

lemma check_owner_Inr: "check_owner stores sid user = Inr tid \<longleftrightarrow> stores sid = Some (user, tid)"
  by (auto simp: check_owner_def split: option.splits if_splits)

lemma post_init_frame [simp]:
  "order_ident (order_post_init o') = order_ident o'" "ord_status (order_post_init o') = ord_status o'"
  "ord_line_items (order_post_init o') = ord_line_items o'"
  by (simp_all add: order_post_init_def order_ident_def Let_def)

lemma new_order_frame:
  "order_ident (new_order i num now as_draft sid tid dto) = (i, sid, Some tid)"
  "ord_line_items (new_order i num now as_draft sid tid dto) = map line_of_input (oi_line_items dto)"
  "ord_status (new_order i num now as_draft sid tid dto) = (if as_draft then DRAFT else PENDING)"
  by (simp_all add: new_order_def) (simp add: order_ident_def)

lemma place_stock_draft: "place_stock now True tid lis db = Inr (no_stock_note, db)"
  by (simp add: place_stock_def)

lemma create_order_Inr:
  assumes "create_order stores customers i num now dto sid user as_draft d = Inr d'"
  obtains tid n db where "stores sid = Some (user, tid)" "customers (oi_customer_id dto) = Some sid"
    "order_ok (new_order i num now as_draft sid tid dto)"
    "place_stock now as_draft tid (map line_of_input (oi_line_items dto)) (od_stock d) = Inr (n, db)"
    "lookup_by do_id i (od_orders d) = None"
    "od_stock d' = db"
    "od_orders d' = od_orders d @ [\<lparr>do_order = new_order i num now as_draft sid tid dto, do_note = n\<rparr>]"
    "od_events d' = od_events d @ (if as_draft then [] else [OrderCreated i])"
proof -
  obtain tid where c: "check_owner stores sid user = Inr tid"
    using assms by (auto simp: create_order_def rbind_Inr_iff)
  let ?o = "new_order i num now as_draft sid tid dto"
  have cu: "customers (oi_customer_id dto) = Some sid" and ok: "order_ok ?o"
    and rest: "rbind (place_stock now as_draft tid (ord_line_items ?o) (od_stock d)) (\<lambda>(n, db).
         if lookup_by do_id i (od_orders d) \<noteq> None then Inl (IntegrityError ''orders_pkey'')
         else (let d1 = d\<lparr>od_stock := db, od_orders := od_orders d @ [\<lparr>do_order = ?o, do_note = n\<rparr>]\<rparr>
           in Inr (if as_draft then d1 else publish (OrderCreated i) d1))) = Inr d'"
    using assms unfolding create_order_def c rbind_simps Let_def by (simp_all split: if_splits)
  from rest obtain n db where pl: "place_stock now as_draft tid (ord_line_items ?o) (od_stock d) = Inr (n, db)"
    and l: "lookup_by do_id i (od_orders d) = None"
    and d': "d' = (let d1 = d\<lparr>od_stock := db, od_orders := od_orders d @ [\<lparr>do_order = ?o, do_note = n\<rparr>]\<rparr>
           in if as_draft then d1 else publish (OrderCreated i) d1)"
    by (auto simp: rbind_Inr_iff Let_def simp del: not_None_eq split: if_splits)
  show thesis
    by (rule that [of tid n db]) (use c cu ok pl l in \<open>simp_all add: check_owner_Inr new_order_frame d' Let_def publish_def\<close>)
qed

lemma create_order_step:
  assumes ok: "order_desk_ok stores d"
    and c: "create_order stores customers i num now dto sid user as_draft d = Inr d'"
    and tid: "stores sid = Some (user, tid)"
  shows "order_desk_ok stores d'"
    "shop_act (PlaceOrder now as_draft tid i (map line_of_input (oi_line_items dto))) (shop_of d) = Inr (shop_of d')"
proof -
  let ?lis = "map line_of_input (oi_line_items dto)"
  obtain n db where t: "order_ok (new_order i num now as_draft sid tid dto)"
    "place_stock now as_draft tid ?lis (od_stock d) = Inr (n, db)" "lookup_by do_id i (od_orders d) = None"
    and d': "od_stock d' = db" "od_orders d' = od_orders d @ [\<lparr>do_order = new_order i num now as_draft sid tid dto, do_note = n\<rparr>]"
    using create_order_Inr [OF c] tid by (metis Pair_inject option.inject)
  let ?x = "\<lparr>do_order = new_order i num now as_draft sid tid dto, do_note = n\<rparr>"
  note fr = new_order_frame [of i num now as_draft sid tid dto]
  have ident: "ord_id (do_order ?x) = i" "ord_store_id (do_order ?x) = sid" "ord_tenant_id (do_order ?x) = Some tid"
    using fr(1) by (simp_all add: order_ident_def)
  have "list_all order_line_ok ?lis" using t(1) fr(2) by (simp add: order_ok_def list_all_iff)
  then show step: "shop_act (PlaceOrder now as_draft tid i ?lis) (shop_of d) = Inr (shop_of d')"
    using t(2,3) ident by (simp add: shop_of_def lookup_view d' shop_view_def do_id_def)
  have "shop_ok (shop_of d')"
    using place_step [OF _ step] ok by (simp add: order_desk_ok_def shop_step_def)
  moreover have "desk_order_ok stores ?x" using ident tid fr(3) by (simp add: desk_order_ok_def)
  ultimately show "order_desk_ok stores d'" using ok by (simp add: order_desk_ok_def d')
qed

text \<open>An order saved with its stock change, in the desk and in the shop.\<close>

lemma resave_ok:
  assumes ok: "order_desk_ok stores d" and l: "lookup_by do_id oid (od_orders d) = Some x"
    and y: "order_ident (do_order y) = order_ident (do_order x)"
      "ord_status (do_order y) \<in> {CANCELLED, RETURNED} \<Longrightarrow> held (do_note y) = []"
    and s: "shop_ok (set_note (shop_view x) (do_note y) db (shop_of d))"
  shows "order_desk_ok stores (resave y db d)"
proof -
  have "desk_order_ok stores x" using ok lookup_by_in [OF l] by (simp add: order_desk_ok_def list_all_iff)
  then have "desk_order_ok stores y" using y by (auto simp: desk_order_ok_def order_ident_def split: option.splits)
  then have "list_all (desk_order_ok stores) (od_orders (resave y db d))"
    using ok in_replace [of _ do_id y] by (fastforce simp: order_desk_ok_def list_all_iff resave_def save_order_def)
  then show ?thesis using s resave_shop [OF l y(1), of db] by (simp add: order_desk_ok_def)
qed

lemma lookup_shop:
  "lookup_by do_id oid (od_orders d) = Some x \<Longrightarrow> lookup_by so_id oid (sh_orders (shop_of d)) = Some (shop_view x)"
  by (simp add: shop_of_def lookup_view)

text \<open>A save that leaves note and stock alone is not seen by the shop.\<close>

lemma quiet_save:
  assumes ok: "order_desk_ok stores d" and l: "lookup_by do_id oid (od_orders d) = Some x"
    and y: "order_ident o' = order_ident (do_order x)"
      "ord_status o' \<in> {CANCELLED, RETURNED} \<Longrightarrow> held (do_note x) = []"
  shows "order_desk_ok stores (save_order (x\<lparr>do_order := o'\<rparr>) d)"
    "shop_of (save_order (x\<lparr>do_order := o'\<rparr>) d) = shop_of d"
proof -
  let ?y = "x\<lparr>do_order := o'\<rparr>"
  have r: "save_order ?y d = resave ?y (od_stock d) d" by (simp add: resave_def save_order_def)
  have same: "set_note (shop_view x) (do_note ?y) (od_stock d) (shop_of d) = shop_of d"
    using set_note_same [OF _ lookup_shop [OF l]] ok by (simp add: order_desk_ok_def shop_view_def) (simp add: shop_of_def)
  show "shop_of (save_order ?y d) = shop_of d"
    using resave_shop [OF l, of ?y "od_stock d"] y(1) same by (simp add: r)
  show "order_desk_ok stores (save_order ?y d)"
    unfolding r by (rule resave_ok [OF ok l]) (use y ok same in \<open>simp_all add: order_desk_ok_def\<close>)
qed

lemma edit_step:
  assumes ok: "order_desk_ok stores d" and c: "update_order stores now oid p sid user d = Inr d'"
  shows "order_desk_ok stores d'" "shop_of d' = shop_of d"
proof -
  obtain x o' where f: "find_order oid sid d = Inr x" and p: "patch_order now p (do_order x) = Inr o'"
    and d': "d' = save_order (x\<lparr>do_order := o'\<rparr>) d"
    using c by (auto simp: update_order_def rbind_Inr_iff)
  note fx = find_order_Inr [OF f]
  have x: "ord_status (do_order x) \<in> {CANCELLED, RETURNED} \<Longrightarrow> held (do_note x) = []"
    using ok fx(2) by (auto simp: order_desk_ok_def list_all_iff desk_order_ok_def)
  note q = quiet_save [OF ok fx(1), of o']
  show "order_desk_ok stores d'" "shop_of d' = shop_of d"
    using q x patch_ident [OF p] by (simp_all add: d')
qed

lemma cod_step:
  assumes ok: "order_desk_ok stores d" and c: "confirm_cod_payment now tracking n d = Inr d'"
  shows "order_desk_ok stores d'" "shop_of d' = shop_of d"
proof -
  obtain x where f: "filter (\<lambda>x. ord_tracking_number (do_order x) = Some tracking) (od_orders d) = [x]"
    using c by (auto simp: confirm_cod_payment_def split: list.splits)
  then obtain o1 o2 where o1: "as_validation (order_deliver now None (do_order x)) = Inr o1"
    and o2: "order_mark_as_paid now (''cod-bosta-'' @ tracking) (Some ''cod'') o1 = Inr o2"
    and d': "d' = save_order (x\<lparr>do_order := o2\<lparr>ord_metadata := (ord_metadata o2)(''cod_amount'' \<mapsto> JInt n,
             ''cod_collected_via'' \<mapsto> JStr ''bosta_webhook'', ''cod_tracking_number'' \<mapsto> JStr tracking)\<rparr>\<rparr>) d"
    using c by (auto simp: confirm_cod_payment_def rbind_Inr_iff)
  have tr: "order_transition_to now DELIVERED (Some ''delivered'') None (do_order x) = Inr o1"
    using o1 by (auto simp: order_deliver_def as_validation_def split: if_splits sum.splits exn.splits)
  have st: "ord_status o1 = DELIVERED" using order_transition_routed [OF tr] by simp
  note paid = mark_as_paid_delivered [OF o2 st]
  have "x \<in> set (filter (\<lambda>x. ord_tracking_number (do_order x) = Some tracking) (od_orders d))" unfolding f by simp
  then have "x \<in> set (od_orders d)" by simp
  then have l: "lookup_by do_id (do_id x) (od_orders d) = Some x"
    using ok by (simp add: order_desk_ok_def shop_ok_def shop_of_def comp_def lookup_by_Some)
  show "order_desk_ok stores d'" "shop_of d' = shop_of d"
    unfolding d' by (rule quiet_save [OF ok l]; simp add: paid transition_ident [OF tr])+
qed

lemma ok_publish [simp]: "order_desk_ok stores (publish e d) = order_desk_ok stores d"
  by (simp add: order_desk_ok_def)

lemma restock_order_held: "held (fst (snd (restock_order now t reason n db))) = []"
proof (cases "manifest_of n = []")
  case True
  have "minus_restocked [] ds = []" for ds by (induction ds) (simp_all add: minus_restocked_def)
  then show ?thesis using True by (simp add: restock_order_def held_def)
next
  case False
  then show ?thesis by (auto simp: restock_order_def Let_def held_def split: prod.split)
qed

lemma restock_for_Some:
  "restock_for now (Some t) reason n db = (fst (snd (restock_order now t reason n db)), snd (snd (restock_order now t reason n db)))"
  by (simp add: restock_for_def)

lemma desk_order_tenant: "desk_order_ok stores x \<Longrightarrow> ord_tenant_id (do_order x) = Some (the (ord_tenant_id (do_order x)))"
  by (auto simp: desk_order_ok_def split: option.splits)

definition puts_back :: "string \<Rightarrow> bool" where
  "puts_back st \<longleftrightarrow> order_status_of st \<in> {Some CANCELLED, Some RETURNED}"

lemma status_Inr:
  assumes "update_order_status stores now oid st reason source sid user d = Inr d'"
  obtains x new o' where "find_order oid sid d = Inr x" "order_status_of st = Some new" "stores sid \<noteq> None"
    "apply_status now new reason source (do_order x) = Inr o'"
    "new \<notin> {CANCELLED, RETURNED} \<longrightarrow> d' = save_order (x\<lparr>do_order := o'\<rparr>) d
       \<or> (\<exists>e. d' = publish e (save_order (x\<lparr>do_order := o'\<rparr>) d))"
    "new \<in> {CANCELLED, RETURNED} \<longrightarrow> (case restock_for now (ord_tenant_id o') reason (do_note x) (od_stock d) of
       (n, db) \<Rightarrow> d' = resave \<lparr>do_order = o', do_note = n\<rparr> db d \<or> (\<exists>e. d' = publish e (resave \<lparr>do_order = o', do_note = n\<rparr> db d)))"
proof -
  obtain tid x where c: "check_owner stores sid user = Inr tid" and f: "find_order oid sid d = Inr x"
    using assms by (auto simp: update_order_status_def rbind_Inr_iff)
  obtain new where n: "order_status_of st = Some new"
    using assms by (auto simp: update_order_status_def c f split: option.splits)
  obtain o' where v: "as_validation (apply_status now new reason source (do_order x)) = Inr o'"
    using assms by (auto simp: update_order_status_def c f n rbind_Inr_iff)
  then have a: "apply_status now new reason source (do_order x) = Inr o'"
    by (auto simp: as_validation_def split: sum.splits exn.splits)
  have x: "\<lparr>do_order = o', do_note = do_note x\<rparr> = x\<lparr>do_order := o'\<rparr>" by (cases x) simp
  have s: "(save_order y d)\<lparr>od_stock := od_stock d\<rparr> = save_order y d" for y by (simp add: save_order_def)
  show thesis
  proof (rule that [OF f n _ a])
    show "stores sid \<noteq> None" using c by (simp add: check_owner_Inr)
    show "new \<notin> {CANCELLED, RETURNED} \<longrightarrow> d' = save_order (x\<lparr>do_order := o'\<rparr>) d
       \<or> (\<exists>e. d' = publish e (save_order (x\<lparr>do_order := o'\<rparr>) d))"
      using assms by (auto simp: update_order_status_def c f n v Let_def x s split: if_splits)
    show "new \<in> {CANCELLED, RETURNED} \<longrightarrow> (case restock_for now (ord_tenant_id o') reason (do_note x) (od_stock d) of
       (n, db) \<Rightarrow> d' = resave \<lparr>do_order = o', do_note = n\<rparr> db d \<or> (\<exists>e. d' = publish e (resave \<lparr>do_order = o', do_note = n\<rparr> db d)))"
      using assms by (auto simp: update_order_status_def c f n v Let_def resave_def split: if_splits prod.splits)
  qed
qed

lemma status_step:
  assumes ok: "order_desk_ok stores d" and c: "update_order_status stores now oid st reason source sid user d = Inr d'"
  shows "order_desk_ok stores d'"
    "if puts_back st then shop_act (OrderGone now oid reason) (shop_of d) = Inr (shop_of d') else shop_of d' = shop_of d"
proof -
  obtain x new o' where f: "find_order oid sid d = Inr x" and n: "order_status_of st = Some new" "stores sid \<noteq> None"
    and a: "apply_status now new reason source (do_order x) = Inr o'"
    and keep: "new \<notin> {CANCELLED, RETURNED} \<longrightarrow> d' = save_order (x\<lparr>do_order := o'\<rparr>) d
       \<or> (\<exists>e. d' = publish e (save_order (x\<lparr>do_order := o'\<rparr>) d))"
    and undone: "new \<in> {CANCELLED, RETURNED} \<longrightarrow> (case restock_for now (ord_tenant_id o') reason (do_note x) (od_stock d) of
       (n, db) \<Rightarrow> d' = resave \<lparr>do_order = o', do_note = n\<rparr> db d \<or> (\<exists>e. d' = publish e (resave \<lparr>do_order = o', do_note = n\<rparr> db d)))"
    by (rule status_Inr [OF c])
  note fx = find_order_Inr [OF f] and ident = apply_status_ident [OF a] and st = apply_status_status [OF a]
  have x: "desk_order_ok stores x" using ok fx(2) by (simp add: order_desk_ok_def list_all_iff)
  have "order_desk_ok stores d' \<and> (if puts_back st then shop_act (OrderGone now oid reason) (shop_of d) = Inr (shop_of d')
    else shop_of d' = shop_of d)"
  proof (cases "new \<in> {CANCELLED, RETURNED}")
    case False
    have "held (do_note x) = []" if "ord_status o' \<in> {CANCELLED, RETURNED}"
      using that st False x by (auto simp: desk_order_ok_def split: if_splits)
    then have "order_desk_ok stores (save_order (x\<lparr>do_order := o'\<rparr>) d)"
      "shop_of (save_order (x\<lparr>do_order := o'\<rparr>) d) = shop_of d"
      using quiet_save [OF ok fx(1) ident] by blast+
    moreover have "\<not> puts_back st" using False by (simp add: puts_back_def n)
    ultimately show ?thesis using keep False by auto
  next
    case True
    obtain t where t: "ord_tenant_id (do_order x) = Some t" using desk_order_tenant [OF x] by blast
    then have t': "ord_tenant_id o' = Some t" using ident by (simp add: order_ident_def)
    obtain b m db where r: "restock_order now t reason (do_note x) (od_stock d) = (b, m, db)"
      using prod_cases3 by blast
    let ?y = "\<lparr>do_order = o', do_note = m\<rparr>"
    have d': "d' = resave ?y db d \<or> (\<exists>e. d' = publish e (resave ?y db d))"
      using mp [OF undone True] by (simp add: restock_for_Some t' r)
    have sh: "shop_of (resave ?y db d) = set_note (shop_view x) m db (shop_of d)"
      using resave_shop [OF fx(1), of ?y db] ident by simp
    have act: "shop_act (OrderGone now oid reason) (shop_of d) = Inr (shop_of (resave ?y db d))"
      unfolding sh using r t by (simp add: with_order_def lookup_shop [OF fx(1)]) (simp add: shop_view_def shop_of_def)
    have "shop_ok (shop_of (resave ?y db d))"
      using gone_step [OF _ act] ok by (simp add: order_desk_ok_def shop_step_def)
    moreover have "held m = []" using restock_order_held [of now t reason "do_note x" "od_stock d"] by (simp add: r)
    ultimately have "order_desk_ok stores (resave ?y db d)"
      using resave_ok [OF ok fx(1), of ?y db] ident sh by simp
    moreover have "puts_back st" using True by (auto simp: puts_back_def n)
    ultimately show ?thesis using d' act by auto
  qed
  then show "order_desk_ok stores d'"
    "if puts_back st then shop_act (OrderGone now oid reason) (shop_of d) = Inr (shop_of d') else shop_of d' = shop_of d"
    by blast+
qed

lemma minus_restocked_Nil: "minus_restocked [] ds = []"
  by (induction ds) (simp_all add: minus_restocked_def)

lemma restock_returned_held: "held n = [] \<Longrightarrow> held (fst (restock_returned t lines n db)) = []"
  by (auto simp: restock_returned_def held_def manifest_of_def case_prod_unfold Let_def minus_restocked_Nil
      minus_restocked_def [of _ "_ @ _"] minus_restocked_def [symmetric] split: if_splits)

text \<open>The lines a partial acceptance puts back have the quantities of the request.\<close>

lemma return_step_line:
  assumes "return_step o' e (ls, v) = Inr (ls', v')"
  shows "\<exists>j. ls' = ls @ [j] \<and> ml_quantity (returned_manifest_line j) = snd e \<and> 1 \<le> snd e"
  using assms
  by (cases e) (auto simp: return_step_def Let_def returned_line_def returned_manifest_line_def json_int_def split: if_splits)

lemma return_steps_lines:
  assumes "foldM (return_step o') rs (ls, v) = Inr (ls', v')"
    and "\<forall>j\<in>set ls. 1 \<le> ml_quantity (returned_manifest_line j)"
  shows "\<forall>j\<in>set ls'. 1 \<le> ml_quantity (returned_manifest_line j)"
  using assms
proof (induction rs arbitrary: ls v)
  case (Cons e rs)
  obtain l2 v2 where s: "return_step o' e (ls, v) = Inr (l2, v2)" "foldM (return_step o') rs (l2, v2) = Inr (ls', v')"
    using Cons.prems(1) by (auto simp: rbind_Inr_iff)
  from return_step_line [OF s(1)] Cons.prems(2) have "\<forall>j\<in>set l2. 1 \<le> ml_quantity (returned_manifest_line j)" by auto
  from Cons.IH [OF s(2) this] show ?case .
qed simp

lemma acceptance_lines:
  assumes "order_record_partial_acceptance now returned reason o' = Inr ((lines, worth, collected), o2)"
  shows "list_all (\<lambda>m. 1 \<le> ml_quantity m) (map returned_manifest_line lines)"
proof -
  have "\<exists>acc. foldM (return_step o') returned ([], 0) = Inr acc \<and> fst acc = lines"
    using assms by (auto simp: order_record_partial_acceptance_def rbind_Inr_iff Let_def split: if_splits)
  then obtain v where "foldM (return_step o') returned ([], 0) = Inr (lines, v)" by (metis prod.collapse)
  from return_steps_lines [OF this] show ?thesis by (simp add: list_all_iff)
qed

lemma acceptance_step:
  assumes ok: "order_desk_ok stores d" and f: "find_order oid sid d = Inr x" and tid: "stores sid = Some (user, tid)"
    and c: "record_acceptance now returned reason restock was_paid tid x d = Inr d'"
  shows "order_desk_ok stores d'"
    "if restock then (\<exists>lines. shop_act (PiecesReturned oid lines) (shop_of d) = Inr (shop_of d')) else shop_of d' = shop_of d"
proof -
  note fx = find_order_Inr [OF f]
  have x: "desk_order_ok stores x" using ok fx(2) by (simp add: order_desk_ok_def list_all_iff)
  then have t: "ord_tenant_id (do_order x) = Some tid" using tid fx(4) by (simp add: desk_order_ok_def)
  obtain lines worth collected o' where a: "order_record_partial_acceptance now returned reason (do_order x) = Inr ((lines, worth, collected), o')"
    using c by (auto simp: record_acceptance_def rbind_Inr_iff)
  note ident = acceptance_ident [OF a]
  let ?ms = "map returned_manifest_line lines"
  let ?r = "if restock then restock_returned tid ?ms (do_note x) (od_stock d) else (do_note x, od_stock d)"
  let ?y = "\<lparr>do_order = o', do_note = fst ?r\<rparr>" and ?d = "resave \<lparr>do_order = o', do_note = fst ?r\<rparr> (snd ?r) d"
  have d': "\<exists>e. d' = publish e ?d"
    using c by (auto simp: record_acceptance_def a Let_def resave_def case_prod_unfold)
  have sh: "shop_of ?d = set_note (shop_view x) (fst ?r) (snd ?r) (shop_of d)"
    using resave_shop [OF fx(1), of ?y "snd ?r"] ident by simp
  have act: "if restock then shop_act (PiecesReturned oid ?ms) (shop_of d) = Inr (shop_of ?d) else shop_of ?d = shop_of d"
  proof (cases restock)
    case True
    then show ?thesis unfolding sh using acceptance_lines [OF a] t
      by (simp add: with_order_def lookup_shop [OF fx(1)]) (simp add: shop_view_def shop_of_def case_prod_unfold)
  next
    case False
    then show ?thesis unfolding sh
      using set_note_same [OF _ lookup_shop [OF fx(1)]] ok by (simp add: order_desk_ok_def shop_view_def) (simp add: shop_of_def)
  qed
  have "shop_ok (shop_of ?d)"
    using returned_step [of "shop_of d" oid ?ms "shop_of ?d"] act ok
    by (auto simp: order_desk_ok_def shop_step_def simp del: shop_act.simps split: if_splits)
  moreover have "held (fst ?r) = []" if st: "ord_status o' \<in> {CANCELLED, RETURNED}"
  proof -
    have "held (do_note x) = []" using x ident st by (auto simp: desk_order_ok_def)
    then show ?thesis by (simp add: restock_returned_held)
  qed
  ultimately have "order_desk_ok stores ?d"
    using resave_ok [OF ok fx(1), of ?y "snd ?r"] ident sh by simp
  then show "order_desk_ok stores d'" using d' by auto
  show "if restock then (\<exists>lines. shop_act (PiecesReturned oid lines) (shop_of d) = Inr (shop_of d')) else shop_of d' = shop_of d"
    using d' act by (auto simp del: shop_act.simps split: if_splits)
qed

lemma partial_Inr:
  assumes c: "record_partial_acceptance stores now oid lines reason restock sid user d = Inr d'"
  obtains tid and x :: desk_order and d1 x1 why where "(if ord_status (do_order x) = SHIPPED
      then update_order_status stores now oid ''delivered'' why None sid user d else Inr d) = Inr d1"
    "find_order oid sid d1 = Inr x1"
    "record_acceptance now (fold dict_put lines []) reason restock (ord_payment_status (do_order x) = PayPaid) tid x1 d1 = Inr d'"
    "stores sid = Some (user, tid)"
proof -
  let ?why = "if truthy_str reason then reason else Some ''partial acceptance''"
  obtain tid x where tid: "check_owner stores sid user = Inr tid" and x: "find_order oid sid d = Inr x"
    using c by (auto simp: record_partial_acceptance_def rbind_Inr_iff split: if_splits)
  obtain r where r: "order_record_partial_acceptance now (fold dict_put lines []) reason (do_order x) = Inr r"
    using c by (auto simp: record_partial_acceptance_def tid x Let_def split: if_splits sum.splits exn.splits)
  obtain d1 x1 where "(if ord_status (do_order x) = SHIPPED
      then update_order_status stores now oid ''delivered'' ?why None sid user d else Inr d) = Inr d1"
    "find_order oid sid d1 = Inr x1"
    "record_acceptance now (fold dict_put lines []) reason restock (ord_payment_status (do_order x) = PayPaid) tid x1 d1 = Inr d'"
    using c by (auto simp: record_partial_acceptance_def tid x r Let_def rbind_Inr_iff split: if_splits)
  then show thesis by (rule that) (use tid in \<open>simp add: check_owner_Inr\<close>)
qed

lemma partial_step:
  assumes ok: "order_desk_ok stores d"
    and c: "record_partial_acceptance stores now oid lines reason restock sid user d = Inr d'"
  shows "order_desk_ok stores d'"
    "if restock then (\<exists>ms. shop_act (PiecesReturned oid ms) (shop_of d) = Inr (shop_of d')) else shop_of d' = shop_of d"
proof -
  obtain tid and x :: desk_order and d1 x1 why where d1: "(if ord_status (do_order x) = SHIPPED
      then update_order_status stores now oid ''delivered'' why None sid user d else Inr d) = Inr d1"
    and x1: "find_order oid sid d1 = Inr x1"
    and a: "record_acceptance now (fold dict_put lines []) reason restock (ord_payment_status (do_order x) = PayPaid) tid x1 d1 = Inr d'"
    and tid: "stores sid = Some (user, tid)"
    by (rule partial_Inr [OF c])
  have "\<not> puts_back ''delivered''" by code_simp
  then have "order_desk_ok stores d1 \<and> shop_of d1 = shop_of d"
    using d1 status_step [OF ok] ok by (auto split: if_splits)
  then have ok1: "order_desk_ok stores d1" and same: "shop_of d1 = shop_of d" by blast+
  note st = acceptance_step [OF ok1 x1 tid a]
  show "order_desk_ok stores d'" by (rule st(1))
  show "if restock then (\<exists>ms. shop_act (PiecesReturned oid ms) (shop_of d) = Inr (shop_of d')) else shop_of d' = shop_of d"
    by (rule st(2) [unfolded same])
qed

text \<open>The call of the shop that a call of the desk is.\<close>

fun stock_effect :: "store_refs \<Rightarrow> order_desk_call \<Rightarrow> shop \<Rightarrow> shop \<Rightarrow> bool" where
  "stock_effect stores (DeskCreate i num now dto sid user as_draft) s t =
     (case stores sid of None \<Rightarrow> False
      | Some (_, tid) \<Rightarrow> shop_act (PlaceOrder now as_draft tid i (map line_of_input (oi_line_items dto))) s = Inr t)"
| "stock_effect stores (DeskStatus now oid st reason source sid user) s t =
     (if puts_back st then shop_act (OrderGone now oid reason) s = Inr t else t = s)"
| "stock_effect stores (DeskPartial now oid lines reason restock sid user) s t =
     (if restock then (\<exists>ms. shop_act (PiecesReturned oid ms) s = Inr t) else t = s)"
| "stock_effect stores (DeskEdit now oid p sid user) s t = (t = s)"
| "stock_effect stores (DeskCod now tracking n) s t = (t = s)"

lemma order_desk_step:
  assumes ok: "order_desk_ok stores d" and c: "order_desk_act stores customers c d = Inr d'"
  shows "order_desk_ok stores d' \<and> stock_effect stores c (shop_of d) (shop_of d')"
proof (cases c)
  case (DeskCreate i num now dto sid user as_draft)
  then have cr: "create_order stores customers i num now dto sid user as_draft d = Inr d'" using c by simp
  obtain tid where tid: "stores sid = Some (user, tid)" using create_order_Inr [OF cr] by blast
  from create_order_step [OF ok cr tid] show ?thesis by (simp add: DeskCreate tid del: shop_act.simps)
next
  case (DeskEdit now oid p sid user)
  then show ?thesis using c edit_step [OF ok] by simp
next
  case (DeskStatus now oid st reason source sid user)
  then show ?thesis using c status_step [OF ok] by (simp del: shop_act.simps)
next
  case (DeskCod now tracking n)
  then show ?thesis using c cod_step [OF ok] by simp
next
  case (DeskPartial now oid lines reason restock sid user)
  then show ?thesis using c partial_step [OF ok] by (simp del: shop_act.simps)
qed

definition puts_pieces_back :: "order_desk_call \<Rightarrow> bool" where
  "puts_pieces_back c = (case c of DeskPartial _ _ _ _ restock _ _ \<Rightarrow> restock | _ \<Rightarrow> False)"

lemma stock_effect_step:
  assumes "shop_ok s" "stock_effect stores c s t" shows "shop_step (\<not> puts_pieces_back c) s t"
proof -
  have refl: "shop_step b s s" for b using assms(1) by (simp add: shop_step_def)
  show ?thesis
    using assms refl place_step [OF assms(1)] gone_step [OF assms(1)] returned_step [OF assms(1)]
    by (cases c) (auto simp: puts_pieces_back_def simp del: shop_act.simps split: option.splits if_splits)
qed

lemma desk_walk:
  assumes "order_desk_ok stores d"
  shows "order_desk_ok stores (serve_all (order_desk_act stores customers) cs d)
    \<and> shop_step (list_all (\<lambda>c. \<not> puts_pieces_back c) cs) (shop_of d)
        (shop_of (serve_all (order_desk_act stores customers) cs d))"
  using assms
proof (induction cs arbitrary: d)
  case Nil
  then show ?case by (simp add: shop_step_def order_desk_ok_def)
next
  case (Cons c cs)
  let ?t = "serve (order_desk_act stores customers) c d"
  have s: "shop_ok (shop_of d)" using Cons.prems by (simp add: order_desk_ok_def)
  have st: "order_desk_ok stores ?t \<and> shop_step (\<not> puts_pieces_back c) (shop_of d) (shop_of ?t)"
  proof (cases "order_desk_act stores customers c d")
    case (Inl e)
    then show ?thesis using Cons.prems s by (simp add: serve_def shop_step_def)
  next
    case (Inr d')
    then show ?thesis using order_desk_step [OF Cons.prems Inr] stock_effect_step [OF s] by (auto simp add: serve_def)
  qed
  from shop_step_trans [OF conjunct2 [OF st]] Cons.IH [OF conjunct1 [OF st]] show ?case by simp
qed

section \<open>Properties\<close>

definition demo_store_refs :: store_refs where
  "demo_store_refs s = (if s = 5 then Some (7, 9) else None)"

definition demo_customers :: "uuid \<Rightarrow> uuid option" where
  "demo_customers c = (if c = 3 then Some 5 else None)"

definition demo_order_input :: "int \<Rightarrow> order_input" where
  "demo_order_input q = \<lparr>oi_customer_id = 3,
     oi_line_items = [\<lparr>li_product_id = 1, li_product_name = ''Bread'', li_quantity = q, li_unit_price = 11400,
       li_variant_id = None, li_variant_name = None, li_sku = None, li_properties = None\<rparr>],
     oi_shipping_address = demo_address, oi_billing_address = None, oi_shipping_cost = 500, oi_tax_amount = 0,
     oi_discount_amount = 0, oi_currency = ''EGP'', oi_payment_method = Some ''cod'', oi_shipping_method = None,
     oi_customer_notes = None\<rparr>"

definition demo_order_desk :: order_desk where
  "demo_order_desk = \<lparr>od_stock = demo_stock, od_orders = [], od_events = []\<rparr>"

definition demo_order_calls :: "order_desk_call list" where
  "demo_order_calls = [DeskCreate 51 ''1001'' 1 (demo_order_input 2) 5 7 False,
     DeskCreate 52 ''1002'' 2 (demo_order_input 1) 5 7 False,
     DeskStatus 3 51 ''cancelled'' None None 5 7, DeskStatus 4 51 ''pending'' None None 5 7]"

lemma demo_order_desk_ok: "order_desk_ok demo_store_refs demo_order_desk"
  by code_simp

text \<open>
  C8: the order use cases and the shop's stock. From a desk in good order every accepted call is one
  call of the shop and leaves the desk in good order: creating an order places it with its lines,
  cancelling or returning it puts back what it still holds, a partial acceptance with restocking puts
  the returned pieces back; edits, cash confirmations, every other status and an acceptance without
  restocking leave all stock and all stock notes alone.
\<close>

theorem orders_refine_stock:
  assumes "order_desk_ok stores d" "order_desk_act stores customers c d = Inr d'"
  shows "order_desk_ok stores d' \<and> stock_effect stores c (shop_of d) (shop_of d')"
  by (rule order_desk_step [OF assms])

theorem orders_refine_stock_witness:
  "\<exists>d'. order_desk_act demo_store_refs demo_customers (demo_order_calls ! 0) demo_order_desk = Inr d'
     \<and> order_desk_ok demo_store_refs d' \<and> stock_effect demo_store_refs (demo_order_calls ! 0) (shop_of demo_order_desk) (shop_of d')"
proof -
  have "case order_desk_act demo_store_refs demo_customers (demo_order_calls ! 0) demo_order_desk of Inl _ \<Rightarrow> False | Inr _ \<Rightarrow> True"
    by code_simp
  then obtain d' where "order_desk_act demo_store_refs demo_customers (demo_order_calls ! 0) demo_order_desk = Inr d'"
    by (auto split: sum.splits)
  with orders_refine_stock [OF demo_order_desk_ok this] show ?thesis by blast
qed

text \<open>
  Over any calls of the order use cases, refused ones included, the count of every product
  together with what the orders hold of it never falls, and without restocked acceptances it stays the
  same for every product and every variant; an order that is cancelled or returned holds nothing.
\<close>

theorem order_calls_keep_stock:
  assumes "order_desk_ok stores d" "d' = serve_all (order_desk_act stores customers) cs d"
  shows "(\<forall>p. stock_count (od_stock d) p + held_units (shop_of d) p \<le> stock_count (od_stock d') p + held_units (shop_of d') p)
    \<and> (list_all (\<lambda>c. \<not> puts_pieces_back c) cs \<longrightarrow>
        (\<forall>p. stock_count (od_stock d') p + held_units (shop_of d') p = stock_count (od_stock d) p + held_units (shop_of d) p)
      \<and> (\<forall>v. variant_count (od_stock d') v + held_variant_units (shop_of d') v
            = variant_count (od_stock d) v + held_variant_units (shop_of d) v))
    \<and> (\<forall>x\<in>set (od_orders d'). ord_status (do_order x) \<in> {CANCELLED, RETURNED} \<longrightarrow> held (do_note x) = [])"
proof -
  have s: "sh_stock (shop_of e) = od_stock e" for e by (simp add: shop_of_def)
  have "order_desk_ok stores d'" using desk_walk [OF assms(1)] assms(2) by blast
  then have "\<forall>x\<in>set (od_orders d'). ord_status (do_order x) \<in> {CANCELLED, RETURNED} \<longrightarrow> held (do_note x) = []"
    by (simp add: order_desk_ok_def list_all_iff desk_order_ok_def)
  then show ?thesis
    using desk_walk [OF assms(1), of customers cs] unfolding shop_step_def assms(2) s by blast
qed

theorem order_calls_keep_stock_witness:
  "map (\<lambda>i. stock_count (od_stock (serve_all (order_desk_act demo_store_refs demo_customers) (take i demo_order_calls) demo_order_desk)) 1) [0, 1, 2, 3, 4]
     = [5, 3, 2, 4, 4]
   \<and> held_units (shop_of (serve_all (order_desk_act demo_store_refs demo_customers) demo_order_calls demo_order_desk)) 1 = 1"
proof -
  let ?d = "serve_all (order_desk_act demo_store_refs demo_customers) demo_order_calls demo_order_desk"
  have "map (\<lambda>i. stock_count (od_stock (serve_all (order_desk_act demo_store_refs demo_customers) (take i demo_order_calls) demo_order_desk)) 1) [0, 1, 2, 3, 4]
     = [5, 3, 2, 4, 4]" by code_simp
  moreover have "list_all (\<lambda>c. \<not> puts_pieces_back c) demo_order_calls" "held_units (shop_of demo_order_desk) 1 = 0"
    "stock_count (od_stock demo_order_desk) 1 = 5" "stock_count (od_stock ?d) 1 = 4" by code_simp+
  moreover have "stock_count (od_stock ?d) 1 + held_units (shop_of ?d) 1 = stock_count (od_stock demo_order_desk) 1 + held_units (shop_of demo_order_desk) 1"
    using order_calls_keep_stock [OF demo_order_desk_ok refl, of demo_customers demo_order_calls] calculation(2) by blast
  ultimately show ?thesis by simp
qed

section \<open>Closed orders\<close>

text \<open>The status of one order of the desk.\<close>

definition status_at :: "uuid \<Rightarrow> order_desk \<Rightarrow> order_status option" where
  "status_at oid d = map_option (\<lambda>x. ord_status (do_order x)) (lookup_by do_id oid (od_orders d))"

lemma status_at_simps [simp]:
  "status_at oid (publish e d) = status_at oid d"
  "status_at oid (resave y db d) = (if oid = do_id y then map_option (\<lambda>_. ord_status (do_order y)) (lookup_by do_id oid (od_orders d)) else status_at oid d)"
  "status_at oid (save_order y d) = (if oid = do_id y then map_option (\<lambda>_. ord_status (do_order y)) (lookup_by do_id oid (od_orders d)) else status_at oid d)"
  "status_at oid (d\<lparr>od_stock := db\<rparr>) = status_at oid d"
  by (simp_all add: status_at_def publish_def resave_def save_order_def option.map_comp comp_def lookup_replace)

definition closed_status :: "order_status \<Rightarrow> bool" where
  "closed_status st \<longleftrightarrow> st \<in> {CANCELLED, REFUNDED, RETURNED}"

lemma save_closed:
  assumes "lookup_by do_id oid' (od_orders d) = Some x" "do_id y = do_id x"
    "closed_status (ord_status (do_order x)) \<Longrightarrow> ord_status (do_order y) = ord_status (do_order x)"
    and "status_at oid d = Some st" "closed_status st"
  shows "status_at oid (save_order y d) = Some st" "status_at oid (resave y db d) = Some st"
  using assms lookup_by_in [OF assms(1)] by (auto simp: status_at_def save_order_def resave_def lookup_replace)

lemma ident_id: "order_ident o1 = order_ident o2 \<Longrightarrow> ord_id o1 = ord_id o2"
  by (simp add: order_ident_def)

lemma edit_closed:
  assumes "update_order stores now oid' p sid user d = Inr d'" and st: "status_at oid d = Some st" "closed_status st"
  shows "status_at oid d' = Some st"
proof -
  obtain x o' where f: "find_order oid' sid d = Inr x" and p: "patch_order now p (do_order x) = Inr o'"
    and d': "d' = save_order (x\<lparr>do_order := o'\<rparr>) d"
    using assms(1) by (auto simp: update_order_def rbind_Inr_iff)
  have id: "ord_id o' = ord_id (do_order x)" "ord_status o' = ord_status (do_order x)"
    using patch_ident [OF p] ident_id by blast+
  show ?thesis unfolding d'
    by (rule save_closed(1) [OF find_order_Inr(1) [OF f] _ _ st]) (use id in \<open>simp_all add: do_id_def\<close>)
qed

lemma status_closed:
  assumes "update_order_status stores now oid' s reason source sid user d = Inr d'"
    and st: "status_at oid d = Some st" "closed_status st"
  shows "status_at oid d' = Some st"
proof -
  obtain x new o' where f: "find_order oid' sid d = Inr x" and n: "order_status_of s = Some new" "stores sid \<noteq> None"
    and a: "apply_status now new reason source (do_order x) = Inr o'"
    and keep: "new \<notin> {CANCELLED, RETURNED} \<longrightarrow> d' = save_order (x\<lparr>do_order := o'\<rparr>) d
       \<or> (\<exists>e. d' = publish e (save_order (x\<lparr>do_order := o'\<rparr>) d))"
    and undone: "new \<in> {CANCELLED, RETURNED} \<longrightarrow> (case restock_for now (ord_tenant_id o') reason (do_note x) (od_stock d) of
       (n, db) \<Rightarrow> d' = resave \<lparr>do_order = o', do_note = n\<rparr> db d \<or> (\<exists>e. d' = publish e (resave \<lparr>do_order = o', do_note = n\<rparr> db d)))"
    by (rule status_Inr [OF assms(1)])
  note l = find_order_Inr(1) [OF f]
  have id: "ord_id o' = ord_id (do_order x)" by (rule ident_id [OF apply_status_ident [OF a]])
  have cl: "ord_status o' = ord_status (do_order x)" if "closed_status (ord_status (do_order x))"
    using apply_status_status [OF a] that by (simp add: closed_status_def)
  have k: "status_at oid (save_order (x\<lparr>do_order := o'\<rparr>) d) = Some st"
    by (rule save_closed(1) [OF l _ _ st]) (use id cl in \<open>simp_all add: do_id_def\<close>)
  have r: "status_at oid (resave \<lparr>do_order = o', do_note = m\<rparr> db d) = Some st" for m db
    by (rule save_closed(2) [OF l _ _ st]) (use id cl in \<open>simp_all add: do_id_def\<close>)
  show ?thesis
  proof (cases "new \<in> {CANCELLED, RETURNED}")
    case True
    obtain m db where "restock_for now (ord_tenant_id o') reason (do_note x) (od_stock d) = (m, db)" by fastforce
    then show ?thesis using mp [OF undone True] r by (auto simp del: status_at_simps(2,3))
  next
    case False
    then show ?thesis using keep k by (auto simp del: status_at_simps(2,3))
  qed
qed

lemma cod_closed:
  assumes "confirm_cod_payment now tracking n d = Inr d'" and ids: "distinct (map do_id (od_orders d))"
    and st: "status_at oid d = Some st" "closed_status st"
  shows "status_at oid d' = Some st"
proof -
  obtain x where f: "filter (\<lambda>x. ord_tracking_number (do_order x) = Some tracking) (od_orders d) = [x]"
    using assms(1) by (auto simp: confirm_cod_payment_def split: list.splits)
  then obtain o1 o2 m where o1: "as_validation (order_deliver now None (do_order x)) = Inr o1"
    and o2: "order_mark_as_paid now (''cod-bosta-'' @ tracking) (Some ''cod'') o1 = Inr o2"
    and d': "d' = save_order (x\<lparr>do_order := o2\<lparr>ord_metadata := m\<rparr>\<rparr>) d"
    using assms(1) by (auto simp: confirm_cod_payment_def rbind_Inr_iff)
  have sh: "ord_status (do_order x) = SHIPPED"
    and tr: "order_transition_to now DELIVERED (Some ''delivered'') None (do_order x) = Inr o1"
    using o1 by (auto simp: order_deliver_def as_validation_def split: if_splits sum.splits exn.splits)
  have paid: "order_ident o2 = order_ident o1"
    using mark_as_paid_delivered(1) [OF o2] order_transition_routed [OF tr] by simp
  have "x \<in> set (filter (\<lambda>x. ord_tracking_number (do_order x) = Some tracking) (od_orders d))" unfolding f by simp
  then have "x \<in> set (od_orders d)" by simp
  then have l: "lookup_by do_id (do_id x) (od_orders d) = Some x" using ids by (simp add: lookup_by_Some)
  have id: "ord_id o2 = ord_id (do_order x)" using ident_id [OF paid] ident_id [OF transition_ident [OF tr]] by simp
  show ?thesis unfolding d'
    by (rule save_closed(1) [OF l _ _ st]) (use id sh in \<open>simp_all add: do_id_def closed_status_def\<close>)
qed

lemma acceptance_closed:
  assumes f: "find_order oid' sid d = Inr x"
    and c: "record_acceptance now returned reason restock was_paid tid x d = Inr d'"
    and st: "status_at oid d = Some st" "closed_status st"
  shows "status_at oid d' = Some st"
proof -
  obtain lines w collected o' where a: "order_record_partial_acceptance now returned reason (do_order x) = Inr ((lines, w, collected), o')"
    using c by (auto simp: record_acceptance_def rbind_Inr_iff)
  obtain n db e where d': "d' = publish e (resave \<lparr>do_order = o', do_note = n\<rparr> db d)"
    using c by (auto simp: record_acceptance_def a Let_def resave_def case_prod_unfold)
  have id: "ord_id o' = ord_id (do_order x)" "ord_status o' = ord_status (do_order x)"
    using acceptance_ident [OF a] ident_id by blast+
  show ?thesis unfolding d' status_at_simps(1)
    by (rule save_closed(2) [OF find_order_Inr(1) [OF f] _ _ st]) (use id in \<open>simp_all add: do_id_def\<close>)
qed

lemma partial_closed:
  assumes c: "record_partial_acceptance stores now oid' lines reason restock sid user d = Inr d'"
    and st: "status_at oid d = Some st" "closed_status st"
  shows "status_at oid d' = Some st"
proof -
  obtain tid and x :: desk_order and d1 x1 why where d1: "(if ord_status (do_order x) = SHIPPED
      then update_order_status stores now oid' ''delivered'' why None sid user d else Inr d) = Inr d1"
    and x1: "find_order oid' sid d1 = Inr x1"
    and a: "record_acceptance now (fold dict_put lines []) reason restock (ord_payment_status (do_order x) = PayPaid) tid x1 d1 = Inr d'"
    and "stores sid = Some (user, tid)"
    using c by (rule partial_Inr)
  have "status_at oid d1 = Some st"
    using d1 st status_closed [OF _ st] by (auto split: if_splits)
  from acceptance_closed [OF x1 a this st(2)] show ?thesis .
qed

lemma create_closed:
  assumes "create_order stores customers i num now dto sid user as_draft d = Inr d'" "status_at oid d = Some st"
  shows "status_at oid d' = Some st"
proof -
  obtain y where "od_orders d' = od_orders d @ [y]" by (rule create_order_Inr [OF assms(1)]) blast
  then show ?thesis using assms(2) by (auto simp: status_at_def lookup_snoc)
qed

lemma desk_act_closed:
  assumes ok: "order_desk_ok stores d" and c: "order_desk_act stores customers c d = Inr d'"
    and st: "status_at oid d = Some st" "closed_status st"
  shows "status_at oid d' = Some st"
proof -
  have ids: "distinct (map do_id (od_orders d))"
    using ok by (simp add: order_desk_ok_def shop_ok_def shop_of_def comp_def)
  show ?thesis
  proof (cases c)
    case (DeskCreate i num now dto sid user as_draft)
    then show ?thesis using create_closed [OF _ st(1)] c by simp
  next
    case (DeskEdit now oid p sid user)
    then show ?thesis using edit_closed [OF _ st] c by simp
  next
    case (DeskStatus now oid s reason source sid user)
    then show ?thesis using status_closed [OF _ st] c by simp
  next
    case (DeskCod now tracking n)
    then show ?thesis using cod_closed [OF _ ids st] c by simp
  next
    case (DeskPartial now oid lines reason restock sid user)
    then show ?thesis using partial_closed [OF _ st] c by simp
  qed
qed

lemma desk_walk_closed:
  assumes "order_desk_ok stores d" "status_at oid d = Some st" "closed_status st"
  shows "status_at oid (serve_all (order_desk_act stores customers) cs d) = Some st"
proof -
  let ?I = "\<lambda>d. order_desk_ok stores d \<and> status_at oid d = Some st"
  have "?I (serve_all (order_desk_act stores customers) cs d)"
    by (rule serve_all_invariant [of ?I])
      (use assms order_desk_step desk_act_closed in \<open>blast+\<close>)
  then show ?thesis by blast
qed

text \<open>The statuses that are no step of the entity are set outright.\<close>

lemma status_set_outright:
  assumes ok: "order_desk_ok stores d" and st: "status_at oid d = Some st" "\<not> closed_status st"
    and new: "new \<in> {DRAFT, PENDING_DEPOSIT, AWAITING_PAYMENT, PENDING}"
  shows "\<exists>sid user. status_at oid (serve (order_desk_act stores customers)
     (DeskStatus now oid (order_status_value new) reason source sid user) d) = Some new"
proof -
  obtain x where l: "lookup_by do_id oid (od_orders d) = Some x" and x: "ord_status (do_order x) = st"
    using st(1) by (auto simp: status_at_def)
  let ?sid = "ord_store_id (do_order x)"
  have "desk_order_ok stores x" using ok lookup_by_in [OF l] by (simp add: order_desk_ok_def list_all_iff)
  then obtain user tid where s: "stores ?sid = Some (user, tid)" by (auto simp: desk_order_ok_def split: option.splits)
  let ?o = "order_touch now ((do_order x)\<lparr>ord_status := new\<rparr>)"
  have f: "find_order oid ?sid d = Inr x" using l by (simp add: find_order_def)
  have a: "apply_status now new reason source (do_order x) = Inr ?o"
    using new st(2) x by (auto simp: apply_status_def closed_status_def)
  have n: "order_status_of (order_status_value new) = Some new" "new \<notin> {CANCELLED, RETURNED}"
    using new by (auto simp: order_status_of_def order_status_value_def)
  have o: "check_owner stores ?sid user = Inr tid" using s by (simp add: check_owner_Inr)
  have id: "do_id \<lparr>do_order = ?o, do_note = do_note x\<rparr> = oid"
    using lookup_by_in [OF l] by (simp add: do_id_def order_touch_def)
  have "\<exists>d'. update_order_status stores now oid (order_status_value new) reason source ?sid user d = Inr d'
     \<and> status_at oid d' = Some new"
    using n(2) id l by (simp add: update_order_status_def o f n(1) a as_validation_def Let_def)
  then have "status_at oid (serve (order_desk_act stores customers)
     (DeskStatus now oid (order_status_value new) reason source ?sid user) d) = Some new" by (auto simp: serve_def)
  then show ?thesis by blast
qed

text \<open>
  C29: which orders are final. A cancelled, returned or refunded order keeps its status under every
  sequence of the order use cases. Any other order, shipped and delivered ones included, can be put
  back to draft, to pending or to one of the two payment waits by its store's owner.
\<close>

theorem final_iff_closed:
  assumes "order_desk_ok stores d" "status_at oid d = Some st"
  shows "if st \<in> {CANCELLED, REFUNDED, RETURNED}
    then \<forall>cs. status_at oid (serve_all (order_desk_act stores customers) cs d) = Some st
    else \<forall>new\<in>{DRAFT, PENDING_DEPOSIT, AWAITING_PAYMENT, PENDING}. \<exists>c.
      status_at oid (serve (order_desk_act stores customers) c d) = Some new"
  using desk_walk_closed [OF assms] status_set_outright [OF assms]
  by (simp only: closed_status_def split: if_split) meson

theorem final_iff_closed_witness:
  "status_at 51 (serve_all (order_desk_act demo_store_refs demo_customers) demo_order_calls demo_order_desk) = Some CANCELLED
   \<and> (\<exists>c. status_at 52 (serve (order_desk_act demo_store_refs demo_customers) c
      (serve_all (order_desk_act demo_store_refs demo_customers)
        (demo_order_calls @ [DeskStatus 5 52 ''processing'' None None 5 7, DeskStatus 6 52 ''shipped'' None None 5 7]) demo_order_desk)) = Some PENDING)"
proof -
  let ?run = "\<lambda>cs. serve_all (order_desk_act demo_store_refs demo_customers) cs demo_order_desk"
  let ?more = "demo_order_calls @ [DeskStatus 5 52 ''processing'' None None 5 7, DeskStatus 6 52 ''shipped'' None None 5 7]"
  have s: "status_at 51 (?run (take 3 demo_order_calls)) = Some CANCELLED" "status_at 52 (?run ?more) = Some SHIPPED"
    by code_simp+
  have ok: "order_desk_ok demo_store_refs (?run cs)" for cs using desk_walk [OF demo_order_desk_ok] by blast
  have "status_at 51 (serve_all (order_desk_act demo_store_refs demo_customers) [demo_order_calls ! 3] (?run (take 3 demo_order_calls))) = Some CANCELLED"
    using final_iff_closed [OF ok s(1), of demo_customers] by (simp del: serve_all_simps)
  moreover have "?run demo_order_calls = serve_all (order_desk_act demo_store_refs demo_customers) [demo_order_calls ! 3] (?run (take 3 demo_order_calls))"
    by (simp add: demo_order_calls_def)
  moreover have "\<exists>c. status_at 52 (serve (order_desk_act demo_store_refs demo_customers) c (?run ?more)) = Some PENDING"
    using final_iff_closed [OF ok s(2), of demo_customers] by simp
  ultimately show ?thesis by simp
qed

section \<open>Totals\<close>

lemma half_up_le: "r \<le> of_int n \<Longrightarrow> half_up r \<le> n"
  using half_up_error [of r] by linarith

lemma vat_inside:
  assumes "0 \<le> s" "0 \<le> r"
  shows "0 \<le> fst (extract_vat_cents s r)" "fst (extract_vat_cents s r) \<le> s"
proof -
  have p: "0 < 100 + r" using assms(2) by simp
  have "of_int s * r / (100 + r) \<le> of_int s"
    using assms p by (simp add: divide_le_eq algebra_simps)
  then show "fst (extract_vat_cents s r) \<le> s" using assms by (simp add: extract_vat_cents_def Let_def half_up_le)
  show "0 \<le> fst (extract_vat_cents s r)"
    using assms by (simp add: extract_vat_cents_def Let_def half_up_nonneg)
qed

lemma input_subtotal_sum: "input_subtotal lis = (\<Sum>li\<leftarrow>lis. li_unit_price li * li_quantity li)"
proof -
  have "foldl (\<lambda>s li. s + li_unit_price li * li_quantity li) n lis = n + (\<Sum>li\<leftarrow>lis. li_unit_price li * li_quantity li)" for n
    by (induction lis arbitrary: n) simp_all
  then show ?thesis by (simp add: input_subtotal_def)
qed

text \<open>The money columns of an order, and what the assignments of an edit leave in them.\<close>

definition money_columns :: "order \<Rightarrow> int \<times> int \<times> int \<times> int" where
  "money_columns o' = (ord_subtotal o', ord_shipping_cost o', ord_tax_amount o', ord_discount_amount o')"

definition order_balanced :: "order \<Rightarrow> bool" where
  "order_balanced o' \<longleftrightarrow> ord_total o' = ord_subtotal o' + ord_shipping_cost o' + ord_tax_amount o' - ord_discount_amount o'"

lemma retotal_order_balanced: "order_balanced (retotal o')" "money_columns (retotal o') = money_columns o'"
  by (simp_all add: order_balanced_def retotal_def money_columns_def)

lemma set_money_Inr:
  "set_money v f o' = Inr o2 \<Longrightarrow> o2 = (case v of None \<Rightarrow> o' | Some n \<Rightarrow> retotal (f n o'))"
  by (cases v) (auto simp: set_money_def Let_def split: if_splits)

definition edits_money :: "order_patch \<Rightarrow> bool" where
  "edits_money p \<longleftrightarrow> op_shipping_cost p \<noteq> None \<or> op_tax_amount p \<noteq> None \<or> op_discount_amount p \<noteq> None"

definition given :: "'a option \<Rightarrow> 'a \<Rightarrow> 'a" where
  "given v x = (case v of None \<Rightarrow> x | Some y \<Rightarrow> y)"

lemma patch_money:
  assumes "patch_order now p o' = Inr o2"
  shows "money_columns o2 = (ord_subtotal o', given (op_shipping_cost p) (ord_shipping_cost o'),
      given (op_tax_amount p) (ord_tax_amount o'), given (op_discount_amount p) (ord_discount_amount o'))"
    "if edits_money p then order_balanced o2 else ord_total o2 = ord_total o'"
proof -
  let ?g = "\<lambda>x. (money_columns x, ord_total x)"
  let ?o1 = "if_given (op_shipping_address p) (\<lambda>a. ord_shipping_address_update (\<lambda>_. address_of_input a)) o'"
  let ?o2 = "if_given (op_billing_address p) (\<lambda>a. ord_billing_address_update (\<lambda>_. Some (address_of_input a))) ?o1"
  obtain o3 o4 o5 where s: "set_money (op_shipping_cost p) (\<lambda>n. ord_shipping_cost_update (\<lambda>_. n)) ?o2 = Inr o3"
      "set_money (op_tax_amount p) (\<lambda>n. ord_tax_amount_update (\<lambda>_. n)) o3 = Inr o4"
      "set_money (op_discount_amount p) (\<lambda>n. ord_discount_amount_update (\<lambda>_. n)) o4 = Inr o5"
    and o2: "o2 = order_touch now (if_given (op_customer_notes p) (\<lambda>s. ord_customer_notes_update (\<lambda>_. Some s))
      (if_given (op_notes p) (\<lambda>s. ord_notes_update (\<lambda>_. Some s))
      (if_given (op_tracking_number p) (\<lambda>s. ord_tracking_number_update (\<lambda>_. Some s))
      (if_given (op_shipping_method p) (\<lambda>s. ord_shipping_method_update (\<lambda>_. Some s))
      (if_given (op_payment_method p) (\<lambda>s. ord_payment_method_update (\<lambda>_. Some s)) o5)))))"
    using assms by (auto simp: patch_order_def Let_def rbind_Inr_iff)
  have a: "?g ?o2 = ?g o'" by (simp add: if_given_def money_columns_def split: option.split)
  have e: "?g o2 = ?g o5"
    unfolding o2 by (simp add: if_given_def money_columns_def order_touch_def split: option.split)
  note t = set_money_Inr [OF s(1)] set_money_Inr [OF s(2)] set_money_Inr [OF s(3)]
  have b3: "money_columns o3 = (ord_subtotal o', given (op_shipping_cost p) (ord_shipping_cost o'), ord_tax_amount o', ord_discount_amount o')
      \<and> (if op_shipping_cost p \<noteq> None then order_balanced o3 else ord_total o3 = ord_total o')"
    using a t(1) by (auto simp: given_def money_columns_def retotal_def order_balanced_def split: option.splits)
  have b4: "money_columns o4 = (ord_subtotal o', given (op_shipping_cost p) (ord_shipping_cost o'),
        given (op_tax_amount p) (ord_tax_amount o'), ord_discount_amount o')
      \<and> (if op_shipping_cost p \<noteq> None \<or> op_tax_amount p \<noteq> None then order_balanced o4 else ord_total o4 = ord_total o')"
    using b3 t(2) by (cases "op_tax_amount p") (auto simp: given_def money_columns_def retotal_def order_balanced_def)
  have b5: "money_columns o5 = (ord_subtotal o', given (op_shipping_cost p) (ord_shipping_cost o'),
        given (op_tax_amount p) (ord_tax_amount o'), given (op_discount_amount p) (ord_discount_amount o'))
      \<and> (if edits_money p then order_balanced o5 else ord_total o5 = ord_total o')"
    using b4 t(3) by (cases "op_discount_amount p") (auto simp: edits_money_def given_def money_columns_def retotal_def order_balanced_def)
  have bal: "order_balanced o2 = order_balanced o5" using e by (simp add: order_balanced_def money_columns_def)
  show "money_columns o2 = (ord_subtotal o', given (op_shipping_cost p) (ord_shipping_cost o'),
      given (op_tax_amount p) (ord_tax_amount o'), given (op_discount_amount p) (ord_discount_amount o'))"
    using e b5 by simp
  show "if edits_money p then order_balanced o2 else ord_total o2 = ord_total o'"
    using e b5 bal by simp
qed

definition order_at :: "uuid \<Rightarrow> order_desk \<Rightarrow> order option" where
  "order_at oid d = map_option do_order (lookup_by do_id oid (od_orders d))"

lemma create_order_at:
  assumes "create_order stores customers i num now dto sid user as_draft d = Inr d'"
  shows "\<exists>o'. order_at i d' = Some o' \<and> order_ok o'
    \<and> money_columns o' = (input_subtotal (oi_line_items dto), oi_shipping_cost dto, recorded_tax dto, oi_discount_amount dto)
    \<and> ord_total o' = input_subtotal (oi_line_items dto) + oi_shipping_cost dto - oi_discount_amount dto"
proof -
  obtain tid n db where t: "order_ok (new_order i num now as_draft sid tid dto)" "lookup_by do_id i (od_orders d) = None"
    "od_orders d' = od_orders d @ [\<lparr>do_order = new_order i num now as_draft sid tid dto, do_note = n\<rparr>]"
    by (rule create_order_Inr [OF assms]) blast
  have "ord_id (new_order i num now as_draft sid tid dto) = i"
    using new_order_frame(1) [of i num now as_draft sid tid dto] by (simp add: order_ident_def)
  then have "order_at i d' = Some (new_order i num now as_draft sid tid dto)"
    using t(2,3) by (simp add: order_at_def lookup_snoc do_id_def)
  moreover have "money_columns (new_order i num now as_draft sid tid dto)
      = (input_subtotal (oi_line_items dto), oi_shipping_cost dto, recorded_tax dto, oi_discount_amount dto)"
    "ord_total (new_order i num now as_draft sid tid dto)
      = input_subtotal (oi_line_items dto) + oi_shipping_cost dto - oi_discount_amount dto"
    by (simp_all add: new_order_def order_post_init_def money_columns_def)
  ultimately show ?thesis using t(1) by blast
qed

lemma edit_order_at:
  assumes "update_order stores now i p sid user d = Inr d'" "order_at i d = Some o'"
  shows "\<exists>o2. order_at i d' = Some o2 \<and> patch_order now p o' = Inr o2"
proof -
  obtain x o2 where f: "find_order i sid d = Inr x" and p: "patch_order now p (do_order x) = Inr o2"
    and d': "d' = save_order (x\<lparr>do_order := o2\<rparr>) d"
    using assms(1) by (auto simp: update_order_def rbind_Inr_iff)
  note l = find_order_Inr [OF f]
  have "ord_id o2 = ord_id (do_order x)" using patch_ident [OF p] by (simp add: order_ident_def)
  then have "do_id (x\<lparr>do_order := o2\<rparr>) = i" using l(3) by (simp add: do_id_def)
  then have "order_at i d' = Some o2" using l(1) by (simp add: d' order_at_def save_order_def lookup_replace)
  moreover have "o' = do_order x" using assms(2) l(1) by (simp add: order_at_def)
  ultimately show ?thesis using p by blast
qed

text \<open>
  C30: the total of an order. A created order asks for its lines, its shipping and no tax, less the
  discount; the VAT it records lies between zero and its subtotal unless the request names a tax. An
  edit that names no cost keeps the total. An edit that names a cost asks for the recorded tax on top:
  an edit that confirms the shipping cost alone raises the total by exactly the tax.
\<close>

theorem order_totals:
  assumes "create_order stores customers i num now dto sid user as_draft d = Inr d1"
    and "update_order stores now2 i p sid2 user2 d1 = Inr d2"
  shows "\<exists>o1 o2. order_at i d1 = Some o1 \<and> order_at i d2 = Some o2
    \<and> ord_total o1 = input_subtotal (oi_line_items dto) + oi_shipping_cost dto - oi_discount_amount dto
    \<and> (oi_tax_amount dto = 0 \<longrightarrow> 0 \<le> ord_tax_amount o1 \<and> ord_tax_amount o1 \<le> ord_subtotal o1)
    \<and> ord_total o2 = (if edits_money p
         then input_subtotal (oi_line_items dto) + given (op_shipping_cost p) (oi_shipping_cost dto)
           + given (op_tax_amount p) (recorded_tax dto) - given (op_discount_amount p) (oi_discount_amount dto)
         else ord_total o1)
    \<and> (op_shipping_cost p = Some (oi_shipping_cost dto) \<and> op_tax_amount p = None \<and> op_discount_amount p = None
         \<longrightarrow> ord_total o2 = ord_total o1 + ord_tax_amount o1)"
proof -
  let ?s = "input_subtotal (oi_line_items dto)"
  obtain o1 where o1: "order_at i d1 = Some o1" "order_ok o1"
    "money_columns o1 = (?s, oi_shipping_cost dto, recorded_tax dto, oi_discount_amount dto)"
    "ord_total o1 = ?s + oi_shipping_cost dto - oi_discount_amount dto"
    using create_order_at [OF assms(1)] by blast
  obtain o2 where o2: "order_at i d2 = Some o2" and p: "patch_order now2 p o1 = Inr o2"
    using edit_order_at [OF assms(2) o1(1)] by blast
  have c: "ord_subtotal o1 = ?s" "ord_shipping_cost o1 = oi_shipping_cost dto" "ord_tax_amount o1 = recorded_tax dto"
    "ord_discount_amount o1 = oi_discount_amount dto" using o1(3) by (simp_all add: money_columns_def)
  have "0 \<le> ?s" using o1(2) c(1) by (simp add: order_ok_def)
  then have tax: "oi_tax_amount dto = 0 \<longrightarrow> 0 \<le> ord_tax_amount o1 \<and> ord_tax_amount o1 \<le> ord_subtotal o1"
    using vat_inside [of ?s default_vat_rate] by (simp add: c recorded_tax_def default_vat_rate_def)
  have tot: "ord_total o2 = (if edits_money p
         then ?s + given (op_shipping_cost p) (oi_shipping_cost dto)
           + given (op_tax_amount p) (recorded_tax dto) - given (op_discount_amount p) (oi_discount_amount dto)
         else ord_total o1)"
    using patch_money [OF p] by (simp add: c money_columns_def order_balanced_def split: if_splits)
  have "op_shipping_cost p = Some (oi_shipping_cost dto) \<and> op_tax_amount p = None \<and> op_discount_amount p = None
         \<longrightarrow> ord_total o2 = ord_total o1 + ord_tax_amount o1"
    using tot by (simp add: edits_money_def given_def o1(4) c(3))
  with o1(1,4) o2 tax tot show ?thesis by blast
qed

definition demo_patch :: order_patch where
  "demo_patch = \<lparr>op_shipping_address = None, op_billing_address = None, op_shipping_cost = Some 500, op_tax_amount = None,
     op_discount_amount = None, op_payment_method = None, op_shipping_method = None, op_tracking_number = None,
     op_notes = None, op_customer_notes = None\<rparr>"

theorem order_totals_witness:
  "\<exists>d1 d2. create_order demo_store_refs demo_customers 51 ''1001'' 1 (demo_order_input 2) 5 7 False demo_order_desk = Inr d1
     \<and> update_order demo_store_refs 2 51 demo_patch 5 7 d1 = Inr d2
     \<and> map_option ord_total (order_at 51 d1) = Some 23300 \<and> map_option ord_total (order_at 51 d2) = Some 26100"
proof -
  let ?c = "create_order demo_store_refs demo_customers 51 ''1001'' 1 (demo_order_input 2) 5 7 False demo_order_desk"
  have "case ?c of Inl _ \<Rightarrow> False | Inr d1 \<Rightarrow>
      (case update_order demo_store_refs 2 51 demo_patch 5 7 d1 of Inl _ \<Rightarrow> False | Inr _ \<Rightarrow>
        map_option ord_total (order_at 51 d1) = Some 23300 \<and> map_option ord_tax_amount (order_at 51 d1) = Some 2800)"
    by code_simp
  then obtain d1 d2 where d: "?c = Inr d1" "update_order demo_store_refs 2 51 demo_patch 5 7 d1 = Inr d2"
    "map_option ord_total (order_at 51 d1) = Some 23300" "map_option ord_tax_amount (order_at 51 d1) = Some 2800"
    by (auto split: sum.splits)
  have "op_shipping_cost demo_patch = Some (oi_shipping_cost (demo_order_input 2))" "op_tax_amount demo_patch = None"
    "op_discount_amount demo_patch = None" by (simp_all add: demo_patch_def demo_order_input_def)
  with order_totals [OF d(1,2)] d(3,4) have "map_option ord_total (order_at 51 d2) = Some 26100" by auto
  with d show ?thesis by blast
qed

end
