(* ===== verification/Inventory.thy ===== *)
theory Inventory
  imports Stock_Calls Status_Machine
begin

text \<open>
  Inventory per location: \<open>src/application/services/inventory_service.py\<close> over the repositories of
  \<open>src/infrastructure/repositories/inventory_repository.py\<close>, the transfer entity and the routes
  \<open>api/v1/routes/stores/inventory_levels.py\<close> and \<open>inventory_transfers.py\<close>. The level and variant
  tables are those of \<open>Stock\<close>; ownership of the store is checked before the routes are entered.
\<close>

section \<open>Tables\<close>

datatype transfer_status = TrDraft | TrRequested | TrInTransit | TrReceived | TrCanceled

definition transfer_next :: "transfer_status \<Rightarrow> transfer_status list" where
  "transfer_next st = (case st of
      TrDraft \<Rightarrow> [TrRequested, TrCanceled]
    | TrRequested \<Rightarrow> [TrInTransit, TrCanceled]
    | TrInTransit \<Rightarrow> [TrReceived, TrCanceled]
    | TrReceived \<Rightarrow> []
    | TrCanceled \<Rightarrow> [])"

record transfer_line =
  tl_variant_id :: uuid
  tl_quantity :: int

record transfer =
  tr_id :: uuid
  tr_tenant_id :: uuid
  tr_store_id :: uuid
  tr_from :: uuid
  tr_to :: uuid
  tr_status :: transfer_status
  tr_note :: "string option"
  tr_carrier_reference :: "string option"
  tr_lines :: "transfer_line list"
  tr_requested_at :: "instant option"
  tr_shipped_at :: "instant option"
  tr_received_at :: "instant option"
  tr_canceled_at :: "instant option"

definition transfer_can_transition_to :: "transfer \<Rightarrow> transfer_status \<Rightarrow> bool" where
  "transfer_can_transition_to t target \<longleftrightarrow> target \<in> set (transfer_next (tr_status t))"

record location_row =
  lo_id :: uuid
  lo_store_id :: uuid

record inventory =
  iv_stock :: stock_db
  iv_locations :: "location_row list"
  iv_transfers :: "transfer list"

section \<open>Ownership\<close>

definition assert_variant_in_store :: "uuid \<Rightarrow> uuid \<Rightarrow> inventory \<Rightarrow> unit result" where
  "assert_variant_in_store sid vid iv = (case lookup_by vr_id vid (sk_variants (iv_stock iv)) of
      None \<Rightarrow> Inl (EntityNotFoundError ''Variant'')
    | Some r \<Rightarrow> if vr_store_id r \<noteq> sid then Inl (EntityNotFoundError ''Variant'') else Inr ())"

definition assert_location_in_store :: "uuid \<Rightarrow> uuid \<Rightarrow> inventory \<Rightarrow> unit result" where
  "assert_location_in_store sid lid iv = (case lookup_by lo_id lid (iv_locations iv) of
      None \<Rightarrow> Inl (EntityNotFoundError ''Location'')
    | Some r \<Rightarrow> if lo_store_id r \<noteq> sid then Inl (EntityNotFoundError ''Location'') else Inr ())"

definition assert_owned_by_store :: "uuid \<Rightarrow> uuid \<Rightarrow> uuid \<Rightarrow> inventory \<Rightarrow> unit result" where
  "assert_owned_by_store sid vid lid iv =
     rbind (assert_variant_in_store sid vid iv) (\<lambda>_. assert_location_in_store sid lid iv)"

section \<open>Levels\<close>

text \<open>Reading a row builds the entity, whose two counts must not be negative.\<close>

definition level_to_entity :: "level_row \<Rightarrow> level_row result" where
  "level_to_entity l =
     (if lv_available l < 0 \<or> lv_reserved l < 0 then Inl (ValidationError ''InventoryLevel'') else Inr l)"

definition level_get :: "uuid \<Rightarrow> uuid \<Rightarrow> level_row list \<Rightarrow> level_row option result" where
  "level_get vid lid ls = (case lookup_by lv_key (vid, lid) ls of
      None \<Rightarrow> Inr None | Some r \<Rightarrow> rbind (level_to_entity r) (\<lambda>l. Inr (Some l)))"

definition list_for_variant :: "uuid \<Rightarrow> level_row list \<Rightarrow> level_row list result" where
  "list_for_variant vid ls = mapM level_to_entity (filter (\<lambda>l. lv_variant_id l = vid) ls)"

definition level_upsert :: "uuid \<Rightarrow> uuid \<Rightarrow> uuid \<Rightarrow> uuid \<Rightarrow> int \<Rightarrow> level_row list \<Rightarrow> level_row list result" where
  "level_upsert tid sid vid lid n ls =
     (let row = (case lookup_by lv_key (vid, lid) ls of
          None \<Rightarrow> \<lparr>lv_tenant_id = tid, lv_store_id = sid, lv_variant_id = vid, lv_location_id = lid,
                    lv_available = n, lv_reserved = 0\<rparr>
        | Some r \<Rightarrow> r\<lparr>lv_available := n\<rparr>)
      in rbind (level_to_entity row) (\<lambda>_.
        Inr (if lookup_by lv_key (vid, lid) ls = None then ls @ [row] else replace_by lv_key row ls)))"

definition level_adjust :: "uuid \<Rightarrow> uuid \<Rightarrow> int \<Rightarrow> bool \<Rightarrow> level_row list \<Rightarrow> level_row list result" where
  "level_adjust vid lid delta allow_negative ls = (case lookup_by lv_key (vid, lid) ls of
      None \<Rightarrow> Inl (ValueError ''No inventory_level'')
    | Some r \<Rightarrow>
        (let new = lv_available r + delta in
         if new < 0 \<and> \<not> allow_negative then Inl (ValueError ''Insufficient stock at this location'')
         else (let row = r\<lparr>lv_available := max 0 new\<rparr>
               in rbind (level_to_entity row) (\<lambda>_. Inr (replace_by lv_key row ls)))))"

definition on_levels :: "(level_row list \<Rightarrow> level_row list result) \<Rightarrow> inventory \<Rightarrow> inventory result" where
  "on_levels f iv = rbind (f (sk_levels (iv_stock iv)))
     (\<lambda>ls. Inr (iv\<lparr>iv_stock := (iv_stock iv)\<lparr>sk_levels := ls\<rparr>\<rparr>))"

definition rollup_variant_total :: "uuid \<Rightarrow> inventory \<Rightarrow> inventory result" where
  "rollup_variant_total vid iv = rbind (list_for_variant vid (sk_levels (iv_stock iv))) (\<lambda>levels.
     let n = sum_list (map lv_available levels); db = iv_stock iv in
     case lookup_by vr_id vid (sk_variants db) of
       None \<Rightarrow> Inr iv
     | Some r \<Rightarrow> Inr (iv\<lparr>iv_stock := db\<lparr>sk_variants :=
         replace_by vr_id (r\<lparr>vr_inventory_quantity := n\<rparr>) (sk_variants db)\<rparr>\<rparr>))"

definition set_level :: "uuid \<Rightarrow> uuid \<Rightarrow> uuid \<Rightarrow> uuid \<Rightarrow> int \<Rightarrow> inventory \<Rightarrow> inventory result" where
  "set_level tid sid vid lid n iv =
     rbind (assert_owned_by_store sid vid lid iv) (\<lambda>_.
     rbind (on_levels (level_upsert tid sid vid lid n) iv) (rollup_variant_total vid))"

definition adjust_level :: "uuid \<Rightarrow> uuid \<Rightarrow> int \<Rightarrow> inventory \<Rightarrow> inventory result" where
  "adjust_level vid lid delta iv =
     rbind (on_levels (level_adjust vid lid delta False) iv) (rollup_variant_total vid)"

section \<open>Transfers\<close>

text \<open>The request and the entity both refuse a line with a quantity below one.\<close>

definition transfer_lines_ok :: "transfer_line list \<Rightarrow> bool" where
  "transfer_lines_ok ls \<longleftrightarrow> list_all (\<lambda>l. 1 \<le> tl_quantity l) ls"

definition create_transfer :: "uuid \<Rightarrow> uuid \<Rightarrow> uuid \<Rightarrow> uuid \<Rightarrow> uuid \<Rightarrow> string option \<Rightarrow> string option
    \<Rightarrow> transfer_line list \<Rightarrow> inventory \<Rightarrow> inventory result" where
  "create_transfer new_id tid sid from_loc to_loc nt carrier lines iv =
     (if \<not> transfer_lines_ok lines then Inl (ValidationError ''lines'')
      else if from_loc = to_loc then Inl (HTTPException ''from_location and to_location must differ.'')
      else if lookup_by lo_id from_loc (iv_locations iv) = None \<or> lookup_by lo_id to_loc (iv_locations iv) = None
        \<or> lookup_by tr_id new_id (iv_transfers iv) \<noteq> None then Inl (IntegrityError ''inventory_transfers'')
      else Inr (iv\<lparr>iv_transfers := iv_transfers iv @ [\<lparr>tr_id = new_id, tr_tenant_id = tid, tr_store_id = sid,
             tr_from = from_loc, tr_to = to_loc, tr_status = TrDraft, tr_note = nt, tr_carrier_reference = carrier,
             tr_lines = lines, tr_requested_at = None, tr_shipped_at = None, tr_received_at = None,
             tr_canceled_at = None\<rparr>]\<rparr>))"

definition update_transfer_lines :: "uuid \<Rightarrow> uuid \<Rightarrow> transfer_line list \<Rightarrow> inventory \<Rightarrow> inventory result" where
  "update_transfer_lines sid trid lines iv =
     (if \<not> transfer_lines_ok lines then Inl (ValidationError ''lines'')
      else case lookup_by tr_id trid (iv_transfers iv) of
        None \<Rightarrow> Inl (HTTPException ''Transfer not found'')
      | Some t \<Rightarrow>
          if tr_store_id t \<noteq> sid then Inl (HTTPException ''Transfer not found'')
          else if tr_status t \<noteq> TrDraft then Inl (HTTPException ''Cannot edit lines'')
          else Inr (iv\<lparr>iv_transfers := replace_by tr_id (t\<lparr>tr_lines := lines\<rparr>) (iv_transfers iv)\<rparr>))"

text \<open>One line of a received transfer: out of the one location, into the other.\<close>

definition move_transfer_line :: "transfer \<Rightarrow> transfer_line \<Rightarrow> level_row list \<Rightarrow> level_row list result" where
  "move_transfer_line t ln' ls =
     rbind (level_adjust (tl_variant_id ln') (tr_from t) (- tl_quantity ln') False ls) (\<lambda>ls1.
     rbind (level_get (tl_variant_id ln') (tr_to t) ls1) (\<lambda>existing. case existing of
         None \<Rightarrow> level_upsert (tr_tenant_id t) (tr_store_id t) (tl_variant_id ln') (tr_to t) (tl_quantity ln') ls1
       | Some _ \<Rightarrow> level_adjust (tl_variant_id ln') (tr_to t) (tl_quantity ln') False ls1))"

definition stamp_transfer :: "instant \<Rightarrow> transfer_status \<Rightarrow> transfer \<Rightarrow> transfer" where
  "stamp_transfer now target t =
     (let t1 = t\<lparr>tr_status := target\<rparr> in case target of
         TrRequested \<Rightarrow> t1\<lparr>tr_requested_at := Some now\<rparr>
       | TrInTransit \<Rightarrow> t1\<lparr>tr_shipped_at := Some now\<rparr>
       | TrReceived \<Rightarrow> t1\<lparr>tr_received_at := Some now\<rparr>
       | TrCanceled \<Rightarrow> t1\<lparr>tr_canceled_at := Some now\<rparr>
       | TrDraft \<Rightarrow> t1)"

definition receive_transfer :: "transfer \<Rightarrow> inventory \<Rightarrow> inventory result" where
  "receive_transfer t iv =
     rbind (foldM (\<lambda>l _. assert_location_in_store (tr_store_id t) l iv) [tr_from t, tr_to t] ()) (\<lambda>_.
     rbind (foldM (\<lambda>l _. assert_variant_in_store (tr_store_id t) (tl_variant_id l) iv) (tr_lines t) ()) (\<lambda>_.
     on_levels (foldM (move_transfer_line t) (tr_lines t)) iv))"

definition transition_transfer :: "instant \<Rightarrow> uuid \<Rightarrow> transfer_status \<Rightarrow> inventory \<Rightarrow> inventory result" where
  "transition_transfer now trid target iv = (case lookup_by tr_id trid (iv_transfers iv) of
      None \<Rightarrow> Inl (ValueError ''Transfer not found'')
    | Some t \<Rightarrow>
        if \<not> transfer_can_transition_to t target then Inl (ValueError ''Transfer cannot transition'')
        else rbind (if target = TrReceived then receive_transfer t iv else Inr iv) (\<lambda>iv1.
          Inr (iv1\<lparr>iv_transfers := replace_by tr_id (stamp_transfer now target t) (iv_transfers iv1)\<rparr>)))"

text \<open>The requests; a \<open>ValueError\<close> of the service, a validation error included, becomes a response of the route.\<close>

datatype inventory_call =
    SetLevel uuid uuid uuid uuid int
  | AdjustLevel uuid uuid int
  | CreateTransfer uuid uuid uuid uuid uuid "string option" "string option" "transfer_line list"
  | UpdateTransferLines uuid uuid "transfer_line list"
  | TransitionTransfer instant uuid uuid transfer_status

definition transition_route :: "instant \<Rightarrow> uuid \<Rightarrow> uuid \<Rightarrow> transfer_status \<Rightarrow> inventory \<Rightarrow> inventory result" where
  "transition_route now sid trid target iv = (case lookup_by tr_id trid (iv_transfers iv) of
      None \<Rightarrow> Inl (HTTPException ''Transfer not found'')
    | Some t \<Rightarrow>
        if tr_store_id t \<noteq> sid then Inl (HTTPException ''Transfer not found'')
        else (case transition_transfer now trid target iv of
            Inl (ValueError e) \<Rightarrow> Inl (HTTPException e)
          | Inl (ValidationError e) \<Rightarrow> Inl (HTTPException e)
          | r \<Rightarrow> r))"

definition set_level_route :: "uuid \<Rightarrow> uuid \<Rightarrow> uuid \<Rightarrow> uuid \<Rightarrow> int \<Rightarrow> inventory \<Rightarrow> inventory result" where
  "set_level_route tid sid vid lid n iv =
     (if n < 0 then Inl (ValidationError ''available'') else set_level tid sid vid lid n iv)"

fun inventory_act :: "inventory_call \<Rightarrow> inventory \<Rightarrow> inventory result" where
  "inventory_act (SetLevel tid sid vid lid n) iv = set_level_route tid sid vid lid n iv"
| "inventory_act (AdjustLevel vid lid delta) iv = adjust_level vid lid delta iv"
| "inventory_act (CreateTransfer new_id tid sid from_loc to_loc nt carrier lines) iv =
     create_transfer new_id tid sid from_loc to_loc nt carrier lines iv"
| "inventory_act (UpdateTransferLines sid trid lines) iv = update_transfer_lines sid trid lines iv"
| "inventory_act (TransitionTransfer now sid trid target) iv = transition_route now sid trid target iv"
section \<open>What the operations do to the levels\<close>

definition levels_ok :: "level_row list \<Rightarrow> bool" where
  "levels_ok ls \<longleftrightarrow> distinct (map lv_key ls) \<and> (\<forall>l\<in>set ls. 0 \<le> lv_available l \<and> 0 \<le> lv_reserved l)"

definition level_at :: "level_row list \<Rightarrow> uuid \<Rightarrow> uuid \<Rightarrow> int" where
  "level_at ls v l = (case lookup_by lv_key (v, l) ls of None \<Rightarrow> 0 | Some r \<Rightarrow> lv_available r)"

definition level_sum :: "level_row list \<Rightarrow> uuid \<Rightarrow> int" where
  "level_sum ls v = sum_list (map (\<lambda>r. if lv_variant_id r = v then lv_available r else 0) ls)"

text \<open>One level moved by an amount, the others kept.\<close>

definition level_change :: "level_row list \<Rightarrow> level_row list \<Rightarrow> uuid \<Rightarrow> uuid \<Rightarrow> int \<Rightarrow> bool" where
  "level_change ls ls' v l d \<longleftrightarrow> levels_ok ls'
     \<and> (\<forall>v' l'. level_at ls' v' l' = level_at ls v' l' + (if v' = v \<and> l' = l then d else 0))
     \<and> (\<forall>v'. level_sum ls' v' = level_sum ls v' + (if v' = v then d else 0))"

lemma level_to_entity_Inr [simp]: "level_to_entity l = Inr r \<longleftrightarrow> r = l \<and> 0 \<le> lv_available l \<and> 0 \<le> lv_reserved l"
  by (auto simp: level_to_entity_def)

lemma level_entity_ok: "levels_ok ls \<Longrightarrow> l \<in> set ls \<Longrightarrow> level_to_entity l = Inr l"
  by (simp add: levels_ok_def)

lemma replace_change:
  assumes "levels_ok ls" "lookup_by lv_key (v, l) ls = Some r" "0 \<le> n"
  shows "level_change ls (replace_by lv_key (r\<lparr>lv_available := n\<rparr>) ls) v l (n - lv_available r)"
proof -
  let ?r = "r\<lparr>lv_available := n\<rparr>"
  have d: "distinct (map lv_key ls)" using assms(1) by (simp add: levels_ok_def)
  have r: "r \<in> set ls" "lv_key r = (v, l)" using lookup_by_in [OF assms(2)] by auto
  then have key: "lv_key ?r = (v, l)" "lv_variant_id r = v" by (auto simp: lv_key_def)
  have "levels_ok (replace_by lv_key ?r ls)" using assms(1,3) r d in_replace [of _ lv_key ?r ls]
    by (fastforce simp: levels_ok_def)
  moreover have "level_at (replace_by lv_key ?r ls) v' l' = level_at ls v' l' + (if v' = v \<and> l' = l then n - lv_available r else 0)" for v' l'
    using assms(2) key by (simp add: level_at_def lookup_replace)
  moreover have "level_sum (replace_by lv_key ?r ls) v' = level_sum ls v' + (if v' = v then n - lv_available r else 0)" for v'
    using sum_replace [OF d, of ?r r "\<lambda>r. if lv_variant_id r = v' then lv_available r else 0"] assms(2) key
    by (simp add: level_sum_def)
  ultimately show ?thesis by (simp add: level_change_def)
qed

lemma level_upsert_change:
  assumes "levels_ok ls" "level_upsert tid sid v l n ls = Inr ls'"
  shows "0 \<le> n \<and> level_change ls ls' v l (n - level_at ls v l)"
proof (cases "lookup_by lv_key (v, l) ls")
  case None
  let ?r = "\<lparr>lv_tenant_id = tid, lv_store_id = sid, lv_variant_id = v, lv_location_id = l, lv_available = n, lv_reserved = 0\<rparr>"
  have ls': "ls' = ls @ [?r]" and n: "0 \<le> n"
    using assms(2) None by (auto simp: level_upsert_def Let_def rbind_Inr_iff)
  have fresh: "(v, l) \<notin> lv_key ` set ls" using None by (simp add: lookup_by_None)
  have key: "lv_key ?r = (v, l)" by (simp add: lv_key_def)
  have "levels_ok ls'" using assms(1) fresh n by (auto simp: levels_ok_def ls' key)
  moreover have "level_at ls' v' l' = level_at ls v' l' + (if v' = v \<and> l' = l then n else 0)" for v' l'
    using None by (auto simp: level_at_def ls' lookup_snoc key split: option.split)
  moreover have "level_sum ls' v' = level_sum ls v' + (if v' = v then n else 0)" for v'
    by (simp add: level_sum_def ls')
  moreover have "level_at ls v l = 0" using None by (simp add: level_at_def)
  ultimately show ?thesis using n by (simp add: level_change_def)
next
  case (Some r)
  then have "ls' = replace_by lv_key (r\<lparr>lv_available := n\<rparr>) ls" "0 \<le> n"
    using assms(2) by (auto simp: level_upsert_def Let_def rbind_Inr_iff)
  with replace_change [OF assms(1) Some] Some show ?thesis by (simp add: level_at_def)
qed

lemma level_upsert_total: "levels_ok ls \<Longrightarrow> 0 \<le> n \<Longrightarrow> \<exists>ls'. level_upsert tid sid v l n ls = Inr ls'"
proof (cases "lookup_by lv_key (v, l) ls")
  case (Some r)
  assume ok: "levels_ok ls" and n: "0 \<le> n"
  have "0 \<le> lv_reserved r" using ok lookup_by_in [OF Some] by (simp add: levels_ok_def)
  with Some n show ?thesis by (simp add: level_upsert_def Let_def level_to_entity_def)
qed (simp add: level_upsert_def Let_def level_to_entity_def)

text \<open>An adjustment is accepted exactly when the row is there and stays non-negative.\<close>

lemma level_adjust_iff:
  assumes "levels_ok ls"
  shows "(\<exists>ls'. level_adjust v l d False ls = Inr ls') \<longleftrightarrow> lookup_by lv_key (v, l) ls \<noteq> None \<and> 0 \<le> level_at ls v l + d"
proof (cases "lookup_by lv_key (v, l) ls")
  case (Some r)
  have "0 \<le> lv_reserved r" using lookup_by_in [OF Some] assms by (simp add: levels_ok_def)
  with Some show ?thesis by (simp add: level_adjust_def level_at_def Let_def level_to_entity_def)
qed (simp add: level_adjust_def)

lemma level_adjust_change:
  assumes "levels_ok ls" "level_adjust v l d False ls = Inr ls'"
  shows "level_change ls ls' v l d \<and> 0 \<le> level_at ls v l + d"
proof (cases "lookup_by lv_key (v, l) ls")
  case None
  then show ?thesis using assms(2) by (simp add: level_adjust_def)
next
  case (Some r)
  then have "ls' = replace_by lv_key (r\<lparr>lv_available := lv_available r + d\<rparr>) ls" "0 \<le> lv_available r + d"
    using assms(2) by (auto simp: level_adjust_def Let_def rbind_Inr_iff max_def split: if_splits)
  with replace_change [OF assms(1) Some, of "lv_available r + d"] Some show ?thesis by (simp add: level_at_def)
qed

lemma level_get_ok: "levels_ok ls \<Longrightarrow> level_get v l ls = Inr (lookup_by lv_key (v, l) ls)"
  using lookup_by_in [of lv_key "(v, l)" ls]
  by (cases "lookup_by lv_key (v, l) ls") (simp_all add: level_get_def level_entity_ok)

lemma list_for_variant_ok:
  assumes "levels_ok ls" shows "list_for_variant v ls = Inr (filter (\<lambda>l. lv_variant_id l = v) ls)"
proof -
  have "mapM level_to_entity xs = Inr xs" if "\<forall>x\<in>set xs. level_to_entity x = Inr x" for xs
    using that by (induction xs) (simp_all del: level_to_entity_Inr)
  then show ?thesis using level_entity_ok [OF assms] by (simp add: list_for_variant_def)
qed

lemma filter_sum: "sum_list (map lv_available (filter (\<lambda>l. lv_variant_id l = v) ls)) = level_sum ls v"
  by (induction ls) (simp_all add: level_sum_def)

text \<open>The change a received line makes: out of its source, into its destination.\<close>

definition line_flow :: "transfer \<Rightarrow> transfer_line \<Rightarrow> uuid \<Rightarrow> uuid \<Rightarrow> int" where
  "line_flow t x v l = (if tl_variant_id x = v
     then (if tr_to t = l then tl_quantity x else 0) - (if tr_from t = l then tl_quantity x else 0) else 0)"

definition lines_flow :: "transfer \<Rightarrow> transfer_line list \<Rightarrow> uuid \<Rightarrow> uuid \<Rightarrow> int" where
  "lines_flow t xs v l = sum_list (map (\<lambda>x. line_flow t x v l) xs)"

definition levels_flow :: "level_row list \<Rightarrow> level_row list \<Rightarrow> (uuid \<Rightarrow> uuid \<Rightarrow> int) \<Rightarrow> bool" where
  "levels_flow ls ls' f \<longleftrightarrow> levels_ok ls' \<and> (\<forall>v l. level_at ls' v l = level_at ls v l + f v l)
     \<and> (\<forall>v. level_sum ls' v = level_sum ls v)"

lemma move_line_flow:
  assumes "levels_ok ls" "move_transfer_line t x ls = Inr ls'"
  shows "levels_flow ls ls' (line_flow t x)"
proof -
  let ?v = "tl_variant_id x" and ?q = "tl_quantity x"
  obtain ls1 where a: "level_adjust ?v (tr_from t) (- ?q) False ls = Inr ls1"
    using assms(2) by (auto simp: move_transfer_line_def rbind_Inr_iff)
  have ch1: "level_change ls ls1 ?v (tr_from t) (- ?q)" using level_adjust_change [OF assms(1) a] by simp
  then have ok1: "levels_ok ls1" by (simp add: level_change_def)
  have "level_change ls1 ls' ?v (tr_to t) ?q"
  proof (cases "lookup_by lv_key (?v, tr_to t) ls1")
    case None
    then have "level_upsert (tr_tenant_id t) (tr_store_id t) ?v (tr_to t) ?q ls1 = Inr ls'"
      using assms(2) a level_get_ok [OF ok1] by (simp add: move_transfer_line_def)
    moreover have "level_at ls1 ?v (tr_to t) = 0" using None by (simp add: level_at_def)
    ultimately show ?thesis using level_upsert_change [OF ok1] by fastforce
  next
    case (Some r)
    then have "level_adjust ?v (tr_to t) ?q False ls1 = Inr ls'"
      using assms(2) a level_get_ok [OF ok1] by (simp add: move_transfer_line_def)
    then show ?thesis using level_adjust_change [OF ok1] by blast
  qed
  with ch1 show ?thesis by (auto simp: level_change_def levels_flow_def line_flow_def)
qed

lemma move_lines_flow:
  assumes "levels_ok ls" "foldM (move_transfer_line t) xs ls = Inr ls'"
  shows "levels_flow ls ls' (lines_flow t xs)"
  using assms
proof (induction xs arbitrary: ls)
  case (Cons x xs)
  then obtain ls1 where a: "move_transfer_line t x ls = Inr ls1" "foldM (move_transfer_line t) xs ls1 = Inr ls'"
    by (auto simp: rbind_Inr_iff)
  have f1: "levels_flow ls ls1 (line_flow t x)" by (rule move_line_flow [OF Cons.prems(1) a(1)])
  have "levels_flow ls1 ls' (lines_flow t xs)"
    by (rule Cons.IH [OF _ a(2)]) (use f1 in \<open>simp add: levels_flow_def\<close>)
  with f1 show ?case by (simp add: levels_flow_def lines_flow_def)
qed (simp add: levels_flow_def lines_flow_def)

section \<open>Invariants\<close>

text \<open>The stock that the received transfers moved, per variant and location.\<close>

definition booked :: "transfer list \<Rightarrow> uuid \<Rightarrow> uuid \<Rightarrow> int" where
  "booked ts v l = sum_list (map (\<lambda>t. if tr_status t = TrReceived then lines_flow t (tr_lines t) v l else 0) ts)"

text \<open>The total of a variant is the sum of its levels.\<close>

definition in_step :: "inventory \<Rightarrow> uuid \<Rightarrow> bool" where
  "in_step iv v \<longleftrightarrow> (case lookup_by vr_id v (sk_variants (iv_stock iv)) of
      None \<Rightarrow> True | Some r \<Rightarrow> vr_inventory_quantity r = level_sum (sk_levels (iv_stock iv)) v)"

definition inventory_ok :: "inventory \<Rightarrow> bool" where
  "inventory_ok iv \<longleftrightarrow> levels_ok (sk_levels (iv_stock iv)) \<and> distinct (map vr_id (sk_variants (iv_stock iv)))
     \<and> distinct (map tr_id (iv_transfers iv))"

definition is_direct :: "inventory_call \<Rightarrow> bool" where
  "is_direct c = (case c of SetLevel _ _ _ _ _ \<Rightarrow> True | AdjustLevel _ _ _ \<Rightarrow> True | _ \<Rightarrow> False)"

abbreviation iv_levels :: "inventory \<Rightarrow> level_row list" where
  "iv_levels iv \<equiv> sk_levels (iv_stock iv)"

abbreviation iv_variants :: "inventory \<Rightarrow> variant_row list" where
  "iv_variants iv \<equiv> sk_variants (iv_stock iv)"

text \<open>A level is written and the total of its variant rolled up.\<close>

lemma on_levels_Inr:
  "on_levels f iv = Inr iv' \<longleftrightarrow> (\<exists>ls. f (iv_levels iv) = Inr ls \<and> iv' = iv\<lparr>iv_stock := (iv_stock iv)\<lparr>sk_levels := ls\<rparr>\<rparr>)"
  by (auto simp: on_levels_def rbind_Inr_iff)

lemma rolled_up_write:
  assumes "inventory_ok iv" "rbind (on_levels f iv) (rollup_variant_total vid) = Inr iv'"
    and change: "\<And>ls'. f (iv_levels iv) = Inr ls' \<Longrightarrow> level_change (iv_levels iv) ls' vid lid d"
  shows "inventory_ok iv' \<and> in_step iv' vid \<and> (in_step iv v \<longrightarrow> in_step iv' v)
    \<and> level_at (iv_levels iv') v' l' = level_at (iv_levels iv) v' l' + (if v' = vid \<and> l' = lid then d else 0)
    \<and> iv_transfers iv' = iv_transfers iv \<and> iv_locations iv' = iv_locations iv"
proof -
  obtain ls where f: "f (iv_levels iv) = Inr ls"
    and r: "rollup_variant_total vid (iv\<lparr>iv_stock := (iv_stock iv)\<lparr>sk_levels := ls\<rparr>\<rparr>) = Inr iv'"
    using assms(2) unfolding rbind_Inr_iff on_levels_Inr by blast
  note ch = change [OF f]
  then have ok: "levels_ok ls" by (simp add: level_change_def)
  have dv: "distinct (map vr_id (iv_variants iv))" using assms(1) by (simp add: inventory_ok_def)
  show ?thesis
  proof (cases "lookup_by vr_id vid (iv_variants iv)")
    case None
    then have "iv' = iv\<lparr>iv_stock := (iv_stock iv)\<lparr>sk_levels := ls\<rparr>\<rparr>"
      using r list_for_variant_ok [OF ok] by (simp add: rollup_variant_total_def)
    then show ?thesis using ch None assms(1) ok
      by (auto simp: inventory_ok_def in_step_def level_change_def split: option.splits)
  next
    case (Some row)
    have vid: "vr_id row = vid" using lookup_by_in [OF Some] by simp
    have iv': "iv' = iv\<lparr>iv_stock := (iv_stock iv)\<lparr>sk_levels := ls,
        sk_variants := replace_by vr_id (row\<lparr>vr_inventory_quantity := level_sum ls vid\<rparr>) (iv_variants iv)\<rparr>\<rparr>"
      using r Some list_for_variant_ok [OF ok] by (simp add: rollup_variant_total_def filter_sum)
    have "inventory_ok iv'" using assms(1) ok by (simp add: inventory_ok_def iv')
    moreover have "in_step iv' vid" using Some vid by (simp add: in_step_def iv' lookup_replace)
    moreover have "in_step iv v \<longrightarrow> in_step iv' v"
      using ch Some vid by (cases "v = vid") (auto simp: in_step_def iv' lookup_replace level_change_def split: option.splits)
    ultimately show ?thesis using ch by (simp add: iv' level_change_def)
  qed
qed

lemma set_level_effect:
  assumes "inventory_ok iv" "set_level_route tid sid vid lid n iv = Inr iv'"
  shows "inventory_ok iv' \<and> in_step iv' vid \<and> (in_step iv v \<longrightarrow> in_step iv' v)
    \<and> level_at (iv_levels iv') v' l' = (if v' = vid \<and> l' = lid then n else level_at (iv_levels iv) v' l')
    \<and> iv_transfers iv' = iv_transfers iv"
proof -
  have w: "rbind (on_levels (level_upsert tid sid vid lid n) iv) (rollup_variant_total vid) = Inr iv'"
    using assms(2) by (simp add: set_level_route_def set_level_def rbind_Inr_iff split: if_splits)
  have ok: "levels_ok (iv_levels iv)" using assms(1) by (simp add: inventory_ok_def)
  from rolled_up_write [OF assms(1) w, of lid "n - level_at (iv_levels iv) vid lid" v v' l'] level_upsert_change [OF ok]
  show ?thesis by (auto split: if_splits)
qed

lemma adjust_level_effect:
  assumes "inventory_ok iv" "adjust_level vid lid d iv = Inr iv'"
  shows "inventory_ok iv' \<and> (in_step iv v \<longrightarrow> in_step iv' v) \<and> iv_transfers iv' = iv_transfers iv"
proof -
  have ok: "levels_ok (iv_levels iv)" using assms(1) by (simp add: inventory_ok_def)
  from rolled_up_write [OF assms(1) assms(2) [unfolded adjust_level_def], of lid d v] level_adjust_change [OF ok]
  show ?thesis by blast
qed

text \<open>A transition: the table is respected, and only a receipt touches the levels.\<close>

lemma transition_route_Inr:
  assumes "transition_route now sid trid target iv = Inr iv'"
  obtains t iv1 where "lookup_by tr_id trid (iv_transfers iv) = Some t" "tr_store_id t = sid"
    "target \<in> set (transfer_next (tr_status t))"
    "(if target = TrReceived then receive_transfer t iv else Inr iv) = Inr iv1"
    "iv' = iv1\<lparr>iv_transfers := replace_by tr_id (stamp_transfer now target t) (iv_transfers iv1)\<rparr>"
proof -
  obtain t where t: "lookup_by tr_id trid (iv_transfers iv) = Some t" "tr_store_id t = sid"
    using assms by (cases "lookup_by tr_id trid (iv_transfers iv)")
      (simp_all add: transition_route_def split: if_splits)
  have r: "transition_transfer now trid target iv = Inr iv'"
  proof (cases "transition_transfer now trid target iv")
    case (Inl e)
    then show ?thesis using assms t by (cases e) (simp_all add: transition_route_def)
  next
    case (Inr x)
    then show ?thesis using assms t by (simp add: transition_route_def)
  qed
  then have can: "transfer_can_transition_to t target" using t by (simp add: transition_transfer_def split: if_splits)
  obtain iv1 where "(if target = TrReceived then receive_transfer t iv else Inr iv) = Inr iv1"
    "iv' = iv1\<lparr>iv_transfers := replace_by tr_id (stamp_transfer now target t) (iv_transfers iv1)\<rparr>"
    using r t can by (simp add: transition_transfer_def rbind_Inr_iff) metis
  then show thesis using that t can by (simp add: transfer_can_transition_to_def)
qed

lemma stamp_simps [simp]:
  "tr_id (stamp_transfer now st t) = tr_id t" "tr_status (stamp_transfer now st t) = st"
  "tr_lines (stamp_transfer now st t) = tr_lines t" "tr_from (stamp_transfer now st t) = tr_from t"
  "tr_to (stamp_transfer now st t) = tr_to t"
  by (cases st; simp add: stamp_transfer_def Let_def)+

lemma lines_flow_cong: "tr_from t = tr_from u \<Longrightarrow> tr_to t = tr_to u \<Longrightarrow> lines_flow t = lines_flow u"
  by (intro ext) (simp add: lines_flow_def line_flow_def cong: if_cong)

lemma receive_transfer_Inr:
  assumes "receive_transfer t iv = Inr iv1"
  obtains ls where "foldM (move_transfer_line t) (tr_lines t) (iv_levels iv) = Inr ls"
    "iv1 = iv\<lparr>iv_stock := (iv_stock iv)\<lparr>sk_levels := ls\<rparr>\<rparr>"
  using assms unfolding receive_transfer_def rbind_Inr_iff on_levels_Inr by blast

lemma booked_replace:
  assumes "distinct (map tr_id ts)" "lookup_by tr_id (tr_id u) ts = Some t"
  shows "booked (replace_by tr_id u ts) v l = booked ts v l
    - (if tr_status t = TrReceived then lines_flow t (tr_lines t) v l else 0)
    + (if tr_status u = TrReceived then lines_flow u (tr_lines u) v l else 0)"
  unfolding booked_def by (rule sum_replace [OF assms])

definition transfer_step :: "inventory \<Rightarrow> inventory \<Rightarrow> bool" where
  "transfer_step iv iv' \<longleftrightarrow> inventory_ok iv' \<and> iv_variants iv' = iv_variants iv
     \<and> (\<forall>v. level_sum (iv_levels iv') v = level_sum (iv_levels iv) v)
     \<and> (\<forall>v l. level_at (iv_levels iv') v l - booked (iv_transfers iv') v l
          = level_at (iv_levels iv) v l - booked (iv_transfers iv) v l)"

lemma transition_step:
  assumes ok: "inventory_ok iv" and r: "transition_route now sid trid target iv = Inr iv'"
  shows "transfer_step iv iv'"
proof -
  obtain t iv1 where t: "lookup_by tr_id trid (iv_transfers iv) = Some t"
    and nx: "target \<in> set (transfer_next (tr_status t))"
    and run: "(if target = TrReceived then receive_transfer t iv else Inr iv) = Inr iv1"
    and iv': "iv' = iv1\<lparr>iv_transfers := replace_by tr_id (stamp_transfer now target t) (iv_transfers iv1)\<rparr>"
    using transition_route_Inr [OF r] by metis
  have d: "distinct (map tr_id (iv_transfers iv))" and lv: "levels_ok (iv_levels iv)" using ok by (simp_all add: inventory_ok_def)
  have "tr_id t = trid" using lookup_by_in [OF t] by simp
  then have l: "lookup_by tr_id (tr_id (stamp_transfer now target t)) (iv_transfers iv) = Some t" using t by simp
  have nr: "tr_status t \<noteq> TrReceived" using nx by (auto simp: transfer_next_def)
  have fl: "lines_flow (stamp_transfer now target t) = lines_flow t" by (rule lines_flow_cong) simp_all
  have bk: "booked (replace_by tr_id (stamp_transfer now target t) (iv_transfers iv)) v l
      = booked (iv_transfers iv) v l + (if target = TrReceived then lines_flow t (tr_lines t) v l else 0)" for v l
    using booked_replace [OF d l, of v l] nr unfolding fl by simp
  show ?thesis
  proof (cases "target = TrReceived")
    case True
    then obtain ls where ls: "foldM (move_transfer_line t) (tr_lines t) (iv_levels iv) = Inr ls"
      and iv1: "iv1 = iv\<lparr>iv_stock := (iv_stock iv)\<lparr>sk_levels := ls\<rparr>\<rparr>"
      using run receive_transfer_Inr by (metis (full_types))
    from move_lines_flow [OF lv ls] show ?thesis using True ok bk
      by (simp add: transfer_step_def levels_flow_def inventory_ok_def iv' iv1)
  next
    case False
    then have "iv1 = iv" using run by simp
    then show ?thesis using False ok bk by (simp add: transfer_step_def inventory_ok_def iv')
  qed
qed

lemma create_step:
  "inventory_ok iv \<Longrightarrow> create_transfer new_id tid sid f_loc t_loc nt carrier lines iv = Inr iv' \<Longrightarrow> transfer_step iv iv'"
  by (auto simp: create_transfer_def transfer_step_def inventory_ok_def booked_def lookup_by_None split: if_splits)

lemma update_lines_step:
  assumes ok: "inventory_ok iv" and u: "update_transfer_lines sid trid lines iv = Inr iv'"
  shows "transfer_step iv iv'"
proof -
  obtain t where t: "lookup_by tr_id trid (iv_transfers iv) = Some t" "tr_status t = TrDraft"
    and iv': "iv' = iv\<lparr>iv_transfers := replace_by tr_id (t\<lparr>tr_lines := lines\<rparr>) (iv_transfers iv)\<rparr>"
    using u by (auto simp: update_transfer_lines_def split: if_splits option.splits)
  have d: "distinct (map tr_id (iv_transfers iv))" using ok by (simp add: inventory_ok_def)
  have l: "lookup_by tr_id (tr_id (t\<lparr>tr_lines := lines\<rparr>)) (iv_transfers iv) = Some t"
    using t lookup_by_in [OF t(1)] by simp
  show ?thesis using ok booked_replace [OF d l] t(2) by (simp add: transfer_step_def inventory_ok_def iv')
qed

lemma transfer_call_step:
  assumes "inventory_ok iv" "\<not> is_direct c" "inventory_act c iv = Inr iv'"
  shows "transfer_step iv iv'"
  using assms transition_step create_step update_lines_step by (cases c) (auto simp: is_direct_def)

lemma transfer_step_in_step: "transfer_step iv iv' \<Longrightarrow> in_step iv' v = in_step iv v"
  by (cases "lookup_by vr_id v (iv_variants iv)") (simp_all add: transfer_step_def in_step_def)

lemma inventory_act_ok:
  assumes "inventory_ok iv" "inventory_act c iv = Inr iv'"
  shows "inventory_ok iv' \<and> (in_step iv v \<longrightarrow> in_step iv' v)"
proof (cases "is_direct c")
  case True
  then show ?thesis using assms set_level_effect [of iv _ _ _ _ _ iv'] adjust_level_effect [of iv _ _ _ iv']
    by (cases c) (auto simp: is_direct_def)
next
  case False
  with transfer_call_step [OF assms(1) _ assms(2)] show ?thesis
    using transfer_step_in_step by (auto simp: transfer_step_def)
qed

section \<open>The life of a transfer\<close>

definition transfer_status_of :: "uuid \<Rightarrow> inventory \<Rightarrow> transfer_status option" where
  "transfer_status_of trid iv = map_option tr_status (lookup_by tr_id trid (iv_transfers iv))"

definition transfer_next_opt :: "transfer_status option \<Rightarrow> transfer_status option list" where
  "transfer_next_opt st = (case st of None \<Rightarrow> [Some TrDraft] | Some s \<Rightarrow> map Some (transfer_next s))"

lemma transfer_law:
  assumes "inventory_act c iv = Inr iv'"
  shows "transfer_status_of trid iv' = transfer_status_of trid iv
    \<or> transfer_status_of trid iv' \<in> set (transfer_next_opt (transfer_status_of trid iv))"
proof -
  consider (same) "iv_transfers iv' = iv_transfers iv"
    | (new) t where "iv_transfers iv' = iv_transfers iv @ [t]" "tr_status t = TrDraft"
    | (edit) t u where "iv_transfers iv' = replace_by tr_id u (iv_transfers iv)" "tr_id u = tr_id t"
        "lookup_by tr_id (tr_id t) (iv_transfers iv) = Some t"
        "tr_status u = tr_status t \<or> tr_status u \<in> set (transfer_next (tr_status t))"
  proof (cases c)
    case (SetLevel tid sid vid lid n)
    then have "rbind (on_levels (level_upsert tid sid vid lid n) iv) (rollup_variant_total vid) = Inr iv'"
      using assms by (simp add: set_level_route_def set_level_def rbind_Inr_iff split: if_splits)
    then show ?thesis using same
      by (auto simp: rbind_Inr_iff on_levels_Inr rollup_variant_total_def Let_def split: option.splits)
  next
    case (AdjustLevel vid lid d)
    then show ?thesis using assms same
      by (auto simp: adjust_level_def rbind_Inr_iff on_levels_Inr rollup_variant_total_def Let_def split: option.splits)
  next
    case CreateTransfer
    then show ?thesis using assms new by (auto simp: create_transfer_def split: if_splits)
  next
    case (UpdateTransferLines sid trid' lines)
    then obtain t where t: "lookup_by tr_id trid' (iv_transfers iv) = Some t"
      and iv': "iv' = iv\<lparr>iv_transfers := replace_by tr_id (t\<lparr>tr_lines := lines\<rparr>) (iv_transfers iv)\<rparr>"
      using assms by (auto simp: update_transfer_lines_def split: if_splits option.splits)
    have "tr_id t = trid'" using lookup_by_in [OF t] by simp
    then show ?thesis using edit [of "t\<lparr>tr_lines := lines\<rparr>" t] t iv' by simp
  next
    case (TransitionTransfer now sid trid' target)
    then obtain t iv1 where t: "lookup_by tr_id trid' (iv_transfers iv) = Some t"
      "target \<in> set (transfer_next (tr_status t))"
      and run: "(if target = TrReceived then receive_transfer t iv else Inr iv) = Inr iv1"
      and iv': "iv' = iv1\<lparr>iv_transfers := replace_by tr_id (stamp_transfer now target t) (iv_transfers iv1)\<rparr>"
      using assms transition_route_Inr [of now sid trid' target iv iv'] by (metis inventory_act.simps(5))
    have "iv_transfers iv1 = iv_transfers iv"
    proof (cases "target = TrReceived")
      case True
      then show ?thesis using run receive_transfer_Inr [of t iv iv1] by fastforce
    next
      case False
      then show ?thesis using run by simp
    qed
    moreover have "tr_id t = trid'" using lookup_by_in [OF t(1)] by simp
    ultimately show ?thesis using edit [of "stamp_transfer now target t" t] t iv' by simp
  qed
  then show ?thesis
  proof cases
    case same
    then show ?thesis by (simp add: transfer_status_of_def)
  next
    case new
    then show ?thesis by (auto simp: transfer_status_of_def lookup_snoc transfer_next_opt_def split: option.split)
  next
    case edit
    then show ?thesis by (auto simp: transfer_status_of_def lookup_replace transfer_next_opt_def)
  qed
qed

interpretation transfer_machine: status_machine transfer_next_opt "transfer_status_of trid" inventory_act for trid
  by unfold_locales (rule transfer_law)

lemma transfer_walk:
  assumes "inventory_ok s" "list_all (\<lambda>c. \<not> is_direct c) cs"
  shows "transfer_step s (serve_all inventory_act cs s)"
  using assms
proof (induction cs arbitrary: s)
  case (Cons c cs)
  let ?t = "serve inventory_act c s"
  have st: "transfer_step s ?t"
    using transfer_call_step [of s c] Cons.prems
    by (cases "inventory_act c s") (simp_all add: serve_def transfer_step_def)
  then have "transfer_step ?t (serve_all inventory_act cs ?t)"
    using Cons.IH Cons.prems(2) by (simp add: transfer_step_def)
  with st show ?case by (simp add: transfer_step_def)
qed (simp add: transfer_step_def)

text \<open>
  C32: stock moves once, when a transfer is received. Over any sequence of requests about transfers
  no unit appears or disappears: the total of a variant over its locations and the count of the
  variant stay, and at every location the level differs from what it was by exactly the lines of the
  transfers received since. The status of a transfer only follows the table.
\<close>

theorem transfer_moves_once:
  assumes "inventory_ok s" "list_all (\<lambda>c. \<not> is_direct c) cs" "t = serve_all inventory_act cs s"
  shows "(\<forall>v. level_sum (sk_levels (iv_stock t)) v = level_sum (sk_levels (iv_stock s)) v
        \<and> variant_count (iv_stock t) v = variant_count (iv_stock s) v)
    \<and> (\<forall>v l. level_at (sk_levels (iv_stock t)) v l = level_at (sk_levels (iv_stock s)) v l
          + booked (iv_transfers t) v l - booked (iv_transfers s) v l)
    \<and> (\<forall>l\<in>set (sk_levels (iv_stock t)). 0 \<le> lv_available l)
    \<and> (\<forall>trid. \<exists>bs. chain transfer_next_opt (transfer_status_of trid s) bs
          \<and> transfer_status_of trid t = last (transfer_status_of trid s # bs))"
proof -
  have st: "transfer_step s t" using transfer_walk [OF assms(1,2)] assms(3) by simp
  have "level_at (iv_levels t) v l = level_at (iv_levels s) v l + booked (iv_transfers t) v l - booked (iv_transfers s) v l" for v l
  proof -
    have "level_at (iv_levels t) v l - booked (iv_transfers t) v l = level_at (iv_levels s) v l - booked (iv_transfers s) v l"
      using st by (simp add: transfer_step_def)
    then show ?thesis by linarith
  qed
  moreover have "\<forall>l\<in>set (iv_levels t). 0 \<le> lv_available l"
    using st by (simp add: transfer_step_def inventory_ok_def levels_ok_def)
  moreover have "level_sum (iv_levels t) v = level_sum (iv_levels s) v" "variant_count (iv_stock t) v = variant_count (iv_stock s) v" for v
    using st by (simp_all add: transfer_step_def variant_count_def)
  moreover have "\<exists>bs. chain transfer_next_opt (transfer_status_of trid s) bs
      \<and> transfer_status_of trid t = last (transfer_status_of trid s # bs)" for trid
    unfolding assms(3) by (rule transfer_machine.serve_chain)
  ultimately show ?thesis by blast
qed

definition demo_inventory :: inventory where
  "demo_inventory = \<lparr>iv_stock = demo_stock,
     iv_locations = [\<lparr>lo_id = 21, lo_store_id = 2\<rparr>, \<lparr>lo_id = 22, lo_store_id = 2\<rparr>, \<lparr>lo_id = 23, lo_store_id = 2\<rparr>],
     iv_transfers = []\<rparr>"

definition demo_transfer_calls :: "inventory_call list" where
  "demo_transfer_calls = [CreateTransfer 71 9 2 22 23 None None [\<lparr>tl_variant_id = 11, tl_quantity = 1\<rparr>],
     UpdateTransferLines 2 71 [\<lparr>tl_variant_id = 11, tl_quantity = 2\<rparr>],
     TransitionTransfer 1 2 71 TrRequested, UpdateTransferLines 2 71 [], TransitionTransfer 2 2 71 TrInTransit,
     TransitionTransfer 3 2 71 TrReceived, TransitionTransfer 4 2 71 TrReceived]"

lemma demo_inventory_ok: "inventory_ok demo_inventory"
  by code_simp

theorem transfer_moves_once_witness:
  "map (level_at (sk_levels (iv_stock (serve_all inventory_act demo_transfer_calls demo_inventory))) 11) [21, 22, 23] = [1, 0, 2]
   \<and> level_sum (sk_levels (iv_stock (serve_all inventory_act demo_transfer_calls demo_inventory))) 11 = 3
   \<and> transfer_status_of 71 (serve_all inventory_act demo_transfer_calls demo_inventory) = Some TrReceived"
proof -
  let ?t = "serve_all inventory_act demo_transfer_calls demo_inventory"
  have init: "map (level_at (iv_levels demo_inventory) 11) [21, 22, 23] = [1, 2, 0]" "level_sum (iv_levels demo_inventory) 11 = 3"
    "list_all (\<lambda>c. \<not> is_direct c) demo_transfer_calls" "iv_transfers demo_inventory = []" by code_simp+
  have final: "map (booked (iv_transfers ?t) 11) [21, 22, 23] = [0, -2, 2]" "transfer_status_of 71 ?t = Some TrReceived"
    by code_simp+
  from transfer_moves_once [OF demo_inventory_ok init(3) refl] have
    "level_at (iv_levels ?t) 11 l = level_at (iv_levels demo_inventory) 11 l + booked (iv_transfers ?t) 11 l"
    "level_sum (iv_levels ?t) 11 = level_sum (iv_levels demo_inventory) 11" for l
    using init(4) by (simp_all add: booked_def)
  with init final show ?thesis by simp
qed

section \<open>When a receipt is accepted\<close>

text \<open>The units a transfer takes of a variant.\<close>

definition requested :: "transfer_line list \<Rightarrow> uuid \<Rightarrow> int" where
  "requested xs v = sum_list (map (\<lambda>x. if tl_variant_id x = v then tl_quantity x else 0) xs)"

lemma requested_simps [simp]:
  "requested [] v = 0" "requested (x # xs) v = (if tl_variant_id x = v then tl_quantity x else 0) + requested xs v"
  by (simp_all add: requested_def)

lemma requested_nonneg: "transfer_lines_ok xs \<Longrightarrow> 0 \<le> requested xs v"
  by (induction xs) (simp_all add: transfer_lines_ok_def)

lemma move_line_iff:
  assumes "levels_ok ls" "1 \<le> tl_quantity x"
  shows "(\<exists>ls'. move_transfer_line t x ls = Inr ls') \<longleftrightarrow> tl_quantity x \<le> level_at ls (tl_variant_id x) (tr_from t)"
proof
  let ?v = "tl_variant_id x" and ?q = "tl_quantity x"
  assume "\<exists>ls'. move_transfer_line t x ls = Inr ls'"
  then show "?q \<le> level_at ls ?v (tr_from t)"
    using level_adjust_iff [OF assms(1), of ?v "tr_from t" "- ?q"] by (auto simp: move_transfer_line_def rbind_Inr_iff)
next
  let ?v = "tl_variant_id x" and ?q = "tl_quantity x"
  assume q: "?q \<le> level_at ls ?v (tr_from t)"
  then have "lookup_by lv_key (?v, tr_from t) ls \<noteq> None" using assms(2)
    by (cases "lookup_by lv_key (?v, tr_from t) ls") (simp_all add: level_at_def)
  then obtain ls1 where a: "level_adjust ?v (tr_from t) (- ?q) False ls = Inr ls1"
    using level_adjust_iff [OF assms(1), of ?v "tr_from t" "- ?q"] q by auto
  then have ok1: "levels_ok ls1" using level_adjust_change [OF assms(1) a] by (simp add: level_change_def)
  show "\<exists>ls'. move_transfer_line t x ls = Inr ls'"
  proof (cases "lookup_by lv_key (?v, tr_to t) ls1")
    case None
    then show ?thesis using level_upsert_total [OF ok1, of ?q "tr_tenant_id t" "tr_store_id t" ?v "tr_to t"] assms(2) a
      by (simp add: move_transfer_line_def level_get_ok [OF ok1])
  next
    case (Some r)
    have "0 \<le> level_at ls1 ?v (tr_to t)" using Some lookup_by_in [OF Some] ok1 by (simp add: level_at_def levels_ok_def)
    then show ?thesis using Some level_adjust_iff [OF ok1, of ?v "tr_to t" ?q] assms(2) a
      by (simp add: move_transfer_line_def level_get_ok [OF ok1])
  qed
qed

lemma move_lines_iff:
  assumes "levels_ok ls" "transfer_lines_ok xs" "tr_from t \<noteq> tr_to t"
  shows "(\<exists>ls'. foldM (move_transfer_line t) xs ls = Inr ls') \<longleftrightarrow> (\<forall>v. requested xs v \<le> level_at ls v (tr_from t))"
  using assms
proof (induction xs arbitrary: ls)
  case Nil
  then show ?case
    by (auto simp: level_at_def levels_ok_def dest: lookup_by_in split: option.split)
next
  case (Cons x xs)
  let ?v = "tl_variant_id x" and ?q = "tl_quantity x"
  have q: "1 \<le> ?q" and xs: "transfer_lines_ok xs" using Cons.prems(2) by (simp_all add: transfer_lines_ok_def)
  show ?case
  proof (cases "?q \<le> level_at ls ?v (tr_from t)")
    case True
    then obtain ls1 where m: "move_transfer_line t x ls = Inr ls1" using move_line_iff [OF Cons.prems(1) q] by blast
    have f: "levels_flow ls ls1 (line_flow t x)" by (rule move_line_flow [OF Cons.prems(1) m])
    then have "levels_ok ls1" by (simp add: levels_flow_def)
    note ih = Cons.IH [OF this xs Cons.prems(3)]
    have e: "level_at ls1 v (tr_from t) = level_at ls v (tr_from t) - (if ?v = v then ?q else 0)" for v
      using f Cons.prems(3) by (simp add: levels_flow_def line_flow_def)
    have "requested xs v \<le> level_at ls1 v (tr_from t) \<longleftrightarrow> requested (x # xs) v \<le> level_at ls v (tr_from t)" for v
      using e [of v] by (cases "?v = v") auto
    with ih m show ?thesis by simp
  next
    case False
    then have "\<not> (\<exists>ls1. move_transfer_line t x ls = Inr ls1)" using move_line_iff [OF Cons.prems(1) q] by blast
    moreover have "\<not> requested (x # xs) ?v \<le> level_at ls ?v (tr_from t)"
      using False requested_nonneg [OF xs, of ?v] by simp
    ultimately show ?thesis by (auto simp: rbind_Inr_iff)
  qed
qed

lemma checks_all: "(\<exists>u. foldM (\<lambda>x _. chk x) xs () = Inr u) \<longleftrightarrow> (\<forall>x\<in>set xs. chk x = Inr ())" for chk :: "'a \<Rightarrow> unit result"
  by (induction xs) (auto simp: rbind_Inr_iff)

text \<open>
  A receipt is accepted exactly when it can be booked. The transfer must belong to the store and
  be in transit, both locations and all variants must be the store's, and for every variant the lines
  together must not exceed what the source location has; otherwise nothing moves.
\<close>

theorem receipt_accepted_iff:
  assumes "inventory_ok iv" "lookup_by tr_id trid (iv_transfers iv) = Some t"
    and "transfer_lines_ok (tr_lines t)" "tr_from t \<noteq> tr_to t"
  shows "(\<exists>iv'. transition_route now sid trid TrReceived iv = Inr iv') \<longleftrightarrow>
      tr_store_id t = sid \<and> tr_status t = TrInTransit
    \<and> (\<forall>l\<in>{tr_from t, tr_to t}. assert_location_in_store sid l iv = Inr ())
    \<and> (\<forall>x\<in>set (tr_lines t). assert_variant_in_store sid (tl_variant_id x) iv = Inr ())
    \<and> (\<forall>v. requested (tr_lines t) v \<le> level_at (sk_levels (iv_stock iv)) v (tr_from t))"
proof -
  have lv: "levels_ok (iv_levels iv)" using assms(1) by (simp add: inventory_ok_def)
  have locs: "(\<exists>u. foldM (\<lambda>l _. assert_location_in_store (tr_store_id t) l iv) [tr_from t, tr_to t] () = Inr u)
      \<longleftrightarrow> (\<forall>l\<in>{tr_from t, tr_to t}. assert_location_in_store (tr_store_id t) l iv = Inr ())"
    using checks_all [of "\<lambda>l. assert_location_in_store (tr_store_id t) l iv" "[tr_from t, tr_to t]"] by simp
  have vars: "(\<exists>u. foldM (\<lambda>x _. assert_variant_in_store (tr_store_id t) (tl_variant_id x) iv) (tr_lines t) () = Inr u)
      \<longleftrightarrow> (\<forall>x\<in>set (tr_lines t). assert_variant_in_store (tr_store_id t) (tl_variant_id x) iv = Inr ())"
    by (rule checks_all)
  have recv: "(\<exists>iv1. receive_transfer t iv = Inr iv1) \<longleftrightarrow>
      (\<forall>l\<in>{tr_from t, tr_to t}. assert_location_in_store (tr_store_id t) l iv = Inr ())
    \<and> (\<forall>x\<in>set (tr_lines t). assert_variant_in_store (tr_store_id t) (tl_variant_id x) iv = Inr ())
    \<and> (\<forall>v. requested (tr_lines t) v \<le> level_at (iv_levels iv) v (tr_from t))"
    unfolding receive_transfer_def rbind_Inr_iff on_levels_Inr locs [symmetric] vars [symmetric]
      move_lines_iff [OF lv assms(3,4), symmetric] by blast
  have route: "(\<exists>iv'. transition_route now sid trid TrReceived iv = Inr iv') \<longleftrightarrow>
      tr_store_id t = sid \<and> (\<exists>iv'. transition_transfer now trid TrReceived iv = Inr iv')"
  proof (cases "transition_transfer now trid TrReceived iv")
    case (Inl e)
    then show ?thesis using assms(2) by (cases e) (simp_all add: transition_route_def)
  qed (use assms(2) in \<open>simp add: transition_route_def\<close>)
  have st: "transfer_can_transition_to t TrReceived \<longleftrightarrow> tr_status t = TrInTransit"
    by (cases "tr_status t") (simp_all add: transfer_can_transition_to_def transfer_next_def)
  have "(\<exists>iv'. transition_transfer now trid TrReceived iv = Inr iv') \<longleftrightarrow>
      tr_status t = TrInTransit \<and> (\<exists>iv1. receive_transfer t iv = Inr iv1)"
    using assms(2) by (auto simp: transition_transfer_def st rbind_Inr_iff)
  with route recv show ?thesis by auto
qed

definition demo_in_transit :: inventory where
  "demo_in_transit = serve_all inventory_act (take 5 demo_transfer_calls) demo_inventory"

theorem receipt_accepted_iff_witness:
  "(\<exists>iv'. transition_route 3 2 71 TrReceived demo_in_transit = Inr iv')
   \<and> \<not> (\<exists>iv'. transition_route 3 5 71 TrReceived demo_in_transit = Inr iv')"
proof -
  have ok: "inventory_ok demo_in_transit" by code_simp
  let ?t = "the (lookup_by tr_id 71 (iv_transfers demo_in_transit))"
  have t: "lookup_by tr_id 71 (iv_transfers demo_in_transit) = Some ?t"
    "transfer_lines_ok (tr_lines ?t)" "tr_from ?t \<noteq> tr_to ?t" "tr_store_id ?t = 2" "tr_status ?t = TrInTransit"
    "list_all (\<lambda>l. assert_location_in_store 2 l demo_in_transit = Inr ()) [tr_from ?t, tr_to ?t]"
    "list_all (\<lambda>x. assert_variant_in_store 2 (tl_variant_id x) demo_in_transit = Inr ()) (tr_lines ?t)"
    "tr_lines ?t = [\<lparr>tl_variant_id = 11, tl_quantity = 2\<rparr>]" "tr_from ?t = 22" by code_simp+
  have lv: "level_at (iv_levels demo_in_transit) 11 22 = 2" by code_simp
  have "0 \<le> level_at (iv_levels demo_in_transit) v l" for v l
    using ok lookup_by_in [of lv_key "(v, l)" "iv_levels demo_in_transit"]
    by (auto simp: level_at_def inventory_ok_def levels_ok_def split: option.split)
  then have "requested (tr_lines ?t) v \<le> level_at (iv_levels demo_in_transit) v (tr_from ?t)" for v
    using lv unfolding t(8,9) by simp
  with receipt_accepted_iff [OF ok t(1-3), of 3 2] receipt_accepted_iff [OF ok t(1-3), of 3 5] t(4-7)
  show ?thesis by (simp add: list_all_iff)
qed

text \<open>
  C33: the totals stay in step with the locations. Whatever requests set levels, adjust them or move
  transfers, in any order, the keys stay unique and no level is negative; a variant whose count is the
  sum of its levels keeps it so, and setting a level brings its variant in step, whatever its count
  was before.
\<close>

theorem levels_in_step:
  assumes "inventory_ok s" "t = serve_all inventory_act cs s"
  shows "inventory_ok t \<and> (\<forall>v. in_step s v \<longrightarrow> in_step t v)
    \<and> (\<forall>tid sid vid lid n u. inventory_act (SetLevel tid sid vid lid n) t = Inr u \<longrightarrow>
        in_step u vid \<and> (\<forall>v l. level_at (sk_levels (iv_stock u)) v l
          = (if v = vid \<and> l = lid then n else level_at (sk_levels (iv_stock t)) v l)))"
proof -
  have ok: "inventory_ok t" unfolding assms(2)
    by (rule serve_all_invariant [where I = inventory_ok]) (use inventory_act_ok assms(1) in blast)+
  moreover have "in_step s v \<longrightarrow> in_step t v" for v
  proof
    assume "in_step s v"
    then have "inventory_ok t \<and> in_step t v" unfolding assms(2)
      by (intro serve_all_invariant [where I = "\<lambda>s. inventory_ok s \<and> in_step s v"])
        (use inventory_act_ok assms(1) in blast)+
    then show "in_step t v" by simp
  qed
  moreover have "in_step u vid \<and> (\<forall>v l. level_at (iv_levels u) v l = (if v = vid \<and> l = lid then n else level_at (iv_levels t) v l))"
    if "inventory_act (SetLevel tid sid vid lid n) t = Inr u" for tid sid vid lid n u
    using set_level_effect [OF ok] that by (metis inventory_act.simps(1))
  ultimately show ?thesis by blast
qed

theorem levels_in_step_witness:
  "in_step (serve_all inventory_act (SetLevel 9 2 11 23 4 # demo_transfer_calls) demo_inventory) 11
   \<and> map vr_inventory_quantity (sk_variants (iv_stock (serve_all inventory_act (SetLevel 9 2 11 23 4 # demo_transfer_calls) demo_inventory))) = [7]"
proof -
  have "in_step demo_inventory 11" by code_simp
  moreover have "map vr_inventory_quantity (sk_variants (iv_stock (serve_all inventory_act (SetLevel 9 2 11 23 4 # demo_transfer_calls) demo_inventory))) = [7]"
    by code_simp
  ultimately show ?thesis using levels_in_step [OF demo_inventory_ok refl] by blast
qed

text \<open>
  The order path breaks the step: a sale is mirrored into one location only, and cut off at zero, so
  a sale larger than any location leaves a rest there. Setting any level afterwards brings the rest
  back into the total: here a variant that sold out shows one unit again.
\<close>

lemma sold_out_unit_returns:
  "case debit_order_line 9 1 (Some 11) [] 3 True (iv_stock demo_inventory) of
     (LineMoved e, db) \<Rightarrow> in_step demo_inventory 11
       \<and> variant_count db 11 = 0 \<and> level_sum (sk_levels db) 11 = 1
       \<and> (case inventory_act (SetLevel 9 2 11 23 0) (demo_inventory\<lparr>iv_stock := db\<rparr>) of
            Inr t \<Rightarrow> variant_count (iv_stock t) 11 = 1 | Inl _ \<Rightarrow> False)
   | _ \<Rightarrow> False"
  by code_simp

end
