(* ===== verification/Geography.thy ===== *)
theory Geography
  imports Numu_Prelude
begin

text \<open>
  The governorates of Egypt and their lookup, \<open>src/core/value_objects/geography.py\<close>. Text is ASCII: the Arabic
  names, capitals and aliases are left out, and no ASCII token is ever one of them.
\<close>

datatype logistics_zone = GreaterCairo | Delta | CanalSinai | UpperEgypt | Remote

record governorate =
  gv_code :: string
  gv_bosta_code :: string
  gv_name_en :: string
  gv_zone :: logistics_zone
  gv_capital_en :: string

definition gov_row :: "string \<Rightarrow> string \<Rightarrow> string \<Rightarrow> logistics_zone \<Rightarrow> string \<Rightarrow> governorate" where
  "gov_row code bosta name_en zone capital = \<lparr>gv_code = code, gv_bosta_code = bosta, gv_name_en = name_en,
     gv_zone = zone, gv_capital_en = capital\<rparr>"

definition egyptian_governorates :: "governorate list" where
  "egyptian_governorates =
    [gov_row ''EG-C'' ''CAI'' ''Cairo'' GreaterCairo ''Cairo'',
     gov_row ''EG-GZ'' ''GIZ'' ''Giza'' GreaterCairo ''Giza'',
     gov_row ''EG-KB'' ''QLY'' ''Qalyubia'' GreaterCairo ''Banha'',
     gov_row ''EG-ALX'' ''ALX'' ''Alexandria'' Delta ''Alexandria'',
     gov_row ''EG-BH'' ''BHR'' ''Beheira'' Delta ''Damanhur'',
     gov_row ''EG-GH'' ''GHR'' ''Gharbia'' Delta ''Tanta'',
     gov_row ''EG-MNF'' ''MNF'' ''Monufia'' Delta ''Shebin El Kom'',
     gov_row ''EG-DK'' ''DKH'' ''Dakahlia'' Delta ''Mansoura'',
     gov_row ''EG-DT'' ''DMT'' ''Damietta'' Delta ''Damietta'',
     gov_row ''EG-SHR'' ''SHR'' ''Sharqia'' Delta ''Zagazig'',
     gov_row ''EG-KFS'' ''KFS'' ''Kafr El Sheikh'' Delta ''Kafr El Sheikh'',
     gov_row ''EG-PTS'' ''PSD'' ''Port Said'' CanalSinai ''Port Said'',
     gov_row ''EG-IS'' ''ISM'' ''Ismailia'' CanalSinai ''Ismailia'',
     gov_row ''EG-SUZ'' ''SUZ'' ''Suez'' CanalSinai ''Suez'',
     gov_row ''EG-SIN'' ''NSN'' ''North Sinai'' CanalSinai ''Arish'',
     gov_row ''EG-JS'' ''SSN'' ''South Sinai'' CanalSinai ''El Tor'',
     gov_row ''EG-FYM'' ''FYM'' ''Fayoum'' UpperEgypt ''Fayoum'',
     gov_row ''EG-BNS'' ''BNS'' ''Beni Suef'' UpperEgypt ''Beni Suef'',
     gov_row ''EG-MN'' ''MNY'' ''Minya'' UpperEgypt ''Minya'',
     gov_row ''EG-AST'' ''AST'' ''Asyut'' UpperEgypt ''Asyut'',
     gov_row ''EG-SHG'' ''SHG'' ''Sohag'' UpperEgypt ''Sohag'',
     gov_row ''EG-KN'' ''QNA'' ''Qena'' UpperEgypt ''Qena'',
     gov_row ''EG-LX'' ''LXR'' ''Luxor'' UpperEgypt ''Luxor'',
     gov_row ''EG-ASN'' ''ASN'' ''Aswan'' UpperEgypt ''Aswan'',
     gov_row ''EG-BA'' ''RDS'' ''Red Sea'' Remote ''Hurghada'',
     gov_row ''EG-MT'' ''MTR'' ''Matrouh'' Remote ''Marsa Matrouh'',
     gov_row ''EG-WAD'' ''NWV'' ''New Valley'' Remote ''Kharga'']"

definition name_aliases :: "(string \<times> string) list" where
  "name_aliases =
    [(''al qahira'', ''Cairo''), (''el qahira'', ''Cairo''), (''al-qahira'', ''Cairo''),
     (''cairo governorate'', ''Cairo''), (''el gize'', ''Giza''), (''al giza'', ''Giza''),
     (''al-giza'', ''Giza''), (''ad daqahliyah'', ''Dakahlia''), (''el mansoura'', ''Dakahlia''),
     (''mansoura'', ''Dakahlia''), (''el daqahliyah'', ''Dakahlia''), (''al gharbiyah'', ''Gharbia''),
     (''el gharbia'', ''Gharbia''), (''tanta'', ''Gharbia''), (''al minufiyah'', ''Monufia''),
     (''el monufia'', ''Monufia''), (''al qalyubiyah'', ''Qalyubia''), (''el qalyubia'', ''Qalyubia''),
     (''kalyobia'', ''Qalyubia''), (''banha'', ''Qalyubia''), (''al sharqiyah'', ''Sharqia''),
     (''el sharqia'', ''Sharqia''), (''al iskandariyah'', ''Alexandria''), (''el iskandariya'', ''Alexandria''),
     (''alex'', ''Alexandria''), (''el alexandria'', ''Alexandria''), (''al buhayrah'', ''Beheira''),
     (''el beheira'', ''Beheira''), (''damanhur'', ''Beheira''), (''kafr elsheikh'', ''Kafr El Sheikh''),
     (''kafr al sheikh'', ''Kafr El Sheikh''), (''kafr-el-sheikh'', ''Kafr El Sheikh''), (''dumyat'', ''Damietta''),
     (''el damietta'', ''Damietta''), (''bur said'', ''Port Said''), (''bour said'', ''Port Said''),
     (''al ismailiyah'', ''Ismailia''), (''al suways'', ''Suez''), (''shamal sina'', ''North Sinai''),
     (''sinai north'', ''North Sinai''), (''janub sina'', ''South Sinai''), (''sinai south'', ''South Sinai''),
     (''al fayyum'', ''Fayoum''), (''fayyoum'', ''Fayoum''), (''el fayoum'', ''Fayoum''),
     (''bani suwayf'', ''Beni Suef''), (''beni sweif'', ''Beni Suef''), (''el minya'', ''Minya''),
     (''al minya'', ''Minya''), (''asyout'', ''Asyut''), (''assiut'', ''Asyut''),
     (''souhag'', ''Sohag''), (''el sohag'', ''Sohag''), (''qina'', ''Qena''),
     (''el qena'', ''Qena''), (''al uqsur'', ''Luxor''), (''loxor'', ''Luxor''),
     (''asswan'', ''Aswan''), (''al bahr al ahmar'', ''Red Sea''), (''hurghada'', ''Red Sea''),
     (''red-sea'', ''Red Sea''), (''marsa matruh'', ''Matrouh''), (''mersa matrouh'', ''Matrouh''),
     (''matruh'', ''Matrouh''), (''al wadi al jadid'', ''New Valley''), (''new-valley'', ''New Valley''),
     (''kharga'', ''New Valley'')]"

text \<open>The indexes are built once; their keys do not repeat.\<close>

definition by_iso_code :: "(string \<times> governorate) list" where
  "by_iso_code = map (\<lambda>g. (gv_code g, g)) egyptian_governorates"

definition by_bosta_code :: "(string \<times> governorate) list" where
  "by_bosta_code = map (\<lambda>g. (gv_bosta_code g, g)) egyptian_governorates"

definition by_name_en :: "(string \<times> governorate) list" where
  "by_name_en = map (\<lambda>g. (lower (gv_name_en g), g)) egyptian_governorates"

definition by_capital_en :: "(string \<times> governorate) list" where
  "by_capital_en = map (\<lambda>g. (lower (gv_capital_en g), g)) egyptian_governorates"

definition get_governorate_by_code :: "string \<Rightarrow> governorate option" where
  "get_governorate_by_code code =
     (if code = [] then None
      else (let normalized = upper (strip code) in
        case map_of by_iso_code normalized of Some g \<Rightarrow> Some g | None \<Rightarrow> map_of by_bosta_code normalized))"

definition get_governorate_by_name :: "string \<Rightarrow> governorate option" where
  "get_governorate_by_name name =
     (if name = [] then None
      else (let lowered = lower (strip name) in
        case map_of by_name_en lowered of
          Some g \<Rightarrow> Some g
        | None \<Rightarrow>
            (case map_of name_aliases lowered of
               Some canonical \<Rightarrow> map_of by_name_en (lower canonical)
             | None \<Rightarrow> map_of by_capital_en lowered)))"

definition resolve_governorate :: "string \<Rightarrow> governorate option" where
  "resolve_governorate token =
     (if token = [] then None
      else case get_governorate_by_code token of Some g \<Rightarrow> Some g | None \<Rightarrow> get_governorate_by_name token)"

definition get_governorates_by_zone :: "logistics_zone \<Rightarrow> governorate list" where
  "get_governorates_by_zone z = filter (\<lambda>g. gv_zone g = z) egyptian_governorates"

section \<open>Every spelling finds its governorate\<close>

lemma char_upper_lower: "char_upper (char_lower c) = char_upper c"
proof (cases "65 \<le> (of_char c :: nat) \<and> (of_char c :: nat) \<le> 90")
  case True
  then have "(of_char (char_lower c) :: nat) = of_char c + 32" by (simp add: char_lower_def Let_def)
  with True show ?thesis by (simp add: char_upper_def Let_def)
next
  case False
  then show ?thesis by (auto simp: char_lower_def Let_def)
qed

lemma upper_lower: "upper (lower s) = upper s"
  by (simp add: upper_def lower_def char_upper_lower)

definition name_keys :: "string list" where
  "name_keys = [''cairo'', ''giza'', ''qalyubia'', ''alexandria'', ''beheira'', ''gharbia'',
  ''monufia'', ''dakahlia'', ''damietta'', ''sharqia'', ''kafr el sheikh'', ''port said'', ''ismailia'', ''suez'',
  ''north sinai'', ''south sinai'', ''fayoum'', ''beni suef'', ''minya'', ''asyut'', ''sohag'', ''qena'', ''luxor'',
  ''aswan'', ''red sea'', ''matrouh'', ''new valley'']"

definition capital_keys :: "string list" where
  "capital_keys = [''cairo'', ''giza'', ''banha'', ''alexandria'', ''damanhur'', ''tanta'',
  ''shebin el kom'', ''mansoura'', ''damietta'', ''zagazig'', ''kafr el sheikh'', ''port said'', ''ismailia'', ''suez'',
  ''arish'', ''el tor'', ''fayoum'', ''beni suef'', ''minya'', ''asyut'', ''sohag'', ''qena'', ''luxor'', ''aswan'',
  ''hurghada'', ''marsa matrouh'', ''kharga'']"

lemma key_lists:
  "map (\<lambda>g. lower (gv_name_en g)) egyptian_governorates = name_keys"
  "map (\<lambda>g. lower (gv_capital_en g)) egyptian_governorates = capital_keys"
  by code_simp+

lemma keys_distinct:
  "distinct (map gv_code egyptian_governorates)" "distinct (map gv_bosta_code egyptian_governorates)"
  "distinct (map (\<lambda>g. lower (gv_name_en g)) egyptian_governorates)"
  "distinct (map (\<lambda>g. lower (gv_capital_en g)) egyptian_governorates)"
  unfolding key_lists by code_simp+

text \<open>ISO codes have a hyphen, Bosta codes three letters; names and capitals are longer and have no hyphen.\<close>

lemma keys_shape:
  "list_all (\<lambda>g. CHR ''-'' \<in> set (gv_code g) \<and> CHR ''-'' \<notin> set (gv_bosta_code g) \<and> length (gv_bosta_code g) = 3)
     egyptian_governorates"
  "list_all (\<lambda>k. CHR ''-'' \<notin> set k \<and> 3 < length k) (name_keys @ capital_keys)"
  by code_simp+

lemma char_upper_hyphen: "char_upper c = CHR ''-'' \<longleftrightarrow> c = CHR ''-''"
proof (cases "97 \<le> (of_char c :: nat) \<and> (of_char c :: nat) \<le> 122")
  case True
  then have "(of_char (char_upper c) :: nat) = (of_char c - 32) mod 256" by (simp add: char_upper_def Let_def)
  moreover have "(of_char c :: nat) - 32 < 256" using True by linarith
  ultimately have "(of_char (char_upper c) :: nat) = of_char c - 32" by simp
  moreover have "(of_char (CHR ''-'') :: nat) = 45" by simp
  ultimately have "char_upper c \<noteq> CHR ''-''" "c \<noteq> CHR ''-''" using True by force+
  then show ?thesis by blast
next
  case False
  then show ?thesis by (auto simp: char_upper_def Let_def)
qed

text \<open>A capital that is also a name or an alias names its own governorate.\<close>

lemma capitals_agree:
  "list_all (\<lambda>(c, n). (c \<in> set name_keys \<longrightarrow> c = n)
     \<and> (case map_of name_aliases c of None \<Rightarrow> True | Some a \<Rightarrow> lower a = n)) (zip capital_keys name_keys)"
  by code_simp

lemma in_table:
  assumes "g \<in> set egyptian_governorates"
  shows "map_of by_iso_code (gv_code g) = Some g" "map_of by_bosta_code (gv_bosta_code g) = Some g"
    "map_of by_name_en (lower (gv_name_en g)) = Some g" "map_of by_capital_en (lower (gv_capital_en g)) = Some g"
  using assms keys_distinct
  by (auto simp: by_iso_code_def by_bosta_code_def by_name_en_def by_capital_en_def comp_def intro!: map_of_is_SomeI)

lemma not_a_code:
  assumes "CHR ''-'' \<notin> set k" "length k \<noteq> 3"
  shows "map_of by_iso_code (upper k) = None" "map_of by_bosta_code (upper k) = None"
proof -
  have h: "CHR ''-'' \<notin> set (upper k)" "length (upper k) \<noteq> 3"
    using assms by (auto simp: upper_def) (metis char_upper_hyphen)
  have t: "\<forall>g\<in>set egyptian_governorates. CHR ''-'' \<in> set (gv_code g) \<and> length (gv_bosta_code g) = 3"
    using keys_shape(1) by (simp add: list_all_iff)
  have "upper k \<notin> gv_code ` set egyptian_governorates" "upper k \<notin> gv_bosta_code ` set egyptian_governorates"
    using h t by (metis imageE)+
  then show "map_of by_iso_code (upper k) = None" "map_of by_bosta_code (upper k) = None"
    by (simp_all add: by_iso_code_def by_bosta_code_def map_of_eq_None_iff image_image)
qed

text \<open>
  Addresses find their governorate. Every governorate is found by its ISO code, its Bosta code, its
  English name and its English capital, in any capitalisation and with spaces around.
\<close>

theorem governorate_spellings:
  assumes "g \<in> set egyptian_governorates"
    and "upper (strip t) = gv_code g \<or> upper (strip t) = gv_bosta_code g
      \<or> lower (strip t) = lower (gv_name_en g) \<or> lower (strip t) = lower (gv_capital_en g)"
  shows "resolve_governorate t = Some g"
proof -
  let ?k = "lower (strip t)"
  have u: "upper (strip t) = upper ?k" by (simp add: upper_lower)
  have k: "lower (gv_name_en g) \<in> set name_keys" "lower (gv_capital_en g) \<in> set capital_keys"
    using assms(1) by (auto simp: key_lists [symmetric])
  have sh: "CHR ''-'' \<notin> set x \<and> 3 < length x" if "x \<in> set name_keys \<union> set capital_keys" for x
    using keys_shape(2) that by (auto simp: list_all_iff)
  have ne: "gv_code g \<noteq> []" "gv_bosta_code g \<noteq> []" using keys_shape(1) assms(1) by (auto simp: list_all_iff)
  have "lower (gv_name_en g) \<noteq> []" "lower (gv_capital_en g) \<noteq> []" using sh k by fastforce+
  then have t: "t \<noteq> []" using assms(2) ne by (auto simp: strip_def upper_def lower_def)
  consider "upper (strip t) = gv_code g" | "upper (strip t) = gv_bosta_code g" "upper (strip t) \<noteq> gv_code g"
    | "?k = lower (gv_name_en g)" | "?k = lower (gv_capital_en g)" using assms(2) by blast
  then show ?thesis
  proof cases
    case 1
    then show ?thesis using t in_table(1) [OF assms(1)] by (simp add: resolve_governorate_def get_governorate_by_code_def)
  next
    case 2
    have "map_of by_iso_code (gv_bosta_code g) = None"
    proof -
      have "gv_bosta_code g \<notin> gv_code ` set egyptian_governorates"
        using keys_shape(1) assms(1) unfolding list_all_iff by (metis imageE)
      then show ?thesis by (simp add: by_iso_code_def map_of_eq_None_iff image_image)
    qed
    then show ?thesis using 2 t in_table(2) [OF assms(1)] by (simp add: resolve_governorate_def get_governorate_by_code_def)
  next
    case 3
    then have "map_of by_iso_code (upper (strip t)) = None" "map_of by_bosta_code (upper (strip t)) = None"
      unfolding u using not_a_code sh k(1) by (metis UnI1 less_irrefl_nat)+
    then show ?thesis using 3 t in_table(3) [OF assms(1)]
      by (simp add: resolve_governorate_def get_governorate_by_code_def get_governorate_by_name_def)
  next
    case 4
    then have c: "map_of by_iso_code (upper (strip t)) = None" "map_of by_bosta_code (upper (strip t)) = None"
      unfolding u using not_a_code sh k(2) by (metis UnI2 less_irrefl_nat)+
    have pair: "(lower (gv_capital_en g), lower (gv_name_en g)) \<in> set (zip capital_keys name_keys)"
      using assms(1) by (auto simp: key_lists [symmetric] zip_map_map zip_same_conv_map)
    have agree: "lower (gv_capital_en g) \<in> set name_keys \<Longrightarrow> lower (gv_capital_en g) = lower (gv_name_en g)"
      "map_of name_aliases (lower (gv_capital_en g)) = Some a \<Longrightarrow> lower a = lower (gv_name_en g)" for a
      using capitals_agree pair by (auto simp: list_all_iff)
    have n: "map_of by_name_en ?k = Some g" if "?k \<in> set name_keys"
      using agree(1) that 4 in_table(3) [OF assms(1)] by simp
    have n2: "map_of by_name_en ?k = None" if "?k \<notin> set name_keys"
      using that by (simp add: by_name_en_def map_of_eq_None_iff key_lists [symmetric] image_image)
    show ?thesis
    proof (cases "?k \<in> set name_keys")
      case True
      then show ?thesis using n c t
        by (simp add: resolve_governorate_def get_governorate_by_code_def get_governorate_by_name_def)
    next
      case False
      show ?thesis
      proof (cases "map_of name_aliases ?k")
        case None
        then show ?thesis using n2 [OF False] c t 4 in_table(4) [OF assms(1)]
          by (simp add: resolve_governorate_def get_governorate_by_code_def get_governorate_by_name_def)
      next
        case (Some a)
        then have "lower a = lower (gv_name_en g)" using agree(2) 4 by simp
        then show ?thesis using Some n2 [OF False] c t in_table(3) [OF assms(1)]
          by (simp add: resolve_governorate_def get_governorate_by_code_def get_governorate_by_name_def)
      qed
    qed
  qed
qed

theorem governorate_spellings_witness:
  "map_option gv_code (resolve_governorate '' tanta '') = Some ''EG-GH''"
proof -
  let ?g = "gov_row ''EG-GH'' ''GHR'' ''Gharbia'' Delta ''Tanta''"
  have "?g \<in> set egyptian_governorates" by (simp add: egyptian_governorates_def)
  moreover have "lower (strip '' tanta '') = lower (gv_capital_en ?g)" by code_simp
  ultimately have "resolve_governorate '' tanta '' = Some ?g" by (intro governorate_spellings) blast+
  then show ?thesis by (simp add: gov_row_def)
qed

end
