(* ===== verification/Shipping.thy ===== *)
theory Shipping
  imports Tables Geography "HOL-Library.List_Lexorder" "HOL-Library.Char_ord"
begin

text \<open>
  Shipping zones and rates: the entities \<open>src/core/entities/shipping_zone.py\<close> and \<open>shipping_rate.py\<close>, the
  repository \<open>infrastructure/repositories/shipping_zone_repository.py\<close>, the merchant routes
  \<open>api/v1/routes/stores/shipping.py\<close> and the resolver \<open>application/services/shipping_resolver.py\<close>. The tables hold
  the rows of one tenant, as the tenant filter and row-level security leave them; the advisory lock makes
  the writes take effect one after the other. A rate's configuration is kept parsed. Quotes of partner
  carriers and the COD Shield gate are arguments. Labels are ordered by code points.
\<close>

section \<open>Zones and rates\<close>

record shipping_zone =
  sz_id :: uuid
  sz_tenant_id :: uuid
  sz_store_id :: uuid
  sz_name :: string
  sz_name_ar :: "string option"
  sz_days_min :: int
  sz_days_max :: int
  sz_cod_enabled :: bool
  sz_cod_fee_cents :: int
  sz_is_active :: bool
  sz_sort_order :: int
  sz_governorate_codes :: "string list"

definition zone_ok :: "shipping_zone \<Rightarrow> bool" where
  "zone_ok z \<longleftrightarrow> 1 \<le> length (sz_name z) \<and> length (sz_name z) \<le> 100
     \<and> (case sz_name_ar z of None \<Rightarrow> True | Some n \<Rightarrow> length n \<le> 100)
     \<and> 0 \<le> sz_days_min z \<and> sz_days_min z \<le> 365 \<and> 0 \<le> sz_days_max z \<and> sz_days_max z \<le> 365
     \<and> sz_days_min z \<le> sz_days_max z \<and> 0 \<le> sz_cod_fee_cents z"

definition given_or :: "'a option \<Rightarrow> 'a \<Rightarrow> 'a" where
  "given_or v x = (case v of None \<Rightarrow> x | Some y \<Rightarrow> y)"

record weight_band =
  wb_max_weight_g :: "int option"
  wb_amount_cents :: int
  wb_per_extra_kg_cents :: "int option"

datatype rate_config =
    ConfigFlat int
  | ConfigFreeOver int int
  | ConfigWeightBand "weight_band list"
  | ConfigCarrierApi string string

datatype rate_type = RateFlat | RateFreeOver | RateWeightBand | RateCarrierApi

definition rate_type_of :: "rate_config \<Rightarrow> rate_type" where
  "rate_type_of c = (case c of ConfigFlat _ \<Rightarrow> RateFlat | ConfigFreeOver _ _ \<Rightarrow> RateFreeOver
     | ConfigWeightBand _ \<Rightarrow> RateWeightBand | ConfigCarrierApi _ _ \<Rightarrow> RateCarrierApi)"

definition nonneg_opt :: "int option \<Rightarrow> bool" where
  "nonneg_opt n \<longleftrightarrow> (case n of None \<Rightarrow> True | Some k \<Rightarrow> 0 \<le> k)"

definition weight_band_ok :: "weight_band \<Rightarrow> bool" where
  "weight_band_ok b \<longleftrightarrow> nonneg_opt (wb_max_weight_g b) \<and> 0 \<le> wb_amount_cents b \<and> nonneg_opt (wb_per_extra_kg_cents b)"

definition rate_config_ok :: "rate_config \<Rightarrow> bool" where
  "rate_config_ok c = (case c of
      ConfigFlat n \<Rightarrow> 0 \<le> n
    | ConfigFreeOver n t \<Rightarrow> 0 \<le> n \<and> 0 \<le> t
    | ConfigWeightBand bs \<Rightarrow> bs \<noteq> [] \<and> list_all weight_band_ok bs
    | ConfigCarrierApi carrier service \<Rightarrow> carrier \<noteq> [] \<and> service \<noteq> [])"

record shipping_rate =
  sr_id :: uuid
  sr_tenant_id :: uuid
  sr_zone_id :: uuid
  sr_config :: rate_config
  sr_label :: string
  sr_label_ar :: "string option"
  sr_is_active :: bool
  sr_sort_order :: int

definition rate_ok :: "shipping_rate \<Rightarrow> bool" where
  "rate_ok r \<longleftrightarrow> rate_config_ok (sr_config r) \<and> 1 \<le> length (sr_label r) \<and> length (sr_label r) \<le> 100"

record shipping_db =
  sd_zones :: "shipping_zone list"
  sd_rates :: "shipping_rate list"

section \<open>The repository\<close>

definition get_zone :: "uuid \<Rightarrow> shipping_db \<Rightarrow> shipping_zone option" where
  "get_zone zid db = lookup_by sz_id zid (sd_zones db)"

definition get_rate :: "uuid \<Rightarrow> shipping_db \<Rightarrow> shipping_rate option" where
  "get_rate rid db = lookup_by sr_id rid (sd_rates db)"

definition list_rates_by_zone :: "uuid \<Rightarrow> bool \<Rightarrow> shipping_db \<Rightarrow> shipping_rate list" where
  "list_rates_by_zone zid include_inactive db =
     sort_key sr_sort_order (sort_key sr_label
       (filter (\<lambda>r. sr_zone_id r = zid \<and> (include_inactive \<or> sr_is_active r)) (sd_rates db)))"

definition list_zones_by_store :: "uuid \<Rightarrow> bool \<Rightarrow> shipping_db \<Rightarrow> shipping_zone list" where
  "list_zones_by_store sid include_inactive db =
     sort_key sz_sort_order (sort_key sz_name
       (filter (\<lambda>z. sz_store_id z = sid \<and> (include_inactive \<or> sz_is_active z)) (sd_zones db)))"

definition covers :: "uuid \<Rightarrow> string \<Rightarrow> shipping_zone \<Rightarrow> bool" where
  "covers sid code z \<longleftrightarrow> sz_store_id z = sid \<and> sz_is_active z \<and> code \<in> set (sz_governorate_codes z)"

definition get_zone_for_governorate :: "uuid \<Rightarrow> string \<Rightarrow> shipping_db \<Rightarrow> shipping_zone option" where
  "get_zone_for_governorate sid code db = List.find (covers sid code) (sd_zones db)"

definition get_zones_with_rates_for_store :: "uuid \<Rightarrow> bool \<Rightarrow> shipping_db \<Rightarrow> (shipping_zone \<times> shipping_rate list) list" where
  "get_zones_with_rates_for_store sid include_inactive db =
     map (\<lambda>z. (z, list_rates_by_zone (sz_id z) include_inactive db)) (list_zones_by_store sid include_inactive db)"

definition has_active_zones :: "uuid \<Rightarrow> shipping_db \<Rightarrow> bool" where
  "has_active_zones sid db \<longleftrightarrow> list_ex (\<lambda>z. sz_store_id z = sid \<and> sz_is_active z) (sd_zones db)"

definition governorate_conflicts :: "uuid \<Rightarrow> string list \<Rightarrow> uuid option \<Rightarrow> shipping_db \<Rightarrow> string list" where
  "governorate_conflicts sid codes exclude db =
     concat (map (\<lambda>z. filter (\<lambda>c. c \<in> set codes) (sz_governorate_codes z))
       (filter (\<lambda>z. sz_store_id z = sid \<and> sz_is_active z \<and> exclude \<noteq> Some (sz_id z)) (sd_zones db)))"

definition repo_create_zone :: "shipping_zone \<Rightarrow> string list \<Rightarrow> shipping_db \<Rightarrow> shipping_db result" where
  "repo_create_zone z codes db =
     (if governorate_conflicts (sz_store_id z) codes None db \<noteq> []
      then Inl (ValueError ''Governorates already covered by another active zone'')
      else if lookup_by sz_id (sz_id z) (sd_zones db) \<noteq> None \<or> \<not> distinct codes
      then Inl (IntegrityError ''shipping_zones'')
      else Inr (db\<lparr>sd_zones := sd_zones db @ [z\<lparr>sz_governorate_codes := codes\<rparr>]\<rparr>))"

text \<open>
  The write of a zone. Reading the row back validates the entity, and a row that fails ends the request.
\<close>

definition repo_update_zone :: "shipping_zone \<Rightarrow> string list option \<Rightarrow> shipping_db \<Rightarrow> shipping_db result" where
  "repo_update_zone z codes db =
     (case lookup_by sz_id (sz_id z) (sd_zones db) of
        None \<Rightarrow> Inl (ValueError ''Zone not found'')
      | Some m \<Rightarrow>
          (let z1 = z\<lparr>sz_tenant_id := sz_tenant_id m, sz_store_id := sz_store_id m,
                     sz_governorate_codes := given_or codes (sz_governorate_codes m)\<rparr>
           in if codes \<noteq> None \<and> sz_is_active z
                \<and> governorate_conflicts (sz_store_id z) (given_or codes []) (Some (sz_id z)) db \<noteq> []
              then Inl (ValueError ''Governorates already covered by another active zone'')
              else if \<not> distinct (given_or codes []) then Inl (IntegrityError ''pk_shipping_zone_gov'')
              else if \<not> zone_ok z1 then Inl (ValidationError ''ShippingZone'')
              else Inr (db\<lparr>sd_zones := replace_by sz_id z1 (sd_zones db)\<rparr>)))"

definition repo_delete_zone :: "uuid \<Rightarrow> shipping_db \<Rightarrow> bool \<times> shipping_db" where
  "repo_delete_zone zid db = (case lookup_by sz_id zid (sd_zones db) of
      None \<Rightarrow> (False, db)
    | Some m \<Rightarrow> (True, db\<lparr>sd_zones := replace_by sz_id (m\<lparr>sz_is_active := False\<rparr>) (sd_zones db)\<rparr>))"

definition repo_create_rate :: "shipping_rate \<Rightarrow> shipping_db \<Rightarrow> shipping_db result" where
  "repo_create_rate r db =
     (if lookup_by sr_id (sr_id r) (sd_rates db) \<noteq> None then Inl (IntegrityError ''shipping_rates_pkey'')
      else Inr (db\<lparr>sd_rates := sd_rates db @ [r]\<rparr>))"

definition repo_update_rate :: "shipping_rate \<Rightarrow> shipping_db \<Rightarrow> shipping_db result" where
  "repo_update_rate r db = (case lookup_by sr_id (sr_id r) (sd_rates db) of
      None \<Rightarrow> Inl (ValueError ''Rate not found'')
    | Some m \<Rightarrow> Inr (db\<lparr>sd_rates := replace_by sr_id
        (r\<lparr>sr_tenant_id := sr_tenant_id m, sr_zone_id := sr_zone_id m\<rparr>) (sd_rates db)\<rparr>))"

definition repo_delete_rate :: "uuid \<Rightarrow> shipping_db \<Rightarrow> bool \<times> shipping_db" where
  "repo_delete_rate rid db = (case lookup_by sr_id rid (sd_rates db) of
      None \<Rightarrow> (False, db)
    | Some m \<Rightarrow> (True, db\<lparr>sd_rates := replace_by sr_id (m\<lparr>sr_is_active := False\<rparr>) (sd_rates db)\<rparr>))"

section \<open>The merchant's routes\<close>

definition remdups_first :: "'a list \<Rightarrow> 'a list" where
  "remdups_first xs = rev (remdups (rev xs))"

definition validate_governorate_codes :: "string list \<Rightarrow> string list result" where
  "validate_governorate_codes codes =
     (if list_ex (\<lambda>c. get_governorate_by_code c = None) codes then Inl (HTTPException ''Unknown governorate codes'')
      else Inr (remdups_first (map (\<lambda>c. gv_code (the (get_governorate_by_code c))) codes)))"

record zone_input =
  zi_name :: string
  zi_name_ar :: "string option"
  zi_governorate_codes :: "string list"
  zi_days_min :: int
  zi_days_max :: int
  zi_cod_enabled :: bool
  zi_cod_fee_cents :: int
  zi_is_active :: bool
  zi_sort_order :: int

definition zone_of_input :: "uuid \<Rightarrow> uuid \<Rightarrow> uuid \<Rightarrow> zone_input \<Rightarrow> string list \<Rightarrow> shipping_zone" where
  "zone_of_input zid tid sid i codes = \<lparr>sz_id = zid, sz_tenant_id = tid, sz_store_id = sid, sz_name = zi_name i,
     sz_name_ar = zi_name_ar i, sz_days_min = zi_days_min i, sz_days_max = zi_days_max i,
     sz_cod_enabled = zi_cod_enabled i, sz_cod_fee_cents = zi_cod_fee_cents i, sz_is_active = zi_is_active i,
     sz_sort_order = zi_sort_order i, sz_governorate_codes = codes\<rparr>"

text \<open>A repository's \<open>ValueError\<close> becomes a 409, and so does a failed validation, which is one.\<close>

definition as_conflict :: "'a result \<Rightarrow> 'a result" where
  "as_conflict r = (case r of Inl (ValueError m) \<Rightarrow> Inl (HTTPException m)
     | Inl (ValidationError m) \<Rightarrow> Inl (HTTPException m) | _ \<Rightarrow> r)"

definition create_zone :: "uuid \<Rightarrow> uuid \<Rightarrow> uuid \<Rightarrow> zone_input \<Rightarrow> shipping_db \<Rightarrow> shipping_db result" where
  "create_zone zid tid sid i db =
     (if zi_governorate_codes i = [] then Inl (ValidationError ''governorate_codes'')
      else rbind (validate_governorate_codes (zi_governorate_codes i)) (\<lambda>codes.
        let z = zone_of_input zid tid sid i codes in
        if \<not> zone_ok z then Inl (ValidationError ''ShippingZone'')
        else as_conflict (repo_create_zone z codes db)))"

definition zone_of_store :: "uuid \<Rightarrow> uuid \<Rightarrow> shipping_db \<Rightarrow> shipping_zone result" where
  "zone_of_store zid sid db = (case get_zone zid db of
      None \<Rightarrow> Inl (HTTPException ''Zone not found'')
    | Some z \<Rightarrow> if sz_store_id z \<noteq> sid then Inl (HTTPException ''Zone not found'') else Inr z)"

record zone_patch =
  zp_name :: "string option"
  zp_name_ar :: "string option"
  zp_governorate_codes :: "string list option"
  zp_days_min :: "int option"
  zp_days_max :: "int option"
  zp_cod_enabled :: "bool option"
  zp_cod_fee_cents :: "int option"
  zp_is_active :: "bool option"
  zp_sort_order :: "int option"

definition patch_zone :: "zone_patch \<Rightarrow> shipping_zone \<Rightarrow> shipping_zone" where
  "patch_zone p z = z\<lparr>sz_name := given_or (zp_name p) (sz_name z),
     sz_name_ar := (case zp_name_ar p of None \<Rightarrow> sz_name_ar z | Some n \<Rightarrow> Some n),
     sz_days_min := given_or (zp_days_min p) (sz_days_min z), sz_days_max := given_or (zp_days_max p) (sz_days_max z),
     sz_cod_enabled := given_or (zp_cod_enabled p) (sz_cod_enabled z),
     sz_cod_fee_cents := given_or (zp_cod_fee_cents p) (sz_cod_fee_cents z),
     sz_is_active := given_or (zp_is_active p) (sz_is_active z), sz_sort_order := given_or (zp_sort_order p) (sz_sort_order z)\<rparr>"

text \<open>
  The bounds of the request. One check runs across fields: the maximum is compared with the minimum when
  it is assigned, not when the minimum is.
\<close>

definition in_days :: "int option \<Rightarrow> bool" where
  "in_days v \<longleftrightarrow> (case v of None \<Rightarrow> True | Some n \<Rightarrow> 0 \<le> n \<and> n \<le> 365)"

definition zone_patch_ok :: "zone_patch \<Rightarrow> bool" where
  "zone_patch_ok p \<longleftrightarrow> (case zp_name p of None \<Rightarrow> True | Some n \<Rightarrow> 1 \<le> length n \<and> length n \<le> 100)
     \<and> (case zp_name_ar p of None \<Rightarrow> True | Some n \<Rightarrow> length n \<le> 100) \<and> in_days (zp_days_min p) \<and> in_days (zp_days_max p)
     \<and> nonneg_opt (zp_cod_fee_cents p)"

definition update_zone :: "uuid \<Rightarrow> zone_patch \<Rightarrow> uuid \<Rightarrow> shipping_db \<Rightarrow> shipping_db result" where
  "update_zone zid p sid db =
     (if \<not> zone_patch_ok p then Inl (ValidationError ''UpdateZoneRequest'')
      else rbind (zone_of_store zid sid db) (\<lambda>z.
        if zp_days_max p \<noteq> None \<and> sz_days_max (patch_zone p z) < sz_days_min (patch_zone p z)
        then Inl (ValidationError ''estimated_days_max'')
        else rbind (case zp_governorate_codes p of
             None \<Rightarrow> Inr None | Some cs \<Rightarrow> map_sum id Some (validate_governorate_codes cs))
           (\<lambda>codes. as_conflict (repo_update_zone (patch_zone p z) codes db))))"

definition delete_zone :: "uuid \<Rightarrow> uuid \<Rightarrow> shipping_db \<Rightarrow> shipping_db result" where
  "delete_zone zid sid db = rbind (zone_of_store zid sid db) (\<lambda>_. Inr (snd (repo_delete_zone zid db)))"

text \<open>The COD settings page changes the COD switch and fee of zones (\<open>routes/stores/cod.py\<close>).\<close>

definition change_cod_fee :: "uuid \<Rightarrow> uuid \<times> bool option \<times> int option \<Rightarrow> shipping_db \<Rightarrow> shipping_db result" where
  "change_cod_fee sid c db = (case c of (zid, enabled, fee) \<Rightarrow>
     rbind (zone_of_store zid sid db) (\<lambda>z.
       repo_update_zone (z\<lparr>sz_cod_enabled := given_or enabled (sz_cod_enabled z),
         sz_cod_fee_cents := given_or fee (sz_cod_fee_cents z)\<rparr>) None db))"

definition change_cod_fees :: "uuid \<Rightarrow> (uuid \<times> bool option \<times> int option) list \<Rightarrow> shipping_db \<Rightarrow> shipping_db result" where
  "change_cod_fees sid cs db =
     (if \<not> list_all (\<lambda>(_, _, fee). nonneg_opt fee) cs then Inl (ValidationError ''cod_fee_cents'')
      else foldM (change_cod_fee sid) cs db)"

record rate_input =
  ra_label :: string
  ra_label_ar :: "string option"
  ra_config :: rate_config
  ra_is_active :: bool
  ra_sort_order :: int

definition create_rate :: "uuid \<Rightarrow> uuid \<Rightarrow> uuid \<Rightarrow> rate_input \<Rightarrow> uuid \<Rightarrow> shipping_db \<Rightarrow> shipping_db result" where
  "create_rate rid tid zid i sid db =
     (let r = \<lparr>sr_id = rid, sr_tenant_id = tid, sr_zone_id = zid, sr_config = ra_config i, sr_label = ra_label i,
              sr_label_ar = ra_label_ar i, sr_is_active = ra_is_active i, sr_sort_order = ra_sort_order i\<rparr>
      in if \<not> rate_ok r then Inl (ValidationError ''CreateRateRequest'')
         else rbind (zone_of_store zid sid db) (\<lambda>_. repo_create_rate r db))"

definition rate_of_zone :: "uuid \<Rightarrow> uuid \<Rightarrow> uuid \<Rightarrow> shipping_db \<Rightarrow> shipping_rate result" where
  "rate_of_zone rid zid tid db = (case get_rate rid db of
      None \<Rightarrow> Inl (HTTPException ''Rate not found'')
    | Some r \<Rightarrow> if sr_tenant_id r \<noteq> tid \<or> sr_zone_id r \<noteq> zid then Inl (HTTPException ''Rate not found'') else Inr r)"

record rate_patch =
  rp_label :: "string option"
  rp_label_ar :: "string option"
  rp_config :: "rate_config option"
  rp_is_active :: "bool option"
  rp_sort_order :: "int option"

definition patch_rate :: "rate_patch \<Rightarrow> shipping_rate \<Rightarrow> shipping_rate" where
  "patch_rate p r = r\<lparr>sr_label := given_or (rp_label p) (sr_label r),
     sr_label_ar := (case rp_label_ar p of None \<Rightarrow> sr_label_ar r | Some n \<Rightarrow> Some n),
     sr_is_active := given_or (rp_is_active p) (sr_is_active r), sr_sort_order := given_or (rp_sort_order p) (sr_sort_order r),
     sr_config := given_or (rp_config p) (sr_config r)\<rparr>"

definition rate_patch_ok :: "rate_patch \<Rightarrow> bool" where
  "rate_patch_ok p \<longleftrightarrow> (case rp_label p of None \<Rightarrow> True | Some n \<Rightarrow> 1 \<le> length n \<and> length n \<le> 100)
     \<and> (case rp_config p of None \<Rightarrow> True | Some c \<Rightarrow> rate_config_ok c)"

definition update_rate :: "uuid \<Rightarrow> uuid \<Rightarrow> rate_patch \<Rightarrow> uuid \<Rightarrow> shipping_db \<Rightarrow> shipping_db result" where
  "update_rate rid zid p tid db =
     (if \<not> rate_patch_ok p then Inl (ValidationError ''UpdateRateRequest'')
      else rbind (rate_of_zone rid zid tid db) (\<lambda>r. repo_update_rate (patch_rate p r) db))"

definition delete_rate :: "uuid \<Rightarrow> uuid \<Rightarrow> uuid \<Rightarrow> shipping_db \<Rightarrow> shipping_db result" where
  "delete_rate rid zid tid db = rbind (rate_of_zone rid zid tid db) (\<lambda>_. Inr (snd (repo_delete_rate rid db)))"

text \<open>The preset of four zones. Text that is not ASCII is given by its UTF-8 bytes.\<close>

definition utf8 :: "nat list \<Rightarrow> string" where
  "utf8 bs = map char_of bs"

definition preset_zones :: "(string \<times> string \<times> logistics_zone list \<times> int \<times> int \<times> int \<times> int) list" where
  "preset_zones =
     [(''Greater Cairo'', utf8 [216, 167, 217, 132, 217, 130, 216, 167, 217, 135, 216, 177, 216, 169, 32, 216, 167, 217,
         132, 217, 131, 216, 168, 216, 177, 217, 137], [GreaterCairo], 5000, 1, 2, 1),
      (''Alexandria & Delta'', utf8 [216, 167, 217, 132, 216, 165, 216, 179, 217, 131, 217, 134, 216, 175, 216, 177, 217,
         138, 216, 169, 32, 217, 136, 216, 167, 217, 132, 216, 175, 217, 132, 216, 170, 216, 167], [Delta], 6000, 2, 3, 2),
      (''Canal, Sinai & Upper Egypt'', utf8 [216, 167, 217, 132, 217, 130, 217, 134, 216, 167, 216, 169, 32, 217, 136, 216,
         179, 217, 138, 217, 134, 216, 167, 216, 161, 32, 217, 136, 216, 167, 217, 132, 216, 181, 216, 185, 217, 138, 216,
         175], [CanalSinai, UpperEgypt], 7000, 3, 5, 3),
      (''Remote (Red Sea '' @ utf8 [194, 183] @ '' Matrouh '' @ utf8 [194, 183] @ '' New Valley)'', utf8 [216, 167, 217, 132,
         217, 133, 217, 134, 216, 167, 216, 183, 217, 130, 32, 216, 167, 217, 132, 217, 134, 216, 167, 216, 166, 217, 138,
         216, 169], [Remote], 9000, 4, 7, 4)]"

definition preset_codes :: "logistics_zone list \<Rightarrow> string list" where
  "preset_codes zs = map gv_code (filter (\<lambda>g. gv_zone g \<in> set zs) egyptian_governorates)"

definition create_preset_zone ::
    "uuid \<Rightarrow> uuid \<Rightarrow> (uuid \<times> uuid) \<times> string \<times> string \<times> logistics_zone list \<times> int \<times> int \<times> int \<times> int
     \<Rightarrow> shipping_db \<Rightarrow> shipping_db result" where
  "create_preset_zone tid sid p db = (case p of ((zid, rid), name, name_ar, zs, cents, eta_min, eta_max, srt) \<Rightarrow>
     let codes = preset_codes zs;
         z = \<lparr>sz_id = zid, sz_tenant_id = tid, sz_store_id = sid, sz_name = name, sz_name_ar = Some name_ar,
              sz_days_min = eta_min, sz_days_max = eta_max, sz_cod_enabled = True, sz_cod_fee_cents = 0,
              sz_is_active = True, sz_sort_order = srt, sz_governorate_codes = codes\<rparr>;
         r = \<lparr>sr_id = rid, sr_tenant_id = tid, sr_zone_id = zid, sr_config = ConfigFlat cents, sr_label = ''Standard'',
              sr_label_ar = Some (utf8 [217, 130, 217, 138, 216, 167, 216, 179, 217, 138]), sr_is_active = True,
              sr_sort_order = 1\<rparr>
     in rbind (repo_create_zone z codes db) (repo_create_rate r))"

definition apply_preset :: "(uuid \<times> uuid) list \<Rightarrow> int list option \<Rightarrow> uuid \<Rightarrow> uuid \<Rightarrow> shipping_db \<Rightarrow> shipping_db result" where
  "apply_preset ids rates_cents tid sid db =
     (if (case rates_cents of None \<Rightarrow> False | Some rs \<Rightarrow> length rs \<noteq> 4 \<or> \<not> list_all (\<lambda>n. 0 \<le> n \<and> n \<le> 2000000) rs)
      then Inl (ValidationError ''PresetRequest'')
      else if list_zones_by_store sid False db \<noteq> []
      then Inl (HTTPException ''Cannot apply preset: store already has active shipping zones'')
      else (let zones = (case rates_cents of
                None \<Rightarrow> preset_zones
              | Some rs \<Rightarrow> map2 (\<lambda>(en, ar, zs, _, rest) n. (en, ar, zs, n, rest)) preset_zones rs)
            in foldM (create_preset_zone tid sid) (zip ids zones) db))"

datatype shipping_call =
    CreateZone uuid uuid uuid zone_input
  | UpdateZone uuid zone_patch uuid
  | DeleteZone uuid uuid
  | ChangeCodFees uuid "(uuid \<times> bool option \<times> int option) list"
  | CreateRate uuid uuid uuid rate_input uuid
  | UpdateRate uuid uuid rate_patch uuid
  | DeleteRate uuid uuid uuid
  | ApplyPreset "(uuid \<times> uuid) list" "int list option" uuid uuid

fun shipping_act :: "shipping_call \<Rightarrow> shipping_db \<Rightarrow> shipping_db result" where
  "shipping_act (CreateZone zid tid sid i) db = create_zone zid tid sid i db"
| "shipping_act (UpdateZone zid p sid) db = update_zone zid p sid db"
| "shipping_act (DeleteZone zid sid) db = delete_zone zid sid db"
| "shipping_act (ChangeCodFees sid cs) db = change_cod_fees sid cs db"
| "shipping_act (CreateRate rid tid zid i sid) db = create_rate rid tid zid i sid db"
| "shipping_act (UpdateRate rid zid p tid) db = update_rate rid zid p tid db"
| "shipping_act (DeleteRate rid zid tid) db = delete_rate rid zid tid db"
| "shipping_act (ApplyPreset ids rs tid sid) db = apply_preset ids rs tid sid db"

section \<open>The resolver\<close>

record rate_quote =
  rq_amount_cents :: int
  rq_currency :: string
  rq_days_min :: int
  rq_days_max :: int
  rq_cod_supported :: bool

text \<open>
  What a resolution is asked for, and what the resolver relies on: the store's currency, the COD Shield
  gate of a store, and the quotes of the partner carriers for a delivery by carrier and service.
\<close>

record delivery =
  dl_store_id :: uuid
  dl_governorate :: string
  dl_subtotal_cents :: int
  dl_weight_g :: int
  dl_cod :: bool

record resolver =
  rv_currency :: string
  rv_cod_shield :: "uuid \<Rightarrow> bool"
  rv_quotes :: "delivery \<Rightarrow> string \<Rightarrow> string \<Rightarrow> rate_quote option"

record resolved_option =
  ro_rate_id :: uuid
  ro_zone_id :: uuid
  ro_label :: string
  ro_label_ar :: "string option"
  ro_amount_cents :: int
  ro_currency :: string
  ro_days_min :: int
  ro_days_max :: int
  ro_cod_supported :: bool
  ro_rate_type :: rate_type

record free_shipping_progress =
  fp_current_cents :: int
  fp_threshold_cents :: int

definition remaining_cents :: "free_shipping_progress \<Rightarrow> int" where
  "remaining_cents p = max 0 (fp_threshold_cents p - fp_current_cents p)"

definition fp_qualified :: "free_shipping_progress \<Rightarrow> bool" where
  "fp_qualified p \<longleftrightarrow> fp_threshold_cents p \<le> fp_current_cents p"

record resolver_output =
  out_options :: "resolved_option list"
  out_progress :: "free_shipping_progress option"
  out_unavailable_reason :: "string option"

definition DEFAULT_SHIPPING_RATE_ID :: uuid where
  "DEFAULT_SHIPPING_RATE_ID = 0x5401"

definition default_ships_everywhere_option :: "resolver \<Rightarrow> resolved_option" where
  "default_ships_everywhere_option R = \<lparr>ro_rate_id = DEFAULT_SHIPPING_RATE_ID, ro_zone_id = 0x5402,
     ro_label = ''Standard Shipping'', ro_label_ar = Some (utf8 [216, 167, 217, 132, 216, 180, 216, 173, 217, 134, 32,
       216, 167, 217, 132, 216, 185, 216, 167, 216, 175, 217, 138]),
     ro_amount_cents = 0, ro_currency = rv_currency R, ro_days_min = 2, ro_days_max = 5, ro_cod_supported = True,
     ro_rate_type = RateFlat\<rparr>"

definition is_app_carrier :: "string \<Rightarrow> bool" where
  "is_app_carrier slug \<longleftrightarrow> take 4 slug = ''app:''"

definition live_quote :: "resolver \<Rightarrow> delivery \<Rightarrow> rate_config \<Rightarrow> rate_quote option" where
  "live_quote R d c = (case c of
      ConfigCarrierApi carrier service \<Rightarrow>
        if is_app_carrier carrier
        then (case rv_quotes R d carrier service of
            Some q \<Rightarrow> if rq_currency q = rv_currency R then Some q else None
          | None \<Rightarrow> None)
        else None
    | _ \<Rightarrow> None)"

definition sorted_bands :: "weight_band list \<Rightarrow> weight_band list" where
  "sorted_bands bs = sort_key (\<lambda>b. wb_max_weight_g b = None) (sort_key (\<lambda>b. given_or (wb_max_weight_g b) 0) bs)"

definition open_band_amount :: "int \<Rightarrow> int \<Rightarrow> weight_band \<Rightarrow> int" where
  "open_band_amount prev w b = wb_amount_cents b
     + (case wb_per_extra_kg_cents b of None \<Rightarrow> 0 | Some k \<Rightarrow> (max 0 (w - prev) + 999) div 1000 * k)"

fun first_band :: "int \<Rightarrow> int \<Rightarrow> weight_band list \<Rightarrow> int option" where
  "first_band prev w [] = None"
| "first_band prev w (b # bs) = (case wb_max_weight_g b of
      None \<Rightarrow> Some (open_band_amount prev w b)
    | Some m \<Rightarrow> if w \<le> m then Some (wb_amount_cents b) else first_band m w bs)"

definition evaluate_weight_band :: "weight_band list \<Rightarrow> int \<Rightarrow> int" where
  "evaluate_weight_band bs w = given_or (first_band 0 w (sorted_bands bs)) (wb_amount_cents (last (sorted_bands bs)))"

text \<open>The price, the days and the COD support of a rate before the COD fee.\<close>

definition base_offer :: "shipping_rate \<Rightarrow> shipping_zone \<Rightarrow> delivery \<Rightarrow> rate_quote option \<Rightarrow> (int \<times> int \<times> int \<times> bool) option" where
  "base_offer r z d quote = (case sr_config r of
      ConfigFlat n \<Rightarrow> Some (n, sz_days_min z, sz_days_max z, sz_cod_enabled z)
    | ConfigFreeOver n t \<Rightarrow> Some (if t \<le> dl_subtotal_cents d then 0 else n, sz_days_min z, sz_days_max z, sz_cod_enabled z)
    | ConfigWeightBand bs \<Rightarrow> Some (evaluate_weight_band bs (dl_weight_g d), sz_days_min z, sz_days_max z, sz_cod_enabled z)
    | ConfigCarrierApi _ _ \<Rightarrow> (case quote of
          None \<Rightarrow> None
        | Some q \<Rightarrow> if dl_cod d \<and> \<not> rq_cod_supported q then None
            else Some (rq_amount_cents q, rq_days_min q, max (rq_days_min q) (rq_days_max q),
                   sz_cod_enabled z \<and> rq_cod_supported q)))"

definition cod_surcharge :: "resolver \<Rightarrow> shipping_zone \<Rightarrow> delivery \<Rightarrow> int" where
  "cod_surcharge R z d = (if dl_cod d \<and> sz_cod_enabled z \<and> 0 < sz_cod_fee_cents z \<and> rv_cod_shield R (dl_store_id d)
     then sz_cod_fee_cents z else 0)"

definition evaluate_rate :: "resolver \<Rightarrow> shipping_rate \<Rightarrow> shipping_zone \<Rightarrow> delivery \<Rightarrow> resolved_option option" where
  "evaluate_rate R r z d = (case base_offer r z d (live_quote R d (sr_config r)) of
      None \<Rightarrow> None
    | Some (cents, dmin, dmax, cod) \<Rightarrow> Some \<lparr>ro_rate_id = sr_id r, ro_zone_id = sz_id z, ro_label = sr_label r,
        ro_label_ar = sr_label_ar r, ro_amount_cents = cents + cod_surcharge R z d, ro_currency = rv_currency R,
        ro_days_min = dmin, ro_days_max = dmax, ro_cod_supported = cod, ro_rate_type = rate_type_of (sr_config r)\<rparr>)"

definition free_over_threshold :: "shipping_rate \<Rightarrow> int option" where
  "free_over_threshold r = (case sr_config r of ConfigFreeOver _ t \<Rightarrow> Some t | _ \<Rightarrow> None)"

definition lowest :: "int list \<Rightarrow> int option" where
  "lowest xs = (if xs = [] then None else Some (Min (set xs)))"

definition resolve_options :: "resolver \<Rightarrow> bool \<Rightarrow> delivery \<Rightarrow> shipping_db \<Rightarrow> resolver_output" where
  "resolve_options R restrict_to_zones d db =
     (let zone = get_zone_for_governorate (dl_store_id d) (dl_governorate d) db;
          rates = (case zone of None \<Rightarrow> [] | Some z \<Rightarrow> list_rates_by_zone (sz_id z) False db);
          blocked = dl_cod d \<and> (case zone of None \<Rightarrow> False | Some z \<Rightarrow> \<not> sz_cod_enabled z);
          offers = (case zone of None \<Rightarrow> [] | Some z \<Rightarrow>
             if blocked then [] else List.map_filter (\<lambda>r. map_option (Pair r) (evaluate_rate R r z d)) rates);
          configured = map snd offers;
          priced_by_app = list_ex (\<lambda>r. rate_type_of (sr_config r) = RateCarrierApi) rates;
          options = (if configured = [] \<and> \<not> restrict_to_zones \<and> \<not> blocked \<and> \<not> priced_by_app
             then [default_ships_everywhere_option R] else configured)
      in \<lparr>out_options = options,
          out_progress = map_option (\<lambda>t. \<lparr>fp_current_cents = max 0 (dl_subtotal_cents d), fp_threshold_cents = t\<rparr>)
            (lowest (List.map_filter free_over_threshold (map fst offers))),
          out_unavailable_reason = (if options \<noteq> [] then None
            else Some (if blocked then ''cod_unavailable'' else ''not_covered''))\<rparr>)"

definition resolve_one_rate :: "resolver \<Rightarrow> uuid \<Rightarrow> delivery \<Rightarrow> shipping_db \<Rightarrow> resolved_option option" where
  "resolve_one_rate R rid d db = (case get_rate rid db of
      None \<Rightarrow> None
    | Some r \<Rightarrow> if \<not> sr_is_active r then None
        else (case get_zone (sr_zone_id r) db of
            None \<Rightarrow> None
          | Some z \<Rightarrow> if \<not> sz_is_active z then None
              else if dl_governorate d \<notin> set (sz_governorate_codes z) then None
              else if dl_cod d \<and> \<not> sz_cod_enabled z then None
              else evaluate_rate R r z d))"

text \<open>The subtotal from which every destination ships free; a zone no shopper can reach is skipped.\<close>

fun zone_thresholds :: "(shipping_zone \<times> shipping_rate list) list \<Rightarrow> int list option" where
  "zone_thresholds [] = Some []"
| "zone_thresholds ((z, rs) # zs) =
     (if rs = [] \<or> sz_governorate_codes z = [] then zone_thresholds zs
      else (case lowest (List.map_filter free_over_threshold rs) of
          None \<Rightarrow> None
        | Some t \<Rightarrow> map_option (Cons t) (zone_thresholds zs)))"

definition free_shipping_threshold_cents :: "uuid \<Rightarrow> shipping_db \<Rightarrow> int option" where
  "free_shipping_threshold_cents sid db = (case zone_thresholds (get_zones_with_rates_for_store sid False db) of
      None \<Rightarrow> None | Some ts \<Rightarrow> if ts = [] then None else Some (Max (set ts)))"

end
