(* ===== verification/Shipping_Offers.thy ===== *)
theory Shipping_Offers
  imports Shipping
begin

text \<open>
  What the shipping model guarantees: a governorate has one zone, checkout resolves what was offered, the
  free-shipping threshold holds at every destination, and a weight is priced by its band.
\<close>

section \<open>One zone for a governorate\<close>

text \<open>
  What the resolver's lookup relies on: no governorate is in two active zones of one store, and the ids of
  zones and of rates are keys.
\<close>

definition zones_disjoint :: "shipping_zone list \<Rightarrow> bool" where
  "zones_disjoint zs \<longleftrightarrow> distinct (map sz_id zs)
     \<and> (\<forall>z\<in>set zs. \<forall>z'\<in>set zs. sz_is_active z \<and> sz_is_active z' \<and> sz_store_id z = sz_store_id z' \<and> sz_id z \<noteq> sz_id z'
          \<longrightarrow> set (sz_governorate_codes z) \<inter> set (sz_governorate_codes z') = {})"

definition shipping_ok :: "shipping_db \<Rightarrow> bool" where
  "shipping_ok db \<longleftrightarrow> zones_disjoint (sd_zones db) \<and> distinct (map sr_id (sd_rates db))"

definition room_for :: "shipping_zone \<Rightarrow> shipping_zone list \<Rightarrow> bool" where
  "room_for z zs \<longleftrightarrow> (sz_is_active z \<longrightarrow> (\<forall>z'\<in>set zs. sz_is_active z' \<and> sz_store_id z = sz_store_id z' \<and> sz_id z \<noteq> sz_id z'
     \<longrightarrow> set (sz_governorate_codes z) \<inter> set (sz_governorate_codes z') = {}))"

lemma zones_disjoint_iff:
  "zones_disjoint zs \<longleftrightarrow> distinct (map sz_id zs) \<and> (\<forall>z\<in>set zs. room_for z zs)"
  by (auto simp: zones_disjoint_def room_for_def)

lemma room_for_sym: "room_for z zs \<Longrightarrow> x \<in> set zs \<Longrightarrow> room_for x [z]"
  by (auto simp: room_for_def)

lemma room_for_append: "room_for z (xs @ ys) \<longleftrightarrow> room_for z xs \<and> room_for z ys"
  by (auto simp: room_for_def)

lemma room_for_self: "room_for z [z]"
  by (simp add: room_for_def)

lemma zones_disjoint_snoc:
  assumes "zones_disjoint zs" "room_for z zs" "sz_id z \<notin> sz_id ` set zs"
  shows "zones_disjoint (zs @ [z])"
  using assms by (auto simp: zones_disjoint_iff room_for_append room_for_self intro: room_for_sym)

lemma room_for_subset: "room_for z zs \<Longrightarrow> set xs \<subseteq> set zs \<Longrightarrow> room_for z xs"
  by (auto simp: room_for_def)

lemma room_for_replace:
  assumes "room_for x zs" "room_for x [z]"
  shows "room_for x (replace_by sz_id z zs)"
  by (rule room_for_subset [of _ "zs @ [z]"])
    (use assms in \<open>auto simp: room_for_append replace_by_def\<close>)

lemma zones_disjoint_replace:
  assumes "zones_disjoint zs" "room_for z zs"
  shows "zones_disjoint (replace_by sz_id z zs)"
proof -
  have "room_for x (replace_by sz_id z zs)" if "x \<in> set (replace_by sz_id z zs)" for x
    using in_replace [OF that] assms
    by (auto simp: zones_disjoint_iff intro!: room_for_replace room_for_self intro: room_for_sym)
  then show ?thesis using assms(1) by (simp add: zones_disjoint_iff)
qed

lemma governorate_conflicts_Nil:
  "governorate_conflicts sid cs ex db = [] \<longleftrightarrow> (\<forall>z\<in>set (sd_zones db). sz_store_id z = sid \<and> sz_is_active z \<and> ex \<noteq> Some (sz_id z)
     \<longrightarrow> set cs \<inter> set (sz_governorate_codes z) = {})"
  by (auto simp: governorate_conflicts_def filter_empty_conv)

lemma repo_create_zone_ok:
  assumes "shipping_ok db" "repo_create_zone z cs db = Inr db'"
  shows "shipping_ok db'"
proof -
  have g: "governorate_conflicts (sz_store_id z) cs None db = []" "lookup_by sz_id (sz_id z) (sd_zones db) = None"
    "db' = db\<lparr>sd_zones := sd_zones db @ [z\<lparr>sz_governorate_codes := cs\<rparr>]\<rparr>"
    using assms(2) by (auto simp: repo_create_zone_def split: if_splits)
  have "zones_disjoint (sd_zones db @ [z\<lparr>sz_governorate_codes := cs\<rparr>])"
    by (rule zones_disjoint_snoc)
      (use assms(1) g(1,2) in \<open>auto simp: shipping_ok_def room_for_def governorate_conflicts_Nil lookup_by_None\<close>)
  with assms(1) show ?thesis by (simp add: g(3) shipping_ok_def)
qed

text \<open>Writing a zone keeps the invariant unless it becomes active without a check of its governorates.\<close>

lemma repo_update_zone_ok:
  assumes db: "shipping_ok db" and u: "repo_update_zone z cs db = Inr db'"
    and m: "lookup_by sz_id (sz_id z) (sd_zones db) = Some m" "sz_store_id m = sz_store_id z"
    and act: "cs \<noteq> None \<or> (sz_is_active z \<longrightarrow> sz_is_active m)"
  shows "shipping_ok db'"
proof -
  define z1 where "z1 = z\<lparr>sz_tenant_id := sz_tenant_id m, sz_store_id := sz_store_id m,
    sz_governorate_codes := given_or cs (sz_governorate_codes m)\<rparr>"
  have g: "cs \<noteq> None \<and> sz_is_active z \<Longrightarrow> governorate_conflicts (sz_store_id z) (given_or cs []) (Some (sz_id z)) db = []"
    "db' = db\<lparr>sd_zones := replace_by sz_id z1 (sd_zones db)\<rparr>"
    using u m(1) by (auto simp: repo_update_zone_def z1_def Let_def split: if_splits)
  have mm: "m \<in> set (sd_zones db)" "sz_id m = sz_id z" using lookup_by_in [OF m(1)] by simp_all
  have "room_for z1 (sd_zones db)"
  proof (cases cs)
    case None
    have "room_for m (sd_zones db)" using db mm(1) by (simp add: shipping_ok_def zones_disjoint_iff)
    then show ?thesis using None act mm m(2) by (auto simp: z1_def room_for_def given_or_def)
  next
    case (Some ds)
    then show ?thesis using g(1) m(2)
      by (auto simp: z1_def room_for_def given_or_def governorate_conflicts_Nil)
  qed
  then show ?thesis using db zones_disjoint_replace by (auto simp: g(2) shipping_ok_def)
qed

lemma as_conflict_Inr [simp]: "as_conflict r = Inr x \<longleftrightarrow> r = Inr x"
  by (auto simp: as_conflict_def split: sum.splits exn.splits)

lemma zone_of_store_Inr:
  "zone_of_store zid sid db = Inr z \<Longrightarrow> lookup_by sz_id zid (sd_zones db) = Some z \<and> sz_store_id z = sid \<and> sz_id z = zid"
  by (auto simp: zone_of_store_def get_zone_def split: option.splits if_splits dest: lookup_by_in)

lemma repo_create_rate_ok:
  "shipping_ok db \<Longrightarrow> repo_create_rate r db = Inr db' \<Longrightarrow> shipping_ok db'"
  by (auto simp: repo_create_rate_def shipping_ok_def lookup_by_None split: if_splits)

lemma create_zone_ok: "shipping_ok db \<Longrightarrow> create_zone zid tid sid i db = Inr db' \<Longrightarrow> shipping_ok db'"
  by (auto simp: create_zone_def rbind_Inr_iff Let_def split: if_splits intro: repo_create_zone_ok)

definition reactivates :: "zone_patch \<Rightarrow> bool" where
  "reactivates p \<longleftrightarrow> zp_is_active p = Some True \<and> zp_governorate_codes p = None"

lemma update_zone_ok:
  assumes "shipping_ok db" "update_zone zid p sid db = Inr db'" "\<not> reactivates p"
  shows "shipping_ok db'"
proof -
  obtain z codes where z: "zone_of_store zid sid db = Inr z"
    and c: "(case zp_governorate_codes p of None \<Rightarrow> Inr None
      | Some cs \<Rightarrow> map_sum id Some (validate_governorate_codes cs)) = Inr codes"
    and u: "repo_update_zone (patch_zone p z) codes db = Inr db'"
    using assms(2) by (auto simp: update_zone_def rbind_Inr_iff split: if_splits)
  note zz = zone_of_store_Inr [OF z]
  have "codes \<noteq> None \<or> (sz_is_active (patch_zone p z) \<longrightarrow> sz_is_active z)"
    using c assms(3) by (cases "validate_governorate_codes (the (zp_governorate_codes p))")
      (auto simp: reactivates_def patch_zone_def given_or_def split: option.splits)
  from repo_update_zone_ok [OF assms(1) u _ _ this] show ?thesis using zz by (simp add: patch_zone_def)
qed

lemma delete_zone_ok:
  assumes "shipping_ok db" "delete_zone zid sid db = Inr db'"
  shows "shipping_ok db'"
proof -
  obtain z where z: "zone_of_store zid sid db = Inr z" "db' = snd (repo_delete_zone zid db)"
    using assms(2) by (auto simp: delete_zone_def rbind_Inr_iff)
  have "zones_disjoint (replace_by sz_id (z\<lparr>sz_is_active := False\<rparr>) (sd_zones db))"
    by (rule zones_disjoint_replace) (use assms(1) in \<open>simp_all add: shipping_ok_def room_for_def\<close>)
  then show ?thesis using assms(1) zone_of_store_Inr [OF z(1)]
    by (simp add: z(2) repo_delete_zone_def shipping_ok_def)
qed

lemma change_cod_fee_ok:
  assumes "shipping_ok db" "change_cod_fee sid c db = Inr db'"
  shows "shipping_ok db'"
proof -
  obtain zid en fee where c: "c = (zid, en, fee)" by (cases c)
  obtain z where z: "zone_of_store zid sid db = Inr z"
    and u: "repo_update_zone (z\<lparr>sz_cod_enabled := given_or en (sz_cod_enabled z),
      sz_cod_fee_cents := given_or fee (sz_cod_fee_cents z)\<rparr>) None db = Inr db'"
    using assms(2) by (auto simp: c change_cod_fee_def rbind_Inr_iff)
  from repo_update_zone_ok [OF assms(1) u, of z] show ?thesis using zone_of_store_Inr [OF z] by simp
qed

lemma create_preset_zone_ok:
  "shipping_ok db \<Longrightarrow> create_preset_zone tid sid p db = Inr db' \<Longrightarrow> shipping_ok db'"
  by (auto simp: create_preset_zone_def rbind_Inr_iff Let_def split: prod.splits
    intro: repo_create_zone_ok repo_create_rate_ok)

lemma update_rate_ok: "shipping_ok db \<Longrightarrow> update_rate rid zid p tid db = Inr db' \<Longrightarrow> shipping_ok db'"
  by (auto simp: update_rate_def rbind_Inr_iff repo_update_rate_def shipping_ok_def split: if_splits option.splits)

lemma delete_rate_ok: "shipping_ok db \<Longrightarrow> delete_rate rid zid tid db = Inr db' \<Longrightarrow> shipping_ok db'"
  by (auto simp: delete_rate_def rbind_Inr_iff repo_delete_rate_def shipping_ok_def split: option.splits)

lemma create_rate_ok: "shipping_ok db \<Longrightarrow> create_rate rid tid zid i sid db = Inr db' \<Longrightarrow> shipping_ok db'"
  by (auto simp: create_rate_def rbind_Inr_iff Let_def split: if_splits intro: repo_create_rate_ok)

fun blind_reactivation :: "shipping_call \<Rightarrow> bool" where
  "blind_reactivation (UpdateZone _ p _) = reactivates p"
| "blind_reactivation _ = False"

lemma shipping_act_ok:
  assumes "shipping_ok db" "shipping_act c db = Inr db'" "\<not> blind_reactivation c"
  shows "shipping_ok db'"
proof (cases c)
  case (ChangeCodFees sid cs)
  then have "foldM (change_cod_fee sid) cs db = Inr db'"
    using assms(2) by (auto simp: change_cod_fees_def split: if_splits)
  then show ?thesis by (rule foldM_invariant [of _ shipping_ok, rotated 2]) (use assms(1) change_cod_fee_ok in auto)
next
  case (ApplyPreset ids rs tid sid)
  then obtain zs where "foldM (create_preset_zone tid sid) zs db = Inr db'"
    using assms(2) by (auto simp: apply_preset_def Let_def split: if_splits)
  then show ?thesis by (rule foldM_invariant [of _ shipping_ok, rotated 2]) (use assms(1) create_preset_zone_ok in auto)
qed (use assms in \<open>auto intro: create_zone_ok update_zone_ok delete_zone_ok create_rate_ok update_rate_ok delete_rate_ok\<close>)

lemma shipping_calls_ok:
  assumes "shipping_ok db" "list_all (\<lambda>c. \<not> blind_reactivation c) cs"
  shows "shipping_ok (serve_all shipping_act cs db)"
  using assms
proof (induction cs arbitrary: db)
  case (Cons c cs)
  then have "shipping_ok (serve shipping_act c db)"
    by (simp add: serve_def shipping_act_ok split: sum.splits)
  with Cons show ?case by simp
qed simp

lemma covering_unique:
  assumes "zones_disjoint zs" "z \<in> set zs" "z' \<in> set zs" "covers sid g z" "covers sid g z'"
  shows "z = z'"
proof (rule ccontr)
  assume "z \<noteq> z'"
  then have "sz_id z \<noteq> sz_id z'" using assms(1-3) distinct_key_eq [of sz_id zs z z'] by (auto simp: zones_disjoint_def)
  then have "set (sz_governorate_codes z) \<inter> set (sz_governorate_codes z') = {}"
    using assms by (simp add: zones_disjoint_def covers_def)
  then show False using assms(4,5) by (auto simp: covers_def)
qed

text \<open>
  C23: a governorate has one zone. Start with no zones and let merchants create, update, delete and preset
  zones and rates and change COD fees in any order, where no update switches a zone on without naming its
  governorates. Then two active zones of one store that cover the same governorate are the same zone.
\<close>

theorem governorates_unambiguous:
  assumes "list_all (\<lambda>c. \<not> blind_reactivation c) cs"
    and "db = serve_all shipping_act cs \<lparr>sd_zones = [], sd_rates = []\<rparr>"
    and "z \<in> set (sd_zones db)" "z' \<in> set (sd_zones db)" "covers sid g z" "covers sid g z'"
  shows "z = z'"
proof -
  have "shipping_ok db" unfolding assms(2)
    by (rule shipping_calls_ok) (use assms(1) in \<open>simp_all add: shipping_ok_def zones_disjoint_def\<close>)
  then have "zones_disjoint (sd_zones db)" by (simp add: shipping_ok_def)
  then show ?thesis by (rule covering_unique) (fact assms(3-6))+
qed

definition cairo_input :: zone_input where
  "cairo_input = \<lparr>zi_name = ''Cairo'', zi_name_ar = None, zi_governorate_codes = [''EG-C''], zi_days_min = 2, zi_days_max = 5,
     zi_cod_enabled = True, zi_cod_fee_cents = 0, zi_is_active = True, zi_sort_order = 0\<rparr>"

definition switch_on :: zone_patch where
  "switch_on = \<lparr>zp_name = None, zp_name_ar = None, zp_governorate_codes = None, zp_days_min = None, zp_days_max = None,
     zp_cod_enabled = None, zp_cod_fee_cents = None, zp_is_active = Some True, zp_sort_order = None\<rparr>"

definition cairo_zone :: "uuid \<Rightarrow> shipping_zone" where
  "cairo_zone zid = zone_of_input zid 1 7 cairo_input [''EG-C'']"

lemma cairo_created:
  "create_zone 10 1 7 cairo_input \<lparr>sd_zones = [], sd_rates = []\<rparr> = Inr \<lparr>sd_zones = [cairo_zone 10], sd_rates = []\<rparr>"
  by code_simp

theorem governorates_unambiguous_witness:
  "covers 7 ''EG-C'' (cairo_zone 10)
   \<and> cairo_zone 10 = hd (sd_zones (serve_all shipping_act [CreateZone 10 1 7 cairo_input, CreateZone 11 1 7 cairo_input]
        \<lparr>sd_zones = [], sd_rates = []\<rparr>))"
proof -
  let ?db = "serve_all shipping_act [CreateZone 10 1 7 cairo_input, CreateZone 11 1 7 cairo_input]
    \<lparr>sd_zones = [], sd_rates = []\<rparr>"
  have c: "create_zone 11 1 7 cairo_input \<lparr>sd_zones = [cairo_zone 10], sd_rates = []\<rparr>
      = Inl (HTTPException ''Governorates already covered by another active zone'')"
    by code_simp
  have db: "sd_zones ?db = [cairo_zone 10]" by (simp add: serve_def cairo_created c)
  have cov: "covers 7 ''EG-C'' (cairo_zone 10)" by code_simp
  have l: "list_all (\<lambda>c. \<not> blind_reactivation c) [CreateZone 10 1 7 cairo_input, CreateZone 11 1 7 cairo_input]"
    by simp
  have m: "cairo_zone 10 \<in> set (sd_zones ?db)" "hd (sd_zones ?db) \<in> set (sd_zones ?db)" "covers 7 ''EG-C'' (hd (sd_zones ?db))"
    unfolding db using cov by simp_all
  show ?thesis using governorates_unambiguous [OF l refl m(1,2) cov m(3)] cov by simp
qed

text \<open>
  Switching a deleted zone back on without naming its governorates is not checked, and then two zones
  cover Cairo.
\<close>

theorem reactivation_collides:
  "map (covers 7 ''EG-C'') (sd_zones (serve_all shipping_act
     [CreateZone 10 1 7 cairo_input, DeleteZone 10 7, CreateZone 11 1 7 cairo_input, UpdateZone 10 switch_on 7]
     \<lparr>sd_zones = [], sd_rates = []\<rparr>)) = [True, True]"
  by code_simp

section \<open>Options and their re-resolution\<close>

lemma zone_for_governorate:
  assumes "zones_disjoint (sd_zones db)"
  shows "get_zone_for_governorate sid g db = Some z \<longleftrightarrow> z \<in> set (sd_zones db) \<and> covers sid g z"
proof
  assume "get_zone_for_governorate sid g db = Some z"
  then show "z \<in> set (sd_zones db) \<and> covers sid g z"
    by (auto simp: get_zone_for_governorate_def find_Some_iff)
next
  assume z: "z \<in> set (sd_zones db) \<and> covers sid g z"
  then have "get_zone_for_governorate sid g db \<noteq> None"
    by (auto simp: get_zone_for_governorate_def find_None_iff)
  then obtain y where y: "get_zone_for_governorate sid g db = Some y" by auto
  then have "y \<in> set (sd_zones db) \<and> covers sid g y"
    by (auto simp: get_zone_for_governorate_def find_Some_iff)
  with y z covering_unique [OF assms] show "get_zone_for_governorate sid g db = Some z" by metis
qed

lemma in_active_rates:
  "r \<in> set (list_rates_by_zone zid False db) \<longleftrightarrow> r \<in> set (sd_rates db) \<and> sr_zone_id r = zid \<and> sr_is_active r"
  by (auto simp: list_rates_by_zone_def)

lemma evaluate_rate_id: "evaluate_rate R r z d = Some x \<Longrightarrow> ro_rate_id x = sr_id r"
  by (auto simp: evaluate_rate_def split: option.splits)

text \<open>The options of a destination's zone, before the default option is considered.\<close>

definition zone_offers :: "resolver \<Rightarrow> delivery \<Rightarrow> shipping_db \<Rightarrow> resolved_option set" where
  "zone_offers R d db = {x. \<exists>z r. get_zone_for_governorate (dl_store_id d) (dl_governorate d) db = Some z
     \<and> \<not> (dl_cod d \<and> \<not> sz_cod_enabled z) \<and> r \<in> set (list_rates_by_zone (sz_id z) False db)
     \<and> evaluate_rate R r z d = Some x}"

lemma in_map_filter: "x \<in> set (List.map_filter f xs) \<longleftrightarrow> (\<exists>y\<in>set xs. f y = Some x)"
  by (induction xs) (auto split: option.splits)

lemma map_filter_Nil_iff: "List.map_filter f xs = [] \<longleftrightarrow> (\<forall>y\<in>set xs. f y = None)"
  by (induction xs) (auto split: option.splits)

lemma resolved_set:
  "set (out_options (resolve_options R restrict d db)) =
     (if out_options (resolve_options R restrict d db) = [default_ships_everywhere_option R] \<and> zone_offers R d db = {}
      then {default_ships_everywhere_option R} else zone_offers R d db)"
proof -
  let ?z = "get_zone_for_governorate (dl_store_id d) (dl_governorate d) db"
  have Nil: "zone_offers R d db = {}" if "?z = None" using that by (simp add: zone_offers_def)
  have blk: "zone_offers R d db = {}" if "?z = Some z" "dl_cod d" "\<not> sz_cod_enabled z" for z
    using that by (simp add: zone_offers_def)
  have one: "set (map snd (List.map_filter (\<lambda>r. map_option (Pair r) (evaluate_rate R r z d))
      (list_rates_by_zone (sz_id z) False db))) = zone_offers R d db"
    if "?z = Some z" "\<not> (dl_cod d \<and> \<not> sz_cod_enabled z)" for z
    using that by (force simp: zone_offers_def in_map_filter image_iff)
  show ?thesis
  proof (cases ?z)
    case None
    then show ?thesis using Nil [OF None] by (simp add: resolve_options_def Let_def)
  next
    case (Some z)
    show ?thesis
    proof (cases "dl_cod d \<and> \<not> sz_cod_enabled z")
      case True
      then show ?thesis using Some blk [OF Some] by (simp add: resolve_options_def Let_def)
    next
      case False
      let ?L = "List.map_filter (\<lambda>r. map_option (Pair r) (evaluate_rate R r z d)) (list_rates_by_zone (sz_id z) False db)"
      have "?L = [] \<Longrightarrow> zone_offers R d db = {}" using one [OF Some False] by (metis list.set(1) list.simps(8))
      then show ?thesis using Some False one [OF Some False]
        by (cases "?L = []") (auto simp: resolve_options_def Let_def simp del: set_map)
    qed
  qed
qed

lemma resolve_one_offer:
  assumes ok: "shipping_ok db"
    and r: "get_rate rid db = Some r" "get_zone (sr_zone_id r) db = Some z" "sz_store_id z = dl_store_id d"
  shows "resolve_one_rate R rid d db = Some x \<longleftrightarrow> x \<in> zone_offers R d db \<and> ro_rate_id x = rid"
proof -
  have dz: "zones_disjoint (sd_zones db)" and dk: "distinct (map sz_id (sd_zones db))" and dr: "distinct (map sr_id (sd_rates db))"
    using ok by (simp_all add: shipping_ok_def zones_disjoint_def)
  have rr: "r \<in> set (sd_rates db)" "sr_id r = rid" and zz: "z \<in> set (sd_zones db)" "sz_id z = sr_zone_id r"
    using lookup_by_in r(1,2) by (fastforce simp: get_rate_def get_zone_def)+
  have cov: "covers (dl_store_id d) (dl_governorate d) z \<longleftrightarrow> sz_is_active z \<and> dl_governorate d \<in> set (sz_governorate_codes z)"
    using r(3) by (simp add: covers_def)
  have one: "resolve_one_rate R rid d db = Some x \<longleftrightarrow> sr_is_active r \<and> covers (dl_store_id d) (dl_governorate d) z
      \<and> \<not> (dl_cod d \<and> \<not> sz_cod_enabled z) \<and> evaluate_rate R r z d = Some x"
    by (auto simp: resolve_one_rate_def r(1,2) cov)
  have offer: "x \<in> zone_offers R d db \<longleftrightarrow> (\<exists>y s. y \<in> set (sd_zones db) \<and> covers (dl_store_id d) (dl_governorate d) y
      \<and> \<not> (dl_cod d \<and> \<not> sz_cod_enabled y) \<and> s \<in> set (sd_rates db) \<and> sr_zone_id s = sz_id y \<and> sr_is_active s
      \<and> evaluate_rate R s y d = Some x)"
    by (auto simp: zone_offers_def zone_for_governorate [OF dz] in_active_rates)
  show ?thesis
  proof
    assume "resolve_one_rate R rid d db = Some x"
    then show "x \<in> zone_offers R d db \<and> ro_rate_id x = rid"
      using rr zz evaluate_rate_id unfolding one offer by metis
  next
    assume x: "x \<in> zone_offers R d db \<and> ro_rate_id x = rid"
    then obtain y s where s: "y \<in> set (sd_zones db)" "covers (dl_store_id d) (dl_governorate d) y"
      "\<not> (dl_cod d \<and> \<not> sz_cod_enabled y)" "s \<in> set (sd_rates db)" "sr_zone_id s = sz_id y" "sr_is_active s"
      "evaluate_rate R s y d = Some x" by (auto simp: offer)
    then have "sr_id s = rid" using x evaluate_rate_id by metis
    then have "s = r" using rr s(4) distinct_key_eq [OF dr] by metis
    then have "y = z" using zz s(1,5) distinct_key_eq [OF dk] by metis
    with \<open>s = r\<close> s show "resolve_one_rate R rid d db = Some x" by (simp add: one)
  qed
qed

text \<open>
  C22: checkout charges what the shopper was shown. Take a database without ambiguous zones and a rate
  whose zone is one of the store. Re-resolving the rate at checkout for the same delivery gives an option
  exactly when the options page lists an option with the rate's id, and then the two are equal, price,
  days and COD support included.
\<close>

theorem checkout_resolves_what_was_offered:
  assumes "shipping_ok db" "get_rate rid db = Some r" "get_zone (sr_zone_id r) db = Some z" "sz_store_id z = dl_store_id d"
    and "rid \<noteq> DEFAULT_SHIPPING_RATE_ID"
  shows "resolve_one_rate R rid d db = Some x
    \<longleftrightarrow> x \<in> set (out_options (resolve_options R restrict d db)) \<and> ro_rate_id x = rid"
proof -
  have "ro_rate_id (default_ships_everywhere_option R) = DEFAULT_SHIPPING_RATE_ID"
    by (simp add: default_ships_everywhere_option_def)
  then show ?thesis using assms(5) resolve_one_offer [OF assms(1-4)] resolved_set [of R restrict d db]
    by auto
qed


definition shop_db :: shipping_db where
  "shop_db = \<lparr>sd_zones = [(cairo_zone 10)\<lparr>sz_cod_fee_cents := 1500\<rparr>],
     sd_rates = [\<lparr>sr_id = 20, sr_tenant_id = 1, sr_zone_id = 10, sr_config = ConfigFreeOver 5000 100000, sr_label = ''Standard'',
       sr_label_ar = None, sr_is_active = True, sr_sort_order = 0\<rparr>]\<rparr>"

definition shop_resolver :: resolver where
  "shop_resolver = \<lparr>rv_currency = ''EGP'', rv_cod_shield = (\<lambda>_. True), rv_quotes = (\<lambda>_ _ _. None)\<rparr>"

definition to_cairo :: "int \<Rightarrow> bool \<Rightarrow> delivery" where
  "to_cairo subtotal cod = \<lparr>dl_store_id = 7, dl_governorate = ''EG-C'', dl_subtotal_cents = subtotal, dl_weight_g = 500, dl_cod = cod\<rparr>"

lemma shop_db_facts: "shipping_ok shop_db" "get_rate 20 shop_db = Some (hd (sd_rates shop_db))"
  "get_zone 10 shop_db = Some (hd (sd_zones shop_db))" "sz_store_id (hd (sd_zones shop_db)) = 7" "sr_zone_id (hd (sd_rates shop_db)) = 10"
  by code_simp+

theorem checkout_resolves_what_was_offered_witness:
  "map_option ro_amount_cents (resolve_one_rate shop_resolver 20 (to_cairo 40000 True) shop_db) = Some 6500
   \<and> (\<forall>x. resolve_one_rate shop_resolver 20 (to_cairo 40000 True) shop_db = Some x
        \<longleftrightarrow> x \<in> set (out_options (resolve_options shop_resolver False (to_cairo 40000 True) shop_db)) \<and> ro_rate_id x = 20)"
proof -
  have "map_option ro_amount_cents (resolve_one_rate shop_resolver 20 (to_cairo 40000 True) shop_db) = Some 6500" by code_simp
  moreover have "(20::uuid) \<noteq> DEFAULT_SHIPPING_RATE_ID" by code_simp
  moreover have "sz_store_id (hd (sd_zones shop_db)) = dl_store_id (to_cairo 40000 True)" by code_simp
  moreover have "get_zone (sr_zone_id (hd (sd_rates shop_db))) shop_db = Some (hd (sd_zones shop_db))"
    using shop_db_facts(3,5) by simp
  ultimately show ?thesis
    using checkout_resolves_what_was_offered [OF shop_db_facts(1,2)] by simp
qed

section \<open>Free shipping everywhere\<close>

lemma lowest_Some: "lowest xs = Some m \<longleftrightarrow> m \<in> set xs \<and> (\<forall>x\<in>set xs. m \<le> x)"
  unfolding lowest_def using Min_in [of "set xs"] by (auto intro: Min_le Min_eqI)

lemma zone_thresholds_in:
  assumes "zone_thresholds zs = Some ts" "(z, rs) \<in> set zs" "rs \<noteq> []" "sz_governorate_codes z \<noteq> []"
  shows "\<exists>t\<in>set ts. lowest (List.map_filter free_over_threshold rs) = Some t"
  using assms(1,2)
proof (induction zs arbitrary: ts rule: zone_thresholds.induct)
  case (2 y qs zs)
  show ?case
  proof (cases "qs = [] \<or> sz_governorate_codes y = []")
    case True
    then have "(y, qs) \<noteq> (z, rs)" using assms(3,4) by auto
    then have "(z, rs) \<in> set zs" using "2.prems"(2) by auto
    then show ?thesis using "2.IH"(1) [OF True] "2.prems"(1) True by simp
  next
    case False
    then show ?thesis using 2 by (auto split: option.splits)
  qed
qed simp

lemma free_over_offer:
  assumes "free_over_threshold r = Some t" "t \<le> dl_subtotal_cents d"
  shows "\<exists>x. evaluate_rate R r z d = Some x \<and> ro_amount_cents x = cod_surcharge R z d"
  using assms by (auto simp: free_over_threshold_def evaluate_rate_def base_offer_def split: rate_config.splits)

text \<open>
  The free-shipping bar keeps its promise. When the store's threshold is \<open>t\<close> and the subtotal has
  reached \<open>t\<close>, then at every destination the store ships to, one of the options costs nothing, apart from
  the COD fee of the destination's zone when the shopper pays on delivery.
\<close>

theorem free_shipping_everywhere:
  assumes "shipping_ok db" "free_shipping_threshold_cents (dl_store_id d) db = Some t" "t \<le> dl_subtotal_cents d"
    and "out_options (resolve_options R restrict d db) \<noteq> []"
  shows "\<exists>x\<in>set (out_options (resolve_options R restrict d db)). ro_amount_cents x \<le>
    (case get_zone_for_governorate (dl_store_id d) (dl_governorate d) db of None \<Rightarrow> 0 | Some z \<Rightarrow> cod_surcharge R z d)"
proof (cases "zone_offers R d db = {}")
  case True
  then have "set (out_options (resolve_options R restrict d db)) = {default_ships_everywhere_option R}"
    using assms(4) resolved_set [of R restrict d db] by (metis list.set_intros(1) neq_Nil_conv emptyE)
  then show ?thesis by (auto simp: default_ships_everywhere_option_def cod_surcharge_def split: option.splits)
next
  case False
  then obtain z r where z: "get_zone_for_governorate (dl_store_id d) (dl_governorate d) db = Some z"
    "\<not> (dl_cod d \<and> \<not> sz_cod_enabled z)" "r \<in> set (list_rates_by_zone (sz_id z) False db)"
    by (auto simp: zone_offers_def)
  have "z \<in> set (sd_zones db) \<and> covers (dl_store_id d) (dl_governorate d) z"
    using z(1) assms(1) by (simp add: zone_for_governorate shipping_ok_def)
  then have "(z, list_rates_by_zone (sz_id z) False db) \<in> set (get_zones_with_rates_for_store (dl_store_id d) False db)"
    "sz_governorate_codes z \<noteq> []"
    by (auto simp: get_zones_with_rates_for_store_def list_zones_by_store_def covers_def)
  moreover obtain ts where ts: "zone_thresholds (get_zones_with_rates_for_store (dl_store_id d) False db) = Some ts"
    "t = Max (set ts)"
    using assms(2) by (auto simp: free_shipping_threshold_cents_def split: option.splits if_splits)
  ultimately obtain u where u: "u \<in> set ts"
    "lowest (List.map_filter free_over_threshold (list_rates_by_zone (sz_id z) False db)) = Some u"
    using zone_thresholds_in z(3) by (metis empty_iff list.set(1))
  then obtain s where s: "s \<in> set (list_rates_by_zone (sz_id z) False db)" "free_over_threshold s = Some u"
    by (auto simp: lowest_Some in_map_filter)
  have "u \<le> Max (set ts)" by (rule Max_ge) (use u(1) in simp_all)
  then have "u \<le> dl_subtotal_cents d" using ts(2) assms(3) by simp
  from free_over_offer [OF s(2) this] obtain x where x: "evaluate_rate R s z d = Some x" "ro_amount_cents x = cod_surcharge R z d"
    by blast
  then have "x \<in> zone_offers R d db" using z s(1) by (auto simp: zone_offers_def)
  then have mem: "x \<in> set (out_options (resolve_options R restrict d db))" using resolved_set [of R restrict d db] by auto
  show ?thesis by (rule bexI [OF _ mem]) (use x z(1) in simp)
qed

theorem free_shipping_everywhere_witness:
  "free_shipping_threshold_cents 7 shop_db = Some 100000
   \<and> (\<exists>x\<in>set (out_options (resolve_options shop_resolver True (to_cairo 100000 True) shop_db)). ro_amount_cents x \<le> 1500)"
proof -
  have t: "free_shipping_threshold_cents (dl_store_id (to_cairo 100000 True)) shop_db = Some 100000" by code_simp
  have l: "(100000::int) \<le> dl_subtotal_cents (to_cairo 100000 True)" by code_simp
  have n: "out_options (resolve_options shop_resolver True (to_cairo 100000 True) shop_db) \<noteq> []" by code_simp
  have z: "(case get_zone_for_governorate (dl_store_id (to_cairo 100000 True)) (dl_governorate (to_cairo 100000 True)) shop_db of
      None \<Rightarrow> 0 | Some z \<Rightarrow> cod_surcharge shop_resolver z (to_cairo 100000 True)) = 1500" by code_simp
  have "dl_store_id (to_cairo 100000 True) = 7" by code_simp
  then show ?thesis using free_shipping_everywhere [OF shop_db_facts(1) t l n] t unfolding z by simp
qed

section \<open>Weight bands\<close>

abbreviation open_band :: "weight_band \<Rightarrow> bool" where
  "open_band b \<equiv> wb_max_weight_g b = None"

abbreviation band_limit :: "weight_band \<Rightarrow> int" where
  "band_limit b \<equiv> given_or (wb_max_weight_g b) 0"

lemma split_sorted_bool: "sorted (map f xs) \<Longrightarrow> xs = filter (\<lambda>x. \<not> f x) xs @ filter f xs" for f :: "'a \<Rightarrow> bool"
proof (induction xs)
  case (Cons x xs)
  show ?case
  proof (cases "f x")
    case True
    then have "\<forall>y\<in>set xs. f y" using Cons.prems by auto
    then have "filter (\<lambda>x. \<not> f x) xs = []" "filter f xs = xs" by (auto simp: filter_empty_conv)
    with True show ?thesis by simp
  next
    case False
    then show ?thesis using Cons by simp
  qed
qed simp

definition finite_bands :: "weight_band list \<Rightarrow> weight_band list" where
  "finite_bands bs = filter (\<lambda>b. \<not> open_band b) (sort_key band_limit bs)"

lemma sorted_bands_split:
  "sorted_bands bs = finite_bands bs @ filter open_band (sort_key band_limit bs)"
proof -
  have e: "filter (\<lambda>b. open_band b = k) (sorted_bands bs) = filter (\<lambda>b. open_band b = k) (sort_key band_limit bs)" for k
    unfolding sorted_bands_def by (rule sort_key_stable)
  have "sorted (map (\<lambda>b. wb_max_weight_g b = None) (sorted_bands bs))" unfolding sorted_bands_def by (rule sorted_sort_key)
  from split_sorted_bool [OF this] show ?thesis using e [of True] e [of False] by (simp add: finite_bands_def)
qed

lemma finite_bands_set: "set (finite_bands bs) = {b \<in> set bs. \<not> open_band b}"
  by (auto simp: finite_bands_def)

lemma finite_bands_sorted: "sorted (map band_limit (finite_bands bs))"
  unfolding finite_bands_def by (rule sorted_filter) simp

lemma first_band_finite:
  assumes "\<forall>b\<in>set fs. \<not> open_band b" "sorted (map band_limit fs)" "b \<in> set fs" "w \<le> band_limit b"
  shows "\<exists>g\<in>set fs. first_band p w (fs @ bs) = Some (wb_amount_cents g) \<and> w \<le> band_limit g \<and> band_limit g \<le> band_limit b"
  using assms
proof (induction fs arbitrary: p)
  case (Cons f fs)
  obtain m where m: "wb_max_weight_g f = Some m" using Cons.prems(1) by auto
  show ?case
  proof (cases "w \<le> m")
    case True
    then show ?thesis using m Cons.prems(2,3) by (auto simp: given_or_def)
  next
    case False
    then have "b \<in> set fs" using Cons.prems(3,4) m by (auto simp: given_or_def)
    then show ?thesis using Cons.IH [of m] Cons.prems(1,2,4) m False by auto
  qed
qed simp

lemma first_band_heavy:
  "\<forall>b\<in>set fs. \<not> open_band b \<and> band_limit b < w \<Longrightarrow>
    first_band p w (fs @ bs) = first_band (if fs = [] then p else band_limit (last fs)) w bs"
  by (induction fs arbitrary: p) (auto simp: given_or_def split: option.splits)

lemma finite_bands_last:
  assumes "finite_bands bs \<noteq> []"
  shows "last (finite_bands bs) \<in> set (finite_bands bs)"
    and "c \<in> set (finite_bands bs) \<Longrightarrow> band_limit c \<le> band_limit (last (finite_bands bs))"
proof -
  obtain ys y where y: "finite_bands bs = ys @ [y]" using assms by (metis append_butlast_last_id)
  show "last (finite_bands bs) \<in> set (finite_bands bs)" using y by simp
  have "sorted (map band_limit (ys @ [y]))" using finite_bands_sorted [of bs] y by simp
  then show "c \<in> set (finite_bands bs) \<Longrightarrow> band_limit c \<le> band_limit (last (finite_bands bs))"
    using y by (auto simp: sorted_append)
qed

lemma finite_bands_all_finite: "\<forall>b\<in>set (finite_bands bs). \<not> open_band b"
  by (simp add: finite_bands_set)

lemma weight_fits:
  assumes b: "b \<in> set bs" "\<not> open_band b" "w \<le> band_limit b"
    and u: "\<And>c. c \<in> set bs \<Longrightarrow> c \<noteq> b \<Longrightarrow> open_band c \<or> band_limit c < w \<or> band_limit b < band_limit c"
  shows "evaluate_weight_band bs w = wb_amount_cents b"
proof -
  have "b \<in> set (finite_bands bs)" using b by (simp add: finite_bands_set)
  from first_band_finite [OF finite_bands_all_finite finite_bands_sorted this b(3)]
  obtain g where g: "g \<in> set (finite_bands bs)" "w \<le> band_limit g" "band_limit g \<le> band_limit b"
    "first_band 0 w (sorted_bands bs) = Some (wb_amount_cents g)" unfolding sorted_bands_split by blast
  have "g \<in> set bs" "\<not> open_band g" using g(1) by (simp_all add: finite_bands_set)
  then have "g = b" using u [of g] g(2,3) by linarith
  then show ?thesis using g(4) by (simp add: evaluate_weight_band_def given_or_def)
qed

lemma weight_above_limits:
  assumes heavy: "\<And>c. c \<in> set (finite_bands bs) \<Longrightarrow> band_limit c < w"
  shows "first_band 0 w (sorted_bands bs) = first_band (if finite_bands bs = [] then 0 else band_limit (last (finite_bands bs))) w
    (filter open_band (sort_key band_limit bs))"
  unfolding sorted_bands_split by (rule first_band_heavy) (use heavy finite_bands_all_finite in simp)

text \<open>The limit below the open-ended band: the largest limit, or 0 when no band has one.\<close>

definition largest_limit :: "weight_band list \<Rightarrow> int \<Rightarrow> bool" where
  "largest_limit bs m \<longleftrightarrow> (if list_all open_band bs then m = 0
     else list_ex (\<lambda>c. wb_max_weight_g c = Some m) bs \<and> list_all (\<lambda>c. open_band c \<or> band_limit c \<le> m) bs)"

lemma largest_limit_last:
  assumes "largest_limit bs m"
  shows "(if finite_bands bs = [] then 0 else band_limit (last (finite_bands bs))) = m"
proof (cases "list_all open_band bs")
  case True
  then have "finite_bands bs = []" by (simp add: finite_bands_def filter_empty_conv list_all_iff)
  with True assms show ?thesis by (simp add: largest_limit_def)
next
  case False
  then have l: "list_ex (\<lambda>c. wb_max_weight_g c = Some m) bs" "list_all (\<lambda>c. open_band c \<or> band_limit c \<le> m) bs"
    using assms by (simp_all add: largest_limit_def)
  from l(1) obtain c where c: "c \<in> set bs" "wb_max_weight_g c = Some m" unfolding list_ex_iff by blast
  have c3: "x \<in> set bs \<Longrightarrow> \<not> open_band x \<Longrightarrow> band_limit x \<le> m" for x
    using bspec [OF l(2) [unfolded list_all_iff], of x] by fastforce
  have cf: "c \<in> set (finite_bands bs)" "band_limit c = m" by (use c in \<open>simp_all add: finite_bands_set given_or_def\<close>)
  then have ne: "finite_bands bs \<noteq> []" by (metis empty_iff list.set(1))
  have "last (finite_bands bs) \<in> set bs" "\<not> open_band (last (finite_bands bs))"
    using finite_bands_last(1) [OF ne] by (simp_all add: finite_bands_set)
  then have "band_limit (last (finite_bands bs)) = m"
    using c3 finite_bands_last(2) [OF ne cf(1)] cf(2) by (simp add: order_antisym)
  with ne show ?thesis by simp
qed

lemma weight_open:
  assumes b: "b \<in> set bs" "open_band b" and u: "\<And>c. c \<in> set bs \<Longrightarrow> c \<noteq> b \<Longrightarrow> \<not> open_band c \<and> band_limit c < w"
    and m: "largest_limit bs m"
  shows "evaluate_weight_band bs w = open_band_amount m w b"
proof -
  have "x = b" if "x \<in> set bs" "open_band x" for x using u [of x] that by blast
  with b have "{x \<in> set bs. open_band x} = {b}" by blast
  then have "set (filter open_band (sort_key band_limit bs)) = {b}" by simp
  then obtain xs where "filter open_band (sort_key band_limit bs) = b # xs"
    by (cases "filter open_band (sort_key band_limit bs)") auto
  then have os: "first_band p w (filter open_band (sort_key band_limit bs)) = Some (open_band_amount p w b)" for p
    using b(2) by simp
  have "first_band 0 w (sorted_bands bs) = Some (open_band_amount m w b)"
    unfolding os [symmetric] largest_limit_last [OF m, symmetric]
  proof (rule weight_above_limits)
    fix c assume "c \<in> set (finite_bands bs)"
    then have "c \<in> set bs" "c \<noteq> b" using b(2) by (auto simp: finite_bands_set)
    then show "band_limit c < w" using u by blast
  qed
  then show ?thesis by (simp add: evaluate_weight_band_def given_or_def)
qed

lemma weight_beyond:
  assumes b: "b \<in> set bs" and u: "\<And>c. c \<in> set bs \<Longrightarrow> \<not> open_band c \<and> band_limit c < w"
    and l: "\<And>c. c \<in> set bs \<Longrightarrow> c \<noteq> b \<Longrightarrow> band_limit c < band_limit b"
  shows "evaluate_weight_band bs w = wb_amount_cents b"
proof -
  have os: "filter open_band (sort_key band_limit bs) = []" using u by (simp add: filter_empty_conv)
  have bf: "b \<in> set (finite_bands bs)" using b u by (simp add: finite_bands_set)
  then have ne: "finite_bands bs \<noteq> []" by (metis empty_iff list.set(1))
  have "last (finite_bands bs) = b"
    using finite_bands_last(1) [OF ne] finite_bands_last(2) [OF ne bf] l by (fastforce simp: finite_bands_set)
  moreover have "first_band 0 w (sorted_bands bs) = None"
    using weight_above_limits [of bs w] u os by (simp add: finite_bands_set)
  ultimately show ?thesis using os by (simp add: evaluate_weight_band_def sorted_bands_split given_or_def)
qed

text \<open>
  A weight is priced by its band. Whatever order the bands were stored in, a cart of weight \<open>w\<close> pays
  the amount of the band with the smallest limit that is at least \<open>w\<close>, when one band only has that limit. A
  cart heavier than every limit pays, when there is one band without limit, its amount and its price per
  started kilogram above the largest limit, and otherwise, when one band only has the largest limit, the
  amount of that band.
\<close>

theorem weight_band_price:
  assumes "b \<in> set bs"
  shows "(\<not> open_band b \<and> w \<le> band_limit b
       \<and> (\<forall>c\<in>set bs. c \<noteq> b \<longrightarrow> open_band c \<or> band_limit c < w \<or> band_limit b < band_limit c)
       \<longrightarrow> evaluate_weight_band bs w = wb_amount_cents b)
   \<and> (open_band b \<and> (\<forall>c\<in>set bs. c \<noteq> b \<longrightarrow> \<not> open_band c \<and> band_limit c < w) \<and> largest_limit bs m
       \<longrightarrow> evaluate_weight_band bs w = wb_amount_cents b
             + given_or (wb_per_extra_kg_cents b) 0 * ((max 0 (w - m) + 999) div 1000))
   \<and> ((\<forall>c\<in>set bs. \<not> open_band c \<and> band_limit c < w \<and> (c \<noteq> b \<longrightarrow> band_limit c < band_limit b))
       \<longrightarrow> evaluate_weight_band bs w = wb_amount_cents b)"
proof (intro conjI impI)
  assume h: "open_band b \<and> (\<forall>c\<in>set bs. c \<noteq> b \<longrightarrow> \<not> open_band c \<and> band_limit c < w) \<and> largest_limit bs m"
  have "evaluate_weight_band bs w = open_band_amount m w b" by (rule weight_open) (use assms h in auto)
  then show "evaluate_weight_band bs w = wb_amount_cents b + given_or (wb_per_extra_kg_cents b) 0 * ((max 0 (w - m) + 999) div 1000)"
    by (simp add: open_band_amount_def given_or_def split: option.splits)
qed (use assms in \<open>auto intro: weight_fits weight_beyond\<close>)

definition three_bands :: "weight_band list" where
  "three_bands = [\<lparr>wb_max_weight_g = None, wb_amount_cents = 9000, wb_per_extra_kg_cents = Some 1000\<rparr>,
     \<lparr>wb_max_weight_g = Some 5000, wb_amount_cents = 6000, wb_per_extra_kg_cents = None\<rparr>,
     \<lparr>wb_max_weight_g = Some 1000, wb_amount_cents = 4000, wb_per_extra_kg_cents = None\<rparr>]"

theorem weight_band_price_witness:
  "evaluate_weight_band three_bands 1200 = 6000 \<and> evaluate_weight_band three_bands 7200 = 12000"
proof -
  have "evaluate_weight_band three_bands 1200 = wb_amount_cents (three_bands ! 1)"
    by (rule weight_band_price [THEN conjunct1, THEN mp]) (simp_all add: three_bands_def given_or_def)
  moreover have "evaluate_weight_band three_bands 7200 = wb_amount_cents (three_bands ! 0)
      + given_or (wb_per_extra_kg_cents (three_bands ! 0)) 0 * ((max 0 (7200 - 5000) + 999) div 1000)"
    by (rule weight_band_price [THEN conjunct2, THEN conjunct1, THEN mp])
      (simp_all add: three_bands_def given_or_def largest_limit_def)
  ultimately show ?thesis by (simp add: three_bands_def given_or_def)
qed

end
