(* ===== verification/Py_Float.thy ===== *)
theory Py_Float
  imports Numu_Prelude
begin

text \<open>
  Python's floats: binary64 values as rationals, their arithmetic as the rounded exact operation (infinities,
  NaN and the subnormal range are left out), and the error of a rounded quotient.
\<close>

section \<open>Binary64 arithmetic\<close>

text \<open>The float nearest to a rational, and the arithmetic of floats as the rounded exact operation.\<close>

definition fl :: "rat \<Rightarrow> rat" where
  "fl x = (case quotient_of x of (n, d) \<Rightarrow> fdiv n d)"

definition fmul :: "rat \<Rightarrow> rat \<Rightarrow> rat" where
  "fmul x y = fl (x * y)"

definition fadd :: "rat \<Rightarrow> rat \<Rightarrow> rat" where
  "fadd x y = fl (x + y)"

definition fsub :: "rat \<Rightarrow> rat \<Rightarrow> rat" where
  "fsub x y = fl (x - y)"

definition fquot :: "rat \<Rightarrow> rat \<Rightarrow> rat" where
  "fquot x y = fl (x / y)"

text \<open>\<open>float(n)\<close> of an integer.\<close>

definition float_of_int :: "int \<Rightarrow> rat" where
  "float_of_int n = fl (of_int n)"

text \<open>\<open>float(s)\<close> of a string: an underscore is allowed between two digits only.\<close>

fun underscores_ok :: "bool \<Rightarrow> string \<Rightarrow> bool" where
  "underscores_ok after_digit [] = True"
| "underscores_ok after_digit (c # cs) =
     (if c = CHR ''_'' then after_digit \<and> cs \<noteq> [] \<and> is_digit (hd cs) \<and> underscores_ok False cs
      else underscores_ok (is_digit c) cs)"

definition py_float_str :: "string \<Rightarrow> rat option" where
  "py_float_str s = (if underscores_ok False (strip s) then map_option fl (py_decimal_str s) else None)"

section \<open>The error of a rounded quotient\<close>

lemma div_half_even_error:
  assumes "0 < b"
  shows "\<bar>of_int (div_half_even a b) - of_int a / of_int b\<bar> \<le> (1 / 2 :: rat)"
proof -
  let ?q = "a div b" and ?r = "a mod b"
  have b: "0 < (of_int b :: rat)" using assms by simp
  have "(of_int a :: rat) = of_int ?q * of_int b + of_int ?r"
    by (metis div_mult_mod_eq of_int_add of_int_mult)
  then have v: "(of_int a / of_int b :: rat) = of_int ?q + of_int ?r / of_int b"
    using b by (simp add: add_divide_distrib)
  have r: "0 \<le> ?r" "?r < b" using assms by simp_all
  have "(of_int ?r / of_int b :: rat) \<le> 1 / 2 \<longleftrightarrow> (of_int (2 * ?r) :: rat) \<le> of_int b"
    "(1 / 2 :: rat) \<le> of_int ?r / of_int b \<longleftrightarrow> (of_int b :: rat) \<le> of_int (2 * ?r)"
    using b by (simp_all add: pos_divide_le_eq pos_le_divide_eq mult.commute)
  then have half: "(of_int ?r / of_int b :: rat) \<le> 1 / 2 \<longleftrightarrow> 2 * ?r \<le> b" "(1 / 2 :: rat) \<le> of_int ?r / of_int b \<longleftrightarrow> b \<le> 2 * ?r"
    by (simp_all only: of_int_le_iff)
  have frac: "0 \<le> (of_int ?r / of_int b :: rat)" "of_int ?r / of_int b < (1 :: rat)" using b r by simp_all
  consider "2 * ?r < b" | "b < 2 * ?r" | "2 * ?r = b" by linarith
  then show ?thesis
  proof cases
    case 1
    then have "div_half_even a b = ?q" by (simp add: div_half_even_def Let_def)
    with 1 half(1) frac show ?thesis by (simp add: v)
  next
    case 2
    then have "div_half_even a b = ?q + 1" by (simp add: div_half_even_def Let_def)
    with 2 half(2) frac show ?thesis by (simp add: v)
  next
    case 3
    then have "(of_int ?r / of_int b :: rat) = 1 / 2" using half by (simp add: order_antisym)
    moreover have "div_half_even a b = ?q \<or> div_half_even a b = ?q + 1" by (simp add: div_half_even_def Let_def)
    ultimately show ?thesis unfolding v by auto
  qed
qed

text \<open>The scaled quotient has at least 53 bits.\<close>

lemma fdiv_exp_scale:
  assumes n: "0 < n" and b: "0 < b"
  shows "(of_int b :: rat) * 2 powi (fdiv_exp n b + 52) \<le> of_int n"
proof -
  let ?s = "bitlen n - bitlen b"
  have nb: "2 ^ nat (bitlen n - 1) \<le> n" using bitlen_bounds [of n] n by auto
  have bb: "b < 2 ^ nat (bitlen b)" using bitlen_bounds [of b] b by auto
  have p1: "0 < bitlen b" "0 < bitlen n"
    using b n by (metis bitlen_nonneg bitlen_eq_zero_iff le_less not_le)+
  show ?thesis
  proof (cases "if 0 \<le> ?s then b * 2 ^ nat ?s \<le> n else b \<le> n * 2 ^ nat (- ?s)")
    case True
    then have e: "fdiv_exp n b + 52 = ?s" by (simp add: fdiv_exp_def Let_def)
    show ?thesis
    proof (cases "0 \<le> ?s")
      case pos: True
      then have "(of_int (b * 2 ^ nat ?s) :: rat) \<le> of_int n" using True by (simp only: of_int_le_iff if_True)
      with pos show ?thesis by (simp add: e power_int_def)
    next
      case neg: False
      then have "(of_int b :: rat) \<le> of_int (n * 2 ^ nat (- ?s))" using True by (simp only: of_int_le_iff if_False)
      with neg show ?thesis by (simp add: e power_int_def field_simps)
    qed
  next
    case False
    then have e: "fdiv_exp n b + 52 = ?s - 1" by (simp add: fdiv_exp_def Let_def split: if_splits)
    have "(of_int b :: rat) \<le> of_int (2 ^ nat (bitlen b))" using bb by (simp only: of_int_le_iff)
    then have "(of_int b :: rat) * 2 powi (?s - 1) \<le> 2 powi (bitlen b) * 2 powi (?s - 1)"
      using p1 by (intro mult_right_mono) (simp_all add: power_int_def)
    also have "\<dots> = 2 powi (bitlen n - 1)" by (simp flip: power_int_add)
    also have "\<dots> = of_int (2 ^ nat (bitlen n - 1))" using p1 by (simp add: power_int_def)
    also have "\<dots> \<le> of_int n" using nb by (simp only: of_int_le_iff)
    finally show ?thesis by (simp add: e)
  qed
qed

lemma fdiv_pos_error:
  assumes n: "0 < n" and b: "0 < b"
  shows "\<bar>fdiv_pos n b - of_int n / of_int b\<bar> \<le> of_int n / of_int b / 2 ^ 53"
proof -
  let ?e = "fdiv_exp n b"
  let ?v = "of_int n / of_int b :: rat"
  have bp: "0 < (of_int b :: rat)" using b by simp
  have "\<bar>fdiv_pos n b - ?v\<bar> \<le> 2 powi ?e / 2"
  proof (cases "0 \<le> ?e")
    case True
    let ?d = "b * 2 ^ nat ?e"
    have p: "2 powi ?e = (2 ^ nat ?e :: rat)" using True by (simp add: power_int_def)
    have "fdiv_pos n b - ?v = (of_int (div_half_even n ?d) - of_int n / of_int ?d) * 2 ^ nat ?e"
      using True bp by (simp add: fdiv_pos_def Let_def field_simps)
    then have "\<bar>fdiv_pos n b - ?v\<bar> = \<bar>of_int (div_half_even n ?d) - of_int n / of_int ?d\<bar> * 2 ^ nat ?e"
      by (simp add: abs_mult)
    also have "\<dots> \<le> 1 / 2 * 2 ^ nat ?e"
      by (intro mult_right_mono div_half_even_error) (use b in simp_all)
    finally show ?thesis by (simp add: p)
  next
    case False
    let ?m = "n * 2 ^ nat (- ?e)"
    have p: "2 powi ?e = (1 / 2 ^ nat (- ?e) :: rat)" using False by (simp add: power_int_def field_simps)
    have "fdiv_pos n b - ?v = (of_int (div_half_even ?m b) - of_int ?m / of_int b) / 2 ^ nat (- ?e)"
      using False bp by (simp add: fdiv_pos_def Let_def field_simps)
    then have "\<bar>fdiv_pos n b - ?v\<bar> = \<bar>of_int (div_half_even ?m b) - of_int ?m / of_int b\<bar> / 2 ^ nat (- ?e)"
      by (simp add: abs_mult)
    also have "\<dots> \<le> 1 / 2 / 2 ^ nat (- ?e)"
      by (intro divide_right_mono div_half_even_error) (use b in simp_all)
    finally show ?thesis by (simp add: p)
  qed
  moreover have "2 powi ?e * 2 ^ 52 \<le> ?v"
  proof -
    have "(2 :: rat) powi (?e + 52) = 2 powi ?e * 2 ^ 52" by (simp add: power_int_add)
    then show ?thesis using fdiv_exp_scale [OF n b] bp by (simp add: pos_le_divide_eq mult.commute)
  qed
  ultimately show ?thesis by (simp add: field_simps)
qed

lemma fdiv_error:
  assumes "0 \<le> a" "0 < b"
  shows "\<bar>fdiv a b - of_int a / of_int b\<bar> \<le> of_int a / of_int b / 2 ^ 53"
  using assms fdiv_pos_error [of a b] by (cases "a = 0") (simp_all add: fdiv_def)

lemma fl_error: "0 \<le> x \<Longrightarrow> \<bar>fl x - x\<bar> \<le> x / 2 ^ 53"
proof -
  assume x: "0 \<le> x"
  obtain n d where q: "quotient_of x = (n, d)" by (cases "quotient_of x")
  have d: "0 < d" using quotient_of_denom_pos [OF q] .
  have v: "x = of_int n / of_int d" using quotient_of_div [OF q] .
  then have "0 \<le> n" using x d by (simp add: zero_le_divide_iff)
  from fdiv_error [OF this d] have "\<bar>fdiv n d - x\<bar> \<le> x / 2 ^ 53" by (simp only: v)
  moreover have "fl x = fdiv n d" by (simp add: fl_def q)
  ultimately show ?thesis by (simp only:)
qed

lemma fl_nonneg: "0 \<le> x \<Longrightarrow> 0 \<le> fl x"
proof -
  assume x: "0 \<le> x"
  then have "x / 2 ^ 53 \<le> x" by (simp add: field_simps)
  with fl_error [OF x] show ?thesis by linarith
qed

text \<open>A product below \<open>2 ^ 53\<close> is divided with its whole part and the presence of a fraction intact.\<close>

lemma fdiv_whole:
  assumes a: "0 \<le> a" "a < 2 ^ 53" and b: "0 < b" "b dvd a"
  shows "fdiv a b = of_int (a div b)"
proof -
  obtain k where k: "a = k * b" using b(2) by (metis dvd_div_mult_self)
  have "0 \<le> k" using a(1) b(1) k by (simp add: zero_le_mult_iff)
  moreover have "k \<le> a" using k b(1) \<open>0 \<le> k\<close> mult_left_mono [of 1 b k] by simp
  ultimately show ?thesis using fdiv_exact [OF b(1), of k] a(2) k b(1) by simp
qed

lemma fdiv_between:
  assumes a: "0 \<le> a" "a < 2 ^ 53" and b: "0 < b" "\<not> b dvd a"
  shows "of_int (a div b) < fdiv a b" and "fdiv a b < of_int (a div b) + 1"
proof -
  let ?v = "of_int a / of_int b :: rat"
  have bp: "0 < (of_int b :: rat)" using b by simp
  have "a mod b \<noteq> 0" using b(2) by (simp add: dvd_eq_mod_eq_0)
  moreover have "0 \<le> a mod b" "a mod b < b" using b(1) by simp_all
  ultimately have r: "0 < a mod b" "a mod b < b" by linarith+
  have "of_int a = (of_int (a div b) * of_int b + of_int (a mod b) :: rat)"
    by (metis div_mult_mod_eq of_int_add of_int_mult)
  then have v: "?v = of_int (a div b) + of_int (a mod b) / of_int b" using bp by (simp add: field_simps)
  have "(of_int a :: rat) < of_int (2 ^ 53)" using a(2) by (simp only: of_int_less_iff)
  then have "?v / 2 ^ 53 < 1 / of_int b" using bp by (simp add: field_simps)
  moreover have "1 / of_int b \<le> (of_int (a mod b) / of_int b :: rat)"
    using r(1) bp by (intro divide_right_mono) simp_all
  moreover have "(of_int (a mod b) + 1 :: rat) \<le> of_int b" using r(2) by (metis of_int_1 of_int_add of_int_le_iff zless_imp_add1_zle)
  then have "(of_int (a mod b) / of_int b :: rat) + 1 / of_int b \<le> 1"
    using bp by (simp add: field_simps)
  ultimately show "of_int (a div b) < fdiv a b" "fdiv a b < of_int (a div b) + 1"
    using fdiv_error [OF a(1) b(1)] v by linarith+
qed

lemma fdiv_floor:
  assumes "0 \<le> a" "a < 2 ^ 53" "0 < b"
  shows "\<lfloor>fdiv a b\<rfloor> = a div b"
  using assms fdiv_whole [of a b] fdiv_between [of a b] by (cases "b dvd a") (simp_all add: floor_unique)

lemma fl_pos_iff: "0 \<le> x \<Longrightarrow> 0 < fl x \<longleftrightarrow> 0 < x"
proof
  assume "0 \<le> x" "0 < fl x"
  moreover have "fl 0 = 0" by (simp add: fl_def fdiv_def)
  ultimately show "0 < x" by (cases "x = 0") auto
next
  assume "0 \<le> x" "0 < x"
  then have "x / 2 ^ 53 < x" by (simp add: field_simps)
  then show "0 < fl x" using fl_error [OF \<open>0 \<le> x\<close>] by linarith
qed

lemma fl_coarse: "0 \<le> x \<Longrightarrow> fl x \<le> 9 / 8 * x" "0 \<le> x \<Longrightarrow> 7 / 8 * x \<le> fl x"
proof -
  assume x: "0 \<le> x"
  have "x / 2 ^ 53 \<le> x / 8" using x by (intro divide_left_mono) simp_all
  then show "fl x \<le> 9 / 8 * x" "7 / 8 * x \<le> fl x" using fl_error [OF x] by linarith+
qed

lemma float_of_int_exact: "0 \<le> n \<Longrightarrow> n < 2 ^ 53 \<Longrightarrow> float_of_int n = of_int n"
  using fdiv_exact [of 1 n] by (simp add: float_of_int_def fl_def)

lemma py_round_le: "x \<le> of_int k \<Longrightarrow> py_round x \<le> k"
proof -
  assume x: "x \<le> of_int k"
  then have q: "\<lfloor>x\<rfloor> \<le> k" by (metis floor_mono floor_of_int)
  show ?thesis
  proof (cases "\<lfloor>x\<rfloor> = k")
    case True
    then have "of_int k \<le> x" by (metis of_int_floor_le)
    then have "x = of_int k" using x by (simp add: order_antisym)
    then show ?thesis by simp
  next
    case False
    then show ?thesis using q by (simp add: py_round_def Let_def)
  qed
qed

end
