(* ===== verification/Tax.thy ===== *)
theory Tax
  imports Py_Float Coupon
begin

text \<open>
  The tax of an order, \<open>src/application/services/tax_resolver.py\<close>. The rate of the store's market
  (\<open>tax_resolver_for_country\<close>) is an argument; the settings are the pairs of the JSON object.
\<close>

section \<open>The resolver\<close>

record tax_line_breakdown =
  tb_line_index :: nat
  tb_taxable_amount_cents :: int
  tb_tax_cents :: int
  tb_rate :: rat

record resolved_tax =
  tx_tax_to_add_cents :: int
  tx_included_tax_cents :: int
  tx_rate :: rat
  tx_inclusive :: bool
  tx_breakdown :: "tax_line_breakdown list"

record tax_line_input =
  tl_unit_price_cents :: int
  tl_quantity :: int
  tl_taxable :: bool

type_synonym tax_settings = "(string \<times> json) list"

definition no_tax :: "rat \<Rightarrow> bool \<Rightarrow> resolved_tax" where
  "no_tax rate inclusive = \<lparr>tx_tax_to_add_cents = 0, tx_included_tax_cents = 0, tx_rate = rate,
     tx_inclusive = inclusive, tx_breakdown = []\<rparr>"

definition rstrip_percent :: "string \<Rightarrow> string" where
  "rstrip_percent s = rev (dropWhile (\<lambda>c. c = CHR ''%'') (rev s))"

text \<open>\<open>None\<close> is a value that is no number.\<close>

definition rate_number :: "json \<Rightarrow> rat option" where
  "rate_number v = (case v of
      JStr s \<Rightarrow> py_float_str (rstrip_percent (strip s))
    | JInt n \<Rightarrow> Some (float_of_int n)
    | JBool b \<Rightarrow> Some (if b then 1 else 0)
    | JFloat x \<Rightarrow> Some (fl x)
    | _ \<Rightarrow> None)"

definition coerce_rate :: "json \<Rightarrow> rat" where
  "coerce_rate v = (case rate_number v of
      None \<Rightarrow> 0
    | Some x \<Rightarrow> (let num = (if 1 < x then fquot x 100 else x) in if num < 0 then 0 else num))"

fun first_override :: "string \<Rightarrow> (string \<times> json) list \<Rightarrow> json option" where
  "first_override code [] = None"
| "first_override code ((k, v) # kvs) = (if strip (upper k) = code then Some v else first_override code kvs)"

definition resolve_rate :: "rat \<Rightarrow> tax_settings \<Rightarrow> string option \<Rightarrow> rat" where
  "resolve_rate platform_default ts destination =
     (let overrides = (case map_of ts ''zone_overrides'' of Some (JObj kvs) \<Rightarrow> kvs | _ \<Rightarrow> []);
          override = (case destination of
            None \<Rightarrow> None | Some g \<Rightarrow> if g = [] then None else first_override (strip (upper g)) overrides)
      in case override of
           Some v \<Rightarrow> coerce_rate v
         | None \<Rightarrow> (case map_of ts ''default_rate'' of Some v \<Rightarrow> coerce_rate v | None \<Rightarrow> platform_default))"

text \<open>The cents left over after rounding down go to the lines with the largest fractions.\<close>

definition allocate_discount :: "int list \<Rightarrow> int \<Rightarrow> int list" where
  "allocate_discount line_totals discount =
     (let gross = sum_list line_totals in
      if discount \<le> 0 \<or> gross \<le> 0 then replicate (length line_totals) 0
      else (let raw = map (\<lambda>lt. fdiv (lt * discount) gross) line_totals;
                floored = map trunc_rat raw;
                residuals = sort_key (\<lambda>i. - fsub (raw ! i) (of_int (floored ! i))) [0..<length line_totals];
                leftover = discount - sum_list floored
            in fold (\<lambda>i xs. xs[i := xs ! i + 1]) (py_prefix leftover residuals) floored))"

definition line_tax :: "bool \<Rightarrow> rat \<Rightarrow> int \<Rightarrow> int" where
  "line_tax inclusive rate taxable =
     (if inclusive then py_round (fquot (fmul (float_of_int taxable) rate) (fadd 1 rate))
      else py_round (fmul (float_of_int taxable) rate))"

definition tax_row :: "bool \<Rightarrow> rat \<Rightarrow> nat \<times> tax_line_input \<times> int \<Rightarrow> tax_line_breakdown" where
  "tax_row inclusive rate r = (case r of (i, li, disc) \<Rightarrow>
     let taxable = max 0 (tl_unit_price_cents li * tl_quantity li - disc) in
     if \<not> tl_taxable li then \<lparr>tb_line_index = i, tb_taxable_amount_cents = 0, tb_tax_cents = 0, tb_rate = 0\<rparr>
     else \<lparr>tb_line_index = i, tb_taxable_amount_cents = taxable, tb_tax_cents = line_tax inclusive rate taxable,
            tb_rate = rate\<rparr>)"

definition resolve_tax :: "rat \<Rightarrow> tax_settings \<Rightarrow> tax_line_input list \<Rightarrow> int \<Rightarrow> string option \<Rightarrow> bool \<Rightarrow> resolved_tax" where
  "resolve_tax platform_default ts lines discount_amount destination force_inclusive =
     (if map_of ts ''enabled'' = Some (JBool False) then no_tax 0 False
      else (let rate = resolve_rate platform_default ts destination in
        if rate \<le> 0 then no_tax rate False
        else (let inclusive = (force_inclusive \<or> json_truthy (map_of ts ''included_in_price''));
                  totals = map (\<lambda>li. tl_unit_price_cents li * tl_quantity li) lines;
                  gross = sum_list totals
              in if gross \<le> 0 then no_tax rate inclusive
                 else (let discount = max 0 (min discount_amount gross);
                           rows = map (tax_row inclusive rate)
                             (zip [0..<length lines] (zip lines (allocate_discount totals discount)));
                           tax = sum_list (map tb_tax_cents rows)
                       in \<lparr>tx_tax_to_add_cents = (if inclusive then 0 else tax),
                           tx_included_tax_cents = (if inclusive then tax else 0),
                           tx_rate = rate, tx_inclusive = inclusive, tx_breakdown = rows\<rparr>))))"

section \<open>The discount is shared out to the cent\<close>

lemma sum_increment: "i < length xs \<Longrightarrow> sum_list (xs[i := xs ! i + 1]) = sum_list xs + 1" for xs :: "int list"
  by (induction xs arbitrary: i) (auto split: nat.split)

lemma fold_increments:
  fixes xs :: "int list"
  assumes "distinct is" "set is \<subseteq> {..<length xs}"
  shows "length (fold (\<lambda>i xs. xs[i := xs ! i + 1]) is xs) = length xs
    \<and> sum_list (fold (\<lambda>i xs. xs[i := xs ! i + 1]) is xs) = sum_list xs + int (length is)
    \<and> (\<forall>j<length xs. fold (\<lambda>i xs. xs[i := xs ! i + 1]) is xs ! j = xs ! j + (if j \<in> set is then 1 else 0))"
  using assms
proof (induction "is" arbitrary: xs)
  case (Cons i js)
  let ?ys = "xs[i := xs ! i + (1::int)]"
  have i: "i < length xs" "i \<notin> set js" "distinct js" "set js \<subseteq> {..<length ?ys}" using Cons.prems by auto
  note IH = Cons.IH [OF i(3,4)]
  have "sum_list ?ys = sum_list xs + 1" by (rule sum_increment) (fact i(1))
  then show ?case using IH i(1,2) by (auto simp: nth_list_update)
qed simp

lemma sorted_prefix_negative:
  fixes f :: "'a \<Rightarrow> rat"
  assumes "sorted (map f ys)" "n \<le> length (filter (\<lambda>y. f y < 0) ys)" "y \<in> set (take n ys)"
  shows "f y < 0"
proof -
  have "take n ys = take n (filter (\<lambda>y. f y < 0) ys)" using assms(1,2)
  proof (induction ys arbitrary: n)
    case (Cons x xs)
    show ?case
    proof (cases "f x < 0")
      case True
      then show ?thesis using Cons by (cases n) simp_all
    next
      case False
      then have "filter (\<lambda>y. f y < 0) (x # xs) = []" using Cons.prems(1) by (auto simp: filter_empty_conv)
      then show ?thesis using Cons.prems(2) by simp
    qed
  qed simp
  then show ?thesis using assms(3) by (auto dest: in_set_takeD)
qed

definition share_fraction :: "int \<Rightarrow> int \<Rightarrow> int \<Rightarrow> rat" where
  "share_fraction gross d lt = fsub (fdiv (lt * d) gross) (of_int (trunc_rat (fdiv (lt * d) gross)))"

lemma share_floor:
  assumes "0 \<le> lt" "0 \<le> d" "lt * d < 2 ^ 53" "0 < gross"
  shows "trunc_rat (fdiv (lt * d) gross) = lt * d div gross" "share_fraction gross d lt \<ge> 0"
    "0 < share_fraction gross d lt \<longleftrightarrow> lt * d mod gross \<noteq> 0"
proof -
  have p: "0 \<le> lt * d" using assms(1,2) by simp
  have nn: "0 \<le> fdiv (lt * d) gross" using fdiv_nonneg [OF p assms(4)] .
  show t: "trunc_rat (fdiv (lt * d) gross) = lt * d div gross"
    using nn fdiv_floor [OF p assms(3,4)] by (simp add: trunc_rat_def)
  let ?x = "fdiv (lt * d) gross - of_int (lt * d div gross)"
  have x: "0 \<le> ?x" "0 < ?x \<longleftrightarrow> lt * d mod gross \<noteq> 0"
    using fdiv_whole [OF p assms(3,4)] fdiv_between [OF p assms(3,4)]
    by (cases "gross dvd lt * d"; simp add: dvd_eq_mod_eq_0)+
  have "0 < fl ?x \<longleftrightarrow> 0 < ?x" by (rule fl_pos_iff) (fact x(1))
  then show "share_fraction gross d lt \<ge> 0" "0 < share_fraction gross d lt \<longleftrightarrow> lt * d mod gross \<noteq> 0"
    using x fl_nonneg [OF x(1)] by (simp_all add: share_fraction_def fsub_def t)
qed

lemma rests_sum:
  fixes gross d :: int
  assumes "0 < gross" "sum_list lts = gross"
  shows "gross * (d - sum_list (map (\<lambda>lt. lt * d div gross) lts)) = sum_list (map (\<lambda>lt. lt * d mod gross) lts)"
proof -
  have "sum_list (map (\<lambda>lt. lt * d) xs)
      = gross * sum_list (map (\<lambda>lt. lt * d div gross) xs) + sum_list (map (\<lambda>lt. lt * d mod gross) xs)" for xs
    proof (induction xs)
    case (Cons a xs)
    have "a * d = gross * (a * d div gross) + a * d mod gross" by simp
    then show ?case using Cons.IH by (simp only: list.map sum_list.Cons distrib_left)
  qed simp
  from this [of lts] have "sum_list lts * d = gross * sum_list (map (\<lambda>lt. lt * d div gross) lts)
      + sum_list (map (\<lambda>lt. lt * d mod gross) lts)" by (simp add: sum_list_mult_const)
  then show ?thesis using assms(2) by (simp add: algebra_simps)
qed

lemma rests_count:
  fixes f :: "'a \<Rightarrow> int"
  assumes "\<And>x. x \<in> set xs \<Longrightarrow> 0 \<le> f x \<and> f x < g" "0 < g" "g * k = sum_list (map f xs)"
  shows "0 \<le> k" "k \<le> int (length (filter (\<lambda>x. f x \<noteq> 0) xs))"
proof -
  have "0 \<le> sum_list (map f xs) \<and> sum_list (map f xs) \<le> g * int (length (filter (\<lambda>x. f x \<noteq> 0) xs))"
    using assms(1)
  proof (induction xs)
    case (Cons x xs)
    have "0 \<le> f x" "f x < g" using Cons.prems [of x] by simp_all
    moreover have "0 \<le> sum_list (map f xs) \<and> sum_list (map f xs) \<le> g * int (length (filter (\<lambda>x. f x \<noteq> 0) xs))"
      using Cons.IH Cons.prems by simp
    ultimately show ?case by (simp add: algebra_simps)
  qed simp
  then show "0 \<le> k" "k \<le> int (length (filter (\<lambda>x. f x \<noteq> 0) xs))"
    using assms(2,3) by (metis zero_le_mult_iff not_le order_less_le, metis mult_le_cancel_left_pos)
qed

lemma allocate_exactly:
  assumes nn: "\<And>lt. lt \<in> set lts \<Longrightarrow> 0 \<le> lt" and g: "0 < sum_list lts" and d: "0 < d" "d \<le> sum_list lts"
    and small: "sum_list lts * d < 2 ^ 53"
  shows "length (allocate_discount lts d) = length lts \<and> sum_list (allocate_discount lts d) = d
    \<and> (\<forall>i<length lts. allocate_discount lts d ! i = lts ! i * d div sum_list lts
         \<or> lts ! i * d mod sum_list lts \<noteq> 0 \<and> allocate_discount lts d ! i = lts ! i * d div sum_list lts + 1)"
proof -
  let ?g = "sum_list lts" and ?n = "length lts"
  let ?raw = "map (\<lambda>lt. fdiv (lt * d) ?g) lts"
  have fits: "lt * d < 2 ^ 53" if "lt \<in> set lts" for lt
  proof -
    have "lt \<le> ?g" using member_le_sum_list [OF that] nn by simp
    then have "lt * d \<le> ?g * d" using d(1) by simp
    then show ?thesis using small by simp
  qed
  note share = share_floor [OF nn _ fits g]
  define fs where "fs = map (\<lambda>lt. lt * d div ?g) lts"
  have fs: "map trunc_rat ?raw = fs" using share(1) d(1) by (simp add: fs_def)
  define key where "key = (\<lambda>i. - fsub (?raw ! i) (of_int (fs ! i)))"
  have key: "key i = - share_fraction ?g d (lts ! i)" if "i < ?n" for i
    using that share(1) [of "lts ! i"] d(1) by (simp add: key_def fs_def share_fraction_def)
  have key0: "key i < 0 \<longleftrightarrow> lts ! i * d mod ?g \<noteq> 0" if "i < ?n" for i
    using key [OF that] share(3) [of "lts ! i"] d(1) that by simp
  define ps where "ps = take (nat (d - sum_list fs)) (sort_key key [0..<?n])"
  have mods: "\<And>x. x \<in> set [0..<?n] \<Longrightarrow> 0 \<le> lts ! x * d mod ?g \<and> lts ! x * d mod ?g < ?g" using g by simp
  have "map (\<lambda>i. lts ! i * d mod ?g) [0..<?n] = map (\<lambda>lt. lt * d mod ?g) lts"
    by (rule nth_equalityI) simp_all
  then have "?g * (d - sum_list fs) = sum_list (map (\<lambda>i. lts ! i * d mod ?g) [0..<?n])"
    using rests_sum [OF g refl, of d] by (simp add: fs_def)
  note cnt = rests_count [OF mods g this]
  have "filter (\<lambda>i. key i < 0) (sort_key key [0..<?n]) = sort_key key (filter (\<lambda>i. key i < 0) [0..<?n])"
    by (rule filter_sort)
  moreover have "filter (\<lambda>i. key i < 0) [0..<?n] = filter (\<lambda>i. lts ! i * d mod ?g \<noteq> 0) [0..<?n]"
    by (rule filter_cong) (simp_all add: key0)
  ultimately have len: "nat (d - sum_list fs) \<le> length (filter (\<lambda>i. key i < 0) (sort_key key [0..<?n]))"
    using cnt(2) by simp
  have alloc: "allocate_discount lts d = fold (\<lambda>i xs. xs[i := xs ! i + 1]) ps fs"
    using d(1) g cnt(1) fs by (simp add: allocate_discount_def Let_def ps_def key_def py_prefix_def)
  have psd: "distinct ps" "set ps \<subseteq> {..<length fs}"
    by (auto simp: ps_def fs_def dest: in_set_takeD)
  have "length ps = nat (d - sum_list fs)"
    using len length_filter_le [of "\<lambda>i. key i < 0" "sort_key key [0..<?n]"] by (simp add: ps_def)
  moreover have "lts ! i * d mod ?g \<noteq> 0" if i: "i \<in> set ps" for i
  proof -
    have "i < ?n" using psd(2) i by (auto simp: fs_def)
    moreover have "key i < 0"
      using sorted_prefix_negative [of key "sort_key key [0..<?n]", OF sorted_sort_key len] i by (simp only: ps_def)
    ultimately show ?thesis by (rule key0 [THEN iffD1])
  qed
  ultimately have ps: "int (length ps) = d - sum_list fs" "\<And>i. i \<in> set ps \<Longrightarrow> lts ! i * d mod ?g \<noteq> 0"
    using cnt(1) by simp_all
  note inc = fold_increments [OF psd, folded alloc]
  have "allocate_discount lts d ! i = lts ! i * d div ?g
      \<or> lts ! i * d mod ?g \<noteq> 0 \<and> allocate_discount lts d ! i = lts ! i * d div ?g + 1" if "i < ?n" for i
  proof -
    have "allocate_discount lts d ! i = fs ! i + (if i \<in> set ps then 1 else 0)" using inc that by (simp add: fs_def)
    then show ?thesis using ps(2) [of i] that by (simp add: fs_def)
  qed
  moreover have "length (allocate_discount lts d) = ?n" using inc by (simp add: fs_def)
  moreover have "sum_list (allocate_discount lts d) = d" using inc ps(1) by simp
  ultimately show ?thesis by blast
qed

lemma share_bounds:
  fixes t d g q r a :: int
  assumes e: "t * d = g * q + r" and r: "0 \<le> r" "r < g" and "0 < g" "0 < d" "d \<le> g" "0 \<le> t"
    and a: "a = q \<or> r \<noteq> 0 \<and> a = q + 1"
  shows "0 \<le> a \<and> a \<le> t \<and> \<bar>of_int a - of_int (t * d) / of_int g\<bar> < (1 :: rat)"
proof -
  have gp: "0 < (of_int g :: rat)" using assms(4) by simp
  have v: "(of_int (t * d) / of_int g :: rat) = of_int q + of_int r / of_int g"
    unfolding e using gp by (simp add: add_divide_distrib)
  have f: "0 \<le> (of_int r / of_int g :: rat)" "of_int r / of_int g < (1 :: rat)" using gp r by simp_all
  have "0 \<le> t * d" using assms(5,7) by simp
  then have "- g < g * q" using e r(2) by linarith
  then have "g * (-1) < g * q" by simp
  then have q: "0 \<le> q" using assms(4) by (simp only: mult_less_cancel_left_pos)
  have le: "g * q + r \<le> g * t" using mult_left_mono [OF assms(6,7)] e by (simp add: mult.commute)
  show ?thesis
  proof (cases "a = q")
    case True
    have "g * q \<le> g * t" using le r(1) by linarith
    then have "q \<le> t" using assms(4) by simp
    then show ?thesis using True q f unfolding v by simp
  next
    case False
    then have 2: "a = q + 1" "r \<noteq> 0" using a by simp_all
    then have "g * q < g * t" using le r(1) by linarith
    then have "q < t" using assms(4) by simp
    moreover have "0 < (of_int r / of_int g :: rat)" using gp r(1) 2(2) by simp
    ultimately show ?thesis using 2(1) q f unfolding v by simp
  qed
qed

text \<open>
  The shares of a discount. When the order's subtotal times the discount stays below \<open>2 ^ 53\<close>, the
  shares of the lines add up to exactly the discount, and a line's share is its exact share rounded down or
  up, so it is neither negative nor more than the line costs.
\<close>

theorem discount_shared_exactly:
  assumes "\<forall>lt\<in>set lts. 0 \<le> lt" "0 \<le> d" "d \<le> sum_list lts" "sum_list lts * d < 2 ^ 53"
  shows "length (allocate_discount lts d) = length lts \<and> sum_list (allocate_discount lts d) = d
    \<and> (\<forall>i<length lts. 0 \<le> allocate_discount lts d ! i \<and> allocate_discount lts d ! i \<le> lts ! i
        \<and> \<bar>of_int (allocate_discount lts d ! i) - of_int (lts ! i * d) / of_int (sum_list lts)\<bar> < (1 :: rat))"
proof (cases "d = 0")
  case True
  then show ?thesis using assms(1) by (simp add: allocate_discount_def sum_list_replicate)
next
  case False
  then have d: "0 < d" and g: "0 < sum_list lts" using assms(2,3) by simp_all
  let ?g = "sum_list lts" and ?a = "allocate_discount lts d"
  note alloc = allocate_exactly [OF bspec [OF assms(1)] g d assms(3,4)]
  have "0 \<le> ?a ! i \<and> ?a ! i \<le> lts ! i \<and> \<bar>of_int (?a ! i) - of_int (lts ! i * d) / of_int ?g\<bar> < (1 :: rat)"
    if i: "i < length lts" for i
  proof (rule share_bounds)
    show "lts ! i * d = ?g * (lts ! i * d div ?g) + lts ! i * d mod ?g" by simp
    show "0 \<le> lts ! i" using assms(1) i by simp
    show "?a ! i = lts ! i * d div ?g \<or> lts ! i * d mod ?g \<noteq> 0 \<and> ?a ! i = lts ! i * d div ?g + 1"
      using alloc i by simp
  qed (use d g assms(3) in simp_all)
  with alloc show ?thesis by simp
qed

theorem discount_shared_exactly_witness:
  "sum_list (allocate_discount [1000, 999, 1] 10) = 10 \<and> allocate_discount [1000, 999, 1] 10 ! 2 \<le> 1"
proof -
  have "\<forall>lt\<in>set [1000, 999, 1]. (0::int) \<le> lt" "(0::int) \<le> 10" "10 \<le> sum_list [1000, 999, 1::int]"
    "sum_list [1000, 999, 1] * 10 < (2::int) ^ 53" by simp_all
  note h = discount_shared_exactly [OF this]
  have "allocate_discount [1000, 999, 1] 10 ! 2 \<le> [1000, 999, 1] ! 2"
    using h [THEN conjunct2, THEN conjunct2, rule_format, of 2] by simp
  with h [THEN conjunct2, THEN conjunct1] show ?thesis by simp
qed

section \<open>Included tax\<close>

lemma line_tax_bounds:
  assumes "0 \<le> t" "t < 2 ^ 53" "0 < r" "r \<le> 1"
  shows "0 \<le> line_tax True r t \<and> line_tax True r t \<le> t"
proof -
  let ?T = "of_int t :: rat"
  have T: "0 \<le> ?T" "0 \<le> ?T * r" using assms by simp_all
  let ?a = "fl (?T * r)" and ?c = "fl (1 + r)"
  have a: "0 \<le> ?a" "?a \<le> 9 / 8 * (?T * r)" using fl_nonneg fl_coarse(1) T(2) by blast+
  have c: "7 / 8 * (1 + r) \<le> ?c" by (rule fl_coarse(2)) (use assms(3) in simp)
  then have cp: "0 < ?c" using assms(3) by simp
  have x: "line_tax True r t = py_round (fl (?a / ?c))"
    using assms(1,2) by (simp add: line_tax_def fquot_def fmul_def fadd_def float_of_int_exact)
  have ac: "0 \<le> ?a / ?c" using a(1) cp by simp
  have "r * 2 \<le> 1 + r" using assms(4) by simp
  then have "?T * (r * 2) \<le> ?T * (1 + r)" using T(1) by (rule mult_left_mono)
  then have "?a \<le> 9 / 14 * ?T * (7 / 8 * (1 + r))" using a(2) by (simp add: algebra_simps)
  also have "\<dots> \<le> 9 / 14 * ?T * ?c" using c T(1) by (intro mult_left_mono) simp_all
  finally have "?a / ?c \<le> 9 / 14 * ?T" using cp by (simp add: pos_divide_le_eq)
  then have "fl (?a / ?c) \<le> ?T" using fl_coarse(1) [OF ac] T(1) by linarith
  then show ?thesis using x py_round_le py_round_nonneg [OF fl_nonneg [OF ac]] by simp
qed

definition line_total :: "tax_line_input \<Rightarrow> int" where
  "line_total li = tl_unit_price_cents li * tl_quantity li"

lemma tax_rows_bounds:
  assumes r: "0 < r" "r \<le> 1"
    and zs: "\<forall>(i, li, s)\<in>set zs. 0 \<le> s \<and> s \<le> line_total li \<and> line_total li < 2 ^ 53"
  shows "0 \<le> sum_list (map tb_tax_cents (map (tax_row True r) zs))
    \<and> sum_list (map tb_tax_cents (map (tax_row True r) zs)) \<le> sum_list (map tb_taxable_amount_cents (map (tax_row True r) zs))
    \<and> sum_list (map tb_taxable_amount_cents (map (tax_row True r) zs))
        = sum_list (map (\<lambda>(i, li, s). if tl_taxable li then line_total li - s else 0) zs)"
  using zs
proof (induction zs)
  case (Cons z zs)
  obtain i li s where z: "z = (i, li, s)" by (cases z)
  have zb: "0 \<le> s" "s \<le> line_total li" "line_total li < 2 ^ 53" using Cons.prems z by simp_all
  have "0 \<le> tb_tax_cents (tax_row True r z) \<and> tb_tax_cents (tax_row True r z) \<le> tb_taxable_amount_cents (tax_row True r z)
      \<and> tb_taxable_amount_cents (tax_row True r z) = (if tl_taxable li then line_total li - s else 0)"
    using line_tax_bounds [of "line_total li - s" r] zb r by (simp add: z tax_row_def Let_def line_total_def)
  moreover have "0 \<le> sum_list (map tb_tax_cents (map (tax_row True r) zs))
    \<and> sum_list (map tb_tax_cents (map (tax_row True r) zs)) \<le> sum_list (map tb_taxable_amount_cents (map (tax_row True r) zs))
    \<and> sum_list (map tb_taxable_amount_cents (map (tax_row True r) zs))
        = sum_list (map (\<lambda>(i, li, s). if tl_taxable li then line_total li - s else 0) zs)"
    by (rule Cons.IH) (use Cons.prems in simp)
  ultimately show ?case by (simp only: list.map sum_list.Cons z prod.case) linarith
qed simp

lemma sum_shares:
  "length xs = length ys \<Longrightarrow> length ks = length xs \<Longrightarrow>
    sum_list (map (\<lambda>(i, x, s). f x - s) (zip ks (zip xs ys))) = sum_list (map f xs) - (sum_list ys :: int)"
proof (induction ks arbitrary: xs ys)
  case (Cons k ks)
  then obtain x xs' y ys' where "xs = x # xs'" "ys = y # ys'" by (metis length_Suc_conv)
  with Cons show ?case by simp
qed simp

text \<open>What is computed in floats is within a cent of the exact share of the price, \<open>taxable * rate / (1 + rate)\<close>.\<close>

lemma py_round_error: "\<bar>of_int (py_round x) - x\<bar> \<le> 1 / 2"
  unfolding py_round_def Let_def using floor_correct [of x] by (auto simp: abs_le_iff split: if_splits)

lemma fl_quotient_error:
  assumes "0 \<le> x" "0 < y"
  shows "\<bar>fl (fl x / fl y) - x / y\<bar> \<le> x / y * (5 / 2 ^ 53)"
proof -
  let ?e = "1 / 2 ^ 53 :: rat" and ?w = "x / y" and ?q = "fl x / fl y"
  have w: "0 \<le> ?w" using assms by simp
  have rel: "\<bar>fl z - z\<bar> \<le> z * ?e" if "0 \<le> z" for z using fl_error [OF that] by simp
  have fx: "x * (1 - ?e) \<le> fl x" "fl x \<le> x * (1 + ?e)" using rel [OF assms(1)] by (simp_all only: distrib_left right_diff_distrib abs_le_iff) linarith+
  have fy: "y * (1 - ?e) \<le> fl y" "fl y \<le> y * (1 + ?e)" using rel [of y] assms(2) by (simp_all only: distrib_left right_diff_distrib abs_le_iff) linarith+
  have yp: "0 < y * (1 - ?e)" "0 < fl y" using assms(2) fy(1) by (simp_all add: fl_pos_iff)
  have "?q \<le> x * (1 + ?e) / (y * (1 - ?e))"
    by (rule frac_le) (use fx fy yp assms fl_nonneg in simp_all)
  also have "\<dots> = ?w * ((1 + ?e) / (1 - ?e))" by (rule times_divide_times_eq [symmetric])
  also have "\<dots> \<le> ?w * (1 + 3 * ?e)" by (rule mult_left_mono [OF _ w]) simp
  finally have hi: "?q \<le> ?w * (1 + 3 * ?e)" .
  have "?w * (1 - 3 * ?e) \<le> ?w * ((1 - ?e) / (1 + ?e))" by (rule mult_left_mono [OF _ w]) simp
  also have "\<dots> = x * (1 - ?e) / (y * (1 + ?e))" by (rule times_divide_times_eq)
  also have "\<dots> \<le> ?q" by (rule frac_le) (use fx fy yp assms fl_nonneg in simp_all)
  finally have lo: "?w * (1 - 3 * ?e) \<le> ?q" .
  have q: "0 \<le> ?q" using fl_nonneg [OF assms(1)] yp(2) by simp
  have "?q * (1 + ?e) \<le> ?w * (1 + 3 * ?e) * (1 + ?e)" by (rule mult_right_mono [OF hi]) simp
  also have "\<dots> \<le> ?w * (1 + 5 * ?e)" unfolding mult.assoc by (rule mult_left_mono [OF _ w]) simp
  finally have up: "?q * (1 + ?e) \<le> ?w * (1 + 5 * ?e)" .
  have "?w * (1 - 5 * ?e) \<le> ?w * ((1 - 3 * ?e) * (1 - ?e))" by (rule mult_left_mono [OF _ w]) simp
  also have "\<dots> = ?w * (1 - 3 * ?e) * (1 - ?e)" by (simp only: mult.assoc)
  also have "\<dots> \<le> ?q * (1 - ?e)" by (rule mult_right_mono [OF lo]) simp
  finally have down: "?w * (1 - 5 * ?e) \<le> ?q * (1 - ?e)" .
  have "\<bar>fl ?q - ?q\<bar> \<le> ?q * ?e" using fl_error [OF q] by simp
  with up down show ?thesis by (simp add: abs_le_iff algebra_simps)
qed

lemma line_tax_near:
  assumes "0 \<le> t" "t < 2 ^ 50" "0 < r" "r \<le> 1"
  shows "\<bar>of_int (line_tax True r t) - of_int t * r / (1 + r)\<bar> < 1"
proof -
  let ?w = "of_int t * r / (1 + r)" and ?x = "fl (fl (of_int t * r) / fl (1 + r))"
  have x: "line_tax True r t = py_round ?x"
    using assms(1,2) by (simp add: line_tax_def fquot_def fmul_def fadd_def float_of_int_exact)
  have "\<bar>?x - ?w\<bar> \<le> ?w * (5 / 2 ^ 53)" by (rule fl_quotient_error) (use assms in simp_all)
  moreover have "of_int t \<le> (2 ^ 50 :: rat)" using assms(2) by (metis of_int_le_iff of_int_numeral of_int_power order_less_imp_le)
  then have "of_int t * (2 * r) \<le> 2 ^ 50 * (1 + r)" using assms by (intro mult_mono) simp_all
  then have "?w \<le> 2 ^ 49" using assms(3) by (simp add: pos_divide_le_eq)
  then have "?w * (5 / 2 ^ 53) \<le> 2 ^ 49 * (5 / 2 ^ 53)" by (rule mult_right_mono) simp
  moreover have "2 ^ 49 * (5 / 2 ^ 53) = (5 / 16 :: rat)" by simp
  ultimately show ?thesis using py_round_error [of ?x] unfolding x by linarith
qed

text \<open>One line: its share of the discount is taken off, and the tax inside what is left is within a cent of the exact one.\<close>

definition taxed_exactly :: "rat \<Rightarrow> tax_line_input \<Rightarrow> int \<Rightarrow> tax_line_breakdown \<Rightarrow> bool" where
  "taxed_exactly r li s b \<longleftrightarrow>
     tb_taxable_amount_cents b = (if tl_taxable li then line_total li - s else 0)
     \<and> 0 \<le> tb_tax_cents b \<and> tb_tax_cents b \<le> tb_taxable_amount_cents b
     \<and> \<bar>of_int (tb_tax_cents b) - of_int (tb_taxable_amount_cents b) * r / (1 + r)\<bar> < 1"

lemma tax_row_taxed:
  assumes "0 < r" "r \<le> 1" "0 \<le> s" "s \<le> line_total li" "line_total li < 2 ^ 50"
  shows "taxed_exactly r li s (tax_row True r (i, li, s))"
  using assms line_tax_bounds [of "line_total li - s" r] line_tax_near [of "line_total li - s" r]
  by (simp add: taxed_exactly_def tax_row_def Let_def line_total_def)

text \<open>
  C39: VAT is inside the price. With a rate of at most one and a subtotal whose product with the discount (and with eight) stays in
  the exact range of a float, an inclusive resolution adds nothing to the order. The discount is shared out to the cent, each line's
  share within a cent of its exact share and within what the line costs; a taxable line is taxed on what it costs
  less its share, the others on nothing; and a line's tax lies between zero and its taxable amount and
  within a cent of the exact tax inside that amount, taxable * rate / (1 + rate). The included tax is the sum over the lines, and
  when every line is taxable the taxable amounts add up to exactly the subtotal less the discount.
\<close>

theorem included_tax:
  assumes lines: "\<forall>li\<in>set lines. 0 \<le> line_total li" "0 \<le> d" "0 < sum_list (map line_total lines)"
    and small: "sum_list (map line_total lines) * max 8 (min d (sum_list (map line_total lines))) < 2 ^ 53"
    and rate: "resolve_rate pd ts dest \<le> 1"
    and res: "resolve_tax pd ts lines d dest True = t" "tx_breakdown t \<noteq> []"
  shows "tx_tax_to_add_cents t = 0 \<and> tx_included_tax_cents t = sum_list (map tb_tax_cents (tx_breakdown t))
    \<and> 0 \<le> tx_included_tax_cents t
    \<and> tx_included_tax_cents t \<le> sum_list (map tb_taxable_amount_cents (tx_breakdown t))
    \<and> sum_list (map tb_taxable_amount_cents (tx_breakdown t))
        \<le> sum_list (map line_total lines) - min d (sum_list (map line_total lines))
    \<and> (list_all tl_taxable lines \<longrightarrow> sum_list (map tb_taxable_amount_cents (tx_breakdown t))
        = sum_list (map line_total lines) - min d (sum_list (map line_total lines)))
    \<and> (\<exists>shares. length shares = length lines \<and> sum_list shares = min d (sum_list (map line_total lines))
        \<and> length (tx_breakdown t) = length lines
        \<and> (\<forall>i<length lines. 0 \<le> shares ! i \<and> shares ! i \<le> line_total (lines ! i)
            \<and> \<bar>of_int (shares ! i) - of_int (line_total (lines ! i) * min d (sum_list (map line_total lines)))
                  / of_int (sum_list (map line_total lines))\<bar> < (1 :: rat)
            \<and> taxed_exactly (resolve_rate pd ts dest) (lines ! i) (shares ! i) (tx_breakdown t ! i)))"
proof -
  let ?ts = "map line_total lines" and ?r = "resolve_rate pd ts dest"
  let ?g = "sum_list ?ts"
  let ?d = "min d ?g"
  have g: "0 < ?g" and gs: "?g < 2 ^ 50"
  proof -
    show "0 < ?g" by (rule lines(3))
    have "?g * 8 \<le> ?g * max 8 ?d" using lines(3) by (intro mult_left_mono) simp_all
    then show "?g < 2 ^ 50" using small by simp
  qed
  have nn: "\<forall>lt\<in>set ?ts. 0 \<le> lt" using lines(1) by simp
  have ds: "0 \<le> ?d" "?d \<le> ?g" using lines(2) g by simp_all
  have "?g * ?d \<le> ?g * max 8 ?d" using g by (intro mult_left_mono) simp_all
  then have "?g * ?d < 2 ^ 53" using small by simp
  note shares = discount_shared_exactly [OF nn ds this]
  let ?zs = "zip [0..<length lines] (zip lines (allocate_discount ?ts ?d))"
  have tot: "map (\<lambda>li. tl_unit_price_cents li * tl_quantity li) lines = ?ts" by (simp add: line_total_def)
  have rp: "0 < ?r" and t: "tx_tax_to_add_cents t = 0" "tx_breakdown t = map (tax_row True ?r) ?zs"
    "tx_included_tax_cents t = sum_list (map tb_tax_cents (tx_breakdown t))"
    using res lines(2) g by (auto simp: resolve_tax_def no_tax_def Let_def tot max_def split: if_splits)
  have in_range: "\<forall>(i, li, s)\<in>set ?zs. 0 \<le> s \<and> s \<le> line_total li \<and> line_total li < 2 ^ 53"
  proof (clarify del: conjI)
    fix i li s assume z: "(i, li, s) \<in> set ?zs"
    obtain k where k: "k < length ?ts" "li = lines ! k" "s = allocate_discount ?ts ?d ! k"
      using z by (auto simp: in_set_zip)
    have "line_total li \<le> ?g" by (rule member_le_sum_list) (use k lines(1) in auto)
    then show "0 \<le> s \<and> s \<le> line_total li \<and> line_total li < 2 ^ 53" using shares k gs by simp
  qed
  let ?rows = "map (tax_row True ?r) ?zs"
  note b = tax_rows_bounds [OF rp rate in_range]
  have whole: "sum_list (map (\<lambda>(i, li, s). line_total li - s) ?zs) = ?g - ?d"
    using shares by (simp add: sum_shares)
  have "sum_list (map (\<lambda>(i, li, s). if tl_taxable li then line_total li - s else 0) ?zs)
      \<le> sum_list (map (\<lambda>(i, li, s). line_total li - s) ?zs)"
    by (rule sum_list_mono) (use in_range in \<open>auto simp del: set_zip\<close>)
  moreover have "sum_list (map (\<lambda>(i, li, s). if tl_taxable li then line_total li - s else 0) ?zs)
      = sum_list (map (\<lambda>(i, li, s). line_total li - s) ?zs)" if "list_all tl_taxable lines"
  proof -
    have "map (\<lambda>(i, li, s). if tl_taxable li then line_total li - s else 0) ?zs = map (\<lambda>(i, li, s). line_total li - s) ?zs"
      using that by (intro map_cong refl) (auto simp: list_all_iff in_set_zip)
    then show ?thesis by (rule arg_cong)
  qed
  ultimately have le: "sum_list (map (\<lambda>(i, li, s). if tl_taxable li then line_total li - s else 0) ?zs) \<le> ?g - ?d"
    and eq: "list_all tl_taxable lines \<Longrightarrow>
      sum_list (map (\<lambda>(i, li, s). if tl_taxable li then line_total li - s else 0) ?zs) = ?g - ?d"
    unfolding whole by blast+
  have "sum_list (map tb_taxable_amount_cents ?rows) \<le> ?g - ?d" using b le by linarith
  moreover have "list_all tl_taxable lines \<longrightarrow> sum_list (map tb_taxable_amount_cents ?rows) = ?g - ?d"
    using b eq by linarith
  moreover have "\<exists>shares. length shares = length lines \<and> sum_list shares = ?d \<and> length ?rows = length lines
        \<and> (\<forall>i<length lines. 0 \<le> shares ! i \<and> shares ! i \<le> line_total (lines ! i)
            \<and> \<bar>of_int (shares ! i) - of_int (line_total (lines ! i) * ?d) / of_int ?g\<bar> < (1 :: rat)
            \<and> taxed_exactly ?r (lines ! i) (shares ! i) (?rows ! i))"
  proof (intro exI [of _ "allocate_discount ?ts ?d"] conjI allI impI)
    fix i assume i: "i < length lines"
    have row: "?rows ! i = tax_row True ?r (i, lines ! i, allocate_discount ?ts ?d ! i)"
      using i shares by simp
    have "line_total (lines ! i) \<le> ?g" by (rule member_le_sum_list) (use i lines(1) in auto)
    then show "taxed_exactly ?r (lines ! i) (allocate_discount ?ts ?d ! i) (?rows ! i)"
      unfolding row by (intro tax_row_taxed [OF rp rate]) (use shares i gs in simp_all)
  qed (use shares in simp_all)
  ultimately show ?thesis using b t(1) unfolding t(3) t(2) by blast
qed

theorem included_tax_witness:
  "tx_included_tax_cents (resolve_tax (7 / 50) [] [\<lparr>tl_unit_price_cents = 5700, tl_quantity = 2, tl_taxable = True\<rparr>] 400 None True)
    \<le> 11000 \<and> map tb_taxable_amount_cents (tx_breakdown (resolve_tax (7 / 50) []
      [\<lparr>tl_unit_price_cents = 5700, tl_quantity = 2, tl_taxable = True\<rparr>] 400 None True)) = [11000]"
proof -
  let ?l = "[\<lparr>tl_unit_price_cents = 5700, tl_quantity = 2, tl_taxable = True\<rparr>]"
  have ne: "tx_breakdown (resolve_tax (7 / 50) [] ?l 400 None True) \<noteq> []" by code_simp
  have m: "map tb_taxable_amount_cents (tx_breakdown (resolve_tax (7 / 50) [] ?l 400 None True)) = [11000]" by code_simp
  have r: "resolve_rate (7 / 50) [] None \<le> 1" by code_simp
  have l: "\<forall>li\<in>set ?l. 0 \<le> line_total li" "(0::int) \<le> 400" "0 < sum_list (map line_total ?l)"
    "sum_list (map line_total ?l) * max 8 (min 400 (sum_list (map line_total ?l))) < 2 ^ 53" by (simp_all add: line_total_def)
  note h = included_tax [OF l r refl ne]
  have "tx_included_tax_cents (resolve_tax (7 / 50) [] ?l 400 None True) \<le> sum_list [11000]"
    using h unfolding m by blast
  with m show ?thesis by simp
qed

end
