(* ===== verification/Cod_Rules.thy ===== *)
theory Cod_Rules
  imports Shipping
begin

text \<open>
  The rules of cash on delivery: \<open>src/application/services/cod_rules.py\<close> and the deposit policy of
  \<open>api/v1/schemas/tenant/settings.py\<close>. The stored blocks are kept parsed; \<open>None\<close> is a missing or damaged one.
\<close>

record order_conditions =
  oc_everyone :: bool
  oc_first_time :: bool
  oc_min_order_cents :: "int option"
  oc_high_risk :: bool
  oc_product_ids :: "uuid list"
  oc_category_ids :: "uuid list"

datatype prepaid_kind = PercentOffSubtotal | FixedOff | ShipsFree

record prepaid_rule =
  pp_enabled :: bool
  pp_kind :: prepaid_kind
  pp_percent :: int
  pp_amount_cents :: int
  pp_min_order_cents :: int

record cod_rules =
  cr_otp :: order_conditions
  cr_deposit :: order_conditions
  cr_prepaid :: prepaid_rule

definition everyone_conditions :: order_conditions where
  "everyone_conditions = \<lparr>oc_everyone = True, oc_first_time = False, oc_min_order_cents = None, oc_high_risk = False,
     oc_product_ids = [], oc_category_ids = []\<rparr>"

definition no_incentive_rule :: prepaid_rule where
  "no_incentive_rule = \<lparr>pp_enabled = False, pp_kind = PercentOffSubtotal, pp_percent = 5, pp_amount_cents = 0, pp_min_order_cents = 0\<rparr>"

definition get_cod_rules :: "cod_rules option \<Rightarrow> cod_rules" where
  "get_cod_rules stored = (case stored of
      None \<Rightarrow> \<lparr>cr_otp = everyone_conditions, cr_deposit = everyone_conditions, cr_prepaid = no_incentive_rule\<rparr>
    | Some r \<Rightarrow> r)"

definition prepaid_rule_ok :: "prepaid_rule \<Rightarrow> bool" where
  "prepaid_rule_ok r \<longleftrightarrow> 1 \<le> pp_percent r \<and> pp_percent r \<le> 50 \<and> 0 \<le> pp_amount_cents r \<and> 0 \<le> pp_min_order_cents r"

record order_facts =
  of_is_cod :: bool
  of_subtotal_cents :: int
  of_first_time :: bool
  of_high_risk :: bool
  of_product_ids :: "uuid set"
  of_category_ids :: "uuid set"

definition applies :: "order_conditions \<Rightarrow> order_facts \<Rightarrow> bool" where
  "applies c f \<longleftrightarrow>
     (if \<not> of_is_cod f then False
      else if oc_everyone c then True
      else (oc_first_time c \<and> of_first_time f)
        \<or> (case oc_min_order_cents c of None \<Rightarrow> False | Some n \<Rightarrow> n \<le> of_subtotal_cents f)
        \<or> (oc_high_risk c \<and> of_high_risk f)
        \<or> list_ex (\<lambda>p. p \<in> of_product_ids f) (oc_product_ids c)
        \<or> list_ex (\<lambda>k. k \<in> of_category_ids f) (oc_category_ids c))"

record incentive =
  in_discount_cents :: int
  in_free_shipping :: bool

definition no_incentive :: incentive where
  "no_incentive = \<lparr>in_discount_cents = 0, in_free_shipping = False\<rparr>"

definition prepaid_incentive :: "prepaid_rule \<Rightarrow> bool \<Rightarrow> int \<Rightarrow> int \<Rightarrow> incentive" where
  "prepaid_incentive r is_cod subtotal discount =
     (if \<not> pp_enabled r \<or> is_cod \<or> subtotal < pp_min_order_cents r then no_incentive
      else if pp_kind r = ShipsFree then no_incentive\<lparr>in_free_shipping := True\<rparr>
      else (let room = max 0 (subtotal - discount);
                n = (if pp_kind r = PercentOffSubtotal then room * pp_percent r div 100 else pp_amount_cents r)
            in no_incentive\<lparr>in_discount_cents := min n room\<rparr>))"

lemma prepaid_incentive_bounds:
  assumes "prepaid_rule_ok r" "d \<le> s"
  shows "0 \<le> in_discount_cents (prepaid_incentive r c s d) \<and> d + in_discount_cents (prepaid_incentive r c s d) \<le> s"
  using assms by (auto simp: prepaid_incentive_def prepaid_rule_ok_def no_incentive_def Let_def pos_imp_zdiv_nonneg_iff)

section \<open>The deposit\<close>

record deposit_policy =
  dy_enabled :: bool
  dy_percent_mode :: bool
  dy_amount_cents :: int
  dy_percent :: int
  dy_min_order_cents :: int
  dy_ttl_minutes :: int
  dy_auto_refund_on_cancel :: bool
  dy_allowed_gateways :: "string list"

definition deposit_fields_ok :: "deposit_policy \<Rightarrow> bool" where
  "deposit_fields_ok p \<longleftrightarrow> 0 \<le> dy_amount_cents p \<and> 1 \<le> dy_percent p \<and> dy_percent p \<le> 100 \<and> 0 \<le> dy_min_order_cents p
     \<and> 5 \<le> dy_ttl_minutes p \<and> dy_ttl_minutes p \<le> 1440"

definition mk_deposit_policy :: "deposit_policy \<Rightarrow> deposit_policy result" where
  "mk_deposit_policy p =
     (if \<not> deposit_fields_ok p then Inl (ValidationError ''CodDepositPolicy'')
      else if dy_enabled p \<and> dy_allowed_gateways p = [] then Inl (ValidationError ''At least one allowed_gateway is required'')
      else if dy_enabled p \<and> \<not> dy_percent_mode p \<and> dy_amount_cents p \<le> 0
      then Inl (ValidationError ''amount_cents must be greater than 0'')
      else Inr (p\<lparr>dy_allowed_gateways := remdups_first (dy_allowed_gateways p)\<rparr>))"

definition deposit_due_cents :: "deposit_policy option \<Rightarrow> int \<Rightarrow> int" where
  "deposit_due_cents policy owed = (case policy of
      None \<Rightarrow> 0
    | Some p \<Rightarrow>
        if \<not> dy_enabled p \<or> owed \<le> 0 then 0
        else if owed < dy_min_order_cents p then 0
        else (let due = (if dy_percent_mode p
                then (owed * (if dy_percent p = 0 then 50 else dy_percent p) + 50) div 100 else dy_amount_cents p)
              in min due owed))"

lemma deposit_bounds:
  assumes "case policy of None \<Rightarrow> True | Some p \<Rightarrow> deposit_fields_ok p" "0 \<le> owed"
  shows "0 \<le> deposit_due_cents policy owed \<and> deposit_due_cents policy owed \<le> owed"
  using assms by (cases policy) (auto simp: deposit_due_cents_def deposit_fields_ok_def Let_def pos_imp_zdiv_nonneg_iff min_def)

end
