(* ===== verification/Cart_Discounts.thy ===== *)
theory Cart_Discounts
  imports Promotion_Resolver Discount_Calculator Coupon_Use_Cases Cart Tables
begin

text \<open>
  The discounts of a cart, \<open>src/application/use_cases/promotions/calculate_cart_discounts.py\<close>, and the snapshot
  of them an order keeps (\<open>_build_applied_promotions\<close> of \<open>api/v1/routes/storefront/checkout.py\<close>). The Arabic
  titles, which are display text, are left out.
\<close>

section \<open>The use case\<close>

record applied_promotion =
  av_id :: uuid
  av_title :: string
  av_amount :: int

record cart_discounts =
  cd_code_discount_cents :: int
  cd_automatic_discount_cents :: int
  cd_free_shipping :: bool
  cd_applied_promotion_ids :: "uuid list"
  cd_applied_promotions :: "applied_promotion list"
  cd_rejected :: "rejection list"

definition promo_title :: "promotion \<Rightarrow> string" where
  "promo_title p = (if pr_name p = [] then ''Discount'' else pr_name p)"

text \<open>The visitor's context with the conversions of the promotion, which are counted where a cap is set.\<close>

definition capped_context :: "promotion_db \<Rightarrow> bool \<Rightarrow> eligibility_context \<Rightarrow> promotion \<Rightarrow> eligibility_context" where
  "capped_context db has_events ctx p = ctx\<lparr>
     ec_convert_count_total :=
       (if has_events \<and> pr_usage_limit_total p \<noteq> None then count_conversions db (pr_id p) else 0),
     ec_convert_count_per_customer := (case ec_customer_id ctx of
         Some c \<Rightarrow> if has_events \<and> pr_usage_limit_per_customer p \<noteq> None
            then count_conversions_for_customer db (pr_id p) c else 0
       | None \<Rightarrow> 0)\<rparr>"

text \<open>Whether an eligible promotion takes part: an automatic one does, a code does when it was typed in.\<close>

definition takes_part :: "coupon_table \<Rightarrow> string list \<Rightarrow> promotion \<Rightarrow> bool" where
  "takes_part coupons codes p =
     (if pr_surface p = SfAutomatic then True
      else if pr_surface p = SfDiscountCode
      then (case pr_coupon_id p of
              None \<Rightarrow> False
            | Some cid \<Rightarrow> (case coupon_get_by_id cid coupons of
                None \<Rightarrow> False | Some c \<Rightarrow> upper (cp_code c) \<in> set (map (\<lambda>s. upper (strip s)) codes)))
      else False)"

definition collect_promotion ::
    "promotion_db \<Rightarrow> coupon_table \<Rightarrow> bool \<Rightarrow> string list \<Rightarrow> eligibility_context \<Rightarrow> instant \<Rightarrow> promotion
     \<Rightarrow> promotion list \<Rightarrow> promotion list result" where
  "collect_promotion db coupons has_events codes ctx now p eligible =
     (if pr_status p \<noteq> PsActive then Inr eligible
      else rbind (is_eligible p (targets_for db (pr_id p)) (capped_context db has_events ctx p) now) (\<lambda>verdict.
        Inr (if verdict = Eligible \<and> takes_part coupons codes p then eligible @ [p] else eligible)))"

definition cart_context :: "cart_item list \<Rightarrow> uuid option \<Rightarrow> discount_context" where
  "cart_context items customer =
     (let lines = map (\<lambda>ci. \<lparr>cl_product_id = ci_product_id ci, cl_quantity = ci_quantity ci,
            cl_unit_price_cents = ci_unit_price ci, cl_category_id = ci_category_id ci\<rparr>) items
      in \<lparr>dc_subtotal_cents = sum_list (map (\<lambda>l. cl_unit_price_cents l * cl_quantity l) lines),
          dc_line_items = lines, dc_shipping_cents = 0, dc_customer_id = customer\<rparr>)"

text \<open>The amount a breakdown keeps for a promotion.\<close>

definition amount_in :: "(uuid \<times> int) list \<Rightarrow> uuid \<Rightarrow> int" where
  "amount_in al k = (case map_of al k of None \<Rightarrow> 0 | Some n \<Rightarrow> n)"

definition named_snapshot :: "promotion list \<Rightarrow> discount_total \<Rightarrow> applied_promotion list" where
  "named_snapshot eligible t = List.map_filter (\<lambda>pid.
     case lookup_by pr_id pid eligible of
       None \<Rightarrow> None
     | Some p \<Rightarrow> if pr_surface p \<noteq> SfAutomatic then None
         else Some \<lparr>av_id = pid, av_title = promo_title p,
           av_amount = amount_in (to_by_promotion t) pid\<rparr>) (to_applied t)"

definition calculate_cart_discounts ::
    "promotion_db \<Rightarrow> coupon_table \<Rightarrow> bool \<Rightarrow> uuid \<Rightarrow> instant \<Rightarrow> cart_item list \<Rightarrow> uuid option \<Rightarrow> string list
     \<Rightarrow> eligibility_context \<Rightarrow> cart_discounts result" where
  "calculate_cart_discounts db coupons has_events store now items customer codes ctx =
     rbind (foldM (collect_promotion db coupons has_events codes (ctx\<lparr>ec_dismissed := {}\<rparr>) now)
              (list_active_for_storefront db store now False) []) (\<lambda>eligible.
     rbind (calculate_total eligible (cart_context items customer)
              (Some (\<lambda>i. if i \<in> set (map pr_id eligible) then Some (targets_for db i) else None))) (\<lambda>t.
     Inr \<lparr>cd_code_discount_cents = to_code_discount_cents t,
          cd_automatic_discount_cents = to_automatic_discount_cents t,
          cd_free_shipping = to_free_shipping t, cd_applied_promotion_ids = to_applied t,
          cd_applied_promotions = named_snapshot eligible t, cd_rejected = to_rejected t\<rparr>))"

section \<open>The snapshot on the order\<close>

definition promotion_get_by_id :: "promotion_db \<Rightarrow> uuid \<Rightarrow> uuid \<Rightarrow> promotion option" where
  "promotion_get_by_id db store pid = List.find (\<lambda>p. pr_id p = pid \<and> pr_store_id p = store) (db_promotions db)"

definition get_by_coupon_id :: "promotion_db \<Rightarrow> uuid \<Rightarrow> uuid \<Rightarrow> promotion option" where
  "get_by_coupon_id db store cid = List.find (\<lambda>p. pr_store_id p = store \<and> pr_coupon_id p = Some cid) (db_promotions db)"

text \<open>\<open>max(d, key=...)\<close>: the first key with the largest value.\<close>

fun biggest_key :: "uuid \<times> int \<Rightarrow> (uuid \<times> int) list \<Rightarrow> uuid" where
  "biggest_key best [] = fst best"
| "biggest_key best (kv # kvs) = biggest_key (if snd best < snd kv then kv else best) kvs"

definition scale_amounts :: "(uuid \<times> int) list \<Rightarrow> int \<Rightarrow> (uuid \<times> int) list" where
  "scale_amounts by_promotion wanted =
     (let engine_total = sum_list (map snd by_promotion) in
      if engine_total \<le> 0 then []
      else if engine_total = wanted then by_promotion
      else (let scaled = map (\<lambda>(k, v). (k, v * wanted div engine_total)) by_promotion;
                remainder = wanted - sum_list (map snd scaled)
            in case scaled of
                 [] \<Rightarrow> []
               | kv # kvs \<Rightarrow> if remainder = 0 then scaled
                   else (let k0 = biggest_key kv kvs in map (\<lambda>(k, v). (k, if k = k0 then v + remainder else v)) scaled)))"

definition build_applied_promotions ::
    "promotion_db \<Rightarrow> uuid \<Rightarrow> uuid list \<Rightarrow> int \<Rightarrow> (uuid \<times> int) list \<Rightarrow> applied_promotion list" where
  "build_applied_promotions db store ids wanted by_promotion =
     (let scaled = scale_amounts by_promotion wanted in
      map (\<lambda>(i, pid). \<lparr>av_id = pid,
          av_title = (case promotion_get_by_id db store pid of None \<Rightarrow> ''Discount'' | Some p \<Rightarrow> promo_title p),
          av_amount = (if scaled \<noteq> [] then amount_in scaled pid
            else if i = 0 then wanted else 0)\<rparr>) (zip [0..<length ids] ids))"

section \<open>What takes part\<close>

definition considered ::
    "promotion_db \<Rightarrow> coupon_table \<Rightarrow> bool \<Rightarrow> string list \<Rightarrow> eligibility_context \<Rightarrow> instant \<Rightarrow> promotion \<Rightarrow> bool" where
  "considered db coupons has_events codes ctx now p \<longleftrightarrow> pr_status p = PsActive
     \<and> is_eligible p (targets_for db (pr_id p)) (capped_context db has_events ctx p) now = Inr Eligible
     \<and> takes_part coupons codes p"

lemma collect_step:
  assumes "collect_promotion db coupons has_events codes ctx now p acc = Inr acc'"
  shows "acc' = acc @ (if considered db coupons has_events codes ctx now p then [p] else [])"
  using assms by (auto simp: collect_promotion_def considered_def rbind_Inr_iff split: if_splits)

lemma collect_loop:
  assumes "foldM (collect_promotion db coupons has_events codes ctx now) ps acc = Inr out"
  shows "out = acc @ filter (considered db coupons has_events codes ctx now) ps"
  using assms
proof (induction ps arbitrary: acc)
  case (Cons p ps)
  obtain a where a: "collect_promotion db coupons has_events codes ctx now p acc = Inr a"
    "foldM (collect_promotion db coupons has_events codes ctx now) ps a = Inr out"
    using Cons.prems by (auto simp: rbind_Inr_iff)
  show ?case using Cons.IH [OF a(2)] collect_step [OF a(1)] by simp
qed simp

lemma storefront_distinct:
  assumes "distinct (map pr_id (db_promotions db))"
  shows "distinct (map pr_id (list_active_for_storefront db store now drafts))"
proof -
  have "inj_on pr_id (set (db_promotions db))" "distinct (db_promotions db)" using assms by (simp_all add: distinct_map)
  then show ?thesis
    by (auto simp: list_active_for_storefront_def distinct_map intro: inj_on_subset)
qed

lemma calculate_cart_discounts_Inr:
  assumes "calculate_cart_discounts db coupons has_events store now items customer codes ctx = Inr c"
  obtains t and eligible :: "promotion list" where
    "eligible = filter (considered db coupons has_events codes (ctx\<lparr>ec_dismissed := {}\<rparr>) now)
       (list_active_for_storefront db store now False)"
    "calculate_total eligible (cart_context items customer)
       (Some (\<lambda>i. if i \<in> set (map pr_id eligible) then Some (targets_for db i) else None)) = Inr t"
    "cd_code_discount_cents c = to_code_discount_cents t"
    "cd_automatic_discount_cents c = to_automatic_discount_cents t"
    "cd_applied_promotion_ids c = to_applied t" "cd_applied_promotions c = named_snapshot eligible t"
    "cd_free_shipping c = to_free_shipping t"
  using assms by (auto simp: calculate_cart_discounts_def rbind_Inr_iff dest: collect_loop)

lemma dc_subtotal_cart_context:
  "dc_subtotal_cents (cart_context items customer) = sum_list (map (\<lambda>ci. ci_unit_price ci * ci_quantity ci) items)"
  by (simp add: cart_context_def Let_def comp_def)

lemma cart_discounts_bounds:
  assumes "calculate_cart_discounts db coupons has_events store now items customer codes ctx = Inr c"
    and "distinct (map pr_id (db_promotions db))"
    and "0 \<le> sum_list (map (\<lambda>ci. ci_unit_price ci * ci_quantity ci) items)"
  shows "0 \<le> cd_code_discount_cents c \<and> 0 \<le> cd_automatic_discount_cents c
    \<and> cd_code_discount_cents c + cd_automatic_discount_cents c
        \<le> sum_list (map (\<lambda>ci. ci_unit_price ci * ci_quantity ci) items)"
proof (rule calculate_cart_discounts_Inr [OF assms(1)])
  fix t and eligible :: "promotion list"
  assume e: "eligible = filter (considered db coupons has_events codes (ctx\<lparr>ec_dismissed := {}\<rparr>) now)
       (list_active_for_storefront db store now False)"
    and t: "calculate_total eligible (cart_context items customer)
       (Some (\<lambda>i. if i \<in> set (map pr_id eligible) then Some (targets_for db i) else None)) = Inr t"
    and c: "cd_code_discount_cents c = to_code_discount_cents t"
      "cd_automatic_discount_cents c = to_automatic_discount_cents t"
  have "distinct (map pr_id eligible)" unfolding e using storefront_distinct [OF assms(2)] by (rule distinct_map_filter)
  from calculate_total_bounds [OF t _ this] assms(3) c show ?thesis
    by (simp add: dc_subtotal_cart_context total_discount_cents_def)
qed

section \<open>The amounts on the snapshot\<close>

lemma amount_in_append: "amount_in (al @ bl) k = (if k \<in> fst ` set al then amount_in al k else amount_in bl k)"
  by (auto simp: amount_in_def map_add_def map_of_eq_None_iff split: option.splits)
    (metis map_of_eq_None_iff option.distinct(1))+

lemma sum_amounts:
  assumes "distinct (map fst al)" "distinct ks" "fst ` set al \<subseteq> set ks"
  shows "sum_list (map (amount_in al) ks) = sum_list (map snd al)"
  using assms
proof (induction al arbitrary: ks)
  case Nil
  then show ?case by (simp add: amount_in_def)
next
  case (Cons kv al)
  obtain k v where kv: "kv = (k, v)" by fastforce
  have k: "k \<notin> fst ` set al" "k \<in> set ks" using Cons.prems kv by auto
  obtain xs ys where ks: "ks = xs @ k # ys" using split_list [OF k(2)] by blast
  have nk: "k \<notin> set xs" "k \<notin> set ys" using Cons.prems(2) ks by auto
  have "sum_list (map (amount_in al) (xs @ ys)) = sum_list (map snd al)"
    using Cons.prems kv ks k(1) by (intro Cons.IH) auto
  moreover have "map (amount_in (kv # al)) xs = map (amount_in al) xs" "map (amount_in (kv # al)) ys = map (amount_in al) ys"
    "amount_in (kv # al) k = v"
    using nk kv by (auto simp: amount_in_def)
  ultimately show ?case using ks kv by (simp del: map_eq_conv)
qed

lemma ball_in_subset: "\<forall>x\<in>B. P x \<Longrightarrow> A \<subseteq> B \<Longrightarrow> \<forall>x\<in>A. P x" by blast

lemma map_filter_append: "List.map_filter f (xs @ ys) = List.map_filter f xs @ List.map_filter f ys"
  by (simp add: List.map_filter_def)

lemma map_filter_none: "\<forall>x\<in>set xs. f x = None \<Longrightarrow> List.map_filter f xs = []"
  by (induction xs) (simp_all add: map_filter_simps)

lemma map_filter_some: "\<forall>x\<in>set xs. f x = Some (g x) \<Longrightarrow> List.map_filter f xs = map g xs"
  by (induction xs) (simp_all add: map_filter_simps)

lemma named_snapshot_sums:
  assumes "calculate_total ps ctx tm = Inr t" "0 \<le> dc_subtotal_cents ctx" "distinct (map pr_id ps)"
  shows "sum_list (map av_amount (named_snapshot ps t)) = to_automatic_discount_cents t
    \<and> distinct (map av_id (named_snapshot ps t))"
proof (rule calculate_total_stages [OF assms])
  fix codes autos kept ap and co :: code_outcome
  assume s: "codes = filter (\<lambda>p. pr_discount_rule p \<noteq> None \<and> pr_surface p = SfDiscountCode) ps"
    "autos = filter (\<lambda>p. pr_discount_rule p \<noteq> None \<and> pr_surface p = SfAutomatic) ps"
    "set (co_applied co) \<subseteq> pr_id ` set codes" "pr_id ` set kept \<subseteq> pr_id ` set autos"
    "pr_id ` set codes \<inter> pr_id ` set autos = {}"
    "to_code_discount_cents t = co_discount co" "sum_list (map snd (to_by_promotion t)) = total_discount_cents t"
    "distinct (map fst (to_by_promotion t))" "fst ` set (to_by_promotion t) \<subseteq> set (to_applied t)"
    "to_applied t = co_applied co @ ap" "distinct ap"
    and by_co: "map fst (co_by_promotion co) = co_applied co" "sum_list (map snd (co_by_promotion co)) = co_discount co"
    and new: "\<exists>xs. to_by_promotion t = co_by_promotion co @ xs \<and> fst ` set xs \<subseteq> pr_id ` set autos"
  fix rj assume ap: "set ap \<union> rj = pr_id ` set kept"
  obtain xs where xs: "to_by_promotion t = co_by_promotion co @ xs" "fst ` set xs \<subseteq> pr_id ` set autos"
    using new by (elim exE conjE) (rule that)
  have found: "lookup_by pr_id (pr_id p) ps = Some p" if "p \<in> set ps" for p
    using that by (simp add: lookup_by_Some [OF assms(3)])
  let ?f = "\<lambda>pid. case lookup_by pr_id pid ps of None \<Rightarrow> None
      | Some p \<Rightarrow> if pr_surface p \<noteq> SfAutomatic then None
         else Some \<lparr>av_id = pid, av_title = promo_title p, av_amount = amount_in (to_by_promotion t) pid\<rparr>"
  let ?g = "\<lambda>pid. \<lparr>av_id = pid, av_title = promo_title (the (lookup_by pr_id pid ps)),
      av_amount = amount_in (to_by_promotion t) pid\<rparr>"
  have "\<forall>i\<in>pr_id ` set codes. ?f i = None" using s(1) found by auto
  then have "List.map_filter ?f (co_applied co) = []" using s(3) by (intro map_filter_none) (rule ball_in_subset)
  moreover have auto: "set ap \<subseteq> pr_id ` set autos" using ap s(4) by blast
  have "\<forall>i\<in>pr_id ` set autos. ?f i = Some (?g i)" using s(2) found by auto
  then have "List.map_filter ?f ap = map ?g ap" using auto by (intro map_filter_some) (rule ball_in_subset)
  ultimately have snap: "named_snapshot ps t = map ?g ap"
    by (simp add: named_snapshot_def s(10) map_filter_append)
  have k: "fst ` set (co_by_promotion co) = set (co_applied co)" using by_co(1) by (metis list.set_map)
  have "fst ` set xs \<subseteq> set ap"
  proof
    fix i assume i: "i \<in> fst ` set xs"
    then have "i \<in> set (co_applied co) \<union> set ap" using s(9,10) xs(1) by (auto simp: image_Un)
    moreover have "i \<notin> set (co_applied co)" using i xs(2) s(3,5) by blast
    ultimately show "i \<in> set ap" by blast
  qed
  moreover have "distinct (map fst xs)" using s(8) xs(1) by simp
  ultimately have "sum_list (map (amount_in xs) ap) = sum_list (map snd xs)" using s(11) by (intro sum_amounts)
  moreover have "amount_in (to_by_promotion t) i = amount_in xs i" if "i \<in> set ap" for i
  proof -
    have "i \<notin> set (co_applied co)" using that auto s(3,5) by blast
    then show ?thesis using k by (simp add: xs(1) amount_in_append)
  qed
  then have "map (amount_in (to_by_promotion t)) ap = map (amount_in xs) ap" by simp
  ultimately have "sum_list (map av_amount (named_snapshot ps t)) = sum_list (map snd xs)"
    by (simp add: snap comp_def cong: map_cong)
  also have "\<dots> = to_automatic_discount_cents t"
    using s(6,7) xs(1) by_co(2) by (simp add: total_discount_cents_def)
  finally show ?thesis using s(11) by (simp add: snap comp_def)
qed

lemma biggest_key_in: "biggest_key kv kvs \<in> fst ` set (kv # kvs)"
proof (induction kvs arbitrary: kv)
  case (Cons x kvs)
  show ?case using Cons.IH [of "if snd kv < snd x then x else kv"] by (cases "snd kv < snd x") auto
qed simp

lemma sum_bump:
  assumes "distinct (map fst al)" "k \<in> fst ` set al"
  shows "sum_list (map snd (map (\<lambda>(i, v). (i, if i = k then v + r else v)) al)) = sum_list (map snd al) + (r::int)"
  using assms
proof (induction al)
  case (Cons kv al)
  have same: "map snd (map (\<lambda>(i, v). (i, if i = k then v + r else v)) bl) = map snd bl"
    if "k \<notin> fst ` set bl" for bl :: "('a \<times> int) list"
    using that by (induction bl) auto
  obtain i v where "kv = (i, v)" by fastforce
  then show ?case using Cons same [of al] by (cases "i = k") (auto simp del: map_map)
qed simp

lemma floor_shares:
  fixes w e :: int
  assumes "0 < e"
  shows "sum_list (map (\<lambda>v. v * w div e) vs) * e \<le> sum_list vs * w"
proof (induction vs)
  case (Cons v vs)
  have "v * w div e * e \<le> v * w" using assms by (simp add: minus_mod_eq_div_mult [symmetric])
  then show ?case using Cons by (simp add: distrib_right)
qed simp

text \<open>The scaled breakdown keeps the promotions and adds up to what was charged.\<close>

lemma scale_amounts_spec:
  assumes "scale_amounts al w \<noteq> []" "distinct (map fst al)"
  shows "map fst (scale_amounts al w) = map fst al \<and> sum_list (map snd (scale_amounts al w)) = w"
proof -
  define e where "e = sum_list (map snd al)"
  define sc where "sc = map (\<lambda>(k, v). (k, v * w div e)) al"
  have e: "0 < e" using assms(1) by (auto simp: scale_amounts_def e_def Let_def split: if_splits)
  have keys: "map fst sc = map fst al" by (simp add: sc_def comp_def case_prod_beta)
  show ?thesis
  proof (cases "e = w \<or> sc = []")
    case True
    then show ?thesis using assms(1) e keys
      by (auto simp: scale_amounts_def e_def [symmetric] sc_def [symmetric] Let_def)
  next
    case False
    then obtain kv kvs where sc: "sc = kv # kvs" by (cases sc) auto
    let ?r = "w - sum_list (map snd sc)"
    have "scale_amounts al w = (if ?r = 0 then sc
        else map (\<lambda>(k, v). (k, if k = biggest_key kv kvs then v + ?r else v)) sc)"
      using e False by (simp only: scale_amounts_def e_def [symmetric] sc_def [symmetric] Let_def sc list.case) simp
    moreover have "distinct (map fst sc)" using keys assms(2) by simp
    then have "sum_list (map snd (map (\<lambda>(k, v). (k, if k = biggest_key kv kvs then v + ?r else v)) sc)) = w"
      using sum_bump [of sc "biggest_key kv kvs" ?r] biggest_key_in [of kv kvs] sc by simp
    ultimately show ?thesis using keys by (auto simp: comp_def case_prod_beta)
  qed
qed

lemma sum_first: "sum_list (map (\<lambda>x. if fst x = (0::nat) then w else 0) (zip [n..<n + length xs] xs)) = (if n = 0 \<and> xs \<noteq> [] then w else (0::int))"
proof (induction xs arbitrary: n)
  case (Cons x xs)
  have "[n..<n + length (x # xs)] = n # [Suc n..<Suc n + length xs]" by (subst upt_conv_Cons) simp_all
  then show ?case using Cons.IH [of "Suc n"] by simp
qed simp

lemma snapshot_total:
  assumes "distinct (map fst al)" "map fst al = ids" "ids \<noteq> []"
  shows "map av_id (build_applied_promotions db store ids w al) = ids
    \<and> sum_list (map av_amount (build_applied_promotions db store ids w al)) = w"
proof -
  define sc where "sc = scale_amounts al w"
  have ids: "map av_id (build_applied_promotions db store ids w al) = ids"
    by (simp add: build_applied_promotions_def Let_def comp_def case_prod_beta map_snd_zip flip: snd_def)
  show ?thesis
  proof (cases "sc = []")
    case True
    then show ?thesis using ids assms(3) sum_first [of w 0 ids]
      by (simp add: build_applied_promotions_def sc_def [symmetric] Let_def comp_def case_prod_beta)
  next
    case False
    then have sc: "map fst sc = ids" "sum_list (map snd sc) = w"
      using scale_amounts_spec [of al w] assms by (simp_all add: sc_def)
    have "map (\<lambda>x. amount_in sc (snd x)) (zip [0..<length ids] ids) = map (amount_in sc) (map snd (zip [0..<length ids] ids))"
      by (simp only: map_map comp_def)
    also have "\<dots> = map (amount_in sc) ids" by (simp only: map_snd_zip length_upt minus_nat.diff_0)
    finally have "map av_amount (build_applied_promotions db store ids w al) = map (amount_in sc) ids"
      using False by (simp add: build_applied_promotions_def sc_def [symmetric] Let_def comp_def case_prod_beta)
    moreover have "sum_list (map (amount_in sc) ids) = sum_list (map snd sc)"
      using sc(1) assms(1,2) by (intro sum_amounts) (simp_all flip: set_map)
    ultimately show ?thesis using ids sc(2) by simp
  qed
qed

lemma applied_ids:
  assumes "calculate_total ps ctx tm = Inr t" "0 \<le> dc_subtotal_cents ctx" "distinct (map pr_id ps)"
  shows "set (to_applied t) \<subseteq> pr_id ` set ps"
proof (rule calculate_total_stages [OF assms])
  fix codes autos kept ap rj and co :: code_outcome
  assume s: "codes = filter (\<lambda>p. pr_discount_rule p \<noteq> None \<and> pr_surface p = SfDiscountCode) ps"
    "autos = filter (\<lambda>p. pr_discount_rule p \<noteq> None \<and> pr_surface p = SfAutomatic) ps"
    "set (co_applied co) \<subseteq> pr_id ` set codes" "pr_id ` set kept \<subseteq> pr_id ` set autos"
    "to_applied t = co_applied co @ ap" "set ap \<union> rj = pr_id ` set kept"
  have "pr_id ` set codes \<subseteq> pr_id ` set ps" by (rule filter_ids_sub) (rule s(1))
  moreover have "pr_id ` set autos \<subseteq> pr_id ` set ps" by (rule filter_ids_sub) (rule s(2))
  moreover have "set ap \<subseteq> pr_id ` set kept" unfolding s(6) [symmetric] by (rule Un_upper1)
  ultimately show ?thesis unfolding s(5) set_append using s(3,4) by (intro Un_least) (rule order_trans, assumption+)+
qed

lemma listed_for_storefront:
  "p \<in> set (list_active_for_storefront db store now False) \<longleftrightarrow> p \<in> set (db_promotions db) \<and> pr_store_id p = store
     \<and> pr_status p = PsActive \<and> (case pr_starts_at p of None \<Rightarrow> True | Some s \<Rightarrow> s \<le> now)
     \<and> (case pr_ends_at p of None \<Rightarrow> True | Some e \<Rightarrow> now < e)"
  by (auto simp: list_active_for_storefront_def)

section \<open>Properties\<close>

definition demo_sale :: promotion_db where
  "demo_sale = demo_promotion_db\<lparr>db_promotions :=
     [(demo_promotion 1 PsActive)\<lparr>pr_discount_rule := Some (demo_rule KFixed)\<rparr>,
      (demo_promotion 2 PsActive)\<lparr>pr_priority := 9, pr_discount_rule := Some (demo_rule KPercentage)\<rparr>]\<rparr>"

definition demo_bag :: "cart_item list" where
  "demo_bag = [\<lparr>ci_product_id = 7, ci_product_name = ''Shirt'', ci_variant_id = None, ci_variant_name = None,
     ci_sku = None, ci_quantity = 3, ci_unit_price = 100, ci_image_url = None, ci_weight = None,
     ci_category_id = None, ci_properties = []\<rparr>]"

definition demo_saving :: cart_discounts where
  "demo_saving = \<lparr>cd_code_discount_cents = 0, cd_automatic_discount_cents = 210, cd_free_shipping = False,
     cd_applied_promotion_ids = [2, 1],
     cd_applied_promotions = [\<lparr>av_id = 2, av_title = ''Sale'', av_amount = 60\<rparr>, \<lparr>av_id = 1, av_title = ''Sale'', av_amount = 150\<rparr>],
     cd_rejected = []\<rparr>"

lemma demo_saving: "calculate_cart_discounts demo_sale [] True 2 15 demo_bag None [] demo_visitor = Inr demo_saving"
  by code_simp

text \<open>
  The discounts of a cart are bounded and itemised. Where the promotions have different identifiers,
  the discount of the code and the automatic discounts are non-negative and together within the subtotal of the
  cart, the named amounts of the automatic promotions add up to exactly the automatic discount, and every applied
  promotion is one of the store, active and inside its window, that the checker finds eligible and that is
  automatic or belongs to a code that was typed in.
\<close>

theorem cart_discounts_sound:
  assumes "calculate_cart_discounts db coupons has_events store now items customer codes ctx = Inr c"
    and "distinct (map pr_id (db_promotions db))"
    and "0 \<le> sum_list (map (\<lambda>ci. ci_unit_price ci * ci_quantity ci) items)"
  shows "0 \<le> cd_code_discount_cents c \<and> 0 \<le> cd_automatic_discount_cents c
    \<and> cd_code_discount_cents c + cd_automatic_discount_cents c
        \<le> sum_list (map (\<lambda>ci. ci_unit_price ci * ci_quantity ci) items)
    \<and> sum_list (map av_amount (cd_applied_promotions c)) = cd_automatic_discount_cents c
    \<and> distinct (map av_id (cd_applied_promotions c))
    \<and> (\<forall>i\<in>set (cd_applied_promotion_ids c). \<exists>p\<in>set (db_promotions db). pr_id p = i \<and> pr_store_id p = store
        \<and> (case pr_ends_at p of None \<Rightarrow> True | Some e \<Rightarrow> now < e)
        \<and> considered db coupons has_events codes (ctx\<lparr>ec_dismissed := {}\<rparr>) now p)"
proof (rule calculate_cart_discounts_Inr [OF assms(1)])
  fix t and eligible :: "promotion list"
  assume e: "eligible = filter (considered db coupons has_events codes (ctx\<lparr>ec_dismissed := {}\<rparr>) now)
       (list_active_for_storefront db store now False)"
    and t: "calculate_total eligible (cart_context items customer)
       (Some (\<lambda>i. if i \<in> set (map pr_id eligible) then Some (targets_for db i) else None)) = Inr t"
    and c: "cd_applied_promotion_ids c = to_applied t" "cd_applied_promotions c = named_snapshot eligible t"
      "cd_automatic_discount_cents c = to_automatic_discount_cents t"
  have d: "distinct (map pr_id eligible)" unfolding e using storefront_distinct [OF assms(2)] by (rule distinct_map_filter)
  have s: "0 \<le> dc_subtotal_cents (cart_context items customer)" using assms(3) by (simp add: dc_subtotal_cart_context)
  have "\<exists>p\<in>set (db_promotions db). pr_id p = i \<and> pr_store_id p = store
        \<and> (case pr_ends_at p of None \<Rightarrow> True | Some e \<Rightarrow> now < e)
        \<and> considered db coupons has_events codes (ctx\<lparr>ec_dismissed := {}\<rparr>) now p" if i: "i \<in> set (to_applied t)" for i
  proof -
    obtain p where "p \<in> set eligible" "pr_id p = i" using subsetD [OF applied_ids [OF t s d] i] by (rule imageE) (rule that, assumption, rule sym)
    then show ?thesis unfolding e by (intro bexI [of _ p]) (simp_all add: listed_for_storefront)
  qed
  then show ?thesis using cart_discounts_bounds [OF assms] named_snapshot_sums [OF t s d] c by simp
qed

theorem cart_discounts_sound_witness:
  "sum_list (map av_amount (cd_applied_promotions demo_saving)) = 210 \<and> cd_automatic_discount_cents demo_saving \<le> 300
    \<and> (\<exists>p\<in>set (db_promotions demo_sale). pr_id p = 1 \<and> pr_status p = PsActive)"
proof -
  have "distinct (map pr_id (db_promotions demo_sale))" by (simp add: demo_sale_def demo_promotion_def)
  from cart_discounts_sound [OF demo_saving this]
  have "sum_list (map av_amount (cd_applied_promotions demo_saving)) = cd_automatic_discount_cents demo_saving
    \<and> cd_code_discount_cents demo_saving + cd_automatic_discount_cents demo_saving \<le> 300
    \<and> (\<forall>i\<in>set (cd_applied_promotion_ids demo_saving). \<exists>p\<in>set (db_promotions demo_sale). pr_id p = i \<and> pr_status p = PsActive)"
    by (simp add: demo_bag_def considered_def) blast
  then show ?thesis by (simp add: demo_saving_def)
qed

text \<open>
  The snapshot of an order adds up. Built from a breakdown with one amount per promotion, the snapshot names
  these promotions in order, and its amounts add up to exactly the discount charged, also where checkout charged less
  than the breakdown came to, and where the breakdown is empty of savings.
\<close>

theorem order_snapshot_adds_up:
  assumes "distinct (map fst al)" "al \<noteq> []"
  shows "map av_id (build_applied_promotions db store (map fst al) w al) = map fst al
    \<and> sum_list (map av_amount (build_applied_promotions db store (map fst al) w al)) = w"
  using snapshot_total [OF assms(1) refl] assms(2) by simp

theorem order_snapshot_adds_up_witness:
  "map av_amount (build_applied_promotions demo_sale 1 [7, 8, 9] 100 [(7, 50), (8, 70), (9, 33)]) = [32, 47, 21]
    \<and> (32::int) + 47 + 21 = 100"
  using order_snapshot_adds_up [of "[(7, 50), (8, 70), (9, 33)]" demo_sale 1 100]
  by (simp add: build_applied_promotions_def scale_amounts_def Let_def amount_in_def)

end
