(* ===== verification/Checkout_Lines.thy ===== *)
theory Checkout_Lines
  imports Order_Desk Py_Float Money
begin

text \<open>
  The lines of a storefront checkout (\<open>src/api/v1/routes/storefront/checkout.py\<close>): every submitted line is looked up
  in the catalogue, checked against stock, priced by the server and described, and the stock of all lines is debited
  before the order is created. A product or a variant is the part of its row that \<open>Stock\<close> keeps, joined by its
  identifier with the part the catalogue keeps (\<open>core/entities/product.py\<close>, \<open>core/entities/variant.py\<close>).
\<close>

section \<open>The catalogue\<close>

datatype product_status = ProductDraft | ProductActive | ProductUnlisted | ProductArchived | ProductOutOfStock

definition purchasable_statuses :: "product_status list" where
  "purchasable_statuses = [ProductActive, ProductUnlisted]"

datatype product_type = Physical | Digital | Service

definition product_type_value :: "product_type \<Rightarrow> string" where
  "product_type_value k = (case k of Physical \<Rightarrow> ''physical'' | Digital \<Rightarrow> ''digital'' | Service \<Rightarrow> ''service'')"

record catalog_product =
  ct_id :: uuid
  ct_store_id :: uuid
  ct_name :: string
  ct_price :: money
  ct_sku :: "string option"
  ct_product_type :: product_type
  ct_status :: product_status
  ct_weight :: "rat option"
  ct_images :: "string list"
  ct_category_id :: "uuid option"
  ct_requires_shipping :: bool
  ct_tax_exempt :: bool
  ct_sale_price :: "money option"
  ct_sale_starts_at :: "instant option"
  ct_sale_ends_at :: "instant option"

definition sale_is_active :: "instant \<Rightarrow> catalog_product \<Rightarrow> bool" where
  "sale_is_active now p =
     (if ct_sale_price p = None then False
      else if (case ct_sale_starts_at p of None \<Rightarrow> False | Some s \<Rightarrow> now < s) then False
      else if (case ct_sale_ends_at p of None \<Rightarrow> False | Some e \<Rightarrow> e < now) then False
      else True)"

definition effective_price :: "instant \<Rightarrow> catalog_product \<Rightarrow> money" where
  "effective_price now p = (case ct_sale_price p of
      Some m \<Rightarrow> if sale_is_active now p then m else ct_price p
    | None \<Rightarrow> ct_price p)"

record catalog_variant =
  cv_id :: uuid
  cv_price :: money
  cv_sku :: "string option"
  cv_weight :: "rat option"
  cv_image_url :: "string option"
  cv_fulfillment_type :: product_type
  cv_requires_shipping :: bool

record catalog =
  cg_products :: "catalog_product list"
  cg_variants :: "catalog_variant list"

definition catalog_find :: "catalog \<Rightarrow> stock_db \<Rightarrow> uuid \<Rightarrow> (catalog_product \<times> product_row) option" where
  "catalog_find cg db pid = (case (lookup_by ct_id pid (cg_products cg), lookup_by pd_id pid (sk_products db)) of
      (Some p, Some r) \<Rightarrow> Some (p, r) | _ \<Rightarrow> None)"

definition variant_find :: "catalog \<Rightarrow> stock_db \<Rightarrow> uuid \<Rightarrow> (catalog_variant \<times> variant_row) option" where
  "variant_find cg db vid = (case (lookup_by cv_id vid (cg_variants cg), lookup_by vr_id vid (sk_variants db)) of
      (Some v, Some r) \<Rightarrow> Some (v, r) | _ \<Rightarrow> None)"

section \<open>One submitted line\<close>

record checkout_line =
  xl_product_id :: uuid
  xl_variant_id :: "uuid option"
  xl_quantity :: int
  xl_selections :: "(string \<times> string) list"

definition checkout_line_ok :: "checkout_line \<Rightarrow> bool" where
  "checkout_line_ok l \<longleftrightarrow> 1 \<le> xl_quantity l \<and> xl_quantity l \<le> 999"

text \<open>A line as checkout knows it: what goes on the order, and how its stock is to be debited.\<close>

record priced_line =
  pl_line :: order_line_item
  pl_selections :: "(string \<times> string) list option"
  pl_allow_negative :: bool
  pl_track_inventory :: bool
  pl_category_id :: "uuid option"
  pl_tax_exempt :: bool
  pl_requires_shipping :: bool
  pl_weight_g :: int

definition refuse_stock :: "'a result" where
  "refuse_stock = Inl (HTTPException ''Insufficient stock'')"

text \<open>The check before anything is written: the variant, then the combination, then the product.\<close>

definition stock_precheck :: "product_row \<Rightarrow> variant_row option \<Rightarrow> combo option \<Rightarrow> int \<Rightarrow> unit result" where
  "stock_precheck p v c quantity =
     (case v of
        Some r \<Rightarrow> if \<not> vr_track_inventory r then Inr ()
            else if \<not> pd_continue_selling p \<and> vr_inventory_quantity r < quantity then refuse_stock else Inr ()
      | None \<Rightarrow> (case c of
            Some x \<Rightarrow> if cb_enabled x = JBool False
                then Inl (HTTPException ''not available in the selected options'')
                else if \<not> pd_continue_selling p \<and> combo_stock x < quantity then refuse_stock else Inr ()
          | None \<Rightarrow> if \<not> pd_continue_selling p \<and> pd_quantity p < quantity then refuse_stock else Inr ()))"

text \<open>What the merchant is shown of the options: the customer's pick, else the options of the variant.\<close>

definition display_options :: "checkout_line \<Rightarrow> variant_row option \<Rightarrow> (string \<times> string) list" where
  "display_options l v =
     (if xl_selections l \<noteq> [] then xl_selections l
      else (case v of None \<Rightarrow> [] | Some r \<Rightarrow> filter (\<lambda>(k, x). x \<noteq> []) (vr_option_values r)))"

definition variant_name_of :: "(string \<times> string) list \<Rightarrow> string option" where
  "variant_name_of opts = (if opts = [] then None else Some (join_comma (map (\<lambda>(k, x). k @ '': '' @ x) opts)))"

definition line_properties :: "(string \<times> string) list \<Rightarrow> product_type \<Rightarrow> bool \<Rightarrow> (string \<times> json) list" where
  "line_properties opts kind ships =
     dict_put (''_requires_shipping'', JBool ships)
       (dict_put (''_fulfillment_type'', JStr (product_type_value kind)) (map (\<lambda>(k, x). (k, JStr x)) opts))"

definition unit_price_of :: "instant \<Rightarrow> catalog_product \<Rightarrow> catalog_variant option \<Rightarrow> int" where
  "unit_price_of now p v = (case v of Some cv \<Rightarrow> money_cents (cv_price cv) | None \<Rightarrow> money_cents (effective_price now p))"

text \<open>Grams of one unit: kilograms are an exact decimal on a product and a float on a variant.\<close>

definition unit_weight_g :: "catalog_product \<Rightarrow> catalog_variant option \<Rightarrow> int" where
  "unit_weight_g p v = (case v of
      Some cv \<Rightarrow> (case cv_weight cv of None \<Rightarrow> 0 | Some w \<Rightarrow> trunc_rat (fmul w 1000))
    | None \<Rightarrow> (case ct_weight p of None \<Rightarrow> 0 | Some w \<Rightarrow> trunc_rat (w * 1000)))"

definition selected_variant ::
    "catalog \<Rightarrow> stock_db \<Rightarrow> checkout_line \<Rightarrow> (catalog_variant \<times> variant_row) option result" where
  "selected_variant cg db l = (case xl_variant_id l of
      None \<Rightarrow> Inr None
    | Some vid \<Rightarrow> (case variant_find cg db vid of
        None \<Rightarrow> Inl (HTTPException ''Variant does not belong to product'')
      | Some (cv, r) \<Rightarrow> if vr_product_id r \<noteq> xl_product_id l
          then Inl (HTTPException ''Variant does not belong to product'') else Inr (Some (cv, r))))"

definition order_line_of ::
    "instant \<Rightarrow> checkout_line \<Rightarrow> catalog_product \<Rightarrow> (catalog_variant \<times> variant_row) option \<Rightarrow> order_line_item" where
  "order_line_of now l p v =
     (let cv = map_option fst v; opts = display_options l (map_option snd v); price = unit_price_of now p cv;
          ships = (case cv of Some x \<Rightarrow> cv_requires_shipping x | None \<Rightarrow> ct_requires_shipping p);
          kind = (case cv of Some x \<Rightarrow> cv_fulfillment_type x | None \<Rightarrow> ct_product_type p)
      in \<lparr>ol_product_id = ct_id p, ol_product_name = ct_name p, ol_variant_id = xl_variant_id l,
          ol_variant_name = variant_name_of opts,
          ol_sku = (case cv of Some x \<Rightarrow> cv_sku x | None \<Rightarrow> ct_sku p), ol_quantity = xl_quantity l,
          ol_unit_price = price, ol_total_price = price * xl_quantity l, ol_weight = None,
          ol_properties = line_properties opts kind ships\<rparr>)"

definition price_line :: "instant \<Rightarrow> uuid \<Rightarrow> catalog \<Rightarrow> stock_db \<Rightarrow> checkout_line \<Rightarrow> priced_line result" where
  "price_line now store cg db l = (case catalog_find cg db (xl_product_id l) of
      None \<Rightarrow> Inl (HTTPException ''Product not found'')
    | Some (p, row) \<Rightarrow>
        if ct_store_id p \<noteq> store then Inl (HTTPException ''Product does not belong to this store'')
        else if ct_status p \<notin> set purchasable_statuses then Inl (HTTPException ''Product is not available'')
        else rbind (selected_variant cg db l) (\<lambda>v.
          let vr = map_option snd v; cv = map_option fst v; c = find_combo (norm_options (xl_selections l)) row
          in rbind (stock_precheck row vr c (xl_quantity l)) (\<lambda>_.
          let ships = (case cv of Some x \<Rightarrow> cv_requires_shipping x | None \<Rightarrow> ct_requires_shipping p)
          in Inr \<lparr>pl_line = order_line_of now l p v,
               pl_selections = (if c = None then None else Some (norm_options (xl_selections l))),
               pl_allow_negative = pd_continue_selling row,
               pl_track_inventory = (case vr of None \<Rightarrow> True | Some r \<Rightarrow> vr_track_inventory r),
               pl_category_id = ct_category_id p, pl_tax_exempt = ct_tax_exempt p, pl_requires_shipping = ships,
               pl_weight_g = (if ships then unit_weight_g p cv * xl_quantity l else 0)\<rparr>)))"

fun price_lines :: "instant \<Rightarrow> uuid \<Rightarrow> catalog \<Rightarrow> stock_db \<Rightarrow> checkout_line list \<Rightarrow> priced_line list result" where
  "price_lines now store cg db [] = Inr []"
| "price_lines now store cg db (l # ls) =
     rbind (price_line now store cg db l) (\<lambda>pl. rbind (price_lines now store cg db ls) (\<lambda>pls. Inr (pl # pls)))"

definition lines_subtotal :: "priced_line list \<Rightarrow> int" where
  "lines_subtotal pls = foldl (\<lambda>s pl. s + ol_unit_price (pl_line pl) * ol_quantity (pl_line pl)) 0 pls"

definition cart_weight_g :: "priced_line list \<Rightarrow> int" where
  "cart_weight_g pls = sum_list (map pl_weight_g pls)"

section \<open>The debit\<close>

text \<open>A store without a tenant owns no product row: its debits are refused.\<close>

definition debit_for :: "uuid option \<Rightarrow> priced_line \<Rightarrow> stock_db \<Rightarrow> line_outcome \<times> stock_db" where
  "debit_for tenant pl db = (case tenant of
      None \<Rightarrow> (LineRefused NotFound, db)
    | Some t \<Rightarrow> debit_order_line t (ol_product_id (pl_line pl)) (ol_variant_id (pl_line pl))
        (case pl_selections pl of None \<Rightarrow> [] | Some s \<Rightarrow> s) (ol_quantity (pl_line pl)) (pl_allow_negative pl) db)"

fun debit_lines :: "uuid option \<Rightarrow> priced_line list \<Rightarrow> stock_db \<Rightarrow> (manifest_line list \<times> stock_db) result" where
  "debit_lines tenant [] db = Inr ([], db)"
| "debit_lines tenant (pl # pls) db =
     (if \<not> pl_track_inventory pl then debit_lines tenant pls db
      else (case debit_for tenant pl db of
          (LineRefused _, _) \<Rightarrow> refuse_stock
        | (LineMoved e, db') \<Rightarrow> rbind (debit_lines tenant pls db') (\<lambda>(es, db''). Inr (e # es, db''))))"

section \<open>Lines as they are priced\<close>

lemma selected_variant_Inr:
  assumes "selected_variant cg db l = Inr v"
  shows "case v of None \<Rightarrow> xl_variant_id l = None
    | Some (cv, r) \<Rightarrow> (\<exists>vid. xl_variant_id l = Some vid \<and> variant_find cg db vid = Some (cv, r) \<and> vr_product_id r = xl_product_id l)"
proof (cases "xl_variant_id l")
  case None
  then show ?thesis using assms by (simp add: selected_variant_def)
next
  case (Some vid)
  then obtain cv r where "variant_find cg db vid = Some (cv, r)" using assms
    by (cases "variant_find cg db vid") (auto simp: selected_variant_def)
  moreover from this have "v = Some (cv, r)" "vr_product_id r = xl_product_id l"
    using assms Some by (simp_all add: selected_variant_def split: if_splits)
  ultimately show ?thesis using Some by simp
qed

lemma order_line_of_simps [simp]:
  "ol_product_id (order_line_of now l p v) = ct_id p" "ol_quantity (order_line_of now l p v) = xl_quantity l"
  "ol_unit_price (order_line_of now l p v) = unit_price_of now p (map_option fst v)"
  "ol_total_price (order_line_of now l p v) = unit_price_of now p (map_option fst v) * xl_quantity l"
  "ol_variant_id (order_line_of now l p v) = xl_variant_id l"
  by (simp_all add: order_line_of_def Let_def)

lemma price_line_Inr:
  assumes "price_line now store cg db l = Inr pl"
  obtains p row v where
    "catalog_find cg db (xl_product_id l) = Some (p, row)" "ct_store_id p = store" "ct_status p \<in> set purchasable_statuses"
    "selected_variant cg db l = Inr v" "pl_line pl = order_line_of now l p v"
    "stock_precheck row (map_option snd v) (find_combo (norm_options (xl_selections l)) row) (xl_quantity l) = Inr ()"
    "pl_track_inventory pl = (case map_option snd v of None \<Rightarrow> True | Some r \<Rightarrow> vr_track_inventory r)"
    "pl_allow_negative pl = pd_continue_selling row" "pl_category_id pl = ct_category_id p"
    "pl_requires_shipping pl = (case map_option fst v of Some x \<Rightarrow> cv_requires_shipping x | None \<Rightarrow> ct_requires_shipping p)"
  using assms by (auto simp: price_line_def rbind_Inr_iff Let_def split: option.splits if_splits prod.splits)

text \<open>What a line is charged: the catalogue's price of the product or variant named, at the time of the order.\<close>

definition catalog_charge :: "instant \<Rightarrow> catalog \<Rightarrow> stock_db \<Rightarrow> checkout_line \<Rightarrow> int option" where
  "catalog_charge now cg db l = (case catalog_find cg db (xl_product_id l) of
      None \<Rightarrow> None
    | Some (p, _) \<Rightarrow> (case xl_variant_id l of
        None \<Rightarrow> Some (money_cents (effective_price now p))
      | Some vid \<Rightarrow> map_option (\<lambda>(cv, _). money_cents (cv_price cv)) (variant_find cg db vid)))"

lemma catalog_find_id: "catalog_find cg db pid = Some (p, row) \<Longrightarrow> ct_id p = pid \<and> p \<in> set (cg_products cg)"
  by (auto simp: catalog_find_def dest: lookup_by_in split: option.splits)

lemma price_line_charge:
  assumes "price_line now store cg db l = Inr pl"
  shows "ol_product_id (pl_line pl) = xl_product_id l \<and> ol_quantity (pl_line pl) = xl_quantity l
    \<and> ol_variant_id (pl_line pl) = xl_variant_id l
    \<and> catalog_charge now cg db l = Some (ol_unit_price (pl_line pl))
    \<and> ol_total_price (pl_line pl) = ol_unit_price (pl_line pl) * ol_quantity (pl_line pl)
    \<and> (\<exists>p\<in>set (cg_products cg). ct_id p = xl_product_id l \<and> ct_store_id p = store
        \<and> ct_status p \<in> {ProductActive, ProductUnlisted})"
proof (rule price_line_Inr [OF assms])
  fix p row v
  assume f: "catalog_find cg db (xl_product_id l) = Some (p, row)" "ct_store_id p = store"
      "ct_status p \<in> set purchasable_statuses"
    and v: "selected_variant cg db l = Inr v" and l: "pl_line pl = order_line_of now l p v"
  have "catalog_charge now cg db l = Some (unit_price_of now p (map_option fst v))"
    using f(1) selected_variant_Inr [OF v] by (cases v) (auto simp: catalog_charge_def unit_price_of_def)
  then show ?thesis using f catalog_find_id [OF f(1)] by (auto simp: l purchasable_statuses_def)
qed

lemma price_lines_all: "price_lines now store cg db ls = Inr pls \<longleftrightarrow> list_all2 (\<lambda>l pl. price_line now store cg db l = Inr pl) ls pls"
  by (induction ls arbitrary: pls) (auto simp: rbind_Inr_iff list_all2_Cons1)

lemma lines_subtotal_sum: "lines_subtotal pls = sum_list (map (\<lambda>pl. ol_unit_price (pl_line pl) * ol_quantity (pl_line pl)) pls)"
proof -
  have "foldl (\<lambda>s pl. s + f pl) a xs = a + sum_list (map f xs)" for f :: "priced_line \<Rightarrow> int" and a xs
    by (induction xs arbitrary: a) simp_all
  then show ?thesis by (simp add: lines_subtotal_def)
qed

lemma lines_subtotal_nonneg: "list_all (\<lambda>pl. order_line_ok (pl_line pl)) pls \<Longrightarrow> 0 \<le> lines_subtotal pls"
proof -
  assume ok: "list_all (\<lambda>pl. order_line_ok (pl_line pl)) pls"
  have "0 \<le> ol_unit_price (pl_line pl) * ol_quantity (pl_line pl)" if "pl \<in> set pls" for pl
    using bspec [OF ok [unfolded list_all_iff] that] by (simp add: order_line_ok_def)
  then show ?thesis unfolding lines_subtotal_sum by (intro sum_list_nonneg) auto
qed

section \<open>What a debit takes\<close>

lemma debit_lines_effect:
  assumes "debit_lines (Some t) pls db = Inr (es, db')" "keys_distinct db" "list_all (\<lambda>pl. order_line_ok (pl_line pl)) pls"
  shows "debited_by t es db db'"
  using assms
proof (induction pls arbitrary: db es db')
  case (Cons pl pls)
  have oks: "list_all (\<lambda>pl. order_line_ok (pl_line pl)) pls" and q: "0 < ol_quantity (pl_line pl)"
    using Cons.prems(3) by (simp, simp add: order_line_ok_def)
  show ?case
  proof (cases "pl_track_inventory pl")
    case False
    then show ?thesis using Cons.IH [OF _ Cons.prems(2) oks] Cons.prems(1) by simp
  next
    case True
    then obtain e d1 es1 where d: "debit_for (Some t) pl db = (LineMoved e, d1)"
      and rest: "debit_lines (Some t) pls d1 = Inr (es1, db')" "es = e # es1"
      using Cons.prems(1) by (auto simp: rbind_Inr_iff refuse_stock_def split: prod.splits line_outcome.splits)
    note d = d [unfolded debit_for_def option.case]
    from debited_Cons [OF d Cons.prems(2) q Cons.IH [OF rest(1) debited_keys [OF d Cons.prems(2)] oks]]
    show ?thesis by (simp add: rest(2))
  qed
qed simp

text \<open>The entries are the tracked lines, in their order.\<close>

lemma debit_line_entry:
  assumes "debit_order_line t pid vid sel q neg db = (LineMoved e, d1)" "0 < q"
  shows "ml_product_id e = pid \<and> ml_quantity e = q \<and> ml_selections e = sel"
  using assms by (auto simp: debit_order_line_def apply_line_delta_def Let_def split: option.splits if_splits)

lemma debit_lines_entries:
  assumes "debit_lines tenant pls db = Inr (es, db')" "list_all (\<lambda>pl. order_line_ok (pl_line pl)) pls"
  shows "map (\<lambda>e. (ml_product_id e, ml_quantity e)) es
    = map (\<lambda>pl. (ol_product_id (pl_line pl), ol_quantity (pl_line pl))) (filter pl_track_inventory pls)"
  using assms
proof (induction pls arbitrary: db es db')
  case (Cons pl pls)
  have oks: "list_all (\<lambda>pl. order_line_ok (pl_line pl)) pls" and q: "0 < ol_quantity (pl_line pl)"
    using Cons.prems(2) by (simp, simp add: order_line_ok_def)
  show ?case
  proof (cases "pl_track_inventory pl")
    case False
    then show ?thesis using Cons.IH [OF _ oks] Cons.prems(1) by simp
  next
    case True
    then obtain e d1 es1 where d: "debit_for tenant pl db = (LineMoved e, d1)"
      and rest: "debit_lines tenant pls d1 = Inr (es1, db')" "es = e # es1"
      using Cons.prems(1) by (auto simp: rbind_Inr_iff refuse_stock_def split: prod.splits line_outcome.splits)
    obtain t where t: "tenant = Some t" using d by (cases tenant) (simp_all add: debit_for_def)
    note e = debit_line_entry [OF d [unfolded debit_for_def t option.case] q]
    show ?thesis using Cons.IH [OF rest(1) oks] e True by (simp add: rest(2))
  qed
qed simp

lemma entries_units:
  "map (\<lambda>e. (ml_product_id e, ml_quantity e)) es = map (\<lambda>x. (f x, g x)) xs
    \<Longrightarrow> product_units es p = sum_list (map g (filter (\<lambda>x. f x = p) xs))"
  by (induction es arbitrary: xs) (auto simp: Cons_eq_map_conv)

end
