(* ===== verification/Checkout.thy ===== *)
theory Checkout
  imports Checkout_Lines Cart_Discounts Tax Cod_Rules
begin

text \<open>
  The placing of an order from the storefront, the \<open>checkout\<close> handler of
  \<open>src/api/v1/routes/storefront/checkout.py\<close> from the pricing of the lines to the publication of the order, over the
  tables of orders, stock, coupons and customers. Promotions, shipping rates, the catalogue and the settings of
  the store are read. A refusal at any point leaves all tables as they were, as the request is one transaction.

  Arguments are: the answer of the fraud check, the verification state of the visitor, the note on the cart, the
  attribution and tracking values, the quotes of the partner carriers and the VAT rate of the market. The replay
  of idempotent requests, the sending and checking of verification codes, the creation of guest customers, saved
  cards, pickup locations and the validation of gift cards come before this part;
  the calls to payment gateways, notifications, counters and funnel events come after it.
\<close>

section \<open>Requests\<close>

record checkout_store =
  ks_id :: uuid
  ks_tenant_id :: "uuid option"
  ks_currency :: string
  ks_tax_settings :: tax_settings
  ks_market_rate :: rat
  ks_restrict_to_zones :: bool
  ks_cod_rules :: "cod_rules option"
  ks_deposit_policy :: "deposit_policy option"
  ks_cod_shield :: bool
  ks_cod_trust_enabled :: bool

record checkout_request =
  kr_lines :: "checkout_line list"
  kr_shipping_address :: order_address
  kr_billing_address :: "order_address option"
  kr_payment_method :: "string option"
  kr_shipping_method :: "string option"
  kr_rate_id :: "uuid option"
  kr_cod_requested :: bool
  kr_deposit_gateway :: "string option"
  kr_customer_notes :: "string option"
  kr_coupon_code :: "string option"
  kr_session_fingerprint :: "string option"

record customer_row =
  cu_id :: uuid
  cu_store_id :: uuid
  cu_tags :: "string list"
  cu_has_account :: bool
  cu_is_verified :: bool
  cu_total_orders :: int
  cu_total_spent :: int

record trust_decision =
  td_allowed :: bool
  td_high_risk :: bool
  td_hold :: bool

text \<open>The effective tracking values of the visit.\<close>

record visit =
  vs_utm_source :: "string option"
  vs_utm_medium :: "string option"
  vs_utm_campaign :: "string option"
  vs_utm_term :: "string option"
  vs_utm_content :: "string option"
  vs_campaign_id :: "uuid option"
  vs_attribution :: "(string \<times> json) list option"
  vs_first_touch_at :: "instant option"
  vs_metadata :: metadata

record checkout_env =
  ke_now :: instant
  ke_order_id :: uuid
  ke_order_number :: string
  ke_customer_id :: uuid
  ke_is_guest :: bool
  ke_trust :: trust_decision
  ke_otp_pending :: bool
  ke_cart_note :: "string option"
  ke_visit :: visit

record shop_front =
  sf_catalog :: catalog
  sf_promotions :: promotion_db
  sf_shipping :: shipping_db
  sf_resolver :: resolver

record checkout_state =
  ck_desk :: order_desk
  ck_coupons :: coupon_table
  ck_customers :: "customer_row list"

definition checkout_request_ok :: "checkout_request \<Rightarrow> bool" where
  "checkout_request_ok q \<longleftrightarrow> kr_lines q \<noteq> [] \<and> list_all checkout_line_ok (kr_lines q)"

definition is_cod_request :: "checkout_request \<Rightarrow> bool" where
  "is_cod_request q \<longleftrightarrow> \<not> truthy_str (kr_payment_method q) \<or> kr_payment_method q = Some ''cod''"

section \<open>Discounts\<close>

record discount_outcome =
  ds_discount :: int
  ds_coupon_code :: "string option"
  ds_coupon_id :: "uuid option"
  ds_campaign_id :: "uuid option"
  ds_free_shipping :: bool
  ds_applied :: "applied_promotion list"
  ds_coupons :: coupon_table

text \<open>The coupon computes in whole units of the currency: amounts go in divided by 100 and come back times 100.\<close>

definition coupon_lines :: "priced_line list \<Rightarrow> bogo_line list" where
  "coupon_lines pls = map (\<lambda>pl. \<lparr>bl_product_id = ol_product_id (pl_line pl),
     bl_unit_price = of_int (ol_unit_price (pl_line pl)) / 100, bl_quantity = ol_quantity (pl_line pl)\<rparr>) pls"

definition linked_promotion :: "checkout_store \<Rightarrow> shop_front \<Rightarrow> checkout_request \<Rightarrow> coupon_table \<Rightarrow> promotion option" where
  "linked_promotion s front q coupons = (case kr_coupon_code q of
      None \<Rightarrow> None
    | Some code \<Rightarrow> if code = [] then None
        else (case coupon_get_by_code (ks_id s) code coupons of
            None \<Rightarrow> None | Some c \<Rightarrow> get_by_coupon_id (sf_promotions front) (ks_id s) (cp_id c)))"

definition redeem_coupon ::
    "checkout_store \<Rightarrow> shop_front \<Rightarrow> instant \<Rightarrow> checkout_request \<Rightarrow> priced_line list \<Rightarrow> coupon_table \<Rightarrow> discount_outcome result" where
  "redeem_coupon s front now q pls coupons = (case kr_coupon_code q of
      Some (c # cs) \<Rightarrow>
        rbind (apply_coupon now (ks_id s) (c # cs) (of_int (lines_subtotal pls) / 100) (Some (coupon_lines pls))
                 (linked_promotion s front q coupons \<noteq> None) coupons) (\<lambda>(r, coupons').
        Inr \<lparr>ds_discount = trunc_rat (ap_discount_amount r * 100), ds_coupon_code = Some (ap_code r),
             ds_coupon_id = Some (ap_coupon_id r), ds_campaign_id = ap_campaign_id r,
             ds_free_shipping = ap_free_shipping r, ds_applied = [], ds_coupons = coupons'\<rparr>)
    | _ \<Rightarrow> Inr \<lparr>ds_discount = 0, ds_coupon_code = None, ds_coupon_id = None, ds_campaign_id = None,
             ds_free_shipping = False, ds_applied = [], ds_coupons = coupons\<rparr>)"

definition offers_cart :: "priced_line list \<Rightarrow> cart_item list" where
  "offers_cart pls = map (\<lambda>pl. \<lparr>ci_product_id = ol_product_id (pl_line pl), ci_product_name = ol_product_name (pl_line pl),
     ci_variant_id = None, ci_variant_name = None, ci_sku = None, ci_quantity = ol_quantity (pl_line pl),
     ci_unit_price = ol_unit_price (pl_line pl), ci_image_url = None, ci_weight = None,
     ci_category_id = pl_category_id pl, ci_properties = []\<rparr>) pls"

definition offers_visitor :: "checkout_env \<Rightarrow> customer_row \<Rightarrow> checkout_request \<Rightarrow> priced_line list \<Rightarrow> eligibility_context" where
  "offers_visitor e cu q pls =
     \<lparr>ec_customer_id = Some (cu_id cu), ec_customer_tags = cu_tags cu, ec_cart_subtotal_cents = lines_subtotal pls,
      ec_cart_product_ids = map (\<lambda>pl. ol_product_id (pl_line pl)) pls,
      ec_cart_category_ids = remdups (List.map_filter pl_category_id pls),
      ec_country = Some (oa_country (kr_shipping_address q)), ec_city = Some (oa_city (kr_shipping_address q)),
      ec_device = ''desktop'', ec_is_first_visit = False, ec_is_logged_in = \<not> ke_is_guest e, ec_dismissed = {},
      ec_convert_count_total = 0, ec_convert_count_per_customer = 0\<rparr>"

text \<open>What the offers engine found, on top of the coupon: the code's rule replaces the amount of a linked coupon.\<close>

definition fold_in_offers ::
    "checkout_store \<Rightarrow> shop_front \<Rightarrow> promotion option \<Rightarrow> int \<Rightarrow> discount_outcome \<Rightarrow> cart_discounts \<Rightarrow> discount_outcome result" where
  "fold_in_offers s front linked subtotal d out =
     (if (case linked of None \<Rightarrow> False | Some p \<Rightarrow> pr_id p \<notin> set (cd_applied_promotion_ids out))
      then Inl (ValidationError ''This coupon offer does not apply to this order'')
      else (let coupon_part = (if linked = None then ds_discount d else min (cd_code_discount_cents out) subtotal);
                auto_part = max 0 (min (cd_automatic_discount_cents out) (subtotal - coupon_part));
                named = cd_applied_promotions out
            in Inr (d\<lparr>ds_free_shipping := ds_free_shipping d \<or> cd_free_shipping out,
                 ds_discount := (if named = [] then coupon_part else coupon_part + auto_part),
                 ds_applied := (if named = [] then []
                   else build_applied_promotions (sf_promotions front) (ks_id s) (map av_id named) auto_part
                          (map (\<lambda>a. (av_id a, av_amount a)) named))\<rparr>)))"

text \<open>A failure of the offers engine refuses an order with a linked coupon and is passed over otherwise.\<close>

definition checkout_discounts ::
    "checkout_store \<Rightarrow> shop_front \<Rightarrow> checkout_env \<Rightarrow> customer_row \<Rightarrow> checkout_request \<Rightarrow> priced_line list
      \<Rightarrow> coupon_table \<Rightarrow> discount_outcome result" where
  "checkout_discounts s front e cu q pls coupons =
     rbind (redeem_coupon s front (ke_now e) q pls coupons) (\<lambda>d.
     let linked = linked_promotion s front q coupons; codes = (case ds_coupon_code d of Some c \<Rightarrow> (if c = [] then [] else [c]) | None \<Rightarrow> [])
     in if ks_tenant_id s = None
        then (if linked = None then Inr d else Inl (ValidationError ''Unable to validate this coupon right now''))
        else (case calculate_cart_discounts (sf_promotions front) (ds_coupons d) True (ks_id s) (ke_now e) (offers_cart pls)
                     (Some (cu_id cu)) codes (offers_visitor e cu q pls) of
            Inl _ \<Rightarrow> if linked = None then Inr d else Inl (ValidationError ''Unable to validate this coupon right now'')
          | Inr out \<Rightarrow> fold_in_offers s front linked (lines_subtotal pls) d out))"

section \<open>Shipping\<close>

record shipping_charge =
  sc_cents :: int
  sc_zone_id :: "uuid option"
  sc_rate_id :: "uuid option"
  sc_label :: "string option"

text \<open>The state of the address names the governorate, else its city.\<close>

definition destination :: "order_address \<Rightarrow> governorate option" where
  "destination a =
     (let by_city = (if oa_city a = [] then None else resolve_governorate (oa_city a))
      in case oa_state a of
           None \<Rightarrow> by_city
         | Some st \<Rightarrow> if st = [] then by_city
             else (case resolve_governorate st of Some g \<Rightarrow> Some g | None \<Rightarrow> by_city))"

definition delivery_of :: "checkout_store \<Rightarrow> checkout_request \<Rightarrow> governorate \<Rightarrow> priced_line list \<Rightarrow> delivery" where
  "delivery_of s q g pls = \<lparr>dl_store_id = ks_id s, dl_governorate = gv_code g, dl_subtotal_cents = lines_subtotal pls,
     dl_weight_g = cart_weight_g pls, dl_cod = kr_cod_requested q\<rparr>"

definition shipping_charge_of ::
    "checkout_store \<Rightarrow> shop_front \<Rightarrow> checkout_request \<Rightarrow> priced_line list \<Rightarrow> shipping_charge result" where
  "shipping_charge_of s front q pls = (case kr_rate_id q of
      None \<Rightarrow>
        if has_active_zones (ks_id s) (sf_shipping front) \<or> ks_restrict_to_zones s
        then Inl (HTTPException ''Please select a shipping option'')
        else Inr \<lparr>sc_cents = 0, sc_zone_id = None, sc_rate_id = None, sc_label = kr_shipping_method q\<rparr>
    | Some rid \<Rightarrow>
        if \<not> ks_restrict_to_zones s \<and> rid = DEFAULT_SHIPPING_RATE_ID
        then Inr \<lparr>sc_cents = 0, sc_zone_id = None, sc_rate_id = None,
               sc_label = (if truthy_str (kr_shipping_method q) then kr_shipping_method q else Some ''Standard Shipping'')\<rparr>
        else (case destination (kr_shipping_address q) of
            None \<Rightarrow> Inl (HTTPException ''Could not resolve the governorate'')
          | Some g \<Rightarrow> (case resolve_one_rate ((sf_resolver front)\<lparr>rv_currency := ks_currency s\<rparr>) rid (delivery_of s q g pls) (sf_shipping front) of
              None \<Rightarrow> Inl (HTTPException ''The selected shipping rate is no longer available'')
            | Some r \<Rightarrow> if kr_cod_requested q \<and> \<not> ro_cod_supported r
                then Inl (HTTPException ''Cash on delivery is not available in this area'')
                else Inr \<lparr>sc_cents = ro_amount_cents r, sc_zone_id = Some (ro_zone_id r),
                       sc_rate_id = Some (ro_rate_id r), sc_label = Some (ro_label r)\<rparr>)))"

text \<open>What is charged: nothing where nothing ships, and nothing where a coupon or a promotion ships free.\<close>

definition shipping_cost :: "priced_line list \<Rightarrow> bool \<Rightarrow> shipping_charge \<Rightarrow> int" where
  "shipping_cost pls free c =
     (let n = (if \<not> list_ex pl_requires_shipping pls \<and> 0 < sc_cents c then 0 else sc_cents c)
      in if free \<and> 0 < n then 0 else n)"

section \<open>Rules, incentive and tax\<close>

definition order_facts_of ::
    "checkout_store \<Rightarrow> checkout_env \<Rightarrow> checkout_request \<Rightarrow> priced_line list \<Rightarrow> order_desk \<Rightarrow> order_facts" where
  "order_facts_of s e q pls d =
     \<lparr>of_is_cod = is_cod_request q, of_subtotal_cents = lines_subtotal pls,
      of_first_time = \<not> list_ex (\<lambda>x. ord_store_id (do_order x) = ks_id s
        \<and> ord_customer_id (do_order x) = ke_customer_id e) (od_orders d),
      of_high_risk = (is_cod_request q \<and> ks_cod_shield s \<and> td_high_risk (ke_trust e)),
      of_product_ids = set (map (\<lambda>pl. ol_product_id (pl_line pl)) pls),
      of_category_ids = set (List.map_filter pl_category_id pls)\<rparr>"

definition incentive_of :: "checkout_store \<Rightarrow> checkout_request \<Rightarrow> int \<Rightarrow> int \<Rightarrow> incentive" where
  "incentive_of s q subtotal discount =
     (if ks_cod_shield s
      then prepaid_incentive (cr_prepaid (get_cod_rules (ks_cod_rules s))) (is_cod_request q) subtotal discount
      else no_incentive)"

definition tax_lines :: "priced_line list \<Rightarrow> tax_line_input list" where
  "tax_lines pls =
     (let exempt = map (\<lambda>pl. ol_product_id (pl_line pl)) (filter pl_tax_exempt pls)
      in map (\<lambda>pl. \<lparr>tl_unit_price_cents = ol_unit_price (pl_line pl), tl_quantity = ol_quantity (pl_line pl),
           tl_taxable = (ol_product_id (pl_line pl) \<notin> set exempt)\<rparr>) pls)"

definition order_tax :: "checkout_store \<Rightarrow> checkout_request \<Rightarrow> priced_line list \<Rightarrow> int \<Rightarrow> resolved_tax" where
  "order_tax s q pls discount =
     resolve_tax (ks_market_rate s) (ks_tax_settings s) (tax_lines pls) discount
       (if truthy_str (oa_state (kr_shipping_address q)) then oa_state (kr_shipping_address q)
        else Some (oa_city (kr_shipping_address q))) True"

section \<open>The order\<close>

definition line_in :: "string \<Rightarrow> string \<Rightarrow> bool" where
  "line_in n text \<longleftrightarrow> list_ex (\<lambda>i. take (length n + 2) (drop i (CHR 10 # text @ [CHR 10])) = CHR 10 # n @ [CHR 10])
     [0..<length text + 2]"

definition merge_order_notes :: "string option \<Rightarrow> string option \<Rightarrow> string option" where
  "merge_order_notes cart_note request_note =
     (let c = strip (given_or cart_note []); r = strip (given_or request_note []);
          merged = (if c \<noteq> [] \<and> line_in c r then r
            else if c = [] then r else if r = [] then c else c @ CHR 10 # r);
          cut = take 1000 merged
      in if cut = [] then None else Some cut)"

definition promotion_json :: "applied_promotion \<Rightarrow> json" where
  "promotion_json a = JObj [(''id'', JUuid (av_id a)), (''title'', JStr (av_title a)), (''amount'', JInt (av_amount a))]"

definition order_metadata :: "visit \<Rightarrow> incentive \<Rightarrow> resolved_tax \<Rightarrow> metadata" where
  "order_metadata v i t =
     (let m1 = (if in_discount_cents i \<noteq> 0 \<or> in_free_shipping i
            then (vs_metadata v)(''prepaid_incentive'' \<mapsto> JObj [(''discount_cents'', JInt (in_discount_cents i)),
                   (''free_shipping'', JBool (in_free_shipping i))])
            else vs_metadata v)
      in if 0 < tx_rate t
         then m1(''tax_breakdown'' \<mapsto> JObj [(''rate'', JFloat (tx_rate t)), (''inclusive'', JBool (tx_inclusive t)),
                (''added_cents'', JInt (tx_tax_to_add_cents t)), (''included_cents'', JInt (tx_included_tax_cents t))])
         else m1)"

text \<open>The amounts of an order, as they are worked out before it is built.\<close>

record checkout_totals =
  kt_subtotal :: int
  kt_shipping :: int
  kt_discount :: int
  kt_tax :: resolved_tax
  kt_incentive :: incentive

definition checkout_totals_of ::
    "checkout_store \<Rightarrow> checkout_request \<Rightarrow> priced_line list \<Rightarrow> discount_outcome \<Rightarrow> shipping_charge \<Rightarrow> checkout_totals" where
  "checkout_totals_of s q pls d c =
     (let subtotal = lines_subtotal pls; i = incentive_of s q subtotal (ds_discount d);
          discount = ds_discount d + in_discount_cents i
      in \<lparr>kt_subtotal = subtotal,
          kt_shipping = (if in_free_shipping i then 0 else shipping_cost pls (ds_free_shipping d) c),
          kt_discount = discount, kt_tax = order_tax s q pls discount, kt_incentive = i\<rparr>)"

definition checkout_order ::
    "checkout_store \<Rightarrow> checkout_env \<Rightarrow> checkout_request \<Rightarrow> priced_line list \<Rightarrow> discount_outcome
      \<Rightarrow> shipping_charge \<Rightarrow> checkout_totals \<Rightarrow> order" where
  "checkout_order s e q pls d c t = order_post_init
     \<lparr>ord_id = ke_order_id e, ord_created_at = ke_now e, ord_updated_at = ke_now e, ord_store_id = ks_id s,
      ord_tenant_id = ks_tenant_id s, ord_customer_id = ke_customer_id e, ord_order_number = ke_order_number e,
      ord_line_items = map pl_line pls, ord_shipping_address = kr_shipping_address q,
      ord_billing_address = kr_billing_address q, ord_status = PENDING, ord_payment_status = PayPending,
      ord_fulfillment_status = Unfulfilled, ord_subtotal = kt_subtotal t, ord_shipping_cost = kt_shipping t,
      ord_tax_amount = tx_included_tax_cents (kt_tax t), ord_discount_amount = kt_discount t,
      ord_total = kt_subtotal t + kt_shipping t - kt_discount t, ord_collected_total = None,
      ord_currency = ks_currency s, ord_payment_method = kr_payment_method q, ord_payment_id = None,
      ord_shipping_method = sc_label c, ord_shipping_zone_id = sc_zone_id c, ord_shipping_rate_id = sc_rate_id c,
      ord_deposit_required_cents = None, ord_deposit_amount_cents = None, ord_deposit_paid_at = None,
      ord_deposit_expires_at = None, ord_deposit_gateway = None, ord_deposit_payment_id = None,
      ord_customer_confirmation_status = None, ord_customer_confirmation_requested_at = None,
      ord_customer_confirmed_at = None,
      ord_cod_review_status = (if is_cod_request q \<and> ks_cod_shield s \<and> td_hold (ke_trust e) then Some ''held'' else None),
      ord_cod_reviewed_at = None, ord_tracking_number = None, ord_tracking_url = None, ord_notes = None,
      ord_coupon_code = ds_coupon_code d, ord_coupon_id = ds_coupon_id d,
      ord_applied_promotions = map promotion_json (ds_applied d),
      ord_customer_notes = merge_order_notes (ke_cart_note e) (kr_customer_notes q),
      ord_metadata = order_metadata (ke_visit e) (kt_incentive t) (kt_tax t),
      ord_utm_source = vs_utm_source (ke_visit e), ord_utm_medium = vs_utm_medium (ke_visit e),
      ord_utm_campaign = vs_utm_campaign (ke_visit e), ord_utm_term = vs_utm_term (ke_visit e),
      ord_utm_content = vs_utm_content (ke_visit e),
      ord_campaign_id = or_else (vs_campaign_id (ke_visit e)) (ds_campaign_id d),
      ord_attribution = vs_attribution (ke_visit e), ord_first_touch_at = vs_first_touch_at (ke_visit e),
      ord_session_fingerprint = kr_session_fingerprint q, ord_version = 1, ord_cancelled_at = None,
      ord_paid_at = None, ord_cash_received_at = None, ord_fulfilled_at = None, ord_shipped_at = None,
      ord_delivered_at = None\<rparr>"

section \<open>Deposit and holding\<close>

text \<open>The deposit an order is asked for, and the method its payment is dispatched to.\<close>

definition deposit_of :: "checkout_store \<Rightarrow> order_facts \<Rightarrow> order \<Rightarrow> int" where
  "deposit_of s facts o' =
     (if ks_cod_shield s \<and> applies (cr_deposit (get_cod_rules (ks_cod_rules s))) facts
      then deposit_due_cents (ks_deposit_policy s) (ord_total o') else 0)"

definition ask_deposit ::
    "checkout_store \<Rightarrow> instant \<Rightarrow> order_facts \<Rightarrow> checkout_request \<Rightarrow> order \<Rightarrow> (order \<times> string option) result" where
  "ask_deposit s now facts q o' =
     (let due = deposit_of s facts o'
      in case ks_deposit_policy s of
           Some p \<Rightarrow>
             if kr_payment_method q = Some ''cod'' \<and> 0 < due
             then (case kr_deposit_gateway q of
                 None \<Rightarrow> Inl (HTTPException ''This store requires a deposit to confirm COD orders'')
               | Some g \<Rightarrow>
                   if g = [] then Inl (HTTPException ''This store requires a deposit to confirm COD orders'')
                   else if g \<notin> set (dy_allowed_gateways p) then Inl (HTTPException ''Selected deposit gateway is not allowed'')
                   else Inr (o'\<lparr>ord_status := PENDING_DEPOSIT, ord_deposit_required_cents := Some due,
                          ord_deposit_amount_cents := Some due,
                          ord_deposit_expires_at := Some (now + (if dy_ttl_minutes p = 0 then 30 else dy_ttl_minutes p) * 60 * 1000000),
                          ord_deposit_gateway := Some g\<rparr>, Some (if g = ''paymob'' then ''paymob_card'' else g)))
             else Inr (o', kr_payment_method q)
         | None \<Rightarrow> Inr (o', kr_payment_method q))"

text \<open>A payment by card hides the order until the gateway confirms it; only other orders are announced.\<close>

definition by_card :: "string option \<Rightarrow> bool" where
  "by_card m = (case m of None \<Rightarrow> False | Some s \<Rightarrow> list_ex (\<lambda>p. take (length p) s = p) card_gateway_prefixes)"

definition hold_for_payment :: "string option \<Rightarrow> order \<Rightarrow> order" where
  "hold_for_payment m o' = (if ord_status o' = PENDING \<and> by_card m then o'\<lparr>ord_status := AWAITING_PAYMENT\<rparr> else o')"

section \<open>The handler\<close>

definition place_order ::
    "checkout_store \<Rightarrow> shop_front \<Rightarrow> checkout_env \<Rightarrow> checkout_request \<Rightarrow> priced_line list \<Rightarrow> discount_outcome
      \<Rightarrow> manifest_line list \<Rightarrow> stock_db \<Rightarrow> customer_row \<Rightarrow> checkout_state \<Rightarrow> checkout_state result" where
  "place_order s front e q pls d debited stock cu st =
     rbind (shipping_charge_of s front q pls) (\<lambda>c.
     let facts = order_facts_of s e q pls (ck_desk st)
     in if ke_otp_pending e \<and> applies (cr_otp (get_cod_rules (ks_cod_rules s))) facts
        then Inl (HTTPException ''phone_verification_required'')
        else (let o' = checkout_order s e q pls d c (checkout_totals_of s q pls d c)
          in if \<not> order_ok o' then Inl (ValidationError ''Order'')
             else if lookup_by do_id (ke_order_id e) (od_orders (ck_desk st)) \<noteq> None then Inl (IntegrityError ''orders_pkey'')
             else rbind (ask_deposit s (ke_now e) facts q o') (\<lambda>(o1, dispatch).
               let o2 = hold_for_payment dispatch o1;
                   n = (if debited = [] then no_stock_note
                        else no_stock_note\<lparr>sn_debited := Some (build_debit_manifest (ke_now e) debited)\<rparr>);
                   d1 = (ck_desk st)\<lparr>od_stock := stock, od_orders := od_orders (ck_desk st) @ [\<lparr>do_order = o2, do_note = n\<rparr>]\<rparr>
               in Inr \<lparr>ck_desk = (if ord_status o2 = AWAITING_PAYMENT then d1 else publish (OrderCreated (ke_order_id e)) d1),
                    ck_coupons = ds_coupons d,
                    ck_customers = replace_by cu_id (cu\<lparr>cu_total_orders := cu_total_orders cu + 1,
                      cu_total_spent := cu_total_spent cu + ord_total o2\<rparr>) (ck_customers st)\<rparr>)))"

text \<open>Cash on delivery needs a phone where the fraud check is on, and the consent of the check.\<close>

definition cod_gate :: "checkout_store \<Rightarrow> checkout_env \<Rightarrow> checkout_request \<Rightarrow> unit result" where
  "cod_gate s e q =
     (if \<not> (is_cod_request q \<and> ks_cod_shield s) then Inr ()
      else if ks_cod_trust_enabled s \<and> strip (given_or (oa_phone (kr_shipping_address q)) []) = []
      then Inl (HTTPException ''phone_required_for_cod'')
      else if \<not> td_allowed (ke_trust e) then Inl (HTTPException ''cod_trust_blocked'') else Inr ())"

definition storefront_checkout ::
    "checkout_store \<Rightarrow> shop_front \<Rightarrow> checkout_env \<Rightarrow> checkout_request \<Rightarrow> checkout_state \<Rightarrow> checkout_state result" where
  "storefront_checkout s front e q st =
     (if \<not> checkout_request_ok q then Inl (ValidationError ''CheckoutRequest'')
      else case lookup_by cu_id (ke_customer_id e) (ck_customers st) of
          None \<Rightarrow> Inl (EntityNotFoundError ''Customer'')
        | Some cu \<Rightarrow>
            if \<not> ke_is_guest e \<and> cu_has_account cu \<and> \<not> cu_is_verified cu
            then Inl (HTTPException ''Please verify your email address'')
            else if cu_store_id cu \<noteq> ks_id s then Inl (HTTPException ''Customer does not belong to this store'')
            else rbind (cod_gate s e q) (\<lambda>_.
              rbind (price_lines (ke_now e) (ks_id s) (sf_catalog front) (od_stock (ck_desk st)) (kr_lines q)) (\<lambda>pls.
              if \<not> list_all (\<lambda>pl. order_line_ok (pl_line pl)) pls then Inl (ValidationError ''OrderLineItem'')
              else rbind (checkout_discounts s front e cu q pls (ck_coupons st)) (\<lambda>d.
                rbind (debit_lines (ks_tenant_id s) pls (od_stock (ck_desk st))) (\<lambda>(debited, stock).
                place_order s front e q pls d debited stock cu st)))))"

section \<open>An accepted checkout\<close>

lemma place_order_Inr:
  assumes "place_order s front e q pls d debited stock cu st = Inr st'"
  obtains c o1 dispatch where
    "shipping_charge_of s front q pls = Inr c"
    "order_ok (checkout_order s e q pls d c (checkout_totals_of s q pls d c))"
    "lookup_by do_id (ke_order_id e) (od_orders (ck_desk st)) = None"
    "ask_deposit s (ke_now e) (order_facts_of s e q pls (ck_desk st)) q
       (checkout_order s e q pls d c (checkout_totals_of s q pls d c)) = Inr (o1, dispatch)"
    "od_stock (ck_desk st') = stock"
    "od_orders (ck_desk st') = od_orders (ck_desk st) @ [\<lparr>do_order = hold_for_payment dispatch o1,
       do_note = (if debited = [] then no_stock_note
                  else no_stock_note\<lparr>sn_debited := Some (build_debit_manifest (ke_now e) debited)\<rparr>)\<rparr>]"
    "od_events (ck_desk st') = od_events (ck_desk st)
       @ (if ord_status (hold_for_payment dispatch o1) = AWAITING_PAYMENT then [] else [OrderCreated (ke_order_id e)])"
    "ck_coupons st' = ds_coupons d"
    "ck_customers st' = replace_by cu_id (cu\<lparr>cu_total_orders := cu_total_orders cu + 1,
       cu_total_spent := cu_total_spent cu + ord_total (hold_for_payment dispatch o1)\<rparr>) (ck_customers st)"
proof -
  obtain c where c: "shipping_charge_of s front q pls = Inr c"
    using assms by (auto simp: place_order_def rbind_Inr_iff)
  define o' where "o' = checkout_order s e q pls d c (checkout_totals_of s q pls d c)"
  have ok: "order_ok o'" and l: "lookup_by do_id (ke_order_id e) (od_orders (ck_desk st)) = None"
    using assms by (auto simp: place_order_def c Let_def o'_def [symmetric] simp del: not_None_eq split: if_splits)
  obtain o1 dispatch where a: "ask_deposit s (ke_now e) (order_facts_of s e q pls (ck_desk st)) q o' = Inr (o1, dispatch)"
    using assms by (auto simp: place_order_def c Let_def o'_def [symmetric] rbind_Inr_iff split: if_splits)
  define o2 where "o2 = hold_for_payment dispatch o1"
  define d1 where "d1 = (ck_desk st)\<lparr>od_stock := stock, od_orders := od_orders (ck_desk st) @ [\<lparr>do_order = o2,
       do_note = (if debited = [] then no_stock_note
                  else no_stock_note\<lparr>sn_debited := Some (build_debit_manifest (ke_now e) debited)\<rparr>)\<rparr>]\<rparr>"
  have "st' = \<lparr>ck_desk = (if ord_status o2 = AWAITING_PAYMENT then d1 else publish (OrderCreated (ke_order_id e)) d1),
                    ck_coupons = ds_coupons d,
                    ck_customers = replace_by cu_id (cu\<lparr>cu_total_orders := cu_total_orders cu + 1,
                      cu_total_spent := cu_total_spent cu + ord_total o2\<rparr>) (ck_customers st)\<rparr>"
    using assms unfolding place_order_def c rbind_simps Let_def o'_def [symmetric] a prod.case o2_def [symmetric] d1_def [symmetric]
    by (simp split: if_splits)
  then show thesis
    by (intro that [OF c ok [unfolded o'_def] l a [unfolded o'_def]]) (simp_all add: d1_def o2_def publish_def)
qed

lemma storefront_checkout_Inr:
  assumes "storefront_checkout s front e q st = Inr st'"
  obtains cu pls d debited stock where
    "checkout_request_ok q" "lookup_by cu_id (ke_customer_id e) (ck_customers st) = Some cu" "cu_store_id cu = ks_id s"
    "price_lines (ke_now e) (ks_id s) (sf_catalog front) (od_stock (ck_desk st)) (kr_lines q) = Inr pls"
    "list_all (\<lambda>pl. order_line_ok (pl_line pl)) pls"
    "checkout_discounts s front e cu q pls (ck_coupons st) = Inr d"
    "debit_lines (ks_tenant_id s) pls (od_stock (ck_desk st)) = Inr (debited, stock)"
    "place_order s front e q pls d debited stock cu st = Inr st'"
  using assms
  by (auto simp: storefront_checkout_def rbind_Inr_iff split: if_splits option.splits)

section \<open>The fields of the order\<close>

lemma post_init_fields [simp]:
  "ord_id (order_post_init o') = ord_id o'" "ord_store_id (order_post_init o') = ord_store_id o'"
  "ord_tenant_id (order_post_init o') = ord_tenant_id o'" "ord_customer_id (order_post_init o') = ord_customer_id o'"
  "ord_line_items (order_post_init o') = ord_line_items o'"
  "ord_status (order_post_init o') = ord_status o'" "ord_subtotal (order_post_init o') = ord_subtotal o'"
  "ord_shipping_cost (order_post_init o') = ord_shipping_cost o'" "ord_total (order_post_init o') = ord_total o'"
  "ord_discount_amount (order_post_init o') = ord_discount_amount o'" "ord_tax_amount (order_post_init o') = ord_tax_amount o'"
  "ord_coupon_id (order_post_init o') = ord_coupon_id o'" "ord_applied_promotions (order_post_init o') = ord_applied_promotions o'"
  "ord_deposit_required_cents (order_post_init o') = ord_deposit_required_cents o'"
  "ord_payment_method (order_post_init o') = ord_payment_method o'" "ord_metadata (order_post_init o') = ord_metadata o'"
  "ord_shipping_zone_id (order_post_init o') = ord_shipping_zone_id o'"
  "ord_shipping_rate_id (order_post_init o') = ord_shipping_rate_id o'"
  "ord_deposit_gateway (order_post_init o') = ord_deposit_gateway o'"
  "ord_payment_status (order_post_init o') = ord_payment_status o'"
  by (simp_all add: order_post_init_def)

text \<open>What neither the deposit nor the hold changes.\<close>

definition order_core :: "order \<Rightarrow> (uuid \<times> uuid \<times> uuid option \<times> uuid) \<times> order_line_item list \<times> (int \<times> int \<times> int \<times> int \<times> int)
    \<times> (uuid option \<times> uuid option \<times> uuid option) \<times> json list \<times> metadata" where
  "order_core o' = ((ord_id o', ord_store_id o', ord_tenant_id o', ord_customer_id o'), ord_line_items o',
     (ord_subtotal o', ord_shipping_cost o', ord_discount_amount o', ord_tax_amount o', ord_total o'),
     (ord_coupon_id o', ord_shipping_zone_id o', ord_shipping_rate_id o'), ord_applied_promotions o', ord_metadata o')"

lemma hold_core [simp]: "order_core (hold_for_payment m o') = order_core o'"
  by (simp add: hold_for_payment_def order_core_def)

lemma ask_deposit_core: "ask_deposit s now facts q o' = Inr (o1, m) \<Longrightarrow> order_core o1 = order_core o'"
  by (auto simp: ask_deposit_def Let_def order_core_def split: option.splits if_splits)

lemma checkout_order_core:
  "order_core (checkout_order s e q pls d c t) =
    ((ke_order_id e, ks_id s, ks_tenant_id s, ke_customer_id e), map pl_line pls,
     (kt_subtotal t, kt_shipping t, kt_discount t, tx_included_tax_cents (kt_tax t), kt_subtotal t + kt_shipping t - kt_discount t),
     (ds_coupon_id d, sc_zone_id c, sc_rate_id c), map promotion_json (ds_applied d),
     order_metadata (ke_visit e) (kt_incentive t) (kt_tax t))"
  by (simp add: order_core_def checkout_order_def)

section \<open>Discounts stay within the subtotal\<close>

lemma trunc_rat_le: "x \<le> of_int n \<Longrightarrow> 0 \<le> n \<Longrightarrow> trunc_rat x \<le> n"
  by (auto simp: trunc_rat_def floor_le_iff) linarith

lemma coupon_within_amount: "coupon_calculate_discount c amt ls = Inr x \<Longrightarrow> 0 \<le> amt \<Longrightarrow> x \<le> amt"
  by (auto simp: coupon_calculate_discount_def rbind_Inr_iff Let_def split: if_splits)

lemma apply_coupon_Inr:
  assumes "apply_coupon now store code amt ls linked t = Inr (r, t')"
  obtains c where "coupon_get_by_code store code t = Some c" "ap_coupon_id r = cp_id c" "ap_code r = cp_code c"
    "coupon_calculate_discount c amt ls = Inr (ap_discount_amount r)" "t' = coupon_increment_usage (cp_id c) t"
    "cp_is_active c" "coupon_has_remaining_uses c"
  using assms by (auto simp: apply_coupon_def rbind_Inr_iff Let_def coupon_is_usable_def split: option.splits if_splits)

lemma redeem_coupon_bound:
  assumes "redeem_coupon s front now q pls coupons = Inr d" "0 \<le> lines_subtotal pls"
  shows "ds_discount d \<le> lines_subtotal pls \<and> ds_applied d = []
    \<and> (\<not> truthy_str (kr_coupon_code q) \<longrightarrow> ds_discount d = 0 \<and> ds_coupon_id d = None \<and> ds_coupons d = coupons)"
proof (cases "truthy_str (kr_coupon_code q)")
  case False
  then show ?thesis using assms by (auto simp: redeem_coupon_def truthy_str_def split: option.splits list.splits)
next
  case True
  then obtain c cs where code: "kr_coupon_code q = Some (c # cs)"
    by (cases "kr_coupon_code q"; cases "the (kr_coupon_code q)") (auto simp: truthy_str_def)
  obtain r t' where r: "apply_coupon now (ks_id s) (c # cs) (of_int (lines_subtotal pls) / 100) (Some (coupon_lines pls))
      (linked_promotion s front q coupons \<noteq> None) coupons = Inr (r, t')"
    and d: "ds_discount d = trunc_rat (ap_discount_amount r * 100)" "ds_applied d = []"
    using assms(1) by (auto simp: redeem_coupon_def code rbind_Inr_iff simp del: not_None_eq)
  have "ap_discount_amount r \<le> of_int (lines_subtotal pls) / 100"
    using apply_coupon_Inr [OF r] coupon_within_amount assms(2) by (metis divide_nonneg_nonneg of_int_0_le_iff zero_le_numeral)
  then have "ap_discount_amount r * 100 \<le> of_int (lines_subtotal pls)" by simp
  then show ?thesis using trunc_rat_le assms(2) d True by simp
qed

lemma fold_in_offers_bound:
  assumes "fold_in_offers s front linked n d out = Inr d'" "0 \<le> n" "ds_discount d \<le> n"
  shows "ds_discount d' \<le> n \<and> ds_coupon_id d' = ds_coupon_id d \<and> ds_coupons d' = ds_coupons d"
  using assms by (auto simp: fold_in_offers_def Let_def split: if_splits)

lemma checkout_discounts_cases:
  assumes "checkout_discounts s front e cu q pls coupons = Inr d"
  obtains d0 where "redeem_coupon s front (ke_now e) q pls coupons = Inr d0" "d = d0"
  | d0 out codes where "redeem_coupon s front (ke_now e) q pls coupons = Inr d0"
      "calculate_cart_discounts (sf_promotions front) (ds_coupons d0) True (ks_id s) (ke_now e) (offers_cart pls)
         (Some (cu_id cu)) codes (offers_visitor e cu q pls) = Inr out"
      "fold_in_offers s front (linked_promotion s front q coupons) (lines_subtotal pls) d0 out = Inr d"
  using assms by (auto simp: checkout_discounts_def rbind_Inr_iff Let_def split: if_splits sum.splits)

lemma checkout_discounts_bound:
  assumes "checkout_discounts s front e cu q pls coupons = Inr d" "0 \<le> lines_subtotal pls"
  shows "ds_discount d \<le> lines_subtotal pls"
  by (rule checkout_discounts_cases [OF assms(1)])
    (use redeem_coupon_bound [OF _ assms(2)] fold_in_offers_bound [OF _ assms(2)] in blast)+

text \<open>The coupon's counter: one more use of the coupon the order names, or none.\<close>

lemma redeem_coupon_usage:
  assumes "redeem_coupon s front now q pls coupons = Inr d"
  shows "(ds_coupon_id d = None \<and> ds_coupons d = coupons)
    \<or> (\<exists>c. coupon_get_by_code (ks_id s) (the (kr_coupon_code q)) coupons = Some c \<and> ds_coupon_id d = Some (cp_id c)
        \<and> coupon_has_remaining_uses c \<and> ds_coupons d = coupon_increment_usage (cp_id c) coupons)"
proof (cases "truthy_str (kr_coupon_code q)")
  case False
  then show ?thesis using assms by (auto simp: redeem_coupon_def truthy_str_def split: option.splits list.splits)
next
  case True
  then obtain c cs where code: "kr_coupon_code q = Some (c # cs)"
    by (cases "kr_coupon_code q"; cases "the (kr_coupon_code q)") (auto simp: truthy_str_def)
  obtain r t' where r: "apply_coupon now (ks_id s) (c # cs) (of_int (lines_subtotal pls) / 100) (Some (coupon_lines pls))
      (linked_promotion s front q coupons \<noteq> None) coupons = Inr (r, t')"
    and d: "ds_coupon_id d = Some (ap_coupon_id r)" "ds_coupons d = t'"
    using assms(1) by (auto simp: redeem_coupon_def code rbind_Inr_iff simp del: not_None_eq)
  show ?thesis by (rule apply_coupon_Inr [OF r]) (simp add: code d)
qed

lemma checkout_discounts_usage:
  assumes "checkout_discounts s front e cu q pls coupons = Inr d"
  shows "(ds_coupon_id d = None \<and> ds_coupons d = coupons)
    \<or> (\<exists>c. coupon_get_by_code (ks_id s) (the (kr_coupon_code q)) coupons = Some c \<and> ds_coupon_id d = Some (cp_id c)
        \<and> coupon_has_remaining_uses c \<and> ds_coupons d = coupon_increment_usage (cp_id c) coupons)"
proof (rule checkout_discounts_cases [OF assms])
  fix d0 assume "redeem_coupon s front (ke_now e) q pls coupons = Inr d0" "d = d0"
  then show ?thesis using redeem_coupon_usage by simp
next
  fix d0 out
  assume r: "redeem_coupon s front (ke_now e) q pls coupons = Inr d0"
    and f: "fold_in_offers s front (linked_promotion s front q coupons) (lines_subtotal pls) d0 out = Inr d"
  have "ds_coupon_id d = ds_coupon_id d0 \<and> ds_coupons d = ds_coupons d0"
    using f by (auto simp: fold_in_offers_def Let_def split: if_splits)
  then show ?thesis using redeem_coupon_usage [OF r] by simp
qed

section \<open>The snapshot of the promotions\<close>

lemma offers_cart_sum:
  "sum_list (map (\<lambda>ci. ci_unit_price ci * ci_quantity ci) (offers_cart pls)) = lines_subtotal pls"
  by (simp add: offers_cart_def lines_subtotal_sum comp_def)

lemma cart_named_distinct:
  assumes "calculate_cart_discounts db coupons has_events store now items customer codes ctx = Inr c"
    and "distinct (map pr_id (db_promotions db))"
    and "0 \<le> sum_list (map (\<lambda>ci. ci_unit_price ci * ci_quantity ci) items)"
  shows "distinct (map av_id (cd_applied_promotions c))"
proof (rule calculate_cart_discounts_Inr [OF assms(1)])
  fix t and eligible :: "promotion list"
  assume e: "eligible = filter (considered db coupons has_events codes (ctx\<lparr>ec_dismissed := {}\<rparr>) now)
       (list_active_for_storefront db store now False)"
    and t: "calculate_total eligible (cart_context items customer)
       (Some (\<lambda>i. if i \<in> set (map pr_id eligible) then Some (targets_for db i) else None)) = Inr t"
    and c: "cd_applied_promotions c = named_snapshot eligible t"
  have "distinct (map pr_id eligible)" unfolding e using storefront_distinct [OF assms(2)] by (rule distinct_map_filter)
  from named_snapshot_sums [OF t _ this] assms(3) c show ?thesis by (simp add: dc_subtotal_cart_context)
qed

lemma fold_in_snapshot:
  assumes "fold_in_offers s front linked n d out = Inr d'" "distinct (map av_id (cd_applied_promotions out))" "0 \<le> n"
    and "ds_applied d = []"
  shows "0 \<le> sum_list (map av_amount (ds_applied d'))
    \<and> ds_discount d' = (if linked = None then ds_discount d else min (cd_code_discount_cents out) n)
        + sum_list (map av_amount (ds_applied d'))"
proof -
  let ?named = "cd_applied_promotions out" and ?al = "map (\<lambda>a. (av_id a, av_amount a)) (cd_applied_promotions out)"
  have fst: "map fst ?al = map av_id ?named" by (simp add: comp_def)
  have dist: "distinct (map fst ?al)" unfolding fst by (rule assms(2))
  show ?thesis
  proof (cases "?named = []")
    case True
    then show ?thesis using assms(1,4) by (auto simp: fold_in_offers_def Let_def split: if_splits)
  next
    case False
    have "sum_list (map av_amount (build_applied_promotions (sf_promotions front) (ks_id s) (map av_id ?named) w ?al)) = w" for w
      by (rule conjunct2 [OF snapshot_total [OF dist fst]]) (simp add: False)
    then show ?thesis using assms(1) False by (auto simp: fold_in_offers_def Let_def split: if_splits)
  qed
qed

lemma no_code_unlinked: "\<not> truthy_str (kr_coupon_code q) \<Longrightarrow> linked_promotion s front q coupons = None"
  by (auto simp: linked_promotion_def truthy_str_def split: option.splits)

text \<open>The saving of the code: of its coupon, or, for a coupon with a promotion, of that promotion's rule.\<close>

definition code_saving ::
    "checkout_store \<Rightarrow> shop_front \<Rightarrow> checkout_env \<Rightarrow> customer_row \<Rightarrow> checkout_request \<Rightarrow> priced_line list \<Rightarrow> coupon_table \<Rightarrow> int" where
  "code_saving s front e cu q pls coupons = (case redeem_coupon s front (ke_now e) q pls coupons of
      Inl _ \<Rightarrow> 0
    | Inr d \<Rightarrow> if linked_promotion s front q coupons = None then ds_discount d
        else (case calculate_cart_discounts (sf_promotions front) (ds_coupons d) True (ks_id s) (ke_now e) (offers_cart pls)
                     (Some (cu_id cu)) (case ds_coupon_code d of Some c \<Rightarrow> (if c = [] then [] else [c]) | None \<Rightarrow> [])
                     (offers_visitor e cu q pls) of
            Inl _ \<Rightarrow> 0
          | Inr out \<Rightarrow> min (cd_code_discount_cents out) (lines_subtotal pls)))"

lemma discounts_snapshot:
  assumes "checkout_discounts s front e cu q pls coupons = Inr d" "0 \<le> lines_subtotal pls"
    and "distinct (map pr_id (db_promotions (sf_promotions front)))"
  shows "0 \<le> sum_list (map av_amount (ds_applied d))
    \<and> ds_discount d = code_saving s front e cu q pls coupons + sum_list (map av_amount (ds_applied d))
    \<and> (\<not> truthy_str (kr_coupon_code q) \<longrightarrow> code_saving s front e cu q pls coupons = 0)"
proof -
  let ?linked = "linked_promotion s front q coupons"
  obtain d0 where r: "redeem_coupon s front (ke_now e) q pls coupons = Inr d0"
    using assms(1) by (auto simp: checkout_discounts_def rbind_Inr_iff)
  have z: "ds_applied d0 = []" "\<not> truthy_str (kr_coupon_code q) \<longrightarrow> ds_discount d0 = 0"
    using redeem_coupon_bound [OF r assms(2)] by auto
  have no_code: "\<not> truthy_str (kr_coupon_code q) \<longrightarrow> code_saving s front e cu q pls coupons = 0"
    using no_code_unlinked z(2) by (auto simp: code_saving_def r)
  let ?out = "calculate_cart_discounts (sf_promotions front) (ds_coupons d0) True (ks_id s) (ke_now e) (offers_cart pls)
       (Some (cu_id cu)) (case ds_coupon_code d0 of Some c \<Rightarrow> (if c = [] then [] else [c]) | None \<Rightarrow> []) (offers_visitor e cu q pls)"
  consider (plain) "d = d0" "?linked = None"
    | (offers) out where "?out = Inr out" "fold_in_offers s front ?linked (lines_subtotal pls) d0 out = Inr d"
    using assms(1) by (auto simp: checkout_discounts_def r Let_def split: if_splits sum.splits)
  then show ?thesis
  proof cases
    case plain
    then show ?thesis using z no_code by (simp add: code_saving_def r)
  next
    case offers
    have dist: "distinct (map av_id (cd_applied_promotions out))"
      using cart_named_distinct [OF offers(1) assms(3)] assms(2) by (simp add: offers_cart_sum)
    have saving: "code_saving s front e cu q pls coupons
        = (if ?linked = None then ds_discount d0 else min (cd_code_discount_cents out) (lines_subtotal pls))"
      by (simp add: code_saving_def r offers(1))
    show ?thesis using fold_in_snapshot [OF offers(2) dist assms(2) z(1)] no_code by (simp only: saving)
  qed
qed

text \<open>The amount of an entry of the order's snapshot.\<close>

definition json_amount :: "json \<Rightarrow> int" where
  "json_amount j = (case j of JObj kv \<Rightarrow> json_int (map_of kv ''amount'') | _ \<Rightarrow> 0)"

lemma json_amount_promotion [simp]: "json_amount (promotion_json a) = av_amount a"
  by (simp add: json_amount_def promotion_json_def json_int_def)

section \<open>Deposit and status\<close>

lemma ask_deposit_Inr:
  assumes "ask_deposit s now facts q o' = Inr (o1, m)"
  obtains "o1 = o'" "m = kr_payment_method q" "kr_payment_method q \<noteq> Some ''cod'' \<or> deposit_of s facts o' \<le> 0"
  | g p where "kr_payment_method q = Some ''cod''" "0 < deposit_of s facts o'" "kr_deposit_gateway q = Some g"
      "ks_deposit_policy s = Some p" "g \<in> set (dy_allowed_gateways p)" "m = Some (if g = ''paymob'' then ''paymob_card'' else g)"
      "o1 = o'\<lparr>ord_status := PENDING_DEPOSIT, ord_deposit_required_cents := Some (deposit_of s facts o'),
         ord_deposit_amount_cents := Some (deposit_of s facts o'),
         ord_deposit_expires_at := Some (now + (if dy_ttl_minutes p = 0 then 30 else dy_ttl_minutes p) * 60 * 1000000),
         ord_deposit_gateway := Some g\<rparr>"
proof (cases "ks_deposit_policy s")
  case None
  then have "deposit_of s facts o' = 0" by (simp add: deposit_of_def deposit_due_cents_def)
  then show ?thesis using that(1) assms None by (simp add: ask_deposit_def Let_def)
next
  case (Some p)
  show ?thesis
  proof (cases "kr_payment_method q = Some ''cod'' \<and> 0 < deposit_of s facts o'")
    case False
    then have "o1 = o'" "m = kr_payment_method q" using assms Some by (auto simp: ask_deposit_def Let_def)
    then show ?thesis using that(1) False by force
  next
    case True
    then obtain g where g: "kr_deposit_gateway q = Some g" using assms Some by (cases "kr_deposit_gateway q") (auto simp: ask_deposit_def Let_def)
    show ?thesis
      by (rule that(2) [of g p]) (use assms Some True g in \<open>auto simp: ask_deposit_def Let_def split: if_splits\<close>)
  qed
qed

lemma deposit_within_total: "0 < deposit_of s facts o' \<Longrightarrow> deposit_of s facts o' \<le> ord_total o'"
  by (auto simp: deposit_of_def deposit_due_cents_def Let_def split: if_splits option.splits)

text \<open>The status an order starts with.\<close>

definition first_status :: "bool \<Rightarrow> string option \<Rightarrow> order_status" where
  "first_status deposit m = (if deposit then PENDING_DEPOSIT else if by_card m then AWAITING_PAYMENT else PENDING)"

lemma checkout_order_status:
  assumes "ask_deposit s now facts q (checkout_order s e q pls d c t) = Inr (o1, m)"
  defines "o2 \<equiv> hold_for_payment m o1"
  defines "due \<equiv> deposit_of s facts (checkout_order s e q pls d c t)"
  shows "ord_status o2 = first_status (kr_payment_method q = Some ''cod'' \<and> 0 < due) (kr_payment_method q)
    \<and> ord_deposit_required_cents o2 = (if kr_payment_method q = Some ''cod'' \<and> 0 < due then Some due else None)
    \<and> (kr_payment_method q = Some ''cod'' \<and> 0 < due \<longrightarrow> (\<exists>p g. ks_deposit_policy s = Some p \<and> g \<in> set (dy_allowed_gateways p)
        \<and> ord_deposit_gateway o2 = Some g))"
proof (rule ask_deposit_Inr [OF assms(1)])
  assume "o1 = checkout_order s e q pls d c t" "m = kr_payment_method q"
    "kr_payment_method q \<noteq> Some ''cod'' \<or> deposit_of s facts (checkout_order s e q pls d c t) \<le> 0"
  then show ?thesis unfolding o2_def due_def
    by (auto simp: hold_for_payment_def first_status_def checkout_order_def)
next
  fix g p
  assume "kr_payment_method q = Some ''cod''" "0 < deposit_of s facts (checkout_order s e q pls d c t)"
    "ks_deposit_policy s = Some p" "g \<in> set (dy_allowed_gateways p)"
    "o1 = (checkout_order s e q pls d c t)\<lparr>ord_status := PENDING_DEPOSIT,
         ord_deposit_required_cents := Some (deposit_of s facts (checkout_order s e q pls d c t)),
         ord_deposit_amount_cents := Some (deposit_of s facts (checkout_order s e q pls d c t)),
         ord_deposit_expires_at := Some (now + (if dy_ttl_minutes p = 0 then 30 else dy_ttl_minutes p) * 60 * 1000000),
         ord_deposit_gateway := Some g\<rparr>"
  then show ?thesis unfolding o2_def due_def by (simp add: hold_for_payment_def first_status_def)
qed

text \<open>What the new order of an accepted checkout is.\<close>

lemma checkout_creates:
  assumes "storefront_checkout s front e q st = Inr st'"
  obtains x pls d c cu where
    "od_orders (ck_desk st') = od_orders (ck_desk st) @ [x]"
    "order_core (do_order x) = order_core (checkout_order s e q pls d c (checkout_totals_of s q pls d c))"
    "order_ok (checkout_order s e q pls d c (checkout_totals_of s q pls d c))"
    "price_lines (ke_now e) (ks_id s) (sf_catalog front) (od_stock (ck_desk st)) (kr_lines q) = Inr pls"
    "list_all (\<lambda>pl. order_line_ok (pl_line pl)) pls"
    "checkout_discounts s front e cu q pls (ck_coupons st) = Inr d"
    "shipping_charge_of s front q pls = Inr c"
    "ord_status (do_order x) = first_status (ord_deposit_required_cents (do_order x) \<noteq> None) (kr_payment_method q)"
    "\<forall>n. ord_deposit_required_cents (do_order x) = Some n \<longrightarrow> kr_payment_method q = Some ''cod'' \<and> 0 < n
       \<and> n = deposit_of s (order_facts_of s e q pls (ck_desk st)) (checkout_order s e q pls d c (checkout_totals_of s q pls d c))
       \<and> (\<exists>p g. ks_deposit_policy s = Some p \<and> g \<in> set (dy_allowed_gateways p) \<and> ord_deposit_gateway (do_order x) = Some g)"
    "kr_payment_method q = Some ''cod''
       \<and> 0 < deposit_of s (order_facts_of s e q pls (ck_desk st)) (checkout_order s e q pls d c (checkout_totals_of s q pls d c))
       \<longrightarrow> ord_deposit_required_cents (do_order x) \<noteq> None"
    "od_events (ck_desk st') = od_events (ck_desk st)
       @ (if ord_status (do_order x) = AWAITING_PAYMENT then [] else [OrderCreated (ke_order_id e)])"
    "lookup_by do_id (ke_order_id e) (od_orders (ck_desk st)) = None" "ck_coupons st' = ds_coupons d"
    "lookup_by cu_id (ke_customer_id e) (ck_customers st) = Some cu"
    "ck_customers st' = replace_by cu_id (cu\<lparr>cu_total_orders := cu_total_orders cu + 1,
       cu_total_spent := cu_total_spent cu + ord_total (do_order x)\<rparr>) (ck_customers st)"
proof (rule storefront_checkout_Inr [OF assms])
  fix cu pls d debited stock
  assume h: "price_lines (ke_now e) (ks_id s) (sf_catalog front) (od_stock (ck_desk st)) (kr_lines q) = Inr pls"
    "list_all (\<lambda>pl. order_line_ok (pl_line pl)) pls" "checkout_discounts s front e cu q pls (ck_coupons st) = Inr d"
    "lookup_by cu_id (ke_customer_id e) (ck_customers st) = Some cu"
    and p: "place_order s front e q pls d debited stock cu st = Inr st'"
  show thesis
  proof (rule place_order_Inr [OF p])
    fix c o1 m
    let ?o = "checkout_order s e q pls d c (checkout_totals_of s q pls d c)"
    assume c: "shipping_charge_of s front q pls = Inr c" and ok: "order_ok ?o"
      and f: "lookup_by do_id (ke_order_id e) (od_orders (ck_desk st)) = None"
      and a: "ask_deposit s (ke_now e) (order_facts_of s e q pls (ck_desk st)) q ?o = Inr (o1, m)"
      and x: "od_orders (ck_desk st') = od_orders (ck_desk st) @ [\<lparr>do_order = hold_for_payment m o1,
         do_note = (if debited = [] then no_stock_note
                  else no_stock_note\<lparr>sn_debited := Some (build_debit_manifest (ke_now e) debited)\<rparr>)\<rparr>]"
      and ev: "od_events (ck_desk st') = od_events (ck_desk st)
         @ (if ord_status (hold_for_payment m o1) = AWAITING_PAYMENT then [] else [OrderCreated (ke_order_id e)])"
      and cp: "ck_coupons st' = ds_coupons d"
      and cs: "ck_customers st' = replace_by cu_id (cu\<lparr>cu_total_orders := cu_total_orders cu + 1,
         cu_total_spent := cu_total_spent cu + ord_total (hold_for_payment m o1)\<rparr>) (ck_customers st)"
    let ?due = "deposit_of s (order_facts_of s e q pls (ck_desk st)) ?o"
    define o2 where "o2 = hold_for_payment m o1"
    define B where "B \<longleftrightarrow> kr_payment_method q = Some ''cod'' \<and> 0 < ?due"
    note stt = checkout_order_status [OF a, folded B_def o2_def]
    have s1: "ord_status o2 = first_status (ord_deposit_required_cents o2 \<noteq> None) (kr_payment_method q)" using stt by simp
    have s2: "\<forall>n. ord_deposit_required_cents o2 = Some n \<longrightarrow> kr_payment_method q = Some ''cod'' \<and> 0 < n \<and> n = ?due
       \<and> (\<exists>p g. ks_deposit_policy s = Some p \<and> g \<in> set (dy_allowed_gateways p) \<and> ord_deposit_gateway o2 = Some g)"
      using stt by (cases B) (auto simp: B_def)
    have s3: "kr_payment_method q = Some ''cod'' \<and> 0 < ?due \<longrightarrow> ord_deposit_required_cents o2 \<noteq> None"
      using stt by (simp add: B_def)
    have core: "order_core o2 = order_core ?o" using ask_deposit_core [OF a] by (simp add: o2_def)
    note ev = ev [folded o2_def] and cs = cs [folded o2_def]
    show thesis
      by (rule that [OF x [folded o2_def] _ ok h(1-3) c])
        ((simp only: desk_order.simps)?, fact core s1 s2 s3 ev f cp h(4) cs)+
  qed
qed

text \<open>A rate that resolves belongs to an active zone that covers the destination.\<close>

lemma resolve_one_zone:
  assumes "resolve_one_rate R rid d db = Some r"
  obtains z where "get_zone (ro_zone_id r) db = Some z" "sz_is_active z" "dl_governorate d \<in> set (sz_governorate_codes z)"
    "dl_cod d \<longrightarrow> sz_cod_enabled z" "ro_rate_id r = rid" "ro_zone_id r = sz_id z"
proof -
  obtain t z where t: "get_rate rid db = Some t" "get_zone (sr_zone_id t) db = Some z" "sz_is_active z"
    "dl_governorate d \<in> set (sz_governorate_codes z)" "dl_cod d \<longrightarrow> sz_cod_enabled z" "evaluate_rate R t z d = Some r"
    using assms by (auto simp: resolve_one_rate_def split: option.splits if_splits)
  have "sr_id t = rid" "sz_id z = sr_zone_id t"
    using t(1,2) by (auto simp: get_rate_def get_zone_def dest: lookup_by_in)
  moreover have "ro_rate_id r = sr_id t" "ro_zone_id r = sz_id z"
    using t(6) by (auto simp: evaluate_rate_def split: option.splits)
  ultimately show thesis using that t(2-5) by simp
qed

section \<open>Properties\<close>

definition demo_shop_store :: checkout_store where
  "demo_shop_store = \<lparr>ks_id = 2, ks_tenant_id = Some 9, ks_currency = ''EGP'', ks_tax_settings = [], ks_market_rate = 7 / 50,
     ks_restrict_to_zones = True, ks_cod_rules = None,
     ks_deposit_policy = Some \<lparr>dy_enabled = True, dy_percent_mode = True, dy_amount_cents = 0, dy_percent = 50,
       dy_min_order_cents = 0, dy_ttl_minutes = 30, dy_auto_refund_on_cancel = False, dy_allowed_gateways = [''kashier'']\<rparr>,
     ks_cod_shield = True, ks_cod_trust_enabled = False\<rparr>"

definition demo_front :: shop_front where
  "demo_front = \<lparr>sf_catalog = \<lparr>cg_products = [\<lparr>ct_id = 1, ct_store_id = 2, ct_name = ''Bread'', ct_price = from_cents 11400 EGP,
       ct_sku = None, ct_product_type = Physical, ct_status = ProductUnlisted, ct_weight = Some (1 / 2), ct_images = [], ct_category_id = None,
       ct_requires_shipping = True, ct_tax_exempt = False, ct_sale_price = Some (from_cents 10000 EGP),
       ct_sale_starts_at = Some 10, ct_sale_ends_at = None\<rparr>], cg_variants = []\<rparr>,
     sf_promotions = demo_sale,
     sf_shipping = \<lparr>sd_zones = [\<lparr>sz_id = 30, sz_tenant_id = 9, sz_store_id = 2, sz_name = ''Cairo'', sz_name_ar = None,
         sz_days_min = 1, sz_days_max = 2, sz_cod_enabled = True, sz_cod_fee_cents = 0, sz_is_active = True,
         sz_sort_order = 0, sz_governorate_codes = [''EG-C'']\<rparr>],
       sd_rates = [\<lparr>sr_id = 31, sr_tenant_id = 9, sr_zone_id = 30, sr_config = ConfigFlat 500, sr_label = ''Standard'',
         sr_label_ar = None, sr_is_active = True, sr_sort_order = 0\<rparr>]\<rparr>,
     sf_resolver = \<lparr>rv_currency = ''EGP'', rv_cod_shield = (\<lambda>_. True), rv_quotes = (\<lambda>_ _ _. None)\<rparr>\<rparr>"

definition demo_env :: "uuid \<Rightarrow> checkout_env" where
  "demo_env i = \<lparr>ke_now = 15, ke_order_id = i, ke_order_number = ''1001'', ke_customer_id = 3, ke_is_guest = False,
     ke_trust = \<lparr>td_allowed = True, td_high_risk = False, td_hold = False\<rparr>, ke_otp_pending = False, ke_cart_note = None,
     ke_visit = \<lparr>vs_utm_source = None, vs_utm_medium = None, vs_utm_campaign = None, vs_utm_term = None,
       vs_utm_content = None, vs_campaign_id = None, vs_attribution = None, vs_first_touch_at = None, vs_metadata = Map.empty\<rparr>\<rparr>"

definition demo_request :: "string \<Rightarrow> string option \<Rightarrow> checkout_request" where
  "demo_request method code = \<lparr>kr_lines = [\<lparr>xl_product_id = 1, xl_variant_id = None, xl_quantity = 2, xl_selections = []\<rparr>],
     kr_shipping_address = demo_address\<lparr>oa_state := Some ''EG-C''\<rparr>, kr_billing_address = None,
     kr_payment_method = Some method, kr_shipping_method = None, kr_rate_id = Some 31, kr_cod_requested = True,
     kr_deposit_gateway = Some ''kashier'', kr_customer_notes = None, kr_coupon_code = code, kr_session_fingerprint = None\<rparr>"

definition demo_checkout_state :: checkout_state where
  "demo_checkout_state = \<lparr>ck_desk = \<lparr>od_stock = demo_stock, od_orders = [], od_events = []\<rparr>,
     ck_coupons = [demo_coupon CtPercentage 20 None None],
     ck_customers = [\<lparr>cu_id = 3, cu_store_id = 2, cu_tags = [], cu_has_account = True, cu_is_verified = True, cu_total_orders = 0, cu_total_spent = 0\<rparr>]\<rparr>"

text \<open>A cash order of two loaves on sale, with two automatic promotions, flat shipping and a deposit of one half.\<close>

lemma demo_accepted:
  obtains st' where "storefront_checkout demo_shop_store demo_front (demo_env 51) (demo_request ''cod'' None) demo_checkout_state = Inr st'"
proof -
  have "case storefront_checkout demo_shop_store demo_front (demo_env 51) (demo_request ''cod'' None) demo_checkout_state of
    Inl _ \<Rightarrow> False | Inr _ \<Rightarrow> True" by code_simp
  then show thesis using that by (auto split: sum.splits)
qed

lemma demo_front_ok:
  "prepaid_rule_ok (cr_prepaid (get_cod_rules (ks_cod_rules demo_shop_store)))"
  "distinct (map pr_id (db_promotions (sf_promotions demo_front)))"
  by (simp_all add: demo_shop_store_def get_cod_rules_def prepaid_rule_ok_def no_incentive_rule_def demo_front_def
      demo_sale_def demo_promotion_def)

text \<open>
  C1: what checkout charges. An accepted checkout adds one order. Its subtotal is the sum of price times
  quantity of its lines, its total is subtotal plus shipping less discount with nothing added for tax, and shipping,
  tax and discount are non-negative with the discount within the subtotal. For every way of paying, the discount is exactly what
  the code saves, plus the promotions the order's snapshot names, plus the prepaid incentive worked out on these two. Without a
  code there is no first part and a cash order gets no incentive, so that there the snapshot alone accounts for the discount.
  A deposit is positive and at most the total.
\<close>

theorem checkout_charges:
  assumes "storefront_checkout s front e q st = Inr st'"
    and "prepaid_rule_ok (cr_prepaid (get_cod_rules (ks_cod_rules s)))"
    and "distinct (map pr_id (db_promotions (sf_promotions front)))"
  shows "\<exists>x. od_orders (ck_desk st') = od_orders (ck_desk st) @ [x]
    \<and> ord_subtotal (do_order x) = (\<Sum>l\<leftarrow>ord_line_items (do_order x). ol_unit_price l * ol_quantity l)
    \<and> ord_total (do_order x)
        = ord_subtotal (do_order x) + ord_shipping_cost (do_order x) - ord_discount_amount (do_order x)
    \<and> 0 \<le> ord_shipping_cost (do_order x) \<and> 0 \<le> ord_tax_amount (do_order x)
    \<and> 0 \<le> ord_discount_amount (do_order x) \<and> ord_discount_amount (do_order x) \<le> ord_subtotal (do_order x)
    \<and> (\<exists>cu pls. lookup_by cu_id (ke_customer_id e) (ck_customers st) = Some cu
        \<and> price_lines (ke_now e) (ks_id s) (sf_catalog front) (od_stock (ck_desk st)) (kr_lines q) = Inr pls
        \<and> (let code = code_saving s front e cu q pls (ck_coupons st);
                named = sum_list (map json_amount (ord_applied_promotions (do_order x)))
           in 0 \<le> named \<and> (\<not> truthy_str (kr_coupon_code q) \<longrightarrow> code = 0)
             \<and> ord_discount_amount (do_order x)
                = code + named + in_discount_cents (incentive_of s q (ord_subtotal (do_order x)) (code + named))))
    \<and> (\<not> truthy_str (kr_coupon_code q) \<and> is_cod_request q
        \<longrightarrow> sum_list (map json_amount (ord_applied_promotions (do_order x))) = ord_discount_amount (do_order x))
    \<and> (\<forall>n. ord_deposit_required_cents (do_order x) = Some n \<longrightarrow> 0 < n \<and> n \<le> ord_total (do_order x))"
proof (rule checkout_creates [OF assms(1)])
  fix x pls d c cu
  let ?o = "checkout_order s e q pls d c (checkout_totals_of s q pls d c)" and ?t = "checkout_totals_of s q pls d c"
  assume x: "od_orders (ck_desk st') = od_orders (ck_desk st) @ [x]" and core: "order_core (do_order x) = order_core ?o"
    and ok: "order_ok ?o" and lines: "list_all (\<lambda>pl. order_line_ok (pl_line pl)) pls"
    and pls: "price_lines (ke_now e) (ks_id s) (sf_catalog front) (od_stock (ck_desk st)) (kr_lines q) = Inr pls"
    and d: "checkout_discounts s front e cu q pls (ck_coupons st) = Inr d"
    and cu: "lookup_by cu_id (ke_customer_id e) (ck_customers st) = Some cu"
    and dep: "\<forall>n. ord_deposit_required_cents (do_order x) = Some n \<longrightarrow> kr_payment_method q = Some ''cod'' \<and> 0 < n
       \<and> n = deposit_of s (order_facts_of s e q pls (ck_desk st)) ?o
       \<and> (\<exists>p g. ks_deposit_policy s = Some p \<and> g \<in> set (dy_allowed_gateways p) \<and> ord_deposit_gateway (do_order x) = Some g)"
  have pos: "0 \<le> lines_subtotal pls" by (rule lines_subtotal_nonneg [OF lines])
  have f: "ord_line_items (do_order x) = map pl_line pls" "ord_subtotal (do_order x) = lines_subtotal pls"
    "ord_shipping_cost (do_order x) = kt_shipping ?t" "ord_discount_amount (do_order x) = kt_discount ?t"
    "ord_tax_amount (do_order x) = tx_included_tax_cents (kt_tax ?t)"
    "ord_total (do_order x) = lines_subtotal pls + kt_shipping ?t - kt_discount ?t" "ord_total (do_order x) = ord_total ?o"
    "ord_applied_promotions (do_order x) = map promotion_json (ds_applied d)"
    using core unfolding checkout_order_core by (simp_all add: order_core_def checkout_totals_of_def Let_def checkout_order_def)
  have nn: "0 \<le> kt_shipping ?t" "0 \<le> kt_discount ?t" "0 \<le> tx_included_tax_cents (kt_tax ?t)"
    using ok by (simp_all add: order_ok_def checkout_order_def)
  have le: "kt_discount ?t \<le> lines_subtotal pls"
    using prepaid_incentive_bounds [OF assms(2) checkout_discounts_bound [OF d pos], of "is_cod_request q"]
      checkout_discounts_bound [OF d pos]
    by (auto simp: checkout_totals_of_def Let_def incentive_of_def no_incentive_def)
  have cod: "kt_discount ?t = ds_discount d" if "is_cod_request q"
    using that by (simp add: checkout_totals_of_def Let_def incentive_of_def prepaid_incentive_def no_incentive_def)
  have depo: "\<forall>n. ord_deposit_required_cents (do_order x) = Some n \<longrightarrow> 0 < n \<and> n \<le> ord_total (do_order x)"
    using dep deposit_within_total unfolding f(7) by blast
  have sub: "ord_subtotal (do_order x) = (\<Sum>l\<leftarrow>ord_line_items (do_order x). ol_unit_price l * ol_quantity l)"
    by (simp add: f(1,2) lines_subtotal_sum comp_def)
  have tot: "ord_total (do_order x) = ord_subtotal (do_order x) + ord_shipping_cost (do_order x) - ord_discount_amount (do_order x)"
    unfolding f(2-4) by (rule f(6))
  let ?code = "code_saving s front e cu q pls (ck_coupons st)" and ?named = "sum_list (map av_amount (ds_applied d))"
  have code: "0 \<le> ?named" "ds_discount d = ?code + ?named" "\<not> truthy_str (kr_coupon_code q) \<longrightarrow> ?code = 0"
    using discounts_snapshot [OF d pos assms(3)] by blast+
  have named: "sum_list (map json_amount (ord_applied_promotions (do_order x))) = ?named"
    by (simp add: f(8) comp_def)
  have snap: "\<not> truthy_str (kr_coupon_code q) \<and> is_cod_request q
      \<longrightarrow> sum_list (map json_amount (ord_applied_promotions (do_order x))) = ord_discount_amount (do_order x)"
    using code(2,3) cod by (simp add: named f(4))
  have split: "ord_discount_amount (do_order x)
      = ?code + ?named + in_discount_cents (incentive_of s q (ord_subtotal (do_order x)) (?code + ?named))"
    by (simp add: f(2,4) code(2) [symmetric] checkout_totals_of_def Let_def)
  have parts: "\<exists>cu pls. lookup_by cu_id (ke_customer_id e) (ck_customers st) = Some cu
        \<and> price_lines (ke_now e) (ks_id s) (sf_catalog front) (od_stock (ck_desk st)) (kr_lines q) = Inr pls
        \<and> (let code = code_saving s front e cu q pls (ck_coupons st);
                named = sum_list (map json_amount (ord_applied_promotions (do_order x)))
           in 0 \<le> named \<and> (\<not> truthy_str (kr_coupon_code q) \<longrightarrow> code = 0)
             \<and> ord_discount_amount (do_order x)
                = code + named + in_discount_cents (incentive_of s q (ord_subtotal (do_order x)) (code + named)))"
    unfolding named Let_def by (intro exI [of _ cu] exI [of _ pls] conjI cu pls code(1,3) split)
  show ?thesis
    using nn le by (intro exI [of _ x] conjI x sub tot parts snap depo) (simp_all add: f(2-5))
qed

theorem checkout_charges_witness:
  "\<exists>st' x. storefront_checkout demo_shop_store demo_front (demo_env 51) (demo_request ''cod'' None) demo_checkout_state = Inr st'
    \<and> od_orders (ck_desk st') = [x] \<and> ord_discount_amount (do_order x) \<le> ord_subtotal (do_order x)
    \<and> sum_list (map json_amount (ord_applied_promotions (do_order x))) = ord_discount_amount (do_order x)"
proof (rule demo_accepted)
  fix st' assume st': "storefront_checkout demo_shop_store demo_front (demo_env 51) (demo_request ''cod'' None) demo_checkout_state = Inr st'"
  have q: "\<not> truthy_str (kr_coupon_code (demo_request ''cod'' None)) \<and> is_cod_request (demo_request ''cod'' None)"
    by (simp add: demo_request_def is_cod_request_def truthy_str_def)
  have none: "od_orders (ck_desk demo_checkout_state) = []" by (simp add: demo_checkout_state_def)
  from checkout_charges [OF st' demo_front_ok] q none st' show ?thesis by auto
qed

text \<open>
  C4: the server sets the prices. In an accepted checkout every line of the order is the submitted line with its product,
  variant and quantity, its product is one of the store that may be bought, and its unit price is the one of
  the catalogue for the variant named, or the effective price of the product at that moment.
\<close>

theorem checkout_prices:
  assumes "storefront_checkout s front e q st = Inr st'"
  shows "\<exists>x. od_orders (ck_desk st') = od_orders (ck_desk st) @ [x]
    \<and> list_all2 (\<lambda>l ol. ol_product_id ol = xl_product_id l \<and> ol_variant_id ol = xl_variant_id l
          \<and> ol_quantity ol = xl_quantity l
          \<and> catalog_charge (ke_now e) (sf_catalog front) (od_stock (ck_desk st)) l = Some (ol_unit_price ol)
          \<and> (\<exists>p\<in>set (cg_products (sf_catalog front)). ct_id p = xl_product_id l \<and> ct_store_id p = ks_id s
              \<and> ct_status p \<in> {ProductActive, ProductUnlisted}))
        (kr_lines q) (ord_line_items (do_order x))"
proof (rule checkout_creates [OF assms])
  fix x pls d c
  assume x: "od_orders (ck_desk st') = od_orders (ck_desk st) @ [x]"
    and core: "order_core (do_order x) = order_core (checkout_order s e q pls d c (checkout_totals_of s q pls d c))"
    and p: "price_lines (ke_now e) (ks_id s) (sf_catalog front) (od_stock (ck_desk st)) (kr_lines q) = Inr pls"
  have l: "ord_line_items (do_order x) = map pl_line pls"
    using core unfolding checkout_order_core by (simp add: order_core_def)
  have "list_all2 (\<lambda>l pl. ol_product_id (pl_line pl) = xl_product_id l \<and> ol_variant_id (pl_line pl) = xl_variant_id l
          \<and> ol_quantity (pl_line pl) = xl_quantity l
          \<and> catalog_charge (ke_now e) (sf_catalog front) (od_stock (ck_desk st)) l = Some (ol_unit_price (pl_line pl))
          \<and> (\<exists>p\<in>set (cg_products (sf_catalog front)). ct_id p = xl_product_id l \<and> ct_store_id p = ks_id s
              \<and> ct_status p \<in> {ProductActive, ProductUnlisted})) (kr_lines q) pls"
    using p unfolding price_lines_all by (rule list_all2_mono) (use price_line_charge in blast)
  then show ?thesis using x l by (auto simp: list.rel_map)
qed

theorem checkout_prices_witness:
  "\<exists>st' x. storefront_checkout demo_shop_store demo_front (demo_env 51) (demo_request ''cod'' None) demo_checkout_state = Inr st'
    \<and> od_orders (ck_desk st') = [x] \<and> length (ord_line_items (do_order x)) = 1"
proof (rule demo_accepted)
  fix st' assume st': "storefront_checkout demo_shop_store demo_front (demo_env 51) (demo_request ''cod'' None) demo_checkout_state = Inr st'"
  have "od_orders (ck_desk demo_checkout_state) = []" "length (kr_lines (demo_request ''cod'' None)) = 1"
    by (simp_all add: demo_checkout_state_def demo_request_def)
  with checkout_prices [OF st'] st' show ?thesis by (auto dest!: list_all2_lengthD)
qed

text \<open>
  C15: how an order starts. It waits for its deposit exactly when it is paid by the method cod and the policy and
  the rules of the store ask for one, and then names an allowed gateway; otherwise it waits for its payment
  when the method is a card gateway, and is pending when it is not. The order is announced
  exactly when it does not wait for a card payment.
\<close>

theorem checkout_first_status:
  assumes "storefront_checkout s front e q st = Inr st'"
  shows "\<exists>x. od_orders (ck_desk st') = od_orders (ck_desk st) @ [x]
    \<and> ord_status (do_order x) = first_status (ord_deposit_required_cents (do_order x) \<noteq> None) (kr_payment_method q)
    \<and> od_events (ck_desk st') = od_events (ck_desk st)
        @ (if ord_deposit_required_cents (do_order x) = None \<and> by_card (kr_payment_method q) then [] else [OrderCreated (ke_order_id e)])
    \<and> (ord_deposit_required_cents (do_order x) \<noteq> None \<longrightarrow> kr_payment_method q = Some ''cod''
        \<and> (\<exists>p g. ks_deposit_policy s = Some p \<and> g \<in> set (dy_allowed_gateways p)
            \<and> ord_deposit_gateway (do_order x) = Some g
            \<and> ord_deposit_required_cents (do_order x) = Some (deposit_due_cents (Some p) (ord_total (do_order x)))))
    \<and> (kr_payment_method q = Some ''cod'' \<and> ks_cod_shield s \<and> cr_deposit (get_cod_rules (ks_cod_rules s)) = everyone_conditions
        \<and> 0 < deposit_due_cents (ks_deposit_policy s) (ord_total (do_order x))
        \<longrightarrow> ord_status (do_order x) = PENDING_DEPOSIT)"
proof (rule checkout_creates [OF assms])
  fix x pls d c
  let ?o = "checkout_order s e q pls d c (checkout_totals_of s q pls d c)"
  let ?f = "order_facts_of s e q pls (ck_desk st)"
  assume x: "od_orders (ck_desk st') = od_orders (ck_desk st) @ [x]"
    and core: "order_core (do_order x) = order_core ?o"
    and st: "ord_status (do_order x) = first_status (ord_deposit_required_cents (do_order x) \<noteq> None) (kr_payment_method q)"
    and dep: "\<forall>n. ord_deposit_required_cents (do_order x) = Some n \<longrightarrow> kr_payment_method q = Some ''cod'' \<and> 0 < n
       \<and> n = deposit_of s ?f ?o
       \<and> (\<exists>p g. ks_deposit_policy s = Some p \<and> g \<in> set (dy_allowed_gateways p) \<and> ord_deposit_gateway (do_order x) = Some g)"
    and asked: "kr_payment_method q = Some ''cod'' \<and> 0 < deposit_of s ?f ?o \<longrightarrow> ord_deposit_required_cents (do_order x) \<noteq> None"
    and ev: "od_events (ck_desk st') = od_events (ck_desk st)
       @ (if ord_status (do_order x) = AWAITING_PAYMENT then [] else [OrderCreated (ke_order_id e)])"
  have total: "ord_total (do_order x) = ord_total ?o" using core by (simp add: order_core_def)
  have waits: "ord_status (do_order x) = AWAITING_PAYMENT \<longleftrightarrow> ord_deposit_required_cents (do_order x) = None \<and> by_card (kr_payment_method q)"
    unfolding st by (simp add: first_status_def)
  have amount: "n = deposit_due_cents (Some p) (ord_total (do_order x))"
    if "ord_deposit_required_cents (do_order x) = Some n" "ks_deposit_policy s = Some p" for n p
    using dep that by (auto simp: deposit_of_def total split: if_splits)
  have every: "ord_status (do_order x) = PENDING_DEPOSIT"
    if "kr_payment_method q = Some ''cod''" "ks_cod_shield s" "cr_deposit (get_cod_rules (ks_cod_rules s)) = everyone_conditions"
      "0 < deposit_due_cents (ks_deposit_policy s) (ord_total (do_order x))"
  proof -
    have "applies everyone_conditions ?f" using that(1)
      by (simp add: applies_def order_facts_of_def is_cod_request_def everyone_conditions_def)
    then have "ord_deposit_required_cents (do_order x) \<noteq> None" using asked that by (simp add: deposit_of_def total)
    then show ?thesis by (simp add: st first_status_def)
  qed
  have named: "kr_payment_method q = Some ''cod'' \<and> (\<exists>p g. ks_deposit_policy s = Some p \<and> g \<in> set (dy_allowed_gateways p)
      \<and> ord_deposit_gateway (do_order x) = Some g
      \<and> ord_deposit_required_cents (do_order x) = Some (deposit_due_cents (Some p) (ord_total (do_order x))))"
    if r: "ord_deposit_required_cents (do_order x) \<noteq> None"
  proof -
    obtain n where n: "ord_deposit_required_cents (do_order x) = Some n" using r by blast
    obtain p g where pg: "kr_payment_method q = Some ''cod''" "ks_deposit_policy s = Some p" "g \<in> set (dy_allowed_gateways p)"
      "ord_deposit_gateway (do_order x) = Some g" using dep [rule_format, OF n] by (elim conjE exE) (rule that)
    then show ?thesis using n amount [OF n pg(2)] by blast
  qed
  have ev2: "od_events (ck_desk st') = od_events (ck_desk st)
      @ (if ord_deposit_required_cents (do_order x) = None \<and> by_card (kr_payment_method q) then [] else [OrderCreated (ke_order_id e)])"
    using ev unfolding waits .
  show ?thesis by (rule exI [of _ x], intro conjI x st ev2) (rule impI, erule named, intro impI, elim conjE, rule every, assumption+)
qed

theorem checkout_first_status_witness:
  "\<exists>st' x. storefront_checkout demo_shop_store demo_front (demo_env 51) (demo_request ''cod'' None) demo_checkout_state = Inr st'
    \<and> od_orders (ck_desk st') = [x] \<and> od_events (ck_desk st') = [OrderCreated 51]"
proof (rule demo_accepted)
  fix st' assume st': "storefront_checkout demo_shop_store demo_front (demo_env 51) (demo_request ''cod'' None) demo_checkout_state = Inr st'"
  have "od_orders (ck_desk demo_checkout_state) = []" "od_events (ck_desk demo_checkout_state) = []"
    "\<not> by_card (kr_payment_method (demo_request ''cod'' None))" "ke_order_id (demo_env 51) = 51"
    by (simp_all add: demo_checkout_state_def demo_request_def by_card_def card_gateway_prefixes_def demo_env_def)
  with checkout_first_status [OF st'] st' show ?thesis by auto
qed

text \<open>
  C14: what delivery costs. An accepted checkout pays for delivery in one of three ways, and nothing else makes it free. A store without
  active zones that does not restrict itself to them may leave the rate out, and a store that does not restrict itself
  may name the default rate: then delivery is free. Otherwise the rate named resolves, for the governorate of the address and
  the basket, to an option of an active zone covering it, and the cost is that option's price, unless no line needs shipping
  or the coupon, a promotion or the prepaid incentive grants free shipping: then it is nothing.
\<close>

theorem checkout_shipping:
  assumes "storefront_checkout s front e q st = Inr st'"
  shows "\<exists>x pls d cu. od_orders (ck_desk st') = od_orders (ck_desk st) @ [x]
    \<and> price_lines (ke_now e) (ks_id s) (sf_catalog front) (od_stock (ck_desk st)) (kr_lines q) = Inr pls
    \<and> lookup_by cu_id (ke_customer_id e) (ck_customers st) = Some cu
    \<and> checkout_discounts s front e cu q pls (ck_coupons st) = Inr d
    \<and> (kr_rate_id q = None \<and> \<not> has_active_zones (ks_id s) (sf_shipping front) \<and> \<not> ks_restrict_to_zones s
          \<and> ord_shipping_cost (do_order x) = 0
       \<or> kr_rate_id q = Some DEFAULT_SHIPPING_RATE_ID \<and> \<not> ks_restrict_to_zones s \<and> ord_shipping_cost (do_order x) = 0
       \<or> (\<exists>rid g z r. kr_rate_id q = Some rid \<and> destination (kr_shipping_address q) = Some g
            \<and> resolve_one_rate ((sf_resolver front)\<lparr>rv_currency := ks_currency s\<rparr>) rid (delivery_of s q g pls) (sf_shipping front) = Some r
            \<and> get_zone (ro_zone_id r) (sf_shipping front) = Some z \<and> sz_is_active z \<and> gv_code g \<in> set (sz_governorate_codes z)
            \<and> (kr_cod_requested q \<longrightarrow> sz_cod_enabled z)
            \<and> ord_shipping_rate_id (do_order x) = Some rid \<and> ord_shipping_zone_id (do_order x) = Some (sz_id z)
            \<and> ord_shipping_cost (do_order x) =
               (if \<not> list_ex pl_requires_shipping pls \<or> ds_free_shipping d
                   \<or> in_free_shipping (incentive_of s q (ord_subtotal (do_order x)) (ds_discount d))
                then 0 else ro_amount_cents r)))"
proof (rule checkout_creates [OF assms])
  fix x pls d c cu
  let ?R = "(sf_resolver front)\<lparr>rv_currency := ks_currency s\<rparr>" and ?t = "checkout_totals_of s q pls d c"
  assume x: "od_orders (ck_desk st') = od_orders (ck_desk st) @ [x]"
    and core: "order_core (do_order x) = order_core (checkout_order s e q pls d c ?t)"
    and ok: "order_ok (checkout_order s e q pls d c ?t)"
    and p: "price_lines (ke_now e) (ks_id s) (sf_catalog front) (od_stock (ck_desk st)) (kr_lines q) = Inr pls"
    and d: "checkout_discounts s front e cu q pls (ck_coupons st) = Inr d"
    and cu: "lookup_by cu_id (ke_customer_id e) (ck_customers st) = Some cu"
    and c: "shipping_charge_of s front q pls = Inr c"
  have f: "ord_shipping_rate_id (do_order x) = sc_rate_id c" "ord_shipping_zone_id (do_order x) = sc_zone_id c"
    "ord_shipping_cost (do_order x) = kt_shipping ?t" "ord_subtotal (do_order x) = lines_subtotal pls"
    using core unfolding checkout_order_core by (simp_all add: order_core_def checkout_totals_of_def Let_def)
  have cost: "ord_shipping_cost (do_order x) = (if \<not> list_ex pl_requires_shipping pls \<or> ds_free_shipping d
      \<or> in_free_shipping (incentive_of s q (ord_subtotal (do_order x)) (ds_discount d)) then 0 else sc_cents c)"
  proof -
    have "0 \<le> kt_shipping ?t" using ok by (simp add: order_ok_def checkout_order_def)
    then show ?thesis unfolding f(3,4)
      by (auto simp: checkout_totals_of_def shipping_cost_def Let_def split: if_splits)
  qed
  have zero: "ord_shipping_cost (do_order x) = 0" if "sc_cents c = 0" using cost that by simp
  have ways: "kr_rate_id q = None \<and> \<not> has_active_zones (ks_id s) (sf_shipping front) \<and> \<not> ks_restrict_to_zones s \<and> sc_cents c = 0
      \<or> kr_rate_id q = Some DEFAULT_SHIPPING_RATE_ID \<and> \<not> ks_restrict_to_zones s \<and> sc_cents c = 0
      \<or> (\<exists>rid g r. kr_rate_id q = Some rid \<and> destination (kr_shipping_address q) = Some g
          \<and> resolve_one_rate ?R rid (delivery_of s q g pls) (sf_shipping front) = Some r
          \<and> sc_cents c = ro_amount_cents r \<and> sc_zone_id c = Some (ro_zone_id r) \<and> sc_rate_id c = Some (ro_rate_id r))"
    using c by (auto simp: shipping_charge_of_def split: option.splits if_splits)
  show ?thesis using ways
  proof (elim disjE exE conjE)
    fix rid g r
    assume r: "kr_rate_id q = Some rid" "destination (kr_shipping_address q) = Some g"
      "resolve_one_rate ?R rid (delivery_of s q g pls) (sf_shipping front) = Some r"
      and sc: "sc_cents c = ro_amount_cents r" "sc_zone_id c = Some (ro_zone_id r)" "sc_rate_id c = Some (ro_rate_id r)"
    obtain z where z: "get_zone (ro_zone_id r) (sf_shipping front) = Some z" "sz_is_active z" "gv_code g \<in> set (sz_governorate_codes z)"
        "kr_cod_requested q \<longrightarrow> sz_cod_enabled z" "ro_rate_id r = rid" "ro_zone_id r = sz_id z"
      by (rule resolve_one_zone [OF r(3)]) (simp add: delivery_of_def)
    show ?thesis
      by (intro exI [of _ x] exI [of _ pls] exI [of _ d] exI [of _ cu] conjI x p cu d disjI2 exI [of _ rid] exI [of _ g] exI [of _ z]
          exI [of _ r] r z(1-4) cost [unfolded sc(1)]) (simp_all add: f(1,2) sc(2,3) z(5,6))
  qed (intro exI [of _ x] exI [of _ pls] exI [of _ d] exI [of _ cu], use x p cu d zero in simp)+
qed


theorem checkout_shipping_witness:
  "\<exists>st' x. storefront_checkout demo_shop_store demo_front (demo_env 51) (demo_request ''cod'' None) demo_checkout_state = Inr st'
    \<and> od_orders (ck_desk st') = [x] \<and> ord_shipping_rate_id (do_order x) = Some 31"
proof (rule demo_accepted)
  fix st' assume st': "storefront_checkout demo_shop_store demo_front (demo_env 51) (demo_request ''cod'' None) demo_checkout_state = Inr st'"
  have "od_orders (ck_desk demo_checkout_state) = []" "ks_restrict_to_zones demo_shop_store"
    "kr_rate_id (demo_request ''cod'' None) = Some 31"
    by (simp_all add: demo_checkout_state_def demo_request_def demo_shop_store_def)
  with checkout_shipping [OF st'] st' show ?thesis by auto
qed

end
