(* ===== verification/Checkout_Books.thy ===== *)
theory Checkout_Books
  imports Checkout Order_Stock
begin

text \<open>
  The storefront and the merchant's desk over time. Checkouts and the order use cases run in any order over the same tables
  of orders and stock; checkouts also count the uses of coupons and the orders of customers.
\<close>

datatype storefront_call =
    ByDesk order_desk_call
  | ByCheckout checkout_store shop_front checkout_env checkout_request

fun storefront_act :: "store_refs \<Rightarrow> (uuid \<Rightarrow> uuid option) \<Rightarrow> storefront_call \<Rightarrow> checkout_state \<Rightarrow> checkout_state result" where
  "storefront_act stores customers (ByDesk c) st =
     rbind (order_desk_act stores customers c (ck_desk st)) (\<lambda>d. Inr (st\<lparr>ck_desk := d\<rparr>))"
| "storefront_act stores customers (ByCheckout s front e q) st = storefront_checkout s front e q st"

text \<open>A checkout of a store runs for the tenant the store belongs to.\<close>

definition call_tenant_ok :: "store_refs \<Rightarrow> storefront_call \<Rightarrow> bool" where
  "call_tenant_ok stores c = (case c of
      ByDesk _ \<Rightarrow> True
    | ByCheckout s _ _ _ \<Rightarrow> (case stores (ks_id s) of None \<Rightarrow> False | Some (_, tid) \<Rightarrow> ks_tenant_id s = Some tid))"

definition returns_pieces :: "storefront_call \<Rightarrow> bool" where
  "returns_pieces c = (case c of ByDesk d \<Rightarrow> puts_pieces_back d | ByCheckout _ _ _ _ \<Rightarrow> False)"

section \<open>One checkout and the stock\<close>

lemma checkout_order_placed:
  assumes "storefront_checkout s front e q st = Inr st'"
  obtains x pls debited stock where
    "od_orders (ck_desk st') = od_orders (ck_desk st) @ [x]" "od_stock (ck_desk st') = stock"
    "price_lines (ke_now e) (ks_id s) (sf_catalog front) (od_stock (ck_desk st)) (kr_lines q) = Inr pls"
    "debit_lines (ks_tenant_id s) pls (od_stock (ck_desk st)) = Inr (debited, stock)"
    "list_all (\<lambda>pl. order_line_ok (pl_line pl)) pls"
    "do_note x = (if debited = [] then no_stock_note
                  else no_stock_note\<lparr>sn_debited := Some (build_debit_manifest (ke_now e) debited)\<rparr>)"
    "do_id x = ke_order_id e" "ord_store_id (do_order x) = ks_id s" "ord_tenant_id (do_order x) = ks_tenant_id s"
    "ord_line_items (do_order x) = map pl_line pls"
    "ord_status (do_order x) \<in> {PENDING, PENDING_DEPOSIT, AWAITING_PAYMENT}"
    "lookup_by do_id (ke_order_id e) (od_orders (ck_desk st)) = None"
proof (rule storefront_checkout_Inr [OF assms])
  fix cu pls d debited stock
  assume ok: "list_all (\<lambda>pl. order_line_ok (pl_line pl)) pls"
    and pls: "price_lines (ke_now e) (ks_id s) (sf_catalog front) (od_stock (ck_desk st)) (kr_lines q) = Inr pls"
    and db: "debit_lines (ks_tenant_id s) pls (od_stock (ck_desk st)) = Inr (debited, stock)"
    and p: "place_order s front e q pls d debited stock cu st = Inr st'"
  show thesis
  proof (rule place_order_Inr [OF p])
    fix c o1 m
    let ?o = "checkout_order s e q pls d c (checkout_totals_of s q pls d c)"
    assume a: "ask_deposit s (ke_now e) (order_facts_of s e q pls (ck_desk st)) q ?o = Inr (o1, m)"
      and f: "lookup_by do_id (ke_order_id e) (od_orders (ck_desk st)) = None"
      and stk: "od_stock (ck_desk st') = stock"
      and x: "od_orders (ck_desk st') = od_orders (ck_desk st) @ [\<lparr>do_order = hold_for_payment m o1,
         do_note = (if debited = [] then no_stock_note
                  else no_stock_note\<lparr>sn_debited := Some (build_debit_manifest (ke_now e) debited)\<rparr>)\<rparr>]"
    have core: "order_core (hold_for_payment m o1) = order_core ?o" using ask_deposit_core [OF a] by simp
    have st: "ord_status (hold_for_payment m o1) \<in> {PENDING, PENDING_DEPOSIT, AWAITING_PAYMENT}"
      using checkout_order_status [OF a] by (simp add: first_status_def)
    show thesis
      by (rule that [OF x stk pls db ok]) (use core [unfolded checkout_order_core] st f in \<open>simp_all add: order_core_def do_id_def\<close>)
  qed
qed

lemma checkout_step:
  assumes ok: "order_desk_ok stores (ck_desk st)" and c: "storefront_checkout s front e q st = Inr st'"
    and t: "stores (ks_id s) = Some (owner, tid)" "ks_tenant_id s = Some tid"
  shows "order_desk_ok stores (ck_desk st') \<and> shop_step True (shop_of (ck_desk st)) (shop_of (ck_desk st'))"
proof (rule checkout_order_placed [OF c])
  fix x pls debited stock
  assume x: "od_orders (ck_desk st') = od_orders (ck_desk st) @ [x]" "od_stock (ck_desk st') = stock"
    and db: "debit_lines (ks_tenant_id s) pls (od_stock (ck_desk st)) = Inr (debited, stock)"
    and lines: "list_all (\<lambda>pl. order_line_ok (pl_line pl)) pls"
    and n: "do_note x = (if debited = [] then no_stock_note
                  else no_stock_note\<lparr>sn_debited := Some (build_debit_manifest (ke_now e) debited)\<rparr>)"
    and i: "do_id x = ke_order_id e" "ord_store_id (do_order x) = ks_id s" "ord_tenant_id (do_order x) = ks_tenant_id s"
    and st: "ord_status (do_order x) \<in> {PENDING, PENDING_DEPOSIT, AWAITING_PAYMENT}"
    and f: "lookup_by do_id (ke_order_id e) (od_orders (ck_desk st)) = None"
  have s: "shop_ok (shop_of (ck_desk st))" using ok by (simp add: order_desk_ok_def)
  then have k: "keys_distinct (od_stock (ck_desk st))" by (simp add: shop_ok_def shop_of_def)
  have "debited_by tid debited (sh_stock (shop_of (ck_desk st))) stock"
    using debit_lines_effect [OF db [unfolded t(2)] k lines] by (simp add: shop_of_def)
  moreover have "lookup_by so_id (ke_order_id e) (sh_orders (shop_of (ck_desk st))) = None"
    using f by (simp add: shop_of_def lookup_view)
  ultimately have "shop_step True (shop_of (ck_desk st)) \<lparr>sh_stock = stock, sh_orders = sh_orders (shop_of (ck_desk st))
      @ [\<lparr>so_id = ke_order_id e, so_tenant = tid, so_note = do_note x\<rparr>]\<rparr>"
    using placed_step [OF s _ debit_note, of "ke_order_id e" tid debited stock "ke_now e"] unfolding n by blast
  moreover have "shop_of (ck_desk st') = \<lparr>sh_stock = stock, sh_orders = sh_orders (shop_of (ck_desk st))
      @ [\<lparr>so_id = ke_order_id e, so_tenant = tid, so_note = do_note x\<rparr>]\<rparr>"
    using i t(2) by (simp add: shop_of_def x shop_view_def)
  ultimately have step: "shop_step True (shop_of (ck_desk st)) (shop_of (ck_desk st'))" by simp
  moreover have "desk_order_ok stores x" using i t st by (auto simp: desk_order_ok_def)
  ultimately show ?thesis using ok x(1) by (simp add: order_desk_ok_def shop_step_def)
qed

section \<open>Any sequence of calls\<close>

lemma storefront_step:
  assumes ok: "order_desk_ok stores (ck_desk st)" and c: "storefront_act stores customers c st = Inr st'"
    and t: "call_tenant_ok stores c"
  shows "order_desk_ok stores (ck_desk st') \<and> shop_step (\<not> returns_pieces c) (shop_of (ck_desk st)) (shop_of (ck_desk st'))"
proof (cases c)
  case (ByDesk d)
  then obtain d' where d: "order_desk_act stores customers d (ck_desk st) = Inr d'" "ck_desk st' = d'"
    using c by (auto simp: rbind_Inr_iff)
  have s: "shop_ok (shop_of (ck_desk st))" using ok by (simp add: order_desk_ok_def)
  show ?thesis using order_desk_step [OF ok d(1)] stock_effect_step [OF s] ByDesk d(2) by (auto simp: returns_pieces_def)
next
  case (ByCheckout s front e q)
  obtain owner tid where "stores (ks_id s) = Some (owner, tid)" "ks_tenant_id s = Some tid"
    using t by (auto simp: ByCheckout call_tenant_ok_def split: option.splits)
  from checkout_step [OF ok _ this] c show ?thesis by (simp add: ByCheckout returns_pieces_def)
qed

lemma storefront_walk:
  assumes "order_desk_ok stores (ck_desk st)" "list_all (call_tenant_ok stores) cs"
  shows "order_desk_ok stores (ck_desk (serve_all (storefront_act stores customers) cs st))
    \<and> shop_step (list_all (\<lambda>c. \<not> returns_pieces c) cs) (shop_of (ck_desk st))
        (shop_of (ck_desk (serve_all (storefront_act stores customers) cs st)))"
  using assms
proof (induction cs arbitrary: st)
  case Nil
  then show ?case by (simp add: shop_step_def order_desk_ok_def)
next
  case (Cons c cs)
  let ?t = "serve (storefront_act stores customers) c st"
  have s: "shop_ok (shop_of (ck_desk st))" using Cons.prems(1) by (simp add: order_desk_ok_def)
  have st: "order_desk_ok stores (ck_desk ?t) \<and> shop_step (\<not> returns_pieces c) (shop_of (ck_desk st)) (shop_of (ck_desk ?t))"
  proof (cases "storefront_act stores customers c st")
    case (Inl e)
    then show ?thesis using Cons.prems s by (simp add: serve_def shop_step_def)
  next
    case (Inr d')
    have "call_tenant_ok stores c" using Cons.prems(2) by simp
    from storefront_step [OF Cons.prems(1) Inr this] show ?thesis by (simp add: serve_def Inr)
  qed
  have "list_all (call_tenant_ok stores) cs" using Cons.prems(2) by simp
  from shop_step_trans [OF conjunct2 [OF st]] Cons.IH [OF conjunct1 [OF st] this] show ?case by simp
qed

section \<open>The books of coupons and customers\<close>

type_synonym checkout_call = "checkout_store \<times> shop_front \<times> checkout_env \<times> checkout_request"

fun checkout_act :: "checkout_call \<Rightarrow> checkout_state \<Rightarrow> checkout_state result" where
  "checkout_act (s, front, e, q) st = storefront_checkout s front e q st"

text \<open>The orders that are new since \<open>st\<close>.\<close>

definition new_orders :: "checkout_state \<Rightarrow> checkout_state \<Rightarrow> order list" where
  "new_orders st st' = map do_order (drop (length (od_orders (ck_desk st))) (od_orders (ck_desk st')))"

definition coupon_count :: "uuid \<Rightarrow> order list \<Rightarrow> int" where
  "coupon_count i os = int (length (filter (\<lambda>o'. ord_coupon_id o' = Some i) os))"

definition coupon_booked :: "checkout_state \<Rightarrow> checkout_state \<Rightarrow> bool" where
  "coupon_booked st st' \<longleftrightarrow> (\<forall>i c. coupon_get_by_id i (ck_coupons st) = Some c \<longrightarrow>
     (\<exists>c'. coupon_get_by_id i (ck_coupons st') = Some c' \<and> cp_usage_limit c' = cp_usage_limit c
       \<and> cp_usage_count c' = cp_usage_count c + coupon_count i (new_orders st st')
       \<and> (\<forall>n. cp_usage_limit c = Some n \<and> cp_usage_count c \<le> n \<longrightarrow> cp_usage_count c' \<le> n)))"

definition orders_of :: "uuid \<Rightarrow> order list \<Rightarrow> order list" where
  "orders_of k os = filter (\<lambda>o'. ord_customer_id o' = k) os"

definition customer_booked :: "checkout_state \<Rightarrow> checkout_state \<Rightarrow> bool" where
  "customer_booked st st' \<longleftrightarrow> (\<forall>k cu. lookup_by cu_id k (ck_customers st) = Some cu \<longrightarrow>
     (\<exists>cu'. lookup_by cu_id k (ck_customers st') = Some cu' \<and> cu_store_id cu' = cu_store_id cu
       \<and> cu_total_orders cu' = cu_total_orders cu + int (length (orders_of k (new_orders st st')))
       \<and> cu_total_spent cu' = cu_total_spent cu + sum_list (map ord_total (orders_of k (new_orders st st')))))"

definition grows :: "checkout_state \<Rightarrow> checkout_state \<Rightarrow> bool" where
  "grows st st' \<longleftrightarrow> (\<exists>xs. od_orders (ck_desk st') = od_orders (ck_desk st) @ xs)"

lemma new_orders_trans: "grows st1 st2 \<Longrightarrow> grows st2 st3 \<Longrightarrow> new_orders st1 st3 = new_orders st1 st2 @ new_orders st2 st3"
  by (auto simp: grows_def new_orders_def)

lemma grows_trans: "grows st1 st2 \<Longrightarrow> grows st2 st3 \<Longrightarrow> grows st1 st3"
  by (auto simp: grows_def)

lemma coupon_booked_trans:
  assumes "coupon_booked st1 st2" "coupon_booked st2 st3" "grows st1 st2" "grows st2 st3"
  shows "coupon_booked st1 st3"
  unfolding coupon_booked_def
proof (intro allI impI)
  fix i c assume c: "coupon_get_by_id i (ck_coupons st1) = Some c"
  obtain c2 where c2: "coupon_get_by_id i (ck_coupons st2) = Some c2" "cp_usage_limit c2 = cp_usage_limit c"
    "cp_usage_count c2 = cp_usage_count c + coupon_count i (new_orders st1 st2)"
    "\<forall>n. cp_usage_limit c = Some n \<and> cp_usage_count c \<le> n \<longrightarrow> cp_usage_count c2 \<le> n"
    using assms(1) [unfolded coupon_booked_def, rule_format, OF c] by blast
  obtain c3 where c3: "coupon_get_by_id i (ck_coupons st3) = Some c3" "cp_usage_limit c3 = cp_usage_limit c2"
    "cp_usage_count c3 = cp_usage_count c2 + coupon_count i (new_orders st2 st3)"
    "\<forall>n. cp_usage_limit c2 = Some n \<and> cp_usage_count c2 \<le> n \<longrightarrow> cp_usage_count c3 \<le> n"
    using assms(2) [unfolded coupon_booked_def, rule_format, OF c2(1)] by blast
  show "\<exists>c'. coupon_get_by_id i (ck_coupons st3) = Some c' \<and> cp_usage_limit c' = cp_usage_limit c
       \<and> cp_usage_count c' = cp_usage_count c + coupon_count i (new_orders st1 st3)
       \<and> (\<forall>n. cp_usage_limit c = Some n \<and> cp_usage_count c \<le> n \<longrightarrow> cp_usage_count c' \<le> n)"
    using c2 c3 by (intro exI [of _ c3]) (simp add: new_orders_trans [OF assms(3,4)] coupon_count_def)
qed

lemma customer_booked_trans:
  assumes "customer_booked st1 st2" "customer_booked st2 st3" "grows st1 st2" "grows st2 st3"
  shows "customer_booked st1 st3"
  unfolding customer_booked_def
proof (intro allI impI)
  fix k cu assume cu: "lookup_by cu_id k (ck_customers st1) = Some cu"
  obtain c2 where c2: "lookup_by cu_id k (ck_customers st2) = Some c2" "cu_store_id c2 = cu_store_id cu"
    "cu_total_orders c2 = cu_total_orders cu + int (length (orders_of k (new_orders st1 st2)))"
    "cu_total_spent c2 = cu_total_spent cu + sum_list (map ord_total (orders_of k (new_orders st1 st2)))"
    using assms(1) [unfolded customer_booked_def, rule_format, OF cu] by blast
  obtain c3 where c3: "lookup_by cu_id k (ck_customers st3) = Some c3" "cu_store_id c3 = cu_store_id c2"
    "cu_total_orders c3 = cu_total_orders c2 + int (length (orders_of k (new_orders st2 st3)))"
    "cu_total_spent c3 = cu_total_spent c2 + sum_list (map ord_total (orders_of k (new_orders st2 st3)))"
    using assms(2) [unfolded customer_booked_def, rule_format, OF c2(1)] by blast
  show "\<exists>cu'. lookup_by cu_id k (ck_customers st3) = Some cu' \<and> cu_store_id cu' = cu_store_id cu
       \<and> cu_total_orders cu' = cu_total_orders cu + int (length (orders_of k (new_orders st1 st3)))
       \<and> cu_total_spent cu' = cu_total_spent cu + sum_list (map ord_total (orders_of k (new_orders st1 st3)))"
    using c2 c3 by (intro exI [of _ c3]) (simp add: new_orders_trans [OF assms(3,4)] orders_of_def)
qed

lemma checkout_booked:
  assumes ok: "coupon_table_ok (ck_coupons st)" and c: "storefront_checkout s front e q st = Inr st'"
  shows "coupon_table_ok (ck_coupons st') \<and> grows st st' \<and> coupon_booked st st' \<and> customer_booked st st'"
proof (rule checkout_creates [OF c])
  fix x pls d ch cu
  assume x: "od_orders (ck_desk st') = od_orders (ck_desk st) @ [x]"
    and core: "order_core (do_order x) = order_core (checkout_order s e q pls d ch (checkout_totals_of s q pls d ch))"
    and d: "checkout_discounts s front e cu q pls (ck_coupons st) = Inr d" and cp: "ck_coupons st' = ds_coupons d"
    and cu: "lookup_by cu_id (ke_customer_id e) (ck_customers st) = Some cu"
    and cs: "ck_customers st' = replace_by cu_id (cu\<lparr>cu_total_orders := cu_total_orders cu + 1,
       cu_total_spent := cu_total_spent cu + ord_total (do_order x)\<rparr>) (ck_customers st)"
  have new: "new_orders st st' = [do_order x]" by (simp add: new_orders_def x)
  have o': "ord_coupon_id (do_order x) = ds_coupon_id d" "ord_customer_id (do_order x) = ke_customer_id e"
    using core unfolding checkout_order_core by (simp_all add: order_core_def)
  have "coupon_booked st st' \<and> coupon_table_ok (ck_coupons st')" using checkout_discounts_usage [OF d]
  proof (elim disjE exE conjE)
    assume "ds_coupon_id d = None" "ds_coupons d = ck_coupons st"
    then show ?thesis using ok by (simp add: coupon_booked_def coupon_count_def new o' cp)
  next
    fix c assume c: "coupon_get_by_code (ks_id s) (the (kr_coupon_code q)) (ck_coupons st) = Some c"
      "ds_coupon_id d = Some (cp_id c)" "coupon_has_remaining_uses c" "ds_coupons d = coupon_increment_usage (cp_id c) (ck_coupons st)"
    have "coupon_get_by_id (cp_id c) (ck_coupons st) = Some c"
      using get_by_code_Some [OF c(1)] ok by (intro find_by_id) (simp_all add: coupon_table_ok_def)
    then show ?thesis using ok c(3)
      by (auto simp: coupon_booked_def coupon_count_def new o' cp c(2,4) increment_get increment_ok coupon_has_remaining_uses_def)
  qed
  moreover have "cu_id cu = ke_customer_id e" using lookup_by_in [OF cu] by blast
  then have "customer_booked st st'" using cu
    by (auto simp: customer_booked_def orders_of_def new o' cs lookup_replace)
  ultimately show ?thesis using x by (auto simp: grows_def)
qed

lemma booked_refl: "grows st st" "coupon_booked st st" "customer_booked st st"
  by (simp_all add: grows_def coupon_booked_def customer_booked_def new_orders_def coupon_count_def orders_of_def)

lemma checkouts_booked:
  assumes "coupon_table_ok (ck_coupons st)"
  shows "coupon_table_ok (ck_coupons (serve_all checkout_act cs st)) \<and> grows st (serve_all checkout_act cs st)
    \<and> coupon_booked st (serve_all checkout_act cs st) \<and> customer_booked st (serve_all checkout_act cs st)"
  using assms
proof (induction cs arbitrary: st)
  case Nil
  then show ?case by (simp add: booked_refl)
next
  case (Cons c cs)
  obtain s front e q where c: "c = (s, front, e, q)" by (cases c)
  let ?t = "serve checkout_act c st"
  have t: "coupon_table_ok (ck_coupons ?t) \<and> grows st ?t \<and> coupon_booked st ?t \<and> customer_booked st ?t"
  proof (cases "storefront_checkout s front e q st")
    case (Inl x)
    then show ?thesis using Cons.prems by (simp add: serve_def c booked_refl)
  next
    case (Inr st')
    then show ?thesis using checkout_booked [OF Cons.prems Inr] by (simp add: serve_def c)
  qed
  from Cons.IH [OF conjunct1 [OF t]] t show ?case
    using coupon_booked_trans customer_booked_trans grows_trans by (simp only: serve_all_simps) blast
qed

section \<open>Properties\<close>

definition demo_refs :: store_refs where
  "demo_refs s = (if s = 2 then Some (7, 9) else None)"

lemma demo_calls_ok:
  "order_desk_ok demo_refs (ck_desk demo_checkout_state)"
  "call_tenant_ok demo_refs (ByCheckout demo_shop_store demo_front (demo_env 51) (demo_request ''cod'' None))"
  "coupon_table_ok (ck_coupons demo_checkout_state)" "keys_distinct (od_stock (ck_desk demo_checkout_state))"
  "ks_tenant_id demo_shop_store = Some 9"
  by code_simp+

text \<open>
  C2: stock is conserved by the whole shop. Over any calls of the order use cases and any checkouts of the stores, in any
  order and with the refused ones included, the count of every product together with what the orders hold of it
  never falls; when no call is a partial acceptance that puts pieces back, it stays the same for every product and every
  variant; an order that is cancelled or returned holds nothing.
\<close>

theorem storefront_keeps_stock:
  assumes "order_desk_ok stores (ck_desk st)" "list_all (call_tenant_ok stores) cs"
    and "st' = serve_all (storefront_act stores customers) cs st"
  shows "(\<forall>p. stock_count (od_stock (ck_desk st)) p + held_units (shop_of (ck_desk st)) p
        \<le> stock_count (od_stock (ck_desk st')) p + held_units (shop_of (ck_desk st')) p)
    \<and> (list_all (\<lambda>c. \<not> returns_pieces c) cs \<longrightarrow>
        (\<forall>p. stock_count (od_stock (ck_desk st')) p + held_units (shop_of (ck_desk st')) p
           = stock_count (od_stock (ck_desk st)) p + held_units (shop_of (ck_desk st)) p)
      \<and> (\<forall>v. variant_count (od_stock (ck_desk st')) v + held_variant_units (shop_of (ck_desk st')) v
           = variant_count (od_stock (ck_desk st)) v + held_variant_units (shop_of (ck_desk st)) v))
    \<and> (\<forall>x\<in>set (od_orders (ck_desk st')). ord_status (do_order x) \<in> {CANCELLED, RETURNED} \<longrightarrow> held (do_note x) = [])"
proof -
  have s: "sh_stock (shop_of e) = od_stock e" for e by (simp add: shop_of_def)
  have "order_desk_ok stores (ck_desk st')" using storefront_walk [OF assms(1,2)] assms(3) by blast
  then have "\<forall>x\<in>set (od_orders (ck_desk st')). ord_status (do_order x) \<in> {CANCELLED, RETURNED} \<longrightarrow> held (do_note x) = []"
    by (simp add: order_desk_ok_def list_all_iff desk_order_ok_def)
  then show ?thesis
    using storefront_walk [OF assms(1,2), of customers] unfolding shop_step_def assms(3) s by blast
qed

theorem storefront_keeps_stock_witness:
  "let cs = [ByCheckout demo_shop_store demo_front (demo_env 51) (demo_request ''cod'' None), ByDesk (DeskStatus 16 51 ''cancelled'' None None 2 7)];
       st' = serve_all (storefront_act demo_refs demo_customers) cs demo_checkout_state
   in stock_count (od_stock (ck_desk st')) 1 + held_units (shop_of (ck_desk st')) 1 = 5"
proof -
  let ?cs = "[ByCheckout demo_shop_store demo_front (demo_env 51) (demo_request ''cod'' None), ByDesk (DeskStatus 16 51 ''cancelled'' None None 2 7)]"
  have "list_all (call_tenant_ok demo_refs) ?cs" using demo_calls_ok(2) by (simp add: call_tenant_ok_def [of demo_refs "ByDesk _"])
  note keeps = storefront_keeps_stock [OF demo_calls_ok(1) this refl, of demo_customers]
  have "list_all (\<lambda>c. \<not> returns_pieces c) ?cs" by (simp add: returns_pieces_def puts_pieces_back_def)
  moreover have "stock_count (od_stock (ck_desk demo_checkout_state)) 1 + held_units (shop_of (ck_desk demo_checkout_state)) 1 = 5"
    by code_simp
  ultimately show ?thesis using keeps unfolding Let_def by metis
qed

text \<open>The lines of a request that take stock: all but those for a variant whose stock is not tracked.\<close>

definition takes_stock :: "stock_db \<Rightarrow> checkout_line \<Rightarrow> bool" where
  "takes_stock stock l \<longleftrightarrow> (case xl_variant_id l of None \<Rightarrow> True
     | Some v \<Rightarrow> (case lookup_by vr_id v (sk_variants stock) of None \<Rightarrow> True | Some r \<Rightarrow> vr_track_inventory r))"

definition ordered_units :: "stock_db \<Rightarrow> checkout_line list \<Rightarrow> uuid \<Rightarrow> int" where
  "ordered_units stock ls p =
     sum_list (map xl_quantity (filter (\<lambda>l. xl_product_id l = p \<and> takes_stock stock l) ls))"

lemma price_line_takes_stock:
  assumes "price_line now store cg db l = Inr pl"
  shows "ol_product_id (pl_line pl) = xl_product_id l \<and> ol_variant_id (pl_line pl) = xl_variant_id l
    \<and> ol_quantity (pl_line pl) = xl_quantity l \<and> pl_track_inventory pl = takes_stock db l"
proof (rule price_line_Inr [OF assms])
  fix p row v
  assume c: "catalog_find cg db (xl_product_id l) = Some (p, row)" and v: "selected_variant cg db l = Inr v"
    and l: "pl_line pl = order_line_of now l p v"
    and t: "pl_track_inventory pl = (case map_option snd v of None \<Rightarrow> True | Some r \<Rightarrow> vr_track_inventory r)"
  have "pl_track_inventory pl = takes_stock db l"
    using selected_variant_Inr [OF v]
    by (auto simp: t takes_stock_def variant_find_def split: option.splits prod.splits)
  then show ?thesis using catalog_find_id [OF c] by (simp add: l order_line_of_def Let_def)
qed

lemma price_lines_units:
  assumes "price_lines now store cg db ls = Inr pls"
  shows "map (\<lambda>pl. (ol_product_id (pl_line pl), ol_variant_id (pl_line pl), ol_quantity (pl_line pl))) pls
      = map (\<lambda>l. (xl_product_id l, xl_variant_id l, xl_quantity l)) ls
    \<and> sum_list (map (\<lambda>pl. ol_quantity (pl_line pl)) (filter (\<lambda>pl. ol_product_id (pl_line pl) = p) (filter pl_track_inventory pls)))
      = ordered_units db ls p"
  using assms unfolding price_lines_all
  by (induction rule: list_all2_induct) (use price_line_takes_stock in \<open>force simp: ordered_units_def\<close>)+

text \<open>
  C13: checkout takes exactly what was ordered. An accepted checkout makes one order, with the products, variants and quantities of
  the lines submitted. It lowers the count of every product by the quantities submitted for it, leaving out only the
  lines for a variant whose stock is not tracked, and the new order holds exactly these units, so that undoing the
  order puts them back.
\<close>

theorem checkout_takes_stock:
  assumes "storefront_checkout s front e q st = Inr st'" "ks_tenant_id s = Some t"
    and "keys_distinct (od_stock (ck_desk st))"
  shows "\<exists>x. od_orders (ck_desk st') = od_orders (ck_desk st) @ [x]
    \<and> map (\<lambda>l. (ol_product_id l, ol_variant_id l, ol_quantity l)) (ord_line_items (do_order x))
        = map (\<lambda>l. (xl_product_id l, xl_variant_id l, xl_quantity l)) (kr_lines q)
    \<and> (\<forall>p. stock_count (od_stock (ck_desk st')) p
          = stock_count (od_stock (ck_desk st)) p - ordered_units (od_stock (ck_desk st)) (kr_lines q) p)
    \<and> (\<forall>p. product_units (held (do_note x)) p = ordered_units (od_stock (ck_desk st)) (kr_lines q) p)"
proof (rule checkout_order_placed [OF assms(1)])
  fix x pls debited stock
  assume x: "od_orders (ck_desk st') = od_orders (ck_desk st) @ [x]" "od_stock (ck_desk st') = stock"
      "ord_line_items (do_order x) = map pl_line pls"
    and pls: "price_lines (ke_now e) (ks_id s) (sf_catalog front) (od_stock (ck_desk st)) (kr_lines q) = Inr pls"
    and db: "debit_lines (ks_tenant_id s) pls (od_stock (ck_desk st)) = Inr (debited, stock)"
    and lines: "list_all (\<lambda>pl. order_line_ok (pl_line pl)) pls"
    and n: "do_note x = (if debited = [] then no_stock_note
                  else no_stock_note\<lparr>sn_debited := Some (build_debit_manifest (ke_now e) debited)\<rparr>)"
  have units: "product_units debited p = ordered_units (od_stock (ck_desk st)) (kr_lines q) p" for p
    using entries_units [OF debit_lines_entries [OF db lines], of p] price_lines_units [OF pls, of p] by argo
  have "debited_by t debited (od_stock (ck_desk st)) stock" by (rule debit_lines_effect [OF db [unfolded assms(2)] assms(3) lines])
  then have "stock_count stock p + product_units debited p = stock_count (od_stock (ck_desk st)) p" for p
    by (simp add: debited_by_def)
  then have lost: "\<forall>p. stock_count (od_stock (ck_desk st')) p
      = stock_count (od_stock (ck_desk st)) p - ordered_units (od_stock (ck_desk st)) (kr_lines q) p"
    by (simp add: x(2) units [symmetric] algebra_simps)
  have kept: "\<forall>p. product_units (held (do_note x)) p = ordered_units (od_stock (ck_desk st)) (kr_lines q) p"
    unfolding n debit_note by (intro allI units)
  have submitted: "map (\<lambda>l. (ol_product_id l, ol_variant_id l, ol_quantity l)) (ord_line_items (do_order x))
      = map (\<lambda>l. (xl_product_id l, xl_variant_id l, xl_quantity l)) (kr_lines q)"
    using price_lines_units [OF pls] by (simp add: x(3) comp_def)
  show ?thesis by (intro exI [of _ x] conjI x(1) submitted lost kept)
qed

theorem checkout_takes_stock_witness:
  "\<exists>st' x. storefront_checkout demo_shop_store demo_front (demo_env 51) (demo_request ''cod'' None) demo_checkout_state = Inr st'
    \<and> od_orders (ck_desk st') = [x] \<and> stock_count (od_stock (ck_desk st')) 1 = 5 - product_units (held (do_note x)) 1
    \<and> product_units (held (do_note x)) 1 = 2"
proof (rule demo_accepted)
  fix st' assume st': "storefront_checkout demo_shop_store demo_front (demo_env 51) (demo_request ''cod'' None) demo_checkout_state = Inr st'"
  have "od_orders (ck_desk demo_checkout_state) = []" "stock_count (od_stock (ck_desk demo_checkout_state)) 1 = 5"
    "ordered_units (od_stock (ck_desk demo_checkout_state)) (kr_lines (demo_request ''cod'' None)) 1 = 2" by code_simp+
  with checkout_takes_stock [OF st' demo_calls_ok(5,4)] st' show ?thesis by auto
qed

text \<open>
  C3: coupons and customers are booked with the orders. From a well-formed coupon table, over any checkouts, the refused ones
  included, the uses counted of every coupon grow by exactly the number of new orders that carry it and never
  pass its limit, and the orders and the spending of every customer grow by exactly the number and the totals of
  that customer's new orders.
\<close>

theorem checkouts_keep_books:
  assumes "coupon_table_ok (ck_coupons st)" "st' = serve_all checkout_act cs st"
  shows "(\<forall>i c. coupon_get_by_id i (ck_coupons st) = Some c \<longrightarrow>
      usage_of i (ck_coupons st') = cp_usage_count c + coupon_count i (new_orders st st')
      \<and> (\<forall>n. cp_usage_limit c = Some n \<and> cp_usage_count c \<le> n \<longrightarrow> usage_of i (ck_coupons st') \<le> n))
    \<and> (\<forall>k cu. lookup_by cu_id k (ck_customers st) = Some cu \<longrightarrow>
      (\<exists>cu'. lookup_by cu_id k (ck_customers st') = Some cu'
        \<and> cu_total_orders cu' = cu_total_orders cu + int (length (orders_of k (new_orders st st')))
        \<and> cu_total_spent cu' = cu_total_spent cu + sum_list (map ord_total (orders_of k (new_orders st st')))))"
proof -
  have b: "coupon_booked st st'" "customer_booked st st'" using checkouts_booked [OF assms(1), of cs] assms(2) by simp_all
  have "usage_of i (ck_coupons st') = cp_usage_count c + coupon_count i (new_orders st st')
      \<and> (\<forall>n. cp_usage_limit c = Some n \<and> cp_usage_count c \<le> n \<longrightarrow> usage_of i (ck_coupons st') \<le> n)"
    if "coupon_get_by_id i (ck_coupons st) = Some c" for i c
    using b(1) [unfolded coupon_booked_def, rule_format, OF that] by (auto simp: usage_of_def)
  moreover have "\<exists>cu'. lookup_by cu_id k (ck_customers st') = Some cu'
        \<and> cu_total_orders cu' = cu_total_orders cu + int (length (orders_of k (new_orders st st')))
        \<and> cu_total_spent cu' = cu_total_spent cu + sum_list (map ord_total (orders_of k (new_orders st st')))"
    if "lookup_by cu_id k (ck_customers st) = Some cu" for k cu
    using b(2) [unfolded customer_booked_def, rule_format, OF that] by blast
  ultimately show ?thesis by blast
qed

theorem checkouts_keep_books_witness:
  "let cs = [(demo_shop_store, demo_front, demo_env 51, demo_request ''kashier'' (Some ''SAVE'')),
         (demo_shop_store, demo_front, demo_env 52, demo_request ''kashier'' (Some ''SAVE''))];
       st' = serve_all checkout_act cs demo_checkout_state
   in usage_of 1 (ck_coupons st') \<le> 1 \<and> usage_of 1 (ck_coupons st') = coupon_count 1 (new_orders demo_checkout_state st')"
proof -
  let ?c = "demo_coupon CtPercentage 20 None None"
  have c: "coupon_get_by_id 1 (ck_coupons demo_checkout_state) = Some ?c" "cp_usage_limit ?c = Some 1" "cp_usage_count ?c = 0"
    by (simp_all add: demo_checkout_state_def coupon_get_by_id_def demo_coupon_def)
  let ?cs = "[(demo_shop_store, demo_front, demo_env 51, demo_request ''kashier'' (Some ''SAVE'')),
         (demo_shop_store, demo_front, demo_env 52, demo_request ''kashier'' (Some ''SAVE''))]"
  let ?st = "serve_all checkout_act ?cs demo_checkout_state"
  have st: "?st = ?st" by (rule refl)
  note books = checkouts_keep_books [OF demo_calls_ok(3) st, THEN conjunct1, rule_format, OF c(1)]
  have "usage_of 1 (ck_coupons ?st) \<le> 1" by (rule conjunct2 [OF books, rule_format]) (simp only: c, simp)
  moreover have "usage_of 1 (ck_coupons ?st) = coupon_count 1 (new_orders demo_checkout_state ?st)"
    using conjunct1 [OF books] unfolding c(3) by linarith
  ultimately show ?thesis unfolding Let_def by (intro conjI)
qed

end
