(* ===== verification/Cart_Store.thy ===== *)
theory Cart_Store
  imports Cart Checkout_Lines Cart_Discounts
begin

text \<open>
  The stored carts and the requests on them: the Redis repository
  (\<open>src/infrastructure/repositories/cart_repository.py\<close>), the customer's cart routes (\<open>routes/storefront/cart.py\<close>), the
  routes that guests share (\<open>routes/storefront/cart_sdk_aliases.py\<close>), reordering and the phone left with a one-time code. Redis is a map from keys to serialised carts with
  the instant they expire. Tokens of fresh carts are arguments; the reference of a line is given parsed, \<open>None\<close> where
  its text is no reference; funnel events are left out.
\<close>

section \<open>The repository\<close>

type_synonym stored_cart = "(string \<times> json) list"

type_synonym redis_carts = "string \<rightharpoonup> stored_cart \<times> instant"

definition default_ttl_seconds :: int where
  "default_ttl_seconds = 30 * 24 * 60 * 60"

definition expires_after :: "instant \<Rightarrow> instant" where
  "expires_after now = now + default_ttl_seconds * 1000000"

definition session_key :: "string \<Rightarrow> uuid \<Rightarrow> string" where
  "session_key session store = ''cart:session:'' @ uuid_str store @ '':'' @ session"

definition customer_key :: "uuid \<Rightarrow> uuid \<Rightarrow> string" where
  "customer_key customer store = ''cart:customer:'' @ uuid_str store @ '':'' @ uuid_str customer"

text \<open>What Redis answers for a key: its value until it expires.\<close>

definition redis_get :: "instant \<Rightarrow> string \<Rightarrow> redis_carts \<Rightarrow> stored_cart option" where
  "redis_get now k db = (case db k of None \<Rightarrow> None | Some (d, e) \<Rightarrow> if now < e then Some d else None)"

definition read_cart :: "uuid \<Rightarrow> instant \<Rightarrow> string \<Rightarrow> redis_carts \<Rightarrow> cart option result" where
  "read_cart fresh now k db = (case redis_get now k db of
      None \<Rightarrow> Inr None | Some d \<Rightarrow> rbind (cart_from_dict fresh now d) (\<lambda>c. Inr (Some c)))"

definition get_by_session_id :: "uuid \<Rightarrow> instant \<Rightarrow> string \<Rightarrow> uuid \<Rightarrow> redis_carts \<Rightarrow> cart option result" where
  "get_by_session_id fresh now session store = read_cart fresh now (session_key session store)"

definition get_by_customer_id :: "uuid \<Rightarrow> instant \<Rightarrow> uuid \<Rightarrow> uuid \<Rightarrow> redis_carts \<Rightarrow> cart option result" where
  "get_by_customer_id fresh now customer store = read_cart fresh now (customer_key customer store)"

definition save_cart :: "instant \<Rightarrow> cart \<Rightarrow> redis_carts \<Rightarrow> cart \<times> redis_carts" where
  "save_cart now c db =
     (let c' = c\<lparr>cart_expires_at := Some (expires_after now)\<rparr>; v = (cart_to_dict c', expires_after now);
          db1 = db(session_key (cart_session_id c) (cart_store_id c) \<mapsto> v)
      in (c', case cart_customer_id c of None \<Rightarrow> db1 | Some u \<Rightarrow> db1(customer_key u (cart_store_id c) \<mapsto> v)))"

definition delete_cart :: "uuid \<Rightarrow> instant \<Rightarrow> string \<Rightarrow> uuid \<Rightarrow> redis_carts \<Rightarrow> (bool \<times> redis_carts) result" where
  "delete_cart fresh now session store db =
     rbind (get_by_session_id fresh now session store db) (\<lambda>found. case found of
        None \<Rightarrow> Inr (False, db)
      | Some c \<Rightarrow> let db1 = db(session_key session store := None)
          in Inr (True, case cart_customer_id c of None \<Rightarrow> db1 | Some u \<Rightarrow> db1(customer_key u (cart_store_id c) := None)))"

definition delete_by_customer_id :: "uuid \<Rightarrow> instant \<Rightarrow> uuid \<Rightarrow> uuid \<Rightarrow> redis_carts \<Rightarrow> (bool \<times> redis_carts) result" where
  "delete_by_customer_id fresh now customer store db =
     rbind (get_by_customer_id fresh now customer store db) (\<lambda>found. case found of
        None \<Rightarrow> Inr (False, db)
      | Some c \<Rightarrow> Inr (True, db(customer_key customer store := None,
          session_key (cart_session_id c) (cart_store_id c) := None)))"

text \<open>A guest's cart becomes the customer's, or is merged into the one the customer has.\<close>

definition transfer_to_customer ::
    "uuid \<Rightarrow> instant \<Rightarrow> string \<Rightarrow> uuid \<Rightarrow> uuid \<Rightarrow> redis_carts \<Rightarrow> (cart option \<times> redis_carts) result" where
  "transfer_to_customer fresh now session customer store db =
     rbind (get_by_session_id fresh now session store db) (\<lambda>found. case found of
        None \<Rightarrow> Inr (None, db)
      | Some guest \<Rightarrow> rbind (get_by_customer_id fresh now customer store db) (\<lambda>existing. case existing of
          Some old \<Rightarrow> rbind (merge_cart now guest old) (\<lambda>merged.
            let (c, db') = save_cart now (merged\<lparr>cart_customer_id := Some customer\<rparr>)
                  (db(session_key session store := None))
            in Inr (Some c, db'))
        | None \<Rightarrow> let (c, db') = save_cart now (guest\<lparr>cart_customer_id := Some customer\<rparr>) db in Inr (Some c, db')))"

definition touch_key :: "instant \<Rightarrow> string \<Rightarrow> redis_carts \<Rightarrow> redis_carts" where
  "touch_key now k db = (case redis_get now k db of None \<Rightarrow> db | Some d \<Rightarrow> db(k \<mapsto> (d, expires_after now)))"

definition extend_ttl :: "uuid \<Rightarrow> instant \<Rightarrow> string \<Rightarrow> uuid \<Rightarrow> redis_carts \<Rightarrow> (bool \<times> redis_carts) result" where
  "extend_ttl fresh now session store db =
     (if redis_get now (session_key session store) db = None then Inr (False, db)
      else let db1 = touch_key now (session_key session store) db
        in rbind (get_by_session_id fresh now session store db1) (\<lambda>found. Inr (True,
             case found of None \<Rightarrow> db1
             | Some c \<Rightarrow> (case cart_customer_id c of None \<Rightarrow> db1 | Some u \<Rightarrow> touch_key now (customer_key u (cart_store_id c)) db1))))"

section \<open>Owners\<close>

text \<open>A cart belongs to a customer or to the session of a guest, in one store.\<close>

datatype cart_owner = Buyer (owner_customer: uuid) (owner_store: uuid) | Visitor (owner_session: uuid) (owner_store: uuid)

record cart_env =
  ce_now :: instant
  ce_cart_id :: uuid
  ce_session_id :: uuid

definition new_cart :: "cart_env \<Rightarrow> uuid \<Rightarrow> uuid \<Rightarrow> uuid option \<Rightarrow> cart" where
  "new_cart e session store customer =
     \<lparr>cart_id = ce_cart_id e, cart_created_at = ce_now e, cart_updated_at = ce_now e,
      cart_session_id = uuid_str session, cart_store_id = store, cart_customer_id = customer, cart_items = [],
      cart_currency = ''EGP'', cart_notes = None, cart_discount_code = None, cart_metadata = [], cart_expires_at = None\<rparr>"

definition get_or_create_cart :: "cart_env \<Rightarrow> uuid \<Rightarrow> uuid \<Rightarrow> redis_carts \<Rightarrow> cart result" where
  "get_or_create_cart e customer store db =
     rbind (get_by_customer_id (ce_cart_id e) (ce_now e) customer store db) (\<lambda>found. Inr (case found of
        Some c \<Rightarrow> c | None \<Rightarrow> new_cart e (ce_session_id e) store (Some customer)))"

definition get_or_create_guest_cart :: "cart_env \<Rightarrow> uuid \<Rightarrow> uuid \<Rightarrow> redis_carts \<Rightarrow> cart result" where
  "get_or_create_guest_cart e session store db =
     rbind (get_by_session_id (ce_cart_id e) (ce_now e) (uuid_str session) store db) (\<lambda>found. Inr (case found of
        Some c \<Rightarrow> c | None \<Rightarrow> new_cart e session store None))"

definition cart_for :: "cart_env \<Rightarrow> cart_owner \<Rightarrow> redis_carts \<Rightarrow> cart result" where
  "cart_for e w db = (case w of
      Visitor session store \<Rightarrow> get_or_create_guest_cart e session store db
    | Buyer customer store \<Rightarrow> get_or_create_cart e customer store db)"

section \<open>Adding a line\<close>

record add_request =
  aq_product_id :: uuid
  aq_variant_id :: "uuid option"
  aq_quantity :: int
  aq_selected_options :: "(string \<times> string) list"

definition product_in_stock :: "product_row \<Rightarrow> bool" where
  "product_in_stock r = (if pd_continue_selling r then True else 0 < pd_quantity r)"

definition variant_in_stock :: "variant_row \<Rightarrow> bool" where
  "variant_in_stock r \<longleftrightarrow> \<not> vr_track_inventory r \<or> 0 < vr_inventory_quantity r"

definition product_variant_in_stock :: "product_row \<Rightarrow> variant_row \<Rightarrow> bool" where
  "product_variant_in_stock p r = (if pd_continue_selling p then True else variant_in_stock r)"

definition offered_product :: "catalog \<Rightarrow> stock_db \<Rightarrow> uuid \<Rightarrow> uuid \<Rightarrow> (catalog_product \<times> product_row) result" where
  "offered_product cg stock store pid = (case catalog_find cg stock pid of
      None \<Rightarrow> Inl (HTTPException ''Product not found'')
    | Some (p, row) \<Rightarrow>
        if ct_status p \<notin> set purchasable_statuses then Inl (HTTPException ''Product is not available'')
        else if ct_store_id p \<noteq> store then Inl (HTTPException ''Product does not belong to this store'')
        else if \<not> product_in_stock row then Inl (HTTPException ''Product is out of stock'')
        else Inr (p, row))"

definition offered_variant ::
    "catalog \<Rightarrow> stock_db \<Rightarrow> catalog_product \<Rightarrow> product_row \<Rightarrow> uuid \<Rightarrow> (catalog_variant \<times> variant_row) result" where
  "offered_variant cg stock p row vid = (case variant_find cg stock vid of
      None \<Rightarrow> Inl (HTTPException ''Variant not found for this product.'')
    | Some (cv, r) \<Rightarrow>
        if vr_product_id r \<noteq> ct_id p then Inl (HTTPException ''Variant not found for this product.'')
        else if \<not> product_variant_in_stock row r then Inl (HTTPException ''This variant is out of stock.'')
        else Inr (cv, r))"

fun join_slash :: "string list \<Rightarrow> string" where
  "join_slash [] = ''''"
| "join_slash [x] = x"
| "join_slash (x # xs) = x @ '' / '' @ join_slash xs"

definition chosen_values :: "(string \<times> string) list \<Rightarrow> string" where
  "chosen_values options = join_slash (filter (\<lambda>x. x \<noteq> []) (map snd options))"

text \<open>The label of a line: the options of its variant, else what the picker sent.\<close>

definition line_label :: "variant_row option \<Rightarrow> (string \<times> string) list \<Rightarrow> string option" where
  "line_label v selected =
     (let l = (case v of None \<Rightarrow> None
         | Some r \<Rightarrow> if vr_option_values r = [] then None else Some (chosen_values (vr_option_values r)))
      in if \<not> truthy_str l \<and> selected \<noteq> []
         then (if chosen_values selected = [] then None else Some (chosen_values selected)) else l)"

definition snapshot_item ::
    "instant \<Rightarrow> catalog_product \<Rightarrow> (catalog_variant \<times> variant_row) option \<Rightarrow> uuid option \<Rightarrow> (string \<times> string) list \<Rightarrow> int
      \<Rightarrow> cart_item" where
  "snapshot_item now p v vid selected q =
     (let cv = map_option fst v; image = (case ct_images p of [] \<Rightarrow> None | i # _ \<Rightarrow> Some i)
      in \<lparr>ci_product_id = ct_id p, ci_product_name = ct_name p, ci_variant_id = vid,
          ci_variant_name = line_label (map_option snd v) selected,
          ci_sku = (case cv of Some x \<Rightarrow> if truthy_str (cv_sku x) then cv_sku x else ct_sku p | None \<Rightarrow> ct_sku p),
          ci_quantity = q, ci_unit_price = unit_price_of now p cv,
          ci_image_url = (case cv of Some x \<Rightarrow> if truthy_str (cv_image_url x) then cv_image_url x else image | None \<Rightarrow> image),
          ci_weight = None, ci_category_id = None, ci_properties = []\<rparr>)"

definition held_quantity :: "cart \<Rightarrow> uuid \<Rightarrow> uuid option \<Rightarrow> int" where
  "held_quantity c pid vid = (case get_item c pid vid of None \<Rightarrow> 0 | Some i \<Rightarrow> ci_quantity i)"

definition refuse_more :: "'a result" where
  "refuse_more = Inl (HTTPException ''you already have the maximum in your cart'')"

text \<open>The customer's route caps a tracked line at the inventory of its variant; so does the shared one.\<close>

definition me_quantity :: "product_row \<Rightarrow> variant_row option \<Rightarrow> int \<Rightarrow> int \<Rightarrow> int result" where
  "me_quantity row v existing requested = (case v of
      None \<Rightarrow> Inr requested
    | Some r \<Rightarrow> if pd_continue_selling row then Inr requested
        else (let allowed = max 0 (vr_inventory_quantity r - existing)
              in if allowed \<le> 0 then refuse_more else Inr (min requested allowed)))"

definition sdk_quantity :: "product_row \<Rightarrow> variant_row option \<Rightarrow> int \<Rightarrow> int \<Rightarrow> int result" where
  "sdk_quantity row v existing requested = (case v of
      None \<Rightarrow> Inr requested
    | Some r \<Rightarrow> (let allowed = (if pd_continue_selling row then requested else max 0 (vr_inventory_quantity r - existing))
              in if allowed \<le> 0 then refuse_more else Inr (min requested allowed)))"

definition add_line ::
    "(product_row \<Rightarrow> variant_row option \<Rightarrow> int \<Rightarrow> int \<Rightarrow> int result) \<Rightarrow> instant \<Rightarrow> uuid \<Rightarrow> catalog \<Rightarrow> stock_db \<Rightarrow> add_request
      \<Rightarrow> cart \<Rightarrow> cart result" where
  "add_line quantity now store cg stock r c =
     rbind (offered_product cg stock store (aq_product_id r)) (\<lambda>(p, row).
     rbind (case aq_variant_id r of None \<Rightarrow> Inr None
            | Some vid \<Rightarrow> rbind (offered_variant cg stock p row vid) (\<lambda>v. Inr (Some v))) (\<lambda>v.
     rbind (quantity row (map_option snd v) (held_quantity c (aq_product_id r) (aq_variant_id r)) (aq_quantity r)) (\<lambda>q.
     rbind (mk_cart_item (snapshot_item now p v (aq_variant_id r) (aq_selected_options r) q)) (\<lambda>i. add_item now i c))))"

definition me_add_item ::
    "catalog \<Rightarrow> stock_db \<Rightarrow> cart_env \<Rightarrow> uuid \<Rightarrow> uuid \<Rightarrow> add_request \<Rightarrow> redis_carts \<Rightarrow> (cart \<times> redis_carts) result" where
  "me_add_item cg stock e customer store r db =
     (if \<not> (1 \<le> aq_quantity r \<and> aq_quantity r \<le> 999) then Inl (ValidationError ''AddCartItemRequest'')
      else rbind (get_or_create_cart e customer store db) (\<lambda>c.
           rbind (add_line me_quantity (ce_now e) store cg stock r c) (\<lambda>c'. Inr (save_cart (ce_now e) c' db))))"

definition sdk_add_item ::
    "catalog \<Rightarrow> stock_db \<Rightarrow> cart_env \<Rightarrow> cart_owner \<Rightarrow> add_request \<Rightarrow> redis_carts \<Rightarrow> (cart \<times> redis_carts) result" where
  "sdk_add_item cg stock e w r db =
     (if aq_quantity r < 1 then Inl (ValidationError ''SdkAddItemRequest'')
      else rbind (cart_for e w db) (\<lambda>c.
           rbind (add_line sdk_quantity (ce_now e) (owner_store w) cg stock r c) (\<lambda>c'. Inr (save_cart (ce_now e) c' db))))"

section \<open>Changing and removing lines\<close>

type_synonym line_ref = "(uuid \<times> uuid option) option"

definition me_update_item ::
    "cart_env \<Rightarrow> uuid \<Rightarrow> uuid \<Rightarrow> line_ref \<Rightarrow> int \<Rightarrow> redis_carts \<Rightarrow> (cart \<times> redis_carts) result" where
  "me_update_item e customer store ref q db =
     (if \<not> (1 \<le> q \<and> q \<le> 999) then Inl (ValidationError ''UpdateCartItemRequest'')
      else rbind (get_or_create_cart e customer store db) (\<lambda>c. case ref of
          None \<Rightarrow> Inl (ValueError ''badly formed hexadecimal UUID string'')
        | Some (pid, vid) \<Rightarrow>
            if get_item c pid vid = None then Inl (HTTPException ''Cart item not found'')
            else rbind (update_item_quantity (ce_now e) pid q vid c) (\<lambda>c'. Inr (save_cart (ce_now e) c' db))))"

definition me_remove_item :: "cart_env \<Rightarrow> uuid \<Rightarrow> uuid \<Rightarrow> line_ref \<Rightarrow> redis_carts \<Rightarrow> (cart \<times> redis_carts) result" where
  "me_remove_item e customer store ref db =
     rbind (get_or_create_cart e customer store db) (\<lambda>c. case ref of
        None \<Rightarrow> Inl (ValueError ''badly formed hexadecimal UUID string'')
      | Some (pid, vid) \<Rightarrow>
          if get_item c pid vid = None then Inl (HTTPException ''Cart item not found'')
          else Inr (save_cart (ce_now e) (remove_item (ce_now e) pid vid c) db))"

definition sdk_remove_item :: "cart_env \<Rightarrow> cart_owner \<Rightarrow> line_ref \<Rightarrow> redis_carts \<Rightarrow> (cart \<times> redis_carts) result" where
  "sdk_remove_item e w ref db =
     rbind (cart_for e w db) (\<lambda>c. case ref of
        None \<Rightarrow> Inl (HTTPException ''Invalid item_id'')
      | Some (pid, vid) \<Rightarrow>
          if get_item c pid vid = None then Inl (HTTPException ''Cart item not found'')
          else Inr (save_cart (ce_now e) (remove_item (ce_now e) pid vid c) db))"

text \<open>A changed quantity is capped at the inventory of the variant, whatever the product oversells.\<close>

definition capped_update :: "catalog \<Rightarrow> stock_db \<Rightarrow> uuid option \<Rightarrow> int \<Rightarrow> int" where
  "capped_update cg stock vid q =
     (if 0 < q then (case vid of None \<Rightarrow> q | Some v \<Rightarrow> (case variant_find cg stock v of
          None \<Rightarrow> q | Some (_, r) \<Rightarrow> min q (vr_inventory_quantity r))) else q)"

definition change_line :: "catalog \<Rightarrow> stock_db \<Rightarrow> instant \<Rightarrow> line_ref \<Rightarrow> int \<Rightarrow> cart \<Rightarrow> cart result" where
  "change_line cg stock now ref q c = (case ref of
      None \<Rightarrow> Inl (HTTPException ''Invalid item_id'')
    | Some (pid, vid) \<Rightarrow>
        if get_item c pid vid = None then Inl (HTTPException ''Cart item not found'')
        else (let n = capped_update cg stock vid q
              in if n \<le> 0 then Inr (remove_item now pid vid c) else update_item_quantity now pid n vid c))"

record update_request =
  uq_item :: "line_ref option"
  uq_quantity :: "int option"
  uq_note :: "string option"

definition update_request_ok :: "update_request \<Rightarrow> bool" where
  "update_request_ok r \<longleftrightarrow> (case uq_quantity r of None \<Rightarrow> True | Some q \<Rightarrow> 0 \<le> q)
     \<and> (case uq_note r of None \<Rightarrow> True | Some n \<Rightarrow> length n \<le> 1000)"

definition update_line :: "catalog \<Rightarrow> stock_db \<Rightarrow> instant \<Rightarrow> update_request \<Rightarrow> cart \<Rightarrow> (cart \<times> bool) result" where
  "update_line cg stock now r c = (case (uq_item r, uq_quantity r) of
      (Some ref, Some q) \<Rightarrow> rbind (change_line cg stock now ref q c) (\<lambda>c'. Inr (c', True))
    | _ \<Rightarrow> Inr (c, False))"

definition update_note :: "update_request \<Rightarrow> cart \<Rightarrow> cart" where
  "update_note r c = (case uq_note r of None \<Rightarrow> c | Some n \<Rightarrow> c\<lparr>cart_notes := Some n\<rparr>)"

definition sdk_update_item ::
    "catalog \<Rightarrow> stock_db \<Rightarrow> cart_env \<Rightarrow> cart_owner \<Rightarrow> update_request \<Rightarrow> redis_carts \<Rightarrow> (cart \<times> redis_carts) result" where
  "sdk_update_item cg stock e w r db =
     (if \<not> update_request_ok r then Inl (ValidationError ''SdkUpdateItemRequest'')
      else rbind (cart_for e w db) (\<lambda>c.
           rbind (update_line cg stock (ce_now e) r c) (\<lambda>(c', changed).
           Inr (if changed \<or> uq_note r \<noteq> None then save_cart (ce_now e) (update_note r c') db else (update_note r c', db)))))"

definition clear_cart :: "cart_env \<Rightarrow> uuid \<Rightarrow> uuid \<Rightarrow> redis_carts \<Rightarrow> redis_carts result" where
  "clear_cart e customer store db =
     rbind (delete_by_customer_id (ce_cart_id e) (ce_now e) customer store db) (\<lambda>(_, db'). Inr db')"

section \<open>Discount codes\<close>

record offers =
  os_promotions :: promotion_db
  os_coupons :: coupon_table

definition cart_visitor :: "uuid option \<Rightarrow> string list \<Rightarrow> cart_item list \<Rightarrow> uuid list \<Rightarrow> eligibility_context" where
  "cart_visitor customer tags items categories =
     \<lparr>ec_customer_id = customer, ec_customer_tags = tags, ec_cart_subtotal_cents = sum_list (map total_price items),
      ec_cart_product_ids = map ci_product_id items, ec_cart_category_ids = categories,
      ec_country = None, ec_city = None, ec_device = ''desktop'', ec_is_first_visit = False,
      ec_is_logged_in = (customer \<noteq> None), ec_dismissed = {}, ec_convert_count_total = 0,
      ec_convert_count_per_customer = 0\<rparr>"

definition owner_customer_id :: "cart_owner \<Rightarrow> uuid option" where
  "owner_customer_id w = (case w of Buyer k _ \<Rightarrow> Some k | Visitor _ _ \<Rightarrow> None)"

text \<open>A code is pinned on the cart once it is known to be good; what it saves is worked out at checkout.\<close>

definition accept_code ::
    "offers \<Rightarrow> uuid option \<Rightarrow> string list \<Rightarrow> instant \<Rightarrow> cart_owner \<Rightarrow> string \<Rightarrow> cart \<Rightarrow> coupon result" where
  "accept_code os tenant tags now w code c = (case coupon_get_by_code (owner_store w) (upper (strip code)) (os_coupons os) of
      None \<Rightarrow> Inl (HTTPException ''Invalid or inactive coupon code'')
    | Some cp \<Rightarrow> (case get_by_coupon_id (os_promotions os) (owner_store w) (cp_id cp) of
        None \<Rightarrow>
          if \<not> coupon_is_usable now cp then Inl (HTTPException ''Invalid or inactive coupon code'')
          else if \<not> coupon_meets_minimum_order (of_int (cart_subtotal c) / 100) cp
          then Inl (HTTPException ''Cart does not meet coupon minimum'')
          else Inr cp
      | Some linked \<Rightarrow>
          if \<not> (cp_is_active cp \<and> coupon_has_remaining_uses cp) then Inl (HTTPException ''Invalid or inactive coupon code'')
          else if tenant = None then Inl (HTTPException ''Invalid store'')
          else rbind (calculate_cart_discounts (os_promotions os) (os_coupons os) True (owner_store w) now (cart_items c)
                 (cart_customer_id c) [cp_code cp]
                 (cart_visitor (owner_customer_id w) tags (cart_items c) (List.map_filter ci_category_id (cart_items c)))) (\<lambda>out.
            if pr_id linked \<notin> set (cd_applied_promotion_ids out)
            then Inl (HTTPException ''This coupon does not apply to this cart'') else Inr cp)))"

definition sdk_apply_discount ::
    "offers \<Rightarrow> uuid option \<Rightarrow> string list \<Rightarrow> cart_env \<Rightarrow> cart_owner \<Rightarrow> string \<Rightarrow> redis_carts \<Rightarrow> (cart \<times> redis_carts) result" where
  "sdk_apply_discount os tenant tags e w code db =
     (if code = [] \<or> 64 < length code then Inl (ValidationError ''SdkDiscountRequest'')
      else rbind (cart_for e w db) (\<lambda>c.
           rbind (accept_code os tenant tags (ce_now e) w code c) (\<lambda>cp.
           Inr (save_cart (ce_now e) (c\<lparr>cart_discount_code := Some (cp_code cp)\<rparr>) db))))"

definition sdk_remove_discount :: "cart_env \<Rightarrow> cart_owner \<Rightarrow> redis_carts \<Rightarrow> (cart \<times> redis_carts) result" where
  "sdk_remove_discount e w db =
     rbind (cart_for e w db) (\<lambda>c.
       Inr (if truthy_str (cart_discount_code c) then save_cart (ce_now e) (c\<lparr>cart_discount_code := None\<rparr>) db
            else (c, db)))"

section \<open>Recovering an abandoned cart\<close>

text \<open>A saved line as it reads: identifiers that do not parse are \<open>None\<close>, a missing or unreadable quantity is one.\<close>

record saved_line =
  vl_product_id :: "uuid option"
  vl_variant_id :: "uuid option"
  vl_quantity :: int

record abandoned_checkout =
  ab_id :: uuid
  ab_store_id :: uuid
  ab_line_items :: "saved_line list"
  ab_recovered_at :: "instant option"

definition recoverable_lines ::
    "abandoned_checkout list \<Rightarrow> cart_env \<Rightarrow> uuid \<Rightarrow> uuid \<Rightarrow> redis_carts \<Rightarrow> saved_line list result" where
  "recoverable_lines rows e recover store db =
     (let row = List.find (\<lambda>a. ab_id a = recover \<and> ab_store_id a = store) rows;
          from_cart = rbind (get_by_customer_id (ce_cart_id e) (ce_now e) recover store db) (\<lambda>found. Inr (case found of
              None \<Rightarrow> []
            | Some c \<Rightarrow> map (\<lambda>i. \<lparr>vl_product_id = Some (ci_product_id i), vl_variant_id = ci_variant_id i,
                vl_quantity = ci_quantity i\<rparr>) (cart_items c)))
      in case row of
           Some a \<Rightarrow> if ab_recovered_at a \<noteq> None then Inr [] else if ab_line_items a \<noteq> [] then Inr (ab_line_items a) else from_cart
         | None \<Rightarrow> from_cart)"

text \<open>How many units of a saved line are to be put back, \<open>None\<close> where the line is skipped.\<close>

definition wanted_units ::
    "product_row \<Rightarrow> variant_row option \<Rightarrow> int \<Rightarrow> int \<Rightarrow> int option" where
  "wanted_units row v existing want =
     (let missing = want - existing
      in if missing \<le> 0 then None
         else (case v of
             None \<Rightarrow> Some missing
           | Some r \<Rightarrow> (let allowed = (if pd_continue_selling row then missing else max 0 (vr_inventory_quantity r - existing))
               in if allowed \<le> 0 then None else Some (min missing allowed))))"

text \<open>What a saved line adds to the cart: nothing where it no longer qualifies or the cart already holds it.\<close>

definition recover_item :: "catalog \<Rightarrow> stock_db \<Rightarrow> instant \<Rightarrow> uuid \<Rightarrow> saved_line \<Rightarrow> cart \<Rightarrow> cart_item option" where
  "recover_item cg stock now store l c = (case vl_product_id l of
      None \<Rightarrow> None
    | Some pid \<Rightarrow> if vl_quantity l \<le> 0 then None
        else (case offered_product cg stock store pid of
            Inl _ \<Rightarrow> None
          | Inr (p, row) \<Rightarrow>
              (case (case vl_variant_id l of None \<Rightarrow> Inr None
                     | Some vid \<Rightarrow> rbind (offered_variant cg stock p row vid) (\<lambda>x. Inr (Some x))) of
                 Inl _ \<Rightarrow> None
               | Inr v \<Rightarrow> map_option (snapshot_item now p v (vl_variant_id l) [])
                   (wanted_units row (map_option snd v) (held_quantity c pid (vl_variant_id l)) (vl_quantity l)))))"

definition recover_line :: "catalog \<Rightarrow> stock_db \<Rightarrow> instant \<Rightarrow> uuid \<Rightarrow> saved_line \<Rightarrow> cart \<Rightarrow> cart result" where
  "recover_line cg stock now store l c = (case recover_item cg stock now store l c of
      None \<Rightarrow> Inr c | Some i \<Rightarrow> rbind (mk_cart_item i) (\<lambda>j. add_item now j c))"

definition sdk_recover_cart ::
    "catalog \<Rightarrow> stock_db \<Rightarrow> abandoned_checkout list \<Rightarrow> cart_env \<Rightarrow> cart_owner \<Rightarrow> uuid \<Rightarrow> redis_carts \<Rightarrow> (cart \<times> redis_carts) result" where
  "sdk_recover_cart cg stock rows e w recover db =
     rbind (recoverable_lines rows e recover (owner_store w) db) (\<lambda>ls.
     rbind (cart_for e w db) (\<lambda>c.
     rbind (foldM (recover_line cg stock (ce_now e) (owner_store w)) ls c) (\<lambda>c'.
     Inr (save_cart (ce_now e) c' db))))"

section \<open>Ordering again\<close>

text \<open>
  The lines of an earlier order (\<open>routes/storefront/customer.py\<close>): a line that still sells is added at the price of today,
  in the quantity of then; the others are skipped and reported. The orders are those of the tenant.
\<close>

definition reorderable ::
    "catalog \<Rightarrow> stock_db \<Rightarrow> uuid \<Rightarrow> order_line_item \<Rightarrow> string + catalog_product \<times> (catalog_variant \<times> variant_row) option" where
  "reorderable cg stock store l = (case catalog_find cg stock (ol_product_id l) of
      None \<Rightarrow> Inl ''Product no longer exists.''
    | Some (p, row) \<Rightarrow>
        if ct_store_id p \<noteq> store then Inl ''Product moved to a different store.''
        else if ct_status p \<notin> set purchasable_statuses then Inl ''Product is no longer available for sale.''
        else (case ol_variant_id l of
            None \<Rightarrow> if \<not> product_in_stock row then Inl ''Out of stock.'' else Inr (p, None)
          | Some vid \<Rightarrow> (case variant_find cg stock vid of
                None \<Rightarrow> Inl ''Selected option combination is no longer available.''
              | Some (cv, r) \<Rightarrow>
                  if vr_product_id r \<noteq> ct_id p then Inl ''Selected option combination is no longer available.''
                  else if \<not> product_variant_in_stock row r then Inl ''Selected option is out of stock.''
                  else Inr (p, Some (cv, r)))))"

type_synonym skipped_line = "uuid \<times> uuid option \<times> int \<times> string"

definition reorder_line ::
    "catalog \<Rightarrow> stock_db \<Rightarrow> instant \<Rightarrow> uuid \<Rightarrow> order_line_item \<Rightarrow> cart \<times> skipped_line list
      \<Rightarrow> (cart \<times> skipped_line list) result" where
  "reorder_line cg stock now store l acc = (case acc of (c, skipped) \<Rightarrow> (case reorderable cg stock store l of
      Inl why \<Rightarrow> Inr (c, skipped @ [(ol_product_id l, ol_variant_id l, ol_quantity l, why)])
    | Inr (p, v) \<Rightarrow>
        rbind (mk_cart_item ((snapshot_item now p v (ol_variant_id l) [] (ol_quantity l))\<lparr>ci_variant_name := None\<rparr>)) (\<lambda>i.
        rbind (add_item now i c) (\<lambda>c'. Inr (c', skipped)))))"

definition me_reorder ::
    "catalog \<Rightarrow> stock_db \<Rightarrow> order list \<Rightarrow> cart_env \<Rightarrow> uuid \<Rightarrow> uuid \<Rightarrow> uuid \<Rightarrow> redis_carts
      \<Rightarrow> ((cart \<times> skipped_line list) \<times> redis_carts) result" where
  "me_reorder cg stock orders e customer store oid db = (case lookup_by ord_id oid orders of
      None \<Rightarrow> Inl (EntityNotFoundError ''Order'')
    | Some o1 \<Rightarrow> if ord_customer_id o1 \<noteq> customer then Inl (EntityNotFoundError ''Order'')
        else rbind (get_or_create_cart e customer store db) (\<lambda>c.
             rbind (foldM (reorder_line cg stock (ce_now e) store) (ord_line_items o1) (c, [])) (\<lambda>(c', skipped).
             let (saved, db') = save_cart (ce_now e) c' db in Inr ((saved, skipped), db'))))"

section \<open>A phone for a cart\<close>

text \<open>
  Asking for a one-time code (\<open>routes/storefront/identity.py\<close>) leaves the phone on the cart, if there is one; a failure is
  logged and passed over.
\<close>

definition attach_phone :: "cart_env \<Rightarrow> cart_owner \<Rightarrow> string \<Rightarrow> redis_carts \<Rightarrow> redis_carts" where
  "attach_phone e w phone db = (case (case w of
        Buyer customer store \<Rightarrow> get_by_customer_id (ce_cart_id e) (ce_now e) customer store db
      | Visitor session store \<Rightarrow> get_by_session_id (ce_cart_id e) (ce_now e) (uuid_str session) store db) of
      Inr (Some c) \<Rightarrow> snd (save_cart (ce_now e)
        (c\<lparr>cart_metadata := AList.update ''phone_e164'' (JStr phone) (cart_metadata c)\<rparr>) db)
    | _ \<Rightarrow> db)"

section \<open>The end of a checkout\<close>

text \<open>The note an order takes over, and the carts it empties; the session is the guest's cookie.\<close>

definition read_cart_note :: "uuid \<Rightarrow> instant \<Rightarrow> uuid \<Rightarrow> string option \<Rightarrow> uuid \<Rightarrow> redis_carts \<Rightarrow> string option" where
  "read_cart_note fresh now customer session store db =
     (case get_by_customer_id fresh now customer store db of
        Inl _ \<Rightarrow> None
      | Inr (Some c) \<Rightarrow> cart_notes c
      | Inr None \<Rightarrow> (case session of
            None \<Rightarrow> None
          | Some k \<Rightarrow> if k = [] then None
              else (case get_by_session_id fresh now k store db of Inr (Some c) \<Rightarrow> cart_notes c | _ \<Rightarrow> None)))"

definition clear_after_checkout ::
    "uuid \<Rightarrow> instant \<Rightarrow> uuid \<Rightarrow> string option \<Rightarrow> uuid \<Rightarrow> redis_carts \<Rightarrow> redis_carts result" where
  "clear_after_checkout fresh now customer session store db =
     rbind (delete_by_customer_id fresh now customer store db) (\<lambda>(_, db1). Inr (case session of
        None \<Rightarrow> db1
      | Some k \<Rightarrow> if k = [] then db1
          else (case delete_cart fresh now k store db1 of Inl _ \<Rightarrow> db1 | Inr (_, db2) \<Rightarrow> db2)))"

section \<open>The cart as it is shown\<close>

record cart_line_view =
  cw_id :: string
  cw_product_id :: uuid
  cw_quantity :: int
  cw_unit_price :: int
  cw_total_price :: int
  cw_current_price :: int
  cw_price_changed :: bool
  cw_available_now :: int
  cw_sold_out_now :: bool

record cart_response =
  cx_items :: "cart_line_view list"
  cx_item_count :: int
  cx_total_quantity :: int
  cx_subtotal :: int
  cx_currency :: currency
  cx_discount_code :: "string option"
  cx_automatic_discount_cents :: int
  cx_discount_amount :: int
  cx_total :: int
  cx_applied_promotions :: "applied_promotion list"
  cx_note :: "string option"

definition visible_lines :: "catalog \<Rightarrow> stock_db \<Rightarrow> cart_item list \<Rightarrow> (cart_item \<times> catalog_product \<times> product_row) list" where
  "visible_lines cg stock items = List.map_filter (\<lambda>i. case catalog_find cg stock (ci_product_id i) of
      None \<Rightarrow> None
    | Some (p, row) \<Rightarrow> if ct_status p \<in> set purchasable_statuses then Some (i, p, row) else None) items"

definition line_view :: "instant \<Rightarrow> cart_item \<times> catalog_product \<times> product_row \<Rightarrow> cart_line_view" where
  "line_view now l = (case l of (i, p, row) \<Rightarrow>
     \<lparr>cw_id = item_key i, cw_product_id = ct_id p, cw_quantity = ci_quantity i, cw_unit_price = ci_unit_price i,
      cw_total_price = ci_unit_price i * ci_quantity i, cw_current_price = money_cents (effective_price now p),
      cw_price_changed = (money_cents (effective_price now p) \<noteq> ci_unit_price i),
      cw_available_now = pd_quantity row, cw_sold_out_now = (\<not> product_in_stock row)\<rparr>)"

text \<open>A plain coupon has no promotion behind it: its saving is worked out here as checkout does.\<close>

definition plain_coupon_cents ::
    "offers \<Rightarrow> instant \<Rightarrow> uuid \<Rightarrow> string \<Rightarrow> cart_item list \<Rightarrow> int \<Rightarrow> int result" where
  "plain_coupon_cents os now store code items subtotal = (case coupon_get_by_code store code (os_coupons os) of
      None \<Rightarrow> Inr 0
    | Some c \<Rightarrow>
        if coupon_is_usable now c \<and> coupon_meets_minimum_order (of_int subtotal / 100) c
            \<and> get_by_coupon_id (os_promotions os) store (cp_id c) = None
        then rbind (coupon_calculate_discount c (of_int subtotal / 100) (Some (map (\<lambda>i.
               \<lparr>bl_product_id = ci_product_id i, bl_unit_price = of_int (ci_unit_price i) / 100, bl_quantity = ci_quantity i\<rparr>) items)))
               (\<lambda>major. Inr (trunc_rat (major * 100)))
        else Inr 0)"

fun within_budget :: "int \<Rightarrow> applied_promotion list \<Rightarrow> applied_promotion list" where
  "within_budget remaining [] = []"
| "within_budget remaining (a # as) =
     (let amount = min (av_amount a) remaining in a\<lparr>av_amount := amount\<rparr> # within_budget (remaining - amount) as)"

definition priced_items :: "(cart_item \<times> catalog_product \<times> product_row) list \<Rightarrow> cart_item list" where
  "priced_items visible = map (\<lambda>(i, p, _). i\<lparr>ci_category_id := ct_category_id p\<rparr>) visible"

definition compute_cart_discounts ::
    "offers \<Rightarrow> instant \<Rightarrow> string list \<Rightarrow> cart \<Rightarrow> (cart_item \<times> catalog_product \<times> product_row) list
      \<Rightarrow> (int \<times> int \<times> applied_promotion list) result" where
  "compute_cart_discounts os now tags c visible =
     (if visible = [] then Inr (0, 0, [])
      else (let items = priced_items visible; subtotal = sum_list (map total_price items);
                codes = (if truthy_str (cart_discount_code c) then [the (cart_discount_code c)] else [])
        in rbind (calculate_cart_discounts (os_promotions os) (os_coupons os) True (cart_store_id c) now items
                 (cart_customer_id c) codes
                 (cart_visitor (cart_customer_id c) tags items (remdups (List.map_filter ci_category_id items)))) (\<lambda>out.
           rbind (if codes \<noteq> [] \<and> cd_code_discount_cents out = 0
                  then plain_coupon_cents os now (cart_store_id c) (the (cart_discount_code c)) items subtotal
                  else Inr (cd_code_discount_cents out)) (\<lambda>code_cents.
           let automatic = min (cd_automatic_discount_cents out) (subtotal - code_cents)
           in Inr (automatic, code_cents + automatic, within_budget automatic (cd_applied_promotions out))))))"

definition build_cart_response ::
    "catalog \<Rightarrow> stock_db \<Rightarrow> offers \<Rightarrow> instant \<Rightarrow> string list \<Rightarrow> cart \<Rightarrow> cart_response" where
  "build_cart_response cg stock os now tags c =
     (let visible = visible_lines cg stock (cart_items c); views = map (line_view now) visible;
          subtotal = sum_list (map cw_total_price views);
          (automatic, discount, applied) = (case compute_cart_discounts os now tags c visible of
              Inl _ \<Rightarrow> (0, 0, []) | Inr (a, d, xs) \<Rightarrow> (min a (min d subtotal), min d subtotal, xs))
      in \<lparr>cx_items = views, cx_item_count = int (length views), cx_total_quantity = sum_list (map cw_quantity views),
          cx_subtotal = subtotal,
          cx_currency = (case cart_items c of
              [] \<Rightarrow> EGP
            | i # _ \<Rightarrow> if views = [] then EGP else (case catalog_find cg stock (ci_product_id i) of
                None \<Rightarrow> EGP | Some (p, _) \<Rightarrow> money_currency (ct_price p))),
          cx_discount_code = cart_discount_code c, cx_automatic_discount_cents = automatic,
          cx_discount_amount = discount, cx_total = max 0 (subtotal - discount),
          cx_applied_promotions = applied, cx_note = cart_notes c\<rparr>)"

end
