(* ===== verification/Cart_Sessions.thy ===== *)
theory Cart_Sessions
  imports Cart_Store
begin

text \<open>
  Stored carts over time: every entry of the store stays a well-formed cart under one of its own keys, whatever the
  owners, their logins and their checkouts do; what the requests do to the lines; and what a shopper is shown.
\<close>

section \<open>Keys\<close>

lemma session_key_inj [simp]: "session_key s t = session_key s' t' \<longleftrightarrow> s = s' \<and> t = t'"
proof
  assume "session_key s t = session_key s' t'"
  then have "uuid_str t @ '':'' @ s = uuid_str t' @ '':'' @ s'" by (simp add: session_key_def)
  then have "uuid_str t = uuid_str t' \<and> '':'' @ s = '':'' @ s'" by (intro append_eq_append_conv [THEN iffD1]) simp_all
  then show "s = s' \<and> t = t'" by (simp add: uuid_str_inj)
qed simp

lemma customer_key_inj [simp]: "customer_key u t = customer_key u' t' \<longleftrightarrow> u = u' \<and> t = t'"
proof
  assume "customer_key u t = customer_key u' t'"
  then have "uuid_str t @ '':'' @ uuid_str u = uuid_str t' @ '':'' @ uuid_str u'" by (simp add: customer_key_def)
  then have "uuid_str t = uuid_str t' \<and> '':'' @ uuid_str u = '':'' @ uuid_str u'"
    by (intro append_eq_append_conv [THEN iffD1]) simp_all
  then show "u = u' \<and> t = t'" by (simp add: uuid_str_inj)
qed simp

lemma session_customer_key [simp]: "session_key s t \<noteq> customer_key u t'" "customer_key u t' \<noteq> session_key s t"
  by (simp_all add: session_key_def customer_key_def)

section \<open>Entries\<close>

definition key_for :: "string \<Rightarrow> cart \<Rightarrow> bool" where
  "key_for k c \<longleftrightarrow> k = session_key (cart_session_id c) (cart_store_id c)
     \<or> (\<exists>u. cart_customer_id c = Some u \<and> k = customer_key u (cart_store_id c))"

definition carts_ok :: "redis_carts \<Rightarrow> bool" where
  "carts_ok db \<longleftrightarrow> (\<forall>k d t. db k = Some (d, t) \<longrightarrow> (\<exists>c. d = cart_to_dict c \<and> cart_wf c \<and> key_for k c))"

definition as_stored :: "cart \<Rightarrow> cart" where
  "as_stored c = c\<lparr>cart_items := map stored_item (cart_items c)\<rparr>"

lemma stored_item_fields [simp]:
  "item_key (stored_item i) = item_key i" "item_ok (stored_item i) = item_ok i" "ci_quantity (stored_item i) = ci_quantity i"
  by (simp_all add: stored_item_def item_key_def item_ok_def)

lemma as_stored_fields [simp]:
  "cart_session_id (as_stored c) = cart_session_id c" "cart_store_id (as_stored c) = cart_store_id c"
  "cart_customer_id (as_stored c) = cart_customer_id c" "cart_notes (as_stored c) = cart_notes c"
  "cart_wf (as_stored c) = cart_wf c" "key_for k (as_stored c) = key_for k c" "cart_qty (as_stored c) = cart_qty c"
proof -
  have "qty_in (map stored_item xs) k = qty_in xs k" for xs k by (induction xs) simp_all
  then show "cart_qty (as_stored c) = cart_qty c" by (simp add: cart_qty_def fun_eq_iff as_stored_def)
qed (simp_all add: as_stored_def cart_wf_def key_for_def comp_def)

lemma cart_reads_back: "cart_wf c \<Longrightarrow> cart_from_dict fresh now (cart_to_dict c) = Inr (as_stored c)"
proof -
  have "mapM item_from_dict (map (\<lambda>i. JObj (item_to_dict i)) xs) = Inr (map stored_item xs)"
    if "\<forall>i\<in>set xs. item_ok i" for xs
    using that by (induction xs) (simp_all add: item_roundtrip)
  then show "cart_wf c \<Longrightarrow> ?thesis"
    by (cases c) (simp add: cart_from_dict_def cart_to_dict_def dict_readers as_stored_def cart_wf_def split: option.splits)
qed

lemma read_cart_ok:
  assumes "carts_ok db"
  obtains "read_cart fresh now k db = Inr None"
  | c where "read_cart fresh now k db = Inr (Some c)" "cart_wf c" "key_for k c" "redis_get now k db \<noteq> None"
proof (cases "redis_get now k db")
  case None
  then show thesis using that(1) by (simp add: read_cart_def)
next
  case (Some d)
  then obtain t where "db k = Some (d, t)" by (auto simp: redis_get_def split: option.splits if_splits)
  then obtain c where c: "d = cart_to_dict c" "cart_wf c" "key_for k c" using assms by (auto simp: carts_ok_def)
  show thesis
    by (rule that(2) [of "as_stored c"]) (use c Some in \<open>simp_all add: read_cart_def cart_reads_back\<close>)
qed

lemma carts_ok_delete: "carts_ok db \<Longrightarrow> carts_ok (db(k := None))"
  by (simp add: carts_ok_def)

lemma carts_ok_put: "carts_ok db \<Longrightarrow> cart_wf c \<Longrightarrow> key_for k c \<Longrightarrow> carts_ok (db(k \<mapsto> (cart_to_dict c, t)))"
  by (auto simp: carts_ok_def)

lemma carts_ok_save: "carts_ok db \<Longrightarrow> cart_wf c \<Longrightarrow> carts_ok (snd (save_cart now c db))"
  by (auto simp: save_cart_def Let_def cart_wf_def key_for_def intro!: carts_ok_put split: option.splits)

text \<open>Only keys of one store are written.\<close>

definition within_store :: "uuid \<Rightarrow> redis_carts \<Rightarrow> redis_carts \<Rightarrow> bool" where
  "within_store s db db' \<longleftrightarrow> (\<forall>t. t \<noteq> s \<longrightarrow> (\<forall>x. db' (session_key x t) = db (session_key x t))
     \<and> (\<forall>u. db' (customer_key u t) = db (customer_key u t)))"

lemma within_store_refl [simp]: "within_store s db db"
  by (simp add: within_store_def)

lemma within_store_save: "cart_store_id c = s \<Longrightarrow> within_store s db (snd (save_cart now c db))"
  by (auto simp: within_store_def save_cart_def Let_def split: option.splits)

lemma within_store_trans: "within_store s a b \<Longrightarrow> within_store s b c \<Longrightarrow> within_store s a c"
  by (simp add: within_store_def)

lemma within_store_drop: "within_store s db (db(session_key x s := None))" "within_store s db (db(customer_key u s := None))"
  by (auto simp: within_store_def)

section \<open>Opening a cart\<close>

definition owned_by :: "cart_owner \<Rightarrow> cart \<Rightarrow> bool" where
  "owned_by w c \<longleftrightarrow> cart_store_id c = owner_store w \<and> (case w of
      Buyer u _ \<Rightarrow> cart_customer_id c = Some u | Visitor s _ \<Rightarrow> cart_session_id c = uuid_str s)"

lemma get_by_session_ok:
  assumes "carts_ok db"
  obtains "get_by_session_id fresh now session store db = Inr None"
  | c where "get_by_session_id fresh now session store db = Inr (Some c)" "cart_wf c"
      "cart_session_id c = session" "cart_store_id c = store"
  by (rule read_cart_ok [OF assms, of fresh now "session_key session store"])
    (auto simp: get_by_session_id_def key_for_def intro: that)

lemma get_by_customer_ok:
  assumes "carts_ok db"
  obtains "get_by_customer_id fresh now customer store db = Inr None"
  | c where "get_by_customer_id fresh now customer store db = Inr (Some c)" "cart_wf c"
      "cart_customer_id c = Some customer" "cart_store_id c = store"
  by (rule read_cart_ok [OF assms, of fresh now "customer_key customer store"])
    (auto simp: get_by_customer_id_def key_for_def intro: that)

lemma cart_opens:
  assumes "carts_ok db"
  obtains c where "cart_for e w db = Inr c" "cart_wf c" "owned_by w c"
proof (cases w)
  case (Buyer u s)
  show thesis
    by (rule get_by_customer_ok [OF assms, of "ce_cart_id e" "ce_now e" u s])
      (auto simp: Buyer cart_for_def get_or_create_cart_def new_cart_def cart_wf_def owned_by_def intro: that)
next
  case (Visitor k s)
  show thesis
    by (rule get_by_session_ok [OF assms, of "ce_cart_id e" "ce_now e" "uuid_str k" s])
      (auto simp: Visitor cart_for_def get_or_create_guest_cart_def new_cart_def cart_wf_def owned_by_def intro: that)
qed

lemma get_or_create_cart_for: "get_or_create_cart e u s db = cart_for e (Buyer u s) db"
  by (simp add: cart_for_def)

section \<open>What the requests keep\<close>

text \<open>A request on an open cart leaves it well-formed and in the same hands.\<close>

definition stays :: "cart \<Rightarrow> cart \<Rightarrow> bool" where
  "stays c c' \<longleftrightarrow> cart_wf c' \<and> cart_session_id c' = cart_session_id c \<and> cart_store_id c' = cart_store_id c
     \<and> cart_customer_id c' = cart_customer_id c"

lemma stays_trans: "stays a b \<Longrightarrow> stays b c \<Longrightarrow> stays a c"
  by (simp add: stays_def)

lemma add_item_owner:
  "add_item now i c = Inr c' \<Longrightarrow> cart_session_id c' = cart_session_id c \<and> cart_store_id c' = cart_store_id c
     \<and> cart_customer_id c' = cart_customer_id c"
  by (auto simp: add_item_def Let_def rbind_Inr_iff split: if_splits)

lemma add_item_stays:
  assumes "cart_wf c" "mk_cart_item i = Inr j" "add_item now j c = Inr c'"
  shows "stays c c' \<and> cart_qty c' = (cart_qty c)(item_key i := cart_qty c (item_key i) + ci_quantity i)"
  using add_item_law [OF assms(1), of i now] assms(2,3) add_item_owner [of now i c c']
  by (auto simp: mk_cart_item_iff stays_def)

lemma remove_item_stays: "cart_wf c \<Longrightarrow> stays c (remove_item now p v c)"
  using remove_item_spec [of c now p v] by (auto simp: stays_def remove_item_def Let_def)

lemma update_item_stays:
  assumes "cart_wf c" "update_item_quantity now p q v c = Inr c'"
  shows "stays c c'"
proof -
  have "cart_wf c'" using cart_step_wf [OF assms(1), of now "UpdateRequest p q v"] assms(2) by simp
  then show ?thesis using assms(2) remove_item_stays [OF assms(1), of now p v]
    by (auto simp: update_item_quantity_def stays_def Let_def rbind_Inr_iff split: if_splits)
qed

lemma add_line_stays: "cart_wf c \<Longrightarrow> add_line f now s cg stock r c = Inr c' \<Longrightarrow> stays c c'"
  by (auto simp: add_line_def rbind_Inr_iff dest: add_item_stays split: prod.splits)

lemma change_line_stays: "cart_wf c \<Longrightarrow> change_line cg stock now ref q c = Inr c' \<Longrightarrow> stays c c'"
  by (auto simp: change_line_def Let_def split: option.splits prod.splits if_splits intro: remove_item_stays update_item_stays)

lemma stays_refl: "cart_wf c \<Longrightarrow> stays c c"
  by (simp add: stays_def)

lemma recover_line_stays: "cart_wf c \<Longrightarrow> recover_line cg stock now s l c = Inr c' \<Longrightarrow> stays c c'"
  by (auto simp: recover_line_def rbind_Inr_iff stays_refl split: option.splits dest: add_item_stays)

lemma recover_lines_stay: "cart_wf c \<Longrightarrow> foldM (recover_line cg stock now s) ls c = Inr c' \<Longrightarrow> stays c c'"
proof (induction ls arbitrary: c)
  case Nil
  then show ?case by (simp add: stays_def)
next
  case (Cons l ls)
  then obtain c1 where c1: "recover_line cg stock now s l c = Inr c1" "foldM (recover_line cg stock now s) ls c1 = Inr c'"
    by (auto simp: rbind_Inr_iff)
  have "stays c c1" using recover_line_stays [OF Cons.prems(1) c1(1)] .
  then show ?case using Cons.IH [OF _ c1(2)] stays_trans by (auto simp: stays_def)
qed

lemma ite_Inl: "(if b then Inl x else r) = Inr y \<Longrightarrow> (r = Inr y \<Longrightarrow> P) \<Longrightarrow> P"
  by (simp split: if_splits)

section \<open>Any sequence of requests\<close>

record cart_world =
  cr_catalog :: catalog
  cr_stock :: stock_db
  cr_offers :: offers
  cr_tenant :: "uuid option"
  cr_tags :: "string list"
  cr_abandoned :: "abandoned_checkout list"
  cr_orders :: "order list"

datatype cart_call =
    MeAdd uuid uuid add_request
  | MeUpdate uuid uuid line_ref int
  | MeRemove uuid uuid line_ref
  | MeClear uuid uuid
  | SdkAdd cart_owner add_request
  | SdkRemove cart_owner line_ref
  | SdkUpdate cart_owner update_request
  | SdkDiscount cart_owner string
  | SdkUndiscount cart_owner
  | SdkRecover cart_owner uuid
  | LoginTransfer string uuid uuid
  | CheckoutDone uuid "string option" uuid
  | ExtendTtl string uuid
  | MeReorder uuid uuid uuid
  | AttachPhone cart_owner string

fun call_store :: "cart_call \<Rightarrow> uuid" where
  "call_store (MeAdd u s r) = s"
| "call_store (MeUpdate u s ref q) = s"
| "call_store (MeRemove u s ref) = s"
| "call_store (MeClear u s) = s"
| "call_store (SdkAdd w r) = owner_store w"
| "call_store (SdkRemove w ref) = owner_store w"
| "call_store (SdkUpdate w r) = owner_store w"
| "call_store (SdkDiscount w code) = owner_store w"
| "call_store (SdkUndiscount w) = owner_store w"
| "call_store (SdkRecover w i) = owner_store w"
| "call_store (LoginTransfer k u s) = s"
| "call_store (CheckoutDone u k s) = s"
| "call_store (ExtendTtl k s) = s"
| "call_store (MeReorder u s oid) = s"
| "call_store (AttachPhone w phone) = owner_store w"

definition keep_snd :: "('a \<times> 'b) result \<Rightarrow> 'b result" where
  "keep_snd r = rbind r (\<lambda>(_, b). Inr b)"

fun cart_act :: "cart_world \<times> cart_env \<times> cart_call \<Rightarrow> redis_carts \<Rightarrow> redis_carts result" where
  "cart_act (W, e, MeAdd u s r) db = keep_snd (me_add_item (cr_catalog W) (cr_stock W) e u s r db)"
| "cart_act (W, e, MeUpdate u s ref q) db = keep_snd (me_update_item e u s ref q db)"
| "cart_act (W, e, MeRemove u s ref) db = keep_snd (me_remove_item e u s ref db)"
| "cart_act (W, e, MeClear u s) db = clear_cart e u s db"
| "cart_act (W, e, SdkAdd w r) db = keep_snd (sdk_add_item (cr_catalog W) (cr_stock W) e w r db)"
| "cart_act (W, e, SdkRemove w ref) db = keep_snd (sdk_remove_item e w ref db)"
| "cart_act (W, e, SdkUpdate w r) db = keep_snd (sdk_update_item (cr_catalog W) (cr_stock W) e w r db)"
| "cart_act (W, e, SdkDiscount w code) db = keep_snd (sdk_apply_discount (cr_offers W) (cr_tenant W) (cr_tags W) e w code db)"
| "cart_act (W, e, SdkUndiscount w) db = keep_snd (sdk_remove_discount e w db)"
| "cart_act (W, e, SdkRecover w i) db = keep_snd (sdk_recover_cart (cr_catalog W) (cr_stock W) (cr_abandoned W) e w i db)"
| "cart_act (W, e, LoginTransfer k u s) db = keep_snd (transfer_to_customer (ce_cart_id e) (ce_now e) k u s db)"
| "cart_act (W, e, CheckoutDone u k s) db = clear_after_checkout (ce_cart_id e) (ce_now e) u k s db"
| "cart_act (W, e, ExtendTtl k s) db = keep_snd (extend_ttl (ce_cart_id e) (ce_now e) k s db)"
| "cart_act (W, e, MeReorder u s oid) db = keep_snd (me_reorder (cr_catalog W) (cr_stock W) (cr_orders W) e u s oid db)"
| "cart_act (W, e, AttachPhone w phone) db = Inr (attach_phone e w phone db)"

definition good_move :: "uuid \<Rightarrow> redis_carts \<Rightarrow> redis_carts \<Rightarrow> bool" where
  "good_move s db db' \<longleftrightarrow> carts_ok db' \<and> within_store s db db'"

lemma good_move_trans: "good_move s a b \<Longrightarrow> good_move s b c \<Longrightarrow> good_move s a c"
  by (auto simp: good_move_def intro: within_store_trans)

lemma good_move_refl: "carts_ok db \<Longrightarrow> good_move s db db"
  by (simp add: good_move_def)

lemma good_save: "carts_ok db \<Longrightarrow> cart_wf c \<Longrightarrow> cart_store_id c = s \<Longrightarrow> good_move s db (snd (save_cart now c db))"
  by (simp add: good_move_def carts_ok_save within_store_save)

lemma good_drop: "carts_ok db \<Longrightarrow> good_move s db (db(session_key x s := None))"
  "carts_ok db \<Longrightarrow> good_move s db (db(customer_key u s := None))"
  by (simp_all add: good_move_def carts_ok_delete within_store_drop)

text \<open>A request that opens a cart, works on it and saves it.\<close>

lemma work_on_cart:
  assumes "carts_ok db" "rbind (cart_for e w db) f = Inr (c', db')"
    and "\<And>c. cart_wf c \<Longrightarrow> owned_by w c \<Longrightarrow> f c = Inr (c', db')
      \<Longrightarrow> db' = db \<or> (\<exists>c1. stays c c1 \<and> db' = snd (save_cart (ce_now e) c1 db))"
  shows "good_move (owner_store w) db db'"
proof (rule cart_opens [OF assms(1), of e w])
  fix c assume c: "cart_for e w db = Inr c" "cart_wf c" "owned_by w c"
  then have "f c = Inr (c', db')" using assms(2) by simp
  from assms(3) [OF c(2,3) this] show ?thesis
  proof (elim disjE exE conjE)
    assume "db' = db"
    then show ?thesis using assms(1) by (simp add: good_move_refl)
  next
    fix c1 assume "stays c c1" and db': "db' = snd (save_cart (ce_now e) c1 db)"
    then have "cart_wf c1" "cart_store_id c1 = owner_store w" using c(3) by (simp_all add: stays_def owned_by_def)
    then show ?thesis unfolding db' by (rule good_save [OF assms(1)])
  qed
qed

lemma saved_work: "save_cart now c1 db = (c', db') \<Longrightarrow> db' = snd (save_cart now c1 db)"
  by simp

lemma stays_upd: "stays c c1 \<Longrightarrow> stays c (c1\<lparr>cart_notes := n\<rparr>)" "stays c c1 \<Longrightarrow> stays c (c1\<lparr>cart_discount_code := d\<rparr>)"
  by (simp_all add: stays_def cart_wf_def)

lemma update_line_stays: "cart_wf c \<Longrightarrow> update_line cg stock now u c = Inr (c', b) \<Longrightarrow> stays c c'"
  by (auto simp: update_line_def rbind_Inr_iff stays_refl split: option.splits dest: change_line_stays)

lemma update_note_stays: "stays c c1 \<Longrightarrow> stays c (update_note u c1)"
  by (auto simp: update_note_def stays_upd split: option.splits)

lemma sdk_calls_good:
  assumes "carts_ok db"
  shows "sdk_add_item cg stock e w r db = Inr (c', db') \<Longrightarrow> good_move (owner_store w) db db'"
    "sdk_remove_item e w ref db = Inr (c', db') \<Longrightarrow> good_move (owner_store w) db db'"
    "sdk_update_item cg stock e w u db = Inr (c', db') \<Longrightarrow> good_move (owner_store w) db db'"
    "sdk_apply_discount os tenant tags e w code db = Inr (c', db') \<Longrightarrow> good_move (owner_store w) db db'"
    "sdk_remove_discount e w db = Inr (c', db') \<Longrightarrow> good_move (owner_store w) db db'"
    "sdk_recover_cart cg stock rows e w i db = Inr (c', db') \<Longrightarrow> good_move (owner_store w) db db'"
proof -
  show "good_move (owner_store w) db db'" if "sdk_add_item cg stock e w r db = Inr (c', db')"
    using that unfolding sdk_add_item_def
    by - (elim ite_Inl, erule work_on_cart [OF assms], auto simp: rbind_Inr_iff dest!: saved_work add_line_stays)
  show "good_move (owner_store w) db db'" if "sdk_remove_item e w ref db = Inr (c', db')"
    using that unfolding sdk_remove_item_def
    by - (erule work_on_cart [OF assms], auto dest!: saved_work intro!: remove_item_stays split: option.splits if_splits)
  show "good_move (owner_store w) db db'" if "sdk_update_item cg stock e w u db = Inr (c', db')"
    using that unfolding sdk_update_item_def
    by - (elim ite_Inl, erule work_on_cart [OF assms],
      auto simp: rbind_Inr_iff dest!: saved_work update_line_stays intro!: update_note_stays split: if_splits)
  show "good_move (owner_store w) db db'" if "sdk_apply_discount os tenant tags e w code db = Inr (c', db')"
    using that unfolding sdk_apply_discount_def
    by - (elim ite_Inl, erule work_on_cart [OF assms],
      auto simp: rbind_Inr_iff dest!: saved_work intro!: stays_upd stays_refl)
  show "good_move (owner_store w) db db'" if "sdk_remove_discount e w db = Inr (c', db')"
    using that unfolding sdk_remove_discount_def
    by - (erule work_on_cart [OF assms], auto dest!: saved_work intro!: stays_upd stays_refl split: if_splits)
  show "good_move (owner_store w) db db'" if r: "sdk_recover_cart cg stock rows e w i db = Inr (c', db')"
  proof -
    obtain ls where "rbind (cart_for e w db) (\<lambda>c. rbind (foldM (recover_line cg stock (ce_now e) (owner_store w)) ls c) (\<lambda>c'.
     Inr (save_cart (ce_now e) c' db))) = Inr (c', db')" using r
      by (cases "recoverable_lines rows e i (owner_store w) db") (simp_all add: sdk_recover_cart_def)
    then show ?thesis
      by (rule work_on_cart [OF assms]) (auto simp: rbind_Inr_iff dest!: saved_work recover_lines_stay)
  qed
qed

lemma me_calls_good:
  assumes "carts_ok db"
  shows "me_add_item cg stock e u s r db = Inr (c', db') \<Longrightarrow> good_move s db db'"
    "me_update_item e u s ref q db = Inr (c', db') \<Longrightarrow> good_move s db db'"
    "me_remove_item e u s ref db = Inr (c', db') \<Longrightarrow> good_move s db db'"
proof -
  note w = work_on_cart [OF assms, where w = "Buyer u s", unfolded cart_owner.sel]
  show "good_move s db db'" if "me_add_item cg stock e u s r db = Inr (c', db')"
    using that unfolding me_add_item_def get_or_create_cart_for
    by - (elim ite_Inl, erule w, auto simp: rbind_Inr_iff dest!: saved_work add_line_stays)
  show "good_move s db db'" if "me_update_item e u s ref q db = Inr (c', db')"
    using that unfolding me_update_item_def get_or_create_cart_for
    by - (elim ite_Inl, erule w,
      auto simp: rbind_Inr_iff dest!: saved_work update_item_stays [rotated] split: option.splits if_splits)
  show "good_move s db db'" if "me_remove_item e u s ref db = Inr (c', db')"
    using that unfolding me_remove_item_def get_or_create_cart_for
    by - (erule w, auto dest!: saved_work intro!: remove_item_stays split: option.splits if_splits)
qed

lemma delete_customer_good:
  assumes "carts_ok db" "delete_by_customer_id fresh now u s db = Inr (b, db')"
  shows "good_move s db db'"
proof (rule get_by_customer_ok [OF assms(1), of fresh now u s])
  assume "get_by_customer_id fresh now u s db = Inr None"
  then show ?thesis using assms by (simp add: delete_by_customer_id_def good_move_refl)
next
  fix c assume c: "get_by_customer_id fresh now u s db = Inr (Some c)" "cart_store_id c = s"
  let ?db1 = "db(customer_key u s := None)"
  have "good_move s db ?db1" by (rule good_drop(2) [OF assms(1)])
  moreover have "good_move s ?db1 (?db1(session_key (cart_session_id c) s := None))"
    by (rule good_drop(1) [OF carts_ok_delete [OF assms(1)]])
  ultimately have "good_move s db (?db1(session_key (cart_session_id c) s := None))" by (rule good_move_trans)
  then show ?thesis using assms(2) c by (simp add: delete_by_customer_id_def)
qed

lemma delete_cart_good:
  assumes "carts_ok db" "delete_cart fresh now k s db = Inr (b, db')"
  shows "good_move s db db'"
proof (rule get_by_session_ok [OF assms(1), of fresh now k s])
  assume "get_by_session_id fresh now k s db = Inr None"
  then show ?thesis using assms by (simp add: delete_cart_def good_move_refl)
next
  fix c assume c: "get_by_session_id fresh now k s db = Inr (Some c)" "cart_store_id c = s"
  let ?db1 = "db(session_key k s := None)"
  have d1: "good_move s db ?db1" by (rule good_drop(1) [OF assms(1)])
  have "good_move s ?db1 (?db1(customer_key u s := None))" for u
    by (rule good_drop(2) [OF carts_ok_delete [OF assms(1)]])
  then have "good_move s db (?db1(customer_key u s := None))" for u using d1 good_move_trans by blast
  then show ?thesis using assms(2) c d1 by (auto simp: delete_cart_def Let_def split: option.splits)
qed

lemma clear_after_good:
  assumes "carts_ok db" "clear_after_checkout fresh now u k s db = Inr db'"
  shows "good_move s db db'"
proof -
  obtain b db1 where d: "delete_by_customer_id fresh now u s db = Inr (b, db1)"
    using assms(2) by (auto simp: clear_after_checkout_def rbind_Inr_iff)
  have g: "good_move s db db1" by (rule delete_customer_good [OF assms(1) d])
  then have ok: "carts_ok db1" by (simp add: good_move_def)
  have "good_move s db db2" if "delete_cart fresh now x s db1 = Inr (b2, db2)" for x b2 db2
    using g delete_cart_good [OF ok that] by (rule good_move_trans)
  then show ?thesis using assms(2) d g
    by (auto simp: clear_after_checkout_def rbind_Inr_iff split: option.splits if_splits sum.splits)
qed

lemma carts_ok_touch: "carts_ok db \<Longrightarrow> carts_ok (touch_key now k db)"
  by (auto simp: touch_key_def redis_get_def carts_ok_def split: option.splits if_splits prod.splits)

lemma touch_good: "carts_ok db \<Longrightarrow> good_move s db (touch_key now (session_key x s) db)"
  "carts_ok db \<Longrightarrow> good_move s db (touch_key now (customer_key u s) db)"
  by (simp_all add: good_move_def carts_ok_touch) (auto simp: within_store_def touch_key_def split: option.splits)

lemma extend_ttl_good:
  assumes "carts_ok db" "extend_ttl fresh now k s db = Inr (b, db')"
  shows "good_move s db db'"
proof -
  let ?db1 = "touch_key now (session_key k s) db"
  have g: "good_move s db ?db1" and ok: "carts_ok ?db1" using assms(1) by (rule touch_good, rule carts_ok_touch)
  show ?thesis
  proof (rule get_by_session_ok [OF ok, of fresh now k s])
    assume "get_by_session_id fresh now k s ?db1 = Inr None"
    then show ?thesis using assms g by (auto simp: extend_ttl_def good_move_refl split: if_splits)
  next
    fix c assume c: "get_by_session_id fresh now k s ?db1 = Inr (Some c)" "cart_store_id c = s"
    have "good_move s db (touch_key now (customer_key u s) ?db1)" for u
      using g touch_good(2) [OF ok] by (rule good_move_trans)
    then show ?thesis using assms g c by (auto simp: extend_ttl_def good_move_refl Let_def split: if_splits option.splits)
  qed
qed

lemma transfer_good:
  assumes ok: "carts_ok db" and t: "transfer_to_customer fresh now k u s db = Inr (c', db')"
  shows "good_move s db db'"
proof (rule get_by_session_ok [OF ok, of fresh now k s])
  assume "get_by_session_id fresh now k s db = Inr None"
  then show ?thesis using t ok by (simp add: transfer_to_customer_def good_move_refl)
next
  fix g assume g: "get_by_session_id fresh now k s db = Inr (Some g)" "cart_wf g" "cart_store_id g = s"
  have up: "cart_wf (c\<lparr>cart_customer_id := Some u\<rparr>) = cart_wf c" for c by (simp add: cart_wf_def)
  show ?thesis
  proof (rule get_by_customer_ok [OF ok, of fresh now u s])
    assume "get_by_customer_id fresh now u s db = Inr None"
    then have "db' = snd (save_cart now (g\<lparr>cart_customer_id := Some u\<rparr>) db)"
      using t g by (simp add: transfer_to_customer_def split: prod.splits)
    then show ?thesis using good_save [OF ok, of "g\<lparr>cart_customer_id := Some u\<rparr>" s now] g by (simp add: up)
  next
    fix old assume old: "get_by_customer_id fresh now u s db = Inr (Some old)" "cart_wf old" "cart_store_id old = s"
    obtain m where m: "merge_cart now g old = Inr m"
      and db': "db' = snd (save_cart now (m\<lparr>cart_customer_id := Some u\<rparr>) (db(session_key k s := None)))"
      using t g(1,3) old(1) by (cases "merge_cart now g old") (simp_all add: transfer_to_customer_def split: prod.splits)
    have "cart_wf m" using merge_cart_adds [OF old(2), of g now] g(2) m by (auto simp: cart_wf_def)
    moreover have "cart_store_id m = s"
    proof -
      obtain t0 where t0: "foldM (add_item now) (cart_items g) old = Inr t0" "cart_store_id m = cart_store_id t0"
        using m by (auto simp: merge_cart_def rbind_Inr_iff split: if_splits)
      have "cart_store_id t0 = cart_store_id old"
        by (rule foldM_invariant [where I = "\<lambda>x. cart_store_id x = cart_store_id old", OF _ _ t0(1)])
          (auto dest: add_item_owner)
      then show ?thesis using t0(2) old(3) by simp
    qed
    ultimately have "good_move s (db(session_key k s := None)) db'"
      unfolding db' by (intro good_save carts_ok_delete ok) (simp_all add: up)
    with good_drop(1) [OF ok] show ?thesis by (rule good_move_trans)
  qed
qed

lemma reorder_line_adds:
  assumes "cart_wf c" "reorder_line cg stock now s l (c, sk) = Inr (c', sk')"
  shows "stays c c' \<and> (case reorderable cg stock s l of
      Inl why \<Rightarrow> c' = c \<and> sk' = sk @ [(ol_product_id l, ol_variant_id l, ol_quantity l, why)]
    | Inr (p, v) \<Rightarrow> sk' = sk \<and> cart_qty c' = (cart_qty c)(key_of (ct_id p) (ol_variant_id l) :=
        cart_qty c (key_of (ct_id p) (ol_variant_id l)) + ol_quantity l))"
proof (cases "reorderable cg stock s l")
  case (Inl why)
  then show ?thesis using assms by (simp add: reorder_line_def stays_refl)
next
  case (Inr pv)
  obtain p v where pv: "pv = (p, v)" by (cases pv)
  let ?i = "(snapshot_item now p v (ol_variant_id l) [] (ol_quantity l))\<lparr>ci_variant_name := None\<rparr>"
  have k: "item_key ?i = key_of (ct_id p) (ol_variant_id l)" "ci_quantity ?i = ol_quantity l"
    by (simp_all add: snapshot_item_def Let_def item_key_def)
  obtain i where i: "mk_cart_item ?i = Inr i" "add_item now i c = Inr c'" "sk' = sk"
    using assms(2) by (auto simp: reorder_line_def Inr pv rbind_Inr_iff)
  show ?thesis using add_item_stays [OF assms(1) i(1,2)] i(3) by (simp only: Inr pv k sum.case prod.case)
qed

lemma reorder_lines_stay:
  "cart_wf c \<Longrightarrow> foldM (reorder_line cg stock now s) ls (c, sk) = Inr (c', sk') \<Longrightarrow> stays c c'"
proof (induction ls arbitrary: c sk)
  case (Cons l ls)
  then obtain c1 sk1 where c1: "reorder_line cg stock now s l (c, sk) = Inr (c1, sk1)"
      "foldM (reorder_line cg stock now s) ls (c1, sk1) = Inr (c', sk')"
    by (auto simp: rbind_Inr_iff)
  have "stays c c1" using reorder_line_adds [OF Cons.prems(1) c1(1)] by blast
  then show ?case using Cons.IH [OF _ c1(2)] stays_trans by (auto simp: stays_def)
qed (simp add: stays_refl)

lemma reorder_good:
  assumes "carts_ok db" "me_reorder cg stock orders e u s oid db = Inr (r, db')"
  shows "good_move s db db'"
proof -
  obtain o1 where o1: "lookup_by ord_id oid orders = Some o1" "ord_customer_id o1 = u"
    using assms(2) by (auto simp: me_reorder_def split: option.splits if_splits)
  obtain c where c: "cart_for e (Buyer u s) db = Inr c" "cart_wf c" "owned_by (Buyer u s) c"
    by (rule cart_opens [OF assms(1)])
  obtain c' sk where f: "foldM (reorder_line cg stock (ce_now e) s) (ord_line_items o1) (c, []) = Inr (c', sk)"
    and db': "db' = snd (save_cart (ce_now e) c' db)"
    using assms(2) c(1) o1 by (auto simp: me_reorder_def get_or_create_cart_for rbind_Inr_iff Let_def case_prod_beta)
  have "stays c c'" by (rule reorder_lines_stay [OF c(2) f])
  then show ?thesis unfolding db' using c(3) by (intro good_save [OF assms(1)]) (simp_all add: stays_def owned_by_def)
qed

lemma attach_phone_good: "carts_ok db \<Longrightarrow> good_move (owner_store w) db (attach_phone e w phone db)"
proof -
  assume ok: "carts_ok db"
  have saves: "good_move s db (snd (save_cart now (c\<lparr>cart_metadata := m\<rparr>) db))" if "cart_wf c" "cart_store_id c = s" for c s m now
    by (rule good_save [OF ok]) (use that in \<open>simp_all add: cart_wf_def\<close>)
  show ?thesis
  proof (cases w)
    case (Buyer u s)
    show ?thesis
      by (rule get_by_customer_ok [OF ok, of "ce_cart_id e" "ce_now e" u s])
        (simp_all add: attach_phone_def Buyer good_move_refl [OF ok] saves)
  next
    case (Visitor k s)
    show ?thesis
      by (rule get_by_session_ok [OF ok, of "ce_cart_id e" "ce_now e" "uuid_str k" s])
        (simp_all add: attach_phone_def Visitor good_move_refl [OF ok] saves)
  qed
qed

lemmas calls_good = reorder_good attach_phone_good sdk_calls_good me_calls_good delete_customer_good clear_after_good extend_ttl_good transfer_good

lemma cart_act_good:
  assumes "carts_ok db" "cart_act (W, e, x) db = Inr db'"
  shows "good_move (call_store x) db db'"
  using assms(2)
  by (cases x) (auto simp: keep_snd_def clear_cart_def rbind_Inr_iff intro: calls_good [OF assms(1)])

section \<open>Properties of the store\<close>

definition no_carts :: redis_carts where
  "no_carts = Map.empty"

text \<open>
  C16: stored carts always read. Starting from a sound store, over any sequence of cart requests, logins,
  checkouts and refreshes of any owners, the refused ones included, opening a cart never fails: every owner gets a
  cart of the own store that is registered for that owner, with different product and variant pairs, positive
  quantities and non-negative prices.
\<close>

theorem carts_always_open:
  assumes "carts_ok db"
  shows "\<exists>c. cart_for e w (serve_all cart_act calls db) = Inr c
    \<and> cart_store_id c = owner_store w
    \<and> (case w of Buyer u _ \<Rightarrow> cart_customer_id c = Some u | Visitor k _ \<Rightarrow> cart_session_id c = uuid_str k)
    \<and> distinct (map (\<lambda>i. (ci_product_id i, ci_variant_id i)) (cart_items c))
    \<and> (\<forall>i\<in>set (cart_items c). 1 \<le> ci_quantity i \<and> 0 \<le> ci_unit_price i)"
proof -
  have "carts_ok (serve_all cart_act calls db)"
    by (rule serve_all_invariant [where I = carts_ok, OF _ assms]) (auto dest: cart_act_good simp: good_move_def)
  then obtain c where c: "cart_for e w (serve_all cart_act calls db) = Inr c" "cart_wf c" "owned_by w c"
    by (rule cart_opens)
  have "distinct (map item_key xs) \<longleftrightarrow> distinct (map (\<lambda>i. (ci_product_id i, ci_variant_id i)) xs)" for xs
    by (induction xs) (auto simp: item_key_eq image_iff)
  then show ?thesis using c by (auto simp: owned_by_def cart_wf_def item_ok_def)
qed

text \<open>
  C40: stores do not see each other's carts. Requests for some stores leave every cart of every other store as
  it was.
\<close>

theorem carts_of_other_stores_untouched:
  assumes "carts_ok db" "\<forall>x\<in>set calls. call_store (snd (snd x)) \<noteq> owner_store w"
  shows "cart_for e w (serve_all cart_act calls db) = cart_for e w db"
proof -
  have "carts_ok (serve_all cart_act calls db) \<and> (\<forall>x. serve_all cart_act calls db (session_key x (owner_store w)) = db (session_key x (owner_store w)))
      \<and> (\<forall>u. serve_all cart_act calls db (customer_key u (owner_store w)) = db (customer_key u (owner_store w)))"
    using assms
  proof (induction calls arbitrary: db)
    case (Cons x calls)
    obtain W e x' where x: "x = (W, e, x')" by (cases x)
    let ?t = "serve cart_act x db"
    have "good_move (call_store x') db ?t"
      using Cons.prems(1) cart_act_good [OF Cons.prems(1), of W e x']
      by (cases "cart_act x db") (auto simp: serve_def x good_move_refl)
    then have t: "carts_ok ?t" "\<forall>y. ?t (session_key y (owner_store w)) = db (session_key y (owner_store w))"
        "\<forall>u. ?t (customer_key u (owner_store w)) = db (customer_key u (owner_store w))"
      using Cons.prems(2) by (auto simp: good_move_def within_store_def x)
    from Cons.IH [OF t(1)] Cons.prems(2) t(2,3) show ?case by simp
  qed simp
  then show ?thesis
    by (cases w) (simp_all add: cart_for_def get_or_create_cart_def get_or_create_guest_cart_def get_by_customer_id_def
        get_by_session_id_def read_cart_def redis_get_def)
qed

section \<open>Quantities of a line\<close>

lemma held_is_qty: "cart_wf c \<Longrightarrow> held_quantity c p v = cart_qty c (key_of p v)"
proof (cases rule: cart_split [of "key_of p v" "cart_items c"])
  case absent
  then show ?thesis by (simp add: held_quantity_def get_item_def find_absent cart_qty_def)
next
  case (found ys x zs)
  assume "cart_wf c"
  then have "key_of p v \<notin> item_key ` set zs" using found by (auto simp: cart_wf_def)
  moreover have "get_item c p v = Some x" using found find_found [OF found] by (simp add: get_item_def)
  ultimately show ?thesis using found by (simp add: held_quantity_def cart_qty_def)
qed

lemma snapshot_item_fields [simp]:
  "ci_product_id (snapshot_item now p v vid sel q) = ct_id p" "ci_variant_id (snapshot_item now p v vid sel q) = vid"
  "ci_quantity (snapshot_item now p v vid sel q) = q"
  "item_key (snapshot_item now p v vid sel q) = key_of (ct_id p) vid"
  by (simp_all add: snapshot_item_def Let_def item_key_def)

lemma offered_product_Inr:
  "offered_product cg stock s pid = Inr (p, row) \<Longrightarrow> catalog_find cg stock pid = Some (p, row) \<and> ct_id p = pid \<and> ct_store_id p = s"
  by (auto simp: offered_product_def dest: catalog_find_id split: option.splits prod.splits if_splits)

lemma sdk_is_me_quantity: "1 \<le> q \<Longrightarrow> sdk_quantity row v existing q = me_quantity row v existing q"
  by (simp add: sdk_quantity_def me_quantity_def split: option.splits)

text \<open>What an accepted addition does to the quantities.\<close>

lemma add_line_effect:
  assumes "cart_wf c" "add_line sdk_quantity now s cg stock r c = Inr c'"
  obtains p row v q where
    "catalog_find cg stock (aq_product_id r) = Some (p, row)" "product_in_stock row" "ct_store_id p = s"
    "case aq_variant_id r of None \<Rightarrow> v = None | Some vid \<Rightarrow> \<exists>cv x. v = Some (cv, x) \<and> variant_find cg stock vid = Some (cv, x)
        \<and> vr_product_id x = aq_product_id r"
    "sdk_quantity row (map_option snd v) (cart_qty c (key_of (aq_product_id r) (aq_variant_id r))) (aq_quantity r) = Inr q"
    "cart_qty c' = (cart_qty c)(key_of (aq_product_id r) (aq_variant_id r) :=
       cart_qty c (key_of (aq_product_id r) (aq_variant_id r)) + q)"
proof -
  obtain p row v q i where p: "offered_product cg stock s (aq_product_id r) = Inr (p, row)"
    and v: "(case aq_variant_id r of None \<Rightarrow> Inr None
            | Some vid \<Rightarrow> rbind (offered_variant cg stock p row vid) (\<lambda>v. Inr (Some v))) = Inr v"
    and q: "sdk_quantity row (map_option snd v) (held_quantity c (aq_product_id r) (aq_variant_id r)) (aq_quantity r) = Inr q"
    and i: "mk_cart_item (snapshot_item now p v (aq_variant_id r) (aq_selected_options r) q) = Inr i" "add_item now i c = Inr c'"
    using assms(2) by (auto simp: add_line_def rbind_Inr_iff)
  note f = offered_product_Inr [OF p]
  have "case aq_variant_id r of None \<Rightarrow> v = None | Some vid \<Rightarrow> \<exists>cv x. v = Some (cv, x) \<and> variant_find cg stock vid = Some (cv, x)
        \<and> vr_product_id x = aq_product_id r"
    using v f by (auto simp: rbind_Inr_iff offered_variant_def split: option.splits if_splits prod.splits)
  moreover have "product_in_stock row" using p f by (auto simp: offered_product_def split: if_splits)
  ultimately show thesis
    using that f q [unfolded held_is_qty [OF assms(1)]] conjunct2 [OF add_item_stays [OF assms(1) i]] by simp
qed

text \<open>
  C17: what an addition adds. From sound stored carts, an accepted addition changes one line only. Without a variant, and where
  the product is sold beyond its stock, the line grows by the quantity asked for; otherwise it grows to that
  sum or to the inventory of the variant, whichever is less, and an addition that could not grow it is refused. The two
  routes for customers do the same.
\<close>

theorem added_within_stock:
  assumes "carts_ok db" "cart_for e w db = Inr c" "sdk_add_item cg stock e w r db = Inr (c', db')"
  shows "\<exists>n p row. catalog_find cg stock (aq_product_id r) = Some (p, row)
    \<and> cart_qty c' = (cart_qty c)(key_of (aq_product_id r) (aq_variant_id r) := n)
    \<and> cart_qty c (key_of (aq_product_id r) (aq_variant_id r)) < n
    \<and> (case aq_variant_id r of
         None \<Rightarrow> n = cart_qty c (key_of (aq_product_id r) None) + aq_quantity r
       | Some vid \<Rightarrow> \<exists>cv x. variant_find cg stock vid = Some (cv, x) \<and> vr_product_id x = aq_product_id r
           \<and> n = (if pd_continue_selling row then cart_qty c (key_of (aq_product_id r) (Some vid)) + aq_quantity r
                  else min (vr_inventory_quantity x) (cart_qty c (key_of (aq_product_id r) (Some vid)) + aq_quantity r)))
    \<and> (\<forall>u. w = Buyer u (owner_store w) \<and> aq_quantity r \<le> 999
         \<longrightarrow> me_add_item cg stock e u (owner_store w) r db = Inr (c', db'))"
proof -
  have wf: "cart_wf c" by (rule cart_opens [OF assms(1), of e w]) (simp add: assms(2))
  obtain c1 where c1: "1 \<le> aq_quantity r" "add_line sdk_quantity (ce_now e) (owner_store w) cg stock r c = Inr c1"
    and s: "save_cart (ce_now e) c1 db = (c', db')"
    using assms(2,3) by (auto simp: sdk_add_item_def rbind_Inr_iff split: if_splits)
  have same: "cart_qty c' = cart_qty c1" using s by (auto simp: save_cart_def Let_def cart_qty_def)
  have "me_add_item cg stock e u (owner_store w) r db = Inr (c', db')" if "w = Buyer u (owner_store w)" "aq_quantity r \<le> 999" for u
  proof -
    have "add_line me_quantity (ce_now e) (owner_store w) cg stock r c = add_line sdk_quantity (ce_now e) (owner_store w) cg stock r c"
      by (simp add: add_line_def sdk_is_me_quantity [OF c1(1)])
    moreover have "get_or_create_cart e u (owner_store w) db = Inr c" using that(1) assms(2) by (simp add: get_or_create_cart_for)
    ultimately show ?thesis using c1 s that(2) by (simp add: me_add_item_def)
  qed
  then have routes: "\<forall>u. w = Buyer u (owner_store w) \<and> aq_quantity r \<le> 999
         \<longrightarrow> me_add_item cg stock e u (owner_store w) r db = Inr (c', db')" by blast
  show ?thesis
  proof (rule add_line_effect [OF wf c1(2)])
    fix p row v q
    let ?k = "key_of (aq_product_id r) (aq_variant_id r)"
    assume p: "catalog_find cg stock (aq_product_id r) = Some (p, row)"
      and v: "case aq_variant_id r of None \<Rightarrow> v = None | Some vid \<Rightarrow> \<exists>cv x. v = Some (cv, x) \<and> variant_find cg stock vid = Some (cv, x)
        \<and> vr_product_id x = aq_product_id r"
      and q: "sdk_quantity row (map_option snd v) (cart_qty c ?k) (aq_quantity r) = Inr q"
      and c': "cart_qty c1 = (cart_qty c)(?k := cart_qty c ?k + q)"
    have grown: "cart_qty c ?k < cart_qty c ?k + q"
      using q c1(1) by (auto simp: sdk_quantity_def refuse_more_def Let_def split: option.splits if_splits)
    have "case aq_variant_id r of
         None \<Rightarrow> cart_qty c ?k + q = cart_qty c (key_of (aq_product_id r) None) + aq_quantity r
       | Some vid \<Rightarrow> \<exists>cv x. variant_find cg stock vid = Some (cv, x) \<and> vr_product_id x = aq_product_id r
           \<and> cart_qty c ?k + q = (if pd_continue_selling row then cart_qty c (key_of (aq_product_id r) (Some vid)) + aq_quantity r
                  else min (vr_inventory_quantity x) (cart_qty c (key_of (aq_product_id r) (Some vid)) + aq_quantity r))"
      using v q c1(1)
      by (cases "aq_variant_id r") (auto simp: sdk_quantity_def refuse_more_def Let_def split: if_splits)
    then show ?thesis using p c' grown routes unfolding same
      by (intro exI [of _ "cart_qty c ?k + q"] exI [of _ p] exI [of _ row] conjI)
  qed
qed

section \<open>Ordering again\<close>

definition still_sells :: "catalog \<Rightarrow> stock_db \<Rightarrow> uuid \<Rightarrow> order_line_item \<Rightarrow> bool" where
  "still_sells cg stock s l = (case reorderable cg stock s l of Inl _ \<Rightarrow> False | Inr _ \<Rightarrow> True)"

lemma reorderable_id: "reorderable cg stock s l = Inr (p, v) \<Longrightarrow> ct_id p = ol_product_id l"
  by (auto simp: reorderable_def dest: catalog_find_id split: option.splits if_splits prod.splits)

lemma reorder_lines_add:
  assumes "cart_wf c" "foldM (reorder_line cg stock now s) ls (c, sk) = Inr (c', sk')"
  shows "(\<forall>k. cart_qty c' k = cart_qty c k + sum_list (map ol_quantity
        (filter (\<lambda>l. still_sells cg stock s l \<and> key_of (ol_product_id l) (ol_variant_id l) = k) ls)))
    \<and> length sk' = length sk + length (filter (\<lambda>l. \<not> still_sells cg stock s l) ls)"
  using assms
proof (induction ls arbitrary: c sk)
  case (Cons l ls)
  then obtain c1 sk1 where c1: "reorder_line cg stock now s l (c, sk) = Inr (c1, sk1)"
      "foldM (reorder_line cg stock now s) ls (c1, sk1) = Inr (c', sk')"
    by (auto simp: rbind_Inr_iff)
  note one = reorder_line_adds [OF Cons.prems(1) c1(1)]
  then have "cart_wf c1" by (simp add: stays_def)
  note rest = Cons.IH [OF this c1(2)]
  show ?case
  proof (cases "reorderable cg stock s l")
    case (Inl why)
    then show ?thesis using one rest by (simp add: still_sells_def)
  next
    case (Inr pv)
    obtain p v where "pv = (p, v)" by (cases pv)
    then show ?thesis using one rest reorderable_id [of cg stock s l p v] Inr by (auto simp: still_sells_def)
  qed
qed simp

text \<open>
  Ordering again puts the lines of an order that still sell into the customer's cart, each with its quantity on top of what the
  cart holds, reports exactly the others, and is refused for an order of somebody else.
\<close>

theorem reorder_adds_what_sells:
  assumes "carts_ok db" "cart_for e (Buyer u s) db = Inr c"
    and "me_reorder cg stock orders e u s oid db = Inr ((c', skipped), db')"
  shows "\<exists>o1. lookup_by ord_id oid orders = Some o1 \<and> ord_customer_id o1 = u
    \<and> (\<forall>k. cart_qty c' k = cart_qty c k + sum_list (map ol_quantity
        (filter (\<lambda>l. still_sells cg stock s l \<and> key_of (ol_product_id l) (ol_variant_id l) = k) (ord_line_items o1))))
    \<and> length skipped = length (filter (\<lambda>l. \<not> still_sells cg stock s l) (ord_line_items o1))"
proof -
  obtain o1 where o1: "lookup_by ord_id oid orders = Some o1" "ord_customer_id o1 = u"
    using assms(3) by (auto simp: me_reorder_def split: option.splits if_splits)
  have wf: "cart_wf c" by (rule cart_opens [OF assms(1), of e "Buyer u s"]) (simp add: assms(2))
  obtain c0 where f: "foldM (reorder_line cg stock (ce_now e) s) (ord_line_items o1) (c, []) = Inr (c0, skipped)"
    and c': "c' = fst (save_cart (ce_now e) c0 db)"
    using assms(2,3) o1 by (auto simp: me_reorder_def get_or_create_cart_for rbind_Inr_iff Let_def case_prod_beta)
  have "cart_qty c' = cart_qty c0" by (simp add: c' save_cart_def Let_def cart_qty_def)
  then show ?thesis using reorder_lines_add [OF wf f] o1 by simp
qed

section \<open>Recovering twice\<close>

definition line_key :: "saved_line \<Rightarrow> string option" where
  "line_key l = map_option (\<lambda>p. key_of p (vl_variant_id l)) (vl_product_id l)"

lemma open_after_save:
  assumes "cart_wf c" "owned_by w c" "ce_now e2 < expires_after now" "save_cart now c db = (c', db')"
  shows "cart_for e2 w db' = Inr (as_stored c')"
proof -
  have wf: "cart_wf c'" using assms(1,4) by (auto simp: save_cart_def Let_def cart_wf_def)
  show ?thesis
  proof (cases w)
    case (Buyer u s)
    then have "redis_get (ce_now e2) (customer_key u s) db' = Some (cart_to_dict c')"
      using assms(2-4) by (auto simp: owned_by_def save_cart_def Let_def redis_get_def)
    then show ?thesis using wf
      by (simp add: Buyer cart_for_def get_or_create_cart_def get_by_customer_id_def read_cart_def cart_reads_back)
  next
    case (Visitor k s)
    then have "redis_get (ce_now e2) (session_key (uuid_str k) s) db' = Some (cart_to_dict c')"
      using assms(2-4) by (auto simp: owned_by_def save_cart_def Let_def redis_get_def split: option.splits)
    then show ?thesis using wf
      by (simp add: Visitor cart_for_def get_or_create_guest_cart_def get_by_session_id_def read_cart_def cart_reads_back)
  qed
qed

lemma wanted_none_mono: "wanted_units row v x want = None \<Longrightarrow> x \<le> y \<Longrightarrow> wanted_units row v y want = None"
  by (auto simp: wanted_units_def Let_def split: option.splits if_splits)

lemma wanted_then_none: "wanted_units row v x want = Some q \<Longrightarrow> 0 < q \<and> x + q \<le> want \<and> wanted_units row v (x + q) want = None"
  by (auto simp: wanted_units_def Let_def split: option.splits if_splits)

lemma recover_item_None:
  assumes "recover_item cg stock n s l c = None" "cart_wf c" "cart_wf c'" "\<forall>k. cart_qty c k \<le> cart_qty c' k"
  shows "recover_item cg stock n' s l c' = None"
proof -
  have "held_quantity c p v \<le> held_quantity c' p v" for p v using assms(2-4) by (simp add: held_is_qty)
  then show ?thesis using assms(1) wanted_none_mono
    by (fastforce simp: recover_item_def split: option.splits sum.splits if_splits)
qed

lemma recover_item_Some:
  assumes "recover_item cg stock n s l c = Some i" "cart_wf c"
  obtains k where "line_key l = Some k" "item_key i = k" "0 < ci_quantity i" "cart_qty c k + ci_quantity i \<le> vl_quantity l"
    "\<And>c' n'. cart_wf c' \<Longrightarrow> cart_qty c' k = cart_qty c k + ci_quantity i \<Longrightarrow> recover_item cg stock n' s l c' = None"
proof -
  obtain pid p row v q where l: "vl_product_id l = Some pid" "\<not> vl_quantity l \<le> 0" "offered_product cg stock s pid = Inr (p, row)"
      "(case vl_variant_id l of None \<Rightarrow> Inr None
        | Some vid \<Rightarrow> rbind (offered_variant cg stock p row vid) (\<lambda>x. Inr (Some x))) = Inr v"
    and q: "wanted_units row (map_option snd v) (held_quantity c pid (vl_variant_id l)) (vl_quantity l) = Some q"
    and i: "i = snapshot_item n p v (vl_variant_id l) [] q"
    using assms(1) by (auto simp: recover_item_def split: option.splits sum.splits if_splits)
  let ?k = "key_of pid (vl_variant_id l)"
  have pid: "ct_id p = pid" using offered_product_Inr [OF l(3)] by simp
  note w = wanted_then_none [OF q [unfolded held_is_qty [OF assms(2)]]]
  show thesis
  proof (rule that [of ?k])
    fix c' n' assume c': "cart_wf c'" "cart_qty c' ?k = cart_qty c ?k + ci_quantity i"
    then show "recover_item cg stock n' s l c' = None"
      using w by (simp add: recover_item_def l held_is_qty i)
  qed (use w pid l in \<open>simp_all add: line_key_def i\<close>)
qed

lemma recover_line_effect:
  assumes "cart_wf c" "recover_line cg stock now s l c = Inr c'"
  shows "cart_wf c' \<and> (\<forall>k. cart_qty c k \<le> cart_qty c' k) \<and> (\<forall>n. recover_item cg stock n s l c' = None)
    \<and> (\<forall>k. cart_qty c' k = cart_qty c k \<or> line_key l = Some k \<and> cart_qty c' k \<le> vl_quantity l)"
proof (cases "recover_item cg stock now s l c")
  case None
  then have "c' = c" using assms(2) by (simp add: recover_line_def)
  then show ?thesis using recover_item_None [OF None assms(1) assms(1)] assms(1) by simp
next
  case (Some i)
  then obtain j where j: "mk_cart_item i = Inr j" "add_item now j c = Inr c'"
    using assms(2) by (auto simp: recover_line_def rbind_Inr_iff)
  note s = add_item_stays [OF assms(1) j]
  show ?thesis
  proof (rule recover_item_Some [OF Some assms(1)])
    fix k assume k: "line_key l = Some k" "item_key i = k" "0 < ci_quantity i" "cart_qty c k + ci_quantity i \<le> vl_quantity l"
      and n: "\<And>c' n'. cart_wf c' \<Longrightarrow> cart_qty c' k = cart_qty c k + ci_quantity i \<Longrightarrow> recover_item cg stock n' s l c' = None"
    show ?thesis using s k n [of c'] by (auto simp: stays_def)
  qed
qed

lemma recover_lines_effect:
  assumes "cart_wf c" "foldM (recover_line cg stock now s) ls c = Inr c'"
  shows "cart_wf c' \<and> (\<forall>k. cart_qty c k \<le> cart_qty c' k) \<and> (\<forall>l\<in>set ls. \<forall>n. recover_item cg stock n s l c' = None)
    \<and> (\<forall>k. cart_qty c' k = cart_qty c k \<or> (\<exists>l\<in>set ls. line_key l = Some k \<and> cart_qty c' k \<le> vl_quantity l))"
  using assms
proof (induction ls arbitrary: c)
  case (Cons l ls)
  then obtain c1 where c1: "recover_line cg stock now s l c = Inr c1" "foldM (recover_line cg stock now s) ls c1 = Inr c'"
    by (auto simp: rbind_Inr_iff)
  note a = recover_line_effect [OF Cons.prems(1) c1(1)]
  note b = Cons.IH [OF conjunct1 [OF a] c1(2)]
  have none: "recover_item cg stock n s l c' = None" for n
    by (rule recover_item_None [of cg stock n s l c1]) (simp_all add: a b)
  have "cart_qty c k \<le> cart_qty c' k" for k using a b order_trans by metis
  moreover have "cart_qty c' k = cart_qty c k \<or> (\<exists>l'\<in>set (l # ls). line_key l' = Some k \<and> cart_qty c' k \<le> vl_quantity l')" for k
  proof -
    have one: "cart_qty c1 k = cart_qty c k \<or> line_key l = Some k \<and> cart_qty c1 k \<le> vl_quantity l" using a by blast
    have "cart_qty c' k = cart_qty c1 k \<or> (\<exists>l'\<in>set ls. line_key l' = Some k \<and> cart_qty c' k \<le> vl_quantity l')" using b by blast
    then show ?thesis using one by auto
  qed
  ultimately show ?case using b none by simp
qed simp

lemma recover_settled: "\<forall>l\<in>set ls. recover_item cg stock now s l c = None \<Longrightarrow> foldM (recover_line cg stock now s) ls c = Inr c"
  by (induction ls) (simp_all add: recover_line_def)

text \<open>What a saved line still sells: all that was saved, or up to the inventory of a variant that is not sold beyond it.\<close>

definition still_to_sell :: "catalog \<Rightarrow> stock_db \<Rightarrow> uuid \<Rightarrow> saved_line \<Rightarrow> int" where
  "still_to_sell cg stock s l = (case vl_product_id l of
      None \<Rightarrow> 0
    | Some pid \<Rightarrow> (case catalog_find cg stock pid of
        None \<Rightarrow> 0
      | Some (p, row) \<Rightarrow>
          if ct_store_id p = s \<and> ct_status p \<in> {ProductActive, ProductUnlisted}
             \<and> (pd_continue_selling row \<or> 0 < pd_quantity row)
          then (case vl_variant_id l of
              None \<Rightarrow> vl_quantity l
            | Some vid \<Rightarrow> (case variant_find cg stock vid of
                None \<Rightarrow> 0
              | Some (_, x) \<Rightarrow>
                  if vr_product_id x \<noteq> pid then 0
                  else if pd_continue_selling row then vl_quantity l
                  else if vr_track_inventory x \<and> vr_inventory_quantity x \<le> 0 then 0
                  else min (vl_quantity l) (vr_inventory_quantity x)))
          else 0))"

lemma settled_is_topped_up:
  assumes "recover_item cg stock n s l c = None" "cart_wf c" "line_key l = Some k"
  shows "still_to_sell cg stock s l \<le> cart_qty c k"
proof -
  obtain pid where pid: "vl_product_id l = Some pid" "k = key_of pid (vl_variant_id l)"
    using assms(3) by (auto simp: line_key_def)
  have q: "0 \<le> cart_qty c k"
    using assms(2) unfolding cart_qty_def qty_in_def cart_wf_def by (intro sum_list_nonneg) (auto simp: item_ok_def)
  show ?thesis
  proof (cases "0 < vl_quantity l")
    case False
    then show ?thesis using q by (auto simp: still_to_sell_def split: option.splits)
  next
    case True
    then show ?thesis using assms(1) q pid
      by (auto simp: recover_item_def still_to_sell_def offered_product_def offered_variant_def purchasable_statuses_def
          product_in_stock_def product_variant_in_stock_def variant_in_stock_def wanted_units_def held_is_qty [OF assms(2)] Let_def
          rbind_Inr_iff split: option.splits if_splits prod.splits dest: catalog_find_id)
  qed
qed

text \<open>
  C18: recovering an abandoned cart only tops it up, and only once. Restoring the lines of an abandoned checkout that is not yet
  recovered leaves no line smaller, and no line larger than what was saved or what it was. Afterwards the cart holds of every
  saved line at least what was saved, as far as it still sells: nothing of a product or variant that is gone, of another store,
  not for sale or out of stock, and no more than the inventory of a variant unless its product is sold beyond its stock.
  Following the link again, at any time before the cart expires and while the row, the catalogue and the stock are the same, changes no
  line, whatever the prices have become.
\<close>

theorem recover_is_idempotent:
  assumes "carts_ok db" "List.find (\<lambda>a. ab_id a = i \<and> ab_store_id a = owner_store w) rows = Some a"
    and "ab_recovered_at a = None" "ab_line_items a \<noteq> []"
    and "cart_for e w db = Inr c" "sdk_recover_cart cg stock rows e w i db = Inr (c1, db1)"
    and "ce_now e2 < expires_after (ce_now e)"
  shows "(\<forall>k. cart_qty c k \<le> cart_qty c1 k)
    \<and> (\<forall>k. cart_qty c1 k = cart_qty c k
        \<or> (\<exists>l\<in>set (ab_line_items a). line_key l = Some k \<and> cart_qty c1 k \<le> vl_quantity l))
    \<and> (\<forall>l\<in>set (ab_line_items a). \<forall>k. line_key l = Some k
        \<longrightarrow> still_to_sell cg stock (owner_store w) l \<le> cart_qty c1 k)
    \<and> (\<exists>c2 db2. sdk_recover_cart cg stock rows e2 w i db1 = Inr (c2, db2) \<and> cart_items c2 = map stored_item (cart_items c1))"
proof -
  have lines: "recoverable_lines rows e' i (owner_store w) db' = Inr (ab_line_items a)" for e' db'
    using assms(2-4) by (simp add: recoverable_lines_def)
  have c: "cart_wf c" "owned_by w c" by (rule cart_opens [OF assms(1), of e w], simp add: assms(5))+
  obtain c0 where c0: "foldM (recover_line cg stock (ce_now e) (owner_store w)) (ab_line_items a) c = Inr c0"
    and s: "save_cart (ce_now e) c0 db = (c1, db1)"
    using assms(5,6) by (auto simp: sdk_recover_cart_def lines rbind_Inr_iff)
  note eff = recover_lines_effect [OF c(1) c0]
  have stay: "stays c c0" by (rule recover_lines_stay [OF c(1) c0])
  have same: "cart_qty c1 = cart_qty c0" "cart_items c1 = cart_items c0"
    using s by (auto simp: save_cart_def Let_def cart_qty_def)
  have wf1: "cart_wf c1" using eff same by (simp add: cart_wf_def)
  have "owned_by w c0" using stay c(2) by (auto simp: stays_def owned_by_def split: cart_owner.splits)
  with open_after_save [OF _ _ assms(7) s] have o2: "cart_for e2 w db1 = Inr (as_stored c1)" using eff by blast
  have "recover_item cg stock n (owner_store w) l (as_stored c1) = None" if "l \<in> set (ab_line_items a)" for l n
    by (rule recover_item_None [of cg stock n "owner_store w" l c0]) (use eff that wf1 same in simp_all)
  then have "foldM (recover_line cg stock (ce_now e2) (owner_store w)) (ab_line_items a) (as_stored c1) = Inr (as_stored c1)"
    by (intro recover_settled ballI)
  then have "sdk_recover_cart cg stock rows e2 w i db1 = Inr (save_cart (ce_now e2) (as_stored c1) db1)"
    by (simp add: sdk_recover_cart_def lines o2)
  then have "\<exists>c2 db2. sdk_recover_cart cg stock rows e2 w i db1 = Inr (c2, db2) \<and> cart_items c2 = map stored_item (cart_items c1)"
    by (simp add: save_cart_def Let_def as_stored_def)
  moreover have "still_to_sell cg stock (owner_store w) l \<le> cart_qty c0 k"
    if "l \<in> set (ab_line_items a)" "line_key l = Some k" for l k
    using settled_is_topped_up [OF _ _ that(2)] eff that(1) by blast
  ultimately show ?thesis using eff unfolding same(1) by blast
qed

section \<open>Logging in\<close>

lemma merge_keeps_owner:
  assumes "merge_cart now g old = Inr m"
  shows "cart_session_id m = cart_session_id old \<and> cart_store_id m = cart_store_id old \<and> cart_customer_id m = cart_customer_id old"
proof -
  obtain t where t: "foldM (add_item now) (cart_items g) old = Inr t"
    and m: "cart_session_id m = cart_session_id t" "cart_store_id m = cart_store_id t" "cart_customer_id m = cart_customer_id t"
    using assms by (auto simp: merge_cart_def rbind_Inr_iff split: if_splits)
  have "cart_session_id t = cart_session_id old \<and> cart_store_id t = cart_store_id old \<and> cart_customer_id t = cart_customer_id old"
    by (rule foldM_invariant [where I = "\<lambda>x. cart_session_id x = cart_session_id old \<and> cart_store_id x = cart_store_id old
        \<and> cart_customer_id x = cart_customer_id old", OF _ _ t]) (auto dest: add_item_owner)
  then show ?thesis using m by simp
qed

text \<open>
  C19: logging in brings the guest's lines along. The customer's cart afterwards holds, line by line, what it held and what the
  guest's cart held. Where the customer had a cart of another session, the guest's session is closed; where the customer
  had none, the session stays open on the customer's cart, and logging in once more from it doubles every line.
\<close>

theorem login_merges_carts:
  assumes "carts_ok db" "cart_for e (Visitor k s) db = Inr guest" "cart_for e (Buyer u s) db = Inr mine"
    and "get_by_session_id (ce_cart_id e) (ce_now e) (uuid_str k) s db \<noteq> Inr None"
    and "ce_now e \<le> ce_now e2" "ce_now e2 < expires_after (ce_now e)"
  shows "\<exists>c db'. transfer_to_customer (ce_cart_id e) (ce_now e) (uuid_str k) u s db = Inr (Some c, db')
    \<and> cart_for e2 (Buyer u s) db' = Inr (as_stored c)
    \<and> (\<forall>x. cart_qty c x = cart_qty mine x + cart_qty guest x)
    \<and> (get_by_customer_id (ce_cart_id e) (ce_now e) u s db = Inr None \<longrightarrow>
        cart_for e2 (Visitor k s) db' = Inr (as_stored c)
        \<and> (\<exists>c2 db2. transfer_to_customer (ce_cart_id e2) (ce_now e2) (uuid_str k) u s db' = Inr (Some c2, db2)
            \<and> (\<forall>x. cart_qty c2 x = 2 * cart_qty c x)))
    \<and> (get_by_customer_id (ce_cart_id e) (ce_now e) u s db \<noteq> Inr None \<and> cart_session_id mine \<noteq> uuid_str k \<longrightarrow>
        get_by_session_id (ce_cart_id e2) (ce_now e2) (uuid_str k) s db' = Inr None)"
proof -
  have g: "get_by_session_id (ce_cart_id e) (ce_now e) (uuid_str k) s db = Inr (Some guest)" "cart_wf guest"
      "cart_store_id guest = s" "cart_session_id guest = uuid_str k"
    by (rule get_by_session_ok [OF assms(1), of "ce_cart_id e" "ce_now e" "uuid_str k" s],
      use assms(2,4) in \<open>auto simp: cart_for_def get_or_create_guest_cart_def\<close>)+
  let ?own = "\<lambda>c. c\<lparr>cart_customer_id := Some u\<rparr>"
  have wf_own: "cart_wf (?own c) = cart_wf c" "cart_qty (?own c) = cart_qty c" for c by (simp_all add: cart_wf_def cart_qty_def)
  show ?thesis
  proof (rule get_by_customer_ok [OF assms(1), of "ce_cart_id e" "ce_now e" u s])
    assume none: "get_by_customer_id (ce_cart_id e) (ce_now e) u s db = Inr None"
    obtain c db' where s: "save_cart (ce_now e) (?own guest) db = (c, db')" by (cases "save_cart (ce_now e) (?own guest) db")
    then have t: "transfer_to_customer (ce_cart_id e) (ce_now e) (uuid_str k) u s db = Inr (Some c, db')"
      by (simp add: transfer_to_customer_def g(1) none)
    have q: "cart_qty c = cart_qty guest" and wfc: "cart_wf c"
      using s g(2) by (auto simp: save_cart_def Let_def cart_qty_def cart_wf_def)
    have mine: "cart_qty mine x = 0" for x
      using assms(3) none by (auto simp: cart_for_def get_or_create_cart_def new_cart_def cart_qty_def)
    have own: "owned_by (Buyer u s) (?own guest)" "owned_by (Visitor k s) (?own guest)" using g by (simp_all add: owned_by_def)
    have opens: "cart_for e2 (Buyer u s) db' = Inr (as_stored c)" "cart_for e2 (Visitor k s) db' = Inr (as_stored c)"
      by (rule open_after_save [OF _ own(1) assms(6) s], simp add: wf_own g(2))
        (rule open_after_save [OF _ own(2) assms(6) s], simp add: wf_own g(2))
    have gets: "get_by_session_id f (ce_now e2) (uuid_str k) s db' = Inr (Some (as_stored c))"
        "get_by_customer_id f (ce_now e2) u s db' = Inr (Some (as_stored c))" for f
      using s assms(6) g wfc
      by (auto simp: save_cart_def Let_def get_by_session_id_def get_by_customer_id_def read_cart_def redis_get_def
          cart_reads_back cart_wf_def)
    have wfs: "cart_wf (as_stored c)" using wfc by simp
    obtain m where m: "merge_cart (ce_now e2) (as_stored c) (as_stored c) = Inr m"
        "\<forall>x. cart_qty m x = cart_qty (as_stored c) x + cart_qty (as_stored c) x"
      using merge_cart_adds [OF wfs, of "as_stored c" "ce_now e2"] wfs by (auto simp: cart_wf_def)
    have "\<exists>c2 db2. transfer_to_customer (ce_cart_id e2) (ce_now e2) (uuid_str k) u s db' = Inr (Some c2, db2)
            \<and> (\<forall>x. cart_qty c2 x = 2 * cart_qty c x)"
    proof -
      obtain c2 db2 where s2: "save_cart (ce_now e2) (?own m) (db'(session_key (uuid_str k) s := None)) = (c2, db2)"
        by (cases "save_cart (ce_now e2) (?own m) (db'(session_key (uuid_str k) s := None))")
      then have "cart_qty c2 = cart_qty m" by (auto simp: save_cart_def Let_def cart_qty_def)
      then show ?thesis using m s2 by (simp add: transfer_to_customer_def gets)
    qed
    then show ?thesis using t opens q mine none by (intro exI [of _ c] exI [of _ db']) simp
  next
    fix old assume old: "get_by_customer_id (ce_cart_id e) (ce_now e) u s db = Inr (Some old)" "cart_wf old"
        "cart_customer_id old = Some u" "cart_store_id old = s"
    have mine: "mine = old" using assms(3) old(1) by (simp add: cart_for_def get_or_create_cart_def)
    obtain m where m: "merge_cart (ce_now e) guest old = Inr m" "cart_wf m"
        "\<forall>x. cart_qty m x = cart_qty old x + cart_qty guest x"
      using merge_cart_adds [OF old(2), of guest "ce_now e"] g(2) by (auto simp: cart_wf_def)
    let ?db = "db(session_key (uuid_str k) s := None)"
    obtain c db' where s: "save_cart (ce_now e) (?own m) ?db = (c, db')" by (cases "save_cart (ce_now e) (?own m) ?db")
    then have t: "transfer_to_customer (ce_cart_id e) (ce_now e) (uuid_str k) u s db = Inr (Some c, db')"
      by (simp add: transfer_to_customer_def g(1) old(1) m(1))
    have q: "cart_qty c = cart_qty m" using s by (auto simp: save_cart_def Let_def cart_qty_def)
    have "owned_by (Buyer u s) (?own m)" using merge_keeps_owner [OF m(1)] old by (simp add: owned_by_def)
    with open_after_save [OF _ this assms(6) s] have opens: "cart_for e2 (Buyer u s) db' = Inr (as_stored c)"
      by (simp add: wf_own m(2))
    have "get_by_session_id (ce_cart_id e2) (ce_now e2) (uuid_str k) s db' = Inr None" if "cart_session_id old \<noteq> uuid_str k"
      using s that merge_keeps_owner [OF m(1)] old(4)
      by (auto simp: save_cart_def Let_def get_by_session_id_def read_cart_def redis_get_def)
    then show ?thesis using t opens q m(3) old(1) by (intro exI [of _ c] exI [of _ db']) (simp add: mine)
  qed
qed

section \<open>What a shopper is shown\<close>

lemma alist_update_set: "set (AList.update k v al) \<subseteq> insert (k, v) (set al)"
  by (induction al) auto

lemma trim_nonneg: "\<forall>x\<in>set al. 0 \<le> snd x \<Longrightarrow> \<forall>x\<in>set (trim_overflow is n al). 0 \<le> snd x"
proof (induction "is" arbitrary: n al)
  case (Cons i "is")
  have "\<forall>x\<in>set (AList.update i (share - min share n) al). 0 \<le> snd x" for share :: int
    using Cons.prems alist_update_set [of i "share - min share n" al] by fastforce
  from Cons.IH [of "AList.update i ((case map_of al i of None \<Rightarrow> 0 | Some m \<Rightarrow> m) - min (case map_of al i of None \<Rightarrow> 0 | Some m \<Rightarrow> m) n) al", OF this, of "n - min (case map_of al i of None \<Rightarrow> 0 | Some m \<Rightarrow> m) n"] Cons.prems
  show ?case by (simp add: Let_def)
qed simp

lemma breakdown_nonneg:
  assumes "calculate_total ps ctx tm = Inr t" "0 \<le> dc_subtotal_cents ctx" "distinct (map pr_id ps)"
  shows "\<forall>x\<in>set (to_by_promotion t). 0 \<le> snd x"
proof (rule calculate_total_Inr [OF assms(1)])
  fix codes autos kept losers st and co :: code_outcome and rej :: "rejection list"
  assume co: "code_stage tm ctx codes = Inr co" and sp: "split_promotions ps = (codes, autos, rej)"
    and st: "foldM (auto_step tm ctx (co_discount co)) kept (auto_start co (rej @ co_rejected co @ losers)) = Inr st"
    and t: "t = finish_total ctx (co_discount co) st"
  have "distinct (map pr_id codes)" using split_promotions_spec [OF sp] assms(3) by (simp add: distinct_map_filter)
  then have cs: "0 \<le> co_discount co" "sum_list (map snd (co_by_promotion co)) = co_discount co"
      "length (map fst (co_by_promotion co)) \<le> 1" using code_stage_spec [OF co assms(2)] by auto
  then have "\<forall>x\<in>set (co_by_promotion co). 0 \<le> snd x" by (cases "co_by_promotion co") auto
  moreover have "\<forall>x\<in>set (au_by_promotion s'). 0 \<le> snd x"
    if "auto_step tm ctx cd p s = Inr s'" "\<forall>x\<in>set (au_by_promotion s). 0 \<le> snd x" for cd p s s'
    using that alist_update_set [of "pr_id p" _ "au_by_promotion s"]
    by (fastforce simp: auto_step_def Let_def rbind_Inr_iff split: if_splits)
  ultimately have "\<forall>x\<in>set (au_by_promotion st). 0 \<le> snd x"
    using st by (intro foldM_invariant [where I = "\<lambda>s. \<forall>x\<in>set (au_by_promotion s). 0 \<le> snd x", OF _ _ st])
      (auto simp: auto_start_def)
  then show ?thesis using trim_nonneg by (auto simp: t finish_total_def Let_def)
qed

lemma named_amounts_nonneg:
  assumes "\<forall>x\<in>set (to_by_promotion t). 0 \<le> snd x"
  shows "\<forall>a\<in>set (named_snapshot ps t). 0 \<le> av_amount a"
proof -
  have "0 \<le> amount_in (to_by_promotion t) i" for i
    using assms by (auto simp: amount_in_def dest!: map_of_SomeD split: option.splits)
  then show ?thesis by (auto simp: named_snapshot_def List.map_filter_def split: option.splits if_splits)
qed

lemma within_budget_sum:
  "\<forall>a\<in>set as. 0 \<le> av_amount a \<Longrightarrow> 0 \<le> n \<Longrightarrow> n \<le> sum_list (map av_amount as)
    \<Longrightarrow> sum_list (map av_amount (within_budget n as)) = n"
proof (induction as arbitrary: n)
  case (Cons a as)
  have "0 \<le> sum_list (map av_amount as)" using Cons.prems(1) by (intro sum_list_nonneg) auto
  then have "n - min (av_amount a) n \<le> sum_list (map av_amount as)" using Cons.prems(1,3) by auto
  with Cons.IH [of "n - min (av_amount a) n"] Cons.prems(1) show ?case by (simp add: Let_def)
qed simp

lemma priced_total: "sum_list (map total_price (priced_items vs)) = sum_list (map cw_total_price (map (line_view now) vs))"
  by (induction vs) (auto simp: priced_items_def line_view_def total_price_def)

lemma visible_sub: "(i, p, row) \<in> set (visible_lines cg stock items) \<Longrightarrow> i \<in> set items
    \<and> catalog_find cg stock (ci_product_id i) = Some (p, row) \<and> ct_status p \<in> set purchasable_statuses"
  by (induction items) (auto simp: visible_lines_def List.map_filter_simps split: option.splits if_splits)

lemma visible_keys:
  "map cw_id (map (line_view now) (visible_lines cg stock items)) = map item_key (filter (\<lambda>i.
     case catalog_find cg stock (ci_product_id i) of None \<Rightarrow> False | Some (p, _) \<Rightarrow> ct_status p \<in> set purchasable_statuses) items)"
  by (induction items) (auto simp: visible_lines_def List.map_filter_simps line_view_def split: option.splits)

text \<open>A coupon whose fields keep their bounds and whose configuration, free JSON, has no negative percentage.\<close>

definition percentage_ok :: "json \<Rightarrow> bool" where
  "percentage_ok j \<longleftrightarrow> (case json_decimal j of Inl _ \<Rightarrow> True | Inr x \<Rightarrow> 0 \<le> x)"

definition saving_coupon :: "coupon \<Rightarrow> bool" where
  "saving_coupon c \<longleftrightarrow> coupon_ok c \<and> (case cp_config c of None \<Rightarrow> True | Some cfg \<Rightarrow>
     (case map_of cfg ''get_discount_percentage'' of None \<Rightarrow> True | Some j \<Rightarrow> percentage_ok j)
     \<and> (case map_of cfg ''tiers'' of
          Some (JList ts) \<Rightarrow> list_all (\<lambda>t. case tier_pair t of None \<Rightarrow> True | Some (_, p) \<Rightarrow> percentage_ok p) ts
        | _ \<Rightarrow> True))"

lemma trunc_nonneg: "0 \<le> x \<Longrightarrow> 0 \<le> trunc_rat x"
  by (simp add: trunc_rat_def)

lemma tiered_nonneg:
  assumes "tiered_discount (cp_config c) amt = Inr d" "0 \<le> amt" "saving_coupon c"
  shows "0 \<le> d"
proof (cases "d = 0")
  case False
  then obtain cfg ts b q where cfg: "cp_config c = Some cfg" "map_of cfg ''tiers'' = Some (JList ts)"
    and f: "foldM (tier_step (trunc_rat (amt * 100))) ts (-1, 0) = Inr (b, q)" and d: "d = amt * q / 100"
    using assms(1) by (auto simp: tiered_discount_def rbind_Inr_iff split: option.splits json.splits)
  have ok: "percentage_ok p" if "t \<in> set ts" "tier_pair t = Some (n, p)" for t n p
    using that assms(3) by (auto simp: saving_coupon_def cfg list_all_iff)
  have "0 \<le> q"
  proof (cases "b = -1")
    case True
    then show ?thesis using tier_fold [OF f] by simp
  next
    case False
    then obtain t p where t: "t \<in> set ts" "tier_pair t = Some (b, p)" "json_decimal p = Inr q"
      using tier_fold [OF f] by (auto simp: tier_reached_def)
    show ?thesis using ok [OF t(1,2)] t(3) by (simp add: percentage_ok_def)
  qed
  then show ?thesis unfolding d using assms(2) by simp
qed simp

lemma bogo_nonneg:
  assumes "bogo_discount (cp_config c) ls = Inr d" "\<forall>l\<in>set ls. 0 \<le> bl_unit_price l" "saving_coupon c"
  shows "0 \<le> d"
proof (cases "d = 0")
  case False
  then obtain cfg j pct n ids where cfg: "cp_config c = Some cfg" "map_of cfg ''get_discount_percentage'' = Some j"
    "json_decimal j = Inr pct" and d: "sum_list (py_prefix n (sort (bogo_units ids ls))) * pct = d * 100"
    using assms(1) by (auto simp: bogo_discount_def rbind_Inr_iff Let_def split: if_splits)
  have "0 \<le> pct" using assms(3) cfg by (simp add: saving_coupon_def percentage_ok_def)
  moreover have "0 \<le> x" if "x \<in> set (py_prefix n (sort (bogo_units ids ls)))" for x
    using that assms(2) by (auto simp: py_prefix_def bogo_units_def dest!: in_set_takeD split: if_splits)
  then have "0 \<le> sum_list (py_prefix n (sort (bogo_units ids ls)))" by (rule sum_list_nonneg)
  ultimately have "0 \<le> d * 100" unfolding d [symmetric] by simp
  then show ?thesis by simp
qed simp

lemma coupon_saves:
  assumes "coupon_calculate_discount c amt (Some ls) = Inr d" "0 \<le> amt" "saving_coupon c" "\<forall>l\<in>set ls. 0 \<le> bl_unit_price l"
  shows "0 \<le> d \<and> d \<le> amt"
proof -
  have ok: "coupon_ok c" using assms(3) by (simp add: saving_coupon_def)
  then have m: "0 \<le> m" if "cp_max_discount_amount c = Some m" for m using that by (simp add: coupon_ok_def opt_nonneg_def)
  note b = coupon_discount_bounds [OF ok assms(2,1)]
  have "0 \<le> d" if ty: "cp_coupon_type c = CtTiered"
  proof -
    obtain x where x: "tiered_discount (cp_config c) amt = Inr x"
        "d = min (case cp_max_discount_amount c of None \<Rightarrow> x | Some m \<Rightarrow> min x m) amt"
      using assms(1) ty by (auto simp: coupon_calculate_discount_def rbind_Inr_iff Let_def)
    show ?thesis using tiered_nonneg [OF x(1) assms(2,3)] x(2) m assms(2) by (simp split: option.split)
  qed
  moreover have "0 \<le> d" if ty: "cp_coupon_type c = CtBuyXGetY"
  proof -
    obtain x where x: "bogo_discount (cp_config c) ls = Inr x"
        "d = min (case cp_max_discount_amount c of None \<Rightarrow> x | Some m \<Rightarrow> min x m) amt"
      using assms(1) ty by (auto simp: coupon_calculate_discount_def rbind_Inr_iff Let_def)
    show ?thesis using bogo_nonneg [OF x(1) assms(4,3)] x(2) m assms(2) by (simp split: option.split)
  qed
  ultimately show ?thesis using b by (cases "cp_coupon_type c") simp_all
qed

lemma plain_coupon_bounds:
  assumes "plain_coupon_cents os now store code items n = Inr m" "0 \<le> n" "\<forall>i\<in>set items. 0 \<le> ci_unit_price i"
    and "\<forall>cp. coupon_get_by_code store code (os_coupons os) = Some cp \<longrightarrow> saving_coupon cp"
  shows "0 \<le> m \<and> m \<le> n"
proof (cases "coupon_get_by_code store code (os_coupons os)")
  case None
  then show ?thesis using assms(1,2) by (simp add: plain_coupon_cents_def)
next
  case (Some c)
  then have ok: "saving_coupon c" using assms(4) by blast
  have amt: "0 \<le> (of_int n / 100 :: rat)" using assms(2) by simp
  let ?ls = "map (\<lambda>i. \<lparr>bl_product_id = ci_product_id i, bl_unit_price = of_int (ci_unit_price i) / 100, bl_quantity = ci_quantity i\<rparr>) items"
  have ls: "\<forall>l\<in>set ?ls. 0 \<le> bl_unit_price l" using assms(3) by simp
  have "0 \<le> trunc_rat (d * 100) \<and> trunc_rat (d * 100) \<le> n" if "coupon_calculate_discount c (of_int n / 100) (Some ?ls) = Inr d" for d
  proof -
    note b = coupon_saves [OF that amt ok ls]
    then have "0 \<le> d * 100" "d * 100 \<le> of_int n" by simp_all
    then show ?thesis using trunc_nonneg assms(2) by (auto simp: trunc_rat_def floor_le_iff)
  qed
  then show ?thesis using assms(1,2) by (auto simp: plain_coupon_cents_def Some rbind_Inr_iff split: if_splits)
qed

text \<open>Without a code no code discount: the promotions behind codes do not take part.\<close>

lemma no_codes_no_discount:
  assumes "calculate_cart_discounts db coupons has_events store now items customer [] ctx = Inr c"
    and "distinct (map pr_id (db_promotions db))"
    and "0 \<le> sum_list (map (\<lambda>ci. ci_unit_price ci * ci_quantity ci) items)"
  shows "cd_code_discount_cents c = 0"
proof (rule calculate_cart_discounts_Inr [OF assms(1)])
  fix t and eligible :: "promotion list"
  assume e: "eligible = filter (considered db coupons has_events [] (ctx\<lparr>ec_dismissed := {}\<rparr>) now)
       (list_active_for_storefront db store now False)"
    and t: "calculate_total eligible (cart_context items customer)
       (Some (\<lambda>i. if i \<in> set (map pr_id eligible) then Some (targets_for db i) else None)) = Inr t"
    and c: "cd_code_discount_cents c = to_code_discount_cents t"
  have dist: "distinct (map pr_id eligible)" unfolding e using storefront_distinct [OF assms(2)] by (rule distinct_map_filter)
  have s: "0 \<le> dc_subtotal_cents (cart_context items customer)" using assms(3) by (simp add: dc_subtotal_cart_context)
  have none: "filter (\<lambda>p. pr_discount_rule p \<noteq> None \<and> pr_surface p = SfDiscountCode) eligible = []"
    unfolding e by (auto simp: filter_empty_conv considered_def takes_part_def split: option.splits)
  show ?thesis
  proof (rule calculate_total_stages [OF t s dist])
    fix codes and co :: code_outcome
    assume "codes = filter (\<lambda>p. pr_discount_rule p \<noteq> None \<and> pr_surface p = SfDiscountCode) eligible"
      and co: "code_stage (Some (\<lambda>i. if i \<in> set (map pr_id eligible) then Some (targets_for db i) else None))
        (cart_context items customer) codes = Inr co" and z: "to_code_discount_cents t = co_discount co"
    then have "codes = []" using none by simp
    then have "no_code = co" using co by (simp add: code_stage_def)
    then show ?thesis using c z by (auto simp: no_code_def)
  qed
qed

lemma cart_prices_bounds:
  assumes "compute_cart_discounts os now tags c visible = Inr (a, d, xs)"
    and "distinct (map pr_id (db_promotions (os_promotions os)))" "\<forall>code cp. cart_discount_code c = Some code
      \<and> coupon_get_by_code (cart_store_id c) code (os_coupons os) = Some cp \<longrightarrow> saving_coupon cp"
    and ok: "\<forall>(i, p, row)\<in>set visible. item_ok i"
  shows "0 \<le> a \<and> a \<le> d \<and> d \<le> sum_list (map total_price (priced_items visible)) \<and> sum_list (map av_amount xs) = a
    \<and> (\<not> truthy_str (cart_discount_code c) \<longrightarrow> d = a)"
proof (cases "visible = []")
  case True
  then show ?thesis using assms(1) by (simp add: compute_cart_discounts_def priced_items_def)
next
  case False
  let ?items = "priced_items visible" and ?n = "sum_list (map total_price (priced_items visible))"
  let ?codes = "if truthy_str (cart_discount_code c) then [the (cart_discount_code c)] else []"
  have "0 \<le> total_price i" if "i \<in> set ?items" for i
    using that ok by (force simp: priced_items_def total_price_def item_ok_def)
  then have n: "0 \<le> ?n" by (intro sum_list_nonneg) auto
  have n': "?n = sum_list (map (\<lambda>ci. ci_unit_price ci * ci_quantity ci) ?items)" by (simp add: total_price_def [abs_def])
  obtain out code where out: "calculate_cart_discounts (os_promotions os) (os_coupons os) True (cart_store_id c) now ?items
        (cart_customer_id c) ?codes
        (cart_visitor (cart_customer_id c) tags ?items (remdups (List.map_filter ci_category_id ?items))) = Inr out"
    and code: "(if ?codes \<noteq> [] \<and> cd_code_discount_cents out = 0
        then plain_coupon_cents os now (cart_store_id c) (the (cart_discount_code c)) ?items ?n
        else Inr (cd_code_discount_cents out)) = Inr code"
    and r: "a = min (cd_automatic_discount_cents out) (?n - code)" "d = code + a" "xs = within_budget a (cd_applied_promotions out)"
    using assms(1) False by (auto simp: compute_cart_discounts_def rbind_Inr_iff Let_def split del: if_split)
  note bounds = cart_discounts_bounds [OF out assms(2) n [unfolded n'], folded n']
  have c0: "0 \<le> code \<and> code \<le> ?n"
  proof (cases "?codes \<noteq> [] \<and> cd_code_discount_cents out = 0")
    case True
    then have pinned: "cart_discount_code c = Some (the (cart_discount_code c))"
      by (cases "cart_discount_code c") (simp_all add: truthy_str_def split: if_splits)
    have "\<forall>i\<in>set ?items. 0 \<le> ci_unit_price i" using ok by (force simp: priced_items_def item_ok_def)
    with True show ?thesis using code plain_coupon_bounds [OF _ n] assms(3) pinned by simp
  next
    case False
    from code [unfolded if_not_P [OF False]] show ?thesis using bounds by simp
  qed
  have a0: "0 \<le> a" using bounds c0 r(1) by simp
  have sums: "(\<forall>x\<in>set (cd_applied_promotions out). 0 \<le> av_amount x)
      \<and> sum_list (map av_amount (cd_applied_promotions out)) = cd_automatic_discount_cents out"
  proof (rule calculate_cart_discounts_Inr [OF out])
    fix t and eligible :: "promotion list"
    assume e: "eligible = filter (considered (os_promotions os) (os_coupons os) True ?codes
          ((cart_visitor (cart_customer_id c) tags ?items (remdups (List.map_filter ci_category_id ?items)))\<lparr>ec_dismissed := {}\<rparr>) now)
         (list_active_for_storefront (os_promotions os) (cart_store_id c) now False)"
      and t: "calculate_total eligible (cart_context ?items (cart_customer_id c))
         (Some (\<lambda>i. if i \<in> set (map pr_id eligible) then Some (targets_for (os_promotions os) i) else None)) = Inr t"
      and o: "cd_applied_promotions out = named_snapshot eligible t" "cd_automatic_discount_cents out = to_automatic_discount_cents t"
    have dist: "distinct (map pr_id eligible)" unfolding e using storefront_distinct [OF assms(2)] by (rule distinct_map_filter)
    have s: "0 \<le> dc_subtotal_cents (cart_context ?items (cart_customer_id c))" using n by (simp add: dc_subtotal_cart_context n')
    show ?thesis unfolding o using named_amounts_nonneg [OF breakdown_nonneg [OF t s dist]] named_snapshot_sums [OF t s dist] by blast
  qed
  then have "sum_list (map av_amount xs) = a"
    unfolding r(3) by (intro within_budget_sum) (use a0 r(1) in simp_all)
  moreover have "d = a" if "\<not> truthy_str (cart_discount_code c)"
  proof -
    have "cd_code_discount_cents out = code" using code that by simp
    moreover have none: "?codes = []" using that by simp
    have "cd_code_discount_cents out = 0" by (rule no_codes_no_discount [OF out [unfolded none] assms(2) n [unfolded n']])
    ultimately show ?thesis using r(2) by simp
  qed
  ultimately show ?thesis using a0 c0 r by simp
qed

text \<open>
  C20: a shopper is shown what the cart costs. The cart as shown has exactly the lines whose products can be bought, in the order of
  the cart, at the prices they were added at and with a warning exactly where the price has changed; its subtotal is the sum of
  these lines and its total the subtotal less the discount. The promotions named add up to the automatic part of the discount,
  which lies within the discount, as the discount lies within the subtotal, and without a code there is no other
  part. The coupon of a code on the cart, of whatever type, is taken to keep the bounds its fields declare and to have no
  negative percentage in its configuration, which the code does not check.
\<close>

theorem cart_shown_adds_up:
  assumes "cart_wf c" "distinct (map pr_id (db_promotions (os_promotions os)))"
    and "\<forall>code cp. cart_discount_code c = Some code
      \<and> coupon_get_by_code (cart_store_id c) code (os_coupons os) = Some cp \<longrightarrow> saving_coupon cp"
    and "r = build_cart_response cg stock os now tags c"
  shows "cx_subtotal r = sum_list (map (\<lambda>l. cw_unit_price l * cw_quantity l) (cx_items r))
    \<and> cx_total r = cx_subtotal r - cx_discount_amount r
    \<and> 0 \<le> cx_automatic_discount_cents r \<and> cx_automatic_discount_cents r \<le> cx_discount_amount r
    \<and> cx_discount_amount r \<le> cx_subtotal r
    \<and> sum_list (map av_amount (cx_applied_promotions r)) = cx_automatic_discount_cents r
    \<and> (\<not> truthy_str (cart_discount_code c) \<longrightarrow> cx_discount_amount r = cx_automatic_discount_cents r)
    \<and> map cw_id (cx_items r) = map item_key (filter (\<lambda>i. case catalog_find cg stock (ci_product_id i) of
          None \<Rightarrow> False | Some (p, _) \<Rightarrow> ct_status p \<in> set purchasable_statuses) (cart_items c))
    \<and> (\<forall>l\<in>set (cx_items r). \<exists>i\<in>set (cart_items c). \<exists>p row. cw_id l = item_key i \<and> cw_quantity l = ci_quantity i
        \<and> cw_unit_price l = ci_unit_price i \<and> catalog_find cg stock (ci_product_id i) = Some (p, row)
        \<and> ct_status p \<in> set purchasable_statuses
        \<and> (cw_price_changed l \<longleftrightarrow> money_cents (effective_price now p) \<noteq> ci_unit_price i))"
proof -
  let ?vs = "visible_lines cg stock (cart_items c)"
  let ?n = "sum_list (map cw_total_price (map (line_view now) ?vs))"
  have totals: "cx_items r = map (line_view now) ?vs" "cx_subtotal r = ?n"
    by (simp_all add: assms(4) build_cart_response_def Let_def split: prod.splits)
  have ok: "\<forall>(i, p, row)\<in>set ?vs. item_ok i" using visible_sub assms(1) by (fastforce simp: cart_wf_def)
  have "0 \<le> cw_total_price l" if "l \<in> set (map (line_view now) ?vs)" for l
    using that ok by (fastforce simp: line_view_def item_ok_def)
  then have n: "0 \<le> ?n" by (intro sum_list_nonneg) auto
  have lines: "\<exists>i\<in>set (cart_items c). \<exists>p row. cw_id l = item_key i \<and> cw_quantity l = ci_quantity i
        \<and> cw_unit_price l = ci_unit_price i \<and> catalog_find cg stock (ci_product_id i) = Some (p, row)
        \<and> ct_status p \<in> set purchasable_statuses
        \<and> (cw_price_changed l \<longleftrightarrow> money_cents (effective_price now p) \<noteq> ci_unit_price i)" if "l \<in> set (cx_items r)" for l
  proof -
    obtain i p row where v: "(i, p, row) \<in> set ?vs" "l = line_view now (i, p, row)" using \<open>l \<in> _\<close> totals(1) by auto
    show ?thesis using visible_sub [OF v(1)] v(2) by (intro bexI [of _ i] exI [of _ p] exI [of _ row]) (simp_all add: line_view_def)
  qed
  have all: "map cw_id (cx_items r) = map item_key (filter (\<lambda>i. case catalog_find cg stock (ci_product_id i) of
          None \<Rightarrow> False | Some (p, _) \<Rightarrow> ct_status p \<in> set purchasable_statuses) (cart_items c))"
    unfolding totals(1) by (rule visible_keys)
  have sub: "?n = sum_list (map (\<lambda>l. cw_unit_price l * cw_quantity l) (map (line_view now) ?vs))"
    by (simp add: line_view_def case_prod_beta comp_def)
  show ?thesis
  proof (cases "compute_cart_discounts os now tags c ?vs")
    case (Inl x)
    then show ?thesis using n totals lines sub all by (simp add: assms(4) build_cart_response_def Let_def)
  next
    case (Inr adx)
    obtain a d xs where x: "adx = (a, d, xs)" by (cases adx)
    note b = cart_prices_bounds [OF Inr [unfolded x] assms(2,3) ok, unfolded priced_total [of _ now]]
    then have "min d ?n = d" "min a d = a" by simp_all
    then have "cx_automatic_discount_cents r = a" "cx_discount_amount r = d" "cx_applied_promotions r = xs"
        "cx_total r = max 0 (?n - d)"
      by (simp_all add: assms(4) build_cart_response_def Let_def Inr x)
    then show ?thesis using b totals lines sub all by simp
  qed
qed

section \<open>After checkout\<close>

lemma expired_stays: "redis_get now k db = None \<Longrightarrow> now \<le> t \<Longrightarrow> redis_get t k db = None"
  by (auto simp: redis_get_def split: option.splits if_splits)

lemma read_none: "redis_get now k db = None \<Longrightarrow> read_cart f now k db = Inr None"
  by (simp add: read_cart_def)

lemma read_none_iff: "read_cart f now k db = Inr None \<longleftrightarrow> redis_get now k db = None"
  by (auto simp: read_cart_def rbind_Inr_iff split: option.splits)

lemma redis_get_gone: "redis_get t k db = None \<Longrightarrow> redis_get t k (db(k' := None)) = None" "redis_get t k (db(k := None)) = None"
  by (auto simp: redis_get_def)

text \<open>
  C21: a checkout empties the carts it was made from. It always succeeds in doing so, and afterwards neither the
  customer nor the guest session of the browser finds a cart or a note, while the note an order takes over is the one of
  the customer's cart, else of the session's.
\<close>

theorem checkout_empties_carts:
  assumes "carts_ok db" "session \<noteq> []" "now \<le> t"
  shows "\<exists>db'. clear_after_checkout fresh now u (Some session) s db = Inr db'
    \<and> get_by_customer_id fresh t u s db' = Inr None \<and> get_by_session_id fresh t session s db' = Inr None
    \<and> read_cart_note fresh t u (Some session) s db' = None
    \<and> read_cart_note fresh now u (Some session) s db =
        (case get_by_customer_id fresh now u s db of
           Inr (Some c) \<Rightarrow> cart_notes c
         | _ \<Rightarrow> (case get_by_session_id fresh now session s db of Inr (Some c) \<Rightarrow> cart_notes c | _ \<Rightarrow> None))"
proof -
  obtain b db1 where d: "delete_by_customer_id fresh now u s db = Inr (b, db1)"
    by (rule get_by_customer_ok [OF assms(1), of fresh now u s]) (auto simp: delete_by_customer_id_def)
  have ok1: "carts_ok db1" using delete_customer_good [OF assms(1) d] by (simp add: good_move_def)
  have gone1: "redis_get now (customer_key u s) db1 = None"
    using d read_none_iff [of fresh now "customer_key u s" db]
    by (rule_tac get_by_customer_ok [OF assms(1), of fresh now u s])
      (auto simp: delete_by_customer_id_def get_by_customer_id_def redis_get_gone)
  obtain b2 db2 where d2: "delete_cart fresh now session s db1 = Inr (b2, db2)"
    by (rule get_by_session_ok [OF ok1, of fresh now session s]) (auto simp: delete_cart_def Let_def)
  have gone2: "redis_get now (customer_key u s) db2 = None \<and> redis_get now (session_key session s) db2 = None"
    using d2 gone1 read_none_iff [of fresh now "session_key session s" db1]
    by (rule_tac get_by_session_ok [OF ok1, of fresh now session s])
      (auto simp: delete_cart_def get_by_session_id_def Let_def redis_get_gone redis_get_def split: option.splits if_splits)
  have "clear_after_checkout fresh now u (Some session) s db = Inr db2"
    using assms(2) by (simp add: clear_after_checkout_def d d2)
  moreover have "get_by_customer_id fresh t u s db2 = Inr None" "get_by_session_id fresh t session s db2 = Inr None"
    using gone2 expired_stays [OF _ assms(3)] by (simp_all add: get_by_customer_id_def get_by_session_id_def read_none)
  moreover have "read_cart_note fresh now u (Some session) s db =
        (case get_by_customer_id fresh now u s db of
           Inr (Some c) \<Rightarrow> cart_notes c
         | _ \<Rightarrow> (case get_by_session_id fresh now session s db of Inr (Some c) \<Rightarrow> cart_notes c | _ \<Rightarrow> None))"
    by (rule get_by_customer_ok [OF assms(1), of fresh now u s]) (use assms(2) in \<open>auto simp: read_cart_note_def\<close>)
  ultimately show ?thesis using assms(2) by (intro exI [of _ db2] conjI) (simp_all add: read_cart_note_def)
qed

section \<open>Examples\<close>

definition demo_shelf :: catalog where
  "demo_shelf = \<lparr>cg_products = [\<lparr>ct_id = 1, ct_store_id = 2, ct_name = ''Bread'', ct_price = from_cents 11400 EGP,
       ct_sku = None, ct_product_type = Physical, ct_status = ProductActive, ct_weight = None, ct_images = [], ct_category_id = None,
       ct_requires_shipping = True, ct_tax_exempt = False, ct_sale_price = None, ct_sale_starts_at = None, ct_sale_ends_at = None\<rparr>],
     cg_variants = [\<lparr>cv_id = 11, cv_price = from_cents 9000 EGP, cv_sku = None, cv_weight = None, cv_image_url = None,
       cv_fulfillment_type = Physical, cv_requires_shipping = True\<rparr>]\<rparr>"

definition demo_cart_env :: "instant \<Rightarrow> cart_env" where
  "demo_cart_env n = \<lparr>ce_now = n, ce_cart_id = 70, ce_session_id = 71\<rparr>"

definition demo_add :: "int \<Rightarrow> add_request" where
  "demo_add q = \<lparr>aq_product_id = 1, aq_variant_id = Some 11, aq_quantity = q, aq_selected_options = []\<rparr>"

lemma no_carts_ok [simp]: "carts_ok no_carts"
  by (simp add: no_carts_def carts_ok_def)

lemma no_carts_open:
  "cart_for e (Visitor k s) no_carts = Inr (new_cart e k s None)"
  "cart_for e (Buyer u s) no_carts = Inr (new_cart e (ce_session_id e) s (Some u))"
  by (simp_all add: no_carts_def cart_for_def get_or_create_guest_cart_def get_or_create_cart_def get_by_session_id_def
      get_by_customer_id_def read_cart_def redis_get_def)

lemma demo_added:
  obtains c db where "sdk_add_item demo_shelf demo_stock (demo_cart_env 5) (Visitor 8 2) (demo_add 9) no_carts = Inr (c, db)"
proof -
  have "case sdk_add_item demo_shelf demo_stock (demo_cart_env 5) (Visitor 8 2) (demo_add 9) no_carts of Inl _ \<Rightarrow> False | Inr _ \<Rightarrow> True"
    by code_simp
  then show thesis using that by (auto split: sum.splits prod.splits)
qed

theorem added_within_stock_witness:
  "\<exists>c db. sdk_add_item demo_shelf demo_stock (demo_cart_env 5) (Visitor 8 2) (demo_add 9) no_carts = Inr (c, db)
     \<and> cart_qty c (key_of 1 (Some 11)) = 3"
proof (rule demo_added)
  fix c db assume a: "sdk_add_item demo_shelf demo_stock (demo_cart_env 5) (Visitor 8 2) (demo_add 9) no_carts = Inr (c, db)"
  have v: "catalog_find demo_shelf demo_stock 1 = Some (hd (cg_products demo_shelf), hd (sk_products demo_stock))"
    "variant_find demo_shelf demo_stock 11 = Some (hd (cg_variants demo_shelf), hd (sk_variants demo_stock))"
    "pd_continue_selling (hd (sk_products demo_stock)) = False" "vr_inventory_quantity (hd (sk_variants demo_stock)) = 3"
    by (simp_all add: demo_shelf_def demo_stock_def catalog_find_def variant_find_def)
  have q: "aq_product_id (demo_add 9) = 1" "aq_variant_id (demo_add 9) = Some 11" "aq_quantity (demo_add 9) = 9"
    by (simp_all add: demo_add_def)
  have z: "cart_qty (new_cart (demo_cart_env 5) 8 2 None) k = 0" for k by (simp add: new_cart_def cart_qty_def)
  show ?thesis using added_within_stock [OF no_carts_ok no_carts_open(1) a] a by (auto simp: q v z)
qed

definition demo_cart_world :: cart_world where
  "demo_cart_world = \<lparr>cr_catalog = demo_shelf, cr_stock = demo_stock,
     cr_offers = \<lparr>os_promotions = demo_sale, os_coupons = [demo_coupon CtPercentage 20 None None]\<rparr>, cr_tenant = Some 9, cr_tags = [],
     cr_abandoned = [\<lparr>ab_id = 5, ab_store_id = 2,
       ab_line_items = [\<lparr>vl_product_id = Some 1, vl_variant_id = Some 11, vl_quantity = 2\<rparr>], ab_recovered_at = None\<rparr>],
     cr_orders = []\<rparr>"

definition demo_cart_calls :: "(cart_world \<times> cart_env \<times> cart_call) list" where
  "demo_cart_calls = [(demo_cart_world, demo_cart_env 5, SdkAdd (Visitor 8 2) (demo_add 9)),
     (demo_cart_world, demo_cart_env 6, LoginTransfer (uuid_str 8) 3 2)]"

definition demo_guest :: cart where
  "demo_guest = (new_cart (demo_cart_env 5) 8 2 None)\<lparr>cart_items := [demo_item 1 2 10000]\<rparr>"

definition demo_carts :: redis_carts where
  "demo_carts = snd (save_cart 5 demo_guest no_carts)"

lemma demo_guest_ok: "cart_wf demo_guest" "owned_by (Visitor 8 2) demo_guest" "carts_ok demo_carts"
proof -
  show wf: "cart_wf demo_guest" by (simp add: demo_guest_def cart_wf_def demo_item_ok)
  show "owned_by (Visitor 8 2) demo_guest" by (simp add: demo_guest_def new_cart_def owned_by_def)
  show "carts_ok demo_carts" unfolding demo_carts_def by (rule carts_ok_save [OF no_carts_ok wf])
qed

theorem carts_always_open_witness:
  "\<exists>c. cart_for (demo_cart_env 9) (Visitor 8 2) (serve_all cart_act demo_cart_calls no_carts) = Inr c
    \<and> cart_store_id c = 2 \<and> distinct (map (\<lambda>i. (ci_product_id i, ci_variant_id i)) (cart_items c))"
  using carts_always_open [OF no_carts_ok, of "demo_cart_env 9" "Visitor 8 2" demo_cart_calls] by auto

theorem carts_of_other_stores_untouched_witness:
  "cart_for (demo_cart_env 9) (Visitor 8 3) (serve_all cart_act demo_cart_calls no_carts)
    = Inr (new_cart (demo_cart_env 9) 8 3 None)"
  using carts_of_other_stores_untouched [OF no_carts_ok, of demo_cart_calls "Visitor 8 3" "demo_cart_env 9"]
  by (simp add: demo_cart_calls_def no_carts_open)

theorem recover_is_idempotent_witness:
  "\<exists>c1 db1 c2 db2. sdk_recover_cart demo_shelf demo_stock (cr_abandoned demo_cart_world) (demo_cart_env 5) (Visitor 8 2) 5 no_carts = Inr (c1, db1)
     \<and> sdk_recover_cart demo_shelf demo_stock (cr_abandoned demo_cart_world) (demo_cart_env 9) (Visitor 8 2) 5 db1 = Inr (c2, db2)
     \<and> map ci_quantity (cart_items c1) = [2] \<and> map ci_quantity (cart_items c2) = [2] \<and> 2 \<le> cart_qty c1 (key_of 1 (Some 11))"
proof -
  let ?rows = "cr_abandoned demo_cart_world"
  have "case sdk_recover_cart demo_shelf demo_stock ?rows (demo_cart_env 5) (Visitor 8 2) 5 no_carts of
      Inl _ \<Rightarrow> False | Inr (c, _) \<Rightarrow> map ci_quantity (cart_items c) = [2]" by code_simp
  then obtain c1 db1 where r: "sdk_recover_cart demo_shelf demo_stock ?rows (demo_cart_env 5) (Visitor 8 2) 5 no_carts = Inr (c1, db1)"
      "map ci_quantity (cart_items c1) = [2]" by (auto split: sum.splits prod.splits)
  have t: "ce_now (demo_cart_env 9) < expires_after (ce_now (demo_cart_env 5))"
    by (simp add: demo_cart_env_def expires_after_def default_ttl_seconds_def)
  have row: "List.find (\<lambda>a. ab_id a = 5 \<and> ab_store_id a = owner_store (Visitor 8 2)) ?rows = Some (hd ?rows)"
      "ab_recovered_at (hd ?rows) = None" "ab_line_items (hd ?rows) \<noteq> []"
    by (simp_all add: demo_cart_world_def)
  note h = recover_is_idempotent [OF no_carts_ok row no_carts_open(1) r(1) t]
  have l: "line_key (hd (ab_line_items (hd ?rows))) = Some (key_of 1 (Some 11))"
      "hd (ab_line_items (hd ?rows)) \<in> set (ab_line_items (hd ?rows))"
    by (simp_all add: demo_cart_world_def line_key_def)
  have sells: "still_to_sell demo_shelf demo_stock (owner_store (Visitor 8 2)) (hd (ab_line_items (hd ?rows))) = 2" by code_simp
  have top: "2 \<le> cart_qty c1 (key_of 1 (Some 11))" using h l sells by fastforce
  obtain c2 db2 where "sdk_recover_cart demo_shelf demo_stock ?rows (demo_cart_env 9) (Visitor 8 2) 5 db1 = Inr (c2, db2)"
      "cart_items c2 = map stored_item (cart_items c1)"
    using h by blast
  then show ?thesis using r top by (intro exI conjI) (assumption+, simp add: comp_def)
qed

theorem login_merges_carts_witness:
  "\<exists>c db. transfer_to_customer 70 6 (uuid_str 8) 3 2 demo_carts = Inr (Some c, db) \<and> cart_qty c (key_of 1 None) = 2"
proof -
  obtain c' where s: "save_cart 5 demo_guest no_carts = (c', demo_carts)" by (cases "save_cart 5 demo_guest no_carts") (simp add: demo_carts_def)
  have t: "ce_now (demo_cart_env 6) < expires_after 5" "ce_now (demo_cart_env 6) \<le> ce_now (demo_cart_env 9)"
      "ce_now (demo_cart_env 9) < expires_after (ce_now (demo_cart_env 6))"
    by (simp_all add: demo_cart_env_def expires_after_def default_ttl_seconds_def)
  note guest = open_after_save [OF demo_guest_ok(1,2) t(1) s]
  have q: "cart_qty c' = cart_qty demo_guest" using s by (auto simp: save_cart_def Let_def cart_qty_def)
  have mine: "cart_for (demo_cart_env 6) (Buyer 3 2) demo_carts = Inr (new_cart (demo_cart_env 6) 71 2 (Some 3))"
    by (simp add: demo_carts_def save_cart_def Let_def demo_guest_def new_cart_def cart_for_def get_or_create_cart_def
        get_by_customer_id_def read_cart_def redis_get_def no_carts_def demo_cart_env_def)
  have there: "get_by_session_id (ce_cart_id (demo_cart_env 6)) (ce_now (demo_cart_env 6)) (uuid_str 8) 2 demo_carts \<noteq> Inr None"
    using t(1) by (simp add: demo_carts_def save_cart_def Let_def demo_guest_def new_cart_def get_by_session_id_def read_none_iff
        redis_get_def no_carts_def)
  obtain c db where "transfer_to_customer (ce_cart_id (demo_cart_env 6)) (ce_now (demo_cart_env 6)) (uuid_str 8) 3 2 demo_carts = Inr (Some c, db)"
      "\<forall>x. cart_qty c x = cart_qty (new_cart (demo_cart_env 6) 71 2 (Some 3)) x + cart_qty (as_stored c') x"
    using login_merges_carts [OF demo_guest_ok(3) guest mine there t(2,3)] by blast
  moreover have "cart_qty (new_cart (demo_cart_env 6) 71 2 (Some 3)) (key_of 1 None) = 0"
    by (simp add: cart_qty_def new_cart_def)
  moreover have "cart_qty demo_guest (key_of 1 None) = 2"
    by (simp add: cart_qty_def demo_guest_def demo_item_def item_key_def)
  ultimately have "cart_qty c (key_of 1 None) = 2 \<and> transfer_to_customer 70 6 (uuid_str 8) 3 2 demo_carts = Inr (Some c, db)"
    by (simp add: q) (simp add: demo_cart_env_def)
  then show ?thesis by blast
qed

theorem cart_shown_adds_up_witness:
  "let c = demo_guest\<lparr>cart_discount_code := Some ''SAVE''\<rparr>; r = build_cart_response demo_shelf demo_stock (cr_offers demo_cart_world) 15 [] c
   in cx_total r = cx_subtotal r - cx_discount_amount r \<and> 0 \<le> cx_automatic_discount_cents r \<and> map cw_id (cx_items r) = [key_of 1 None]"
proof -
  let ?c = "demo_guest\<lparr>cart_discount_code := Some ''SAVE''\<rparr>"
  have wf: "cart_wf ?c" using demo_guest_ok(1) by (simp add: cart_wf_def)
  have "distinct (map pr_id (db_promotions (os_promotions (cr_offers demo_cart_world))))"
      "\<forall>code cp. cart_discount_code ?c = Some code
        \<and> coupon_get_by_code (cart_store_id ?c) code (os_coupons (cr_offers demo_cart_world)) = Some cp \<longrightarrow> saving_coupon cp"
    by (simp_all add: demo_cart_world_def demo_sale_def demo_promotion_def saving_coupon_def coupon_ok_def demo_coupon_def opt_nonneg_def
        coupon_get_by_code_def)
  note shown = cart_shown_adds_up [OF wf this refl, of demo_shelf demo_stock 15 "[]"]
  have "map item_key (filter (\<lambda>i. case catalog_find demo_shelf demo_stock (ci_product_id i) of
          None \<Rightarrow> False | Some (p, _) \<Rightarrow> ct_status p \<in> set purchasable_statuses) (cart_items ?c)) = [key_of 1 None]"
    by (simp add: demo_guest_def demo_item_def demo_shelf_def demo_stock_def catalog_find_def purchasable_statuses_def item_key_def)
  with shown show ?thesis unfolding Let_def by metis
qed

theorem checkout_empties_carts_witness:
  "\<exists>db. clear_after_checkout 70 6 3 (Some (uuid_str 8)) 2 demo_carts = Inr db
     \<and> get_by_session_id 70 7 (uuid_str 8) 2 db = Inr None"
proof -
  have "uuid_str 8 \<noteq> []" using length_uuid_str [of 8] by fastforce
  from checkout_empties_carts [OF demo_guest_ok(3) this, of 6 7 70 3 2] show ?thesis by auto
qed

end
