(* ===== verification/Spec2Isabelle.thy ===== *)
theory Spec2Isabelle
  imports Money Cart Order Refund_Desk Order_Return Coupon_Use_Cases Discount_Calculator
    Promotion_Resolver Gift_Card Wallet_Books Order_Stock Inventory Shipping_Offers Tax Cod_Rules Cart_Discounts
    Checkout_Books Cart_Sessions
begin

text \<open>
  A verification development of the NUMU commerce API (the Python package under \<open>src/src/\<close>): money
  and carts, orders with their refunds and returns, coupons and promotions, gift cards, the merchant
  wallet from which the platform takes its commission, the stock of products, variants and
  locations, shipping rates, tax, the carts the storefront keeps for its visitors, and its checkout, which
  brings these together.

  \<^bold>\<open>The program.\<close> Entities under \<open>src/core/entities/\<close> and \<open>src/core/value_objects/\<close> carry state and its
  transition tables; services under \<open>src/core/services/\<close> and \<open>src/application/services/\<close> and the use
  cases under \<open>src/application/use_cases/\<close> read and write them through repositories
  (\<open>src/infrastructure/repositories/\<close>); webhooks, event handlers and scheduled tasks call the use
  cases. A cart is priced with \<open>Money\<close>; the discount calculator asks the rules, the eligibility
  checker and the targets of every promotion; an order starts from what the cart came to, and its
  refunds and returns follow it; the paid event of an order makes the commission handler debit the
  wallet of the store's tenant. An order debits the stock of its lines and notes in its metadata what it
  took; cancellation, return and partial acceptance put that back. The checkout of the storefront prices
  the lines from the catalogue, redeems the coupon, asks the offers engine, debits the stock, resolves the
  shipping rate, applies the cash-on-delivery rules, works out the included tax and creates the order.

  \<^bold>\<open>Theories and sources.\<close>

  \<^item> \<open>Numu_Prelude\<close>: identifiers, instants, exceptions as values, JSON values, Python strings and
    numerics, request streams (\<open>serve_all\<close>) and generic lemmas. \<open>Tables\<close>: tables as lists of rows
    with a key. \<open>Py_Digits\<close>: decimal texts of integers. \<open>Status_Machine\<close>, \<open>Bag_Contract\<close>, \<open>Ledger\<close>: the interfaces (locales) of transition
    tables, keyed bags of quantities and append-only ledgers; every one is interpreted on the
    definitions of the components that provide it. \<open>Cheapest\<close>: sums of the cheapest units.
  \<^item> \<open>Money\<close>: \<open>value_objects/money.py\<close>. \<open>Cart\<close>: \<open>value_objects/cart_item.py\<close> and \<open>entities/cart.py\<close>.
  \<^item> \<open>Order\<close>: \<open>entities/order.py\<close>; \<open>Refund\<close>: \<open>entities/refund.py\<close>; \<open>Order_Return\<close>:
    \<open>entities/order_return.py\<close>, each a status table with its operations and its audit trail.
  \<^item> \<open>Coupon\<close>: \<open>entities/coupon.py\<close>; \<open>Coupon_Use_Cases\<close>: \<open>use_cases/coupons/\<close> over the coupon table.
  \<^item> \<open>Discount_Rule\<close>: \<open>value_objects/discount_rule.py\<close>; \<open>Promotion\<close>: \<open>entities/promotion*.py\<close>;
    \<open>Eligibility\<close>: \<open>services/promotion_eligibility_checker.py\<close>; \<open>Discount_Calculator\<close>:
    \<open>services/discount_calculator.py\<close>; \<open>Promotion_Resolver\<close>: \<open>services/promotion_resolver.py\<close>.
  \<^item> \<open>Gift_Card\<close>: \<open>entities/gift_card.py\<close>, its service and its repository.
  \<^item> \<open>Auto_Approval\<close>: the rules engine for transfer receipts. \<open>Wallet\<close>: the wallet tables, the single
    write path of the ledger, holds and the warning ladder. \<open>Wallet_Topup\<close>: creation, receipts,
    review, expiry, gateway callbacks and administration. \<open>Wallet_Commission\<close>: plans, rates, the
    handler of paid orders, the nightly sweep and the checkout gate. \<open>Wallet_Books\<close>: the invariants
    of all these calls together.
  \<^item> \<open>Stock\<close>: \<open>services/stock_service.py\<close> over the tables of products, variants and levels, with the
    debits of \<open>use_cases/orders/create_order.py\<close> and the returned pieces of a partial acceptance;
    \<open>Stock_Calls\<close>: the stock of a shop and the notes of its orders over time. \<open>Inventory\<close>:
    \<open>services/inventory_service.py\<close>, its repositories, the transfer entity and their routes.
  \<^item> \<open>Refund_Desk\<close>: \<open>use_cases/refunds/\<close> over the tables of refunds and orders, with the answers of
    the payment provider. \<open>Order_Desk\<close>: \<open>use_cases/orders/\<close> (creation, edits, status changes, cash
    confirmation) and the partial acceptance of \<open>routes/stores/orders.py\<close> over the tables of orders
    and stock; \<open>Order_Stock\<close>: its refinement to the shop of \<open>Stock_Calls\<close>, closed orders, totals.
  \<^item> \<open>Geography\<close>: \<open>value_objects/geography.py\<close>; \<open>Shipping\<close>: zones, rates and presets
    (\<open>entities/shipping_*.py\<close>, their repository, \<open>routes/stores/shipping.py\<close>, \<open>routes/stores/cod.py\<close>) and
    \<open>services/shipping_resolver.py\<close>; \<open>Shipping_Offers\<close>: what the resolver promises.
  \<^item> \<open>Py_Float\<close>: IEEE doubles as rationals with rounding; \<open>Tax\<close>: \<open>services/tax_resolver.py\<close>; \<open>Cod_Rules\<close>:
    \<open>services/cod_rules.py\<close> and the deposit policy of \<open>schemas/tenant/settings.py\<close>; \<open>Cart_Discounts\<close>:
    \<open>use_cases/promotions/calculate_cart_discounts.py\<close> and the snapshot of an order's promotions.
  \<^item> \<open>Checkout_Lines\<close>: the catalogue (\<open>entities/product.py\<close>, \<open>entities/variant.py\<close>), the pricing and the debit of
    the lines, and \<open>Checkout\<close>: the handler of \<open>routes/storefront/checkout.py\<close> (\<open>storefront_checkout\<close>), whose
    amounts are \<open>checkout_totals_of\<close>; \<open>Checkout_Books\<close>: checkouts and order use cases in any order.
  \<^item> \<open>Cart_Store\<close>: the carts in Redis (\<open>repositories/cart_repository.py\<close>) and the requests on them
    (\<open>routes/storefront/cart.py\<close>, \<open>cart_sdk_aliases.py\<close>), with codes, recovery, reordering (\<open>customer.py\<close>), the phone
    left with a one-time code (\<open>identity.py\<close>) and the cart as shown;
    \<open>Cart_Sessions\<close>: the store over any sequence of these requests, logins and checkouts.

  \<^bold>\<open>State and operations.\<close> A class is a record, an enum a datatype, and each method, use case or
  handler is a function from the state to a result: \<open>Inl\<close> an exception, \<open>Inr\<close> the new state and
  what is returned. A method that raises has no effect on the state, as the transaction around it is
  rolled back; where the code catches an exception and goes on, so does the model. Tables are lists
  of rows in the order of insertion; unique constraints are checks on insertion, and row locks mean
  that calls take effect one after the other. \<open>serve_all\<close> runs any sequence of calls, the refused
  ones included, and the invariants are about the states it reaches.

  \<^bold>\<open>What the lemmas show.\<close> Functional behaviour on every branch (money, carts, payments, the discount
  kinds, gift cards); transition tables that no sequence of calls leaves, with terminal states and
  complete trails (orders, refunds, returns, promotions); the greedy multibuy and bundle loops
  against declarative groupings; bounds of every discount and the reconciliation of the totals with
  their breakdown; uniqueness and usage limits of coupons; ledgers that balance at all times (gift
  cards, wallets), with holds equal to what is under review and top-ups and commissions that are
  booked once; stock that is conserved between counts, open orders and locations; refunds that stay
  within what an order collected; order use cases that refine the shop of stock and notes; zones and rates
  that resolve at checkout to what was offered; inclusive tax that adds up over the lines; checkouts that charge
  catalogue prices, itemise their discounts within the subtotal, charge the configured rates for delivery, and book
  stock, coupons and customers together with the order; stored carts that always read, belong to their
  owner and store, grow by what was asked for up to the stock of a variant, are topped up once by a recovery, merged at
  login, shown with amounts that add up and emptied by a checkout.

  \<^bold>\<open>Bounds and termination.\<close> Nothing runs on fuel: all loops are structural recursion or \<open>function\<close>s
  with a measure, so every operation is total. Python integers are \<open>int\<close>, decimals are exact
  rationals (the code's 28 significant digits are not reached by amounts that fit their columns),
  and a UUID is a word of 128 bits. Python floats occur in tax, shares of discounts and weights and are rationals rounded
  to 53 bits after every operation.

  \<^bold>\<open>Conventions.\<close> The clock is read once per operation; random draws, digests, uploads and the text
  recognition are arguments; explanation strings are constructors; text is ASCII; rows that an
  \<open>ORDER BY\<close> leaves tied stay in the order of the table; the surface content of a promotion is an
  opaque payload and target values are lists of strings; Redis is a map from keys to values that expire at an instant.

  \<^bold>\<open>Not modelled.\<close> HTTP routes and authentication (apart from the guards of the routes named above),
  the ORM and the database engine, Redis caches and replay nonces, notifications and logging,
  payment gateways and couriers, themes and rendering, analytics and marketing: they hold no core state
  or call services outside the repository. Of the checkout handler: the creation of guest customers, verification
  codes, saved cards, pickup locations, gift card validation and idempotent replay before the pricing, and the
  dispatch to gateways, notifications and funnel events after the order. The use case of
  \<open>use_cases/orders/checkout.py\<close> and those of
  \<open>use_cases/cart/\<close>, which no route calls. The editing of promotions, app billing and account lockout.
\<close>

end
